(* ===== verification/Setec_Prelude.thy ===== *)
theory Setec_Prelude
  imports Main "HOL-Library.Word"
begin

text \<open>
  Shared vocabulary of the development: the machine types of the C++ code, the outcome of a
  C++ call (it returns, it has undefined behaviour, it does not return), byte buffers with the
  two primitive ways the code writes into them (a single byte store, a block copy), and the
  interface of a fixed-width field in a buffer, which the integer encodings of the partition
  table code implement.
\<close>

unbundle bit_operations_syntax

section \<open>Machine types\<close>

type_synonym u8 = "8 word"
type_synonym u16 = "16 word"
type_synonym u32 = "32 word"
type_synonym u64 = "64 word"

text \<open>A \<open>std::vector<uint8_t>\<close>, and a \<open>std::string\<close> used as a sequence of bytes.\<close>

type_synonym bytes = "u8 list"

lemma byte_up_down [simp]:
  "(ucast (ucast (b :: u8) :: u16) :: u8) = b"
  "(ucast (ucast (b :: u8) :: u32) :: u8) = b"
  "(ucast (ucast (b :: u8) :: u64) :: u8) = b"
  by (auto intro!: bit_word_eqI simp: bit_simps)

text \<open>Conversions between widths, and the range of a word as a number.\<close>

lemma unat_ucast_32_64: "unat (ucast (x :: u32) :: u64) = unat x"
  by (simp add: unsigned_ucast_eq take_bit_nat_eq_self [OF order.strict_trans2 [OF unsigned_less]])

lemma unat_ucast_64_32: "unat (x :: u64) < 2 ^ 32 \<Longrightarrow> unat (ucast x :: u32) = unat x"
  by (simp add: unsigned_ucast_eq take_bit_nat_eq_self)

lemma unat_less_32: "unat (x :: u32) < 4294967296"
  using unsigned_less [of x, where ?'a = nat] by simp

lemma unat_less_64: "unat (x :: u64) < 18446744073709551616"
  using unsigned_less [of x, where ?'a = nat] by simp

section \<open>Fact collections\<close>

named_theorems buf_simps \<open>reads of a buffer after writes, and buffer lengths\<close>
named_theorems run_simps \<open>unfolding of the outcome combinators\<close>
named_theorems table_inv \<open>preservation of a partition table's invariant by its operations\<close>

section \<open>Outcomes\<close>

text \<open>
  \<open>Done x\<close>: the call returns \<open>x\<close>. \<open>Undef\<close>: the execution reads or writes outside a buffer, or
  divides by zero, which C++ leaves undefined. \<open>Diverges\<close>: the call does not return.
\<close>

datatype 'a run = Done 'a | Undef | Diverges

fun run_bind :: "'a run \<Rightarrow> ('a \<Rightarrow> 'b run) \<Rightarrow> 'b run" where
  "run_bind (Done x) f = f x"
| "run_bind Undef f = Undef"
| "run_bind Diverges f = Diverges"

definition run_of_option :: "'a option \<Rightarrow> 'a run" where
  "run_of_option r = (case r of None \<Rightarrow> Diverges | Some x \<Rightarrow> Done x)"

text \<open>\<open>require b\<close> marks an access that is defined only if \<open>b\<close> holds.\<close>

definition require :: "bool \<Rightarrow> 'a run \<Rightarrow> 'a run" where
  "require b r = (if b then r else Undef)"

lemma run_bind_Done_iff [run_simps]:
  "run_bind r f = Done y \<longleftrightarrow> (\<exists>x. r = Done x \<and> f x = Done y)"
  by (cases r) auto

lemma run_of_option_simps [simp]:
  "run_of_option None = Diverges" "run_of_option (Some x) = Done x"
  by (simp_all add: run_of_option_def)

lemma run_of_option_Done_iff [simp]: "run_of_option r = Done x \<longleftrightarrow> r = Some x"
  by (cases r) auto

lemma require_Done_iff [run_simps]: "require b r = Done x \<longleftrightarrow> b \<and> r = Done x"
  by (simp add: require_def)

lemma require_True [simp]: "b \<Longrightarrow> require b r = r"
  by (simp add: require_def)

lemma require_False [simp]: "\<not> b \<Longrightarrow> require b r = Undef"
  by (simp add: require_def)

section \<open>Byte buffers\<close>

text \<open>\<open>blit off bs buf\<close> is \<open>memcpy(buf + off, bs, |bs|)\<close>; \<open>slice off n buf\<close> reads \<open>n\<close> bytes.\<close>

definition blit :: "nat \<Rightarrow> 'a list \<Rightarrow> 'a list \<Rightarrow> 'a list" where
  "blit off bs buf = take off buf @ bs @ drop (off + length bs) buf"

definition slice :: "nat \<Rightarrow> nat \<Rightarrow> 'a list \<Rightarrow> 'a list" where
  "slice off n buf = take n (drop off buf)"

lemma length_blit [simp, buf_simps]:
  "off + length bs \<le> length buf \<Longrightarrow> length (blit off bs buf) = length buf"
  by (simp add: blit_def)

lemma length_slice [simp, buf_simps]:
  "off + n \<le> length buf \<Longrightarrow> length (slice off n buf) = n"
  by (simp add: slice_def)

lemma nth_blit [buf_simps]:
  assumes "off + length bs \<le> length buf"
  shows "blit off bs buf ! i =
    (if off \<le> i \<and> i < off + length bs then bs ! (i - off) else buf ! i)"
proof -
  consider "i < off" | "off \<le> i \<and> i < off + length bs" | "off + length bs \<le> i" by linarith
  then show ?thesis
  proof cases
    case 1
    with assms show ?thesis by (simp add: blit_def nth_append)
  next
    case 2
    then have "i - off < length bs" by linarith
    with 2 assms show ?thesis by (simp add: blit_def nth_append)
  next
    case 3
    then obtain k where "i = off + length bs + k" by (auto simp: le_iff_add)
    with assms show ?thesis by (simp add: blit_def nth_append)
  qed
qed

lemma nth_slice [buf_simps]:
  "i < n \<Longrightarrow> off + n \<le> length buf \<Longrightarrow> slice off n buf ! i = buf ! (off + i)"
  by (simp add: slice_def)

lemma slice_eqI:
  assumes "off + n \<le> length buf" "length bs = n" "\<And>i. i < n \<Longrightarrow> buf ! (off + i) = bs ! i"
  shows "slice off n buf = bs"
  by (rule nth_equalityI) (use assms in \<open>simp_all add: nth_slice\<close>)

lemma slice_blit_same [buf_simps]:
  "off + length bs \<le> length buf \<Longrightarrow> slice off (length bs) (blit off bs buf) = bs"
  by (simp add: slice_def blit_def)

lemma slice_blit_other [buf_simps]:
  assumes "off + length bs \<le> length buf" "o2 + n \<le> length buf"
    "o2 + n \<le> off \<or> off + length bs \<le> o2"
  shows "slice o2 n (blit off bs buf) = slice o2 n buf"
  by (rule slice_eqI) (use assms in \<open>auto simp: nth_blit nth_slice\<close>)

lemma slice_append_left [buf_simps]:
  "off + n \<le> length xs \<Longrightarrow> slice off n (xs @ ys) = slice off n xs"
  by (simp add: slice_def)

lemma slice_append_right [buf_simps]:
  "length xs \<le> off \<Longrightarrow> slice off n (xs @ ys) = slice (off - length xs) n ys"
  by (simp add: slice_def)

lemma slice_all [simp]: "length buf \<le> n \<Longrightarrow> slice 0 n buf = buf"
  by (simp add: slice_def)

lemma slice_slice [buf_simps]:
  "b + m \<le> n \<Longrightarrow> slice b m (slice a n buf) = slice (a + b) m buf"
  by (simp add: slice_def drop_take add.commute min_def)

section \<open>Fixed-width fields\<close>

text \<open>
  The interface of a field of \<open>width\<close> bytes at an offset of a buffer. A provider promises that
  a value written is read back, that a write changes nothing outside the field and that a read
  looks at nothing outside it. What the client gets: writes to disjoint fields do not disturb
  each other, whatever their codecs are.
\<close>

locale field_codec =
  fixes width :: nat
    and wr :: "bytes \<Rightarrow> nat \<Rightarrow> 'v \<Rightarrow> bytes"
    and rd :: "bytes \<Rightarrow> nat \<Rightarrow> 'v"
  assumes wr_length: "length (wr buf off v) = length buf"
    and rd_wr: "off + width \<le> length buf \<Longrightarrow> rd (wr buf off v) off = v"
    and wr_frame: "i < off \<or> off + width \<le> i \<Longrightarrow> wr buf off v ! i = buf ! i"
    and rd_cong: "(\<And>i. off \<le> i \<Longrightarrow> i < off + width \<Longrightarrow> buf ! i = buf' ! i) \<Longrightarrow>
      rd buf off = rd buf' off"
begin

lemma rd_frame:
  assumes "\<And>i. i < off2 \<or> off2 + w2 \<le> i \<Longrightarrow> buf' ! i = buf ! i"
    and "off + width \<le> off2 \<or> off2 + w2 \<le> off"
  shows "rd buf' off = rd buf off"
  by (rule rd_cong) (use assms in auto)

lemma rd_update_other:
  "j < off \<or> off + width \<le> j \<Longrightarrow> rd (buf[j := x]) off = rd buf off"
  by (rule rd_cong) auto

lemma rd_blit_other:
  assumes "off2 + length bs \<le> length buf" "off + width \<le> off2 \<or> off2 + length bs \<le> off"
  shows "rd (blit off2 bs buf) off = rd buf off"
  by (rule rd_cong) (use assms in \<open>auto simp: nth_blit\<close>)

lemma rd_wr_other:
  "off + width \<le> off2 \<or> off2 + width \<le> off \<Longrightarrow> rd (wr buf off2 v) off = rd buf off"
  by (rule rd_frame [of off2 width]) (auto intro: wr_frame)

lemma slice_wr_other:
  assumes "o2 + n \<le> length buf" "o2 + n \<le> off \<or> off + width \<le> o2"
  shows "slice o2 n (wr buf off v) = slice o2 n buf"
  by (rule slice_eqI) (use assms in \<open>auto simp: wr_length nth_slice wr_frame\<close>)

lemma rd_slice:
  assumes "off + width \<le> n" "a + n \<le> length buf"
  shows "rd (slice a n buf) off = rd (drop a buf) off"
  by (rule rd_cong) (use assms in \<open>auto simp: nth_slice\<close>)

lemma rd_append:
  "off + width \<le> length xs \<Longrightarrow> rd (xs @ ys) off = rd xs off"
  by (rule rd_cong) (auto simp: nth_append)

end

section \<open>Lists\<close>

text \<open>\<open>std::find_if\<close>: the first position that satisfies a predicate, \<open>end()\<close> as \<open>None\<close>.\<close>

fun find_index :: "('a \<Rightarrow> bool) \<Rightarrow> 'a list \<Rightarrow> nat option" where
  "find_index P [] = None"
| "find_index P (x # xs) = (if P x then Some 0 else map_option Suc (find_index P xs))"

lemma find_index_None_iff: "find_index P xs = None \<longleftrightarrow> (\<forall>x \<in> set xs. \<not> P x)"
  by (induction xs) auto

lemma find_index_Some_iff:
  "find_index P xs = Some i \<longleftrightarrow> i < length xs \<and> P (xs ! i) \<and> (\<forall>j < i. \<not> P (xs ! j))"
proof (induction xs arbitrary: i)
  case Nil
  then show ?case by simp
next
  case (Cons x xs)
  show ?case
  proof (cases i)
    case 0
    then show ?thesis by auto
  next
    case (Suc k)
    with Cons.IH [of k] show ?thesis by (auto simp: All_less_Suc2)
  qed
qed

lemmas find_index_SomeD = find_index_Some_iff [THEN iffD1]

text \<open>\<open>vector::erase(it)\<close>: the list without its \<open>i\<close>-th element.\<close>

definition erase_at :: "nat \<Rightarrow> 'a list \<Rightarrow> 'a list" where
  "erase_at i xs = take i xs @ drop (Suc i) xs"

lemma set_erase_at_subset: "set (erase_at i xs) \<subseteq> set xs"
  by (auto simp: erase_at_def dest: in_set_takeD in_set_dropD)

lemma length_erase_at [simp]: "i < length xs \<Longrightarrow> length (erase_at i xs) = length xs - 1"
  by (simp add: erase_at_def)

lemma map_erase_at: "map f (erase_at i xs) = erase_at i (map f xs)"
  by (simp add: erase_at_def take_map drop_map)

lemma distinct_erase_at: "distinct xs \<Longrightarrow> distinct (erase_at i xs)"
  by (auto simp: erase_at_def distinct_append dest: in_set_takeD in_set_dropD)
    (metis disjoint_iff set_take_disj_set_drop_if_distinct order_refl Suc_n_not_le_n le_SucI)

lemma set_erase_at_distinct:
  assumes "distinct xs" "i < length xs"
  shows "set (erase_at i xs) = set xs - {xs ! i}"
proof -
  have split: "take i xs @ xs ! i # drop (Suc i) xs = xs"
    using assms(2) by (rule id_take_nth_drop [symmetric])
  then have "distinct (take i xs @ xs ! i # drop (Suc i) xs)" using assms(1) by simp
  moreover have "set xs = set (take i xs @ xs ! i # drop (Suc i) xs)" using split by simp
  ultimately show ?thesis by (auto simp: erase_at_def)
qed

end
