(* ===== verification/Common_Types.thy ===== *)
theory Common_Types
  imports Setec_Prelude
begin

text \<open>
  \<open>src/core/common\<close>: the error values of every fallible operation (\<open>Error.h\<close>, \<open>Result.h\<close>), the
  enumerations and the GUID type (\<open>Types.h\<close>, \<open>Types.cpp\<close>) and the constants of the on-disk
  formats (\<open>Constants.h\<close>). A GUID is printed and scanned with the \<open>printf\<close> and \<open>scanf\<close>
  conversions \<open>%02x\<close> and \<open>%2x\<close>, which are modelled here as the C library defines them.
\<close>

section \<open>Errors and results\<close>

datatype (plugins only: code) ErrorCode =
    Success
  | Unknown | InvalidArgument | NotImplemented | OperationCanceled | InsufficientPrivileges
  | DiskNotFound | DiskAccessDenied | DiskReadError | DiskWriteError | DiskLockFailed
  | DiskDismountFailed | DiskBusy | SectorOutOfRange
  | PartitionNotFound | PartitionTableCorrupt | PartitionTableFull | PartitionOverlap
  | PartitionTooSmall | PartitionTooLarge | InvalidPartitionType | AlignmentError
  | FilesystemNotSupported | FilesystemCorrupt | FormatFailed | ResizeFailed
  | FilesystemTooSmallToShrink | FilesystemCheckFailed
  | NoPartitionsFound | NoFilesRecovered | RecoveryScanFailed
  | ImageCorrupt | ImageChecksumMismatch | ImageReadError | ImageWriteError | IsoParseError
  | InsufficientDiskSpace | DecompressionFailed
  | Fido2DeviceNotFound | Fido2PinRequired | Fido2AuthFailed | EncryptionFailed
  | DecryptionFailed | KeyGenerationFailed
  | SmartNotSupported | SmartReadFailed | BenchmarkFailed
  | BootRepairFailed | BcdNotFound | MbrRepairFailed
  | OutOfMemory | FileNotFound | FileCreateFailed | WmiQueryFailed

record ErrorInfo =
  err_code :: ErrorCode
  err_message :: string
  err_win32Error :: u32
  err_hresult :: int

definition err_isError :: "ErrorInfo \<Rightarrow> bool" where
  "err_isError e \<longleftrightarrow> err_code e \<noteq> Success"

definition err_isOk :: "ErrorInfo \<Rightarrow> bool" where
  "err_isOk e \<longleftrightarrow> err_code e = Success"

definition err_ok :: ErrorInfo where
  "err_ok = \<lparr>err_code = Success, err_message = [], err_win32Error = 0, err_hresult = 0\<rparr>"

definition fromCode :: "ErrorCode \<Rightarrow> string \<Rightarrow> ErrorInfo" where
  "fromCode c msg = \<lparr>err_code = c, err_message = msg, err_win32Error = 0, err_hresult = 0\<rparr>"

definition fromWin32 :: "ErrorCode \<Rightarrow> u32 \<Rightarrow> string \<Rightarrow> ErrorInfo" where
  "fromWin32 c w msg = \<lparr>err_code = c, err_message = msg, err_win32Error = w, err_hresult = 0\<rparr>"

definition fromHResult :: "ErrorCode \<Rightarrow> int \<Rightarrow> string \<Rightarrow> ErrorInfo" where
  "fromHResult c h msg = \<lparr>err_code = c, err_message = msg, err_win32Error = 0, err_hresult = h\<rparr>"

text \<open>\<open>Result<T>\<close> is a variant: the left injection is the \<open>ErrorInfo\<close>, the right one the value.\<close>

type_synonym 'a Result = "ErrorInfo + 'a"

definition isOk :: "'a Result \<Rightarrow> bool" where
  "isOk r = (case r of Inl _ \<Rightarrow> False | Inr _ \<Rightarrow> True)"

definition isError :: "'a Result \<Rightarrow> bool" where
  "isError r = (case r of Inl _ \<Rightarrow> True | Inr _ \<Rightarrow> False)"

definition valueOr :: "'a Result \<Rightarrow> 'a \<Rightarrow> 'a" where
  "valueOr r d = (case r of Inl _ \<Rightarrow> d | Inr v \<Rightarrow> v)"

definition result_map :: "'a Result \<Rightarrow> ('a \<Rightarrow> 'b) \<Rightarrow> 'b Result" where
  "result_map r f = (case r of Inl e \<Rightarrow> Inl e | Inr v \<Rightarrow> Inr (f v))"

definition andThen :: "'a Result \<Rightarrow> ('a \<Rightarrow> 'b Result) \<Rightarrow> 'b Result" where
  "andThen r f = (case r of Inl e \<Rightarrow> Inl e | Inr v \<Rightarrow> f v)"

abbreviation fail :: "ErrorCode \<Rightarrow> string \<Rightarrow> 'a Result" where
  "fail c msg \<equiv> Inl (fromCode c msg)"

abbreviation ok :: "unit Result" where
  "ok \<equiv> Inr ()"

lemma isOk_simps [simp]: "isOk (Inr x)" "\<not> isOk (Inl e)" "isError (Inl e)" "\<not> isError (Inr x)"
  by (simp_all add: isOk_def isError_def)

lemma isOk_iff: "isOk r \<longleftrightarrow> (\<exists>v. r = Inr v)"
  by (cases r) auto

lemma isError_iff: "isError r \<longleftrightarrow> (\<exists>e. r = Inl e)"
  by (cases r) auto

lemma err_code_fromCode [simp]: "err_code (fromCode c msg) = c"
  by (simp add: fromCode_def)

lemma err_code_fromWin32 [simp]: "err_code (fromWin32 c w msg) = c"
  by (simp add: fromWin32_def)

lemma andThen_assoc: "andThen (andThen r f) g = andThen r (\<lambda>x. andThen (f x) g)"
  by (cases r) (simp_all add: andThen_def)

section \<open>Enumerations\<close>

datatype PartitionTableType = UnknownTable | MBR | GPT | APM

datatype (plugins only: code) FilesystemType =
    UnknownFs
  | NTFS | FAT32 | FAT16 | FAT12 | ExFAT | ReFS
  | Ext2 | Ext3 | Ext4 | Btrfs | XFS | ZFS | JFS | ReiserFS | Reiser4
  | HFSPlus | APFS | HFS | MFS
  | FAT8 | HPFS | UFS | FFS | Minix | Xiafs | ADFS | AfFS | OFS | BFS_BeOS | QNX4 | QNX6 | SysV
  | Coherent | Xenix | VxFS | UDF | ISO9660 | RomFS | CramFS | SquashFS | VFAT | UMSDOS
  | F2FS | JFFS2 | NILFS2
  | FATX | STFS | GDFX | PS2MC
  | VHD | VHDX | VMDK | QCOW2 | VDI
  | RVZ | WUA | WBFs | NRG | MDF | CDI
  | CDFS
  | NFS | SMB | HDFS | SWAP_LINUX | SWAP_SOLARIS
  | Raw | Unallocated

datatype DiskAccessMode = ReadOnly | ReadWrite

section \<open>Constants\<close>

abbreviation (input) SECTOR_SIZE_512 :: u32 where "SECTOR_SIZE_512 \<equiv> 512"
abbreviation (input) DEFAULT_SECTOR_SIZE :: u32 where "DEFAULT_SECTOR_SIZE \<equiv> SECTOR_SIZE_512"
abbreviation (input) DEFAULT_ALIGNMENT_BYTES :: u64 where "DEFAULT_ALIGNMENT_BYTES \<equiv> 1048576"
abbreviation (input) MBR_SIGNATURE :: u16 where "MBR_SIGNATURE \<equiv> 0xAA55"
abbreviation (input) MBR_SIZE :: nat where "MBR_SIZE \<equiv> 512"
abbreviation (input) MBR_MAX_PRIMARY_PARTITIONS :: nat where "MBR_MAX_PRIMARY_PARTITIONS \<equiv> 4"
abbreviation (input) MBR_PARTITION_ENTRY_OFFSET :: nat where "MBR_PARTITION_ENTRY_OFFSET \<equiv> 446"
abbreviation (input) MBR_PARTITION_ENTRY_SIZE :: nat where "MBR_PARTITION_ENTRY_SIZE \<equiv> 16"
abbreviation (input) GPT_HEADER_SIGNATURE :: u64 where "GPT_HEADER_SIGNATURE \<equiv> 0x5452415020494645"
abbreviation (input) GPT_HEADER_SIZE :: nat where "GPT_HEADER_SIZE \<equiv> 92"
abbreviation (input) GPT_ENTRY_SIZE :: u32 where "GPT_ENTRY_SIZE \<equiv> 128"
abbreviation (input) GPT_MAX_PARTITIONS :: u32 where "GPT_MAX_PARTITIONS \<equiv> 128"
abbreviation (input) APM_SIGNATURE :: u16 where "APM_SIGNATURE \<equiv> 0x504D"
abbreviation (input) APM_DDM_SIGNATURE :: u16 where "APM_DDM_SIGNATURE \<equiv> 0x4552"
abbreviation (input) EXT_SUPER_MAGIC :: u16 where "EXT_SUPER_MAGIC \<equiv> 0xEF53"

section \<open>GUIDs\<close>

text \<open>\<open>struct Guid\<close>: sixteen bytes; \<open>guid_wf\<close> is the array bound of the C++ type.\<close>

datatype Guid = Guid (guid_data: bytes)

definition guid_wf :: "Guid \<Rightarrow> bool" where
  "guid_wf g \<longleftrightarrow> length (guid_data g) = 16"

definition guid_zero :: Guid where
  "guid_zero = Guid (replicate 16 0)"

definition guid_eq :: "Guid \<Rightarrow> Guid \<Rightarrow> bool" where
  "guid_eq g h \<longleftrightarrow> take 16 (guid_data g) = take 16 (guid_data h)"

definition guid_isZero :: "Guid \<Rightarrow> bool" where
  "guid_isZero g \<longleftrightarrow> (\<forall>i < 16. guid_data g ! i = 0)"

lemma guid_eq_iff: "guid_wf g \<Longrightarrow> guid_wf h \<Longrightarrow> guid_eq g h \<longleftrightarrow> g = h"
  by (cases g; cases h) (simp add: guid_eq_def guid_wf_def)

lemma guid_wf_zero [simp]: "guid_wf guid_zero"
  by (simp add: guid_wf_def guid_zero_def)

lemma guid_isZero_iff: "guid_wf g \<Longrightarrow> guid_isZero g \<longleftrightarrow> g = guid_zero"
  by (cases g) (auto simp: guid_isZero_def guid_zero_def guid_wf_def list_eq_iff_nth_eq)

subsection \<open>Hexadecimal conversions of the C library\<close>

definition hex_digit :: "u8 \<Rightarrow> char" where
  "hex_digit d = ''0123456789abcdef'' ! unat (d AND 15)"

text \<open>\<open>%02x\<close> of a byte.\<close>

definition hex2 :: "u8 \<Rightarrow> string" where
  "hex2 b = [hex_digit (drop_bit 4 b), hex_digit b]"

definition hex_value :: "char \<Rightarrow> u32 option" where
  "hex_value c =
     (let n = of_char c :: nat in
      if 48 \<le> n \<and> n \<le> 57 then Some (of_nat (n - 48))
      else if 97 \<le> n \<and> n \<le> 102 then Some (of_nat (n - 87))
      else if 65 \<le> n \<and> n \<le> 70 then Some (of_nat (n - 55))
      else None)"

definition is_space :: "char \<Rightarrow> bool" where
  "is_space c = (let n = of_char c :: nat in n = 32 \<or> (9 \<le> n \<and> n \<le> 13))"

text \<open>
  \<open>%2x\<close>: skip white space, then take at most two characters of the form that \<open>strtoul\<close> accepts
  in base 16, so a sign and one digit are a value and a bare \<open>0x\<close> is a matching failure.
\<close>

definition scan_2x :: "string \<Rightarrow> (u32 \<times> string) option" where
  "scan_2x s =
     (case dropWhile is_space s of
        [] \<Rightarrow> None
      | c # cs \<Rightarrow>
          if c = CHR ''+'' \<or> c = CHR ''-'' then
            (case cs of
               [] \<Rightarrow> None
             | d # ds \<Rightarrow>
                 (case hex_value d of
                    None \<Rightarrow> None
                  | Some v \<Rightarrow> Some (if c = CHR ''-'' then - v else v, ds)))
          else
            (case hex_value c of
               None \<Rightarrow> None
             | Some v \<Rightarrow>
                 (case cs of
                    [] \<Rightarrow> Some (v, [])
                  | d # ds \<Rightarrow>
                      if c = CHR ''0'' \<and> (d = CHR ''x'' \<or> d = CHR ''X'') then None
                      else
                        (case hex_value d of
                           None \<Rightarrow> Some (v, cs)
                         | Some w \<Rightarrow> Some (16 * v + w, ds)))))"

text \<open>A format of \<open>%2x\<close> conversions (\<open>True\<close>) and literal dashes (\<open>False\<close>).\<close>

fun scan_format :: "bool list \<Rightarrow> string \<Rightarrow> u32 list" where
  "scan_format [] s = []"
| "scan_format (True # fs) s =
     (case scan_2x s of None \<Rightarrow> [] | Some (v, s') \<Rightarrow> v # scan_format fs s')"
| "scan_format (False # fs) s =
     (case s of [] \<Rightarrow> [] | c # cs \<Rightarrow> if c = CHR ''-'' then scan_format fs cs else [])"

definition guid_format :: "bool list" where
  "guid_format =
     [True, True, True, True, False, True, True, False, True, True, False, True, True, False,
      True, True, True, True, True, True]"

text \<open>The order in which the sixteen data bytes are printed and scanned.\<close>

definition guid_order :: "nat list" where
  "guid_order = [3, 2, 1, 0, 5, 4, 7, 6, 8, 9, 10, 11, 12, 13, 14, 15]"

definition toString :: "Guid \<Rightarrow> string" where
  "toString g = (let d = guid_data g in
     hex2 (d ! 3) @ hex2 (d ! 2) @ hex2 (d ! 1) @ hex2 (d ! 0) @ ''-'' @
     hex2 (d ! 5) @ hex2 (d ! 4) @ ''-'' @
     hex2 (d ! 7) @ hex2 (d ! 6) @ ''-'' @
     hex2 (d ! 8) @ hex2 (d ! 9) @ ''-'' @
     hex2 (d ! 10) @ hex2 (d ! 11) @ hex2 (d ! 12) @ hex2 (d ! 13) @ hex2 (d ! 14) @
     hex2 (d ! 15))"

text \<open>\<open>str.c_str()\<close> ends at the first NUL.\<close>

definition fromString :: "string \<Rightarrow> Guid" where
  "fromString str =
     (let vs = scan_format guid_format (takeWhile (\<lambda>c. of_char c \<noteq> (0 :: nat)) str) in
      if length vs = 16
      then Guid (fold (\<lambda>(i, v) d. d[i := ucast v]) (zip guid_order vs) (replicate 16 0))
      else guid_zero)"

text \<open>\<open>Guid::generate\<close>; \<open>rnd i\<close> stands for the \<open>i\<close>-th draw of the standard generator.\<close>

definition generate :: "(nat \<Rightarrow> u8) \<Rightarrow> Guid" where
  "generate rnd =
     (let d = map rnd [0..<16] in
      Guid (d[7 := (d ! 7 AND 0x0F) OR 0x40, 8 := (d ! 8 AND 0x3F) OR 0x80]))"

lemma guid_not_zeroI: "i < 16 \<Longrightarrow> guid_data g ! i \<noteq> 0 \<Longrightarrow> \<not> guid_isZero g"
  by (auto simp: guid_isZero_def)

lemma guid_wf_generate [simp]: "guid_wf (generate rnd)"
  by (simp add: guid_wf_def generate_def Let_def)

lemma generate_not_zero: "\<not> guid_isZero (generate rnd)"
proof (rule guid_not_zeroI [of 7])
  have "bit (guid_data (generate rnd) ! 7) 6"
    by (simp add: generate_def Let_def bit_simps)
  then show "guid_data (generate rnd) ! 7 \<noteq> 0" by force
qed simp

subsection \<open>Printing and scanning are inverse\<close>

lemma nibble_cases:
  fixes d :: u8
  obtains n where "n < 16" "d AND 15 = of_nat n"
proof -
  have "unat (d AND 15) \<le> unat (15 :: u8)"
    by (rule word_le_nat_alt [THEN iffD1, OF word_and_le1])
  then have "unat (d AND 15) < 16" by simp
  then show ?thesis by (rule that) simp
qed

lemma hex_value_hex_digit: "hex_value (hex_digit d) = Some (ucast (d AND 15))"
proof -
  have all: "\<forall>n \<in> set [0..<16]. hex_value (''0123456789abcdef'' ! n) = Some (of_nat n)"
    by code_simp
  obtain n where n: "n < 16" "d AND 15 = of_nat n" by (rule nibble_cases)
  then have "unat (d AND 15) = n" by (simp add: unat_of_nat)
  moreover from this have "ucast (d AND 15) = (of_nat n :: u32)"
    by (metis of_nat_unat)
  ultimately show ?thesis using all n(1) by (simp add: hex_digit_def)
qed

lemma hex_digit_plain: "\<not> is_space (hex_digit d)"
  "hex_digit d \<noteq> CHR ''+''" "hex_digit d \<noteq> CHR ''-''" "hex_digit d \<noteq> CHR ''x''"
  "hex_digit d \<noteq> CHR ''X''" "of_char (hex_digit d) \<noteq> (0 :: nat)"
proof -
  have all: "\<forall>n \<in> set [0..<16]. let c = ''0123456789abcdef'' ! n in
      \<not> is_space c \<and> c \<noteq> CHR ''+'' \<and> c \<noteq> CHR ''-'' \<and> c \<noteq> CHR ''x'' \<and> c \<noteq> CHR ''X'' \<and>
      of_char c \<noteq> (0 :: nat)"
    by code_simp
  obtain n where "n < 16" "d AND 15 = of_nat n" by (rule nibble_cases)
  then have "hex_digit d = ''0123456789abcdef'' ! n" and "n \<in> set [0..<16]"
    by (simp_all add: hex_digit_def unat_of_nat)
  with all show "\<not> is_space (hex_digit d)" "hex_digit d \<noteq> CHR ''+''" "hex_digit d \<noteq> CHR ''-''"
    "hex_digit d \<noteq> CHR ''x''" "hex_digit d \<noteq> CHR ''X''" "of_char (hex_digit d) \<noteq> (0 :: nat)"
    by (metis (no_types, lifting))+
qed

lemma and_15_take_bit: "(b :: u8) AND 15 = take_bit 4 b"
  by (simp add: take_bit_eq_mask mask_eq_exp_minus_1)

lemma nibbles_join:
  "16 * ucast (drop_bit 4 b AND 15) + ucast (b AND 15) = (ucast (b :: u8) :: u32)"
proof -
  have "16 * ucast (drop_bit 4 b AND 15) = push_bit 4 (ucast (drop_bit 4 b AND 15) :: u32)"
    by (simp add: push_bit_eq_mult)
  moreover have "push_bit 4 (ucast (drop_bit 4 b AND 15)) + ucast (b AND 15) =
      (push_bit 4 (ucast (drop_bit 4 b AND 15)) OR ucast (b AND 15) :: u32)"
    by (rule disjunctive_add) (auto simp: and_15_take_bit bit_simps)
  moreover have "(push_bit 4 (ucast (drop_bit 4 b AND 15)) OR ucast (b AND 15) :: u32) = ucast b"
    by (rule bit_word_eqI) (auto simp: and_15_take_bit bit_simps dest: bit_imp_le_length)
  ultimately show ?thesis by simp
qed

lemma scan_hex2 [simp]: "scan_2x (hex2 b @ s) = Some (ucast b, s)"
  using nibbles_join [of b]
  by (simp add: scan_2x_def hex2_def hex_digit_plain hex_value_hex_digit)

lemma hex2_no_NUL: "c \<in> set (hex2 b) \<Longrightarrow> of_char c \<noteq> (0 :: nat)"
  using hex_digit_plain(6) [of b] hex_digit_plain(6) [of "drop_bit 4 b"]
  by (auto simp: hex2_def)

lemma takeWhile_toString:
  "takeWhile (\<lambda>c. of_char c \<noteq> (0 :: nat)) (toString g) = toString g"
proof -
  have "\<forall>c \<in> set (toString g). of_char c \<noteq> (0 :: nat)"
    using hex2_no_NUL by (fastforce simp: toString_def Let_def)
  then show ?thesis by (simp add: takeWhile_eq_all_conv)
qed

lemma scan_toString:
  "scan_format guid_format (toString g) = map (\<lambda>i. ucast (guid_data g ! i)) guid_order"
  using scan_hex2 [of _ "[]"]
  by (simp add: guid_format_def toString_def guid_order_def Let_def)

text \<open>
  \<open>Guid::fromString\<close> inverts \<open>Guid::toString\<close>: the mixed-endian text form of any GUID
  scans back to the same sixteen bytes.
\<close>

theorem fromString_toString:
  assumes "guid_wf g"
  shows "fromString (toString g) = g"
proof -
  have scanned: "scan_format guid_format (takeWhile (\<lambda>c. of_char c \<noteq> (0 :: nat)) (toString g))
      = map (\<lambda>i. ucast (guid_data g ! i)) guid_order"
    by (simp only: takeWhile_toString scan_toString)
  have "fold (\<lambda>(i, v) d. d[i := ucast v])
      (zip guid_order (map (\<lambda>i. ucast (guid_data g ! i) :: u32) guid_order)) (replicate 16 0)
      = guid_data g"
    using assms
    by (auto simp: guid_wf_def guid_order_def list_eq_iff_nth_eq nth_list_update less_Suc_eq
        numeral_eq_Suc byte_up_down)
  with scanned show ?thesis
    by (simp add: fromString_def guid_order_def)
qed

theorem fromString_toString_witness:
  "guid_wf (Guid (map of_nat [0..<16])) \<and>
     fromString (toString (Guid (map of_nat [0..<16]))) = Guid (map of_nat [0..<16])"
  using fromString_toString [of "Guid (map of_nat [0..<16])"] by (simp add: guid_wf_def)

end
