(* ===== verification/Crc32.thy ===== *)
theory Crc32
  imports Common_Types
begin

text \<open>
  The CRC-32 of \<open>src/core/disk/PartitionTable.cpp\<close>, which guards the GPT header and the GPT entry
  array: the table built at start-up and the table-driven loop. The table-driven loop is proved
  equal to the bit-by-bit definition of the reflected polynomial, and from the linearity and
  injectivity of one shift step follow the detection properties the partition code relies on.
\<close>

section \<open>The code\<close>

text \<open>One iteration of the inner loop of \<open>buildCrc32Table\<close>.\<close>

definition crc_step :: "u32 \<Rightarrow> u32" where
  "crc_step crc = (if crc AND 1 \<noteq> 0 then drop_bit 1 crc XOR 0xEDB88320 else drop_bit 1 crc)"

definition buildCrc32Table :: "u32 list" where
  "buildCrc32Table = map (\<lambda>i. (crc_step ^^ 8) (of_nat i)) [0..<256]"

fun crc32_loop :: "u32 list \<Rightarrow> u32 \<Rightarrow> bytes \<Rightarrow> u32" where
  "crc32_loop table crc [] = crc"
| "crc32_loop table crc (b # bs) =
     crc32_loop table (table ! unat ((crc XOR ucast b) AND 0xFF) XOR drop_bit 8 crc) bs"

definition crc32 :: "bytes \<Rightarrow> u32" where
  "crc32 data = crc32_loop buildCrc32Table 0xFFFFFFFF data XOR 0xFFFFFFFF"

section \<open>The bit-by-bit reference\<close>

definition crc_byte :: "u32 \<Rightarrow> u8 \<Rightarrow> u32" where
  "crc_byte crc b = (crc_step ^^ 8) (crc XOR ucast b)"

definition crc32_bitwise :: "bytes \<Rightarrow> u32" where
  "crc32_bitwise data = foldl crc_byte 0xFFFFFFFF data XOR 0xFFFFFFFF"

section \<open>One shift step is linear and injective\<close>

lemma lsb_bit: "(x :: u32) AND 1 \<noteq> 0 \<longleftrightarrow> bit x 0"
  by (simp add: and_one_eq bit_0 odd_iff_mod_2_eq_one)

lemma crc_step_alt: "crc_step x = drop_bit 1 x XOR (if bit x 0 then 0xEDB88320 else 0)"
  by (simp add: crc_step_def lsb_bit)

lemma xor_right_cancel: "a XOR c = b XOR c \<Longrightarrow> a = (b :: 'a::len word)"
  by (metis xor.assoc xor.right_neutral xor_self_eq)

lemma xor_left_cancel: "c XOR a = c XOR b \<Longrightarrow> a = (b :: 'a::len word)"
  by (metis xor.assoc xor.left_neutral xor_self_eq)

lemma crc_step_xor: "crc_step (x XOR y) = crc_step x XOR crc_step y"
  by (rule bit_word_eqI) (auto simp: crc_step_alt bit_simps)

lemma crc_steps_xor: "(crc_step ^^ n) (x XOR y) = (crc_step ^^ n) x XOR (crc_step ^^ n) y"
  by (induction n) (simp_all add: crc_step_xor)

lemma bit_crc_step_31: "bit (crc_step x) 31 \<longleftrightarrow> bit x 0"
  by (auto simp: crc_step_alt bit_simps dest: bit_imp_le_length)

lemma inj_crc_step: "inj crc_step"
proof (rule injI)
  fix x y assume eq: "crc_step x = crc_step y"
  then have lsb: "bit x 0 \<longleftrightarrow> bit y 0" using bit_crc_step_31 by metis
  then have "drop_bit 1 x = drop_bit 1 y"
    using eq by (auto simp: crc_step_alt intro!: bit_word_eqI simp: bit_eq_iff bit_xor_iff split: if_splits)
  then have "bit x (Suc n) = bit y (Suc n)" for n by (metis bit_drop_bit_eq comp_apply plus_1_eq_Suc)
  with lsb have "bit x n = bit y n" for n by (cases n) auto
  then show "x = y" by (simp add: bit_eq_iff)
qed

lemma inj_crc_steps: "inj (crc_step ^^ n)"
  using inj_crc_step by (rule inj_fn)

lemma crc_step_even: "\<not> bit x 0 \<Longrightarrow> crc_step x = drop_bit 1 x"
  by (simp add: crc_step_alt)

lemma crc_steps_shifted:
  "(\<And>k. k < n \<Longrightarrow> \<not> bit x k) \<Longrightarrow> (crc_step ^^ n) x = drop_bit n x"
proof (induction n)
  case 0
  then show ?case by simp
next
  case (Suc n)
  then have "(crc_step ^^ n) x = drop_bit n x" by simp
  moreover have "\<not> bit (drop_bit n x) 0" using Suc.prems [of n] by (simp add: bit_simps)
  ultimately have "(crc_step ^^ Suc n) x = drop_bit 1 (drop_bit n x)" by (simp add: crc_step_even)
  then show ?case by simp
qed

section \<open>The table-driven loop computes the bit-by-bit CRC\<close>

lemma low_byte_index: "unat ((x :: u32) AND 0xFF) < 256"
proof -
  have "unat (x AND 0xFF) \<le> unat (0xFF :: u32)"
    by (rule word_le_nat_alt [THEN iffD1, OF word_and_le1])
  then show ?thesis by simp
qed

lemma table_nth: "buildCrc32Table ! unat ((x :: u32) AND 0xFF) = (crc_step ^^ 8) (x AND 0xFF)"
  using low_byte_index [of x] by (simp add: buildCrc32Table_def)

lemma table_step:
  "buildCrc32Table ! unat ((crc XOR ucast (b :: u8)) AND 0xFF) XOR drop_bit 8 crc = crc_byte crc b"
proof -
  let ?x = "crc XOR ucast b"
  have mask: "(0xFF :: u32) = mask 8" by (simp add: mask_eq_exp_minus_1)
  have split: "?x = (?x AND 0xFF) XOR (?x AND NOT 0xFF)"
    by (rule bit_word_eqI) (auto simp: bit_simps)
  have "(crc_step ^^ 8) (?x AND NOT 0xFF) = drop_bit 8 (?x AND NOT 0xFF)"
    by (rule crc_steps_shifted) (auto simp: mask bit_simps)
  also have "\<dots> = drop_bit 8 crc"
    by (rule bit_word_eqI) (auto simp: mask bit_simps dest: bit_imp_le_length)
  finally have "(crc_step ^^ 8) ?x = (crc_step ^^ 8) (?x AND 0xFF) XOR drop_bit 8 crc"
    by (subst split) (simp only: crc_steps_xor)
  then show ?thesis by (simp add: crc_byte_def table_nth)
qed

lemma crc32_loop_foldl: "crc32_loop buildCrc32Table crc data = foldl crc_byte crc data"
  by (induction data arbitrary: crc) (simp_all add: table_step)

text \<open>
  C18. The optimised CRC-32 (256-entry table, one lookup per byte) equals the bit-by-bit
  definition of the reflected polynomial \<open>0xEDB88320\<close> on every input.
\<close>

theorem crc32_eq_bitwise: "crc32 data = crc32_bitwise data"
  by (simp add: crc32_def crc32_bitwise_def crc32_loop_foldl)

section \<open>Error detection\<close>

lemma crc_byte_inj_state: "crc_byte x b = crc_byte y b \<Longrightarrow> x = y"
proof -
  assume "crc_byte x b = crc_byte y b"
  then have "x XOR ucast b = y XOR ucast b"
    unfolding crc_byte_def by (rule injD [OF inj_crc_steps])
  then show "x = y" by (rule xor_right_cancel)
qed

lemma foldl_crc_inj_state: "foldl crc_byte x bs = foldl crc_byte y bs \<Longrightarrow> x = y"
  by (induction bs arbitrary: x y) (auto dest: crc_byte_inj_state)

text \<open>The bytes of a short message as one word, the first byte lowest.\<close>

fun bytes_word :: "bytes \<Rightarrow> u32" where
  "bytes_word [] = 0"
| "bytes_word (b # bs) = ucast b XOR push_bit 8 (bytes_word bs)"

lemma bytes_word_bits: "bit (bytes_word bs) n \<Longrightarrow> n < 8 * length bs"
proof (induction bs arbitrary: n)
  case Nil
  then show ?case by simp
next
  case (Cons b bs)
  then consider "bit b n" | "8 \<le> n" "bit (bytes_word bs) (n - 8)" by (auto simp: bit_simps)
  then show ?case using Cons.IH [of "n - 8"] by cases (auto dest: bit_imp_le_length)
qed

lemma bytes_word_inj:
  "length xs = length ys \<Longrightarrow> length xs \<le> 4 \<Longrightarrow> bytes_word xs = bytes_word ys \<Longrightarrow> xs = ys"
proof (induction xs ys rule: list_induct2)
  case Nil
  then show ?case by simp
next
  case (Cons x xs y ys)
  let ?X = "bytes_word xs" and ?Y = "bytes_word ys"
  have eq: "bit (ucast x XOR push_bit 8 ?X) n = bit (ucast y XOR push_bit 8 ?Y) n" for n
    using Cons.prems(2) by simp
  have "bit x n = bit y n" if "n < 8" for n using eq [of n] that by (simp add: bit_simps)
  then have x: "x = y" by (intro bit_word_eqI) simp
  have bound: "n < 24" if "bit ?X n \<or> bit ?Y n" for n
    using that bytes_word_bits [of xs n] bytes_word_bits [of ys n] Cons.hyps Cons.prems(1) by auto
  have "bit ?X n = bit ?Y n" if "n < 24" for n
    using eq [of "n + 8"] that by (auto simp: bit_simps dest: bit_imp_le_length)
  with bound have "?X = ?Y" by (metis bit_eq_iff)
  with Cons x show ?case by simp
qed

lemma foldl_crc_word:
  "length bs \<le> 4 \<Longrightarrow>
     foldl crc_byte s bs = (crc_step ^^ (8 * length bs)) (s XOR bytes_word bs)"
proof (induction bs arbitrary: s)
  case Nil
  then show ?case by simp
next
  case (Cons b bs)
  let ?W = "bytes_word bs"
  have "(crc_step ^^ 8) (push_bit 8 ?W) = drop_bit 8 (push_bit 8 ?W)"
    by (rule crc_steps_shifted) (simp add: bit_simps)
  also have "\<dots> = ?W"
    by (rule bit_word_eqI) (use bytes_word_bits [of bs] Cons.prems in \<open>fastforce simp: bit_simps\<close>)
  finally have "crc_byte s b XOR ?W = (crc_step ^^ 8) (s XOR bytes_word (b # bs))"
    by (simp add: crc_byte_def crc_steps_xor xor.assoc)
  then have "foldl crc_byte s (b # bs) =
      (crc_step ^^ (8 * length bs)) ((crc_step ^^ 8) (s XOR bytes_word (b # bs)))"
    using Cons by simp
  also have "\<dots> = (crc_step ^^ (8 * length bs + 8)) (s XOR bytes_word (b # bs))"
    by (simp only: funpow_add comp_apply)
  finally show ?case by (simp only: length_Cons mult_Suc_right add.commute)
qed

text \<open>
  C17. The CRC detects every burst of at most four bytes: two inputs of the same length that
  differ only inside one window of at most 32 bits have different checksums, so a GPT header or
  entry array damaged that way never validates.
\<close>

theorem crc32_detects_burst:
  assumes "length xs = length ys" "length xs \<le> 4" "xs \<noteq> ys"
  shows "crc32 (pre @ xs @ post) \<noteq> crc32 (pre @ ys @ post)"
proof
  assume "crc32 (pre @ xs @ post) = crc32 (pre @ ys @ post)"
  then have "foldl crc_byte 0xFFFFFFFF (pre @ xs @ post) = foldl crc_byte 0xFFFFFFFF (pre @ ys @ post)"
    unfolding crc32_def crc32_loop_foldl by (rule xor_right_cancel)
  then have "foldl crc_byte (foldl crc_byte 0xFFFFFFFF pre) xs =
      foldl crc_byte (foldl crc_byte 0xFFFFFFFF pre) ys"
    by (auto dest: foldl_crc_inj_state)
  then have "foldl crc_byte 0xFFFFFFFF pre XOR bytes_word xs =
      foldl crc_byte 0xFFFFFFFF pre XOR bytes_word ys"
    using assms injD [OF inj_crc_steps] by (simp add: foldl_crc_word)
  then have "bytes_word xs = bytes_word ys" by (rule xor_left_cancel)
  with assms show False by (blast dest: bytes_word_inj)
qed

theorem crc32_detects_burst_witness:
  "length [1, 2, 3, 4 :: u8] \<le> 4 \<and> crc32 ([9] @ [1, 2, 3, 4] @ [7, 7]) \<noteq> crc32 ([9] @ [1, 2, 4, 3] @ [7, 7])"
  using crc32_detects_burst [of "[1, 2, 3, 4]" "[1, 2, 4, 3]" "[9]" "[7, 7]"] by simp

end
