(* ===== verification/Byte_Codec.thy ===== *)
theory Byte_Codec
  imports Common_Types
begin

text \<open>
  The encoders and decoders at the top of \<open>src/core/disk/PartitionTable.cpp\<close>: little- and
  big-endian integers in a buffer, the packed three-byte CHS address of an MBR entry, and the
  conversions between the UTF-16LE name field of a GPT entry and the UTF-8 string the program
  keeps. A C++ pointer \<open>p + off\<close> is a buffer and an offset.
\<close>

section \<open>Integers in a buffer\<close>

definition readLE16 :: "bytes \<Rightarrow> nat \<Rightarrow> u16" where
  "readLE16 p off = ucast (p ! off) OR push_bit 8 (ucast (p ! (off + 1)))"

definition readLE32 :: "bytes \<Rightarrow> nat \<Rightarrow> u32" where
  "readLE32 p off = ucast (p ! off) OR push_bit 8 (ucast (p ! (off + 1)))
     OR push_bit 16 (ucast (p ! (off + 2))) OR push_bit 24 (ucast (p ! (off + 3)))"

definition readLE64 :: "bytes \<Rightarrow> nat \<Rightarrow> u64" where
  "readLE64 p off = ucast (readLE32 p off) OR push_bit 32 (ucast (readLE32 p (off + 4)))"

definition writeLE16 :: "bytes \<Rightarrow> nat \<Rightarrow> u16 \<Rightarrow> bytes" where
  "writeLE16 p off v = p[off := ucast v, off + 1 := ucast (drop_bit 8 v)]"

definition writeLE32 :: "bytes \<Rightarrow> nat \<Rightarrow> u32 \<Rightarrow> bytes" where
  "writeLE32 p off v = p[off := ucast v, off + 1 := ucast (drop_bit 8 v),
     off + 2 := ucast (drop_bit 16 v), off + 3 := ucast (drop_bit 24 v)]"

definition writeLE64 :: "bytes \<Rightarrow> nat \<Rightarrow> u64 \<Rightarrow> bytes" where
  "writeLE64 p off v =
     writeLE32 (writeLE32 p off (ucast v)) (off + 4) (ucast (drop_bit 32 v))"

definition readBE16 :: "bytes \<Rightarrow> nat \<Rightarrow> u16" where
  "readBE16 p off = push_bit 8 (ucast (p ! off)) OR ucast (p ! (off + 1))"

definition readBE32 :: "bytes \<Rightarrow> nat \<Rightarrow> u32" where
  "readBE32 p off = push_bit 24 (ucast (p ! off)) OR push_bit 16 (ucast (p ! (off + 1)))
     OR push_bit 8 (ucast (p ! (off + 2))) OR ucast (p ! (off + 3))"

definition guidFromBytes :: "bytes \<Rightarrow> nat \<Rightarrow> Guid" where
  "guidFromBytes raw off = Guid (slice off 16 raw)"

definition guidToBytes :: "Guid \<Rightarrow> bytes \<Rightarrow> nat \<Rightarrow> bytes" where
  "guidToBytes g out off = blit off (guid_data g) out"

lemma join_LE16:
  "(ucast (ucast (v :: u16) :: u8) :: u16) OR push_bit 8 (ucast (ucast (drop_bit 8 v) :: u8)) = v"
  by (rule bit_word_eqI) (auto simp: bit_simps)

lemma join_LE32:
  "(ucast (ucast (v :: u32) :: u8) :: u32) OR push_bit 8 (ucast (ucast (drop_bit 8 v) :: u8))
     OR push_bit 16 (ucast (ucast (drop_bit 16 v) :: u8))
     OR push_bit 24 (ucast (ucast (drop_bit 24 v) :: u8)) = v"
proof (rule bit_word_eqI)
  fix n assume "n < LENGTH(32)"
  then consider "n < 8" | "8 \<le> n" "n < 16" | "16 \<le> n" "n < 24" | "24 \<le> n" "n < 32" by force
  then show "bit ((ucast (ucast (v :: u32) :: u8) :: u32) OR push_bit 8 (ucast (ucast (drop_bit 8 v) :: u8))
     OR push_bit 16 (ucast (ucast (drop_bit 16 v) :: u8))
     OR push_bit 24 (ucast (ucast (drop_bit 24 v) :: u8))) n = bit v n"
    by cases (auto simp: bit_simps)
qed

lemma join_LE64:
  "ucast (ucast (v :: u64) :: u32) OR push_bit 32 (ucast (ucast (drop_bit 32 v) :: u32)) = v"
  by (rule bit_word_eqI) (auto simp: bit_simps)

interpretation le16: field_codec 2 writeLE16 readLE16
proof unfold_locales
  show "readLE16 (writeLE16 buf off v) off = v" if "off + 2 \<le> length buf" for off buf v
    using that by (simp add: readLE16_def writeLE16_def join_LE16)
qed (auto simp: readLE16_def writeLE16_def)

interpretation le32: field_codec 4 writeLE32 readLE32
proof unfold_locales
  show "readLE32 (writeLE32 buf off v) off = v" if "off + 4 \<le> length buf" for off buf v
    using that by (simp add: readLE32_def writeLE32_def join_LE32)
qed (auto simp: readLE32_def writeLE32_def)

interpretation le64: field_codec 8 writeLE64 readLE64
proof unfold_locales
  show "readLE64 (writeLE64 buf off v) off = v" if "off + 8 \<le> length buf" for off buf v
    using that by (simp add: readLE64_def writeLE64_def le32.rd_wr le32.rd_wr_other
        le32.wr_length join_LE64)
  show "writeLE64 buf off v ! i = buf ! i" if "i < off \<or> off + 8 \<le> i" for i off buf v
    using that by (auto simp: writeLE64_def le32.wr_frame)
  show "readLE64 buf off = readLE64 buf' off"
    if "\<And>i. off \<le> i \<Longrightarrow> i < off + 8 \<Longrightarrow> buf ! i = buf' ! i" for off buf buf'
    unfolding readLE64_def by (intro arg_cong2 [of _ _ _ _ "(OR)"] arg_cong [of _ _ "ucast"]
      arg_cong [of _ _ "\<lambda>x. push_bit 32 (ucast x)"] le32.rd_cong) (auto intro: that)
qed (simp add: writeLE64_def le32.wr_length)

lemmas codec_lengths [simp, buf_simps] = le16.wr_length le32.wr_length le64.wr_length

lemmas codec_reads [buf_simps] =
  le16.rd_wr le16.rd_wr_other le16.rd_update_other le16.rd_blit_other
  le32.rd_wr le32.rd_wr_other le32.rd_update_other le32.rd_blit_other
  le64.rd_wr le64.rd_wr_other le64.rd_update_other le64.rd_blit_other

lemmas codec_frames [buf_simps] = le16.wr_frame le32.wr_frame le64.wr_frame

text \<open>Reads of one width over writes of another.\<close>

lemma mixed_reads [buf_simps]:
  "off + 2 \<le> o2 \<or> o2 + 4 \<le> off \<Longrightarrow> readLE16 (writeLE32 buf o2 v) off = readLE16 buf off"
  "off + 2 \<le> o2 \<or> o2 + 8 \<le> off \<Longrightarrow> readLE16 (writeLE64 buf o2 w) off = readLE16 buf off"
  "off + 4 \<le> o2 \<or> o2 + 2 \<le> off \<Longrightarrow> readLE32 (writeLE16 buf o2 x) off = readLE32 buf off"
  "off + 4 \<le> o2 \<or> o2 + 8 \<le> off \<Longrightarrow> readLE32 (writeLE64 buf o2 w) off = readLE32 buf off"
  "off + 8 \<le> o2 \<or> o2 + 2 \<le> off \<Longrightarrow> readLE64 (writeLE16 buf o2 x) off = readLE64 buf off"
  "off + 8 \<le> o2 \<or> o2 + 4 \<le> off \<Longrightarrow> readLE64 (writeLE32 buf o2 v) off = readLE64 buf off"
  by (rule le16.rd_frame [of o2 4] le16.rd_frame [of o2 8] le32.rd_frame [of o2 2]
        le32.rd_frame [of o2 8] le64.rd_frame [of o2 2] le64.rd_frame [of o2 4];
      auto intro: le16.wr_frame le32.wr_frame le64.wr_frame)+

lemma slice_codec_other [buf_simps]:
  "o2 + n \<le> length buf \<Longrightarrow> o2 + n \<le> off \<or> off + 2 \<le> o2 \<Longrightarrow>
     slice o2 n (writeLE16 buf off x) = slice o2 n buf"
  "o2 + n \<le> length buf \<Longrightarrow> o2 + n \<le> off \<or> off + 4 \<le> o2 \<Longrightarrow>
     slice o2 n (writeLE32 buf off v) = slice o2 n buf"
  "o2 + n \<le> length buf \<Longrightarrow> o2 + n \<le> off \<or> off + 8 \<le> o2 \<Longrightarrow>
     slice o2 n (writeLE64 buf off w) = slice o2 n buf"
  by (rule le16.slice_wr_other le32.slice_wr_other le64.slice_wr_other; assumption)+

lemma slice_update_other [buf_simps]:
  "o2 + n \<le> length buf \<Longrightarrow> j < o2 \<or> o2 + n \<le> j \<Longrightarrow> slice o2 n (buf[j := x]) = slice o2 n buf"
  by (rule slice_eqI) (auto simp: nth_slice)

lemma length_guidToBytes [simp, buf_simps]:
  "guid_wf g \<Longrightarrow> off + 16 \<le> length buf \<Longrightarrow> length (guidToBytes g buf off) = length buf"
  by (simp add: guidToBytes_def guid_wf_def)

lemma guid_round_trip [buf_simps]:
  "guid_wf g \<Longrightarrow> off + 16 \<le> length buf \<Longrightarrow> guidFromBytes (guidToBytes g buf off) off = g"
  by (cases g) (simp add: guidFromBytes_def guidToBytes_def guid_wf_def slice_def blit_def)

lemma guid_wf_guidFromBytes [simp]:
  "off + 16 \<le> length buf \<Longrightarrow> guid_wf (guidFromBytes buf off)"
  by (simp add: guidFromBytes_def guid_wf_def)

section \<open>Packed CHS addresses\<close>

record CHSAddress =
  cylinder :: u32
  head :: u8
  sector :: u8

definition decodeCHS :: "bytes \<Rightarrow> nat \<Rightarrow> CHSAddress" where
  "decodeCHS packed off =
     \<lparr>cylinder = ucast (packed ! (off + 2)) OR push_bit 2 (ucast (packed ! (off + 1) AND 0xC0)),
      head = packed ! off,
      sector = packed ! (off + 1) AND 0x3F\<rparr>"

definition encodeCHS :: "CHSAddress \<Rightarrow> bytes \<Rightarrow> nat \<Rightarrow> bytes" where
  "encodeCHS chs out off =
     out[off := head chs,
         off + 1 := ucast ((ucast (sector chs AND 0x3F) :: u32) OR (drop_bit 2 (cylinder chs) AND 0xC0)),
         off + 2 := ucast (cylinder chs AND 0xFF)]"

definition encodeCHSOverflow :: "bytes \<Rightarrow> nat \<Rightarrow> bytes" where
  "encodeCHSOverflow out off = out[off := 0xFE, off + 1 := 0xFF, off + 2 := 0xFF]"

lemma length_encodeCHS [simp, buf_simps]:
  "length (encodeCHS chs out off) = length out"
  "length (encodeCHSOverflow out off) = length out"
  by (simp_all add: encodeCHS_def encodeCHSOverflow_def)

lemma encodeCHS_frame [buf_simps]:
  "i < off \<or> off + 3 \<le> i \<Longrightarrow> encodeCHS chs out off ! i = out ! i"
  "i < off \<or> off + 3 \<le> i \<Longrightarrow> encodeCHSOverflow out off ! i = out ! i"
  by (auto simp: encodeCHS_def encodeCHSOverflow_def)

text \<open>What the three bytes can hold: a ten-bit cylinder and a six-bit sector.\<close>

definition chs_packable :: "CHSAddress \<Rightarrow> bool" where
  "chs_packable chs \<longleftrightarrow> cylinder chs < 1024 \<and> sector chs < 64"

lemma bits_below:
  fixes w :: "'a::len word"
  assumes "w < 2 ^ k" "bit w n"
  shows "n < k"
proof (rule ccontr)
  assume n: "\<not> n < k"
  have "unat (2 ^ k :: 'a word) \<le> 2 ^ k" by (metis of_nat_numeral of_nat_power unat_of_nat mod_less_eq_dividend)
  with assms(1) have "unat w < 2 ^ k" by (simp add: word_less_nat_alt)
  then have "take_bit k (unat w) = unat w" by (simp add: take_bit_nat_eq_self_iff)
  moreover have "bit (unat w) n" using assms(2) by (simp add: bit_unsigned_iff)
  ultimately have "bit (take_bit k (unat w)) n" by simp
  with n show False by (simp add: bit_take_bit_iff)
qed

lemma word_take_bit_less:
  fixes w :: "'a::len word"
  assumes "k < LENGTH('a)"
  shows "take_bit k w < 2 ^ k"
proof -
  have "unat (take_bit k w) < 2 ^ k" by (simp add: unsigned_take_bit_eq take_bit_nat_less_exp)
  moreover have "unat (of_nat (2 ^ k) :: 'a word) = 2 ^ k"
    unfolding unat_of_nat using assms by (intro mod_less) (rule power_strict_increasing, simp_all)
  ultimately show ?thesis by (simp add: word_less_nat_alt)
qed

lemma bits_above:
  fixes w :: "'a::len word"
  assumes "k \<le> n" "w < 2 ^ k"
  shows "\<not> bit w n"
  using assms bits_below [of w k n] by auto

lemma and_mask_bits:
  "(x :: u8) AND 0x3F = take_bit 6 x" "(y :: u32) AND 0xFF = take_bit 8 y"
  "(x :: u8) AND 0x1F = take_bit 5 x" "(x :: u8) AND 0x0F = take_bit 4 x"
  "(z :: u16) AND 0x3F = take_bit 6 z" "(z :: u16) AND 0x1F = take_bit 5 z"
  "(z :: u16) AND 0x0F = take_bit 4 z"
  by (simp_all add: take_bit_eq_mask mask_eq_exp_minus_1)

lemma bit_C0: "bit (0xC0 :: int) n \<longleftrightarrow> n = 6 \<or> n = 7"
proof -
  have "(0xC0 :: int) = 2 ^ 6 OR 2 ^ 7" by simp
  then show ?thesis by (simp only: bit_or_iff bit_exp_iff) auto
qed

lemma decodeCHS_encodeCHS:
  assumes "chs_packable chs" "off + 3 \<le> length buf"
  shows "decodeCHS (encodeCHS chs buf off) off = chs"
proof -
  let ?b = "ucast ((ucast (sector chs AND 0x3F) :: u32) OR (drop_bit 2 (cylinder chs) AND 0xC0)) :: u8"
  have cyl: "n < 10" if "bit (cylinder chs) n" for n
    using assms(1) that by (intro bits_below [of "cylinder chs"]) (simp_all add: chs_packable_def)
  have sec: "n < 6" if "bit (sector chs) n" for n
    using assms(1) that by (intro bits_below [of "sector chs"]) (simp_all add: chs_packable_def)
  have "?b AND 0x3F = sector chs"
    by (rule bit_word_eqI) (auto simp: and_mask_bits bit_simps bit_C0 dest: sec)
  moreover have "ucast (ucast (cylinder chs AND 0xFF) :: u8) OR push_bit 2 (ucast (?b AND 0xC0)) =
      cylinder chs" (is "?c = _")
  proof (rule bit_word_eqI)
    fix n :: nat
    consider "n < 8" | "n = 8" | "n = 9" | "10 \<le> n" by linarith
    then show "bit ?c n = bit (cylinder chs) n"
      by cases (auto simp: and_mask_bits bit_simps bit_C0 dest: sec cyl)
  qed
  ultimately show ?thesis
    using assms(2) by (simp add: decodeCHS_def encodeCHS_def)
qed

lemma encodeCHS_decodeCHS:
  assumes "off + 3 \<le> length buf"
  shows "encodeCHS (decodeCHS buf off) buf off = buf"
proof -
  let ?d = "decodeCHS buf off"
  have "ucast ((ucast (sector ?d AND 0x3F) :: u32) OR (drop_bit 2 (cylinder ?d) AND 0xC0)) =
      buf ! (off + 1)"
    by (rule bit_word_eqI)
      (auto simp: decodeCHS_def and_mask_bits bit_simps bit_C0 dest: bit_imp_le_length)
  moreover
  have "ucast (cylinder ?d AND 0xFF) = buf ! (off + 2)"
    by (rule bit_word_eqI) (auto simp: decodeCHS_def and_mask_bits bit_simps bit_C0)
  moreover have "head ?d = buf ! off" by (simp add: decodeCHS_def)
  ultimately show ?thesis by (simp only: encodeCHS_def list_update_id)
qed

lemma chs_packable_decodeCHS: "chs_packable (decodeCHS buf off)"
proof -
  have "cylinder (decodeCHS buf off) = take_bit 10 (cylinder (decodeCHS buf off))"
    by (rule bit_word_eqI) (auto simp: decodeCHS_def bit_simps bit_C0 dest: bit_imp_le_length)
  moreover have "take_bit 10 (cylinder (decodeCHS buf off)) < 2 ^ 10"
    by (rule word_take_bit_less) simp
  moreover have "sector (decodeCHS buf off) < 2 ^ 6"
    by (simp only: decodeCHS_def and_mask_bits CHSAddress.simps)
      (rule word_take_bit_less, simp)
  ultimately show ?thesis by (simp add: chs_packable_def)
qed

text \<open>
  Packing and unpacking a CHS address are inverse: an address within the ten-bit cylinder
  and six-bit sector range is read back from the three bytes it was packed into, and packing
  what was unpacked restores the bytes.
\<close>

theorem chs_codec_inverse:
  assumes "chs_packable chs" "off + 3 \<le> length buf"
  shows "decodeCHS (encodeCHS chs buf off) off = chs \<and>
    encodeCHS (decodeCHS buf off) buf off = buf \<and> chs_packable (decodeCHS buf off)"
  using decodeCHS_encodeCHS [OF assms] encodeCHS_decodeCHS [OF assms(2)] chs_packable_decodeCHS by blast

lemma decodeCHS_cong:
  "(\<And>i. off \<le> i \<Longrightarrow> i < off + 3 \<Longrightarrow> buf ! i = buf' ! i) \<Longrightarrow> decodeCHS buf off = decodeCHS buf' off"
  by (simp add: decodeCHS_def)

section \<open>UTF-16LE names\<close>

text \<open>One UTF-16 code unit as UTF-8; surrogates are not combined.\<close>

definition utf8_of_unit :: "u16 \<Rightarrow> bytes" where
  "utf8_of_unit ch =
     (if ch < 0x80 then [ucast ch]
      else if ch < 0x800 then
        [ucast (0xC0 OR drop_bit 6 ch), ucast (0x80 OR (ch AND 0x3F))]
      else
        [ucast (0xE0 OR drop_bit 12 ch), ucast (0x80 OR (drop_bit 6 ch AND 0x3F)),
         ucast (0x80 OR (ch AND 0x3F))])"

fun utf16_loop :: "u16 list \<Rightarrow> bytes" where
  "utf16_loop [] = []"
| "utf16_loop (ch # chs) = (if ch = 0 then [] else utf8_of_unit ch @ utf16_loop chs)"

definition utf16leToUtf8 :: "u16 list \<Rightarrow> nat \<Rightarrow> bytes" where
  "utf16leToUtf8 data maxChars = utf16_loop (take maxChars data)"

text \<open>
  The scanning loop of \<open>utf8ToUtf16le\<close>: the bytes that are left and the units that still fit.
  A malformed byte is skipped and consumes no room.
\<close>

fun utf8_loop :: "bytes \<Rightarrow> nat \<Rightarrow> u16 list" where
  "utf8_loop [] room = []"
| "utf8_loop (c # cs) room =
     (if room = 0 then []
      else if c < 0x80 then ucast c # utf8_loop cs (room - 1)
      else if c AND 0xE0 = 0xC0 \<and> 1 \<le> length cs then
        (push_bit 6 (ucast (c AND 0x1F)) OR ucast (cs ! 0 AND 0x3F)) # utf8_loop (drop 1 cs) (room - 1)
      else if c AND 0xF0 = 0xE0 \<and> 2 \<le> length cs then
        (push_bit 12 (ucast (c AND 0x0F)) OR push_bit 6 (ucast (cs ! 0 AND 0x3F))
          OR ucast (cs ! 1 AND 0x3F)) # utf8_loop (drop 2 cs) (room - 1)
      else utf8_loop cs room)"

definition utf8ToUtf16le :: "bytes \<Rightarrow> nat \<Rightarrow> u16 list" where
  "utf8ToUtf16le src maxChars =
     (let us = utf8_loop src (maxChars - 1) in us @ replicate (maxChars - length us) 0)"

lemma utf8_loop_room: "length (utf8_loop cs room) \<le> room"
  by (induction cs room rule: utf8_loop.induct) auto

lemma length_utf8ToUtf16le [simp]: "length (utf8ToUtf16le src n) = n"
  using utf8_loop_room [of src "n - 1"] by (simp add: utf8ToUtf16le_def Let_def)

lemma bit_utf8_marks:
  "bit (0x80 :: int) n \<longleftrightarrow> n = 7" "bit (0xE0 :: int) n \<longleftrightarrow> n = 5 \<or> n = 6 \<or> n = 7"
  "bit (0xF0 :: int) n \<longleftrightarrow> n = 4 \<or> n = 5 \<or> n = 6 \<or> n = 7"
proof -
  have "(0x80 :: int) = 2 ^ 7" by simp
  then show "bit (0x80 :: int) n \<longleftrightarrow> n = 7" by (simp only: bit_exp_iff) auto
  have "(0xE0 :: int) = 2 ^ 5 OR 2 ^ 6 OR 2 ^ 7" by simp
  then show "bit (0xE0 :: int) n \<longleftrightarrow> n = 5 \<or> n = 6 \<or> n = 7"
    by (simp only: bit_or_iff bit_exp_iff) auto
  have "(0xF0 :: int) = 2 ^ 4 OR 2 ^ 5 OR 2 ^ 6 OR 2 ^ 7" by simp
  then show "bit (0xF0 :: int) n \<longleftrightarrow> n = 4 \<or> n = 5 \<or> n = 6 \<or> n = 7"
    by (simp only: bit_or_iff bit_exp_iff) auto
qed

lemmas utf8_bits = bit_simps bit_C0 bit_utf8_marks and_mask_bits

lemma bit_not_below_0x80:
  assumes "bit (c :: u8) 7"
  shows "\<not> c < 0x80"
  using bits_below [of c 7 7] assms by auto

lemma utf8_unit_1:
  assumes "ch < (0x80 :: u16)"
  shows "(ucast ch :: u8) < 0x80" "ucast (ucast ch :: u8) = ch"
proof -
  have b: "n < 7" if "bit ch n" for n using bits_below [of ch 7 n] assms that by simp
  show eq: "ucast (ucast ch :: u8) = ch"
    by (rule bit_word_eqI) (auto simp: bit_simps dest: b)
  have "(ucast ch :: u8) = take_bit 7 (ucast ch)"
    by (rule bit_word_eqI) (auto simp: bit_simps dest: b)
  then show "(ucast ch :: u8) < 0x80"
    using word_take_bit_less [of 7 "ucast ch :: u8"] by simp
qed

lemma utf8_unit_2:
  fixes ch :: u16
  defines "c \<equiv> ucast (0xC0 OR drop_bit 6 ch) :: u8" and "d \<equiv> ucast (0x80 OR (ch AND 0x3F)) :: u8"
  assumes "ch < 0x800"
  shows "\<not> c < 0x80" "c AND 0xE0 = 0xC0"
    "push_bit 6 (ucast (c AND 0x1F)) OR ucast (d AND 0x3F) = ch"
proof -
  have b: "n < 11" if "bit ch n" for n using bits_below [of ch 11 n] assms that by simp
  show "\<not> c < 0x80" by (rule bit_not_below_0x80) (simp add: c_def utf8_bits)
  show "c AND 0xE0 = 0xC0"
    by (rule bit_word_eqI) (auto simp: c_def utf8_bits dest: b)
  show "push_bit 6 (ucast (c AND 0x1F)) OR ucast (d AND 0x3F) = ch"
    by (rule bit_word_eqI) (auto simp: c_def d_def utf8_bits dest: b)
qed

lemma utf8_unit_3:
  fixes ch :: u16
  defines "c \<equiv> ucast (0xE0 OR drop_bit 12 ch) :: u8"
    and "d \<equiv> ucast (0x80 OR (drop_bit 6 ch AND 0x3F)) :: u8"
    and "e \<equiv> ucast (0x80 OR (ch AND 0x3F)) :: u8"
  shows "\<not> c < 0x80" "c AND 0xE0 \<noteq> 0xC0" "c AND 0xF0 = 0xE0"
    "push_bit 12 (ucast (c AND 0x0F)) OR push_bit 6 (ucast (d AND 0x3F)) OR ucast (e AND 0x3F) = ch"
proof -
  show "\<not> c < 0x80" by (rule bit_not_below_0x80) (simp add: c_def utf8_bits)
  have "bit (c AND 0xE0) 5" "\<not> bit (0xC0 :: u8) 5" by (simp_all add: c_def utf8_bits)
  then show "c AND 0xE0 \<noteq> 0xC0" by metis
  show "c AND 0xF0 = 0xE0"
    by (rule bit_word_eqI) (auto simp: c_def utf8_bits dest: bit_imp_le_length)
  show "push_bit 12 (ucast (c AND 0x0F)) OR push_bit 6 (ucast (d AND 0x3F)) OR ucast (e AND 0x3F) = ch"
    (is "?l = ch")
  proof (rule bit_word_eqI)
    fix n :: nat
    consider "n < 6" | "6 \<le> n" "n < 12" | "12 \<le> n" by linarith
    then show "bit ?l n = bit ch n"
      by cases (auto simp: c_def d_def e_def utf8_bits dest: bit_imp_le_length)
  qed
qed

lemma utf8_loop_unit:
  assumes "room \<noteq> 0"
  shows "utf8_loop (utf8_of_unit ch @ cs) room = ch # utf8_loop cs (room - 1)"
proof -
  consider "ch < 0x80" | "\<not> ch < 0x80" "ch < 0x800" | "\<not> ch < 0x800" "\<not> ch < 0x80" by fastforce
  then show ?thesis
  proof cases
    case 1
    with assms show ?thesis by (simp add: utf8_of_unit_def utf8_unit_1)
  next
    case 2
    with assms utf8_unit_2 [of ch] show ?thesis by (simp add: utf8_of_unit_def)
  next
    case 3
    with assms utf8_unit_3 [of ch] show ?thesis by (simp add: utf8_of_unit_def)
  qed
qed

lemma utf8_loop_units:
  "length us \<le> room \<Longrightarrow> 0 \<notin> set us \<Longrightarrow> utf8_loop (utf16_loop us) room = us"
proof (induction us arbitrary: room)
  case Nil
  then show ?case by simp
next
  case (Cons u us)
  then have "utf8_loop (utf8_of_unit u @ utf16_loop us) room = u # utf8_loop (utf16_loop us) (room - 1)"
    by (intro utf8_loop_unit) auto
  with Cons show ?case by auto
qed

lemma utf16_loop_takeWhile: "utf16_loop us = utf16_loop (takeWhile (\<lambda>u. u \<noteq> 0) us)"
  by (induction us) auto

lemma utf16_loop_zeros [simp]: "utf16_loop (replicate k 0) = []"
  by (cases k) auto

lemma utf16_loop_append_zeros: "0 \<notin> set us \<Longrightarrow> utf16_loop (us @ replicate k 0) = utf16_loop us"
  by (induction us) auto

text \<open>
  A partition name of at most 35 code units survives the trip through the program: reading
  the UTF-16LE field into a UTF-8 string and writing it back yields the units up to the first
  NUL, padded with zeros to the width of the field.
\<close>

theorem utf8ToUtf16le_utf16leToUtf8:
  assumes "length data = n" "us = takeWhile (\<lambda>u. u \<noteq> 0) data" "length us < n"
  shows "utf8ToUtf16le (utf16leToUtf8 data n) n = us @ replicate (n - length us) 0"
proof -
  have "0 \<notin> set us" using assms(2) by (auto dest: set_takeWhileD)
  then have "utf8_loop (utf16_loop us) (n - 1) = us"
    using assms(3) by (intro utf8_loop_units) auto
  moreover have "utf16leToUtf8 data n = utf16_loop us"
    using assms(1,2) utf16_loop_takeWhile [of data] by (simp add: utf16leToUtf8_def)
  ultimately show ?thesis by (simp add: utf8ToUtf16le_def)
qed

lemma utf16leToUtf8_utf8ToUtf16le:
  assumes "0 \<notin> set us" "length us < n"
  shows "utf16leToUtf8 (utf8ToUtf16le (utf16_loop us) n) n = utf16_loop us"
  using assms utf8_loop_units [of us "n - 1"]
  by (simp add: utf8ToUtf16le_def utf16leToUtf8_def utf16_loop_append_zeros)

theorem chs_codec_inverse_witness:
  "chs_packable \<lparr>cylinder = 1023, head = 254, sector = 63\<rparr> \<and>
     decodeCHS (encodeCHS \<lparr>cylinder = 1023, head = 254, sector = 63\<rparr> [0, 0, 0, 0] 1) 1 =
       \<lparr>cylinder = 1023, head = 254, sector = 63\<rparr>"
  using chs_codec_inverse [of "\<lparr>cylinder = 1023, head = 254, sector = 63\<rparr>" 1 "[0, 0, 0, 0]"]
  by (simp add: chs_packable_def)

theorem utf8ToUtf16le_utf16leToUtf8_witness:
  "utf8ToUtf16le (utf16leToUtf8 [0x41, 0xE9, 0x20AC, 0, 0x42] 5) 5 =
     [0x41, 0xE9, 0x20AC] @ replicate 2 0"
  using utf8ToUtf16le_utf16leToUtf8 [of "[0x41, 0xE9, 0x20AC, 0, 0x42]" 5 "[0x41, 0xE9, 0x20AC]"]
  by simp

end
