(* ===== verification/Disk_Geometry.thy ===== *)
theory Disk_Geometry
  imports Byte_Codec
begin

text \<open>
  \<open>src/core/disk/DiskGeometry\<close>: conversion between CHS and LBA addresses, alignment of byte
  offsets and sector numbers, and capacity arithmetic, all on 32- and 64-bit unsigned words.
\<close>

section \<open>The code\<close>

record CHSGeometry =
  headsPerCylinder :: u32
  sectorsPerTrack :: u32

definition chsToLba :: "CHSAddress \<Rightarrow> CHSGeometry \<Rightarrow> u64 Result" where
  "chsToLba chs g =
     (if headsPerCylinder g = 0 \<or> sectorsPerTrack g = 0 then
        fail InvalidArgument ''CHS geometry has zero heads or sectors per track''
      else if sector chs = 0 then
        fail InvalidArgument ''CHS sector number must be >= 1 (1-based addressing)''
      else
        (let lba = ucast (cylinder chs) * ucast (headsPerCylinder g) * ucast (sectorsPerTrack g);
             lba = lba + ucast (head chs) * ucast (sectorsPerTrack g);
             lba = lba + (ucast (sector chs) - 1)
         in Inr lba))"

definition lbaToChs :: "u64 \<Rightarrow> CHSGeometry \<Rightarrow> CHSAddress Result" where
  "lbaToChs lba g =
     (if headsPerCylinder g = 0 \<or> sectorsPerTrack g = 0 then
        fail InvalidArgument ''CHS geometry has zero heads or sectors per track''
      else
        (let headsTimeSectors = ucast (headsPerCylinder g) * ucast (sectorsPerTrack g);
             remainder = lba mod headsTimeSectors
         in Inr \<lparr>cylinder = ucast (lba div headsTimeSectors),
                 head = ucast (remainder div ucast (sectorsPerTrack g)),
                 sector = ucast (remainder mod ucast (sectorsPerTrack g) + 1)\<rparr>))"

definition normalizeSectorSize :: "u32 \<Rightarrow> u32" where
  "normalizeSectorSize reportedSize =
     (if reportedSize = 512 \<or> reportedSize = 1024 \<or> reportedSize = 2048 \<or> reportedSize = 4096
      then reportedSize
      else if 512 \<le> reportedSize \<and> reportedSize \<le> 4096 \<and>
        reportedSize AND (reportedSize - 1) = 0
      then reportedSize
      else DEFAULT_SECTOR_SIZE)"

definition isAligned :: "u64 \<Rightarrow> u64 \<Rightarrow> bool" where
  "isAligned byteOffset alignment = (if alignment = 0 then True else byteOffset mod alignment = 0)"

definition isSectorAligned :: "u64 \<Rightarrow> u64 \<Rightarrow> bool" where
  "isSectorAligned lba alignmentSectors =
     (if alignmentSectors = 0 then True else lba mod alignmentSectors = 0)"

definition alignUp :: "u64 \<Rightarrow> u64 \<Rightarrow> u64" where
  "alignUp byteOffset alignment =
     (if alignment = 0 then byteOffset
      else let remainder = byteOffset mod alignment in
        if remainder = 0 then byteOffset else byteOffset + (alignment - remainder))"

definition alignDown :: "u64 \<Rightarrow> u64 \<Rightarrow> u64" where
  "alignDown byteOffset alignment =
     (if alignment = 0 then byteOffset else byteOffset - byteOffset mod alignment)"

definition alignSectorUp :: "u64 \<Rightarrow> u64 \<Rightarrow> u64" where
  "alignSectorUp lba alignmentSectors =
     (if alignmentSectors = 0 then lba
      else let remainder = lba mod alignmentSectors in
        if remainder = 0 then lba else lba + (alignmentSectors - remainder))"

definition alignSectorDown :: "u64 \<Rightarrow> u64 \<Rightarrow> u64" where
  "alignSectorDown lba alignmentSectors =
     (if alignmentSectors = 0 then lba else lba - lba mod alignmentSectors)"

definition totalCapacity :: "u64 \<Rightarrow> u32 \<Rightarrow> u64" where
  "totalCapacity count sz = count * ucast sz"

definition bytesToSectors :: "u64 \<Rightarrow> u32 \<Rightarrow> u64" where
  "bytesToSectors n sz = (if sz = 0 then 0 else n div ucast sz)"

definition defaultAlignmentSectors :: "u32 \<Rightarrow> u64" where
  "defaultAlignmentSectors sz = (if sz = 0 then 0 else DEFAULT_ALIGNMENT_BYTES div ucast sz)"

definition optimalPartitionStart :: "u64 \<Rightarrow> u32 \<Rightarrow> u64" where
  "optimalPartitionStart desiredLba sz =
     (let alignment = defaultAlignmentSectors sz in
      if alignment = 0 then desiredLba else alignSectorUp desiredLba alignment)"

section \<open>Addresses\<close>

lemma unat_ucast_up: "unat (ucast (w :: u32) :: u64) = unat w" "unat (ucast (b :: u8) :: u64) = unat b"
proof -
  have "unat w < 2 ^ 32" "unat b < 2 ^ 8" using unsigned_less [of w] unsigned_less [of b] by simp_all
  then show "unat (ucast (w :: u32) :: u64) = unat w" "unat (ucast (b :: u8) :: u64) = unat b"
    by (simp_all add: unsigned_ucast_eq take_bit_nat_eq_self)
qed

lemma ucast_down_up_8: "x < 256 \<Longrightarrow> ucast (ucast (x :: u64) :: u8) = x"
  by (rule bit_word_eqI) (auto simp: bit_simps dest: bits_below [of x 8, simplified])

lemma ucast_down_up_32: "x < 2 ^ 32 \<Longrightarrow> ucast (ucast (x :: u64) :: u32) = x"
  by (rule bit_word_eqI) (auto simp: bit_simps dest: bits_below [of x 32, simplified])

text \<open>The geometries that a byte-sized head and sector can address.\<close>

definition chs_geometry_ok :: "CHSGeometry \<Rightarrow> bool" where
  "chs_geometry_ok g \<longleftrightarrow> headsPerCylinder g \<noteq> 0 \<and> headsPerCylinder g \<le> 256 \<and>
     sectorsPerTrack g \<noteq> 0 \<and> sectorsPerTrack g \<le> 255"

lemma chs_geometry_product:
  assumes "chs_geometry_ok g"
  shows "unat (ucast (headsPerCylinder g) * ucast (sectorsPerTrack g) :: u64) =
    unat (headsPerCylinder g) * unat (sectorsPerTrack g)"
proof -
  have "unat (headsPerCylinder g) \<le> 256" "unat (sectorsPerTrack g) \<le> 255"
    using assms by (simp_all add: chs_geometry_ok_def word_le_nat_alt)
  then have "unat (headsPerCylinder g) * unat (sectorsPerTrack g) \<le> 256 * 255"
    by (rule mult_le_mono)
  then show ?thesis by (simp add: unat_word_ariths unat_ucast_up)
qed

lemma chs_remainder_bounds:
  assumes "chs_geometry_ok g"
  defines "hts \<equiv> ucast (headsPerCylinder g) * ucast (sectorsPerTrack g) :: u64"
    and "spt \<equiv> ucast (sectorsPerTrack g) :: u64"
  shows "lba mod hts div spt < 256" "lba mod hts mod spt < 255"
proof -
  have H: "0 < unat (headsPerCylinder g)" "unat (headsPerCylinder g) \<le> 256"
    and S: "0 < unat (sectorsPerTrack g)" "unat (sectorsPerTrack g) \<le> 255"
    using assms(1) by (simp_all add: chs_geometry_ok_def word_le_nat_alt unat_gt_0)
  have "unat (lba mod hts) < unat (sectorsPerTrack g) * unat (headsPerCylinder g)"
    using H S chs_geometry_product [OF assms(1)]
    by (simp add: unat_mod hts_def mult.commute)
  then have "unat (lba mod hts) div unat (sectorsPerTrack g) < unat (headsPerCylinder g)"
    by (simp add: less_mult_imp_div_less mult.commute)
  then show "lba mod hts div spt < 256"
    using H by (simp add: word_less_nat_alt unat_div spt_def unat_ucast_up)
  have "unat (lba mod hts) mod unat (sectorsPerTrack g) < unat (sectorsPerTrack g)"
    using S by simp
  then show "lba mod hts mod spt < 255"
    using S(2) unfolding word_less_nat_alt unat_mod spt_def unat_ucast_up by simp
qed

lemma succ_below_256: "x < 255 \<Longrightarrow> x + 1 < (256 :: u64)" "x < 255 \<Longrightarrow> (ucast (x + 1 :: u64) :: u8) \<noteq> 0"
proof -
  assume "x < 255"
  then have n: "unat x < 255" by (simp add: word_less_nat_alt)
  then have u: "unat (x + 1) = unat x + 1" by (simp add: unat_word_ariths)
  with n show "x + 1 < (256 :: u64)" by (simp add: word_less_nat_alt)
  then have "ucast (ucast (x + 1) :: u8) = x + 1" by (rule ucast_down_up_8)
  with u show "(ucast (x + 1 :: u64) :: u8) \<noteq> 0" by (metis Suc_eq_plus1 nat.distinct(1) ucast_0 unat_0)
qed

text \<open>
  Converting an LBA to CHS and back gives the LBA: for every geometry whose head and sector
  fit their byte fields and every address whose cylinder fits 32 bits, both conversions succeed
  and compose to the identity.
\<close>

theorem chsToLba_lbaToChs:
  assumes geo: "chs_geometry_ok g"
    and cyl: "lba div (ucast (headsPerCylinder g) * ucast (sectorsPerTrack g)) < 2 ^ 32"
  shows "\<exists>chs. lbaToChs lba g = Inr chs \<and> chsToLba chs g = Inr lba"
proof -
  let ?hts = "ucast (headsPerCylinder g) * ucast (sectorsPerTrack g) :: u64"
  let ?spt = "ucast (sectorsPerTrack g) :: u64"
  let ?r = "lba mod ?hts"
  note b = chs_remainder_bounds [OF geo, of lba]
  have "lba div ?hts * ucast (headsPerCylinder g) * ?spt + ?r div ?spt * ?spt + (?r mod ?spt + 1 - 1)
      = lba div ?hts * ?hts + (?r div ?spt * ?spt + ?r mod ?spt)"
    by (simp add: mult.assoc)
  also have "\<dots> = lba" by (simp only: div_mult_mod_eq)
  finally show ?thesis
    using geo ucast_down_up_32 [OF cyl] ucast_down_up_8 [OF b(1)] succ_below_256 [OF b(2)]
      ucast_down_up_8 [OF succ_below_256(1) [OF b(2)]]
    by (simp add: lbaToChs_def chsToLba_def Let_def chs_geometry_ok_def)
qed

section \<open>Alignment\<close>

lemma alignSectorUp_eq: "alignSectorUp = alignUp" "alignSectorDown = alignDown"
  by (rule ext, rule ext, simp add: alignSectorUp_def alignUp_def alignSectorDown_def alignDown_def)+

lemma next_multiple_nat:
  fixes x a :: nat
  assumes "0 < a" "x mod a \<noteq> 0"
  shows "a dvd x + (a - x mod a)" "a dvd y \<Longrightarrow> x \<le> y \<Longrightarrow> x + (a - x mod a) \<le> y"
proof -
  have lt: "x mod a < a" using assms(1) by simp
  have x: "x = x div a * a + x mod a" by simp
  with lt have eq: "x + (a - x mod a) = (x div a + 1) * a"
    by (metis add.assoc add_mult_distrib le_add_diff_inverse less_imp_le_nat mult_1)
  then show "a dvd x + (a - x mod a)" by simp
  assume "a dvd y" "x \<le> y"
  then obtain k where k: "y = k * a" by (auto simp: dvd_def mult.commute)
  have "x div a * a < y" using x \<open>x \<le> y\<close> assms(2) by linarith
  then have "x div a + 1 \<le> k" using k by auto
  then show "x + (a - x mod a) \<le> y" unfolding eq k by (rule mult_le_mono1)
qed

lemma alignUp_unat:
  assumes "a \<noteq> 0" "unat x + unat a \<le> 2 ^ 64"
  shows "unat (alignUp x a) =
    (if unat x mod unat a = 0 then unat x else unat x + (unat a - unat x mod unat a))"
proof (cases "x mod a = 0")
  case True
  then have "unat x mod unat a = 0" by (metis unat_0 unat_mod)
  with True assms(1) show ?thesis by (simp add: alignUp_def)
next
  case False
  then have r: "unat x mod unat a \<noteq> 0" by (metis unat_eq_zero unat_mod)
  have lt: "unat x mod unat a < unat a" using assms(1) by (simp add: unat_gt_0)
  then have "x mod a \<le> a" by (simp add: word_le_nat_alt unat_mod)
  then have "unat (a - x mod a) = unat a - unat x mod unat a" by (simp add: unat_sub unat_mod)
  then have "unat (x + (a - x mod a)) = unat x + (unat a - unat x mod unat a)"
    using assms(2) r lt by (simp add: unat_word_ariths)
  with False r assms(1) show ?thesis by (simp add: alignUp_def)
qed

lemma isAligned_dvd: "a \<noteq> 0 \<Longrightarrow> isAligned x a \<longleftrightarrow> unat a dvd unat x"
  by (simp add: isAligned_def dvd_eq_mod_eq_0 flip: unat_mod unat_eq_zero)

text \<open>
  \<open>alignUp\<close> returns the least aligned offset that is not below its argument, as long as the
  next boundary does not pass the end of the 64-bit range.
\<close>

theorem alignUp_least:
  assumes "a \<noteq> 0" "unat x + unat a \<le> 2 ^ 64"
  shows "isAligned (alignUp x a) a \<and> x \<le> alignUp x a \<and>
    (\<forall>y. isAligned y a \<longrightarrow> x \<le> y \<longrightarrow> alignUp x a \<le> y)"
proof -
  have a: "0 < unat a" using assms(1) by (simp add: unat_gt_0)
  show ?thesis
  proof (cases "unat x mod unat a = 0")
    case True
    then show ?thesis
      using assms(1) alignUp_unat [OF assms] by (simp add: isAligned_dvd word_le_nat_alt mod_0_imp_dvd)
  next
    case False
    then have up: "unat (alignUp x a) = unat x + (unat a - unat x mod unat a)"
      using alignUp_unat [OF assms] by simp
    show ?thesis
      unfolding word_le_nat_alt isAligned_dvd [OF assms(1)] up
      by (intro conjI allI impI le_add1 next_multiple_nat [OF a False])
  qed
qed

lemma alignDown_unat:
  assumes "a \<noteq> 0"
  shows "unat (alignDown x a) = unat x div unat a * unat a"
proof -
  have "x mod a \<le> x" by (simp add: word_le_nat_alt unat_mod)
  then have "unat (x - x mod a) = unat x - unat x mod unat a" by (simp add: unat_sub unat_mod)
  then show ?thesis using assms by (simp add: alignDown_def minus_mod_eq_div_mult)
qed

lemma alignDown_greatest:
  assumes "a \<noteq> 0"
  shows "isAligned (alignDown x a) a" "alignDown x a \<le> x"
    "isAligned y a \<Longrightarrow> y \<le> x \<Longrightarrow> y \<le> alignDown x a"
proof -
  show "isAligned (alignDown x a) a" "alignDown x a \<le> x"
    using assms by (simp_all add: isAligned_dvd alignDown_unat word_le_nat_alt)
  assume "isAligned y a" "y \<le> x"
  then obtain k where "unat y = k * unat a" "unat y \<le> unat x"
    using assms by (auto simp: isAligned_dvd word_le_nat_alt dvd_def mult.commute)
  then have "k \<le> unat x div unat a" using assms
    by (metis div_le_mono nonzero_mult_div_cancel_right unat_eq_zero)
  then show "y \<le> alignDown x a"
    using \<open>unat y = k * unat a\<close> assms by (simp add: word_le_nat_alt alignDown_unat)
qed

section \<open>Sector sizes\<close>

lemma bit_between:
  assumes "2 ^ k \<le> unat x" "unat x < 2 ^ Suc k"
  shows "bit (x :: u32) k"
proof -
  have "unat x div 2 ^ k = 1" using assms by (intro div_nat_eqI) simp_all
  then have "bit (unat x) k" by (simp add: bit_iff_odd)
  then show ?thesis by (simp add: bit_unsigned_iff)
qed

lemma not_power_of_two:
  assumes "2 ^ k < unat (x :: u32)" "unat x < 2 ^ Suc k"
  shows "x AND (x - 1) \<noteq> 0"
proof -
  have "1 \<le> x" using assms(1) by (simp add: word_le_nat_alt)
  then have "unat (x - 1) = unat x - 1" by (simp add: unat_sub)
  then have "bit x k" "bit (x - 1) k" using assms by (auto intro!: bit_between)
  then have "bit (x AND (x - 1)) k" by (simp add: bit_and_iff)
  then show ?thesis by force
qed

lemma normalizeSectorSize_values: "normalizeSectorSize s \<in> {512, 1024, 2048, 4096}"
proof -
  have "s \<in> {512, 1024, 2048, 4096}" if "512 \<le> s" "s \<le> 4096" "s AND (s - 1) = 0"
  proof (rule ccontr)
    assume "s \<notin> {512, 1024, 2048, 4096}"
    then have "unat s \<notin> {512, 1024, 2048, 4096}" by (auto simp: word_unat_eq_iff)
    with that(1,2) have "2 ^ 9 < unat s \<and> unat s < 2 ^ Suc 9 \<or> 2 ^ 10 < unat s \<and> unat s < 2 ^ Suc 10
        \<or> 2 ^ 11 < unat s \<and> unat s < 2 ^ Suc 11" by (auto simp: word_le_nat_alt)
    with that(3) show False using not_power_of_two by blast
  qed
  then show ?thesis by (auto simp: normalizeSectorSize_def)
qed

text \<open>
  For whatever sector size a device reports, the start that \<open>optimalPartitionStart\<close> picks is
  on a 1 MiB boundary in bytes and not below the desired sector, and the byte offset does not
  wrap, as long as the desired start lies a mebibyte below the end of the 64-bit byte range.
\<close>

theorem optimalPartitionStart_aligned:
  fixes reported :: u32 and lba :: u64
  defines "sz \<equiv> normalizeSectorSize reported"
  assumes room: "unat lba * 4096 + 2 ^ 20 \<le> 2 ^ 64"
  shows "isAligned (totalCapacity (optimalPartitionStart lba sz) sz) DEFAULT_ALIGNMENT_BYTES \<and>
    lba \<le> optimalPartitionStart lba sz \<and>
    unat (totalCapacity (optimalPartitionStart lba sz) sz) =
      unat (optimalPartitionStart lba sz) * unat sz"
proof -
  let ?a = "defaultAlignmentSectors sz" and ?s = "optimalPartitionStart lba sz"
  have sz: "sz \<in> {512, 1024, 2048, 4096}" unfolding sz_def by (rule normalizeSectorSize_values)
  then have a: "?a \<noteq> 0" "unat ?a * unat sz = 2 ^ 20" "unat sz \<le> 4096" "unat ?a \<le> 2048"
    by (auto simp: defaultAlignmentSectors_def)
  have s: "?s = alignUp lba ?a" using a(1) by (simp add: optimalPartitionStart_def alignSectorUp_eq)
  have fits: "unat lba + unat ?a \<le> 2 ^ 64" using room a(4) by simp
  have least: "isAligned ?s ?a" "lba \<le> ?s" using alignUp_least [OF a(1) fits] s by simp_all
  have "unat ?s < unat lba + unat ?a"
    using alignUp_unat [OF a(1) fits] a(1) s by (auto simp: unat_gt_0 intro!: diff_less)
  then have "unat ?s * unat sz < (unat lba + unat ?a) * unat sz" using sz by auto
  also have "\<dots> = unat lba * unat sz + 2 ^ 20" using a(2) by (simp add: add_mult_distrib)
  also have "\<dots> \<le> unat lba * 4096 + 2 ^ 20" using a(3) by simp
  finally have small: "unat ?s * unat sz < 2 ^ 64" using room by (rule less_le_trans)
  then have cap: "unat (totalCapacity ?s sz) = unat ?s * unat sz"
    by (simp add: totalCapacity_def unat_word_ariths unat_ucast_up)
  have "unat ?a * unat sz dvd unat ?s * unat sz" using least(1) a(1) by (simp add: isAligned_dvd)
  then have "isAligned (totalCapacity ?s sz) DEFAULT_ALIGNMENT_BYTES"
    by (simp add: isAligned_dvd cap a(2))
  with least(2) cap show ?thesis by simp
qed

theorem chsToLba_lbaToChs_witness:
  "\<exists>chs. lbaToChs 1000000 \<lparr>headsPerCylinder = 255, sectorsPerTrack = 63\<rparr> = Inr chs \<and>
     chsToLba chs \<lparr>headsPerCylinder = 255, sectorsPerTrack = 63\<rparr> = Inr 1000000"
  using chsToLba_lbaToChs [of "\<lparr>headsPerCylinder = 255, sectorsPerTrack = 63\<rparr>" 1000000]
  by (simp add: chs_geometry_ok_def)

theorem alignUp_least_witness:
  "isAligned (alignUp 1000 512) 512 \<and> 1000 \<le> alignUp 1000 512 \<and> alignUp 1000 512 \<le> 1024"
  using alignUp_least [of 512 1000] by (simp add: isAligned_def)

theorem optimalPartitionStart_aligned_witness:
  "isAligned (totalCapacity (optimalPartitionStart 63 512) 512) 1048576 \<and>
     63 \<le> optimalPartitionStart 63 512"
  using optimalPartitionStart_aligned [of 63 512] by (simp add: normalizeSectorSize_def)

end
