(* ===== verification/Partition_Types.thy ===== *)
theory Partition_Types
  imports Byte_Codec "HOL-Library.Sublist"
begin

text \<open>
  The data that the three partition table formats share (\<open>src/core/disk/PartitionTable.h\<close>): the
  parsed partition entry, the parameters of a new partition, the well-known MBR type bytes and GPT
  type GUIDs, the read callback, and the interface \<open>PartitionTable\<close> that the MBR, GPT and APM
  classes implement.
\<close>

section \<open>Entries and parameters\<close>

text \<open>
  \<open>DiskReadCallback\<close>: byte offset and byte count to the bytes read or an error. The callback is a
  function of its arguments, so the disk does not change while a table is parsed.
\<close>

type_synonym DiskReadCallback = "u64 \<Rightarrow> u32 \<Rightarrow> bytes Result"

record PartitionEntry =
  pe_index :: int
  pe_startLba :: u64
  pe_sectorCount :: u64
  pe_sectorSize :: u32
  pe_mbrType :: u8
  pe_isActive :: bool
  pe_isExtended :: bool
  pe_isLogical :: bool
  pe_chsStart :: CHSAddress
  pe_chsEnd :: CHSAddress
  pe_typeGuid :: Guid
  pe_uniqueGuid :: Guid
  pe_gptAttributes :: u64
  pe_gptName :: bytes
  pe_apmName :: bytes
  pe_apmType :: bytes
  pe_detectedFs :: FilesystemType
  pe_label :: bytes

definition chs_zero :: CHSAddress where
  "chs_zero = \<lparr>cylinder = 0, head = 0, sector = 0\<rparr>"

text \<open>The default member initialisers of \<open>struct PartitionEntry\<close>.\<close>

definition pe_default :: PartitionEntry where
  "pe_default = \<lparr>pe_index = -1, pe_startLba = 0, pe_sectorCount = 0, pe_sectorSize = SECTOR_SIZE_512,
     pe_mbrType = 0, pe_isActive = False, pe_isExtended = False, pe_isLogical = False,
     pe_chsStart = chs_zero, pe_chsEnd = chs_zero, pe_typeGuid = guid_zero,
     pe_uniqueGuid = guid_zero, pe_gptAttributes = 0, pe_gptName = [], pe_apmName = [],
     pe_apmType = [], pe_detectedFs = UnknownFs, pe_label = []\<rparr>"

definition startByte :: "PartitionEntry \<Rightarrow> u64" where
  "startByte e = pe_startLba e * ucast (pe_sectorSize e)"

definition sizeBytes :: "PartitionEntry \<Rightarrow> u64" where
  "sizeBytes e = pe_sectorCount e * ucast (pe_sectorSize e)"

definition endLba :: "PartitionEntry \<Rightarrow> u64" where
  "endLba e = (if 0 < pe_sectorCount e then pe_startLba e + pe_sectorCount e - 1 else pe_startLba e)"

record PartitionParams =
  pp_startLba :: u64
  pp_sectorCount :: u64
  pp_mbrType :: u8
  pp_typeGuid :: Guid
  pp_gptName :: bytes
  pp_isActive :: bool
  pp_isLogical :: bool

definition pp_default :: PartitionParams where
  "pp_default = \<lparr>pp_startLba = 0, pp_sectorCount = 0, pp_mbrType = 0x07, pp_typeGuid = guid_zero,
     pp_gptName = [], pp_isActive = False, pp_isLogical = False\<rparr>"

section \<open>MBR type bytes\<close>

abbreviation (input) MbrTypes_Empty :: u8 where "MbrTypes_Empty \<equiv> 0x00"
abbreviation (input) MbrTypes_FAT12 :: u8 where "MbrTypes_FAT12 \<equiv> 0x01"
abbreviation (input) MbrTypes_FAT16_Small :: u8 where "MbrTypes_FAT16_Small \<equiv> 0x04"
abbreviation (input) MbrTypes_Extended :: u8 where "MbrTypes_Extended \<equiv> 0x05"
abbreviation (input) MbrTypes_FAT16_Large :: u8 where "MbrTypes_FAT16_Large \<equiv> 0x06"
abbreviation (input) MbrTypes_NTFS_HPFS :: u8 where "MbrTypes_NTFS_HPFS \<equiv> 0x07"
abbreviation (input) MbrTypes_FAT32_CHS :: u8 where "MbrTypes_FAT32_CHS \<equiv> 0x0B"
abbreviation (input) MbrTypes_FAT32_LBA :: u8 where "MbrTypes_FAT32_LBA \<equiv> 0x0C"
abbreviation (input) MbrTypes_FAT16_LBA :: u8 where "MbrTypes_FAT16_LBA \<equiv> 0x0E"
abbreviation (input) MbrTypes_Extended_LBA :: u8 where "MbrTypes_Extended_LBA \<equiv> 0x0F"
abbreviation (input) MbrTypes_HiddenFAT32 :: u8 where "MbrTypes_HiddenFAT32 \<equiv> 0x1B"
abbreviation (input) MbrTypes_HiddenFAT32_LBA :: u8 where "MbrTypes_HiddenFAT32_LBA \<equiv> 0x1C"
abbreviation (input) MbrTypes_DynDisk :: u8 where "MbrTypes_DynDisk \<equiv> 0x42"
abbreviation (input) MbrTypes_LinuxSwap :: u8 where "MbrTypes_LinuxSwap \<equiv> 0x82"
abbreviation (input) MbrTypes_LinuxNative :: u8 where "MbrTypes_LinuxNative \<equiv> 0x83"
abbreviation (input) MbrTypes_LinuxExtended :: u8 where "MbrTypes_LinuxExtended \<equiv> 0x85"
abbreviation (input) MbrTypes_LinuxLVM :: u8 where "MbrTypes_LinuxLVM \<equiv> 0x8E"
abbreviation (input) MbrTypes_FreeBSD :: u8 where "MbrTypes_FreeBSD \<equiv> 0xA5"
abbreviation (input) MbrTypes_OpenBSD :: u8 where "MbrTypes_OpenBSD \<equiv> 0xA6"
abbreviation (input) MbrTypes_NetBSD :: u8 where "MbrTypes_NetBSD \<equiv> 0xA9"
abbreviation (input) MbrTypes_HFS_APM :: u8 where "MbrTypes_HFS_APM \<equiv> 0xAF"
abbreviation (input) MbrTypes_GPT_Protective :: u8 where "MbrTypes_GPT_Protective \<equiv> 0xEE"
abbreviation (input) MbrTypes_EFI_System :: u8 where "MbrTypes_EFI_System \<equiv> 0xEF"
abbreviation (input) MbrTypes_LinuxRaid :: u8 where "MbrTypes_LinuxRaid \<equiv> 0xFD"

definition MbrTypes_typeName :: "u8 \<Rightarrow> string" where
  "MbrTypes_typeName type =
     (if type = MbrTypes_Empty then ''Empty''
      else if type = MbrTypes_FAT12 then ''FAT12''
      else if type = MbrTypes_FAT16_Small then ''FAT16 (<32M)''
      else if type = MbrTypes_Extended then ''Extended (CHS)''
      else if type = MbrTypes_FAT16_Large then ''FAT16 (>=32M)''
      else if type = MbrTypes_NTFS_HPFS then ''NTFS/HPFS/exFAT''
      else if type = MbrTypes_FAT32_CHS then ''FAT32 (CHS)''
      else if type = MbrTypes_FAT32_LBA then ''FAT32 (LBA)''
      else if type = MbrTypes_FAT16_LBA then ''FAT16 (LBA)''
      else if type = MbrTypes_Extended_LBA then ''Extended (LBA)''
      else if type = MbrTypes_HiddenFAT32 then ''Hidden FAT32''
      else if type = MbrTypes_HiddenFAT32_LBA then ''Hidden FAT32 LBA''
      else if type = MbrTypes_DynDisk then ''Dynamic Disk''
      else if type = MbrTypes_LinuxSwap then ''Linux Swap''
      else if type = MbrTypes_LinuxNative then ''Linux''
      else if type = MbrTypes_LinuxExtended then ''Linux Extended''
      else if type = MbrTypes_LinuxLVM then ''Linux LVM''
      else if type = MbrTypes_FreeBSD then ''FreeBSD''
      else if type = MbrTypes_OpenBSD then ''OpenBSD''
      else if type = MbrTypes_NetBSD then ''NetBSD''
      else if type = MbrTypes_HFS_APM then ''HFS/HFS+''
      else if type = MbrTypes_GPT_Protective then ''GPT Protective MBR''
      else if type = MbrTypes_EFI_System then ''EFI System''
      else if type = MbrTypes_LinuxRaid then ''Linux RAID''
      else ''Unknown'')"


definition isExtendedType :: "u8 \<Rightarrow> bool" where
  "isExtendedType type \<longleftrightarrow>
     type = MbrTypes_Extended \<or> type = MbrTypes_Extended_LBA \<or> type = MbrTypes_LinuxExtended"

section \<open>GPT type GUIDs\<close>

definition makeGptGuid :: "u32 \<Rightarrow> u16 \<Rightarrow> u16 \<Rightarrow> bytes \<Rightarrow> Guid" where
  "makeGptGuid d1 d2 d3 d4 =
     Guid ([ucast d1, ucast (drop_bit 8 d1), ucast (drop_bit 16 d1), ucast (drop_bit 24 d1),
            ucast d2, ucast (drop_bit 8 d2), ucast d3, ucast (drop_bit 8 d3)] @ take 8 d4)"

definition GptTypes_microsoftBasicData :: Guid where
  "GptTypes_microsoftBasicData = makeGptGuid 0xEBD0A0A2 0xB9E5 0x4433
     [0x87, 0xC0, 0x68, 0xB6, 0xB7, 0x26, 0x99, 0xC7]"

definition GptTypes_microsoftReserved :: Guid where
  "GptTypes_microsoftReserved = makeGptGuid 0xE3C9E316 0x0B5C 0x4DB8
     [0x81, 0x7D, 0xF9, 0x2D, 0xF0, 0x02, 0x15, 0xAE]"

definition GptTypes_efiSystem :: Guid where
  "GptTypes_efiSystem = makeGptGuid 0xC12A7328 0xF81F 0x11D2
     [0xBA, 0x4B, 0x00, 0xA0, 0xC9, 0x3E, 0xC9, 0x3B]"

definition GptTypes_microsoftLdmMetadata :: Guid where
  "GptTypes_microsoftLdmMetadata = makeGptGuid 0x5808C8AA 0x7E8F 0x42E0
     [0x85, 0xD2, 0xE1, 0xE9, 0x04, 0x34, 0xCF, 0xB3]"

definition GptTypes_microsoftLdmData :: Guid where
  "GptTypes_microsoftLdmData = makeGptGuid 0xAF9B60A0 0x1431 0x4F62
     [0xBC, 0x68, 0x33, 0x11, 0x71, 0x4A, 0x69, 0xAD]"

definition GptTypes_microsoftRecovery :: Guid where
  "GptTypes_microsoftRecovery = makeGptGuid 0xDE94BBA4 0x06D1 0x4D40
     [0xA1, 0x6A, 0xBF, 0xD5, 0x01, 0x79, 0xD6, 0xAC]"

definition GptTypes_linuxFilesystem :: Guid where
  "GptTypes_linuxFilesystem = makeGptGuid 0x0FC63DAF 0x8483 0x4772
     [0x8E, 0x79, 0x3D, 0x69, 0xD8, 0x47, 0x7D, 0xE4]"

definition GptTypes_linuxSwap :: Guid where
  "GptTypes_linuxSwap = makeGptGuid 0x0657FD6D 0xA4AB 0x43C4
     [0x84, 0xE5, 0x09, 0x33, 0xC8, 0x4B, 0x4F, 0x4F]"

definition GptTypes_linuxHome :: Guid where
  "GptTypes_linuxHome = makeGptGuid 0x933AC7E1 0x2EB4 0x4F13
     [0xB8, 0x44, 0x0E, 0x14, 0xE2, 0xAE, 0xF9, 0x15]"

definition GptTypes_linuxLvm :: Guid where
  "GptTypes_linuxLvm = makeGptGuid 0xE6D6D379 0xF507 0x44C2
     [0xA2, 0x3C, 0x23, 0x8F, 0x2A, 0x3D, 0xF9, 0x28]"

definition GptTypes_linuxRaid :: Guid where
  "GptTypes_linuxRaid = makeGptGuid 0xA19D880F 0x05FC 0x4D3B
     [0xA0, 0x06, 0x74, 0x3F, 0x0F, 0x84, 0x91, 0x1E]"

definition GptTypes_appleHfsPlus :: Guid where
  "GptTypes_appleHfsPlus = makeGptGuid 0x48465300 0x0000 0x11AA
     [0xAA, 0x11, 0x00, 0x30, 0x65, 0x43, 0xEC, 0xAC]"

definition GptTypes_appleApfs :: Guid where
  "GptTypes_appleApfs = makeGptGuid 0x7C3457EF 0x0000 0x11AA
     [0xAA, 0x11, 0x00, 0x30, 0x65, 0x43, 0xEC, 0xAC]"

definition GptTypes_appleBoot :: Guid where
  "GptTypes_appleBoot = makeGptGuid 0x426F6F74 0x0000 0x11AA
     [0xAA, 0x11, 0x00, 0x30, 0x65, 0x43, 0xEC, 0xAC]"

definition GptTypes_freebsdUfs :: Guid where
  "GptTypes_freebsdUfs = makeGptGuid 0x516E7CB6 0x6ECF 0x11D6
     [0x8F, 0xF8, 0x00, 0x02, 0x2D, 0x09, 0x71, 0x2B]"

definition GptTypes_freebsdSwap :: Guid where
  "GptTypes_freebsdSwap = makeGptGuid 0x516E7CB5 0x6ECF 0x11D6
     [0x8F, 0xF8, 0x00, 0x02, 0x2D, 0x09, 0x71, 0x2B]"

definition GptTypes_freebsdZfs :: Guid where
  "GptTypes_freebsdZfs = makeGptGuid 0x516E7CBA 0x6ECF 0x11D6
     [0x8F, 0xF8, 0x00, 0x02, 0x2D, 0x09, 0x71, 0x2B]"

definition GptTypes_typeName :: "Guid \<Rightarrow> string" where
  "GptTypes_typeName guid =
     (if guid_eq guid GptTypes_microsoftBasicData then ''Microsoft Basic Data''
      else if guid_eq guid GptTypes_microsoftReserved then ''Microsoft Reserved''
      else if guid_eq guid GptTypes_efiSystem then ''EFI System''
      else if guid_eq guid GptTypes_microsoftLdmMetadata then ''LDM Metadata''
      else if guid_eq guid GptTypes_microsoftLdmData then ''LDM Data''
      else if guid_eq guid GptTypes_microsoftRecovery then ''Windows Recovery''
      else if guid_eq guid GptTypes_linuxFilesystem then ''Linux Filesystem''
      else if guid_eq guid GptTypes_linuxSwap then ''Linux Swap''
      else if guid_eq guid GptTypes_linuxHome then ''Linux Home''
      else if guid_eq guid GptTypes_linuxLvm then ''Linux LVM''
      else if guid_eq guid GptTypes_linuxRaid then ''Linux RAID''
      else if guid_eq guid GptTypes_appleHfsPlus then ''Apple HFS+''
      else if guid_eq guid GptTypes_appleApfs then ''Apple APFS''
      else if guid_eq guid GptTypes_appleBoot then ''Apple Boot''
      else if guid_eq guid GptTypes_freebsdUfs then ''FreeBSD UFS''
      else if guid_eq guid GptTypes_freebsdSwap then ''FreeBSD Swap''
      else if guid_eq guid GptTypes_freebsdZfs then ''FreeBSD ZFS''
      else if guid_isZero guid then ''Unused''
      else ''Unknown ('' @ toString guid @ '')'')"


lemmas GptTypes_defs =
  GptTypes_microsoftBasicData_def GptTypes_microsoftReserved_def GptTypes_efiSystem_def GptTypes_microsoftLdmMetadata_def GptTypes_microsoftLdmData_def GptTypes_microsoftRecovery_def GptTypes_linuxFilesystem_def GptTypes_linuxSwap_def GptTypes_linuxHome_def GptTypes_linuxLvm_def GptTypes_linuxRaid_def GptTypes_appleHfsPlus_def GptTypes_appleApfs_def GptTypes_appleBoot_def GptTypes_freebsdUfs_def GptTypes_freebsdSwap_def GptTypes_freebsdZfs_def

lemma guid_wf_microsoftBasicData [simp]:
  "guid_wf GptTypes_microsoftBasicData" "\<not> guid_isZero GptTypes_microsoftBasicData"
  by (simp_all add: GptTypes_microsoftBasicData_def makeGptGuid_def guid_wf_def guid_not_zeroI [of 8])

lemma guid_wf_linuxFilesystem [simp]:
  "guid_wf GptTypes_linuxFilesystem" "\<not> guid_isZero GptTypes_linuxFilesystem"
  by (simp_all add: GptTypes_linuxFilesystem_def makeGptGuid_def guid_wf_def guid_not_zeroI [of 8])

text \<open>
  Each well-known GPT type GUID, assembled in the mixed-endian on-disk order, prints as the
  registry text that \<open>PartitionTable.h\<close> documents for it.
\<close>

theorem GptTypes_documented_text:
  "list_all (\<lambda>(g, txt). toString g = txt)
    [(GptTypes_microsoftBasicData, ''ebd0a0a2-b9e5-4433-87c0-68b6b72699c7''),
     (GptTypes_microsoftReserved, ''e3c9e316-0b5c-4db8-817d-f92df00215ae''),
     (GptTypes_efiSystem, ''c12a7328-f81f-11d2-ba4b-00a0c93ec93b''),
     (GptTypes_microsoftLdmMetadata, ''5808c8aa-7e8f-42e0-85d2-e1e90434cfb3''),
     (GptTypes_microsoftLdmData, ''af9b60a0-1431-4f62-bc68-3311714a69ad''),
     (GptTypes_microsoftRecovery, ''de94bba4-06d1-4d40-a16a-bfd50179d6ac''),
     (GptTypes_linuxFilesystem, ''0fc63daf-8483-4772-8e79-3d69d8477de4''),
     (GptTypes_linuxSwap, ''0657fd6d-a4ab-43c4-84e5-0933c84b4f4f''),
     (GptTypes_linuxHome, ''933ac7e1-2eb4-4f13-b844-0e14e2aef915''),
     (GptTypes_linuxLvm, ''e6d6d379-f507-44c2-a23c-238f2a3df928''),
     (GptTypes_linuxRaid, ''a19d880f-05fc-4d3b-a006-743f0f84911e''),
     (GptTypes_appleHfsPlus, ''48465300-0000-11aa-aa11-00306543ecac''),
     (GptTypes_appleApfs, ''7c3457ef-0000-11aa-aa11-00306543ecac''),
     (GptTypes_appleBoot, ''426f6f74-0000-11aa-aa11-00306543ecac''),
     (GptTypes_freebsdUfs, ''516e7cb6-6ecf-11d6-8ff8-00022d09712b''),
     (GptTypes_freebsdSwap, ''516e7cb5-6ecf-11d6-8ff8-00022d09712b''),
     (GptTypes_freebsdZfs, ''516e7cba-6ecf-11d6-8ff8-00022d09712b'')]"
  by (simp add: GptTypes_defs makeGptGuid_def toString_def hex2_def hex_digit_def Let_def)

section \<open>Extents\<close>

text \<open>The sectors that a start and a count denote, as natural numbers: no wrap-around.\<close>

definition extent :: "u64 \<times> u64 \<Rightarrow> nat set" where
  "extent r = {unat (fst r) ..< unat (fst r) + unat (snd r)}"

definition entry_range :: "PartitionEntry \<Rightarrow> u64 \<times> u64" where
  "entry_range e = (pe_startLba e, pe_sectorCount e)"

definition ranges_disjoint :: "u64 \<times> u64 \<Rightarrow> u64 \<times> u64 \<Rightarrow> bool" where
  "ranges_disjoint a b \<longleftrightarrow> extent a \<inter> extent b = {}"

text \<open>
  What the layout of a table depends on: the range of an entry, and whether it is an extended
  container or a logical partition. Two entries may share sectors only if one is a container and
  the other is logical.
\<close>

type_synonym entry_shape = "(u64 \<times> u64) \<times> bool \<times> bool"

definition shape :: "PartitionEntry \<Rightarrow> entry_shape" where
  "shape e = (entry_range e, pe_isExtended e \<and> \<not> pe_isLogical e, pe_isLogical e)"

definition clash_free :: "entry_shape \<Rightarrow> entry_shape \<Rightarrow> bool" where
  "clash_free a b \<longleftrightarrow> ranges_disjoint (fst a) (fst b) \<or>
     fst (snd a) \<and> snd (snd b) \<or> snd (snd a) \<and> fst (snd b)"

definition layout_ok :: "PartitionEntry list \<Rightarrow> bool" where
  "layout_ok es \<longleftrightarrow> sorted_wrt clash_free (map shape es)"

text \<open>A range whose end, \<open>start + count\<close>, stays inside the 64-bit range.\<close>

definition no_wrap :: "u64 \<times> u64 \<Rightarrow> bool" where
  "no_wrap r \<longleftrightarrow> unat (fst r) + unat (snd r) < 2 ^ 64"

lemma ranges_disjoint_sym: "ranges_disjoint a b \<Longrightarrow> ranges_disjoint b a"
  by (auto simp: ranges_disjoint_def)

lemma ranges_disjoint_iff:
  "ranges_disjoint (s, n) (s', n') \<longleftrightarrow>
     n = 0 \<or> n' = 0 \<or> unat s + unat n \<le> unat s' \<or> unat s' + unat n' \<le> unat s"
  by (auto simp: ranges_disjoint_def extent_def not_less unat_eq_zero)

lemma clash_free_sym: "clash_free a b \<Longrightarrow> clash_free b a"
  by (auto simp: clash_free_def dest: ranges_disjoint_sym)

text \<open>A good layout has disjoint primary partitions and disjoint logical partitions.\<close>

lemma layout_ok_disjoint:
  assumes "layout_ok es" "i < length es" "j < length es" "i \<noteq> j"
    and "pe_isLogical (es ! i) = pe_isLogical (es ! j)"
  shows "ranges_disjoint (entry_range (es ! i)) (entry_range (es ! j))"
proof -
  have "clash_free (shape (es ! i)) (shape (es ! j))"
    using assms by (cases i j rule: linorder_cases)
      (auto simp: layout_ok_def sorted_wrt_iff_nth_less intro: clash_free_sym)
  with assms(5) show ?thesis by (auto simp: clash_free_def shape_def)
qed

lemma sorted_wrt_subseq: "subseq xs ys \<Longrightarrow> sorted_wrt P ys \<Longrightarrow> sorted_wrt P xs"
proof (induction rule: list_emb.induct)
  case (list_emb_Cons2 x y xs ys)
  then show ?case by (auto dest: list_emb_set)
qed auto

lemma sorted_wrt_update:
  assumes "sorted_wrt P xs" "k < length xs" "\<And>a b. P a b \<Longrightarrow> P b a"
    and "\<And>j. j < length xs \<Longrightarrow> j \<noteq> k \<Longrightarrow> P x (xs ! j)"
  shows "sorted_wrt P (xs[k := x])"
  using assms by (auto simp: sorted_wrt_iff_nth_less nth_list_update)

section \<open>The table interface\<close>

text \<open>One call of an editing method; the draws feed \<open>Guid::generate\<close>.\<close>

datatype table_edit =
    CallAdd "nat \<Rightarrow> u8" PartitionParams
  | CallDelete int
  | CallResize int u64 u64

text \<open>The edits whose requested range satisfies a predicate.\<close>

fun edit_req :: "(u64 \<times> u64 \<Rightarrow> bool) \<Rightarrow> table_edit \<Rightarrow> bool" where
  "edit_req req (CallAdd rnd p) = req (pp_startLba p, pp_sectorCount p)"
| "edit_req req (CallDelete i) = True"
| "edit_req req (CallResize i s n) = req (s, n)"

text \<open>The three editing methods of a table class, and a sequence of calls to them.\<close>

type_synonym 't add_method = "(nat \<Rightarrow> u8) \<Rightarrow> PartitionParams \<Rightarrow> 't \<Rightarrow> unit Result \<times> 't"
type_synonym 't delete_method = "int \<Rightarrow> 't \<Rightarrow> unit Result \<times> 't"
type_synonym 't resize_method = "int \<Rightarrow> u64 \<Rightarrow> u64 \<Rightarrow> 't \<Rightarrow> unit Result \<times> 't"

fun run_edit :: "'t add_method \<Rightarrow> 't delete_method \<Rightarrow> 't resize_method \<Rightarrow> table_edit \<Rightarrow> 't \<Rightarrow>
    unit Result \<times> 't" where
  "run_edit add del rsz (CallAdd rnd p) t = add rnd p t"
| "run_edit add del rsz (CallDelete i) t = del i t"
| "run_edit add del rsz (CallResize i s n) t = rsz i s n t"

definition run_edits :: "'t add_method \<Rightarrow> 't delete_method \<Rightarrow> 't resize_method \<Rightarrow> table_edit list \<Rightarrow>
    't \<Rightarrow> 't" where
  "run_edits add del rsz es t = fold (\<lambda>e t. snd (run_edit add del rsz e t)) es t"

text \<open>
  What a table class promises: an edit that fails leaves the partitions as they were; a new or
  resized partition gets exactly the requested range, which meets no other partition; a deletion
  only removes; and every call keeps the class invariant. The laws speak of the
  requests that satisfy \<open>req\<close>: all of them, or those whose end does not wrap.
\<close>

locale partition_table =
  fixes entries :: "'t \<Rightarrow> PartitionEntry list"
    and add :: "'t add_method"
    and del :: "'t delete_method"
    and rsz :: "'t resize_method"
    and inv :: "'t \<Rightarrow> bool"
    and req :: "u64 \<times> u64 \<Rightarrow> bool"
  assumes add_ok: "inv t \<Longrightarrow> req (pp_startLba p, pp_sectorCount p) \<Longrightarrow> add rnd p t = (Inr u, t') \<Longrightarrow>
      \<exists>e. entries t' = entries t @ [e] \<and> entry_range e = (pp_startLba p, pp_sectorCount p) \<and>
        (\<forall>x \<in> set (entries t). ranges_disjoint (entry_range x) (entry_range e))"
    and add_err: "add rnd p t = (Inl err, t') \<Longrightarrow> entries t' = entries t"
    and del_ok: "inv t \<Longrightarrow> del i t = (Inr u, t') \<Longrightarrow>
      subseq (map shape (entries t')) (map shape (entries t))"
    and del_err: "del i t = (Inl err, t') \<Longrightarrow> entries t' = entries t"
    and rsz_ok: "inv t \<Longrightarrow> req (s, n) \<Longrightarrow> rsz i s n t = (Inr u, t') \<Longrightarrow>
      \<exists>k < length (entries t).
        map shape (entries t') = (map shape (entries t))[k := ((s, n), snd (shape (entries t ! k)))] \<and>
        (\<forall>j < length (entries t). j \<noteq> k \<longrightarrow> ranges_disjoint (s, n) (entry_range (entries t ! j)))"
    and rsz_err: "rsz i s n t = (Inl err, t') \<Longrightarrow> entries t' = entries t"
    and inv_edit: "inv t \<Longrightarrow> edit_req req e \<Longrightarrow> inv (snd (run_edit add del rsz e t))"
begin

lemma add_layout:
  assumes "inv t" "req (pp_startLba p, pp_sectorCount p)" "layout_ok (entries t)"
  shows "layout_ok (entries (snd (add rnd p t)))"
proof (cases "add rnd p t")
  case (Pair r t')
  show ?thesis
  proof (cases r)
    case (Inl err)
    with Pair assms(3) add_err show ?thesis by simp
  next
    case (Inr u)
    with Pair add_ok [OF assms(1,2), of rnd u t'] assms(3) show ?thesis
      by (auto simp: layout_ok_def sorted_wrt_append clash_free_def shape_def)
  qed
qed

lemma del_layout:
  assumes "inv t" "layout_ok (entries t)"
  shows "layout_ok (entries (snd (del i t)))"
proof (cases "del i t")
  case (Pair r t')
  with assms show ?thesis
    by (cases r) (auto simp: layout_ok_def dest: del_err del_ok sorted_wrt_subseq)
qed

lemma rsz_layout:
  assumes "inv t" "req (s, n)" "layout_ok (entries t)"
  shows "layout_ok (entries (snd (rsz i s n t)))"
proof (cases "rsz i s n t")
  case (Pair r t')
  show ?thesis
  proof (cases r)
    case (Inl err)
    with Pair assms(3) rsz_err show ?thesis by simp
  next
    case (Inr u)
    with Pair rsz_ok [OF assms(1,2)] obtain k where k: "k < length (entries t)"
      "map shape (entries t') = (map shape (entries t))[k := ((s, n), snd (shape (entries t ! k)))]"
      "\<forall>j < length (entries t). j \<noteq> k \<longrightarrow> ranges_disjoint (s, n) (entry_range (entries t ! j))"
      by blast
    from assms(3) have "sorted_wrt clash_free
        ((map shape (entries t))[k := ((s, n), snd (shape (entries t ! k)))])"
      unfolding layout_ok_def using k
      by (intro sorted_wrt_update) (auto simp: clash_free_def shape_def intro: clash_free_sym
          dest: ranges_disjoint_sym)
    with Pair k(2) show ?thesis by (simp add: layout_ok_def)
  qed
qed

lemma edit_layout:
  "inv t \<Longrightarrow> edit_req req e \<Longrightarrow> layout_ok (entries t) \<Longrightarrow>
     layout_ok (entries (snd (run_edit add del rsz e t)))"
  by (cases e) (auto intro: add_layout del_layout rsz_layout)

lemma edits_layout:
  "inv t \<Longrightarrow> list_all (edit_req req) es \<Longrightarrow> layout_ok (entries t) \<Longrightarrow>
     inv (run_edits add del rsz es t) \<and> layout_ok (entries (run_edits add del rsz es t))"
  by (induction es arbitrary: t) (auto simp: run_edits_def intro!: inv_edit edit_layout)

lemma failed_edit_unchanged:
  "run_edit add del rsz e t = (Inl err, t') \<Longrightarrow> entries t' = entries t"
  by (cases e) (auto dest: add_err del_err rsz_err)

end

end
