(* ===== verification/Mbr_Table.thy ===== *)
theory Mbr_Table
  imports Disk_Geometry Partition_Types
begin

text \<open>
  \<open>MbrPartitionTable\<close> of \<open>src/core/disk/PartitionTable.cpp\<close>: parsing of sector 0 and of the EBR
  chain of an extended partition, the editing operations, the active flag, and serialization.
  The walk along the EBR chain is a loop over links read from the disk; it is a partial function,
  so that a chain on which the code never returns has the outcome \<open>Diverges\<close>.

  A table is used with a non-zero sector size; the C++ code divides by it.
\<close>

section \<open>State\<close>

record MbrTable =
  mbr_diskSizeBytes :: u64
  mbr_sectorSize :: u32
  mbr_bootCode :: bytes
  mbr_diskSignature :: u32
  mbr_reserved :: u16
  mbr_entries :: "PartitionEntry list"

definition mbr_new :: MbrTable where
  "mbr_new = \<lparr>mbr_diskSizeBytes = 0, mbr_sectorSize = SECTOR_SIZE_512, mbr_bootCode = replicate 446 0,
     mbr_diskSignature = 0, mbr_reserved = 0, mbr_entries = []\<rparr>"

definition mbr_partitions :: "MbrTable \<Rightarrow> PartitionEntry list" where
  "mbr_partitions t = mbr_entries t"

section \<open>Parsing\<close>

text \<open>The body of the loop over the four primary slots; \<open>None\<close> is the \<open>continue\<close>.\<close>

definition parsePrimary :: "u32 \<Rightarrow> bytes \<Rightarrow> nat \<Rightarrow> PartitionEntry option" where
  "parsePrimary sectorSize raw i =
     (let entryPtr = MBR_PARTITION_ENTRY_OFFSET + i * MBR_PARTITION_ENTRY_SIZE;
          status = raw ! entryPtr;
          type = raw ! (entryPtr + 4);
          lbaStart = readLE32 raw (entryPtr + 8);
          sectorCount = readLE32 raw (entryPtr + 12)
      in if type = MbrTypes_Empty \<and> lbaStart = 0 \<and> sectorCount = 0 then None
         else Some (pe_default\<lparr>
           pe_index := int i,
           pe_startLba := ucast lbaStart,
           pe_sectorCount := ucast sectorCount,
           pe_sectorSize := sectorSize,
           pe_mbrType := type,
           pe_isActive := (status = 0x80),
           pe_isExtended := isExtendedType type,
           pe_isLogical := False,
           pe_chsStart := decodeCHS raw (entryPtr + 1),
           pe_chsEnd := decodeCHS raw (entryPtr + 5)\<rparr>))"

definition parsePrimaries :: "u32 \<Rightarrow> bytes \<Rightarrow> PartitionEntry list" where
  "parsePrimaries sectorSize raw =
     List.map_filter (parsePrimary sectorSize raw) [0..<MBR_MAX_PRIMARY_PARTITIONS]"

text \<open>
  One iteration of \<open>walkExtendedChain\<close>: stop with a result and the entries so far, or go on at
  another EBR with the number of logical partitions found.
\<close>

datatype ebr_next =
    Stop "unit Result" "PartitionEntry list"
  | Next u64 nat "PartitionEntry list"

abbreviation (input) MAX_LOGICAL_PARTITIONS :: nat where "MAX_LOGICAL_PARTITIONS \<equiv> 256"

definition ebrLogical :: "u32 \<Rightarrow> u64 \<Rightarrow> bytes \<Rightarrow> nat \<Rightarrow> PartitionEntry" where
  "ebrLogical sectorSize currentEbrLba ebrData n =
     (let entry0 = MBR_PARTITION_ENTRY_OFFSET in
      pe_default\<lparr>
        pe_index := int n,
        pe_startLba := currentEbrLba + ucast (readLE32 ebrData (entry0 + 8)),
        pe_sectorCount := ucast (readLE32 ebrData (entry0 + 12)),
        pe_sectorSize := sectorSize,
        pe_mbrType := ebrData ! (entry0 + 4),
        pe_isActive := (ebrData ! entry0 = 0x80),
        pe_isExtended := False,
        pe_isLogical := True,
        pe_chsStart := decodeCHS ebrData (entry0 + 1),
        pe_chsEnd := decodeCHS ebrData (entry0 + 5)\<rparr>)"

definition ebrStep :: "DiskReadCallback \<Rightarrow> u32 \<Rightarrow> u64 \<Rightarrow> u64 \<Rightarrow> u64 \<Rightarrow> nat \<Rightarrow> PartitionEntry list \<Rightarrow> ebr_next"
  where
  "ebrStep readFunc sectorSize extStart extSize currentEbrLba logicalCount es =
     (if \<not> (currentEbrLba \<noteq> 0 \<and> logicalCount < MAX_LOGICAL_PARTITIONS) then Stop ok es
      else if currentEbrLba < extStart \<or> extStart + extSize \<le> currentEbrLba then Stop ok es
      else
        (case readFunc (currentEbrLba * ucast sectorSize) 512 of
           Inl e \<Rightarrow> Stop (Inl e) es
         | Inr ebrData \<Rightarrow>
             if length ebrData < MBR_SIZE then Stop ok es
             else if readLE16 ebrData 510 \<noteq> MBR_SIGNATURE then Stop ok es
             else
               (let entry0 = MBR_PARTITION_ENTRY_OFFSET;
                    type0 = ebrData ! (entry0 + 4);
                    sectorCount0 = readLE32 ebrData (entry0 + 12);
                    found = (type0 \<noteq> MbrTypes_Empty \<and> 0 < sectorCount0);
                    es' = (if found then es @ [ebrLogical sectorSize currentEbrLba ebrData (length es)]
                           else es);
                    logicalCount' = (if found then logicalCount + 1 else logicalCount);
                    entry1 = MBR_PARTITION_ENTRY_OFFSET + MBR_PARTITION_ENTRY_SIZE;
                    type1 = ebrData ! (entry1 + 4);
                    lbaStart1 = readLE32 ebrData (entry1 + 8)
                in if isExtendedType type1 \<and> lbaStart1 \<noteq> 0
                   then Next (extStart + ucast lbaStart1) logicalCount' es'
                   else Stop ok es')))"

partial_function (option) walkExtendedChain ::
    "DiskReadCallback \<Rightarrow> u32 \<Rightarrow> u64 \<Rightarrow> u64 \<Rightarrow> u64 \<Rightarrow> nat \<Rightarrow> PartitionEntry list \<Rightarrow>
     (unit Result \<times> PartitionEntry list) option" where
  "walkExtendedChain readFunc sectorSize extStart extSize currentEbrLba logicalCount es =
     (case ebrStep readFunc sectorSize extStart extSize currentEbrLba logicalCount es of
        Stop r es' \<Rightarrow> Some (r, es')
      | Next cur n es' \<Rightarrow> walkExtendedChain readFunc sectorSize extStart extSize cur n es')"

declare walkExtendedChain.simps [code]

definition mbr_parse :: "DiskReadCallback \<Rightarrow> MbrTable \<Rightarrow> (unit Result \<times> MbrTable) run" where
  "mbr_parse readFunc t =
     (case readFunc 0 512 of
        Inl e \<Rightarrow> Done (Inl e, t)
      | Inr raw \<Rightarrow>
          if length raw < MBR_SIZE then
            Done (fail PartitionTableCorrupt ''MBR sector too small'', t)
          else if readLE16 raw 510 \<noteq> MBR_SIGNATURE then
            Done (fail PartitionTableCorrupt ''Invalid MBR signature'', t)
          else
            (let es = parsePrimaries (mbr_sectorSize t) raw;
                 t1 = t\<lparr>mbr_bootCode := take 446 raw,
                        mbr_diskSignature := readLE32 raw 440,
                        mbr_reserved := readLE16 raw 444,
                        mbr_entries := es\<rparr>
             in case find pe_isExtended es of
                  None \<Rightarrow> Done (ok, t1)
                | Some ext \<Rightarrow>
                    run_bind
                      (run_of_option (walkExtendedChain readFunc (mbr_sectorSize t)
                        (pe_startLba ext) (pe_sectorCount ext) (pe_startLba ext) 0 es))
                      (\<lambda>(r, es'). Done (ok, t1\<lparr>mbr_entries := es'\<rparr>))))"

section \<open>Queries\<close>

definition hasGptProtective :: "MbrTable \<Rightarrow> bool" where
  "hasGptProtective t \<longleftrightarrow> list_ex (\<lambda>e. pe_mbrType e = MbrTypes_GPT_Protective) (mbr_entries t)"

text \<open>The position of the extended container; \<open>-1\<close> of the code is \<open>None\<close>.\<close>

definition findExtendedIndex :: "MbrTable \<Rightarrow> nat option" where
  "findExtendedIndex t = find_index (\<lambda>e. pe_isExtended e \<and> \<not> pe_isLogical e) (mbr_entries t)"

definition mbr_overlapsExisting :: "PartitionEntry list \<Rightarrow> u64 \<Rightarrow> u64 \<Rightarrow> int \<Rightarrow> bool" where
  "mbr_overlapsExisting es start count excludeIndex =
     list_ex (\<lambda>e. pe_index e \<noteq> excludeIndex \<and> pe_sectorCount e \<noteq> 0 \<and>
       start < pe_startLba e + pe_sectorCount e \<and> pe_startLba e < start + count) es"

section \<open>Editing\<close>

text \<open>The CHS addresses that \<open>addPartition\<close> stores.\<close>

definition chs_overflow :: CHSAddress where
  "chs_overflow = \<lparr>cylinder = 1023, head = 254, sector = 63\<rparr>"

definition mbr_newChs :: "u64 \<Rightarrow> u64 \<Rightarrow> CHSAddress \<times> CHSAddress" where
  "mbr_newChs start count =
     (if start > 16450559 then (chs_overflow, chs_overflow)
      else
        (let geo = \<lparr>headsPerCylinder = 255, sectorsPerTrack = 63\<rparr>
         in (valueOr (lbaToChs start geo) chs_zero,
             valueOr (lbaToChs (start + count - 1) geo) chs_zero)))"

definition mbr_newEntry :: "PartitionParams \<Rightarrow> MbrTable \<Rightarrow> PartitionEntry" where
  "mbr_newEntry p t =
     pe_default\<lparr>
       pe_index := int (length (mbr_entries t)),
       pe_startLba := pp_startLba p,
       pe_sectorCount := pp_sectorCount p,
       pe_sectorSize := mbr_sectorSize t,
       pe_mbrType := pp_mbrType p,
       pe_isActive := pp_isActive p,
       pe_isExtended := isExtendedType (pp_mbrType p),
       pe_isLogical := pp_isLogical p,
       pe_chsStart := fst (mbr_newChs (pp_startLba p) (pp_sectorCount p)),
       pe_chsEnd := snd (mbr_newChs (pp_startLba p) (pp_sectorCount p))\<rparr>"

text \<open>The first guards of \<open>addPartition\<close>: room in the container, or a free primary slot.\<close>

definition mbr_addGuard :: "PartitionParams \<Rightarrow> MbrTable \<Rightarrow> unit Result" where
  "mbr_addGuard p t =
     (if pp_isLogical p then
        (case findExtendedIndex t of
           None \<Rightarrow> fail InvalidArgument ''No extended partition exists for logical partition creation''
         | Some extIdx \<Rightarrow>
             (let ext = mbr_entries t ! extIdx; extEnd = pe_startLba ext + pe_sectorCount ext in
              if pp_startLba p < pe_startLba ext \<or> pp_startLba p + pp_sectorCount p > extEnd
              then fail PartitionOverlap ''Logical partition does not fit within extended partition''
              else ok))
      else if length (filter (\<lambda>e. \<not> pe_isLogical e) (mbr_entries t)) \<ge> MBR_MAX_PRIMARY_PARTITIONS
      then fail PartitionTableFull ''MBR supports at most 4 primary partitions''
      else ok)"

definition mbr_addPartition :: "PartitionParams \<Rightarrow> MbrTable \<Rightarrow> unit Result \<times> MbrTable" where
  "mbr_addPartition p t =
     (if pp_sectorCount p = 0 then
        (fail InvalidArgument ''Partition size cannot be zero'', t)
      else
        (case mbr_addGuard p t of
           Inl e \<Rightarrow> (Inl e, t)
         | Inr _ \<Rightarrow>
             if mbr_overlapsExisting (mbr_entries t) (pp_startLba p) (pp_sectorCount p) (-1) then
               (fail PartitionOverlap ''New partition overlaps an existing partition'', t)
             else if pp_startLba p + pp_sectorCount p > mbr_diskSizeBytes t div ucast (mbr_sectorSize t)
             then (fail PartitionTooLarge ''Partition extends beyond disk boundary'', t)
             else if pp_startLba p > 0xFFFFFFFF \<or> pp_sectorCount p > 0xFFFFFFFF then
               (fail PartitionTooLarge ''MBR cannot address sectors beyond 2 TiB'', t)
             else (ok, t\<lparr>mbr_entries := mbr_entries t @ [mbr_newEntry p t]\<rparr>)))"

definition reindex :: "PartitionEntry list \<Rightarrow> PartitionEntry list" where
  "reindex es = map (\<lambda>(i, e). e\<lparr>pe_index := int i\<rparr>) (enumerate 0 es)"

text \<open>Find again and erase, as \<open>deletePartition\<close> does after removing the logical partitions.\<close>

definition eraseIndex :: "int \<Rightarrow> PartitionEntry list \<Rightarrow> PartitionEntry list" where
  "eraseIndex index es =
     (case find_index (\<lambda>e. pe_index e = index) es of None \<Rightarrow> es | Some k \<Rightarrow> erase_at k es)"

definition mbr_deletePartition :: "int \<Rightarrow> MbrTable \<Rightarrow> unit Result \<times> MbrTable" where
  "mbr_deletePartition index t =
     (case find_index (\<lambda>e. pe_index e = index) (mbr_entries t) of
        None \<Rightarrow> (fail PartitionNotFound ''Partition index not found'', t)
      | Some k \<Rightarrow>
          (let it = mbr_entries t ! k;
               es = (if pe_isExtended it \<and> \<not> pe_isLogical it
                     then filter (\<lambda>e. \<not> pe_isLogical e) (mbr_entries t) else mbr_entries t)
           in (ok, t\<lparr>mbr_entries := reindex (eraseIndex index es)\<rparr>)))"

definition mbr_resizePartition :: "int \<Rightarrow> u64 \<Rightarrow> u64 \<Rightarrow> MbrTable \<Rightarrow> unit Result \<times> MbrTable" where
  "mbr_resizePartition index newStart newSize t =
     (case find_index (\<lambda>e. pe_index e = index) (mbr_entries t) of
        None \<Rightarrow> (fail PartitionNotFound ''Partition index not found'', t)
      | Some k \<Rightarrow>
          if newSize = 0 then (fail InvalidArgument ''Partition size cannot be zero'', t)
          else if newStart + newSize > mbr_diskSizeBytes t div ucast (mbr_sectorSize t) then
            (fail PartitionTooLarge ''Resized partition exceeds disk boundary'', t)
          else if newStart > 0xFFFFFFFF \<or> newSize > 0xFFFFFFFF then
            (fail PartitionTooLarge ''MBR cannot address beyond 2 TiB'', t)
          else if mbr_overlapsExisting (mbr_entries t) newStart newSize index then
            (fail PartitionOverlap ''Resized partition overlaps another partition'', t)
          else
            (ok, t\<lparr>mbr_entries := (mbr_entries t)
               [k := (mbr_entries t ! k)\<lparr>pe_startLba := newStart, pe_sectorCount := newSize\<rparr>]\<rparr>))"

definition setActivePartition :: "int \<Rightarrow> MbrTable \<Rightarrow> unit Result \<times> MbrTable" where
  "setActivePartition index t =
     (let cleared = map (\<lambda>e. if pe_isLogical e then e else e\<lparr>pe_isActive := False\<rparr>) (mbr_entries t);
          t1 = t\<lparr>mbr_entries := cleared\<rparr>
      in if 0 \<le> index then
           (case find_index (\<lambda>e. pe_index e = index \<and> \<not> pe_isLogical e) cleared of
              None \<Rightarrow> (fail PartitionNotFound ''Primary partition index not found'', t1)
            | Some k \<Rightarrow> (ok, t1\<lparr>mbr_entries := cleared[k := (cleared ! k)\<lparr>pe_isActive := True\<rparr>]\<rparr>))
         else (ok, t1))"

section \<open>Serialization\<close>

definition putPrimary :: "bytes \<Rightarrow> nat \<Rightarrow> PartitionEntry \<Rightarrow> bytes" where
  "putPrimary mbr primaryIdx e =
     (let dest = MBR_PARTITION_ENTRY_OFFSET + primaryIdx * MBR_PARTITION_ENTRY_SIZE;
          mbr = mbr[dest := if pe_isActive e then 0x80 else 0x00];
          mbr = (if pe_startLba e > 16450559
                 then encodeCHSOverflow (encodeCHSOverflow mbr (dest + 1)) (dest + 5)
                 else encodeCHS (pe_chsEnd e) (encodeCHS (pe_chsStart e) mbr (dest + 1)) (dest + 5));
          mbr = mbr[dest + 4 := pe_mbrType e];
          mbr = writeLE32 mbr (dest + 8) (ucast (pe_startLba e))
      in writeLE32 mbr (dest + 12) (ucast (pe_sectorCount e)))"

fun putPrimaries :: "bytes \<Rightarrow> nat \<Rightarrow> PartitionEntry list \<Rightarrow> bytes" where
  "putPrimaries mbr primaryIdx [] = mbr"
| "putPrimaries mbr primaryIdx (e # es) =
     (if pe_isLogical e then putPrimaries mbr primaryIdx es
      else if MBR_MAX_PRIMARY_PARTITIONS \<le> primaryIdx then mbr
      else putPrimaries (putPrimary mbr primaryIdx e) (primaryIdx + 1) es)"

definition mbrSector :: "MbrTable \<Rightarrow> bytes" where
  "mbrSector t =
     (let mbr = replicate MBR_SIZE 0;
          mbr = blit 0 (take 440 (mbr_bootCode t)) mbr;
          mbr = writeLE32 mbr 440 (mbr_diskSignature t);
          mbr = writeLE16 mbr 444 (mbr_reserved t);
          mbr = putPrimaries mbr 0 (mbr_entries t)
      in writeLE16 mbr 510 MBR_SIGNATURE)"

definition ebrSector :: "u64 \<Rightarrow> PartitionEntry list \<Rightarrow> nat \<Rightarrow> bytes" where
  "ebrSector extStartLba logicals i =
     (let ebr = replicate MBR_SIZE 0;
          e0 = MBR_PARTITION_ENTRY_OFFSET;
          ebr = ebr[e0 := if pe_isActive (logicals ! i) then 0x80 else 0x00];
          ebr = encodeCHSOverflow ebr (e0 + 1);
          ebr = ebr[e0 + 4 := pe_mbrType (logicals ! i)];
          ebr = encodeCHSOverflow ebr (e0 + 5);
          ebr = writeLE32 ebr (e0 + 8) 1;
          ebr = writeLE32 ebr (e0 + 12) (ucast (pe_sectorCount (logicals ! i)));
          ebr = (if i + 1 < length logicals then
                   (let e1 = MBR_PARTITION_ENTRY_OFFSET + MBR_PARTITION_ENTRY_SIZE;
                        ebr = encodeCHSOverflow ebr (e1 + 1);
                        ebr = ebr[e1 + 4 := MbrTypes_Extended];
                        ebr = encodeCHSOverflow ebr (e1 + 5);
                        nextEbrLba = pe_startLba (logicals ! (i + 1)) - 1;
                        ebr = writeLE32 ebr (e1 + 8) (ucast (nextEbrLba - extStartLba))
                    in writeLE32 ebr (e1 + 12) (ucast (pe_sectorCount (logicals ! (i + 1)) + 1)))
                 else ebr)
      in writeLE16 ebr 510 MBR_SIGNATURE)"

definition mbr_serialize :: "MbrTable \<Rightarrow> bytes Result" where
  "mbr_serialize t =
     (let logicals = filter pe_isLogical (mbr_entries t) in
      Inr (mbrSector t @
        (case findExtendedIndex t of
           None \<Rightarrow> []
         | Some extIdx \<Rightarrow>
             concat (map (ebrSector (pe_startLba (mbr_entries t ! extIdx)) logicals)
               [0..<length logicals]))))"

section \<open>Overlap checks\<close>

lemma unat_add_no_wrap: "no_wrap (s, n) \<Longrightarrow> unat (s + n) = unat s + unat n"
  by (simp add: no_wrap_def flip: unat_add_lem)

lemma no_wrap_32: "s \<le> 0xFFFFFFFF \<Longrightarrow> n \<le> 0xFFFFFFFF \<Longrightarrow> no_wrap (s, n)"
  by (simp add: no_wrap_def word_le_nat_alt)

text \<open>On ranges that do not wrap, the test of \<open>overlapsExisting\<close> is exactly \<open>not disjoint\<close>.\<close>

lemma overlap_test_iff:
  assumes "no_wrap (s, n)" "no_wrap (s', n')" "n \<noteq> 0" "n' \<noteq> 0"
  shows "s < s' + n' \<and> s' < s + n \<longleftrightarrow> \<not> ranges_disjoint (s', n') (s, n)"
  using assms by (auto simp: word_less_nat_alt unat_add_no_wrap ranges_disjoint_iff)

lemma mbr_overlapsExisting_iff:
  assumes "\<And>e. e \<in> set es \<Longrightarrow> no_wrap (entry_range e)" "no_wrap (s, n)" "n \<noteq> 0"
  shows "mbr_overlapsExisting es s n ex \<longleftrightarrow>
    (\<exists>e \<in> set es. pe_index e \<noteq> ex \<and> \<not> ranges_disjoint (entry_range e) (s, n))"
proof -
  have "pe_sectorCount e \<noteq> 0 \<and> s < pe_startLba e + pe_sectorCount e \<and> pe_startLba e < s + n \<longleftrightarrow>
      \<not> ranges_disjoint (entry_range e) (s, n)" if "e \<in> set es" for e
  proof (cases "pe_sectorCount e = 0")
    case True
    then show ?thesis by (simp add: entry_range_def ranges_disjoint_iff)
  next
    case False
    with assms that show ?thesis by (simp add: entry_range_def overlap_test_iff)
  qed
  then show ?thesis by (auto simp: mbr_overlapsExisting_def list_ex_iff)
qed

section \<open>Invariant\<close>

text \<open>
  Entries are numbered by their position, and no range wraps. Freshly created tables have it and
  every edit keeps it.
\<close>

definition mbr_inv :: "MbrTable \<Rightarrow> bool" where
  "mbr_inv t \<longleftrightarrow> map pe_index (mbr_entries t) = map int [0..<length (mbr_entries t)] \<and>
     list_all (\<lambda>e. no_wrap (entry_range e)) (mbr_entries t)"

lemma mbr_inv_index:
  assumes "mbr_inv t" "k < length (mbr_entries t)"
  shows "pe_index (mbr_entries t ! k) = int k"
proof -
  have "map pe_index (mbr_entries t) ! k = map int [0..<length (mbr_entries t)] ! k"
    using assms(1) by (simp only: mbr_inv_def)
  with assms(2) show ?thesis by simp
qed

lemma mbr_inv_no_wrap: "mbr_inv t \<Longrightarrow> e \<in> set (mbr_entries t) \<Longrightarrow> no_wrap (entry_range e)"
  by (simp add: mbr_inv_def list_all_iff)

lemma map_index_reindex [simp]: "map pe_index (reindex es) = map int [0..<length es]"
  by (rule nth_equalityI) (simp_all add: reindex_def nth_enumerate_eq)

lemma shape_index [simp]: "shape (e\<lparr>pe_index := i\<rparr>) = shape e"
  by (simp add: shape_def entry_range_def)

lemma map_shape_reindex [simp]: "map shape (reindex es) = map shape es"
  by (rule nth_equalityI) (simp_all add: reindex_def nth_enumerate_eq)

lemma length_reindex [simp]: "length (reindex es) = length es"
  by (simp add: reindex_def)

lemma list_all_no_wrap_shape:
  "list_all (\<lambda>e. no_wrap (entry_range e)) es = list_all (\<lambda>x. no_wrap (fst x)) (map shape es)"
  by (simp add: list_all_iff shape_def)

lemma list_all_subseq: "subseq xs ys \<Longrightarrow> list_all P ys \<Longrightarrow> list_all P xs"
  by (auto simp: list_all_iff dest: list_emb_set)

lemma subseq_erase_at: "subseq (erase_at k xs) xs"
proof (induction xs arbitrary: k)
  case Nil
  then show ?case by (simp add: erase_at_def)
next
  case (Cons x xs)
  then show ?case by (cases k) (auto simp: erase_at_def intro: list_emb_Cons)
qed

lemma subseq_eraseIndex: "subseq (eraseIndex i es) es"
  by (simp add: eraseIndex_def subseq_erase_at split: option.split)

lemma mbr_delete_subseq:
  assumes "mbr_deletePartition i t = (Inr u, t')"
  shows "subseq (map shape (mbr_entries t')) (map shape (mbr_entries t))"
proof -
  from assms obtain k where "find_index (\<lambda>e. pe_index e = i) (mbr_entries t) = Some k"
    by (cases "find_index (\<lambda>e. pe_index e = i) (mbr_entries t)")
      (simp_all add: mbr_deletePartition_def)
  with assms have t': "t' = t\<lparr>mbr_entries := reindex (eraseIndex i
      (if pe_isExtended (mbr_entries t ! k) \<and> \<not> pe_isLogical (mbr_entries t ! k)
       then filter (\<lambda>e. \<not> pe_isLogical e) (mbr_entries t) else mbr_entries t))\<rparr>"
    by (simp add: mbr_deletePartition_def Let_def)
  define es where "es = (if pe_isExtended (mbr_entries t ! k) \<and> \<not> pe_isLogical (mbr_entries t ! k)
       then filter (\<lambda>e. \<not> pe_isLogical e) (mbr_entries t) else mbr_entries t)"
  have "subseq es (mbr_entries t)" by (simp add: es_def)
  then have "subseq (eraseIndex i es) (mbr_entries t)"
    by (rule subseq_order.order_trans [OF subseq_eraseIndex])
  with t' show ?thesis by (simp add: subseq_map flip: es_def)
qed

lemma mbr_delete_inv [table_inv]:
  assumes "mbr_inv t"
  shows "mbr_inv (snd (mbr_deletePartition i t))"
proof (cases "mbr_deletePartition i t")
  case (Pair r t')
  show ?thesis
  proof (cases r)
    case (Inl err)
    with Pair assms show ?thesis by (auto simp: mbr_deletePartition_def Let_def split: option.splits)
  next
    case (Inr u)
    with Pair have "map pe_index (mbr_entries t') = map int [0..<length (mbr_entries t')]"
      by (auto simp: mbr_deletePartition_def Let_def split: option.splits if_splits)
    moreover have "list_all (\<lambda>e. no_wrap (entry_range e)) (mbr_entries t')"
      using assms mbr_delete_subseq [of i t u t'] Pair Inr
      unfolding mbr_inv_def list_all_no_wrap_shape by (auto intro: list_all_subseq)
    ultimately show ?thesis using Pair by (simp add: mbr_inv_def)
  qed
qed

lemma mbr_add_cases:
  assumes "mbr_addPartition p t = (r, t')"
  obtains (err) err where "r = Inl err" "t' = t"
  | (ok) "r = ok" "t' = t\<lparr>mbr_entries := mbr_entries t @ [mbr_newEntry p t]\<rparr>"
      "pp_sectorCount p \<noteq> 0" "mbr_addGuard p t = ok"
      "\<not> mbr_overlapsExisting (mbr_entries t) (pp_startLba p) (pp_sectorCount p) (-1)"
      "pp_startLba p + pp_sectorCount p \<le> mbr_diskSizeBytes t div ucast (mbr_sectorSize t)"
      "pp_startLba p \<le> 0xFFFFFFFF" "pp_sectorCount p \<le> 0xFFFFFFFF"
proof (cases "mbr_addGuard p t")
  case (Inl e)
  then show thesis
    using assms err [OF sym] by (cases "pp_sectorCount p = 0") (auto simp: mbr_addPartition_def)
next
  case (Inr u)
  then show thesis
    using assms by (auto simp: mbr_addPartition_def not_less split: if_splits intro: that)
qed

lemma mbr_resize_cases:
  assumes "mbr_resizePartition i s n t = (r, t')"
  obtains (err) err where "r = Inl err" "t' = t"
  | (ok) k where "r = ok" "k < length (mbr_entries t)" "pe_index (mbr_entries t ! k) = i"
      "t' = t\<lparr>mbr_entries := (mbr_entries t)
         [k := (mbr_entries t ! k)\<lparr>pe_startLba := s, pe_sectorCount := n\<rparr>]\<rparr>"
      "n \<noteq> 0" "s + n \<le> mbr_diskSizeBytes t div ucast (mbr_sectorSize t)"
      "s \<le> 0xFFFFFFFF" "n \<le> 0xFFFFFFFF" "\<not> mbr_overlapsExisting (mbr_entries t) s n i"
proof (cases "find_index (\<lambda>e. pe_index e = i) (mbr_entries t)")
  case None
  then show thesis using assms err [OF sym] by (auto simp: mbr_resizePartition_def)
next
  case (Some k)
  note find = find_index_SomeD [OF Some]
  from Some show thesis
    using assms err ok [of k] find
    by (simp add: mbr_resizePartition_def not_less split: if_splits; blast)
qed

lemma mbr_newEntry_range [simp]: "entry_range (mbr_newEntry p t) = (pp_startLba p, pp_sectorCount p)"
  "pe_index (mbr_newEntry p t) = int (length (mbr_entries t))"
  by (simp_all add: mbr_newEntry_def entry_range_def pe_default_def)

lemma mbr_add_inv [table_inv]:
  assumes "mbr_inv t"
  shows "mbr_inv (snd (mbr_addPartition p t))"
proof (cases "mbr_addPartition p t")
  case (Pair r t')
  then show ?thesis
    by (cases rule: mbr_add_cases) (use assms Pair in \<open>auto simp: mbr_inv_def no_wrap_32\<close>)
qed

lemma mbr_resize_inv [table_inv]:
  assumes "mbr_inv t"
  shows "mbr_inv (snd (mbr_resizePartition i s n t))"
proof (cases "mbr_resizePartition i s n t")
  case (Pair r t')
  then show ?thesis
  proof (cases rule: mbr_resize_cases)
    case err
    with Pair assms show ?thesis by simp
  next
    case (ok k)
    from ok(2,4) have "map pe_index (mbr_entries t') = map pe_index (mbr_entries t)"
      by (intro nth_equalityI) (auto simp: nth_list_update)
    moreover have "list_all (\<lambda>e. no_wrap (entry_range e)) (mbr_entries t')"
      using assms ok by (auto simp: mbr_inv_def list_all_length nth_list_update entry_range_def no_wrap_32)
    ultimately show ?thesis using assms Pair ok(4) by (simp add: mbr_inv_def)
  qed
qed

interpretation mbr: partition_table mbr_partitions "\<lambda>rnd. mbr_addPartition" mbr_deletePartition
  mbr_resizePartition mbr_inv "\<lambda>r. True"
proof (unfold_locales, goal_cases)
  case (1 t p rnd u t')
  from 1(3) show ?case
  proof (cases rule: mbr_add_cases)
    case ok
    have "pe_index x \<noteq> -1" if "x \<in> set (mbr_entries t)" for x
      using that mbr_inv_index [OF 1(1)] by (auto simp: in_set_conv_nth)
    then have "\<forall>x \<in> set (mbr_entries t). ranges_disjoint (entry_range x) (entry_range (mbr_newEntry p t))"
      using ok(5) mbr_overlapsExisting_iff [of "mbr_entries t" "pp_startLba p" "pp_sectorCount p" "-1",
          OF mbr_inv_no_wrap [OF 1(1)] no_wrap_32 [OF ok(7,8)] ok(3)]
      by auto
    with ok(2) show ?thesis by (auto simp: mbr_partitions_def)
  qed simp
next
  case (2 rnd p t err t')
  from 2 show ?case by (cases rule: mbr_add_cases) auto
next
  case (3 t i u t')
  then show ?case by (simp add: mbr_partitions_def mbr_delete_subseq)
next
  case (4 i t err t')
  then show ?case by (auto simp: mbr_deletePartition_def Let_def split: option.splits)
next
  case (5 t s n i u t')
  from 5(3) show ?case
  proof (cases rule: mbr_resize_cases)
    case (ok k)
    have "ranges_disjoint (s, n) (entry_range (mbr_entries t ! j))"
      if j: "j < length (mbr_entries t)" "j \<noteq> k" for j
    proof (rule ranges_disjoint_sym)
      have "pe_index (mbr_entries t ! j) \<noteq> i" using j ok(2,3) mbr_inv_index [OF 5(1)] by auto
      with j show "ranges_disjoint (entry_range (mbr_entries t ! j)) (s, n)"
        using ok(9) mbr_overlapsExisting_iff [of "mbr_entries t" s n i,
            OF mbr_inv_no_wrap [OF 5(1)] no_wrap_32 [OF ok(7,8)] ok(5)] by auto
    qed
    moreover have "map shape (mbr_entries t') =
        (map shape (mbr_entries t))[k := ((s, n), snd (shape (mbr_entries t ! k)))]"
      using ok(4) by (simp add: map_update shape_def entry_range_def)
    ultimately show ?thesis using ok(2) by (auto simp: mbr_partitions_def)
  qed simp
next
  case (6 i s n t err t')
  from 6 show ?case by (cases rule: mbr_resize_cases) auto
next
  case (7 t e)
  then show ?case by (cases e) (simp_all add: table_inv)
qed

section \<open>Properties of the edits\<close>

text \<open>
  Whatever sequence of additions, deletions and resizings is applied to an MBR table, with
  whatever requests, a table without clashes stays one: no two primary and no two logical
  partitions share a sector, and every call that fails leaves the partitions alone.
\<close>

theorem mbr_edits_layout:
  assumes "mbr_inv t" "layout_ok (mbr_partitions t)"
  shows "layout_ok (mbr_partitions
    (run_edits (\<lambda>rnd. mbr_addPartition) mbr_deletePartition mbr_resizePartition es t))"
proof -
  have "edit_req (\<lambda>r. True) e" for e by (cases e) simp_all
  then have "list_all (edit_req (\<lambda>r. True)) es" by (simp add: list_all_iff)
  with assms show ?thesis using mbr.edits_layout by blast
qed

lemma findExtendedIndex_SomeD:
  "findExtendedIndex t = Some k \<Longrightarrow>
     k < length (mbr_entries t) \<and> pe_isExtended (mbr_entries t ! k) \<and> \<not> pe_isLogical (mbr_entries t ! k)"
  by (auto simp: findExtendedIndex_def dest: find_index_SomeD)

text \<open>
  \<open>addPartition\<close> never adds a logical partition to an MBR table: a request that fits in the
  extended partition overlaps the extended partition's own entry, which the overlap test does not
  skip, and a request that does not fit is refused before.
\<close>

theorem mbr_add_logical_fails:
  assumes "mbr_inv t" "pp_isLogical p"
  shows "\<exists>err. mbr_addPartition p t = (Inl err, t)"
proof (cases "mbr_addPartition p t")
  case (Pair r t')
  then show ?thesis
  proof (cases rule: mbr_add_cases)
    case err
    with Pair show ?thesis by simp
  next
    case ok
    from ok(4) assms(2) obtain k where k: "findExtendedIndex t = Some k"
      and fit: "pe_startLba (mbr_entries t ! k) \<le> pp_startLba p"
        "pp_startLba p + pp_sectorCount p \<le> pe_startLba (mbr_entries t ! k) + pe_sectorCount (mbr_entries t ! k)"
      by (auto simp: mbr_addGuard_def Let_def not_less split: option.splits if_splits)
    let ?e = "mbr_entries t ! k"
    have e: "?e \<in> set (mbr_entries t)" "pe_index ?e = int k" "no_wrap (entry_range ?e)"
      using findExtendedIndex_SomeD [OF k] mbr_inv_index [OF assms(1)] mbr_inv_no_wrap [OF assms(1)]
      by auto
    have "\<not> ranges_disjoint (entry_range ?e) (pp_startLba p, pp_sectorCount p)"
      using fit ok(3) e(3) no_wrap_32 [OF ok(7,8)] unat_gt_0 [of "pp_sectorCount p"]
      by (auto simp: entry_range_def ranges_disjoint_iff word_le_nat_alt unat_add_no_wrap)
    then have "mbr_overlapsExisting (mbr_entries t) (pp_startLba p) (pp_sectorCount p) (-1)"
      using e mbr_overlapsExisting_iff [of "mbr_entries t" "pp_startLba p" "pp_sectorCount p" "-1",
          OF mbr_inv_no_wrap [OF assms(1)] no_wrap_32 [OF ok(7,8)] ok(3)] by force
    with ok(5) show ?thesis by simp
  qed
qed

text \<open>
  A successful \<open>setActivePartition\<close> leaves at most one active primary partition: the one
  asked for, and none for a negative index; nothing else of any entry changes.
\<close>

theorem setActivePartition_unique:
  assumes "mbr_inv t" "setActivePartition i t = (ok, t')"
  shows "filter (\<lambda>e. pe_isActive e \<and> \<not> pe_isLogical e) (mbr_entries t') =
      (if i < 0 then [] else [mbr_entries t' ! nat i]) \<and>
    map (pe_isActive_update (\<lambda>_. False)) (mbr_entries t') =
      map (pe_isActive_update (\<lambda>_. False)) (mbr_entries t) \<and>
    filter pe_isLogical (mbr_entries t') = filter pe_isLogical (mbr_entries t)"
proof -
  define cl where "cl = map (\<lambda>e. if pe_isLogical e then e else e\<lparr>pe_isActive := False\<rparr>) (mbr_entries t)"
  have off: "filter (\<lambda>e. pe_isActive e \<and> \<not> pe_isLogical e) es = []" if "set es \<subseteq> set cl" for es
    using that by (auto simp: cl_def filter_empty_conv split: if_splits)
  have cl: "map (pe_isActive_update (\<lambda>_. False)) cl = map (pe_isActive_update (\<lambda>_. False)) (mbr_entries t)"
    "filter pe_isLogical cl = filter pe_isLogical (mbr_entries t)"
    unfolding cl_def by (auto simp: filter_map comp_def cong: filter_cong intro: map_idI)
  show ?thesis
  proof (cases "i < 0")
    case True
    with assms(2) have "mbr_entries t' = cl" by (auto simp: setActivePartition_def Let_def cl_def)
    with True cl off [of cl] show ?thesis by simp
  next
    case False
    with assms(2) obtain k where k: "find_index (\<lambda>e. pe_index e = i \<and> \<not> pe_isLogical e) cl = Some k"
      and t': "mbr_entries t' = cl[k := (cl ! k)\<lparr>pe_isActive := True\<rparr>]"
      by (auto simp: setActivePartition_def Let_def cl_def split: option.splits)
    have len: "k < length cl" and "pe_index (cl ! k) = i" and prim: "\<not> pe_isLogical (cl ! k)"
      using find_index_SomeD [OF k] by auto
    then have "nat i = k" using mbr_inv_index [OF assms(1), of k] by (auto simp: cl_def split: if_splits)
    moreover have "filter (\<lambda>e. pe_isActive e \<and> \<not> pe_isLogical e) (mbr_entries t') = [mbr_entries t' ! k]"
      using len prim off [of "take k cl"] off [of "drop (Suc k) cl"]
      by (simp add: t' upd_conv_take_nth_drop set_take_subset set_drop_subset nth_append)
    moreover have "map (pe_isActive_update (\<lambda>_. False)) (mbr_entries t') = map (pe_isActive_update (\<lambda>_. False)) cl"
      unfolding t' by (rule nth_equalityI) (auto simp: nth_list_update len)
    moreover have "filter pe_isLogical (mbr_entries t') = filter pe_isLogical cl"
      using len prim unfolding t'
      by (subst (2) id_take_nth_drop [OF len]) (simp add: upd_conv_take_nth_drop)
    ultimately show ?thesis using cl False by simp
  qed
qed

section \<open>Round trip\<close>

text \<open>What a primary slot keeps of an entry: an entry as \<open>parse\<close> rebuilds it from slot \<open>i\<close>.\<close>

definition mbr_stored :: "u32 \<Rightarrow> nat \<Rightarrow> PartitionEntry \<Rightarrow> PartitionEntry" where
  "mbr_stored ss i e = pe_default\<lparr>
     pe_index := int i, pe_startLba := pe_startLba e, pe_sectorCount := pe_sectorCount e,
     pe_sectorSize := ss, pe_mbrType := pe_mbrType e, pe_isActive := pe_isActive e,
     pe_isExtended := isExtendedType (pe_mbrType e), pe_isLogical := False,
     pe_chsStart := if pe_startLba e > 16450559 then chs_overflow else pe_chsStart e,
     pe_chsEnd := if pe_startLba e > 16450559 then chs_overflow else pe_chsEnd e\<rparr>"

text \<open>What an EBR keeps of a logical partition.\<close>

definition ebr_stored :: "u32 \<Rightarrow> nat \<Rightarrow> PartitionEntry \<Rightarrow> PartitionEntry" where
  "ebr_stored ss i e = pe_default\<lparr>
     pe_index := int i, pe_startLba := pe_startLba e, pe_sectorCount := pe_sectorCount e,
     pe_sectorSize := ss, pe_mbrType := pe_mbrType e, pe_isActive := pe_isActive e,
     pe_isExtended := False, pe_isLogical := True,
     pe_chsStart := chs_overflow, pe_chsEnd := chs_overflow\<rparr>"

text \<open>The entries that the 16 bytes of a slot can hold.\<close>

definition mbr_storable :: "PartitionEntry \<Rightarrow> bool" where
  "mbr_storable e \<longleftrightarrow> pe_startLba e \<le> 0xFFFFFFFF \<and> pe_sectorCount e \<le> 0xFFFFFFFF \<and> pe_sectorCount e \<noteq> 0 \<and>
     chs_packable (pe_chsStart e) \<and> chs_packable (pe_chsEnd e)"

lemma down_up_32: "(x :: u64) \<le> 0xFFFFFFFF \<Longrightarrow> ucast (ucast x :: u32) = x"
  by (rule ucast_down_up_32) (simp add: word_le_nat_alt word_less_nat_alt)

lemma decodeCHS_encodeCHSOverflow:
  "off + 3 \<le> length buf \<Longrightarrow> decodeCHS (encodeCHSOverflow buf off) off = chs_overflow"
  by (simp add: decodeCHS_def encodeCHSOverflow_def chs_overflow_def)

lemma decodeCHS_other:
  "off + 3 \<le> o2 \<or> o2 + 4 \<le> off \<Longrightarrow> decodeCHS (writeLE32 buf o2 v) off = decodeCHS buf off"
  "off + 3 \<le> o2 \<or> o2 + 3 \<le> off \<Longrightarrow> decodeCHS (encodeCHS chs buf o2) off = decodeCHS buf off"
  "off + 3 \<le> o2 \<or> o2 + 3 \<le> off \<Longrightarrow> decodeCHS (encodeCHSOverflow buf o2) off = decodeCHS buf off"
  "off + 3 \<le> o2 \<or> o2 < off \<Longrightarrow> decodeCHS (buf[o2 := x]) off = decodeCHS buf off"
  by (rule decodeCHS_cong; auto simp: le32.wr_frame encodeCHS_frame)+

lemma decodeCHS_writeLE16:
  "off + 3 \<le> o2 \<or> o2 + 2 \<le> off \<Longrightarrow> decodeCHS (writeLE16 buf o2 w) off = decodeCHS buf off"
  by (rule decodeCHS_cong) (auto simp: le16.wr_frame)

lemma le32_encodeCHSOverflow:
  "off + 4 \<le> o2 \<or> o2 + 3 \<le> off \<Longrightarrow> readLE32 (encodeCHSOverflow buf o2) off = readLE32 buf off"
  by (rule le32.rd_cong) (auto simp: encodeCHS_frame)

lemmas slot_reads = le32.wr_frame encodeCHS_frame le32.rd_wr le32.rd_wr_other le32.rd_update_other
  decodeCHS_other decodeCHS_encodeCHS decodeCHS_encodeCHSOverflow

lemma parsePrimary_cong:
  assumes "\<And>j. 446 + i * 16 \<le> j \<Longrightarrow> j < 446 + i * 16 + 16 \<Longrightarrow> raw ! j = raw' ! j"
  shows "parsePrimary ss raw i = parsePrimary ss raw' i"
proof -
  let ?p = "446 + i * 16"
  have "raw ! ?p = raw' ! ?p" "raw ! (?p + 4) = raw' ! (?p + 4)"
    "readLE32 raw (?p + 8) = readLE32 raw' (?p + 8)" "readLE32 raw (?p + 12) = readLE32 raw' (?p + 12)"
    "decodeCHS raw (?p + 1) = decodeCHS raw' (?p + 1)" "decodeCHS raw (?p + 5) = decodeCHS raw' (?p + 5)"
    by (auto intro!: assms le32.rd_cong decodeCHS_cong)
  then show ?thesis by (simp only: parsePrimary_def Let_def)
qed

lemma length_putPrimary [simp]: "length (putPrimary buf k e) = length buf"
  by (simp add: putPrimary_def Let_def)

lemma putPrimary_frame:
  "j < 446 + k * 16 \<or> 446 + k * 16 + 16 \<le> j \<Longrightarrow> putPrimary buf k e ! j = buf ! j"
  by (auto simp: putPrimary_def Let_def le32.wr_frame encodeCHS_frame)

lemma parsePrimary_putPrimary:
  assumes "k < 4" "length buf = 512" "mbr_storable e"
  shows "parsePrimary ss (putPrimary buf k e) k = Some (mbr_stored ss k e)"
proof -
  let ?p = "446 + k * 16" and ?b = "putPrimary buf k e"
  have room: "?p + 16 \<le> length buf" using assms(1,2) by simp
  have "?b ! ?p = (if pe_isActive e then 0x80 else 0)" "?b ! (?p + 4) = pe_mbrType e"
    "readLE32 ?b (?p + 8) = ucast (pe_startLba e)" "readLE32 ?b (?p + 12) = ucast (pe_sectorCount e)"
    "decodeCHS ?b (?p + 1) = (if pe_startLba e > 16450559 then chs_overflow else pe_chsStart e)"
    "decodeCHS ?b (?p + 5) = (if pe_startLba e > 16450559 then chs_overflow else pe_chsEnd e)"
    using room assms(3) by (simp_all add: putPrimary_def Let_def slot_reads mbr_storable_def)
  moreover have "(ucast (pe_sectorCount e) :: u32) \<noteq> 0"
    using assms(3) down_up_32 [of "pe_sectorCount e"] by (auto simp: mbr_storable_def)
  ultimately show ?thesis
    using assms(3) by (simp add: parsePrimary_def mbr_stored_def Let_def mbr_storable_def down_up_32)
qed

lemma length_putPrimaries [simp]: "length (putPrimaries buf k es) = length buf"
  by (induction es arbitrary: buf k) auto

lemma putPrimaries_frame:
  "j < 446 \<or> 510 \<le> j \<Longrightarrow> putPrimaries buf k es ! j = buf ! j"
  by (induction es arbitrary: buf k) (auto simp: putPrimary_frame)

lemma parsePrimary_putPrimaries:
  assumes "k + length (filter (\<lambda>e. \<not> pe_isLogical e) es) \<le> 4" "length buf = 512"
    and "\<And>e. e \<in> set es \<Longrightarrow> \<not> pe_isLogical e \<Longrightarrow> mbr_storable e" "i < 4"
  shows "parsePrimary ss (putPrimaries buf k es) i =
    (if k \<le> i \<and> i < k + length (filter (\<lambda>e. \<not> pe_isLogical e) es)
     then Some (mbr_stored ss i (filter (\<lambda>e. \<not> pe_isLogical e) es ! (i - k)))
     else parsePrimary ss buf i)"
  using assms
proof (induction es arbitrary: buf k)
  case Nil
  then show ?case by auto
next
  case (Cons e es)
  show ?case
  proof (cases "pe_isLogical e")
    case True
    with Cons show ?thesis by simp
  next
    case False
    with Cons.prems(1) have k: "k < 4" by simp
    have "parsePrimary ss (putPrimary buf k e) i = parsePrimary ss buf i" if "i \<noteq> k"
      using that by (intro parsePrimary_cong putPrimary_frame) auto
    moreover have "parsePrimary ss (putPrimary buf k e) k = Some (mbr_stored ss k e)"
      using k Cons.prems False by (intro parsePrimary_putPrimary) auto
    moreover have "parsePrimary ss (putPrimaries (putPrimary buf k e) (k + 1) es) i =
      (if k + 1 \<le> i \<and> i < k + 1 + length (filter (\<lambda>e. \<not> pe_isLogical e) es)
       then Some (mbr_stored ss i (filter (\<lambda>e. \<not> pe_isLogical e) es ! (i - (k + 1))))
       else parsePrimary ss (putPrimary buf k e) i)"
      using Cons.prems False by (intro Cons.IH) auto
    ultimately show ?thesis
      using False k by (cases "i = k") (auto simp: nth_Cons')
  qed
qed

lemma length_mbrSector [simp]:
  "440 \<le> length (mbr_bootCode t) \<Longrightarrow> length (mbrSector t) = 512"
  by (simp add: mbrSector_def Let_def)

text \<open>The part of sector 0 in front of the slots, and the slots.\<close>

lemma mbrSector_header:
  assumes "440 \<le> length (mbr_bootCode t)"
  shows "readLE16 (mbrSector t) 510 = 0xAA55" "readLE32 (mbrSector t) 440 = mbr_diskSignature t"
    "readLE16 (mbrSector t) 444 = mbr_reserved t" "take 440 (mbrSector t) = take 440 (mbr_bootCode t)"
proof -
  let ?h = "writeLE16 (writeLE32 (blit 0 (take 440 (mbr_bootCode t)) (replicate 512 0)) 440
    (mbr_diskSignature t)) 444 (mbr_reserved t)"
  let ?p = "putPrimaries ?h 0 (mbr_entries t)"
  have len: "length ?p = 512" using assms by simp
  have sector: "mbrSector t = writeLE16 ?p 510 0xAA55"
    by (simp add: mbrSector_def Let_def)
  then show "readLE16 (mbrSector t) 510 = 0xAA55" using len by (simp add: le16.rd_wr)
  have same: "mbrSector t ! j = ?h ! j" if "j < 446" for j
    using that unfolding sector by (simp add: le16.wr_frame putPrimaries_frame)
  have "readLE32 (mbrSector t) 440 = readLE32 ?h 440"
    by (rule le32.rd_cong) (auto simp: same)
  then show "readLE32 (mbrSector t) 440 = mbr_diskSignature t"
    using assms by (simp add: mixed_reads le32.rd_wr)
  have "readLE16 (mbrSector t) 444 = readLE16 ?h 444"
    by (rule le16.rd_cong) (auto simp: same)
  then show "readLE16 (mbrSector t) 444 = mbr_reserved t"
    using assms by (simp add: le16.rd_wr)
  show "take 440 (mbrSector t) = take 440 (mbr_bootCode t)"
    using assms same by (intro nth_equalityI)
      (auto simp: le16.wr_frame le32.wr_frame nth_blit)
qed

lemma parsePrimary_mbrSector:
  assumes "440 \<le> length (mbr_bootCode t)" "i < 4"
    and "length (filter (\<lambda>e. \<not> pe_isLogical e) (mbr_entries t)) \<le> 4"
    and "\<And>e. e \<in> set (mbr_entries t) \<Longrightarrow> \<not> pe_isLogical e \<Longrightarrow> mbr_storable e"
  shows "parsePrimary ss (mbrSector t) i =
    (if i < length (filter (\<lambda>e. \<not> pe_isLogical e) (mbr_entries t))
     then Some (mbr_stored ss i (filter (\<lambda>e. \<not> pe_isLogical e) (mbr_entries t) ! i)) else None)"
proof -
  let ?h = "writeLE16 (writeLE32 (blit 0 (take 440 (mbr_bootCode t)) (replicate 512 0)) 440
    (mbr_diskSignature t)) 444 (mbr_reserved t)"
  have zero: "?h ! j = 0" if "446 \<le> j" "j < 512" for j
    using that assms(1) by (simp add: le16.wr_frame le32.wr_frame nth_blit)
  have "parsePrimary ss (mbrSector t) i = parsePrimary ss (putPrimaries ?h 0 (mbr_entries t)) i"
    using assms(2) by (intro parsePrimary_cong) (simp add: mbrSector_def Let_def le16.wr_frame)
  moreover have "parsePrimary ss ?h i = None"
    using assms(2) zero by (simp add: parsePrimary_def Let_def readLE32_def)
  ultimately show ?thesis
    using parsePrimary_putPrimaries [of 0 "mbr_entries t" ?h i ss] assms by simp
qed

lemma map_filter_prefix:
  assumes "n \<le> m" "\<And>i. i < m \<Longrightarrow> f i = (if i < n then Some (g i) else None)"
  shows "List.map_filter f [0..<m] = map g [0..<n]"
proof -
  have "[0..<m] = [0..<n] @ [n..<m]" using assms(1) by (metis le0 le_Suc_ex upt_add_eq_append)
  moreover have "filter (\<lambda>i. f i \<noteq> None) [0..<n] = [0..<n]" "filter (\<lambda>i. f i \<noteq> None) [n..<m] = []"
    using assms by (auto simp: filter_id_conv filter_empty_conv)
  ultimately show ?thesis using assms by (simp add: List.map_filter_def)
qed

definition mbr_stored_primaries :: "u32 \<Rightarrow> PartitionEntry list \<Rightarrow> PartitionEntry list" where
  "mbr_stored_primaries ss ps = map (\<lambda>i. mbr_stored ss i (ps ! i)) [0..<length ps]"

lemma parsePrimaries_mbrSector:
  assumes "440 \<le> length (mbr_bootCode t)"
    and "length (filter (\<lambda>e. \<not> pe_isLogical e) (mbr_entries t)) \<le> 4"
    and "\<And>e. e \<in> set (mbr_entries t) \<Longrightarrow> \<not> pe_isLogical e \<Longrightarrow> mbr_storable e"
  shows "parsePrimaries ss (mbrSector t) =
    mbr_stored_primaries ss (filter (\<lambda>e. \<not> pe_isLogical e) (mbr_entries t))"
proof -
  let ?ps = "filter (\<lambda>e. \<not> pe_isLogical e) (mbr_entries t)"
  have slot: "parsePrimary ss (mbrSector t) i =
      (if i < length ?ps then Some (mbr_stored ss i (?ps ! i)) else None)" if "i < 4" for i
    using assms that by (intro parsePrimary_mbrSector)
  then show ?thesis
    unfolding parsePrimaries_def mbr_stored_primaries_def using assms(2) by (intro map_filter_prefix)
qed

section \<open>The EBR chain\<close>

text \<open>
  A layout that the chain of EBRs can represent: the EBR of each logical partition is the sector
  in front of it, the first one is the first sector of the container, all lie in the container,
  and every offset fits its 32-bit field.
\<close>

definition ebr_layout :: "u64 \<Rightarrow> u64 \<Rightarrow> PartitionEntry list \<Rightarrow> bool" where
  "ebr_layout extStart extSize ls \<longleftrightarrow>
     length ls \<le> 256 \<and> extStart \<noteq> 0 \<and> (ls \<noteq> [] \<longrightarrow> pe_startLba (ls ! 0) = extStart + 1) \<and>
     list_all (\<lambda>e. extStart \<le> pe_startLba e - 1 \<and> pe_startLba e - 1 < extStart + extSize \<and>
       pe_startLba e - 1 - extStart \<le> 0xFFFFFFFF \<and>
       pe_mbrType e \<noteq> 0 \<and> pe_sectorCount e \<noteq> 0 \<and> pe_sectorCount e \<le> 0xFFFFFFFF) ls \<and>
     list_all (\<lambda>e. pe_startLba e - 1 \<noteq> extStart) (tl ls)"

lemma length_ebrSector [simp]: "length (ebrSector ext ls i) = 512"
  by (simp add: ebrSector_def Let_def)

lemma ebrSector_fields:
  shows "readLE16 (ebrSector ext ls i) 510 = 0xAA55"
    "ebrSector ext ls i ! 446 = (if pe_isActive (ls ! i) then 0x80 else 0)"
    "ebrSector ext ls i ! 450 = pe_mbrType (ls ! i)"
    "decodeCHS (ebrSector ext ls i) 447 = chs_overflow"
    "decodeCHS (ebrSector ext ls i) 451 = chs_overflow"
    "readLE32 (ebrSector ext ls i) 454 = 1"
    "readLE32 (ebrSector ext ls i) 458 = ucast (pe_sectorCount (ls ! i))"
    "ebrSector ext ls i ! 466 = (if i + 1 < length ls then 5 else 0)"
    "i + 1 < length ls \<Longrightarrow>
      readLE32 (ebrSector ext ls i) 470 = ucast (pe_startLba (ls ! (i + 1)) - 1 - ext)"
  by (simp_all add: ebrSector_def Let_def slot_reads mixed_reads le16.rd_wr le16.wr_frame
      le32_encodeCHSOverflow decodeCHS_writeLE16)

lemma ebrLogical_ebrSector:
  assumes "pe_sectorCount (ls ! i) \<le> 0xFFFFFFFF" "cur = pe_startLba (ls ! i) - 1"
  shows "ebrLogical ss cur (ebrSector ext ls i) n = ebr_stored ss n (ls ! i)"
  using assms by (simp add: ebrLogical_def ebr_stored_def ebrSector_fields Let_def down_up_32)

lemma ebrStep_ebrSector:
  assumes lay: "ebr_layout ext size' ls" and i: "i < length ls"
    and rd: "readFunc ((pe_startLba (ls ! i) - 1) * ucast ss) 512 = Inr (ebrSector ext ls i)"
  shows "ebrStep readFunc ss ext size' (pe_startLba (ls ! i) - 1) i es =
    (if i + 1 < length ls
     then Next (pe_startLba (ls ! (i + 1)) - 1) (i + 1) (es @ [ebr_stored ss (length es) (ls ! i)])
     else Stop ok (es @ [ebr_stored ss (length es) (ls ! i)]))"
proof -
  let ?cur = "pe_startLba (ls ! i) - 1"
  have e: "ext \<le> ?cur" "?cur < ext + size'" "pe_mbrType (ls ! i) \<noteq> 0" "pe_sectorCount (ls ! i) \<noteq> 0"
    "pe_sectorCount (ls ! i) \<le> 0xFFFFFFFF" and ext: "ext \<noteq> 0" and len: "i < 256"
    using lay i by (auto simp: ebr_layout_def list_all_length)
  have "?cur \<noteq> 0" using e(1) ext by auto
  have pos: "0 < (ucast (pe_sectorCount (ls ! i)) :: u32)"
    using e(4,5) down_up_32 [of "pe_sectorCount (ls ! i)"] by (auto simp: word_gt_0)
  have ext5: "isExtendedType 5" "\<not> isExtendedType 0" by (simp_all add: isExtendedType_def)
  show ?thesis
  proof (cases "i + 1 < length ls")
    case True
    let ?off = "pe_startLba (ls ! (i + 1)) - 1 - ext"
    have "ls ! (i + 1) \<in> set (tl ls)" using True by (metis Suc_eq_plus1 Suc_less_eq2 in_set_conv_nth length_tl nth_tl diff_Suc_1)
    then have "pe_startLba (ls ! (i + 1)) - 1 \<noteq> ext"
      using lay by (simp add: ebr_layout_def list_all_iff)
    then have nz: "?off \<noteq> 0" by (metis eq_iff_diff_eq_0)
    have fits: "?off \<le> 0xFFFFFFFF" using lay True by (simp add: ebr_layout_def list_all_length)
    then have "(ucast ?off :: u32) \<noteq> 0" using nz down_up_32 [of ?off] by auto
    moreover have "ext + ucast (ucast ?off :: u32) = pe_startLba (ls ! (i + 1)) - 1"
      using down_up_32 [OF fits] by simp
    ultimately show ?thesis
      using True e \<open>?cur \<noteq> 0\<close> len rd pos ext5
      by (simp add: ebrStep_def ebrSector_fields ebrLogical_ebrSector Let_def not_less not_le)
  next
    case False
    then show ?thesis
      using e \<open>?cur \<noteq> 0\<close> len rd pos ext5
      by (simp add: ebrStep_def ebrSector_fields ebrLogical_ebrSector Let_def not_less not_le)
  qed
qed

lemma walk_ebrSectors:
  assumes "ebr_layout ext size' ls"
    and "\<And>i. i < length ls \<Longrightarrow>
      readFunc ((pe_startLba (ls ! i) - 1) * ucast ss) 512 = Inr (ebrSector ext ls i)"
    and "i < length ls"
  shows "walkExtendedChain readFunc ss ext size' (pe_startLba (ls ! i) - 1) i es =
    Some (ok, es @ map (\<lambda>j. ebr_stored ss (length es + (j - i)) (ls ! j)) [i..<length ls])"
  using assms(3)
proof (induction "length ls - i" arbitrary: i es)
  case 0
  then show ?case by simp
next
  case (Suc n)
  note step = ebrStep_ebrSector [of ext size' ls i readFunc ss es, OF assms(1) Suc.prems assms(2) [OF Suc.prems]]
  show ?case
  proof (cases "i + 1 < length ls")
    case True
    let ?es = "es @ [ebr_stored ss (length es) (ls ! i)]"
    have "walkExtendedChain readFunc ss ext size' (pe_startLba (ls ! i) - 1) i es =
        walkExtendedChain readFunc ss ext size' (pe_startLba (ls ! (i + 1)) - 1) (i + 1) ?es"
      using True step by (subst walkExtendedChain.simps) simp
    also have "\<dots> = Some (ok, ?es @
        map (\<lambda>j. ebr_stored ss (length ?es + (j - (i + 1))) (ls ! j)) [i + 1..<length ls])"
      using True Suc.hyps(2) by (intro Suc.hyps(1)) auto
    also have "map (\<lambda>j. ebr_stored ss (length ?es + (j - (i + 1))) (ls ! j)) [i + 1..<length ls] =
        map (\<lambda>j. ebr_stored ss (length es + (j - i)) (ls ! j)) [i + 1..<length ls]"
      by (rule map_cong) (auto simp: Suc_diff_Suc)
    finally show ?thesis using Suc.prems by (simp add: upt_conv_Cons)
  next
    case False
    then have "[i..<length ls] = [i]" using Suc.prems by (simp add: upt_conv_Cons)
    with False step show ?thesis by (subst walkExtendedChain.simps) simp
  qed
qed

section \<open>Termination of the walk\<close>

lemma ebrStep_Next:
  assumes "ebrStep readFunc ss ext size' cur n es = Next cur' n' es'"
  shows "n < 256" "ext \<le> cur" "cur < ext + size'"
    "(n' = n \<and> es' = es) \<or> (n' = n + 1 \<and> (\<exists>e. es' = es @ [e] \<and> pe_isLogical e))"
  using assms by (auto simp: ebrStep_def Let_def ebrLogical_def split: if_splits sum.splits)

lemma ebrStep_Stop:
  assumes "ebrStep readFunc ss ext size' cur n es = Stop r es'"
  shows "es' = es \<or> n < 256 \<and> (\<exists>e. es' = es @ [e] \<and> pe_isLogical e)"
  using assms by (auto simp: ebrStep_def Let_def ebrLogical_def split: if_splits sum.splits)

text \<open>
  The way from EBR to EBR as it is on the disk: the walk is at a sector with a number of logical
  partitions counted so far; the sector lies in the container and holds an EBR whose second slot
  refers to another one; the count grows when the first slot holds a logical partition.
\<close>

definition ebr_link :: "DiskReadCallback \<Rightarrow> u32 \<Rightarrow> u64 \<Rightarrow> u64 \<Rightarrow> u64 \<times> nat \<Rightarrow> u64 \<times> nat \<Rightarrow> bool" where
  "ebr_link readFunc ss ext size' p q \<longleftrightarrow>
     fst p \<noteq> 0 \<and> snd p < 256 \<and> ext \<le> fst p \<and> fst p < ext + size' \<and>
     (\<exists>ebr. readFunc (fst p * ucast ss) 512 = Inr ebr \<and> 512 \<le> length ebr \<and>
        readLE16 ebr 510 = MBR_SIGNATURE \<and> isExtendedType (ebr ! 466) \<and> readLE32 ebr 470 \<noteq> 0 \<and>
        q = (ext + ucast (readLE32 ebr 470),
             if ebr ! 450 \<noteq> MbrTypes_Empty \<and> 0 < readLE32 ebr 458 then snd p + 1 else snd p))"

lemma ebrStep_link:
  assumes "ebrStep readFunc ss ext size' cur n es = Next cur' n' es'"
  shows "ebr_link readFunc ss ext size' (cur, n) (cur', n')"
proof -
  from assms obtain ebr where ebr: "readFunc (cur * ucast ss) 512 = Inr ebr" "\<not> length ebr < 512"
    "readLE16 ebr 510 = MBR_SIGNATURE" "cur \<noteq> 0" "n < 256" "\<not> cur < ext" "\<not> ext + size' \<le> cur"
    unfolding ebrStep_def by (simp split: if_split_asm sum.split_asm)
  with assms show ?thesis
    by (simp add: ebrStep_def ebr_link_def Let_def not_less not_le split: if_split_asm)
qed

lemma ebr_link_step:
  "ebr_link readFunc ss ext size' p q \<Longrightarrow>
     \<exists>es'. ebrStep readFunc ss ext size' (fst p) (snd p) es = Next (fst q) (snd q) es'"
  by (auto simp: ebr_link_def ebrStep_def Let_def not_less not_le)

lemma ebr_link_count:
  "ebr_link readFunc ss ext size' p q \<Longrightarrow> snd p < 256 \<and> snd q \<le> 256 \<and> snd p \<le> snd q"
  by (auto simp: ebr_link_def split: if_splits)

text \<open>
  Of the EBRs that the walk visits, each holds a logical partition or refers to a later sector.
\<close>

definition ebr_progress :: "DiskReadCallback \<Rightarrow> u32 \<Rightarrow> u64 \<Rightarrow> u64 \<Rightarrow> bool" where
  "ebr_progress readFunc ss ext size' \<longleftrightarrow>
     (\<forall>p q. (ebr_link readFunc ss ext size')\<^sup>*\<^sup>* (ext, 0) p \<longrightarrow> ebr_link readFunc ss ext size' p q \<longrightarrow>
        snd p < snd q \<or> fst p < fst q)"

text \<open>
  The walk comes back to an EBR with the same count: it has reached a cycle of EBRs none of which
  holds a logical partition.
\<close>

definition ebr_cycle :: "DiskReadCallback \<Rightarrow> u32 \<Rightarrow> u64 \<Rightarrow> u64 \<Rightarrow> bool" where
  "ebr_cycle readFunc ss ext size' \<longleftrightarrow>
     (\<exists>p. (ebr_link readFunc ss ext size')\<^sup>*\<^sup>* (ext, 0) p \<and> (ebr_link readFunc ss ext size')\<^sup>+\<^sup>+ p p)"

lemma ebr_progress_no_cycle:
  assumes "ebr_progress readFunc ss ext size'"
  shows "\<not> ebr_cycle readFunc ss ext size'"
proof
  let ?L = "ebr_link readFunc ss ext size'"
  have one: "snd p < snd q \<or> snd p = snd q \<and> fst p < fst q" if "?L\<^sup>*\<^sup>* (ext, 0) p" "?L p q" for p q
    using assms that ebr_link_count [OF that(2)] unfolding ebr_progress_def by fastforce
  have far: "snd p < snd q \<or> snd p = snd q \<and> fst p < fst q" if "?L\<^sup>+\<^sup>+ p q" "?L\<^sup>*\<^sup>* (ext, 0) p" for p q
    using that
  proof (induction rule: tranclp_induct)
    case (base q)
    then show ?case using one by blast
  next
    case (step q r)
    then have "?L\<^sup>*\<^sup>* (ext, 0) q" by (meson rtranclp_trans tranclp_into_rtranclp)
    from one [OF this step(2)] step.IH [OF step.prems] show ?case by auto
  qed
  assume "ebr_cycle readFunc ss ext size'"
  with far show False unfolding ebr_cycle_def by blast
qed

lemma walk_returns:
  assumes "\<not> ebr_cycle readFunc ss ext size'" "(ebr_link readFunc ss ext size')\<^sup>*\<^sup>* (ext, 0) (cur, n)"
  shows "\<exists>r es'. walkExtendedChain readFunc ss ext size' cur n es = Some (r, es')"
proof -
  let ?L = "ebr_link readFunc ss ext size'"
  define R where "R = {(q, p). ?L\<^sup>*\<^sup>* (ext, 0) p \<and> ?L p q}"
  have "R \<subseteq> (UNIV \<times> {..256}) \<times> (UNIV \<times> {..256})"
    using ebr_link_count [of readFunc ss ext size'] by (fastforce simp: R_def)
  then have "finite R" by (rule finite_subset) simp
  moreover have "?L\<^sup>*\<^sup>* (ext, 0) q \<and> ?L\<^sup>+\<^sup>+ q p" if "(p, q) \<in> R\<^sup>+" for p q
    using that by (induction rule: trancl_induct) (auto simp: R_def intro: tranclp_into_tranclp2)
  then have "acyclic R" using assms(1) unfolding acyclic_def ebr_cycle_def by blast
  ultimately have "wf R" by (rule finite_acyclic_wf)
  have "?L\<^sup>*\<^sup>* (ext, 0) p \<Longrightarrow> \<exists>r es'. walkExtendedChain readFunc ss ext size' (fst p) (snd p) es = Some (r, es')" for p
  proof (induction p arbitrary: es rule: wf_induct_rule [OF \<open>wf R\<close>])
    case (1 p)
    show ?case
    proof (cases "ebrStep readFunc ss ext size' (fst p) (snd p) es")
      case (Stop r es')
      then show ?thesis by (subst walkExtendedChain.simps) simp
    next
      case (Next cur' n' es')
      then have link: "?L p (cur', n')" using ebrStep_link by fastforce
      with 1(2) have "((cur', n'), p) \<in> R" by (simp add: R_def)
      moreover have "?L\<^sup>*\<^sup>* (ext, 0) (cur', n')" using 1(2) link by (rule rtranclp.rtrancl_into_rtrancl)
      ultimately show ?thesis using 1(1) [of "(cur', n')" es'] Next by (subst walkExtendedChain.simps) simp
    qed
  qed
  from this [OF assms(2)] show ?thesis by simp
qed

lemma walk_bounded:
  assumes "walkExtendedChain readFunc ss ext size' cur n es = Some (r, es')"
  shows "\<exists>ls. es' = es @ ls \<and> list_all pe_isLogical ls \<and> length ls \<le> 256 - n"
proof -
  have "case (r, es') of (r, es') \<Rightarrow> \<exists>ls. es' = es @ ls \<and> list_all pe_isLogical ls \<and> length ls \<le> 256 - n"
    using assms
  proof (induction rule: walkExtendedChain.raw_induct [rotated 1, consumes 1, case_names step])
    case (step walk readFunc ss ext size' cur n es rr)
    show ?case
    proof (cases "ebrStep readFunc ss ext size' cur n es")
      case (Stop r es')
      with step(2) ebrStep_Stop [OF Stop] show ?thesis by force
    next
      case (Next cur' n' es')
      with step(2) have "walk readFunc ss ext size' cur' n' es' = Some rr" by simp
      from step(1) [OF this] ebrStep_Next [OF Next] show ?thesis by force
    qed
  qed
  then show ?thesis by simp
qed

text \<open>
  C11. The walk along the EBR chain returns when each EBR that it visits holds a logical partition
  or refers to a later sector, and then it appends at most 256 logical partitions to the entries.
\<close>

theorem walkExtendedChain_terminates:
  assumes "ebr_progress readFunc ss ext size'"
  shows "\<exists>r ls. walkExtendedChain readFunc ss ext size' ext 0 es = Some (r, es @ ls) \<and>
    list_all pe_isLogical ls \<and> length ls \<le> 256"
proof -
  obtain r es' where *: "walkExtendedChain readFunc ss ext size' ext 0 es = Some (r, es')"
    using walk_returns [OF ebr_progress_no_cycle [OF assms]] by blast
  from walk_bounded [OF *] * show ?thesis by auto
qed

lemma walk_stuck:
  assumes "(ebr_link readFunc ss ext size')\<^sup>*\<^sup>* (cur, n) c" "(ebr_link readFunc ss ext size')\<^sup>+\<^sup>+ c c"
  shows "walkExtendedChain readFunc ss ext size' cur n es = None"
proof -
  let ?lasso = "\<lambda>rf ss ext sz p. \<exists>c. (ebr_link rf ss ext sz)\<^sup>*\<^sup>* p c \<and> (ebr_link rf ss ext sz)\<^sup>+\<^sup>+ c c"
  have on: "\<exists>q. ebr_link rf ss ext sz p q \<and> ?lasso rf ss ext sz q" if "?lasso rf ss ext sz p" for rf ss ext sz p
    using that by (metis converse_rtranclpE tranclpD)
  have "\<not> ?lasso readFunc ss ext size' (cur, n)"
    if "walkExtendedChain readFunc ss ext size' cur n es = Some rr" for rr
    using that
  proof (induction rule: walkExtendedChain.raw_induct [rotated 1, consumes 1, case_names step])
    case (step walk readFunc ss ext size' cur n es rr)
    show ?case
    proof
      assume "?lasso readFunc ss ext size' (cur, n)"
      from on [OF this] obtain q where q: "ebr_link readFunc ss ext size' (cur, n) q" "?lasso readFunc ss ext size' q"
        by blast
      from ebr_link_step [OF q(1), of es] obtain es' where
        "ebrStep readFunc ss ext size' cur n es = Next (fst q) (snd q) es'" by auto
      with step(2) have "walk readFunc ss ext size' (fst q) (snd q) es' = Some rr" by simp
      from step(1) [OF this, unfolded prod.collapse] q(2) show False by blast
    qed
  qed
  with assms show ?thesis by (metis not_Some_eq)
qed

lemma walk_None_iff:
  "walkExtendedChain readFunc ss ext size' ext 0 es = None \<longleftrightarrow> ebr_cycle readFunc ss ext size'"
proof
  assume "walkExtendedChain readFunc ss ext size' ext 0 es = None"
  then show "ebr_cycle readFunc ss ext size'"
    using walk_returns [of readFunc ss ext size' ext 0 es] by auto
next
  assume "ebr_cycle readFunc ss ext size'"
  then show "walkExtendedChain readFunc ss ext size' ext 0 es = None"
    unfolding ebr_cycle_def by (blast intro: walk_stuck)
qed

text \<open>
  C12. On an MBR with an extended partition, \<open>parse\<close> fails to return exactly when the chain of EBRs
  comes back to an EBR with no logical partition counted in between, that is, when it runs into a
  cycle of empty EBRs, of whatever length: the loop counts logical partitions, not EBRs, so its
  limit of 256 is not reached there.
\<close>

theorem mbr_parse_diverges:
  assumes "readFunc 0 512 = Inr raw" "512 \<le> length raw" "readLE16 raw 510 = 0xAA55"
    and "find pe_isExtended (parsePrimaries (mbr_sectorSize t) raw) = Some e"
  shows "mbr_parse readFunc t = Diverges \<longleftrightarrow>
    ebr_cycle readFunc (mbr_sectorSize t) (pe_startLba e) (pe_sectorCount e)"
  using assms walk_None_iff [of readFunc "mbr_sectorSize t" "pe_startLba e" "pe_sectorCount e"
      "parsePrimaries (mbr_sectorSize t) raw"]
  by (cases "walkExtendedChain readFunc (mbr_sectorSize t) (pe_startLba e) (pe_sectorCount e) (pe_startLba e) 0
        (parsePrimaries (mbr_sectorSize t) raw)")
    (auto simp: mbr_parse_def Let_def)

section \<open>Round trip through a disk\<close>

text \<open>
  The tables that the on-disk form can represent, and a disk that holds the sectors of a
  serialized table: sector 0 at LBA 0, the \<open>i\<close>-th EBR in front of the \<open>i\<close>-th logical partition, and
  no EBR at the start of an extended partition without logical ones.
\<close>

abbreviation mbr_primaries :: "MbrTable \<Rightarrow> PartitionEntry list" where
  "mbr_primaries t \<equiv> filter (\<lambda>e. \<not> pe_isLogical e) (mbr_entries t)"

abbreviation mbr_logicals :: "MbrTable \<Rightarrow> PartitionEntry list" where
  "mbr_logicals t \<equiv> filter pe_isLogical (mbr_entries t)"

definition mbr_serializable :: "MbrTable \<Rightarrow> bool" where
  "mbr_serializable t \<longleftrightarrow> 440 \<le> length (mbr_bootCode t) \<and> length (mbr_primaries t) \<le> 4 \<and>
     list_all mbr_storable (mbr_primaries t) \<and>
     list_all (\<lambda>e. pe_isExtended e = isExtendedType (pe_mbrType e)) (mbr_primaries t) \<and>
     (case find pe_isExtended (mbr_primaries t) of
        None \<Rightarrow> mbr_logicals t = []
      | Some e \<Rightarrow> mbr_logicals t = [] \<or> ebr_layout (pe_startLba e) (pe_sectorCount e) (mbr_logicals t))"

text \<open>A sector that the walk does not take for an EBR: it cannot be read or lacks the signature.\<close>

definition no_ebr :: "bytes Result \<Rightarrow> bool" where
  "no_ebr r = (case r of Inl e \<Rightarrow> True | Inr b \<Rightarrow> length b < 512 \<or> readLE16 b 510 \<noteq> MBR_SIGNATURE)"

definition mbr_on_disk :: "DiskReadCallback \<Rightarrow> MbrTable \<Rightarrow> bytes \<Rightarrow> bool" where
  "mbr_on_disk readFunc t out \<longleftrightarrow> readFunc 0 512 = Inr (slice 0 512 out) \<and>
     list_all (\<lambda>i. readFunc ((pe_startLba (mbr_logicals t ! i) - 1) * ucast (mbr_sectorSize t)) 512 =
       Inr (slice (512 * (i + 1)) 512 out)) [0..<length (mbr_logicals t)] \<and>
     (case find pe_isExtended (mbr_primaries t) of
        None \<Rightarrow> True
      | Some e \<Rightarrow> mbr_logicals t \<noteq> [] \<or> no_ebr (readFunc (pe_startLba e * ucast (mbr_sectorSize t)) 512))"

lemma slice_concat:
  assumes "\<And>x. x \<in> set xs \<Longrightarrow> length x = w" "i < length xs"
  shows "slice (w * i) w (concat xs) = xs ! i"
  using assms
proof (induction xs arbitrary: i)
  case Nil
  then show ?case by simp
next
  case (Cons x xs)
  then show ?case by (cases i) (simp_all add: slice_def)
qed

lemma find_eq_find_index: "find P xs = map_option ((!) xs) (find_index P xs)"
  by (induction xs) (auto simp: option.map_comp comp_def)

lemma find_filter: "find P (filter Q xs) = find (\<lambda>x. P x \<and> Q x) xs"
  by (induction xs) auto

lemma findExtendedIndex_find:
  "find pe_isExtended (mbr_primaries t) = map_option ((!) (mbr_entries t)) (findExtendedIndex t)"
  unfolding find_filter findExtendedIndex_def by (rule find_eq_find_index)

lemma find_mbr_stored:
  assumes "list_all (\<lambda>e. pe_isExtended e = isExtendedType (pe_mbrType e)) ps"
  shows "map_option entry_range (find pe_isExtended (mbr_stored_primaries ss ps)) =
    map_option entry_range (find pe_isExtended ps)"
proof -
  have "find pe_isExtended (map (\<lambda>i. mbr_stored ss (k + i) (ps ! i)) [0..<length ps]) = None \<and> find pe_isExtended ps = None \<or>
    (\<exists>i < length ps. find pe_isExtended (map (\<lambda>i. mbr_stored ss (k + i) (ps ! i)) [0..<length ps]) =
       Some (mbr_stored ss (k + i) (ps ! i)) \<and> find pe_isExtended ps = Some (ps ! i))" for k
    using assms
  proof (induction ps arbitrary: k)
    case Nil
    then show ?case by simp
  next
    case (Cons p ps)
    have "map (\<lambda>i. mbr_stored ss (k + i) ((p # ps) ! i)) [0..<length (p # ps)] =
        mbr_stored ss k p # map (\<lambda>i. mbr_stored ss (Suc k + i) (ps ! i)) [0..<length ps]"
      by (simp add: upt_conv_Cons map_Suc_upt [symmetric] comp_def del: upt_Suc)
    moreover have "pe_isExtended (mbr_stored ss k p) = pe_isExtended p"
      using Cons.prems by (simp add: mbr_stored_def)
    ultimately show ?case using Cons.IH [of "Suc k"] Cons.prems by fastforce
  qed
  from this [of 0] show ?thesis
    by (auto simp: mbr_stored_primaries_def mbr_stored_def entry_range_def)
qed

lemma slices_mbr_serialize:
  assumes "440 \<le> length (mbr_bootCode t)" "mbr_serialize t = Inr out"
  shows "slice 0 512 out = mbrSector t"
    and "findExtendedIndex t = Some k \<Longrightarrow> i < length (mbr_logicals t) \<Longrightarrow>
      slice (512 * (i + 1)) 512 out = ebrSector (pe_startLba (mbr_entries t ! k)) (mbr_logicals t) i"
proof -
  from assms obtain rest where out: "out = mbrSector t @ rest"
    and rest: "rest = (case findExtendedIndex t of None \<Rightarrow> [] | Some extIdx \<Rightarrow>
       concat (map (ebrSector (pe_startLba (mbr_entries t ! extIdx)) (mbr_logicals t))
         [0..<length (mbr_logicals t)]))"
    by (auto simp: mbr_serialize_def Let_def)
  show "slice 0 512 out = mbrSector t" using assms(1) by (simp add: out slice_append_left)
  assume "findExtendedIndex t = Some k" "i < length (mbr_logicals t)"
  moreover have "slice (512 * i) 512 (concat (map (ebrSector (pe_startLba (mbr_entries t ! k)) (mbr_logicals t))
       [0..<length (mbr_logicals t)])) = ebrSector (pe_startLba (mbr_entries t ! k)) (mbr_logicals t) i"
    using \<open>i < length (mbr_logicals t)\<close> by (subst slice_concat) auto
  ultimately show "slice (512 * (i + 1)) 512 out = ebrSector (pe_startLba (mbr_entries t ! k)) (mbr_logicals t) i"
    using assms(1) by (simp add: out rest slice_append_right)
qed

lemma walk_no_ebr:
  "no_ebr (readFunc (ext * ucast ss) 512) \<Longrightarrow> \<exists>r. walkExtendedChain readFunc ss ext size' ext 0 es = Some (r, es)"
  by (subst walkExtendedChain.simps) (auto simp: ebrStep_def no_ebr_def split: sum.splits)

text \<open>
  Parsing what was serialized gives the table back: the disk signature, the boot code, the primary
  entries with their slot number, and the logical entries behind them, whose CHS fields the EBR
  does not keep.
\<close>

lemma mbr_parse_serialize:
  assumes "mbr_serializable t" "mbr_serialize t = Inr out" "mbr_on_disk readFunc t out"
    and "mbr_sectorSize t0 = mbr_sectorSize t"
  shows "\<exists>t'. mbr_parse readFunc t0 = Done (ok, t') \<and>
    take 440 (mbr_bootCode t') = take 440 (mbr_bootCode t) \<and>
    mbr_diskSignature t' = mbr_diskSignature t \<and> mbr_reserved t' = mbr_reserved t \<and>
    mbr_entries t' = mbr_stored_primaries (mbr_sectorSize t) (mbr_primaries t) @
      map (\<lambda>j. ebr_stored (mbr_sectorSize t) (length (mbr_primaries t) + j) (mbr_logicals t ! j))
        [0..<length (mbr_logicals t)]"
proof -
  let ?ss = "mbr_sectorSize t" and ?ps = "mbr_primaries t" and ?ls = "mbr_logicals t"
  let ?es = "mbr_stored_primaries ?ss ?ps"
  have wf: "440 \<le> length (mbr_bootCode t)" "length ?ps \<le> 4"
    "\<And>e. e \<in> set (mbr_entries t) \<Longrightarrow> \<not> pe_isLogical e \<Longrightarrow> mbr_storable e"
    "list_all (\<lambda>e. pe_isExtended e = isExtendedType (pe_mbrType e)) ?ps"
    using assms(1) by (auto simp: mbr_serializable_def list_all_iff)
  have raw: "readFunc 0 512 = Inr (mbrSector t)"
    using assms(3) slices_mbr_serialize(1) [OF wf(1) assms(2)] by (simp add: mbr_on_disk_def)
  note hd = mbrSector_header [OF wf(1)]
  note prim = parsePrimaries_mbrSector [OF wf(1-3)]
  have len: "length ?es = length ?ps" by (simp add: mbr_stored_primaries_def)
  show ?thesis
  proof (cases "find pe_isExtended ?ps")
    case None
    then have "?ls = []" using assms(1) by (simp add: mbr_serializable_def)
    moreover have "find pe_isExtended ?es = None" using find_mbr_stored [OF wf(4), of ?ss] None by simp
    ultimately show ?thesis
      using raw hd prim wf(1) assms(4) by (simp add: mbr_parse_def Let_def)
  next
    case (Some e)
    then have lay: "?ls \<noteq> [] \<Longrightarrow> ebr_layout (pe_startLba e) (pe_sectorCount e) ?ls"
      and none: "?ls = [] \<Longrightarrow> no_ebr (readFunc (pe_startLba e * ucast ?ss) 512)"
      using assms(1,3) by (simp_all add: mbr_serializable_def mbr_on_disk_def)
    from Some obtain k where k: "findExtendedIndex t = Some k" "e = mbr_entries t ! k"
      by (auto simp: findExtendedIndex_find)
    from find_mbr_stored [OF wf(4), of ?ss] Some obtain x where
      x: "find pe_isExtended ?es = Some x" "pe_startLba x = pe_startLba e" "pe_sectorCount x = pe_sectorCount e"
      by (auto simp: entry_range_def)
    have ebr: "readFunc ((pe_startLba (?ls ! i) - 1) * ucast ?ss) 512 = Inr (ebrSector (pe_startLba e) ?ls i)"
      if "i < length ?ls" for i
      using assms(3) that slices_mbr_serialize(2) [OF wf(1) assms(2) k(1) that]
      by (simp add: mbr_on_disk_def list_all_length k(2))
    have "\<exists>r. walkExtendedChain readFunc ?ss (pe_startLba e) (pe_sectorCount e) (pe_startLba e) 0 ?es =
        Some (r, ?es @ map (\<lambda>j. ebr_stored ?ss (length ?ps + j) (?ls ! j)) [0..<length ?ls])"
    proof (cases "?ls = []")
      case True
      then show ?thesis using walk_no_ebr [of readFunc "pe_startLba e" ?ss "pe_sectorCount e" ?es, OF none [OF True]] by simp
    next
      case False
      then have "pe_startLba (?ls ! 0) - 1 = pe_startLba e" using lay by (simp add: ebr_layout_def)
      then show ?thesis using walk_ebrSectors [of _ _ ?ls readFunc ?ss 0 ?es, OF lay ebr] False len by simp
    qed
    then show ?thesis
      using raw hd prim wf(1) assms(4) x by (auto simp: mbr_parse_def Let_def)
  qed
qed

lemma putPrimaries_filter:
  "putPrimaries mbr k (filter (\<lambda>e. \<not> pe_isLogical e) es) = putPrimaries mbr k es"
  by (induction mbr k es rule: putPrimaries.induct) simp_all

text \<open>
  The serialized form puts the EBR of every logical partition into the sector in front of it, but
  \<open>parse\<close> looks for the first one at the start of the extended partition. When the first logical
  partition starts further behind, as in the usual aligned layouts, and no EBR is there, the table
  that is read has lost every logical partition.
\<close>

lemma mbr_parse_first_ebr_missing:
  assumes "mbr_serializable (t\<lparr>mbr_entries := mbr_primaries t\<rparr>)" "mbr_serialize t = Inr out"
    and "readFunc 0 512 = Inr (slice 0 512 out)" "find pe_isExtended (mbr_primaries t) = Some e"
    and "no_ebr (readFunc (pe_startLba e * ucast (mbr_sectorSize t)) 512)"
    and "mbr_sectorSize t0 = mbr_sectorSize t"
  shows "\<exists>t'. mbr_parse readFunc t0 = Done (ok, t') \<and>
    mbr_entries t' = mbr_stored_primaries (mbr_sectorSize t) (mbr_primaries t)"
proof -
  let ?t = "t\<lparr>mbr_entries := mbr_primaries t\<rparr>"
  have boot: "440 \<le> length (mbr_bootCode t)" using assms(1) by (simp add: mbr_serializable_def)
  have "putPrimaries mbr k (mbr_primaries t) = putPrimaries mbr k (mbr_entries t)" for mbr k
    by (rule putPrimaries_filter)
  then have same: "mbrSector ?t = mbrSector t" by (simp add: mbrSector_def)
  have none: "mbr_logicals ?t = []" by (simp add: filter_empty_conv)
  have out: "mbr_serialize ?t = Inr (mbrSector t)" using none same by (simp add: mbr_serialize_def Let_def split: option.split)
  have disk: "mbr_on_disk readFunc ?t (mbrSector t)"
    using assms(3-5) slices_mbr_serialize(1) [OF boot assms(2)] length_mbrSector [OF boot]
    by (simp add: mbr_on_disk_def none)
  from mbr_parse_serialize [OF assms(1) out disk, of t0] assms(6) none show ?thesis by auto
qed

section \<open>Numbering\<close>

text \<open>Entries numbered by position, none of which wraps: what \<open>mbr_inv\<close> asks of the list.\<close>

definition numbered :: "PartitionEntry list \<Rightarrow> bool" where
  "numbered es \<longleftrightarrow> map pe_index es = map int [0..<length es] \<and> list_all (\<lambda>e. no_wrap (entry_range e)) es"

lemma numbered_snoc:
  "numbered es \<Longrightarrow> pe_index e = int (length es) \<Longrightarrow> no_wrap (entry_range e) \<Longrightarrow> numbered (es @ [e])"
  by (simp add: numbered_def)

lemma ucast_32_le: "(ucast (w :: u32) :: u64) \<le> 0xFFFFFFFF"
proof -
  have "unat w < 2 ^ 32" using unsigned_less [of w] by simp
  then show ?thesis by (simp add: word_le_nat_alt unat_ucast_up)
qed

lemma no_wrap_ebrLogical:
  assumes "ext \<le> 0xFFFFFFFF" "size' \<le> 0xFFFFFFFF" "cur < ext + size'"
  shows "no_wrap (entry_range (ebrLogical ss cur ebr n))"
proof -
  let ?a = "ucast (readLE32 ebr 454) :: u64" and ?n = "ucast (readLE32 ebr 458) :: u64"
  have "unat (ext + size') \<le> 2 * 0xFFFFFFFF"
    using assms(1,2) unat_add_no_wrap [OF no_wrap_32 [OF assms(1,2)]] by (simp add: word_le_nat_alt)
  then have c: "unat cur < 2 * 0xFFFFFFFF" using assms(3) by (simp add: word_less_nat_alt)
  have a: "unat ?a \<le> 0xFFFFFFFF" "unat ?n \<le> 0xFFFFFFFF"
    using ucast_32_le [of "readLE32 ebr 454"] ucast_32_le [of "readLE32 ebr 458"] by (simp_all add: word_le_nat_alt)
  have "unat (cur + ?a) \<le> unat cur + unat ?a" by (simp add: unat_word_ariths)
  with a c show ?thesis
    by (simp add: ebrLogical_def Let_def entry_range_def no_wrap_def pe_default_def)
qed

lemma ebrStep_entries:
  assumes "ebrStep readFunc ss ext size' cur n es = Next cur' n' es' \<or>
      ebrStep readFunc ss ext size' cur n es = Stop r es'"
  shows "es' = es \<or> (cur < ext + size' \<and> (\<exists>ebr. es' = es @ [ebrLogical ss cur ebr (length es)]))"
  using assms by (auto simp: ebrStep_def Let_def split: if_splits sum.splits)

lemma ebrStep_numbered:
  assumes "ebrStep readFunc ss ext size' cur n es = Next cur' n' es' \<or>
      ebrStep readFunc ss ext size' cur n es = Stop r es'"
    and "ext \<le> 0xFFFFFFFF" "size' \<le> 0xFFFFFFFF" "numbered es"
  shows "numbered es'"
proof -
  have "pe_index (ebrLogical ss cur ebr m) = int m" for ebr m by (simp add: ebrLogical_def Let_def)
  then show ?thesis
    using ebrStep_entries [OF assms(1)] assms(4) no_wrap_ebrLogical [OF assms(2,3)]
    by (auto intro: numbered_snoc)
qed

lemma walk_numbered:
  assumes "walkExtendedChain readFunc ss ext size' cur n es = Some (r, es')"
    and "ext \<le> 0xFFFFFFFF" "size' \<le> 0xFFFFFFFF" "numbered es"
  shows "numbered es'"
proof -
  have "numbered (snd (r, es'))"
    using assms
  proof (induction rule: walkExtendedChain.raw_induct [rotated 1, consumes 1, case_names step])
    case (step walk readFunc ss ext size' cur n es rr)
    show ?case
    proof (cases "ebrStep readFunc ss ext size' cur n es")
      case (Stop r es')
      with step(2) ebrStep_numbered [OF disjI2 [OF Stop] step(3-5)] show ?thesis by auto
    next
      case (Next cur' n' es')
      with step(2) have "walk readFunc ss ext size' cur' n' es' = Some rr" by simp
      from step(1) [OF this step(3,4)] ebrStep_numbered [OF disjI1 [OF Next] step(3-5)] show ?thesis by simp
    qed
  qed
  then show ?thesis by simp
qed

lemma parsePrimary_SomeD:
  "parsePrimary ss raw i = Some e \<Longrightarrow>
     pe_index e = int i \<and> pe_startLba e \<le> 0xFFFFFFFF \<and> pe_sectorCount e \<le> 0xFFFFFFFF"
  by (auto simp: parsePrimary_def Let_def ucast_32_le split: if_splits)

text \<open>
  C13. \<open>parse\<close> establishes the class invariant, on a disk whose \<open>n\<close> used primary slots come before the
  unused ones: entries are numbered by their position, and no range wraps.
\<close>

theorem mbr_parse_inv:
  assumes "mbr_parse readFunc t = Done (ok, t')" "readFunc 0 512 = Inr raw" "n \<le> 4"
    and "\<And>i. i < 4 \<Longrightarrow> parsePrimary (mbr_sectorSize t) raw i \<noteq> None \<longleftrightarrow> i < n"
  shows "mbr_inv t'"
proof -
  let ?p = "parsePrimary (mbr_sectorSize t) raw" and ?es = "parsePrimaries (mbr_sectorSize t) raw"
  have "parsePrimary (mbr_sectorSize t) raw i = (if i < n then Some (the (?p i)) else None)" if "i < 4" for i
    using assms(4) [OF that] by (cases "?p i") auto
  then have es: "?es = map (\<lambda>i. the (?p i)) [0..<n]"
    unfolding parsePrimaries_def by (rule map_filter_prefix [OF assms(3)])
  have prim: "pe_index (the (?p i)) = int i \<and> pe_startLba (the (?p i)) \<le> 0xFFFFFFFF \<and>
      pe_sectorCount (the (?p i)) \<le> 0xFFFFFFFF" if "i < n" for i
    using assms(3) assms(4) [of i] that parsePrimary_SomeD [of _ raw i] by force
  then have num: "numbered ?es" by (auto simp: numbered_def es list_all_iff entry_range_def no_wrap_32)
  show ?thesis
  proof (cases "find pe_isExtended ?es")
    case None
    with assms(1,2) have "mbr_entries t' = ?es"
      by (auto simp: mbr_parse_def Let_def split: if_splits)
    with num show ?thesis by (simp add: mbr_inv_def numbered_def)
  next
    case (Some e)
    then obtain i where "i < n" "e = the (?p i)" by (auto simp: es find_Some_iff)
    with prim have e: "pe_startLba e \<le> 0xFFFFFFFF" "pe_sectorCount e \<le> 0xFFFFFFFF" by auto
    from Some assms(1,2) obtain r where "walkExtendedChain readFunc (mbr_sectorSize t)
        (pe_startLba e) (pe_sectorCount e) (pe_startLba e) 0 ?es = Some (r, mbr_entries t')"
      by (auto simp: mbr_parse_def Let_def run_simps split: if_splits)
    from walk_numbered [OF this e num] show ?thesis by (simp add: mbr_inv_def numbered_def)
  qed
qed

lemma eraseIndex_filter:
  "distinct (map pe_index es) \<Longrightarrow> eraseIndex i es = filter (\<lambda>e. pe_index e \<noteq> i) es"
proof (induction es)
  case Nil
  then show ?case by (simp add: eraseIndex_def)
next
  case (Cons e es)
  show ?case
  proof (cases "pe_index e = i")
    case True
    with Cons.prems have "filter (\<lambda>e. pe_index e \<noteq> i) es = es" by (simp add: filter_id_conv) (metis imageI)
    with True show ?thesis by (simp add: eraseIndex_def erase_at_def)
  next
    case False
    with Cons show ?thesis by (auto simp: eraseIndex_def erase_at_def split: option.splits)
  qed
qed

text \<open>
  Deleting an existing partition removes its entry and, when it is the extended partition, every
  logical one; the others keep their order and are renumbered from 0.
\<close>

theorem mbr_delete_entries:
  assumes "mbr_inv t" "k < length (mbr_entries t)"
  shows "mbr_deletePartition (int k) t = (ok, t\<lparr>mbr_entries := reindex
    (filter (\<lambda>e. pe_index e \<noteq> int k \<and>
      \<not> (pe_isExtended (mbr_entries t ! k) \<and> \<not> pe_isLogical (mbr_entries t ! k) \<and> pe_isLogical e))
      (mbr_entries t))\<rparr>)"
proof -
  let ?es = "mbr_entries t"
  have "find_index (\<lambda>e. pe_index e = int k) ?es = Some k"
    using assms mbr_inv_index [OF assms(1)] by (auto simp: find_index_Some_iff)
  moreover have "distinct (map pe_index ?es)"
    using assms(1) by (simp add: mbr_inv_def distinct_map inj_on_def)
  then have "eraseIndex (int k) (filter P ?es) = filter (\<lambda>e. pe_index e \<noteq> int k) (filter P ?es)" for P
    by (intro eraseIndex_filter distinct_map_filter)
  from this [of "\<lambda>e. True"] this [of "\<lambda>e. \<not> pe_isLogical e"]
  have "eraseIndex (int k) ?es = filter (\<lambda>e. pe_index e \<noteq> int k) ?es"
    "eraseIndex (int k) (filter (\<lambda>e. \<not> pe_isLogical e) ?es) =
       filter (\<lambda>e. pe_index e \<noteq> int k \<and> \<not> pe_isLogical e) ?es"
    by (simp_all add: conj_commute)
  ultimately show ?thesis by (simp add: mbr_deletePartition_def Let_def)
qed

section \<open>Witnesses\<close>

definition sample_entry :: "nat \<Rightarrow> u8 \<Rightarrow> u64 \<Rightarrow> u64 \<Rightarrow> bool \<Rightarrow> PartitionEntry" where
  "sample_entry i type start count logical = pe_default\<lparr>pe_index := int i, pe_startLba := start,
     pe_sectorCount := count, pe_mbrType := type, pe_isExtended := isExtendedType type \<and> \<not> logical,
     pe_isLogical := logical\<rparr>"

definition sample_mbr :: MbrTable where
  "sample_mbr = mbr_new\<lparr>mbr_diskSizeBytes := 2 ^ 30, mbr_entries :=
     [sample_entry 0 7 2048 4096 False, sample_entry 1 5 8192 8192 False,
      sample_entry 2 7 8193 1000 True, sample_entry 3 0x83 9300 500 True]\<rparr>"

lemma sample_mbr_inv: "mbr_inv sample_mbr"
  by (simp add: mbr_inv_def sample_mbr_def sample_entry_def no_wrap_def entry_range_def upt_rec)

lemma sample_mbr_layout: "layout_ok (mbr_partitions sample_mbr)"
  by (simp add: layout_ok_def mbr_partitions_def sample_mbr_def sample_entry_def shape_def
      clash_free_def entry_range_def ranges_disjoint_iff isExtendedType_def)

theorem mbr_edits_layout_witness:
  "layout_ok (mbr_partitions sample_mbr) \<and>
   layout_ok (mbr_partitions (run_edits (\<lambda>rnd. mbr_addPartition) mbr_deletePartition mbr_resizePartition
     [CallAdd (\<lambda>i. 0) (pp_default\<lparr>pp_startLba := 20000, pp_sectorCount := 100\<rparr>),
      CallResize 0 2048 6144, CallDelete 1] sample_mbr))"
  using mbr_edits_layout [OF sample_mbr_inv sample_mbr_layout] sample_mbr_layout by simp

theorem mbr_add_logical_fails_witness:
  "\<exists>err. mbr_addPartition (pp_default\<lparr>pp_startLba := 10000, pp_sectorCount := 10, pp_isLogical := True\<rparr>)
     sample_mbr = (Inl err, sample_mbr)"
  using mbr_add_logical_fails [OF sample_mbr_inv] by simp

theorem setActivePartition_unique_witness:
  "\<exists>t'. setActivePartition 1 sample_mbr = (ok, t') \<and>
     filter (\<lambda>e. pe_isActive e \<and> \<not> pe_isLogical e) (mbr_entries t') = [mbr_entries t' ! 1]"
proof -
  have "\<exists>t'. setActivePartition 1 sample_mbr = (ok, t')"
    by (simp add: setActivePartition_def sample_mbr_def sample_entry_def Let_def)
  then show ?thesis using setActivePartition_unique [OF sample_mbr_inv, of 1] by auto
qed

theorem mbr_delete_entries_witness:
  "mbr_deletePartition 1 sample_mbr =
     (ok, sample_mbr\<lparr>mbr_entries := [sample_entry 0 7 2048 4096 False]\<rparr>)"
  using mbr_delete_entries [OF sample_mbr_inv, of 1]
  by (simp add: sample_mbr_def sample_entry_def reindex_def isExtendedType_def)

text \<open>A disk that answers every read with one EBR: a logical partition and a link to itself.\<close>

definition sample_ebr :: "u8 \<Rightarrow> u8 \<Rightarrow> bytes" where
  "sample_ebr type link = replicate 450 0 @ [type] @ replicate 3 0 @ [1, 0, 0, 0, 8, 0, 0, 0] @
     replicate 4 0 @ [5] @ replicate 3 0 @ [link, 0, 0, 0] @ replicate 36 0 @ [0x55, 0xAA]"

lemma sample_ebr_fields:
  "length (sample_ebr ty k) = 512" "readLE16 (sample_ebr ty k) 510 = 0xAA55"
  "sample_ebr ty k ! 450 = ty" "sample_ebr ty k ! 466 = 5" "readLE32 (sample_ebr ty k) 470 = ucast k"
  "readLE32 (sample_ebr ty k) 454 = 1" "readLE32 (sample_ebr ty k) 458 = 8"
  by (simp_all add: sample_ebr_def readLE16_def readLE32_def nth_append)

theorem walkExtendedChain_terminates_witness:
  "\<exists>r ls. walkExtendedChain (\<lambda>off n. Inr (sample_ebr 7 9)) 512 100 1000 100 0 [] = Some (r, ls) \<and>
     list_all pe_isLogical ls \<and> length ls \<le> 256"
proof -
  have "ebr_progress (\<lambda>off n. Inr (sample_ebr 7 9)) 512 100 1000"
    by (auto simp: ebr_progress_def ebr_link_def sample_ebr_fields)
  from walkExtendedChain_terminates [OF this, of "[]"] show ?thesis by simp
qed

definition sample_sector0 :: bytes where
  "sample_sector0 = replicate 446 0 @ [0, 0, 0, 0, 5, 0, 0, 0, 100, 0, 0, 0, 232, 3, 0, 0] @
     replicate 48 0 @ [0x55, 0xAA]"

lemma sample_sector0_fields:
  "length sample_sector0 = 512" "readLE16 sample_sector0 510 = 0xAA55"
  by (simp_all add: sample_sector0_def readLE16_def nth_append)

lemma parsePrimary_sample_sector0:
  assumes "i < 4"
  shows "parsePrimary 512 sample_sector0 i = (if i < 1 then Some (sample_entry 0 5 100 1000 False) else None)"
proof -
  consider "i = 0" | "i = 1" | "i = 2" | "i = 3" using assms by linarith
  then show ?thesis
    by cases (simp_all add: parsePrimary_def sample_sector0_def readLE32_def nth_append Let_def
        sample_entry_def isExtendedType_def decodeCHS_def pe_default_def chs_zero_def)
qed

lemma parsePrimaries_sample_sector0:
  "parsePrimaries 512 sample_sector0 = [sample_entry 0 5 100 1000 False]"
  using map_filter_prefix [of 1 4 "parsePrimary 512 sample_sector0" "\<lambda>i. sample_entry 0 5 100 1000 False"]
  by (simp add: parsePrimaries_def parsePrimary_sample_sector0)

theorem mbr_parse_diverges_witness:
  "mbr_parse (\<lambda>off n. if off = 0 then Inr sample_sector0 else Inr (sample_ebr 0 9)) mbr_new = Diverges"
proof -
  let ?rd = "\<lambda>off n. if off = 0 then Inr sample_sector0 else Inr (sample_ebr 0 9)"
  have "ebr_link ?rd 512 100 1000 (100, 0) (109, 0)" "ebr_link ?rd 512 100 1000 (109, 0) (109, 0)"
    by (simp_all add: ebr_link_def sample_ebr_fields isExtendedType_def)
  then have "ebr_cycle ?rd 512 100 1000" unfolding ebr_cycle_def by blast
  with mbr_parse_diverges [of ?rd sample_sector0 mbr_new "sample_entry 0 5 100 1000 False"] show ?thesis
    by (simp add: sample_sector0_fields parsePrimaries_sample_sector0 mbr_new_def sample_entry_def isExtendedType_def)
qed

theorem mbr_parse_inv_witness:
  "\<exists>t'. mbr_parse (\<lambda>off n. if off = 0 then Inr sample_sector0 else Inr []) mbr_new = Done (ok, t') \<and>
     mbr_inv t' \<and> mbr_entries t' = [sample_entry 0 5 100 1000 False]"
proof -
  let ?rd = "\<lambda>off n. if off = 0 then Inr sample_sector0 else Inr []"
  let ?e = "sample_entry 0 5 100 1000 False"
  have "walkExtendedChain ?rd 512 100 1000 100 0 es = Some (ok, es)" for es
    by (subst walkExtendedChain.simps) (simp add: ebrStep_def)
  then have "\<exists>t'. mbr_parse ?rd mbr_new = Done (ok, t') \<and> mbr_entries t' = [?e]"
    by (simp add: mbr_parse_def sample_sector0_fields mbr_new_def parsePrimaries_sample_sector0
        sample_entry_def isExtendedType_def Let_def)
  moreover have "\<And>t'. mbr_parse ?rd mbr_new = Done (ok, t') \<Longrightarrow> mbr_inv t'"
    by (rule mbr_parse_inv [of ?rd mbr_new _ sample_sector0 1])
      (simp_all add: parsePrimary_sample_sector0 mbr_new_def)
  ultimately show ?thesis by blast
qed

end
