(* ===== verification/Gpt_Table.thy ===== *)
theory Gpt_Table
  imports Crc32 Mbr_Table
begin

text \<open>
  \<open>GptPartitionTable\<close> of \<open>src/core/disk/PartitionTable.cpp\<close>: parsing of the protective MBR, of the
  primary header and of the entry array, the backup header, the editing operations, checksum
  validation and serialization. Reads and writes outside a buffer, which a header with an absurd
  size field provokes, have the outcome \<open>Undef\<close>.
\<close>

section \<open>State\<close>

record GptTable =
  gpt_diskSizeBytes :: u64
  gpt_sectorSize :: u32
  gpt_protectiveMbr :: bytes
  gpt_diskGuid :: Guid
  gpt_revision :: u32
  gpt_firstUsableLba :: u64
  gpt_lastUsableLba :: u64
  gpt_alternateLba :: u64
  gpt_entryCount :: u32
  gpt_entrySize :: u32
  gpt_entries :: "PartitionEntry list"

definition gpt_new :: GptTable where
  "gpt_new = \<lparr>gpt_diskSizeBytes = 0, gpt_sectorSize = SECTOR_SIZE_512,
     gpt_protectiveMbr = replicate 512 0, gpt_diskGuid = guid_zero, gpt_revision = 0x00010000,
     gpt_firstUsableLba = 34, gpt_lastUsableLba = 0, gpt_alternateLba = 0,
     gpt_entryCount = GPT_MAX_PARTITIONS, gpt_entrySize = GPT_ENTRY_SIZE, gpt_entries = []\<rparr>"

definition gpt_partitions :: "GptTable \<Rightarrow> PartitionEntry list" where
  "gpt_partitions t = gpt_entries t"

section \<open>Parsing\<close>

text \<open>The 36 code units of a name field.\<close>

definition nameUnits :: "bytes \<Rightarrow> nat \<Rightarrow> u16 list" where
  "nameUnits buf off = map (\<lambda>k. readLE16 buf (off + 2 * k)) [0..<36]"

text \<open>The body of the loop of \<open>parseEntries\<close> behind its bounds test; \<open>None\<close> is the \<open>continue\<close>.\<close>

definition parseEntry :: "u32 \<Rightarrow> u32 \<Rightarrow> bytes \<Rightarrow> nat \<Rightarrow> PartitionEntry option" where
  "parseEntry sectorSize entrySize entryData i =
     (let entry = i * unat entrySize;
          typeGuid = guidFromBytes entryData entry
      in if guid_isZero typeGuid then None
         else
           (let startLba = readLE64 entryData (entry + 32) in
            Some (pe_default\<lparr>
              pe_index := sint (of_nat i :: u32),
              pe_typeGuid := typeGuid,
              pe_uniqueGuid := guidFromBytes entryData (entry + 16),
              pe_startLba := startLba,
              pe_sectorCount := readLE64 entryData (entry + 40) - startLba + 1,
              pe_sectorSize := sectorSize,
              pe_gptAttributes := readLE64 entryData (entry + 48),
              pe_gptName := utf16leToUtf8 (nameUnits entryData (entry + 56)) 36\<rparr>)))"

text \<open>The loop stops at the first entry that does not fit the data.\<close>

definition parseEntries :: "bytes \<Rightarrow> GptTable \<Rightarrow> GptTable" where
  "parseEntries entryData t =
     t\<lparr>gpt_entries := List.map_filter (parseEntry (gpt_sectorSize t) (gpt_entrySize t) entryData)
        (takeWhile (\<lambda>i. i * unat (gpt_entrySize t) + unat GPT_ENTRY_SIZE \<le> length entryData)
          [0..<unat (gpt_entryCount t)])\<rparr>"

text \<open>
  The checksum of a header: the code copies \<open>headerSize\<close> bytes, clears the four checksum bytes
  and computes the CRC. The copy must lie in the data, and the checksum field in the copy.
\<close>

definition headerCrc32 :: "bytes \<Rightarrow> u32 \<Rightarrow> u32 run" where
  "headerCrc32 headerData headerSize =
     require (unat headerSize \<le> length headerData \<and> 20 \<le> unat headerSize)
       (Done (crc32 (writeLE32 (take (unat headerSize) headerData) 16 0)))"

text \<open>The checksum of the first \<open>n\<close> bytes of a buffer that must hold as many.\<close>

definition arrayCrc32 :: "bytes \<Rightarrow> u32 \<Rightarrow> u32 run" where
  "arrayCrc32 data n = require (unat n \<le> length data) (Done (crc32 (take (unat n) data)))"

definition gpt_readHeader :: "bytes \<Rightarrow> GptTable \<Rightarrow> GptTable" where
  "gpt_readHeader headerData t =
     t\<lparr>gpt_revision := readLE32 headerData 8,
       gpt_alternateLba := readLE64 headerData 32,
       gpt_firstUsableLba := readLE64 headerData 40,
       gpt_lastUsableLba := readLE64 headerData 48,
       gpt_diskGuid := guidFromBytes headerData 56,
       gpt_entryCount := readLE32 headerData 80,
       gpt_entrySize := readLE32 headerData 84\<rparr>"

text \<open>A checksum mismatch only produces a warning in \<open>parse\<close>.\<close>

definition gpt_parse :: "DiskReadCallback \<Rightarrow> GptTable \<Rightarrow> (unit Result \<times> GptTable) run" where
  "gpt_parse readFunc t =
     (case readFunc 0 (gpt_sectorSize t) of
        Inl e \<Rightarrow> Done (Inl e, t)
      | Inr sector0 \<Rightarrow>
          (let t = (if 512 \<le> length sector0 then t\<lparr>gpt_protectiveMbr := take 512 sector0\<rparr> else t) in
           case readFunc (ucast (gpt_sectorSize t)) (gpt_sectorSize t) of
             Inl e \<Rightarrow> Done (Inl e, t)
           | Inr headerData \<Rightarrow>
               if length headerData < GPT_HEADER_SIZE then
                 Done (fail PartitionTableCorrupt ''GPT header too small'', t)
               else if readLE64 headerData 0 \<noteq> GPT_HEADER_SIGNATURE then
                 Done (fail PartitionTableCorrupt ''Invalid GPT header signature (expected 'EFI PART')'', t)
               else
                 (let t = gpt_readHeader headerData t;
                      headerSize = readLE32 headerData 12;
                      entryLba = readLE64 headerData 72
                  in run_bind (headerCrc32 headerData headerSize) (\<lambda>computedCrc.
                     if gpt_entrySize t < GPT_ENTRY_SIZE then
                       Done (fail PartitionTableCorrupt ''GPT entry size too small (minimum 128 bytes)'', t)
                     else if gpt_entryCount t > 1024 then
                       Done (fail PartitionTableCorrupt ''GPT entry count unreasonably large'', t)
                     else
                       (let entryArrayBytes = gpt_entryCount t * gpt_entrySize t in
                        case readFunc (entryLba * ucast (gpt_sectorSize t)) entryArrayBytes of
                          Inl e \<Rightarrow> Done (Inl e, t)
                        | Inr entryData \<Rightarrow>
                            run_bind (arrayCrc32 entryData entryArrayBytes) (\<lambda>computedEntryCrc.
                              Done (ok, parseEntries entryData t)))))))"

definition gpt_parseBackup :: "DiskReadCallback \<Rightarrow> GptTable \<Rightarrow> unit Result \<times> GptTable" where
  "gpt_parseBackup readFunc t =
     (let t = (if gpt_alternateLba t = 0
               then t\<lparr>gpt_alternateLba := gpt_diskSizeBytes t div ucast (gpt_sectorSize t) - 1\<rparr> else t)
      in case readFunc (gpt_alternateLba t * ucast (gpt_sectorSize t)) (gpt_sectorSize t) of
           Inl e \<Rightarrow> (Inl e, t)
         | Inr headerData \<Rightarrow>
             if length headerData < GPT_HEADER_SIZE then
               (fail PartitionTableCorrupt ''Backup GPT header too small'', t)
             else if readLE64 headerData 0 \<noteq> GPT_HEADER_SIGNATURE then
               (fail PartitionTableCorrupt ''Invalid backup GPT header signature'', t)
             else
               (let entryLba = readLE64 headerData 72;
                    entryCount = readLE32 headerData 80;
                    entrySize = readLE32 headerData 84
                in case readFunc (entryLba * ucast (gpt_sectorSize t)) (entryCount * entrySize) of
                     Inl e \<Rightarrow> (Inl e, t)
                   | Inr entryData \<Rightarrow>
                       (ok, parseEntries entryData
                         (t\<lparr>gpt_entryCount := entryCount, gpt_entrySize := entrySize\<rparr>))))"

section \<open>Editing\<close>

definition gpt_overlapsExisting :: "PartitionEntry list \<Rightarrow> u64 \<Rightarrow> u64 \<Rightarrow> int \<Rightarrow> bool" where
  "gpt_overlapsExisting es start end excludeIndex =
     list_ex (\<lambda>e. pe_index e \<noteq> excludeIndex \<and>
       start \<le> pe_startLba e + pe_sectorCount e - 1 \<and> pe_startLba e \<le> end) es"

text \<open>The first slot that no entry uses; \<open>-1\<close> of the code is \<open>None\<close>.\<close>

definition gpt_freeSlot :: "GptTable \<Rightarrow> nat option" where
  "gpt_freeSlot t =
     find (\<lambda>i. \<not> list_ex (\<lambda>e. pe_index e = int i) (gpt_entries t)) [0..<nat (sint (gpt_entryCount t))]"

definition gpt_newEntry :: "(nat \<Rightarrow> u8) \<Rightarrow> PartitionParams \<Rightarrow> nat \<Rightarrow> u32 \<Rightarrow> PartitionEntry" where
  "gpt_newEntry rnd p freeSlot sectorSize =
     pe_default\<lparr>
       pe_index := int freeSlot,
       pe_startLba := pp_startLba p,
       pe_sectorCount := pp_sectorCount p,
       pe_sectorSize := sectorSize,
       pe_typeGuid := if guid_isZero (pp_typeGuid p) then GptTypes_microsoftBasicData else pp_typeGuid p,
       pe_uniqueGuid := generate rnd,
       pe_gptAttributes := 0,
       pe_gptName := pp_gptName p\<rparr>"

definition gpt_addPartition :: "(nat \<Rightarrow> u8) \<Rightarrow> PartitionParams \<Rightarrow> GptTable \<Rightarrow> unit Result \<times> GptTable" where
  "gpt_addPartition rnd p t =
     (if pp_sectorCount p = 0 then
        (fail InvalidArgument ''Partition size cannot be zero'', t)
      else
        (let t = (if gpt_lastUsableLba t = 0
                  then t\<lparr>gpt_lastUsableLba := gpt_diskSizeBytes t div ucast (gpt_sectorSize t) - 34\<rparr>
                  else t);
             endLba = pp_startLba p + pp_sectorCount p - 1
         in if pp_startLba p < gpt_firstUsableLba t then
              (fail InvalidArgument ''Partition start is before first usable LBA'', t)
            else if endLba > gpt_lastUsableLba t then
              (fail PartitionTooLarge ''Partition extends beyond last usable LBA'', t)
            else if gpt_overlapsExisting (gpt_entries t) (pp_startLba p) endLba (-1) then
              (fail PartitionOverlap ''New partition overlaps an existing partition'', t)
            else
              (case gpt_freeSlot t of
                 None \<Rightarrow> (fail PartitionTableFull ''No free GPT entry slots available'', t)
               | Some freeSlot \<Rightarrow>
                   (ok, t\<lparr>gpt_entries := gpt_entries t @ [gpt_newEntry rnd p freeSlot (gpt_sectorSize t)]\<rparr>))))"

definition gpt_deletePartition :: "int \<Rightarrow> GptTable \<Rightarrow> unit Result \<times> GptTable" where
  "gpt_deletePartition index t =
     (case find_index (\<lambda>e. pe_index e = index) (gpt_entries t) of
        None \<Rightarrow> (fail PartitionNotFound ''GPT partition index not found'', t)
      | Some k \<Rightarrow> (ok, t\<lparr>gpt_entries := erase_at k (gpt_entries t)\<rparr>))"

definition gpt_resizePartition :: "int \<Rightarrow> u64 \<Rightarrow> u64 \<Rightarrow> GptTable \<Rightarrow> unit Result \<times> GptTable" where
  "gpt_resizePartition index newStart newSize t =
     (case find_index (\<lambda>e. pe_index e = index) (gpt_entries t) of
        None \<Rightarrow> (fail PartitionNotFound ''GPT partition index not found'', t)
      | Some k \<Rightarrow>
          if newSize = 0 then (fail InvalidArgument ''Partition size cannot be zero'', t)
          else if newStart < gpt_firstUsableLba t then
            (fail InvalidArgument ''Partition start before first usable LBA'', t)
          else
            (let newEnd = newStart + newSize - 1 in
             if newEnd > gpt_lastUsableLba t then
               (fail PartitionTooLarge ''Resized partition exceeds last usable LBA'', t)
             else if gpt_overlapsExisting (gpt_entries t) newStart newEnd index then
               (fail PartitionOverlap ''Resized partition overlaps another partition'', t)
             else
               (ok, t\<lparr>gpt_entries := (gpt_entries t)
                  [k := (gpt_entries t ! k)\<lparr>pe_startLba := newStart, pe_sectorCount := newSize\<rparr>]\<rparr>)))"

section \<open>Checksum validation\<close>

text \<open>The message of a header mismatch also prints the two checksums, which are left out.\<close>

definition gpt_validateCrcs :: "DiskReadCallback \<Rightarrow> GptTable \<Rightarrow> unit Result run" where
  "gpt_validateCrcs readFunc t =
     (case readFunc (ucast (gpt_sectorSize t)) (gpt_sectorSize t) of
        Inl e \<Rightarrow> Done (Inl e)
      | Inr headerData \<Rightarrow>
          require (20 \<le> length headerData)
            (run_bind (headerCrc32 headerData (readLE32 headerData 12)) (\<lambda>computedHeaderCrc.
              if computedHeaderCrc \<noteq> readLE32 headerData 16 then
                Done (fail PartitionTableCorrupt ''GPT header CRC32 mismatch'')
              else
                require (92 \<le> length headerData)
                  (let entryLba = readLE64 headerData 72;
                       entryCount = readLE32 headerData 80;
                       entrySize = readLE32 headerData 84;
                       storedEntryCrc = readLE32 headerData 88;
                       entryArrayBytes = entryCount * entrySize
                   in case readFunc (entryLba * ucast (gpt_sectorSize t)) entryArrayBytes of
                        Inl e \<Rightarrow> Done (Inl e)
                      | Inr entryData \<Rightarrow>
                          run_bind (arrayCrc32 entryData entryArrayBytes) (\<lambda>computedEntryCrc.
                            if computedEntryCrc \<noteq> storedEntryCrc then
                              Done (fail PartitionTableCorrupt ''GPT partition entry array CRC32 mismatch'')
                            else Done ok)))))"

section \<open>Serialization\<close>

definition entryArrayBytes :: "GptTable \<Rightarrow> u32" where
  "entryArrayBytes t = gpt_entryCount t * gpt_entrySize t"

definition entryArraySectors :: "GptTable \<Rightarrow> u32" where
  "entryArraySectors t = (entryArrayBytes t + gpt_sectorSize t - 1) div gpt_sectorSize t"

definition gpt_diskSectors :: "GptTable \<Rightarrow> u64" where
  "gpt_diskSectors t = gpt_diskSizeBytes t div ucast (gpt_sectorSize t)"

definition protMbr :: "GptTable \<Rightarrow> bytes" where
  "protMbr t =
     (let b = replicate (unat (gpt_sectorSize t)) 0;
          b = blit 0 (take (min 512 (unat (gpt_sectorSize t))) (gpt_protectiveMbr t)) b;
          entry0 = MBR_PARTITION_ENTRY_OFFSET;
          b = b[entry0 := 0x00, entry0 + 1 := 0x00, entry0 + 2 := 0x02, entry0 + 3 := 0x00,
                entry0 + 4 := MbrTypes_GPT_Protective];
          b = encodeCHSOverflow b (entry0 + 5);
          b = writeLE32 b (entry0 + 8) 1;
          protSize = gpt_diskSectors t - 1;
          protSize = (if protSize > 0xFFFFFFFF then 0xFFFFFFFF else protSize);
          b = writeLE32 b (entry0 + 12) (ucast protSize);
          b = blit (MBR_PARTITION_ENTRY_OFFSET + 16) (replicate 48 0) b
      in writeLE16 b 510 MBR_SIGNATURE)"

definition unitBytes :: "u16 list \<Rightarrow> bytes" where
  "unitBytes us = concat (map (\<lambda>u. [ucast u, ucast (drop_bit 8 u)]) us)"

definition putEntry :: "nat \<Rightarrow> PartitionEntry \<Rightarrow> bytes \<Rightarrow> bytes" where
  "putEntry entrySize pe arr =
     (let dest = nat (pe_index pe) * entrySize;
          arr = guidToBytes (pe_typeGuid pe) arr dest;
          arr = guidToBytes (pe_uniqueGuid pe) arr (dest + 16);
          arr = writeLE64 arr (dest + 32) (pe_startLba pe);
          arr = writeLE64 arr (dest + 40) (pe_startLba pe + pe_sectorCount pe - 1);
          arr = writeLE64 arr (dest + 48) (pe_gptAttributes pe)
      in blit (dest + 56) (unitBytes (utf8ToUtf16le (pe_gptName pe) 36)) arr)"

definition entryArray :: "GptTable \<Rightarrow> bytes" where
  "entryArray t =
     fold (\<lambda>pe arr. if pe_index pe < 0 \<or> pe_index pe \<ge> sint (gpt_entryCount t) then arr
                     else putEntry (unat (gpt_entrySize t)) pe arr)
       (gpt_entries t) (replicate (unat (entryArrayBytes t)) 0)"

definition setHeaderCrc :: "bytes \<Rightarrow> bytes" where
  "setHeaderCrc h = (let h = writeLE32 h 16 0 in writeLE32 h 16 (crc32 (take GPT_HEADER_SIZE h)))"

definition primaryHeader :: "GptTable \<Rightarrow> bytes" where
  "primaryHeader t =
     (let h = replicate (unat (gpt_sectorSize t)) 0;
          h = writeLE64 h 0 GPT_HEADER_SIGNATURE;
          h = writeLE32 h 8 (gpt_revision t);
          h = writeLE32 h 12 (of_nat GPT_HEADER_SIZE);
          h = writeLE32 h 20 0;
          h = writeLE64 h 24 1;
          h = writeLE64 h 32 (gpt_diskSectors t - 1);
          h = writeLE64 h 40 (gpt_firstUsableLba t);
          lastUsable = (if gpt_lastUsableLba t = 0
                        then gpt_diskSectors t - ucast (entryArraySectors t) - 2
                        else gpt_lastUsableLba t);
          h = writeLE64 h 48 lastUsable;
          h = guidToBytes (gpt_diskGuid t) h 56;
          h = writeLE64 h 72 2;
          h = writeLE32 h 80 (gpt_entryCount t);
          h = writeLE32 h 84 (gpt_entrySize t);
          h = writeLE32 h 88 (crc32 (entryArray t))
      in setHeaderCrc h)"

definition backupHeader :: "GptTable \<Rightarrow> bytes" where
  "backupHeader t =
     (let h = primaryHeader t;
          h = writeLE64 h 24 (gpt_diskSectors t - 1);
          h = writeLE64 h 32 1;
          h = writeLE64 h 72 (gpt_diskSectors t - 1 - ucast (entryArraySectors t))
      in setHeaderCrc h)"

definition paddedEntries :: "GptTable \<Rightarrow> bytes" where
  "paddedEntries t =
     blit 0 (entryArray t) (replicate (unat (entryArraySectors t * gpt_sectorSize t)) 0)"

text \<open>
  The writes of \<open>serialize\<close> stay in their buffers if a sector holds an MBR, every entry fits the
  array and the array fits its sectors.
\<close>

definition gpt_serialize_defined :: "GptTable \<Rightarrow> bool" where
  "gpt_serialize_defined t \<longleftrightarrow> 512 \<le> unat (gpt_sectorSize t) \<and>
     list_all (\<lambda>pe. 0 \<le> pe_index pe \<and> pe_index pe < sint (gpt_entryCount t) \<longrightarrow>
       nat (pe_index pe) * unat (gpt_entrySize t) + 128 \<le> unat (entryArrayBytes t)) (gpt_entries t) \<and>
     unat (entryArrayBytes t) \<le> unat (entryArraySectors t * gpt_sectorSize t)"

definition gpt_serialize :: "GptTable \<Rightarrow> bytes Result run" where
  "gpt_serialize t =
     require (gpt_serialize_defined t)
       (Done (Inr (protMbr t @ primaryHeader t @ paddedEntries t @ paddedEntries t @ backupHeader t)))"

section \<open>Invariant and edits\<close>

text \<open>
  Indices are distinct slots of the entry array, no partition is empty, no range wraps and every
  GUID has its sixteen bytes.
\<close>

definition gpt_entry_ok :: "GptTable \<Rightarrow> PartitionEntry \<Rightarrow> bool" where
  "gpt_entry_ok t e \<longleftrightarrow> 0 \<le> pe_index e \<and> pe_index e < sint (gpt_entryCount t) \<and>
     pe_sectorCount e \<noteq> 0 \<and> no_wrap (entry_range e)"

definition gpt_inv :: "GptTable \<Rightarrow> bool" where
  "gpt_inv t \<longleftrightarrow> distinct (map pe_index (gpt_entries t)) \<and> list_all (gpt_entry_ok t) (gpt_entries t)"

lemma gpt_inv_entry: "gpt_inv t \<Longrightarrow> e \<in> set (gpt_entries t) \<Longrightarrow> gpt_entry_ok t e"
  by (simp add: gpt_inv_def list_all_iff)

lemma unat_end:
  assumes "no_wrap (s, n)" "n \<noteq> 0"
  shows "unat (s + n - 1) = unat s + unat n - 1"
proof -
  have "s + n \<noteq> 0" using assms unat_add_no_wrap [OF assms(1)] by (metis add_is_0 unat_0 unat_eq_zero)
  then show ?thesis using unat_add_no_wrap [OF assms(1)] by (simp add: unat_minus_one)
qed

lemma gpt_overlap_test_iff:
  assumes "no_wrap (s, n)" "no_wrap (s', n')" "n \<noteq> 0" "n' \<noteq> 0"
  shows "s \<le> s' + n' - 1 \<and> s' \<le> s + n - 1 \<longleftrightarrow> \<not> ranges_disjoint (s', n') (s, n)"
  using assms unat_gt_0 [of n] unat_gt_0 [of n']
  by (auto simp: word_le_nat_alt unat_end ranges_disjoint_iff)

lemma gpt_overlapsExisting_iff:
  assumes "gpt_inv t" "no_wrap (s, n)" "n \<noteq> 0"
  shows "gpt_overlapsExisting (gpt_entries t) s (s + n - 1) ex \<longleftrightarrow>
    (\<exists>e \<in> set (gpt_entries t). pe_index e \<noteq> ex \<and> \<not> ranges_disjoint (entry_range e) (s, n))"
proof -
  have "s \<le> pe_startLba e + pe_sectorCount e - 1 \<and> pe_startLba e \<le> s + n - 1 \<longleftrightarrow>
      \<not> ranges_disjoint (entry_range e) (s, n)" if "e \<in> set (gpt_entries t)" for e
    using gpt_inv_entry [OF assms(1) that] assms(2,3)
    by (simp add: gpt_entry_ok_def entry_range_def gpt_overlap_test_iff)
  then show ?thesis by (auto simp: gpt_overlapsExisting_def list_ex_iff)
qed

lemma find_upt_Some: "find P [0..<n] = Some i \<longleftrightarrow> i < n \<and> P i \<and> (\<forall>j < i. \<not> P j)"
proof
  show "find P [0..<n] = Some i \<Longrightarrow> i < n \<and> P i \<and> (\<forall>j < i. \<not> P j)"
    by (auto simp: find_Some_iff)
  show "i < n \<and> P i \<and> (\<forall>j < i. \<not> P j) \<Longrightarrow> find P [0..<n] = Some i"
    unfolding find_Some_iff by (intro exI [of _ i]) auto
qed

lemma gpt_freeSlot_Some:
  "gpt_freeSlot t = Some i \<longleftrightarrow> int i < sint (gpt_entryCount t) \<and>
     int i \<notin> pe_index ` set (gpt_entries t) \<and> (\<forall>j < i. int j \<in> pe_index ` set (gpt_entries t))"
  by (auto simp: gpt_freeSlot_def find_upt_Some list_ex_iff zless_nat_eq_int_zless image_iff)
    (metis+)?

text \<open>The table with the usable range filled in, as \<open>addPartition\<close> does first.\<close>

definition gpt_setLastUsable :: "GptTable \<Rightarrow> GptTable" where
  "gpt_setLastUsable t = (if gpt_lastUsableLba t = 0
     then t\<lparr>gpt_lastUsableLba := gpt_diskSizeBytes t div ucast (gpt_sectorSize t) - 34\<rparr> else t)"

lemma gpt_setLastUsable_simps [simp]:
  "gpt_entries (gpt_setLastUsable t) = gpt_entries t"
  "gpt_entryCount (gpt_setLastUsable t) = gpt_entryCount t"
  "gpt_sectorSize (gpt_setLastUsable t) = gpt_sectorSize t"
  "gpt_firstUsableLba (gpt_setLastUsable t) = gpt_firstUsableLba t"
  "gpt_freeSlot (gpt_setLastUsable t) = gpt_freeSlot t"
  by (simp_all add: gpt_setLastUsable_def gpt_freeSlot_def)

lemma gpt_add_cases:
  assumes "gpt_addPartition rnd p t = (r, t')"
  obtains (err) err where "r = Inl err" "t' = t \<or> t' = gpt_setLastUsable t"
  | (ok) i where "r = ok" "gpt_freeSlot t = Some i"
      "t' = (gpt_setLastUsable t)\<lparr>gpt_entries := gpt_entries t @ [gpt_newEntry rnd p i (gpt_sectorSize t)]\<rparr>"
      "pp_sectorCount p \<noteq> 0" "gpt_firstUsableLba t \<le> pp_startLba p"
      "pp_startLba p + pp_sectorCount p - 1 \<le> gpt_lastUsableLba t'"
      "\<not> gpt_overlapsExisting (gpt_entries t) (pp_startLba p) (pp_startLba p + pp_sectorCount p - 1) (-1)"
proof (cases "gpt_freeSlot t")
  case None
  with assms show thesis
    using err [OF sym] by (auto simp: gpt_addPartition_def Let_def simp flip: gpt_setLastUsable_def split: if_splits)
next
  case (Some i)
  with assms show thesis
    using err [OF sym] ok [of i]
    by (auto simp: gpt_addPartition_def Let_def not_less simp flip: gpt_setLastUsable_def split: if_splits)
qed

lemma gpt_resize_cases:
  assumes "gpt_resizePartition i s n t = (r, t')"
  obtains (err) err where "r = Inl err" "t' = t"
  | (ok) k where "r = ok" "k < length (gpt_entries t)" "pe_index (gpt_entries t ! k) = i"
      "t' = t\<lparr>gpt_entries := (gpt_entries t)
         [k := (gpt_entries t ! k)\<lparr>pe_startLba := s, pe_sectorCount := n\<rparr>]\<rparr>"
      "n \<noteq> 0" "gpt_firstUsableLba t \<le> s" "s + n - 1 \<le> gpt_lastUsableLba t"
      "\<not> gpt_overlapsExisting (gpt_entries t) s (s + n - 1) i"
proof (cases "find_index (\<lambda>e. pe_index e = i) (gpt_entries t)")
  case None
  then show thesis using assms err [OF sym] by (auto simp: gpt_resizePartition_def)
next
  case (Some k)
  note find = find_index_SomeD [OF Some]
  from Some show thesis
    using assms err ok [of k] find
    by (simp add: gpt_resizePartition_def Let_def not_less split: if_splits; blast)
qed

lemma gpt_newEntry_simps [simp]:
  "entry_range (gpt_newEntry rnd p i ss) = (pp_startLba p, pp_sectorCount p)"
  "pe_index (gpt_newEntry rnd p i ss) = int i" "pe_sectorCount (gpt_newEntry rnd p i ss) = pp_sectorCount p"
  by (simp_all add: gpt_newEntry_def entry_range_def pe_default_def)

lemma gpt_inv_cong:
  "gpt_entries t' = gpt_entries t \<Longrightarrow> gpt_entryCount t' = gpt_entryCount t \<Longrightarrow> gpt_inv t' = gpt_inv t"
  by (simp add: gpt_inv_def gpt_entry_ok_def [abs_def])

lemma gpt_add_inv [table_inv]:
  assumes "gpt_inv t" "no_wrap (pp_startLba p, pp_sectorCount p)"
  shows "gpt_inv (snd (gpt_addPartition rnd p t))"
proof (cases "gpt_addPartition rnd p t")
  case (Pair r t')
  then show ?thesis
  proof (cases rule: gpt_add_cases)
    case err
    with Pair assms(1) show ?thesis using gpt_inv_cong [of "gpt_setLastUsable t" t] by auto
  next
    case (ok i)
    have "distinct (map pe_index (gpt_entries t'))"
      using assms(1) ok(2,3) by (simp add: gpt_inv_def gpt_freeSlot_Some)
    moreover have "list_all (gpt_entry_ok t') (gpt_entries t')"
      using assms ok(2-4) by (auto simp: gpt_inv_def gpt_entry_ok_def [abs_def] gpt_freeSlot_Some)
    ultimately show ?thesis using Pair by (simp add: gpt_inv_def)
  qed
qed

lemma gpt_resize_inv [table_inv]:
  assumes "gpt_inv t" "no_wrap (s, n)"
  shows "gpt_inv (snd (gpt_resizePartition i s n t))"
proof (cases "gpt_resizePartition i s n t")
  case (Pair r t')
  then show ?thesis
  proof (cases rule: gpt_resize_cases)
    case err
    with Pair assms show ?thesis by simp
  next
    case (ok k)
    from ok(2,4) have "map pe_index (gpt_entries t') = map pe_index (gpt_entries t)"
      by (intro nth_equalityI) (auto simp: nth_list_update)
    moreover have "list_all (gpt_entry_ok t') (gpt_entries t')"
      using assms ok by (auto simp: gpt_inv_def gpt_entry_ok_def list_all_length nth_list_update entry_range_def)
    ultimately show ?thesis using assms Pair by (simp add: gpt_inv_def)
  qed
qed

lemma gpt_delete_inv [table_inv]:
  assumes "gpt_inv t"
  shows "gpt_inv (snd (gpt_deletePartition i t))"
proof (cases "find_index (\<lambda>e. pe_index e = i) (gpt_entries t)")
  case None
  with assms show ?thesis by (simp add: gpt_deletePartition_def)
next
  case (Some k)
  with assms show ?thesis
    using set_erase_at_subset [of k "gpt_entries t"]
    by (auto simp: gpt_deletePartition_def gpt_inv_def map_erase_at distinct_erase_at list_all_iff
        gpt_entry_ok_def [abs_def])
qed

interpretation gpt: partition_table gpt_partitions gpt_addPartition gpt_deletePartition
  gpt_resizePartition gpt_inv no_wrap
proof (unfold_locales, goal_cases)
  case (1 t p rnd u t')
  from 1(3) show ?case
  proof (cases rule: gpt_add_cases)
    case (ok i)
    have "pe_index x \<noteq> -1" if "x \<in> set (gpt_entries t)" for x
      using gpt_inv_entry [OF 1(1) that] by (simp add: gpt_entry_ok_def)
    with ok(7) have "\<forall>x \<in> set (gpt_entries t). ranges_disjoint (entry_range x)
        (pp_startLba p, pp_sectorCount p)"
      by (simp add: gpt_overlapsExisting_iff [OF 1(1,2) ok(4)])
    with ok(3) show ?thesis by (auto simp: gpt_partitions_def)
  qed simp
next
  case (2 rnd p t err t')
  from 2 show ?case by (cases rule: gpt_add_cases) (auto simp: gpt_partitions_def)
next
  case (3 t i u t')
  then show ?case
    by (auto simp: gpt_deletePartition_def gpt_partitions_def map_erase_at subseq_erase_at split: option.splits)
next
  case (4 i t err t')
  then show ?case by (auto simp: gpt_deletePartition_def split: option.splits)
next
  case (5 t s n i u t')
  from 5(3) show ?case
  proof (cases rule: gpt_resize_cases)
    case (ok k)
    have "ranges_disjoint (s, n) (entry_range (gpt_entries t ! j))"
      if j: "j < length (gpt_entries t)" "j \<noteq> k" for j
    proof (rule ranges_disjoint_sym)
      have "pe_index (gpt_entries t ! j) \<noteq> i"
        using j ok(2,3) 5(1) by (auto simp: gpt_inv_def distinct_conv_nth)
      with j ok(8) show "ranges_disjoint (entry_range (gpt_entries t ! j)) (s, n)"
        using nth_mem [OF j(1)] by (auto simp: gpt_overlapsExisting_iff [OF 5(1,2) ok(5)])
    qed
    moreover have "map shape (gpt_entries t') =
        (map shape (gpt_entries t))[k := ((s, n), snd (shape (gpt_entries t ! k)))]"
      using ok(4) by (simp add: map_update shape_def entry_range_def)
    ultimately show ?thesis using ok(2) by (auto simp: gpt_partitions_def)
  qed simp
next
  case (6 i s n t err t')
  from 6 show ?case by (cases rule: gpt_resize_cases) auto
next
  case (7 t e)
  then show ?case by (cases e) (simp_all add: table_inv)
qed

text \<open>
  Whatever sequence of additions, deletions and resizings is applied to a GPT table, with ranges
  that end within the 64-bit range, the partitions stay pairwise disjoint and keep distinct slots
  of the entry array.
\<close>

theorem gpt_edits_layout:
  assumes "gpt_inv t" "layout_ok (gpt_partitions t)" "list_all (edit_req no_wrap) es"
  shows "gpt_inv (run_edits gpt_addPartition gpt_deletePartition gpt_resizePartition es t) \<and>
    layout_ok (gpt_partitions (run_edits gpt_addPartition gpt_deletePartition gpt_resizePartition es t))"
  using gpt.edits_layout assms by blast


text \<open>
  A request whose end wraps past \<open>2^64\<close> passes the bounds check of \<open>addPartition\<close>: a table
  without partitions accepts a partition that starts at or behind the first usable sector and
  whose last sector, computed modulo \<open>2^64\<close>, is in the usable area, although the partition goes
  on behind the usable area.
\<close>

theorem gpt_add_wraps:
  assumes "gpt_entries t = []" "0 < sint (gpt_entryCount t)" "gpt_lastUsableLba t \<noteq> 0"
    and "gpt_firstUsableLba t \<le> s" "n \<noteq> 0" "s + n - 1 \<le> gpt_lastUsableLba t"
    and "2 ^ 64 < unat s + unat n"
  shows "\<exists>t'. gpt_addPartition rnd (pp_default\<lparr>pp_startLba := s, pp_sectorCount := n\<rparr>) t = (ok, t') \<and>
    (\<exists>x \<in> extent (entry_range (gpt_entries t' ! 0)). unat (gpt_lastUsableLba t') < x)"
proof -
  let ?p = "pp_default\<lparr>pp_startLba := s, pp_sectorCount := n\<rparr>"
  let ?t' = "t\<lparr>gpt_entries := [gpt_newEntry rnd ?p 0 (gpt_sectorSize t)]\<rparr>"
  have "gpt_freeSlot t = Some 0" using assms(1,2) by (simp add: gpt_freeSlot_Some)
  then have "gpt_addPartition rnd ?p t = (ok, ?t')"
    using assms by (simp add: gpt_addPartition_def Let_def not_less gpt_overlapsExisting_def)
  moreover have "unat (gpt_lastUsableLba t) < 2 ^ 64" using unsigned_less [of "gpt_lastUsableLba t"] by simp
  then have "unat s + unat n - 1 \<in> extent (s, n)" "unat (gpt_lastUsableLba t) < unat s + unat n - 1"
    using assms(5,7) unat_gt_0 [of n] by (auto simp: extent_def)
  ultimately show ?thesis by (intro exI [of _ ?t']) auto
qed

section \<open>Round trip\<close>

text \<open>What the entry array keeps of an entry.\<close>

definition gpt_stored :: "u32 \<Rightarrow> PartitionEntry \<Rightarrow> PartitionEntry" where
  "gpt_stored ss e = pe_default\<lparr>pe_index := pe_index e, pe_typeGuid := pe_typeGuid e,
     pe_uniqueGuid := pe_uniqueGuid e, pe_startLba := pe_startLba e,
     pe_sectorCount := pe_sectorCount e, pe_sectorSize := ss,
     pe_gptAttributes := pe_gptAttributes e, pe_gptName := pe_gptName e\<rparr>"

text \<open>A name that the field holds: at most 35 code units, none of them NUL.\<close>

definition gpt_name_ok :: "bytes \<Rightarrow> bool" where
  "gpt_name_ok name \<longleftrightarrow> (\<exists>us. name = utf16_loop us \<and> 0 \<notin> set us \<and> length us \<le> 35)"

definition gpt_storable :: "PartitionEntry \<Rightarrow> bool" where
  "gpt_storable e \<longleftrightarrow> guid_wf (pe_typeGuid e) \<and> \<not> guid_isZero (pe_typeGuid e) \<and>
     guid_wf (pe_uniqueGuid e) \<and> gpt_name_ok (pe_gptName e)"

text \<open>
  A table that can be written and read back: the invariant, storable entries, sectors that hold an
  MBR, entries of at least 128 bytes, at most 1024 of them, and an array whose size, rounded up to
  whole sectors, does not overflow 32 bits.
\<close>

definition gpt_serializable :: "GptTable \<Rightarrow> bool" where
  "gpt_serializable t \<longleftrightarrow> gpt_inv t \<and> list_all gpt_storable (gpt_entries t) \<and> guid_wf (gpt_diskGuid t) \<and>
     length (gpt_protectiveMbr t) = 512 \<and>
     512 \<le> unat (gpt_sectorSize t) \<and> 128 \<le> unat (gpt_entrySize t) \<and> unat (gpt_entryCount t) \<le> 1024 \<and>
     unat (gpt_entryCount t) * unat (gpt_entrySize t) + unat (gpt_sectorSize t) < 2 ^ 32"

lemma length_unitBytes [simp]: "length (unitBytes us) = 2 * length us"
  by (induction us) (simp_all add: unitBytes_def)

lemma nth_unitBytes:
  "k < length us \<Longrightarrow> unitBytes us ! (2 * k) = ucast (us ! k)"
  "k < length us \<Longrightarrow> unitBytes us ! Suc (2 * k) = ucast (drop_bit 8 (us ! k))"
proof (induction us arbitrary: k)
  case (Cons u us)
  case 1
  with Cons show ?case by (cases k) (simp_all add: unitBytes_def)
next
  case (Cons u us)
  case 2
  with Cons show ?case by (cases k) (simp_all add: unitBytes_def)
qed simp_all

lemma nameUnits_blit:
  assumes "off + 72 \<le> length buf" "length us = 36"
  shows "nameUnits (blit off (unitBytes us) buf) off = us"
proof (rule nth_equalityI)
  show "length (nameUnits (blit off (unitBytes us) buf) off) = length us"
    using assms by (simp add: nameUnits_def)
  fix k assume "k < length (nameUnits (blit off (unitBytes us) buf) off)"
  then have "k < 36" by (simp add: nameUnits_def)
  with assms show "nameUnits (blit off (unitBytes us) buf) off ! k = us ! k"
    by (simp add: nameUnits_def readLE16_def nth_blit nth_unitBytes join_LE16)
qed

lemma gpt_name_round_trip:
  "gpt_name_ok name \<Longrightarrow> utf16leToUtf8 (utf8ToUtf16le name 36) 36 = name"
  by (auto simp: gpt_name_ok_def utf16leToUtf8_utf8ToUtf16le)

text \<open>Entries look at their own 128 bytes only, and are written there only.\<close>

lemma parseEntry_cong:
  assumes "\<And>j. i * unat es \<le> j \<Longrightarrow> j < i * unat es + 128 \<Longrightarrow> buf ! j = buf' ! j"
    and "i * unat es + 128 \<le> length buf" "i * unat es + 128 \<le> length buf'"
  shows "parseEntry ss es buf i = parseEntry ss es buf' i"
proof -
  let ?p = "i * unat es"
  have "guidFromBytes buf ?p = guidFromBytes buf' ?p" "guidFromBytes buf (?p + 16) = guidFromBytes buf' (?p + 16)"
    unfolding guidFromBytes_def using assms by (auto intro!: slice_eqI simp: nth_slice)
  moreover have "readLE64 buf (?p + 32) = readLE64 buf' (?p + 32)" "readLE64 buf (?p + 40) = readLE64 buf' (?p + 40)"
    "readLE64 buf (?p + 48) = readLE64 buf' (?p + 48)"
    by (auto intro!: le64.rd_cong assms(1))
  moreover have "nameUnits buf (?p + 56) = nameUnits buf' (?p + 56)"
    unfolding nameUnits_def by (auto intro!: le16.rd_cong assms(1))
  ultimately show ?thesis by (simp only: parseEntry_def Let_def)
qed

lemma putEntry_length:
  assumes "gpt_storable e" "nat (pe_index e) * es + 128 \<le> length buf"
  shows "length (putEntry es e buf) = length buf"
  using assms by (simp add: putEntry_def gpt_storable_def Let_def length_utf8ToUtf16le)

lemma putEntry_frame:
  assumes "gpt_storable e" "nat (pe_index e) * es + 128 \<le> length buf"
    and "j < nat (pe_index e) * es \<or> nat (pe_index e) * es + 128 \<le> j"
  shows "putEntry es e buf ! j = buf ! j"
  using assms by (auto simp: putEntry_def gpt_storable_def Let_def length_utf8ToUtf16le nth_blit
      le64.wr_frame guidToBytes_def guid_wf_def)

lemma guidFromBytes_other:
  assumes "off + 16 \<le> length buf"
  shows "off + 16 \<le> o2 \<or> o2 + 8 \<le> off \<Longrightarrow> guidFromBytes (writeLE64 buf o2 v) off = guidFromBytes buf off"
    "off + 16 \<le> o2 \<or> o2 + 4 \<le> off \<Longrightarrow> guidFromBytes (writeLE32 buf o2 w) off = guidFromBytes buf off"
    "o2 + length bs \<le> length buf \<Longrightarrow> off + 16 \<le> o2 \<or> o2 + length bs \<le> off \<Longrightarrow>
      guidFromBytes (blit o2 bs buf) off = guidFromBytes buf off"
    "guid_wf g \<Longrightarrow> o2 + 16 \<le> length buf \<Longrightarrow> off + 16 \<le> o2 \<or> o2 + 16 \<le> off \<Longrightarrow>
      guidFromBytes (guidToBytes g buf o2) off = guidFromBytes buf off"
  using assms by (simp_all add: guidFromBytes_def guidToBytes_def guid_wf_def slice_codec_other slice_blit_other)

lemma sint_of_nat_small: "i < 2 ^ 31 \<Longrightarrow> sint (of_nat i :: u32) = int i"
  by (simp add: sint_sbintrunc' signed_take_bit_int_eq_self take_bit_int_eq_self signed_of_nat)

lemma parseEntry_putEntry:
  assumes "gpt_storable e" "nat (pe_index e) * unat es + 128 \<le> length buf"
    and "0 \<le> pe_index e" "pe_index e < 2 ^ 31"
  shows "parseEntry ss es (putEntry (unat es) e buf) (nat (pe_index e)) = Some (gpt_stored ss e)"
proof -
  let ?p = "nat (pe_index e) * unat es" and ?b = "putEntry (unat es) e buf"
  note wf = assms(1) [unfolded gpt_storable_def]
  have "guidFromBytes ?b ?p = pe_typeGuid e" "guidFromBytes ?b (?p + 16) = pe_uniqueGuid e"
    "readLE64 ?b (?p + 32) = pe_startLba e" "readLE64 ?b (?p + 40) = pe_startLba e + pe_sectorCount e - 1"
    "readLE64 ?b (?p + 48) = pe_gptAttributes e"
    using assms(2) wf by (simp_all add: putEntry_def Let_def length_utf8ToUtf16le guidFromBytes_other
        guid_round_trip le64.rd_wr le64.rd_wr_other le64.rd_blit_other)
  moreover have "utf16leToUtf8 (nameUnits ?b (?p + 56)) 36 = pe_gptName e"
    using assms(2) wf by (simp add: putEntry_def Let_def nameUnits_blit length_utf8ToUtf16le gpt_name_round_trip)
  moreover have "sint (of_nat (nat (pe_index e)) :: u32) = pe_index e"
    using assms(3,4) by (subst sint_of_nat_small) (simp_all add: nat_less_iff)
  ultimately show ?thesis
    using wf by (simp add: parseEntry_def gpt_stored_def Let_def)
qed

lemma slot_fits: "(i :: nat) < n \<Longrightarrow> 128 \<le> es \<Longrightarrow> i * es + 128 \<le> n * es"
proof -
  assume "i < n" "128 \<le> es"
  then have "i * es + es \<le> n * es" by (metis Suc_leI add.commute mult_Suc mult_le_mono1)
  with \<open>128 \<le> es\<close> show ?thesis by linarith
qed

lemma slots_apart: "(i :: nat) \<noteq> j \<Longrightarrow> 128 \<le> es \<Longrightarrow> i * es + 128 \<le> j * es \<or> j * es + 128 \<le> i * es"
  using slot_fits [of i j es] slot_fits [of j i es] by (meson linorder_neqE_nat)

definition slots_in :: "nat \<Rightarrow> PartitionEntry list \<Rightarrow> bool" where
  "slots_in n xs \<longleftrightarrow> distinct (map pe_index xs) \<and>
     list_all (\<lambda>e. gpt_storable e \<and> 0 \<le> pe_index e \<and> pe_index e < int n) xs"

lemma fold_putEntry:
  assumes "slots_in n xs" "128 \<le> unat es" "n * unat es \<le> length buf" "n \<le> 1024" "i < n"
  shows "length (fold (putEntry (unat es)) xs buf) = length buf \<and>
    parseEntry ss es (fold (putEntry (unat es)) xs buf) i =
      (case find (\<lambda>e. pe_index e = int i) xs of
         Some e \<Rightarrow> Some (gpt_stored ss e) | None \<Rightarrow> parseEntry ss es buf i)"
  using assms
proof (induction xs arbitrary: buf)
  case Nil
  then show ?case by simp
next
  case (Cons e xs)
  let ?b = "putEntry (unat es) e buf" and ?k = "nat (pe_index e)"
  have e: "gpt_storable e" "0 \<le> pe_index e" "?k < n" using Cons.prems(1) by (auto simp: slots_in_def)
  have room: "?k * unat es + 128 \<le> length buf" "i * unat es + 128 \<le> length buf"
    using slot_fits [OF e(3) Cons.prems(2)] slot_fits [OF Cons.prems(5,2)] Cons.prems(3) by linarith+
  have len: "length ?b = length buf" using e(1) room(1) by (rule putEntry_length)
  have IH: "length (fold (putEntry (unat es)) xs ?b) = length ?b \<and>
      parseEntry ss es (fold (putEntry (unat es)) xs ?b) i =
      (case find (\<lambda>e. pe_index e = int i) xs of
         Some e \<Rightarrow> Some (gpt_stored ss e) | None \<Rightarrow> parseEntry ss es ?b i)"
    using Cons.prems len by (intro Cons.IH) (auto simp: slots_in_def)
  show ?case
  proof (cases "pe_index e = int i")
    case True
    then have "find (\<lambda>e. pe_index e = int i) xs = None"
      using Cons.prems(1) by (auto simp: slots_in_def find_None_iff image_iff)
    moreover have "parseEntry ss es ?b ?k = Some (gpt_stored ss e)"
      using e room(1) Cons.prems(4) by (intro parseEntry_putEntry) auto
    ultimately show ?thesis using True IH len by simp
  next
    case False
    then have "i \<noteq> ?k" using e(2) by auto
    then have "parseEntry ss es ?b i = parseEntry ss es buf i"
      using slots_apart [of i ?k "unat es"] Cons.prems(2) len room e(1)
      by (intro parseEntry_cong putEntry_frame) auto
    with False IH len show ?thesis by (simp split: option.split)
  qed
qed

lemma gpt_serializable_slots:
  assumes "gpt_serializable t"
  shows "slots_in (unat (gpt_entryCount t)) (gpt_entries t)" "sint (gpt_entryCount t) = int (unat (gpt_entryCount t))"
    "unat (entryArrayBytes t) = unat (gpt_entryCount t) * unat (gpt_entrySize t)"
proof -
  have n: "unat (gpt_entryCount t) \<le> 1024" using assms by (simp add: gpt_serializable_def)
  show s: "sint (gpt_entryCount t) = int (unat (gpt_entryCount t))"
    using sint_of_nat_small [of "unat (gpt_entryCount t)"] n by simp
  show "slots_in (unat (gpt_entryCount t)) (gpt_entries t)"
    using assms s by (simp add: gpt_serializable_def slots_in_def gpt_inv_def gpt_entry_ok_def list_all_iff)
  show "unat (entryArrayBytes t) = unat (gpt_entryCount t) * unat (gpt_entrySize t)"
    using assms by (simp add: gpt_serializable_def entryArrayBytes_def unat_word_ariths)
qed

lemma entryArray_eq:
  assumes "gpt_serializable t"
  shows "entryArray t = fold (putEntry (unat (gpt_entrySize t))) (gpt_entries t)
    (replicate (unat (entryArrayBytes t)) 0)"
  unfolding entryArray_def using gpt_serializable_slots(1,2) [OF assms]
  by (intro fold_cong) (auto simp: slots_in_def list_all_iff)

lemma length_entryArray:
  assumes "gpt_serializable t"
  shows "length (entryArray t) = unat (entryArrayBytes t)"
proof (cases "unat (gpt_entryCount t)")
  case 0
  then show ?thesis
    using gpt_serializable_slots [OF assms] by (simp add: entryArray_eq [OF assms] slots_in_def list_all_iff)
     (cases "gpt_entries t"; auto)
next
  case (Suc n)
  then show ?thesis
    using fold_putEntry [of "unat (gpt_entryCount t)" "gpt_entries t" "gpt_entrySize t"
        "replicate (unat (entryArrayBytes t)) 0" 0 512] assms gpt_serializable_slots [OF assms]
    by (simp add: entryArray_eq [OF assms] gpt_serializable_def)
qed

lemma parseEntry_entryArray:
  assumes "gpt_serializable t" "i < unat (gpt_entryCount t)"
  shows "parseEntry ss (gpt_entrySize t) (entryArray t) i =
    map_option (gpt_stored ss) (find (\<lambda>e. pe_index e = int i) (gpt_entries t))"
proof -
  let ?z = "replicate (unat (entryArrayBytes t)) (0 :: u8)"
  have es: "128 \<le> unat (gpt_entrySize t)" using assms(1) by (simp add: gpt_serializable_def)
  have fits: "i * unat (gpt_entrySize t) + 128 \<le> length ?z"
    using slot_fits [OF assms(2) es] gpt_serializable_slots(3) [OF assms(1)] by simp
  then have "guid_isZero (guidFromBytes ?z (i * unat (gpt_entrySize t)))"
    by (simp add: guid_isZero_def guidFromBytes_def nth_slice)
  then have "parseEntry ss (gpt_entrySize t) ?z i = None" by (simp add: parseEntry_def Let_def)
  then show ?thesis
    using fold_putEntry [of "unat (gpt_entryCount t)" "gpt_entries t" "gpt_entrySize t" ?z i ss] assms es
      gpt_serializable_slots [OF assms(1)]
    by (simp add: entryArray_eq [OF assms(1)] gpt_serializable_def split: option.split)
qed

text \<open>The partitions of a parsed entry array: those of the table, in the order of their slots.\<close>

lemma map_filter_index:
  assumes "\<And>i e. g i = Some e \<Longrightarrow> pe_index e = int i"
  shows "map pe_index (List.map_filter g is) = map int (filter (\<lambda>i. g i \<noteq> None) is)"
  using assms by (induction "is") (auto simp: List.map_filter_simps split: option.splits)

lemma map_filter_upt_sorted:
  assumes "\<And>i e. g i = Some e \<Longrightarrow> pe_index e = int i"
  shows "sorted_wrt (<) (map pe_index (List.map_filter g [0..<n]))"
proof -
  have "sorted_wrt (<) (filter (\<lambda>i. g i \<noteq> None) [0..<n])" by (rule sorted_wrt_filter) simp
  moreover have eq: "map pe_index (List.map_filter g [0..<n]) = map int (filter (\<lambda>i. g i \<noteq> None) [0..<n])"
    using assms by (rule map_filter_index)
  ultimately show ?thesis unfolding eq by (simp add: sorted_wrt_map)
qed

lemma map_filter_cong_set:
  "(\<And>x. x \<in> set xs \<Longrightarrow> f x = g x) \<Longrightarrow> List.map_filter f xs = List.map_filter g xs"
  by (induction xs) (auto simp: List.map_filter_simps split: option.splits)

lemma find_distinct:
  "distinct (map f xs) \<Longrightarrow> find (\<lambda>e. f e = k) xs = Some e \<longleftrightarrow> e \<in> set xs \<and> f e = k"
  by (induction xs) auto

lemma set_map_filter_Some: "set (List.map_filter f xs) = {y. \<exists>x \<in> set xs. f x = Some y}"
  by (induction xs) (auto simp: List.map_filter_simps split: option.splits)

lemma parseEntries_entryArray:
  assumes "gpt_serializable t" "gpt_entryCount t0 = gpt_entryCount t" "gpt_entrySize t0 = gpt_entrySize t"
  shows "set (gpt_entries (parseEntries (entryArray t) t0)) = gpt_stored (gpt_sectorSize t0) ` set (gpt_entries t)"
    and "sorted_wrt (<) (map pe_index (gpt_entries (parseEntries (entryArray t) t0)))"
proof -
  let ?n = "unat (gpt_entryCount t)" and ?g = "\<lambda>i. map_option (gpt_stored (gpt_sectorSize t0))
    (find (\<lambda>e. pe_index e = int i) (gpt_entries t))"
  note sl = gpt_serializable_slots [OF assms(1)]
  have "takeWhile (\<lambda>i. i * unat (gpt_entrySize t) + 128 \<le> length (entryArray t)) [0..<?n] = [0..<?n]"
    using assms(1) slot_fits [of _ ?n "unat (gpt_entrySize t)"] sl(3)
    by (auto simp: takeWhile_eq_all_conv length_entryArray gpt_serializable_def)
  then have "gpt_entries (parseEntries (entryArray t) t0) =
      List.map_filter (parseEntry (gpt_sectorSize t0) (gpt_entrySize t) (entryArray t)) [0..<?n]"
    using assms(2,3) by (simp add: parseEntries_def del: takeWhile_eq_all_conv)
  also have "\<dots> = List.map_filter ?g [0..<?n]"
    using parseEntry_entryArray [OF assms(1)] by (intro map_filter_cong_set) simp
  finally have es: "gpt_entries (parseEntries (entryArray t) t0) = List.map_filter ?g [0..<?n]" .
  have find: "find (\<lambda>e. pe_index e = int i) (gpt_entries t) = Some e \<longleftrightarrow>
      e \<in> set (gpt_entries t) \<and> pe_index e = int i" for i e
    using sl(1) by (intro find_distinct) (simp add: slots_in_def)
  have slot: "\<exists>i \<in> set [0..<?n]. pe_index e = int i" if "e \<in> set (gpt_entries t)" for e
    using sl(1) that by (intro bexI [of _ "nat (pe_index e)"]) (auto simp: slots_in_def list_all_iff nat_less_iff)
  have "(\<exists>i \<in> set [0..<?n]. ?g i = Some y) \<longleftrightarrow> y \<in> gpt_stored (gpt_sectorSize t0) ` set (gpt_entries t)" for y
    unfolding map_option_eq_Some find using slot by blast
  then show "set (gpt_entries (parseEntries (entryArray t) t0)) = gpt_stored (gpt_sectorSize t0) ` set (gpt_entries t)"
    unfolding es set_map_filter_Some by blast
  have "pe_index e = int i" if "?g i = Some e" for i e using that find by (auto simp: gpt_stored_def)
  then show "sorted_wrt (<) (map pe_index (gpt_entries (parseEntries (entryArray t) t0)))"
    unfolding es by (rule map_filter_upt_sorted)
qed

section \<open>Headers\<close>

lemma writeLE32_twice [simp]: "writeLE32 (writeLE32 b off v) off w = writeLE32 b off w"
proof (rule nth_equalityI)
  have upd: "xs[k := x] ! i = (if k = i then x else xs ! i)" if "i < length xs" for xs :: bytes and k i x
    using that by auto
  show "writeLE32 (writeLE32 b off v) off w ! i = writeLE32 b off w ! i"
    if "i < length (writeLE32 (writeLE32 b off v) off w)" for i
    using that by (simp add: writeLE32_def upd)
qed simp

lemma take_writeLE32: "take n (writeLE32 b off v) = writeLE32 (take n b) off v"
  by (simp add: writeLE32_def take_update_swap)

lemma setHeaderCrc_simps:
  "length (setHeaderCrc h) = length h"
  "20 \<le> length h \<Longrightarrow> readLE32 (setHeaderCrc h) 16 = crc32 (take 92 (writeLE32 h 16 0))"
  "off + 4 \<le> 16 \<or> 20 \<le> off \<Longrightarrow> readLE32 (setHeaderCrc h) off = readLE32 h off"
  "off + 8 \<le> 16 \<or> 20 \<le> off \<Longrightarrow> readLE64 (setHeaderCrc h) off = readLE64 h off"
  "off + 16 \<le> length h \<Longrightarrow> off + 16 \<le> 16 \<or> 20 \<le> off \<Longrightarrow> guidFromBytes (setHeaderCrc h) off = guidFromBytes h off"
  by (simp_all add: setHeaderCrc_def Let_def le32.rd_wr le32.rd_wr_other mixed_reads guidFromBytes_other)

lemma headerCrc32_setHeaderCrc:
  assumes "92 \<le> length h"
  shows "headerCrc32 (setHeaderCrc h) 92 = Done (readLE32 (setHeaderCrc h) 16)"
  using assms by (simp add: headerCrc32_def setHeaderCrc_simps)
    (simp add: setHeaderCrc_def Let_def take_writeLE32)

lemma length_primaryHeader [simp]:
  "guid_wf (gpt_diskGuid t) \<Longrightarrow> 92 \<le> unat (gpt_sectorSize t) \<Longrightarrow> length (primaryHeader t) = unat (gpt_sectorSize t)"
  by (simp add: primaryHeader_def Let_def setHeaderCrc_simps)

lemma length_backupHeader [simp]:
  "guid_wf (gpt_diskGuid t) \<Longrightarrow> 92 \<le> unat (gpt_sectorSize t) \<Longrightarrow> length (backupHeader t) = unat (gpt_sectorSize t)"
  by (simp add: backupHeader_def Let_def setHeaderCrc_simps)

abbreviation gpt_lastLba :: "GptTable \<Rightarrow> u64" where
  "gpt_lastLba t \<equiv> (if gpt_lastUsableLba t = 0 then gpt_diskSectors t - ucast (entryArraySectors t) - 2
     else gpt_lastUsableLba t)"

lemma le32_guidToBytes:
  "guid_wf g \<Longrightarrow> o2 + 16 \<le> length b \<Longrightarrow> off + 4 \<le> o2 \<or> o2 + 16 \<le> off \<Longrightarrow> readLE32 (guidToBytes g b o2) off = readLE32 b off"
  "guid_wf g \<Longrightarrow> o2 + 16 \<le> length b \<Longrightarrow> off + 8 \<le> o2 \<or> o2 + 16 \<le> off \<Longrightarrow> readLE64 (guidToBytes g b o2) off = readLE64 b off"
  by (simp_all add: guidToBytes_def guid_wf_def le32.rd_blit_other le64.rd_blit_other)

lemmas header_reads = setHeaderCrc_simps le32.rd_wr le32.rd_wr_other le64.rd_wr le64.rd_wr_other mixed_reads
  guidFromBytes_other guid_round_trip le32_guidToBytes

lemma primaryHeader_fields:
  assumes "guid_wf (gpt_diskGuid t)" "92 \<le> unat (gpt_sectorSize t)"
  shows "readLE64 (primaryHeader t) 0 = GPT_HEADER_SIGNATURE" "readLE32 (primaryHeader t) 8 = gpt_revision t"
    "readLE32 (primaryHeader t) 12 = 92" "readLE64 (primaryHeader t) 32 = gpt_diskSectors t - 1"
    "readLE64 (primaryHeader t) 40 = gpt_firstUsableLba t" "readLE64 (primaryHeader t) 48 = gpt_lastLba t"
    "guidFromBytes (primaryHeader t) 56 = gpt_diskGuid t" "readLE64 (primaryHeader t) 72 = 2"
    "readLE32 (primaryHeader t) 80 = gpt_entryCount t" "readLE32 (primaryHeader t) 84 = gpt_entrySize t"
    "readLE32 (primaryHeader t) 88 = crc32 (entryArray t)"
  using assms by (simp_all add: primaryHeader_def Let_def header_reads)

lemma backupHeader_fields:
  assumes "guid_wf (gpt_diskGuid t)" "92 \<le> unat (gpt_sectorSize t)"
  shows "readLE64 (backupHeader t) 0 = GPT_HEADER_SIGNATURE"
    "readLE64 (backupHeader t) 72 = gpt_diskSectors t - 1 - ucast (entryArraySectors t)"
    "readLE32 (backupHeader t) 80 = gpt_entryCount t" "readLE32 (backupHeader t) 84 = gpt_entrySize t"
  using assms by (simp_all add: backupHeader_def Let_def header_reads primaryHeader_fields)

lemma primaryHeader_crc:
  assumes "guid_wf (gpt_diskGuid t)" "92 \<le> unat (gpt_sectorSize t)"
  shows "headerCrc32 (primaryHeader t) 92 = Done (readLE32 (primaryHeader t) 16)"
  unfolding primaryHeader_def Let_def
  using assms by (intro headerCrc32_setHeaderCrc) simp

lemma backupHeader_crc:
  assumes "guid_wf (gpt_diskGuid t)" "92 \<le> unat (gpt_sectorSize t)"
  shows "headerCrc32 (backupHeader t) 92 = Done (readLE32 (backupHeader t) 16)"
  unfolding backupHeader_def Let_def
  using assms by (intro headerCrc32_setHeaderCrc) simp

section \<open>A serialized table on a disk\<close>

lemma length_protMbr:
  "length (gpt_protectiveMbr t) = 512 \<Longrightarrow> 512 \<le> unat (gpt_sectorSize t) \<Longrightarrow>
     length (protMbr t) = unat (gpt_sectorSize t)"
  by (simp add: protMbr_def Let_def)

text \<open>Rounding up to whole sectors loses nothing.\<close>

lemma padded_size:
  assumes "gpt_serializable t"
  shows "unat (entryArrayBytes t) \<le> unat (entryArraySectors t * gpt_sectorSize t)"
    and "unat (entryArraySectors t * gpt_sectorSize t) = unat (entryArraySectors t) * unat (gpt_sectorSize t)"
proof -
  let ?b = "unat (entryArrayBytes t)" and ?s = "unat (gpt_sectorSize t)"
  have s: "512 \<le> ?s" and fits: "?b + ?s < 2 ^ 32"
    using assms gpt_serializable_slots(3) [OF assms] by (simp_all add: gpt_serializable_def)
  have sum: "unat (entryArrayBytes t + gpt_sectorSize t) = ?b + ?s"
    using fits by (simp add: unat_word_ariths)
  then have "entryArrayBytes t + gpt_sectorSize t \<noteq> 0" using s by (metis unat_0 add_is_0 not_numeral_le_zero)
  then have "unat (entryArrayBytes t + gpt_sectorSize t - 1) = ?b + ?s - 1" using sum by (simp add: unat_minus_one)
  then have n: "unat (entryArraySectors t) = (?b + ?s - 1) div ?s" by (simp add: entryArraySectors_def unat_div)
  have le: "(?b + ?s - 1) div ?s * ?s \<le> ?b + ?s - 1" by (rule div_times_less_eq_dividend)
  then have "unat (entryArraySectors t) * ?s < 2 ^ 32" using fits unfolding n by linarith
  then show eq: "unat (entryArraySectors t * gpt_sectorSize t) = unat (entryArraySectors t) * ?s"
    by (simp add: unat_word_ariths)
  have "?b + ?s - 1 < (?b + ?s - 1) div ?s * ?s + ?s" 
    using s mod_less_divisor [of ?s "?b + ?s - 1"] div_mult_mod_eq [of "?b + ?s - 1" ?s] by linarith
  then show "?b \<le> unat (entryArraySectors t * gpt_sectorSize t)" using n eq s by simp
qed

lemma gpt_serialize_ok:
  assumes "gpt_serializable t"
  shows "gpt_serialize t = Done (Inr (protMbr t @ primaryHeader t @ paddedEntries t @ paddedEntries t @ backupHeader t))"
proof -
  have "gpt_serialize_defined t"
    using assms gpt_serializable_slots [OF assms] padded_size [OF assms]
    by (auto simp: gpt_serialize_defined_def gpt_serializable_def slots_in_def list_all_iff nat_less_iff intro!: slot_fits)
  then show ?thesis by (simp add: gpt_serialize_def)
qed

lemma length_paddedEntries:
  "gpt_serializable t \<Longrightarrow> length (paddedEntries t) = unat (entryArraySectors t) * unat (gpt_sectorSize t)"
  using padded_size [of t] by (simp add: paddedEntries_def length_entryArray)

lemma slice_paddedEntries:
  "gpt_serializable t \<Longrightarrow> slice 0 (unat (entryArrayBytes t)) (paddedEntries t) = entryArray t"
  using slice_blit_same [of 0 "entryArray t"] padded_size [of t]
  by (simp add: paddedEntries_def length_entryArray)

text \<open>
  A disk that holds the pieces of a serialized table where the layout comment of \<open>serialize\<close> puts
  them: the first \<open>2 + entryArraySectors\<close> sectors at LBA 0, and the backup array and header at the end.
\<close>

definition gpt_primary_on_disk :: "DiskReadCallback \<Rightarrow> GptTable \<Rightarrow> bytes \<Rightarrow> bool" where
  "gpt_primary_on_disk readFunc t out \<longleftrightarrow>
     (let ss = gpt_sectorSize t; w = unat ss in
      readFunc 0 ss = Inr (slice 0 w out) \<and>
      readFunc (ucast ss) ss = Inr (slice w w out) \<and>
      readFunc (2 * ucast ss) (entryArrayBytes t) = Inr (slice (2 * w) (unat (entryArrayBytes t)) out))"

definition gpt_on_disk :: "DiskReadCallback \<Rightarrow> GptTable \<Rightarrow> bytes \<Rightarrow> bool" where
  "gpt_on_disk readFunc t out \<longleftrightarrow>
     gpt_primary_on_disk readFunc t out \<and>
     (let ss = gpt_sectorSize t; w = unat ss; a = unat (entryArraySectors t) * w in
      readFunc ((gpt_diskSectors t - 1 - ucast (entryArraySectors t)) * ucast ss) (entryArrayBytes t) =
        Inr (slice (2 * w + a) (unat (entryArrayBytes t)) out) \<and>
      readFunc ((gpt_diskSectors t - 1) * ucast ss) ss = Inr (slice (2 * w + 2 * a) w out))"

lemma gpt_serialize_slices:
  fixes t defines "w \<equiv> unat (gpt_sectorSize t)" and "a \<equiv> unat (entryArraySectors t) * unat (gpt_sectorSize t)"
  assumes "gpt_serializable t" "gpt_serialize t = Done (Inr out)"
  shows "slice 0 w out = protMbr t" "slice w w out = primaryHeader t"
    "slice (2 * w) (unat (entryArrayBytes t)) out = entryArray t"
    "slice (2 * w + a) (unat (entryArrayBytes t)) out = entryArray t"
    "slice (2 * w + 2 * a) w out = backupHeader t"
proof -
  have out: "out = protMbr t @ primaryHeader t @ paddedEntries t @ paddedEntries t @ backupHeader t"
    using assms(3,4) by (simp add: gpt_serialize_ok)
  have len: "length (protMbr t) = w" "length (primaryHeader t) = w" "length (backupHeader t) = w"
    "length (paddedEntries t) = a" "unat (entryArrayBytes t) \<le> a"
    using assms(3) padded_size [OF assms(3)]
    by (simp_all add: gpt_serializable_def length_protMbr length_paddedEntries w_def a_def)
  show "slice 0 w out = protMbr t" "slice w w out = primaryHeader t"
    "slice (2 * w) (unat (entryArrayBytes t)) out = entryArray t"
    "slice (2 * w + a) (unat (entryArrayBytes t)) out = entryArray t"
    "slice (2 * w + 2 * a) w out = backupHeader t"
    using len slice_paddedEntries [OF assms(3)]
    by (simp_all add: out slice_append_left slice_append_right)
qed

lemma gpt_primary_reads:
  assumes "gpt_serializable t" "gpt_serialize t = Done (Inr out)" "gpt_primary_on_disk readFunc t out"
  shows "readFunc 0 (gpt_sectorSize t) = Inr (protMbr t)"
    "readFunc (ucast (gpt_sectorSize t)) (gpt_sectorSize t) = Inr (primaryHeader t)"
    "readFunc (2 * ucast (gpt_sectorSize t)) (entryArrayBytes t) = Inr (entryArray t)"
  using assms(3) gpt_serialize_slices [OF assms(1,2)] by (simp_all add: gpt_primary_on_disk_def Let_def)

lemma gpt_backup_reads:
  assumes "gpt_serializable t" "gpt_serialize t = Done (Inr out)" "gpt_on_disk readFunc t out"
  shows "readFunc ((gpt_diskSectors t - 1 - ucast (entryArraySectors t)) * ucast (gpt_sectorSize t))
       (entryArrayBytes t) = Inr (entryArray t)"
    "readFunc ((gpt_diskSectors t - 1) * ucast (gpt_sectorSize t)) (gpt_sectorSize t) = Inr (backupHeader t)"
  using assms(3) gpt_serialize_slices [OF assms(1,2)] by (simp_all add: gpt_on_disk_def Let_def)

text \<open>
  Parsing what was serialized gives the table back, with the partitions in the order of their slots.
\<close>

lemma gpt_parse_serialize:
  assumes "gpt_serializable t" "gpt_serialize t = Done (Inr out)" "gpt_primary_on_disk readFunc t out"
    and "gpt_sectorSize t0 = gpt_sectorSize t"
  shows "\<exists>t'. gpt_parse readFunc t0 = Done (ok, t') \<and>
    set (gpt_entries t') = gpt_stored (gpt_sectorSize t) ` set (gpt_entries t) \<and>
    sorted_wrt (<) (map pe_index (gpt_entries t')) \<and>
    gpt_diskGuid t' = gpt_diskGuid t \<and> gpt_revision t' = gpt_revision t \<and>
    gpt_firstUsableLba t' = gpt_firstUsableLba t \<and> gpt_lastUsableLba t' = gpt_lastLba t \<and>
    gpt_alternateLba t' = gpt_diskSectors t - 1 \<and>
    gpt_entryCount t' = gpt_entryCount t \<and> gpt_entrySize t' = gpt_entrySize t \<and>
    gpt_sectorSize t' = gpt_sectorSize t \<and> gpt_diskSizeBytes t' = gpt_diskSizeBytes t0 \<and>
    gpt_protectiveMbr t' = take 512 (protMbr t)"
proof -
  note rd = gpt_primary_reads [OF assms(1-3)]
  have wf: "guid_wf (gpt_diskGuid t)" "92 \<le> unat (gpt_sectorSize t)" "512 \<le> length (protMbr t)"
    using assms(1) by (simp_all add: gpt_serializable_def length_protMbr)
  note hd = primaryHeader_fields [OF wf(1,2)] primaryHeader_crc [OF wf(1,2)]
  have sane: "\<not> gpt_entrySize t < 128" "\<not> 1024 < gpt_entryCount t"
    using assms(1) by (simp_all add: gpt_serializable_def word_less_nat_alt)
  have crc: "arrayCrc32 (entryArray t) (entryArrayBytes t) = Done (crc32 (entryArray t))"
    using length_entryArray [OF assms(1)] by (simp add: arrayCrc32_def)
  let ?t' = "parseEntries (entryArray t) (gpt_readHeader (primaryHeader t)
    (t0\<lparr>gpt_protectiveMbr := take 512 (protMbr t)\<rparr>))"
  have "gpt_parse readFunc t0 = Done (ok, ?t')"
    using rd wf hd sane crc assms(4)
    by (simp add: gpt_parse_def Let_def gpt_readHeader_def flip: entryArrayBytes_def)
  moreover note parseEntries_entryArray [OF assms(1), of "gpt_readHeader (primaryHeader t)
    (t0\<lparr>gpt_protectiveMbr := take 512 (protMbr t)\<rparr>)"]
  ultimately show ?thesis
    using hd assms(4) by (intro exI [of _ ?t']) (simp add: gpt_readHeader_def parseEntries_def)
qed

text \<open>
  A serialized table passes its own checksum validation: the header checksum and the checksum of
  the entry array stored by \<open>serialize\<close> are the ones \<open>validateCrcs\<close> computes.
\<close>

theorem gpt_validateCrcs_serialize:
  assumes "gpt_serializable t" "gpt_serialize t = Done (Inr out)" "gpt_primary_on_disk readFunc t out"
    and "gpt_sectorSize t0 = gpt_sectorSize t"
  shows "gpt_validateCrcs readFunc t0 = Done ok"
proof -
  note rd = gpt_primary_reads [OF assms(1-3)]
  have wf: "guid_wf (gpt_diskGuid t)" "92 \<le> unat (gpt_sectorSize t)"
    using assms(1) by (simp_all add: gpt_serializable_def)
  note hd = primaryHeader_fields [OF wf] primaryHeader_crc [OF wf]
  have "arrayCrc32 (entryArray t) (entryArrayBytes t) = Done (crc32 (entryArray t))"
    using length_entryArray [OF assms(1)] by (simp add: arrayCrc32_def)
  then show ?thesis
    using rd hd wf assms(4) by (simp add: gpt_validateCrcs_def Let_def flip: entryArrayBytes_def)
qed

text \<open>
  The backup copy recovers the partitions: on a disk with a serialized table, \<open>parseBackup\<close> of a
  fresh table of that disk finds the header in the last sector and the same entries in front of it.
\<close>

theorem gpt_parseBackup_serialize:
  assumes "gpt_serializable t" "gpt_serialize t = Done (Inr out)" "gpt_on_disk readFunc t out"
    and "gpt_sectorSize t0 = gpt_sectorSize t" "gpt_diskSizeBytes t0 = gpt_diskSizeBytes t"
    and "gpt_alternateLba t0 = 0 \<or> gpt_alternateLba t0 = gpt_diskSectors t - 1"
  shows "\<exists>t'. gpt_parseBackup readFunc t0 = (ok, t') \<and>
    set (gpt_entries t') = gpt_stored (gpt_sectorSize t) ` set (gpt_entries t) \<and>
    sorted_wrt (<) (map pe_index (gpt_entries t'))"
proof -
  note rd = gpt_backup_reads [OF assms(1-3)]
  have wf: "guid_wf (gpt_diskGuid t)" "92 \<le> unat (gpt_sectorSize t)"
    using assms(1) by (simp_all add: gpt_serializable_def)
  note hd = backupHeader_fields [OF wf]
  let ?t1 = "t0\<lparr>gpt_alternateLba := gpt_diskSectors t - 1, gpt_entryCount := gpt_entryCount t,
    gpt_entrySize := gpt_entrySize t\<rparr>"
  have alt: "(if gpt_alternateLba t0 = 0
       then t0\<lparr>gpt_alternateLba := gpt_diskSizeBytes t0 div ucast (gpt_sectorSize t0) - 1\<rparr> else t0) =
      t0\<lparr>gpt_alternateLba := gpt_diskSectors t - 1\<rparr>"
    using assms(4-6) by (auto simp: gpt_diskSectors_def)
  have "gpt_parseBackup readFunc t0 = (ok, parseEntries (entryArray t) ?t1)"
    unfolding gpt_parseBackup_def alt
    using rd hd wf assms(4) by (simp add: Let_def flip: entryArrayBytes_def)
  with parseEntries_entryArray [OF assms(1), of ?t1] assms(4) show ?thesis by simp
qed

text \<open>
  The serialized form occupies two sectors, twice the entry array rounded up to whole sectors,
  and one more sector; with the default shape that is 67 sectors of 512 bytes.
\<close>

theorem gpt_serialize_length:
  assumes "gpt_serializable t"
  shows "\<exists>out. gpt_serialize t = Done (Inr out) \<and>
    length out = (3 + 2 * unat (entryArraySectors t)) * unat (gpt_sectorSize t)"
  using assms by (simp add: gpt_serialize_ok length_paddedEntries length_protMbr gpt_serializable_def algebra_simps)

text \<open>
  \<open>parse\<close> reads outside the header sector when the size field of a header with a valid signature
  exceeds the sector: the header is copied before the field is checked.
\<close>

theorem gpt_parse_oversized_header:
  assumes "readFunc 0 (gpt_sectorSize t) = Inr sector0"
    and "readFunc (ucast (gpt_sectorSize t)) (gpt_sectorSize t) = Inr hdr"
    and "92 \<le> length hdr" "readLE64 hdr 0 = GPT_HEADER_SIGNATURE" "length hdr < unat (readLE32 hdr 12)"
  shows "gpt_parse readFunc t = Undef"
  using assms by (simp add: gpt_parse_def headerCrc32_def Let_def)

section \<open>Witnesses\<close>

definition sample_gpt_entry :: PartitionEntry where
  "sample_gpt_entry = pe_default\<lparr>pe_index := 0, pe_startLba := 2048, pe_sectorCount := 4096,
     pe_typeGuid := GptTypes_linuxFilesystem, pe_uniqueGuid := Guid (replicate 16 7), pe_gptName := [0x41]\<rparr>"

definition sample_gpt :: GptTable where
  "sample_gpt = gpt_new\<lparr>gpt_diskSizeBytes := 2 ^ 30, gpt_lastUsableLba := 2097118,
     gpt_entries := [sample_gpt_entry]\<rparr>"

definition sample_gpt_disk :: "bytes \<Rightarrow> DiskReadCallback" where
  "sample_gpt_disk out off n = Inr (slice (if off < 2 ^ 20 then unat off
     else if off = 2097151 * 512 then 33792 else 17408) (unat n) out)"

lemma sample_gpt_inv: "gpt_inv sample_gpt"
  by (simp add: gpt_inv_def gpt_entry_ok_def sample_gpt_def sample_gpt_entry_def gpt_new_def entry_range_def
      no_wrap_def)

lemma sample_gpt_layout: "layout_ok (gpt_partitions sample_gpt)"
  by (simp add: layout_ok_def gpt_partitions_def sample_gpt_def)

lemma sample_gpt_serializable: "gpt_serializable sample_gpt"
proof -
  have "gpt_name_ok [0x41]"
    unfolding gpt_name_ok_def by (intro exI [of _ "[0x41]"]) (simp add: utf8_of_unit_def)
  then show ?thesis
    using sample_gpt_inv
    by (simp add: gpt_serializable_def gpt_storable_def sample_gpt_def sample_gpt_entry_def gpt_new_def guid_wf_def)
       (simp add: guid_wf_def [symmetric])
qed

lemma sample_gpt_sectors:
  "entryArrayBytes sample_gpt = 16384" "entryArraySectors sample_gpt = 32" "gpt_diskSectors sample_gpt = 2097152"
  "gpt_sectorSize sample_gpt = 512" "gpt_entries sample_gpt = [sample_gpt_entry]"
  by (simp_all add: entryArrayBytes_def entryArraySectors_def gpt_diskSectors_def sample_gpt_def gpt_new_def)

lemma sample_gpt_primary: "gpt_primary_on_disk (sample_gpt_disk out) sample_gpt out"
  by (simp add: gpt_primary_on_disk_def Let_def sample_gpt_sectors sample_gpt_disk_def)

lemma sample_gpt_on_disk: "gpt_on_disk (sample_gpt_disk out) sample_gpt out"
  using sample_gpt_primary by (simp add: gpt_on_disk_def Let_def sample_gpt_sectors sample_gpt_disk_def)

theorem gpt_edits_layout_witness:
  "layout_ok (gpt_partitions (run_edits gpt_addPartition gpt_deletePartition gpt_resizePartition
     [CallAdd (\<lambda>i. 3) (pp_default\<lparr>pp_startLba := 10000, pp_sectorCount := 100\<rparr>),
      CallResize 0 2048 5000, CallDelete 1] sample_gpt))"
  using gpt_edits_layout [OF sample_gpt_inv sample_gpt_layout, of
      "[CallAdd (\<lambda>i. 3) (pp_default\<lparr>pp_startLba := 10000, pp_sectorCount := 100\<rparr>),
        CallResize 0 2048 5000, CallDelete 1]"]
  by (simp add: no_wrap_def)


theorem gpt_add_wraps_witness:
  "\<exists>t'. gpt_addPartition (\<lambda>i. 0) (pp_default\<lparr>pp_startLba := 18446744073709551606, pp_sectorCount := 1000\<rparr>)
      (gpt_new\<lparr>gpt_lastUsableLba := 2097118\<rparr>) = (ok, t') \<and>
    (\<exists>x \<in> extent (entry_range (gpt_entries t' ! 0)). unat (gpt_lastUsableLba t') < x)"
  by (rule gpt_add_wraps) (simp_all add: gpt_new_def)

theorem gpt_validateCrcs_serialize_witness:
  "\<exists>out. gpt_serialize sample_gpt = Done (Inr out) \<and>
     gpt_validateCrcs (sample_gpt_disk out) gpt_new = Done ok"
proof -
  obtain out where out: "gpt_serialize sample_gpt = Done (Inr out)"
    using gpt_serialize_ok [OF sample_gpt_serializable] by blast
  have "gpt_sectorSize gpt_new = gpt_sectorSize sample_gpt" by (simp add: sample_gpt_def)
  from gpt_validateCrcs_serialize [OF sample_gpt_serializable out sample_gpt_primary this] out
  show ?thesis by blast
qed

theorem gpt_parseBackup_serialize_witness:
  "\<exists>out t'. gpt_serialize sample_gpt = Done (Inr out) \<and>
     gpt_parseBackup (sample_gpt_disk out) (gpt_new\<lparr>gpt_diskSizeBytes := 2 ^ 30\<rparr>) = (ok, t') \<and>
     set (gpt_entries t') = {gpt_stored 512 sample_gpt_entry}"
proof -
  obtain out where out: "gpt_serialize sample_gpt = Done (Inr out)"
    using gpt_serialize_ok [OF sample_gpt_serializable] by blast
  have "gpt_sectorSize (gpt_new\<lparr>gpt_diskSizeBytes := 2 ^ 30\<rparr>) = gpt_sectorSize sample_gpt"
    "gpt_diskSizeBytes (gpt_new\<lparr>gpt_diskSizeBytes := 2 ^ 30\<rparr>) = gpt_diskSizeBytes sample_gpt"
    "gpt_alternateLba (gpt_new\<lparr>gpt_diskSizeBytes := 2 ^ 30\<rparr>) = 0 \<or>
      gpt_alternateLba (gpt_new\<lparr>gpt_diskSizeBytes := 2 ^ 30\<rparr>) = gpt_diskSectors sample_gpt - 1"
    by (simp_all add: sample_gpt_def gpt_new_def)
  from gpt_parseBackup_serialize [OF sample_gpt_serializable out sample_gpt_on_disk this] out show ?thesis
    by (auto simp: sample_gpt_sectors)
qed

theorem gpt_serialize_length_witness:
  "\<exists>out. gpt_serialize sample_gpt = Done (Inr out) \<and> length out = 67 * 512"
  using gpt_serialize_length [OF sample_gpt_serializable] by (simp add: sample_gpt_sectors)

theorem gpt_parse_oversized_header_witness:
  "gpt_parse (\<lambda>off n. Inr (writeLE32 (writeLE64 (replicate 512 0) 0 GPT_HEADER_SIGNATURE) 12 513)) gpt_new = Undef"
proof -
  let ?h = "writeLE32 (writeLE64 (replicate 512 0) 0 GPT_HEADER_SIGNATURE) 12 513"
  have "readLE64 ?h 0 = GPT_HEADER_SIGNATURE" "readLE32 ?h 12 = 513" "length ?h = 512"
    by (simp_all add: le32.rd_wr mixed_reads le64.rd_wr)
  then show ?thesis by (intro gpt_parse_oversized_header [of _ _ ?h ?h]) simp_all
qed

end
