(* ===== verification/Apm_Table.thy ===== *)
theory Apm_Table
  imports Disk_Geometry Partition_Types
begin

text \<open>
  \<open>ApmPartitionTable\<close> of \<open>src/core/disk/PartitionTable.cpp\<close>: the Apple partition map, which the
  program reads and never changes.
\<close>

section \<open>State and parsing\<close>

record ApmTable =
  apm_diskSizeBytes :: u64
  apm_sectorSize :: u32
  apm_blockSize :: u32
  apm_blockCount :: u32
  apm_entries :: "PartitionEntry list"

definition apm_new :: ApmTable where
  "apm_new = \<lparr>apm_diskSizeBytes = 0, apm_sectorSize = SECTOR_SIZE_512, apm_blockSize = 512,
     apm_blockCount = 0, apm_entries = []\<rparr>"

definition apm_partitions :: "ApmTable \<Rightarrow> PartitionEntry list" where
  "apm_partitions t = apm_entries t"

text \<open>A C string in a field of 32 bytes, copied to a zeroed buffer of 33.\<close>

definition apmString :: "bytes \<Rightarrow> nat \<Rightarrow> bytes" where
  "apmString entryData off = takeWhile (\<lambda>c. c \<noteq> 0) (slice off 32 entryData @ [0])"

definition apmEntry :: "u32 \<Rightarrow> nat \<Rightarrow> bytes \<Rightarrow> PartitionEntry" where
  "apmEntry blockSize i entryData =
     pe_default\<lparr>
       pe_index := int i,
       pe_sectorSize := blockSize,
       pe_startLba := ucast (readBE32 entryData 8),
       pe_sectorCount := ucast (readBE32 entryData 12),
       pe_apmName := apmString entryData 16,
       pe_apmType := apmString entryData 48,
       pe_label := apmString entryData 16\<rparr>"

text \<open>The loop over the map: \<open>n\<close> entries are left, the next one is \<open>i\<close>.\<close>

fun apmLoop :: "DiskReadCallback \<Rightarrow> u32 \<Rightarrow> nat \<Rightarrow> nat \<Rightarrow> PartitionEntry list" where
  "apmLoop readFunc blockSize i 0 = []"
| "apmLoop readFunc blockSize i (Suc n) =
     (case readFunc (of_nat (i + 1) * ucast blockSize) blockSize of
        Inl e \<Rightarrow> []
      | Inr entryData \<Rightarrow>
          if length entryData < 512 then []
          else if readBE16 entryData 0 \<noteq> APM_SIGNATURE then []
          else apmEntry blockSize i entryData # apmLoop readFunc blockSize (i + 1) n)"

definition apm_parse :: "DiskReadCallback \<Rightarrow> ApmTable \<Rightarrow> unit Result \<times> ApmTable" where
  "apm_parse readFunc t =
     (case readFunc 0 512 of
        Inl e \<Rightarrow> (Inl e, t)
      | Inr block0 \<Rightarrow>
          if length block0 < 512 then
            (fail PartitionTableCorrupt ''APM block 0 too small'', t)
          else if readBE16 block0 0 \<noteq> APM_DDM_SIGNATURE then
            (fail PartitionTableCorrupt ''Invalid APM Driver Descriptor Map signature'', t)
          else
            (let reported = ucast (readBE16 block0 2) :: u32;
                 blockSize = (if reported = 0 \<or> reported > 65536 then 512 else reported);
                 t = t\<lparr>apm_blockSize := blockSize, apm_blockCount := readBE32 block0 4\<rparr>
             in case readFunc (ucast blockSize) blockSize of
                  Inl e \<Rightarrow> (Inl e, t)
                | Inr entry1 \<Rightarrow>
                    if length entry1 < 512 then
                      (fail PartitionTableCorrupt ''APM partition entry too small'', t)
                    else if readBE16 entry1 0 \<noteq> APM_SIGNATURE then
                      (fail PartitionTableCorrupt ''Invalid APM partition map signature'', t)
                    else
                      (let reportedCount = readBE32 entry1 4;
                           mapEntryCount = (if reportedCount > 256 then 256 else reportedCount)
                       in (ok, t\<lparr>apm_entries := apmLoop readFunc blockSize 0 (unat mapEntryCount)\<rparr>))))"

section \<open>The read-only interface\<close>

definition apm_addPartition :: "PartitionParams \<Rightarrow> ApmTable \<Rightarrow> unit Result \<times> ApmTable" where
  "apm_addPartition p t =
     (fail NotImplemented ''APM partition modification is not supported (read-only)'', t)"

definition apm_deletePartition :: "int \<Rightarrow> ApmTable \<Rightarrow> unit Result \<times> ApmTable" where
  "apm_deletePartition index t =
     (fail NotImplemented ''APM partition modification is not supported (read-only)'', t)"

definition apm_resizePartition :: "int \<Rightarrow> u64 \<Rightarrow> u64 \<Rightarrow> ApmTable \<Rightarrow> unit Result \<times> ApmTable" where
  "apm_resizePartition index newStart newSize t =
     (fail NotImplemented ''APM partition modification is not supported (read-only)'', t)"

definition apm_serialize :: "ApmTable \<Rightarrow> bytes Result" where
  "apm_serialize t = fail NotImplemented ''APM serialization is not supported (read-only)''"

interpretation apm: partition_table apm_partitions "\<lambda>rnd. apm_addPartition" apm_deletePartition
  apm_resizePartition "\<lambda>t. True" "\<lambda>r. True"
  by unfold_locales (auto simp: apm_addPartition_def apm_deletePartition_def apm_resizePartition_def)

section \<open>What parsing yields\<close>

lemma apmLoop_length: "length (apmLoop readFunc bs i n) \<le> n"
  by (induction readFunc bs i n rule: apmLoop.induct) (auto split: sum.splits)

lemma apmLoop_indices: "map pe_index (apmLoop readFunc bs i n) = map int [i..<i + length (apmLoop readFunc bs i n)]"
  by (induction readFunc bs i n rule: apmLoop.induct)
    (auto simp: apmEntry_def upt_conv_Cons split: sum.splits simp del: upt_Suc)

lemma takeWhile_not_zero: "0 \<notin> set (takeWhile (\<lambda>c. c \<noteq> 0) xs)"
  by (auto dest: set_takeWhileD)

lemma apmString_bounds: "length (apmString d off) \<le> 32" "0 \<notin> set (apmString d off)"
proof -
  have "length (takeWhile (\<lambda>c. c \<noteq> 0) (slice off 32 d @ [0])) \<le> length (slice off 32 d)"
    by (simp add: takeWhile_append length_takeWhile_le)
  then show "length (apmString d off) \<le> 32" by (simp add: apmString_def slice_def)
  show "0 \<notin> set (apmString d off)" unfolding apmString_def by (rule takeWhile_not_zero)
qed

lemma apmLoop_names:
  "list_all (\<lambda>e. length (pe_apmName e) \<le> 32 \<and> 0 \<notin> set (pe_apmName e) \<and> pe_label e = pe_apmName e \<and>
     unat (pe_startLba e) < 2 ^ 32 \<and> unat (pe_sectorCount e) < 2 ^ 32) (apmLoop readFunc bs i n)"
proof (induction readFunc bs i n rule: apmLoop.induct)
  case (2 readFunc bs i n)
  have "unat (ucast (w :: u32) :: u64) < 2 ^ 32" for w
  proof -
    have "unat w < 2 ^ LENGTH(32)" by (rule unsigned_less)
    then show ?thesis by (simp add: unat_ucast_up)
  qed
  with 2 show ?case by (auto simp: apmEntry_def apmString_bounds split: sum.splits)
qed simp

text \<open>
  Whatever the disk holds, parsing an Apple partition map returns; on success there are at most
  256 entries, numbered from 0, whose names are C strings of at most 32 bytes and whose ranges fit
  32 bits.
\<close>

theorem apm_parse_entries:
  assumes "apm_parse readFunc t = (ok, t')"
  shows "length (apm_entries t') \<le> 256 \<and>
    map pe_index (apm_entries t') = map int [0..<length (apm_entries t')] \<and>
    list_all (\<lambda>e. length (pe_apmName e) \<le> 32 \<and> 0 \<notin> set (pe_apmName e) \<and> pe_label e = pe_apmName e \<and>
      unat (pe_startLba e) < 2 ^ 32 \<and> unat (pe_sectorCount e) < 2 ^ 32) (apm_entries t')"
proof -
  from assms obtain bs n where es: "apm_entries t' = apmLoop readFunc bs 0 n" and "n \<le> 256"
    by (auto simp: apm_parse_def Let_def word_less_nat_alt split: sum.splits if_splits)
  with apmLoop_length [of readFunc bs 0 n] apmLoop_indices [of readFunc bs 0 n] apmLoop_names
  show ?thesis by simp
qed

definition sample_apm_disk :: DiskReadCallback where
  "sample_apm_disk off n = Inr (if off = 0 then [0x45, 0x52, 2, 0] @ replicate 508 0
     else [0x50, 0x4D, 0, 0, 0, 0, 0, 1] @ replicate 8 0 @ [0x61, 0x62] @ replicate 494 0)"

theorem apm_parse_entries_witness:
  "\<exists>t'. apm_parse sample_apm_disk apm_new = (ok, t') \<and>
     length (apm_entries t') \<le> 256 \<and> map pe_apmName (apm_entries t') = [[0x61, 0x62]]"
proof -
  obtain t' where t': "apm_parse sample_apm_disk apm_new = (ok, t')" "map pe_apmName (apm_entries t') = [[0x61, 0x62]]"
    by (simp add: apm_parse_def Let_def readBE16_def readBE32_def apmEntry_def apmString_def slice_def
        sample_apm_disk_def)
  with apm_parse_entries [OF t'(1)] show ?thesis by auto
qed

end
