(* ===== verification/Partition_Table.thy ===== *)
theory Partition_Table
  imports Gpt_Table Apm_Table
begin

text \<open>
  The abstract class \<open>PartitionTable\<close> of \<open>src/core/disk/PartitionTable.h\<close>: a table of one of the
  three formats, the factory functions \<open>parse\<close>, which detects the format, and \<open>createNew\<close>, and the
  virtual methods, which dispatch on the format.
\<close>

section \<open>Tables and their methods\<close>

datatype PartitionTable = MbrPT MbrTable | GptPT GptTable | ApmPT ApmTable

fun pt_type :: "PartitionTable \<Rightarrow> PartitionTableType" where
  "pt_type (MbrPT t) = MBR"
| "pt_type (GptPT t) = GPT"
| "pt_type (ApmPT t) = APM"

fun pt_partitions :: "PartitionTable \<Rightarrow> PartitionEntry list" where
  "pt_partitions (MbrPT t) = mbr_partitions t"
| "pt_partitions (GptPT t) = gpt_partitions t"
| "pt_partitions (ApmPT t) = apm_partitions t"

fun pt_addPartition :: "(nat \<Rightarrow> u8) \<Rightarrow> PartitionParams \<Rightarrow> PartitionTable \<Rightarrow> unit Result \<times> PartitionTable" where
  "pt_addPartition rnd p (MbrPT t) = map_prod id MbrPT (mbr_addPartition p t)"
| "pt_addPartition rnd p (GptPT t) = map_prod id GptPT (gpt_addPartition rnd p t)"
| "pt_addPartition rnd p (ApmPT t) = map_prod id ApmPT (apm_addPartition p t)"

fun pt_deletePartition :: "int \<Rightarrow> PartitionTable \<Rightarrow> unit Result \<times> PartitionTable" where
  "pt_deletePartition index (MbrPT t) = map_prod id MbrPT (mbr_deletePartition index t)"
| "pt_deletePartition index (GptPT t) = map_prod id GptPT (gpt_deletePartition index t)"
| "pt_deletePartition index (ApmPT t) = map_prod id ApmPT (apm_deletePartition index t)"

fun pt_resizePartition :: "int \<Rightarrow> u64 \<Rightarrow> u64 \<Rightarrow> PartitionTable \<Rightarrow> unit Result \<times> PartitionTable" where
  "pt_resizePartition index s n (MbrPT t) = map_prod id MbrPT (mbr_resizePartition index s n t)"
| "pt_resizePartition index s n (GptPT t) = map_prod id GptPT (gpt_resizePartition index s n t)"
| "pt_resizePartition index s n (ApmPT t) = map_prod id ApmPT (apm_resizePartition index s n t)"

fun pt_serialize :: "PartitionTable \<Rightarrow> bytes Result run" where
  "pt_serialize (MbrPT t) = Done (mbr_serialize t)"
| "pt_serialize (GptPT t) = gpt_serialize t"
| "pt_serialize (ApmPT t) = Done (apm_serialize t)"

section \<open>The factory\<close>

definition pt_parse :: "DiskReadCallback \<Rightarrow> u64 \<Rightarrow> u32 \<Rightarrow> PartitionTable Result run" where
  "pt_parse readFunc diskSizeBytes sectorSize =
     (case readFunc 0 sectorSize of
        Inl e \<Rightarrow> Done (Inl e)
      | Inr sector0 \<Rightarrow>
          if length sector0 < 512 then Done (fail PartitionTableCorrupt ''Sector 0 too small'')
          else if readBE16 sector0 0 = APM_DDM_SIGNATURE then
            (case apm_parse readFunc (apm_new\<lparr>apm_diskSizeBytes := diskSizeBytes, apm_sectorSize := sectorSize\<rparr>) of
               (Inl e, apm) \<Rightarrow> Done (Inl e)
             | (Inr _, apm) \<Rightarrow> Done (Inr (ApmPT apm)))
          else if readLE16 sector0 510 \<noteq> MBR_SIGNATURE then
            Done (fail PartitionTableCorrupt
              ''No valid partition table signature (expected 0xAA55 at offset 510)'')
          else
            run_bind (mbr_parse readFunc (mbr_new\<lparr>mbr_diskSizeBytes := diskSizeBytes, mbr_sectorSize := sectorSize\<rparr>))
              (\<lambda>(mbrParseResult, mbr).
                case mbrParseResult of
                  Inl e \<Rightarrow> Done (Inl e)
                | Inr _ \<Rightarrow>
                    if hasGptProtective mbr then
                      run_bind (gpt_parse readFunc
                          (gpt_new\<lparr>gpt_diskSizeBytes := diskSizeBytes, gpt_sectorSize := sectorSize\<rparr>))
                        (\<lambda>(gptParseResult, gpt).
                          if isError gptParseResult then Done (Inr (MbrPT mbr)) else Done (Inr (GptPT gpt)))
                    else Done (Inr (MbrPT mbr))))"

fun pt_createNew :: "(nat \<Rightarrow> u8) \<Rightarrow> PartitionTableType \<Rightarrow> u64 \<Rightarrow> u32 \<Rightarrow> Guid \<Rightarrow> PartitionTable option" where
  "pt_createNew rnd MBR diskSizeBytes sectorSize diskGuid =
     Some (MbrPT (mbr_new\<lparr>mbr_diskSizeBytes := diskSizeBytes, mbr_sectorSize := sectorSize\<rparr>))"
| "pt_createNew rnd GPT diskSizeBytes sectorSize diskGuid =
     Some (GptPT (gpt_new\<lparr>gpt_diskSizeBytes := diskSizeBytes, gpt_sectorSize := sectorSize,
       gpt_diskGuid := if guid_isZero diskGuid then generate rnd else diskGuid\<rparr>))"
| "pt_createNew rnd APM diskSizeBytes sectorSize diskGuid =
     Some (ApmPT (apm_new\<lparr>apm_diskSizeBytes := diskSizeBytes, apm_sectorSize := sectorSize\<rparr>))"
| "pt_createNew rnd UnknownTable diskSizeBytes sectorSize diskGuid = None"

section \<open>The table interface\<close>

fun pt_inv :: "PartitionTable \<Rightarrow> bool" where
  "pt_inv (MbrPT t) = mbr_inv t"
| "pt_inv (GptPT t) = gpt_inv t"
| "pt_inv (ApmPT t) = distinct (map pe_index (apm_partitions t))"

lemma map_prod_id_eq: "map_prod id f x = (r, y) \<longleftrightarrow> (\<exists>t. x = (r, t) \<and> y = f t)"
  by (cases x) auto

text \<open>Each method keeps the format, and its laws are those of the format.\<close>

interpretation pt: partition_table pt_partitions pt_addPartition pt_deletePartition pt_resizePartition
  pt_inv no_wrap
proof (unfold_locales, goal_cases)
  case (1 t p rnd u t')
  then show ?case
    by (cases t) (auto simp: map_prod_id_eq apm_addPartition_def dest: mbr.add_ok gpt.add_ok)
next
  case (2 rnd p t err t')
  then show ?case
    by (cases t) (auto simp: map_prod_id_eq dest: mbr.add_err gpt.add_err apm.add_err)
next
  case (3 t i u t')
  then show ?case
    by (cases t) (auto simp: map_prod_id_eq apm_deletePartition_def dest: mbr.del_ok gpt.del_ok)
next
  case (4 i t err t')
  then show ?case
    by (cases t) (auto simp: map_prod_id_eq dest: mbr.del_err gpt.del_err apm.del_err)
next
  case (5 t s n i u t')
  then show ?case
    by (cases t) (auto simp: map_prod_id_eq apm_resizePartition_def dest: mbr.rsz_ok gpt.rsz_ok)
next
  case (6 i s n t err t')
  then show ?case
    by (cases t) (auto simp: map_prod_id_eq dest: mbr.rsz_err gpt.rsz_err apm.rsz_err)
next
  case (7 t e)
  then show ?case
    by (cases t; cases e)
      (simp_all add: table_inv apm_addPartition_def apm_deletePartition_def apm_resizePartition_def)
qed

lemma pt_inv_createNew:
  "pt_createNew rnd ty size' ss g = Some t \<Longrightarrow> pt_inv t \<and> pt_partitions t = []"
  by (cases "(rnd, ty, size', ss, g)" rule: pt_createNew.cases)
    (auto simp: mbr_inv_def gpt_inv_def mbr_partitions_def gpt_partitions_def apm_partitions_def
      mbr_new_def gpt_new_def apm_new_def)

lemma pt_inv_numbering:
  "pt_inv t \<Longrightarrow> distinct (map pe_index (pt_partitions t))"
  by (cases t) (auto simp: mbr_inv_def gpt_inv_def mbr_partitions_def gpt_partitions_def distinct_map inj_on_def)


text \<open>
  C16. An edit that is refused, for whatever reason and in whatever format, leaves the list of
  partitions exactly as it was.
\<close>

theorem refused_edit_unchanged:
  assumes "run_edit pt_addPartition pt_deletePartition pt_resizePartition e t = (Inl err, t')"
  shows "pt_partitions t' = pt_partitions t"
  using assms by (rule pt.failed_edit_unchanged)

section \<open>Detection of the format\<close>

lemma readBE16_cong: "buf ! off = buf' ! off \<Longrightarrow> buf ! (off + 1) = buf' ! (off + 1) \<Longrightarrow> readBE16 buf off = readBE16 buf' off"
  by (simp add: readBE16_def)

lemma mbrSector_boot_bytes:
  assumes "440 \<le> length (mbr_bootCode t)" "i < 440"
  shows "mbrSector t ! i = mbr_bootCode t ! i"
  using mbrSector_header(4) [OF assms(1)] assms(2) by (metis nth_take)


lemma protMbr_bytes:
  assumes "length (gpt_protectiveMbr t) = 512" "512 \<le> unat (gpt_sectorSize t)"
  shows "i < 446 \<Longrightarrow> protMbr t ! i = gpt_protectiveMbr t ! i"
    "protMbr t ! 450 = MbrTypes_GPT_Protective" "462 \<le> i \<Longrightarrow> i < 510 \<Longrightarrow> protMbr t ! i = 0"
    "readLE16 (protMbr t) 510 = 0xAA55"
  using assms by (auto simp: protMbr_def Let_def le16.wr_frame le32.wr_frame encodeCHS_frame nth_blit le16.rd_wr)

lemma parsePrimaries_protMbr:
  assumes "length (gpt_protectiveMbr t) = 512" "512 \<le> unat (gpt_sectorSize t)"
  shows "\<exists>e. parsePrimaries ss (take 512 (protMbr t)) = [e] \<and> pe_mbrType e = MbrTypes_GPT_Protective \<and> \<not> pe_isExtended e"
proof -
  let ?p = "take 512 (protMbr t)"
  note b = protMbr_bytes [OF assms]
  obtain e where e: "parsePrimary ss ?p 0 = Some e" "pe_mbrType e = MbrTypes_GPT_Protective" "\<not> pe_isExtended e"
    using b(2) by (auto simp: parsePrimary_def Let_def isExtendedType_def)
  have "parsePrimary ss ?p i = None" if "1 \<le> i" "i < 4" for i
    using that b(3) by (auto simp: parsePrimary_def Let_def readLE32_def)
  then have "parsePrimary ss ?p i = (if i < 1 then Some e else None)" if "i < 4" for i
    using e(1) that by (cases "i = 0") auto
  then have "parsePrimaries ss ?p = [e]"
    unfolding parsePrimaries_def using map_filter_prefix [of 1 4 "parsePrimary ss ?p" "\<lambda>i. e"] by simp
  with e show ?thesis by blast
qed

text \<open>The MBR parser on a protective MBR: one entry, of the protective type, and no chain to walk.\<close>

lemma mbr_parse_protMbr:
  assumes "length (gpt_protectiveMbr t) = 512" "512 \<le> unat (gpt_sectorSize t)"
    and "readFunc 0 512 = Inr (take 512 (protMbr t))"
  shows "\<exists>mbr e. mbr_parse readFunc t0 = Done (ok, mbr) \<and> mbr_entries mbr = [e] \<and>
    pe_mbrType e = MbrTypes_GPT_Protective"
proof -
  have "512 \<le> length (protMbr t)" using assms(1,2) by (simp add: length_protMbr)
  moreover have "readLE16 (take 512 (protMbr t)) 510 = 0xAA55"
    using protMbr_bytes(4) [OF assms(1,2)] le16.rd_cong [of 510 "take 512 (protMbr t)" "protMbr t"] by simp
  moreover obtain e where "parsePrimaries (mbr_sectorSize t0) (take 512 (protMbr t)) = [e]"
    "pe_mbrType e = MbrTypes_GPT_Protective" "\<not> pe_isExtended e"
    using parsePrimaries_protMbr [OF assms(1,2)] by blast
  ultimately show ?thesis using assms(3) by (simp add: mbr_parse_def Let_def)
qed

text \<open>The factory on a disk whose first sectors hold a serialized GPT table.\<close>

lemma pt_parse_primary_gpt:
  assumes "gpt_serializable t" "gpt_serialize t = Done (Inr out)" "gpt_primary_on_disk readFunc t out"
    and "readFunc 0 512 = Inr (slice 0 512 out)"
    and "readBE16 (gpt_protectiveMbr t) 0 \<noteq> APM_DDM_SIGNATURE"
  shows "\<exists>t'. pt_parse readFunc diskSize (gpt_sectorSize t) = Done (Inr (GptPT t')) \<and>
    set (gpt_entries t') = gpt_stored (gpt_sectorSize t) ` set (gpt_entries t) \<and>
    sorted_wrt (<) (map pe_index (gpt_entries t')) \<and>
    gpt_diskGuid t' = gpt_diskGuid t \<and> gpt_revision t' = gpt_revision t \<and>
    gpt_firstUsableLba t' = gpt_firstUsableLba t \<and> gpt_lastUsableLba t' = gpt_lastLba t \<and>
    gpt_alternateLba t' = gpt_diskSectors t - 1 \<and>
    gpt_entryCount t' = gpt_entryCount t \<and> gpt_entrySize t' = gpt_entrySize t \<and>
    gpt_sectorSize t' = gpt_sectorSize t \<and> gpt_diskSizeBytes t' = diskSize \<and>
    gpt_protectiveMbr t' = take 512 (protMbr t)"
proof -
  let ?g0 = "gpt_new\<lparr>gpt_diskSizeBytes := diskSize, gpt_sectorSize := gpt_sectorSize t\<rparr>"
  let ?m0 = "mbr_new\<lparr>mbr_diskSizeBytes := diskSize, mbr_sectorSize := gpt_sectorSize t\<rparr>"
  have wf: "length (gpt_protectiveMbr t) = 512" "512 \<le> unat (gpt_sectorSize t)" "512 \<le> length (protMbr t)"
    using assms(1) by (simp_all add: gpt_serializable_def length_protMbr)
  note b = protMbr_bytes [OF wf(1,2)] and rd = gpt_primary_reads [OF assms(1-3)]
  have "out = protMbr t @ drop (length (protMbr t)) out" using assms(1,2) by (auto simp: gpt_serialize_ok)
  then have raw: "readFunc 0 512 = Inr (take 512 (protMbr t))"
    using assms(4) wf(3) by (metis slice_append_left slice_def add_0 drop0)
  have apm: "readBE16 (protMbr t) 0 = readBE16 (gpt_protectiveMbr t) 0" by (rule readBE16_cong) (simp_all add: b)
  obtain mbr where mbr: "mbr_parse readFunc ?m0 = Done (ok, mbr)" "hasGptProtective mbr"
    using mbr_parse_protMbr [of t readFunc ?m0, OF wf(1,2) raw] by (auto simp: hasGptProtective_def)
  obtain t' where t': "gpt_parse readFunc ?g0 = Done (ok, t')"
    "set (gpt_entries t') = gpt_stored (gpt_sectorSize t) ` set (gpt_entries t) \<and>
    sorted_wrt (<) (map pe_index (gpt_entries t')) \<and>
    gpt_diskGuid t' = gpt_diskGuid t \<and> gpt_revision t' = gpt_revision t \<and>
    gpt_firstUsableLba t' = gpt_firstUsableLba t \<and> gpt_lastUsableLba t' = gpt_lastLba t \<and>
    gpt_alternateLba t' = gpt_diskSectors t - 1 \<and>
    gpt_entryCount t' = gpt_entryCount t \<and> gpt_entrySize t' = gpt_entrySize t \<and>
    gpt_sectorSize t' = gpt_sectorSize t \<and> gpt_diskSizeBytes t' = diskSize \<and>
    gpt_protectiveMbr t' = take 512 (protMbr t)"
    using gpt_parse_serialize [OF assms(1-3), of ?g0] by auto
  have "pt_parse readFunc diskSize (gpt_sectorSize t) = Done (Inr (GptPT t'))"
    using rd(1) wf(3) apm assms(5) b(4) mbr t'(1) by (simp add: pt_parse_def)
  with t'(2) show ?thesis by blast
qed

text \<open>
  C2. A serialized GPT table is recognised by its protective MBR and read back as such: disk GUID,
  usable range, array shape, and all partitions with their slot, range, GUIDs, attributes and name,
  in slot order.
\<close>

theorem pt_parse_serialized_gpt:
  assumes "gpt_serializable t" "gpt_serialize t = Done (Inr out)" "gpt_primary_on_disk readFunc t out"
    and "readFunc 0 512 = Inr (slice 0 512 out)"
    and "readBE16 (gpt_protectiveMbr t) 0 \<noteq> APM_DDM_SIGNATURE"
  shows "\<exists>t'. pt_parse readFunc diskSize (gpt_sectorSize t) = Done (Inr (GptPT t')) \<and>
    set (gpt_entries t') = gpt_stored (gpt_sectorSize t) ` set (gpt_entries t) \<and>
    sorted_wrt (<) (map pe_index (gpt_entries t')) \<and>
    gpt_diskGuid t' = gpt_diskGuid t \<and> gpt_revision t' = gpt_revision t \<and>
    gpt_firstUsableLba t' = gpt_firstUsableLba t \<and> gpt_lastUsableLba t' = gpt_lastLba t \<and>
    gpt_alternateLba t' = gpt_diskSectors t - 1 \<and>
    gpt_entryCount t' = gpt_entryCount t \<and> gpt_entrySize t' = gpt_entrySize t"
  using pt_parse_primary_gpt [OF assms, of diskSize] by blast

text \<open>
  When the signature of the primary GPT header is damaged, the factory shows the disk as an MBR
  table with the single protective entry; the backup header is not consulted.
\<close>

theorem pt_parse_damaged_gpt:
  assumes "length (gpt_protectiveMbr t) = 512" "512 \<le> unat (gpt_sectorSize t)"
    and "readFunc 0 512 = Inr (take 512 (protMbr t))" "readFunc 0 (gpt_sectorSize t) = Inr (protMbr t)"
    and "readBE16 (gpt_protectiveMbr t) 0 \<noteq> APM_DDM_SIGNATURE"
    and "readFunc (ucast (gpt_sectorSize t)) (gpt_sectorSize t) = Inr hdr" "readLE64 hdr 0 \<noteq> GPT_HEADER_SIGNATURE"
  shows "\<exists>mbr e. pt_parse readFunc diskSize (gpt_sectorSize t) = Done (Inr (MbrPT mbr)) \<and>
    mbr_entries mbr = [e] \<and> pe_mbrType e = MbrTypes_GPT_Protective"
proof -
  let ?g0 = "gpt_new\<lparr>gpt_diskSizeBytes := diskSize, gpt_sectorSize := gpt_sectorSize t\<rparr>"
  let ?m0 = "mbr_new\<lparr>mbr_diskSizeBytes := diskSize, mbr_sectorSize := gpt_sectorSize t\<rparr>"
  note b = protMbr_bytes [OF assms(1,2)]
  have len: "512 \<le> length (protMbr t)" using assms(1,2) by (simp add: length_protMbr)
  have apm: "readBE16 (protMbr t) 0 = readBE16 (gpt_protectiveMbr t) 0" by (rule readBE16_cong) (simp_all add: b)
  obtain mbr e where mbr: "mbr_parse readFunc ?m0 = Done (ok, mbr)" "mbr_entries mbr = [e]"
    "pe_mbrType e = MbrTypes_GPT_Protective"
    using mbr_parse_protMbr [of t readFunc ?m0, OF assms(1-3)] by blast
  obtain err g where "gpt_parse readFunc ?g0 = Done (Inl err, g)"
    using assms(4,6,7) len by (cases "length hdr < 92") (simp_all add: gpt_parse_def Let_def)
  then have "pt_parse readFunc diskSize (gpt_sectorSize t) = Done (Inr (MbrPT mbr))"
    using assms(4,5) len apm b(4) mbr by (simp add: pt_parse_def hasGptProtective_def)
  with mbr show ?thesis by blast
qed

section \<open>Witnesses\<close>


theorem refused_edit_unchanged_witness:
  "\<exists>err t'. run_edit pt_addPartition pt_deletePartition pt_resizePartition (CallResize 7 0 1)
      (MbrPT sample_mbr) = (Inl err, t') \<and> pt_partitions t' = pt_partitions (MbrPT sample_mbr)"
proof -
  obtain err t' where r: "run_edit pt_addPartition pt_deletePartition pt_resizePartition (CallResize 7 0 1)
      (MbrPT sample_mbr) = (Inl err, t')"
    by (simp add: mbr_resizePartition_def sample_mbr_def sample_entry_def)
  with refused_edit_unchanged [OF r] show ?thesis by blast
qed


theorem pt_parse_serialized_gpt_witness:
  "\<exists>out t'. gpt_serialize sample_gpt = Done (Inr out) \<and>
     pt_parse (sample_gpt_disk out) (2 ^ 30) 512 = Done (Inr (GptPT t')) \<and>
     set (gpt_entries t') = {gpt_stored 512 sample_gpt_entry}"
proof -
  obtain out where out: "gpt_serialize sample_gpt = Done (Inr out)"
    using gpt_serialize_ok [OF sample_gpt_serializable] by blast
  have "sample_gpt_disk out 0 512 = Inr (slice 0 512 out)"
    "readBE16 (gpt_protectiveMbr sample_gpt) 0 \<noteq> 0x4552"
    by (simp_all add: sample_gpt_disk_def sample_gpt_def gpt_new_def readBE16_def)
  from pt_parse_serialized_gpt [OF sample_gpt_serializable out sample_gpt_primary this, of "2 ^ 30"] out
  show ?thesis by (auto simp: sample_gpt_sectors)
qed

theorem pt_parse_damaged_gpt_witness:
  "\<exists>mbr e. pt_parse (\<lambda>off n. Inr (if off = 0 then protMbr gpt_new else replicate 512 0)) (2 ^ 30) 512 =
     Done (Inr (MbrPT mbr)) \<and> mbr_entries mbr = [e] \<and> pe_mbrType e = 0xEE"
proof -
  have "length (protMbr gpt_new) = 512" by (simp add: length_protMbr gpt_new_def)
  then show ?thesis
    using pt_parse_damaged_gpt [of gpt_new "\<lambda>off n. Inr (if off = 0 then protMbr gpt_new else replicate 512 0)"
        "replicate 512 0" "2 ^ 30"]
    by (simp add: gpt_new_def readBE16_def readLE64_def readLE32_def)
qed

end
