(* ===== verification/Operation_Queue.thy ===== *)
theory Operation_Queue
  imports Common_Types "HOL-Library.Signed_Division"
begin

text \<open>
  \<open>src/core/operations/Operation.h\<close> and \<open>OperationQueue.cpp\<close>: operations with their life cycle, the
  queue that applies them in order, the signals it emits and the undo of the last operation.

  An operation is a body of a class with virtual methods; the methods are an argument, so that
  the queue is verified for every class. A body's \<open>execute\<close> changes the body and the outside world
  \<open>'w\<close>, and reports progress. Another thread may call \<open>requestCancel\<close> while \<open>applyAll\<close> runs:
  \<open>cancel i\<close> says that a request arrives after the test of the flag for operation \<open>i - 1\<close> and before
  the one for operation \<open>i\<close>, or before the end of the loop.
  The queue itself is not used by another thread during \<open>applyAll\<close>.
\<close>

section \<open>Operations\<close>

datatype (plugins only: code) OperationType =
    CreatePartition | DeletePartition | ResizePartition | MovePartition | FormatPartition | SetLabel
  | SetFlags | Clone | CreateImage | RestoreImage | FlashImage | SecureErase | RepairBoot
  | CheckFilesystem

datatype OperationState = Pending | Running | Completed | Failed | Undone

fun typeToString :: "OperationType \<Rightarrow> string" where
  "typeToString CreatePartition = ''Create Partition''"
| "typeToString DeletePartition = ''Delete Partition''"
| "typeToString ResizePartition = ''Resize Partition''"
| "typeToString MovePartition = ''Move Partition''"
| "typeToString FormatPartition = ''Format Partition''"
| "typeToString SetLabel = ''Set Label''"
| "typeToString SetFlags = ''Set Flags''"
| "typeToString Clone = ''Clone''"
| "typeToString CreateImage = ''Create Image''"
| "typeToString RestoreImage = ''Restore Image''"
| "typeToString FlashImage = ''Flash Image''"
| "typeToString SecureErase = ''Secure Erase''"
| "typeToString RepairBoot = ''Repair Boot''"
| "typeToString CheckFilesystem = ''Check Filesystem''"

record 'b Operation =
  op_state :: OperationState
  op_lastError :: ErrorInfo
  op_targetDiskId :: int
  op_targetPartitionId :: int
  op_body :: 'b

definition newOperation :: "'b \<Rightarrow> 'b Operation" where
  "newOperation b = \<lparr>op_state = Pending, op_lastError = err_ok, op_targetDiskId = -1,
     op_targetPartitionId = -1, op_body = b\<rparr>"

text \<open>The virtual methods of a class of operations.\<close>

record ('b, 'w) op_class =
  description :: "'b \<Rightarrow> string"
  execute :: "'b \<Rightarrow> 'w \<Rightarrow> (unit Result \<times> (int \<times> string) list \<times> 'b \<times> 'w) run"
  undo :: "'b \<Rightarrow> 'w \<Rightarrow> (unit Result \<times> 'b \<times> 'w) run"
  canUndo :: "'b \<Rightarrow> bool"

text \<open>The methods \<open>undo\<close> and \<open>canUndo\<close> that a class inherits when it defines none.\<close>

definition default_undo :: "'b \<Rightarrow> 'w \<Rightarrow> (unit Result \<times> 'b \<times> 'w) run" where
  "default_undo b w = Done (fail NotImplemented ''Undo is not supported for this operation'', b, w)"

definition default_canUndo :: "'b \<Rightarrow> bool" where
  "default_canUndo b = False"

section \<open>The queue\<close>

record 'b OperationQueue =
  q_pending :: "'b Operation list"
  q_history :: "'b Operation list"
  q_running :: bool
  q_cancelRequested :: bool
  q_lastRunSuccess :: bool

definition newQueue :: "'b OperationQueue" where
  "newQueue = \<lparr>q_pending = [], q_history = [], q_running = False, q_cancelRequested = False,
     q_lastRunSuccess = False\<rparr>"

datatype queue_signal =
    OperationStarted nat nat string
  | OperationCompleted nat bool string
  | QueueProgress int int string
  | ErrorOccurred nat string ErrorInfo
  | AllOperationsFinished bool nat nat

text \<open>\<open>enqueue\<close> ignores a null pointer, which is \<open>None\<close>.\<close>

definition enqueue :: "'b Operation option \<Rightarrow> 'b OperationQueue \<Rightarrow> 'b OperationQueue" where
  "enqueue op q = (case op of None \<Rightarrow> q | Some op' \<Rightarrow> q\<lparr>q_pending := q_pending q @ [op']\<rparr>)"

definition removeLast :: "'b OperationQueue \<Rightarrow> 'b Operation option \<times> 'b OperationQueue" where
  "removeLast q =
     (if q_pending q = [] then (None, q)
      else if op_state (last (q_pending q)) \<noteq> Pending then (None, q)
      else (Some (last (q_pending q)), q\<lparr>q_pending := butlast (q_pending q)\<rparr>))"

definition clearPending :: "'b OperationQueue \<Rightarrow> 'b OperationQueue" where
  "clearPending q = q\<lparr>q_pending := filter (\<lambda>op. op_state op \<noteq> Pending) (q_pending q)\<rparr>"

definition clearAll :: "'b OperationQueue \<Rightarrow> 'b OperationQueue" where
  "clearAll q = q\<lparr>q_pending := [], q_history := [], q_lastRunSuccess := False\<rparr>"

definition pendingCount :: "'b OperationQueue \<Rightarrow> nat" where
  "pendingCount q = length (q_pending q)"

definition completedCount :: "'b OperationQueue \<Rightarrow> nat" where
  "completedCount q = length (q_history q)"

definition totalCount :: "'b OperationQueue \<Rightarrow> nat" where
  "totalCount q = pendingCount q + completedCount q"

definition pendingAt :: "int \<Rightarrow> 'b OperationQueue \<Rightarrow> 'b Operation option" where
  "pendingAt index q =
     (if index < 0 \<or> index \<ge> int (length (q_pending q)) then None else Some (q_pending q ! nat index))"

definition requestCancel :: "'b OperationQueue \<Rightarrow> 'b OperationQueue" where
  "requestCancel q = q\<lparr>q_cancelRequested := True\<rparr>"

text \<open>The callback that maps the progress of one operation to that of the queue; C++ divides towards zero.\<close>

definition progressCb :: "nat \<Rightarrow> nat \<Rightarrow> int \<times> string \<Rightarrow> queue_signal" where
  "progressCb opIndex totalOps report =
     (let opPercent = fst report;
          overallPercent = (int opIndex * 100 + opPercent) sdiv int totalOps;
          overallPercent = (if overallPercent < 0 then 0 else if 100 < overallPercent then 100
                            else overallPercent)
      in QueueProgress overallPercent opPercent (snd report))"

text \<open>
  The loop of \<open>applyAll\<close>. It returns the last error (\<open>err_ok\<close> if there was none), the index reached,
  the queue, the world and the signals in the order of emission.
\<close>

fun applyLoop :: "('b, 'w) op_class \<Rightarrow> (nat \<Rightarrow> bool) \<Rightarrow> nat \<Rightarrow> nat \<Rightarrow> bool \<Rightarrow> 'b Operation list \<Rightarrow>
    'b Operation list \<Rightarrow> 'w \<Rightarrow>
    (ErrorInfo \<times> nat \<times> bool \<times> 'b Operation list \<times> 'b Operation list \<times> 'w \<times> queue_signal list) run" where
  "applyLoop C cancel totalOps opIndex cancelRequested [] history w =
     Done (err_ok, opIndex, cancelRequested \<or> cancel opIndex, [], history, w, [])"
| "applyLoop C cancel totalOps opIndex cancelRequested (op # pending) history w =
     (if cancelRequested \<or> cancel opIndex then
        Done (fromCode OperationCanceled ''Operation queue canceled by user'', opIndex, True,
          op # pending, history, w, [])
      else
        run_bind (execute C (op_body op) w) (\<lambda>(result, reports, body, w').
          (let desc = description C (op_body op);
               started = OperationStarted opIndex totalOps desc # map (progressCb opIndex totalOps) reports
           in case result of
                Inr _ \<Rightarrow>
                  run_bind (applyLoop C cancel totalOps (opIndex + 1) False pending
                      (history @ [op\<lparr>op_state := Completed, op_body := body\<rparr>]) w')
                    (\<lambda>(lastError, i, c, p, h, w'', signals).
                      Done (lastError, i, c, p, h, w'',
                        started @ OperationCompleted opIndex True desc # signals))
              | Inl err \<Rightarrow>
                  Done (err, opIndex, cancel (opIndex + 1), pending,
                    history @ [op\<lparr>op_state := Failed, op_lastError := err, op_body := body\<rparr>], w',
                    started @ [OperationCompleted opIndex False desc, ErrorOccurred opIndex desc err]))))"

definition applyAll :: "('b, 'w) op_class \<Rightarrow> (nat \<Rightarrow> bool) \<Rightarrow> 'b OperationQueue \<Rightarrow> 'w \<Rightarrow>
    (unit Result \<times> 'b OperationQueue \<times> 'w \<times> queue_signal list) run" where
  "applyAll C cancel q w =
     (if q_pending q = [] then
        Done (ok, q\<lparr>q_lastRunSuccess := True\<rparr>, w, [AllOperationsFinished True 0 0])
      else
        run_bind (applyLoop C cancel (length (q_pending q)) 0 False (q_pending q) (q_history q) w)
          (\<lambda>(lastError, opIndex, cancelRequested, pending, history, w', signals).
            (let success = (pending = [] \<and> \<not> err_isError lastError);
                 q' = \<lparr>q_pending = pending, q_history = history, q_running = False,
                       q_cancelRequested = cancelRequested, q_lastRunSuccess = success\<rparr>
             in Done (if err_isError lastError then Inl lastError else ok, q', w',
                  signals @ [AllOperationsFinished success opIndex (length (q_pending q))]))))"

definition undoLast :: "('b, 'w) op_class \<Rightarrow> 'b OperationQueue \<Rightarrow> 'w \<Rightarrow>
    (unit Result \<times> 'b OperationQueue \<times> 'w) run" where
  "undoLast C q w =
     (if q_history q = [] then
        Done (fail InvalidArgument ''No operations to undo'', q, w)
      else
        (let lastOp = last (q_history q) in
         if \<not> canUndo C (op_body lastOp) then
           Done (fail NotImplemented
             (''Last operation does not support undo: '' @ description C (op_body lastOp)), q, w)
         else if op_state lastOp \<noteq> Completed then
           Done (fail InvalidArgument ''Can only undo completed operations'', q, w)
         else
           run_bind (undo C (op_body lastOp) w) (\<lambda>(result, body, w').
             (let lastOp' = lastOp\<lparr>op_body := body\<rparr>;
                  lastOp' = (if isOk result then lastOp'\<lparr>op_state := Undone\<rparr> else lastOp')
              in Done (result, q\<lparr>q_history := butlast (q_history q) @ [lastOp']\<rparr>, w')))))"

definition canUndoLast :: "('b, 'w) op_class \<Rightarrow> 'b OperationQueue \<Rightarrow> bool" where
  "canUndoLast C q \<longleftrightarrow> q_history q \<noteq> [] \<and>
     canUndo C (op_body (last (q_history q))) \<and> op_state (last (q_history q)) = Completed"

section \<open>The specification of a run\<close>

text \<open>
  What a run of the queue promises, without the queue: the bodies are executed one after the other,
  each in the world the previous one left, up to and including the first that fails. The result
  lists the executed bodies with their outcomes, the bodies not reached, and the final world.
\<close>

fun run_bodies :: "('b, 'w) op_class \<Rightarrow> 'b list \<Rightarrow> 'w \<Rightarrow> (('b \<times> unit Result) list \<times> 'b list \<times> 'w) run" where
  "run_bodies C [] w = Done ([], [], w)"
| "run_bodies C (b # bs) w =
     run_bind (execute C b w) (\<lambda>(r, reports, b', w').
       case r of
         Inl e \<Rightarrow> Done ([(b', r)], bs, w')
       | Inr _ \<Rightarrow> run_bind (run_bodies C bs w') (\<lambda>(ds, rest, w''). Done ((b', r) # ds, rest, w'')))"

text \<open>A class of operations whose errors carry an error code.\<close>

definition proper_errors :: "('b, 'w) op_class \<Rightarrow> bool" where
  "proper_errors C \<longleftrightarrow> (\<forall>b w e reports b' w'. execute C b w = Done (Inl e, reports, b', w') \<longrightarrow> err_isError e)"

definition outcome_state :: "unit Result \<Rightarrow> OperationState" where
  "outcome_state r = (if isOk r then Completed else Failed)"

definition first_error :: "('b \<times> unit Result) list \<Rightarrow> unit Result" where
  "first_error ds = (case find (\<lambda>d. isError (snd d)) ds of None \<Rightarrow> ok | Some d \<Rightarrow> snd d)"

lemma err_ok_no_error [simp]: "\<not> err_isError err_ok"
  by (simp add: err_isError_def err_ok_def)

lemma applyLoop_refines:
  assumes "applyLoop C (\<lambda>i. False) n i False ops h w = Done (le, i', c, p, h', w', sg)" "proper_errors C"
  shows "\<exists>ds. run_bodies C (map op_body ops) w = Done (ds, map op_body p, w') \<and> p = drop (length ds) ops \<and>
    map (\<lambda>op. (op_body op, op_state op)) h' =
      map (\<lambda>op. (op_body op, op_state op)) h @ map (\<lambda>(b, r). (b, outcome_state r)) ds \<and>
    (if err_isError le then Inl le else ok) = first_error ds \<and> (p \<noteq> [] \<longrightarrow> err_isError le)"
  using assms(1)
proof (induction ops arbitrary: i h w le i' c p h' w' sg)
  case Nil
  then show ?case by (auto simp: first_error_def)
next
  case (Cons op ops)
  from Cons.prems obtain r reports b w1 where ex: "execute C (op_body op) w = Done (r, reports, b, w1)"
    by (auto simp: run_bind_Done_iff Let_def)
  show ?case
  proof (cases r)
    case (Inl e)
    with ex assms(2) have "err_isError e" unfolding proper_errors_def by blast
    with Inl ex Cons.prems show ?thesis by (auto simp: first_error_def outcome_state_def Let_def)
  next
    case (Inr u)
    with ex Cons.prems obtain sg' where
      rec: "applyLoop C (\<lambda>i. False) n (i + 1) False ops (h @ [op\<lparr>op_state := Completed, op_body := b\<rparr>]) w1 =
        Done (le, i', c, p, h', w', sg')"
      by (auto simp: run_bind_Done_iff Let_def)
    from Cons.IH [OF this] obtain ds where ds:
      "run_bodies C (map op_body ops) w1 = Done (ds, map op_body p, w')" "p = drop (length ds) ops"
      "map (\<lambda>op. (op_body op, op_state op)) h' =
        map (\<lambda>op. (op_body op, op_state op)) (h @ [op\<lparr>op_state := Completed, op_body := b\<rparr>]) @
        map (\<lambda>(b, r). (b, outcome_state r)) ds"
      "(if err_isError le then Inl le else ok) = first_error ds" "p \<noteq> [] \<longrightarrow> err_isError le"
      by blast
    with Inr ex show ?thesis
      by (intro exI [of _ "(b, r) # ds"]) (simp add: first_error_def outcome_state_def)
  qed
qed

lemma applyAll_refines:
  assumes "applyAll C (\<lambda>i. False) q w = Done (res, q', w', sg)" "proper_errors C"
  shows "\<exists>ds. run_bodies C (map op_body (q_pending q)) w = Done (ds, map op_body (q_pending q'), w') \<and>
    q_pending q' = drop (length ds) (q_pending q) \<and>
    map (\<lambda>op. (op_body op, op_state op)) (q_history q') =
      map (\<lambda>op. (op_body op, op_state op)) (q_history q) @ map (\<lambda>(b, r). (b, outcome_state r)) ds \<and>
    res = first_error ds \<and> q_lastRunSuccess q' = isOk res"
proof (cases "q_pending q = []")
  case True
  with assms(1) show ?thesis by (auto simp: applyAll_def first_error_def)
next
  case False
  with assms(1) obtain le i c p h sg' where
    loop: "applyLoop C (\<lambda>i. False) (length (q_pending q)) 0 False (q_pending q) (q_history q) w =
      Done (le, i, c, p, h, w', sg')"
    and res: "res = (if err_isError le then Inl le else ok)" and q': "q_pending q' = p" "q_history q' = h"
      "q_lastRunSuccess q' = (p = [] \<and> \<not> err_isError le)"
    by (auto simp: applyAll_def run_bind_Done_iff Let_def)
  from applyLoop_refines [OF loop assms(2)] res q' show ?thesis by auto
qed

text \<open>
  C9. \<open>applyAll\<close> implements the sequential specification: without a cancel request it executes the
  pending operations in the order they were queued and stops at the first failure, whose error it
  returns; the executed operations move to the history with the state that matches their outcome,
  and those not reached stay pending, untouched.
\<close>

theorem applyAll_refines_sequential:
  assumes "applyAll C (\<lambda>i. False) q w = Done (res, q', w', sg)" "proper_errors C"
  shows "\<exists>ds. run_bodies C (map op_body (q_pending q)) w = Done (ds, map op_body (q_pending q'), w') \<and>
    q_pending q' = drop (length ds) (q_pending q) \<and>
    map (\<lambda>op. (op_body op, op_state op)) (q_history q') =
      map (\<lambda>op. (op_body op, op_state op)) (q_history q) @ map (\<lambda>(b, r). (b, outcome_state r)) ds \<and>
    res = first_error ds \<and> q_lastRunSuccess q' = isOk res"
  using assms by (rule applyAll_refines)

section \<open>Signals, counts and cancellation\<close>

fun signal_in_range :: "nat \<Rightarrow> queue_signal \<Rightarrow> bool" where
  "signal_in_range n (QueueProgress overall p s) = (0 \<le> overall \<and> overall \<le> 100)"
| "signal_in_range n (OperationStarted i m s) = (i < n \<and> m = n)"
| "signal_in_range n (OperationCompleted i b s) = (i < n)"
| "signal_in_range n (ErrorOccurred i s e) = (i < n)"
| "signal_in_range n (AllOperationsFinished b i m) = (i \<le> n \<and> m = n)"

fun started_before :: "nat \<Rightarrow> queue_signal \<Rightarrow> bool" where
  "started_before k (OperationStarted i m s) = (i < k)"
| "started_before k _ = True"

lemma progressCb_range [simp]: "signal_in_range n (progressCb i m r)" "started_before k (progressCb i m r)"
  by (simp_all add: progressCb_def Let_def)

text \<open>
  The signals of one executed operation: started; the progress it reports; completed, with the
  outcome that its state in the history shows; and after a failure the error.
\<close>

definition op_signals :: "nat \<Rightarrow> nat \<Rightarrow> string \<Rightarrow> (int \<times> string) list \<Rightarrow> 'b Operation \<Rightarrow> queue_signal list" where
  "op_signals n i desc reports op =
     [OperationStarted i n desc] @ map (progressCb i n) reports @
     (if op_state op = Completed then [OperationCompleted i True desc]
      else [OperationCompleted i False desc, ErrorOccurred i desc (op_lastError op)])"

text \<open>
  The signals of a run that starts with operation \<open>i\<close>: those of the executed operations, one after
  the other; \<open>news\<close> are their entries in the history.
\<close>

definition run_signals :: "('b, 'w) op_class \<Rightarrow> nat \<Rightarrow> nat \<Rightarrow> 'b Operation list \<Rightarrow> (int \<times> string) list list \<Rightarrow>
    'b Operation list \<Rightarrow> queue_signal list" where
  "run_signals C n i ops reps news =
     concat (map (\<lambda>j. op_signals n (i + j) (description C (op_body (ops ! j))) (reps ! j) (news ! j))
       [0..<length news])"

text \<open>
  The entries \<open>news\<close> of the history and the reports \<open>reps\<close> are those of the operations executed one
  after the other from the world \<open>w\<close> to the world \<open>w'\<close>.
\<close>

fun executed :: "('b, 'w) op_class \<Rightarrow> 'b Operation list \<Rightarrow> 'w \<Rightarrow> (int \<times> string) list list \<Rightarrow>
    'b Operation list \<Rightarrow> 'w \<Rightarrow> bool" where
  "executed C ops w [] [] w' \<longleftrightarrow> w' = w"
| "executed C (op # ops) w (rep # reps) (x # news) w' \<longleftrightarrow>
     (case execute C (op_body op) w of
        Done (r, rep', b, w1) \<Rightarrow>
          rep' = rep \<and> op_body x = b \<and> op_state x = outcome_state r \<and>
          (case r of Inl e \<Rightarrow> op_lastError x = e | Inr u \<Rightarrow> True) \<and> executed C ops w1 reps news w'
      | _ \<Rightarrow> False)"
| "executed C _ w _ _ w' \<longleftrightarrow> False"

lemma executed_none: "\<exists>reps. executed C ops w reps [] w"
  by (rule exI [of _ "[]"]) simp

lemma run_signals_Nil [simp]: "run_signals C n i ops reps [] = []"
  by (simp add: run_signals_def)

lemma run_signals_Cons [simp]:
  "run_signals C n i (op # ops) (r # reps) (x # news) =
     op_signals n i (description C (op_body op)) r x @ run_signals C n (Suc i) ops reps news"
  by (simp add: run_signals_def map_upt_Suc del: upt_Suc)

lemma op_signals_range: "i < n \<Longrightarrow> list_all (signal_in_range n) (op_signals n i desc reports op)"
  by (auto simp: op_signals_def list_all_iff)

lemma run_signals_range:
  assumes "i + length news \<le> n"
  shows "list_all (signal_in_range n) (run_signals C n i ops reps (news :: 'b Operation list))"
proof -
  have "signal_in_range n s" if "j < length news" "s \<in> set (op_signals n (i + j) desc reports op)"
    for j desc reports s and op :: "'b Operation"
    using op_signals_range [of "i + j" n desc reports op] assms that by (simp add: list_all_iff)
  then show ?thesis by (auto simp: run_signals_def list_all_iff)
qed

lemma applyLoop_signals:
  assumes "applyLoop C cancel n i c0 ops h w = Done (le, i', c, p, h', w', sg)" "n = i + length ops"
  shows "\<exists>news reps. h' = h @ news \<and> p = drop (length news) ops \<and> length news \<le> length ops \<and>
    executed C ops w reps news w' \<and> sg = run_signals C n i ops reps news \<and>
    list_all (\<lambda>op. op_state op = Completed) (butlast news) \<and>
    i' = i + length (filter (\<lambda>op. op_state op = Completed) news)"
  using assms
proof (induction ops arbitrary: i c0 h w le i' c p h' w' sg)
  case Nil
  then show ?case by (auto simp: executed_none)
next
  case (Cons op ops)
  show ?case
  proof (cases "c0 \<or> cancel i")
    case True
    with Cons.prems show ?thesis by (auto intro!: exI [of _ "[]"] simp: executed_none)
  next
    case False
    with Cons.prems(1) obtain r reports b w1 where ex: "execute C (op_body op) w = Done (r, reports, b, w1)"
      by (auto simp: run_bind_Done_iff Let_def)
    show ?thesis
    proof (cases r)
      case (Inl e)
      with ex False Cons.prems show ?thesis
        by (intro exI [of _ "[op\<lparr>op_state := Failed, op_lastError := e, op_body := b\<rparr>]"] exI [of _ "[reports]"])
          (auto simp: Let_def op_signals_def outcome_state_def)
    next
      case (Inr u)
      let ?op = "op\<lparr>op_state := Completed, op_body := b\<rparr>"
      from Inr ex False Cons.prems(1) obtain sg' where
        rec: "applyLoop C cancel n (i + 1) False ops (h @ [?op]) w1 = Done (le, i', c, p, h', w', sg')"
        and sg: "sg = (OperationStarted i n (description C (op_body op)) # map (progressCb i n) reports) @
          OperationCompleted i True (description C (op_body op)) # sg'"
        by (auto simp: run_bind_Done_iff Let_def)
      from Cons.IH [OF rec] Cons.prems(2) obtain news reps where IH: "h' = (h @ [?op]) @ news"
        "p = drop (length news) ops" "length news \<le> length ops" "executed C ops w1 reps news w'"
        "sg' = run_signals C n (i + 1) ops reps news"
        "list_all (\<lambda>op. op_state op = Completed) (butlast news)"
        "i' = i + 1 + length (filter (\<lambda>op. op_state op = Completed) news)"
        by auto
      with sg ex Inr show ?thesis
        by (intro exI [of _ "?op # news"] exI [of _ "reports # reps"])
          (auto simp: op_signals_def outcome_state_def)
    qed
  qed
qed

text \<open>
  C15. Every run of the queue, cancelled or not, whatever progress the operations report, emits
  exactly this: for each executed operation, in the order of the queue and with its position as
  index, the signal that it starts, the progress it reports, and the signal that it completed, with
  success or, for the last one only, with failure and then the error; and at the end the one signal
  that all operations are finished, with the number of successful ones. The executed operations are
  the first ones of the queue, each executed once in the world that the one before it left; they
  are appended to the history with their outcome, and the others stay pending.
  Percentages lie between 0 and 100 and indices below the number of queued operations.
\<close>

theorem applyAll_signals:
  assumes "applyAll C cancel q w = Done (res, q', w', sg)"
  shows "\<exists>news reps. q_history q' = q_history q @ news \<and> q_pending q' = drop (length news) (q_pending q) \<and>
    length news \<le> pendingCount q \<and> executed C (q_pending q) w reps news w' \<and>
    list_all (\<lambda>op. op_state op = Completed) (butlast news) \<and>
    sg = run_signals C (pendingCount q) 0 (q_pending q) reps news @
      [AllOperationsFinished (q_lastRunSuccess q') (length (filter (\<lambda>op. op_state op = Completed) news))
         (pendingCount q)] \<and>
    list_all (signal_in_range (pendingCount q)) sg \<and> totalCount q' = totalCount q"
proof (cases "q_pending q = []")
  case True
  with assms show ?thesis by (auto simp: executed_none applyAll_def totalCount_def pendingCount_def completedCount_def)
next
  case False
  with assms obtain le i c p h sg' where
    loop: "applyLoop C cancel (length (q_pending q)) 0 False (q_pending q) (q_history q) w =
      Done (le, i, c, p, h, w', sg')"
    and q': "q_pending q' = p" "q_history q' = h" "q_lastRunSuccess q' = (p = [] \<and> \<not> err_isError le)"
    and sg: "sg = sg' @ [AllOperationsFinished (p = [] \<and> \<not> err_isError le) i (length (q_pending q))]"
    by (auto simp: applyAll_def run_bind_Done_iff Let_def)
  from applyLoop_signals [OF loop] obtain news reps where
    n: "h = q_history q @ news" "p = drop (length news) (q_pending q)" "length news \<le> length (q_pending q)"
    "executed C (q_pending q) w reps news w'" "sg' = run_signals C (length (q_pending q)) 0 (q_pending q) reps news"
    "list_all (\<lambda>op. op_state op = Completed) (butlast news)"
    "i = length (filter (\<lambda>op. op_state op = Completed) news)"
    by auto
  have "list_all (signal_in_range (length (q_pending q))) sg'"
    using run_signals_range [of 0 news "length (q_pending q)"] n(3,5) by simp
  moreover have "i \<le> length (q_pending q)" using n(3,7) length_filter_le le_trans by metis
  ultimately show ?thesis
    using n q' sg by (intro exI [of _ news] exI [of _ reps])
      (simp add: totalCount_def pendingCount_def completedCount_def)
qed

lemma applyLoop_cancel:
  assumes "applyLoop C cancel n i False ops h w = Done (le, i', c, p, h', w', sg)" "cancel k" "i \<le> k"
  shows "list_all (started_before k) sg \<and> (\<exists>j \<le> k - i. p = drop j ops)"
  using assms(1,3)
proof (induction ops arbitrary: i h w le i' c p h' w' sg)
  case Nil
  then show ?case by auto
next
  case (Cons op ops)
  show ?case
  proof (cases "cancel i")
    case True
    with Cons.prems show ?thesis by (auto intro: exI [of _ 0])
  next
    case False
    with assms(2) Cons.prems(2) have ik: "i < k" by (cases "i = k") auto
    from False Cons.prems(1) obtain r reports b w1 where ex: "execute C (op_body op) w = Done (r, reports, b, w1)"
      by (auto simp: run_bind_Done_iff Let_def)
    show ?thesis
    proof (cases r)
      case (Inl e)
      with ex False ik Cons.prems show ?thesis by (auto simp: list_all_iff Let_def intro!: exI [of _ "Suc 0"])
    next
      case (Inr u)
      let ?op = "op\<lparr>op_state := Completed, op_body := b\<rparr>"
      from Inr ex False Cons.prems(1) obtain sg' where
        rec: "applyLoop C cancel n (i + 1) False ops (h @ [?op]) w1 = Done (le, i', c, p, h', w', sg')"
        and sg: "sg = (OperationStarted i n (description C (op_body op)) # map (progressCb i n) reports) @
          OperationCompleted i True (description C (op_body op)) # sg'"
        by (auto simp: run_bind_Done_iff Let_def)
      from Cons.IH [OF rec] ik obtain j where IH: "list_all (started_before k) sg'" "j \<le> k - (i + 1)" "p = drop j ops"
        by auto
      with sg ik show ?thesis by (auto simp: list_all_iff intro!: exI [of _ "Suc j"])
    qed
  qed
qed

text \<open>
  A cancel request that arrives before operation \<open>k\<close> is tested prevents every operation from the
  \<open>k\<close>-th on: none is started, and all of them remain pending in their order.
\<close>

theorem applyAll_cancel:
  assumes "applyAll C cancel q w = Done (res, q', w', sg)" "cancel k"
  shows "list_all (started_before k) sg \<and> (\<exists>j \<le> k. q_pending q' = drop j (q_pending q))"
proof (cases "q_pending q = []")
  case True
  with assms show ?thesis by (auto simp: applyAll_def)
next
  case False
  with assms obtain le i c p h sg' where
    loop: "applyLoop C cancel (length (q_pending q)) 0 False (q_pending q) (q_history q) w =
      Done (le, i, c, p, h, w', sg')"
    and q': "q_pending q' = p"
    and sg: "sg = sg' @ [AllOperationsFinished (p = [] \<and> \<not> err_isError le) i (length (q_pending q))]"
    by (auto simp: applyAll_def run_bind_Done_iff Let_def)
  from applyLoop_cancel [OF loop assms(2)] q' sg show ?thesis by auto
qed

section \<open>Life cycle\<close>

text \<open>The states a queue can be in: what the calls of its public methods lead to.\<close>

inductive queue_reachable :: "('b, 'w) op_class \<Rightarrow> 'b OperationQueue \<Rightarrow> bool" for C where
  new: "queue_reachable C newQueue"
| enqueue: "queue_reachable C q \<Longrightarrow> op_state op = Pending \<Longrightarrow> queue_reachable C (enqueue (Some op) q)"
| enqueue_null: "queue_reachable C q \<Longrightarrow> queue_reachable C (enqueue None q)"
| removeLast: "queue_reachable C q \<Longrightarrow> queue_reachable C (snd (removeLast q))"
| clearPending: "queue_reachable C q \<Longrightarrow> queue_reachable C (clearPending q)"
| clearAll: "queue_reachable C q \<Longrightarrow> queue_reachable C (clearAll q)"
| requestCancel: "queue_reachable C q \<Longrightarrow> queue_reachable C (requestCancel q)"
| applyAll: "queue_reachable C q \<Longrightarrow> applyAll C cancel q w = Done (r, q', w', sg) \<Longrightarrow> queue_reachable C q'"
| undoLast: "queue_reachable C q \<Longrightarrow> undoLast C q w = Done (r, q', w') \<Longrightarrow> queue_reachable C q'"

definition queue_inv :: "'b OperationQueue \<Rightarrow> bool" where
  "queue_inv q \<longleftrightarrow> list_all (\<lambda>op. op_state op = Pending) (q_pending q) \<and>
     list_all (\<lambda>op. op_state op \<in> {Completed, Failed, Undone}) (q_history q) \<and> \<not> q_running q"

lemma applyLoop_states:
  assumes "applyLoop C cancel n i c0 ops h w = Done (le, i', c, p, h', w', sg)"
    and "list_all (\<lambda>op. op_state op \<in> {Completed, Failed, Undone}) h"
  shows "list_all (\<lambda>op. op_state op \<in> {Completed, Failed, Undone}) h' \<and> set p \<subseteq> set ops"
  using assms
proof (induction ops arbitrary: i c0 h w le i' c p h' w' sg)
  case Nil
  then show ?case by simp
next
  case (Cons op ops)
  show ?case
  proof (cases "c0 \<or> cancel i")
    case True
    with Cons.prems show ?thesis by auto
  next
    case False
    with Cons.prems(1) obtain r reports b w1 where ex: "execute C (op_body op) w = Done (r, reports, b, w1)"
      by (auto simp: run_bind_Done_iff Let_def)
    show ?thesis
    proof (cases r)
      case (Inl e)
      with ex False Cons.prems show ?thesis by (auto simp: Let_def)
    next
      case (Inr u)
      with ex False Cons.prems(1) obtain sg' where
        "applyLoop C cancel n (i + 1) False ops (h @ [op\<lparr>op_state := Completed, op_body := b\<rparr>]) w1 =
          Done (le, i', c, p, h', w', sg')"
        by (auto simp: run_bind_Done_iff Let_def)
      from Cons.IH [OF this] Cons.prems(2) show ?thesis by auto
    qed
  qed
qed

lemma applyAll_inv:
  assumes "applyAll C cancel q w = Done (r, q', w', sg)" "queue_inv q"
  shows "queue_inv q'"
proof (cases "q_pending q = []")
  case True
  with assms show ?thesis by (auto simp: applyAll_def queue_inv_def)
next
  case False
  with assms(1) obtain le i c sg' where
    loop: "applyLoop C cancel (length (q_pending q)) 0 False (q_pending q) (q_history q) w =
      Done (le, i, c, q_pending q', q_history q', w', sg')" and run: "\<not> q_running q'"
    by (auto simp: applyAll_def run_bind_Done_iff Let_def)
  from applyLoop_states [OF loop] assms(2) run show ?thesis by (auto simp: queue_inv_def list_all_iff)
qed

lemma undoLast_cases:
  assumes "undoLast C q w = Done (r, q', w')"
  obtains (refused) err where "r = Inl err" "q' = q" "w' = w" "\<not> canUndoLast C q"
  | (undone) b where "canUndoLast C q" "undo C (op_body (last (q_history q))) w = Done (r, b, w')"
      "q' = q\<lparr>q_history := butlast (q_history q) @ [(last (q_history q))
         \<lparr>op_state := if isOk r then Undone else Completed, op_body := b\<rparr>]\<rparr>"
proof (cases "canUndoLast C q")
  case False
  with assms have "\<exists>err. r = Inl err \<and> q' = q \<and> w' = w"
    by (auto simp: undoLast_def canUndoLast_def Let_def split: if_splits)
  with False refused show thesis by blast
next
  case True
  then have st: "q_history q \<noteq> []" "canUndo C (op_body (last (q_history q)))"
    "op_state (last (q_history q)) = Completed"
    by (auto simp: canUndoLast_def)
  with assms obtain b where u: "undo C (op_body (last (q_history q))) w = Done (r, b, w')"
    and q': "q' = q\<lparr>q_history := butlast (q_history q) @ [if isOk r
       then (last (q_history q))\<lparr>op_body := b, op_state := Undone\<rparr> else (last (q_history q))\<lparr>op_body := b\<rparr>]\<rparr>"
    by (auto simp: undoLast_def Let_def run_bind_Done_iff)
  have "(if isOk r then (last (q_history q))\<lparr>op_body := b, op_state := Undone\<rparr> else (last (q_history q))\<lparr>op_body := b\<rparr>) =
      (last (q_history q))\<lparr>op_state := if isOk r then Undone else Completed, op_body := b\<rparr>"
    using st(3) by (cases "last (q_history q)") simp
  with True u q' undone show thesis by simp
qed

lemma queue_reachable_inv: "queue_reachable C q \<Longrightarrow> queue_inv q"
proof (induction rule: queue_reachable.induct)
  case (applyAll q cancel w r q' w' sg)
  show ?case by (rule applyAll_inv [OF applyAll.hyps(2) applyAll.IH])
next
  case (undoLast q w r q' w')
  from undoLast.hyps(2) show ?case
  proof (cases rule: undoLast_cases)
    case refused
    with undoLast.IH show ?thesis by simp
  next
    case (undone b)
    with undoLast.IH show ?thesis by (auto simp: queue_inv_def list_all_iff dest: in_set_butlastD)
  qed
qed (auto simp: queue_inv_def newQueue_def enqueue_def removeLast_def clearPending_def clearAll_def
    requestCancel_def list_all_iff dest: in_set_butlastD)

text \<open>
  C14. However the queue is used, its pending operations are exactly the ones not yet executed and
  its history holds only completed, failed or undone ones; so \<open>removeLast\<close> always takes the last
  pending operation, and \<open>clearPending\<close> leaves none.
\<close>

theorem queue_reachable_states:
  assumes "queue_reachable C q"
  shows "list_all (\<lambda>op. op_state op = Pending) (q_pending q) \<and>
    list_all (\<lambda>op. op_state op \<in> {Completed, Failed, Undone}) (q_history q) \<and>
    removeLast (enqueue (Some (newOperation b)) q) = (Some (newOperation b), q) \<and>
    q_pending (clearPending q) = [] \<and> \<not> q_running q"
  using queue_reachable_inv [OF assms]
  by (auto simp: queue_inv_def removeLast_def enqueue_def newOperation_def clearPending_def list_all_iff
      filter_empty_conv)

text \<open>
  Undo reaches one operation deep: after \<open>undoLast\<close> has succeeded, a further \<open>undoLast\<close> is refused
  and changes nothing, even if the operations before the undone one were completed.
\<close>

theorem undoLast_twice:
  assumes "undoLast C q w = Done (Inr u, q', w')"
  shows "\<exists>err. undoLast C q' v = Done (Inl err, q', v)"
  using assms
proof (cases rule: undoLast_cases)
  case (undone b)
  then have "q_history q' \<noteq> []" "op_state (last (q_history q')) = Undone" by simp_all
  then show ?thesis by (simp add: undoLast_def Let_def)
qed simp

lemma run_bodies_stops:
  assumes "run_bodies C bs w = Done (ds, rest, w')" "first_error ds = Inl err"
  shows "ds \<noteq> [] \<and> isError (snd (last ds))"
  using assms
proof (induction bs arbitrary: w ds)
  case Nil
  then show ?case by (simp add: first_error_def)
next
  case (Cons b bs)
  from Cons.prems(1) obtain r reports b' w1 where ex: "execute C b w = Done (r, reports, b', w1)"
    by (auto simp: run_bind_Done_iff Let_def)
  show ?case
  proof (cases r)
    case (Inl e)
    with ex Cons.prems show ?thesis by auto
  next
    case (Inr u)
    with ex Cons.prems(1) obtain ds' where rec: "run_bodies C bs w1 = Done (ds', rest, w')" and ds: "ds = (b', r) # ds'"
      by (auto simp: run_bind_Done_iff Let_def)
    with Inr Cons.prems(2) have "first_error ds' = Inl err" by (simp add: first_error_def)
    from Cons.IH [OF rec this] ds show ?thesis by simp
  qed
qed

text \<open>
  After a run that stopped at a failed operation, \<open>undoLast\<close> is refused: it looks at the last
  executed operation only, not at the last completed one.
\<close>

theorem undoLast_after_failure:
  assumes "applyAll C (\<lambda>i. False) q w = Done (Inl err, q', w', sg)" "proper_errors C"
  shows "\<exists>err. undoLast C q' v = Done (Inl err, q', v)"
proof -
  from applyAll_refines [OF assms] obtain ds where
    ds: "run_bodies C (map op_body (q_pending q)) w = Done (ds, map op_body (q_pending q'), w')"
      "first_error ds = Inl err"
    and hist: "map (\<lambda>op. (op_body op, op_state op)) (q_history q') =
      map (\<lambda>op. (op_body op, op_state op)) (q_history q) @ map (\<lambda>(b, r). (b, outcome_state r)) ds"
    by auto
  from run_bodies_stops [OF ds] have last_ds: "ds \<noteq> []" "isError (snd (last ds))" by auto
  then have "q_history q' \<noteq> []" using hist by auto
  then have "op_state (last (q_history q')) = snd (last (map (\<lambda>op. (op_body op, op_state op)) (q_history q')))"
    by (simp add: last_map)
  also have "\<dots> = Failed"
    using last_ds unfolding hist by (auto simp: last_map outcome_state_def isOk_iff isError_iff split: prod.splits)
  finally show ?thesis using \<open>q_history q' \<noteq> []\<close> by (simp add: undoLast_def Let_def)
qed

section \<open>Witnesses\<close>

text \<open>A class whose bodies are numbers: even ones succeed and are added to the world, odd ones fail.\<close>

definition sample_class :: "(nat, nat) op_class" where
  "sample_class = \<lparr>description = (\<lambda>b. ''add''),
     execute = (\<lambda>b w. Done (if even b then ok else fail InvalidArgument ''odd'', [(50, ''half'')], b,
       if even b then w + b else w)),
     undo = (\<lambda>b w. Done (ok, b, w - b)), canUndo = (\<lambda>b. True)\<rparr>"

definition sample_queue :: "nat list \<Rightarrow> nat OperationQueue" where
  "sample_queue bs = newQueue\<lparr>q_pending := map newOperation bs\<rparr>"

lemmas sample_run = applyAll_def sample_queue_def sample_class_def newQueue_def newOperation_def Let_def
  err_isError_def err_ok_def

lemma sample_class_proper: "proper_errors sample_class"
  by (auto simp: proper_errors_def sample_class_def err_isError_def split: if_splits)

theorem applyAll_refines_sequential_witness:
  "\<exists>res q' w' sg ds. applyAll sample_class (\<lambda>i. False) (sample_queue [2, 4, 3, 6]) 0 = Done (res, q', w', sg) \<and>
     run_bodies sample_class [2, 4, 3, 6] 0 = Done (ds, map op_body (q_pending q'), w') \<and>
     res = first_error ds \<and> w' = 6"
proof -
  have "\<exists>res q' sg. applyAll sample_class (\<lambda>i. False) (sample_queue [2, 4, 3, 6]) 0 = Done (res, q', 6, sg)"
    by (simp add: sample_run)
  then obtain res q' sg where r: "applyAll sample_class (\<lambda>i. False) (sample_queue [2, 4, 3, 6]) 0 = Done (res, q', 6, sg)"
    by blast
  from applyAll_refines_sequential [OF r sample_class_proper] r show ?thesis
    by (auto simp: sample_queue_def newOperation_def comp_def)
qed

theorem applyAll_signals_witness:
  "\<exists>res q' w' sg. applyAll sample_class (\<lambda>i. False) (sample_queue [2, 3, 4]) 0 = Done (res, q', w', sg) \<and>
     totalCount q' = 3 \<and> list_all (signal_in_range 3) sg"
proof -
  have "\<exists>res q' w' sg. applyAll sample_class (\<lambda>i. False) (sample_queue [2, 3, 4]) 0 = Done (res, q', w', sg)"
    by (simp add: sample_run)
  then obtain res q' w' sg where r: "applyAll sample_class (\<lambda>i. False) (sample_queue [2, 3, 4]) 0 = Done (res, q', w', sg)"
    by blast
  have "totalCount (sample_queue [2, 3, 4]) = 3" "pendingCount (sample_queue [2, 3, 4]) = 3"
    by (simp_all add: totalCount_def pendingCount_def completedCount_def sample_queue_def newQueue_def)
  with applyAll_signals [OF r] r show ?thesis by auto
qed

theorem applyAll_cancel_witness:
  "\<exists>res q' w' sg. applyAll sample_class (\<lambda>i. i = 1) (sample_queue [2, 4, 6]) 0 = Done (res, q', w', sg) \<and>
     list_all (started_before 1) sg \<and> w' = 2"
proof -
  have "\<exists>res q' sg. applyAll sample_class (\<lambda>i. i = 1) (sample_queue [2, 4, 6]) 0 = Done (res, q', 2, sg)"
    by (simp add: sample_run fromCode_def)
  then obtain res q' sg where r: "applyAll sample_class (\<lambda>i. i = 1) (sample_queue [2, 4, 6]) 0 = Done (res, q', 2, sg)"
    by blast
  from applyAll_cancel [OF r, of 1] r show ?thesis by auto
qed

theorem queue_reachable_states_witness:
  "\<exists>q. queue_reachable sample_class q \<and> q_pending (clearPending q) = [] \<and> length (q_pending q) = 1"
proof -
  have r: "queue_reachable sample_class (enqueue (Some (newOperation 2)) newQueue)"
    by (intro queue_reachable.intros) (simp add: newOperation_def)
  with queue_reachable_states [OF r, of 0] show ?thesis
    by (intro exI [of _ "enqueue (Some (newOperation 2)) newQueue"]) (simp add: enqueue_def newQueue_def)
qed

theorem undoLast_twice_witness:
  "\<exists>q' w' err. undoLast sample_class (newQueue\<lparr>q_history := [(newOperation 2)\<lparr>op_state := Completed\<rparr>]\<rparr>) 2 =
       Done (ok, q', w') \<and> undoLast sample_class q' w' = Done (Inl err, q', w')"
proof -
  have "\<exists>q' w'. undoLast sample_class (newQueue\<lparr>q_history := [(newOperation 2)\<lparr>op_state := Completed\<rparr>]\<rparr>) 2 =
      Done (ok, q', w')"
    by (simp add: undoLast_def sample_class_def newOperation_def newQueue_def Let_def)
  then obtain q' w' where u: "undoLast sample_class (newQueue\<lparr>q_history := [(newOperation 2)\<lparr>op_state := Completed\<rparr>]\<rparr>) 2 =
      Done (ok, q', w')" by blast
  from undoLast_twice [OF u, of w'] u show ?thesis by blast
qed

theorem undoLast_after_failure_witness:
  "\<exists>err q' w' sg err'. applyAll sample_class (\<lambda>i. False) (sample_queue [2, 3]) 0 = Done (Inl err, q', w', sg) \<and>
     undoLast sample_class q' w' = Done (Inl err', q', w')"
proof -
  have "\<exists>err q' w' sg. applyAll sample_class (\<lambda>i. False) (sample_queue [2, 3]) 0 = Done (Inl err, q', w', sg)"
    by (simp add: sample_run fromCode_def)
  then obtain err q' w' sg where
    r: "applyAll sample_class (\<lambda>i. False) (sample_queue [2, 3]) 0 = Done (Inl err, q', w', sg)"
    by blast
  from undoLast_after_failure [OF r sample_class_proper, of w'] r show ?thesis by blast
qed

end
