(* ===== verification/Raw_Disk.thy ===== *)
theory Raw_Disk
  imports Partition_Types
begin

text \<open>
  \<open>src/core/disk/RawDiskHandle.cpp\<close>: sector access to physical disks through the Win32 API. The API
  is not part of the repository; it is a record of functions over an abstract world \<open>'w\<close>, and
  what the code relies on is stated in \<open>win32_laws\<close>: an open handle denotes a disk, a successful
  \<open>ReadFile\<close> delivers the bytes at the offset, a complete \<open>WriteFile\<close> stores them there, and
  flushing, closing and re-reading the properties of a disk do not change what is stored on it.
\<close>

section \<open>The Win32 API\<close>

type_synonym wstr = "u16 list"

definition widen :: "string \<Rightarrow> wstr" where
  "widen s = map (\<lambda>c. of_nat (of_char c)) s"

datatype control = FSCTL_LOCK_VOLUME | FSCTL_UNLOCK_VOLUME | FSCTL_DISMOUNT_VOLUME | IOCTL_DISK_UPDATE_PROPERTIES

record DISK_GEOMETRY_EX =
  gx_diskSize :: u64
  gx_cylinders :: u64
  gx_mediaType :: int
  gx_tracksPerCylinder :: u32
  gx_sectorsPerTrack :: u32
  gx_bytesPerSector :: u32

record DiskGeometryInfo =
  dg_totalBytes :: u64
  dg_bytesPerSector :: u32
  dg_sectorsPerTrack :: u32
  dg_tracksPerCylinder :: u32
  dg_cylinders :: u64
  dg_mediaType :: int

text \<open>The structures that \<open>IOCTL_DISK_GET_DRIVE_LAYOUT_EX\<close> fills in; a name is its array of 36 units.\<close>

datatype PARTITION_STYLE = PARTITION_STYLE_MBR | PARTITION_STYLE_GPT | PARTITION_STYLE_RAW

record PARTITION_INFORMATION_EX =
  px_style :: PARTITION_STYLE
  px_startingOffset :: u64
  px_partitionLength :: u64
  px_partitionNumber :: u32
  px_rewritePartition :: bool
  px_mbrType :: u8
  px_mbrBootIndicator :: bool
  px_gptType :: bytes
  px_gptId :: bytes
  px_gptAttributes :: u64
  px_gptName :: wstr

record DRIVE_LAYOUT_INFORMATION_EX =
  lx_style :: PARTITION_STYLE
  lx_mbrSignature :: u32
  lx_gptDiskId :: bytes
  lx_entries :: "PARTITION_INFORMATION_EX list"

record VolumeFilesystemInfo =
  vf_volumeLabel :: wstr
  vf_filesystemName :: wstr
  vf_serialNumber :: u32
  vf_maxComponentLength :: u32
  vf_filesystemFlags :: u32

record VolumeSpaceInfo =
  vs_totalBytes :: u64
  vs_freeBytes :: u64
  vs_availableBytes :: u64

text \<open>A failing call yields the value of \<open>GetLastError\<close>.\<close>

record 'w Win32 =
  CreateFileW :: "wstr \<Rightarrow> bool \<Rightarrow> 'w \<Rightarrow> (u32 + nat) \<times> 'w"
  CloseHandle :: "nat \<Rightarrow> 'w \<Rightarrow> 'w"
  ReadFile :: "nat \<Rightarrow> u64 \<Rightarrow> u32 \<Rightarrow> 'w \<Rightarrow> u32 + bytes"
  WriteFile :: "nat \<Rightarrow> u64 \<Rightarrow> bytes \<Rightarrow> 'w \<Rightarrow> (u32 + u32) \<times> 'w"
  FlushFileBuffers :: "nat \<Rightarrow> 'w \<Rightarrow> (u32 + unit) \<times> 'w"
  DeviceControl :: "control \<Rightarrow> nat \<Rightarrow> 'w \<Rightarrow> (u32 + unit) \<times> 'w"
  GetDriveGeometryEx :: "nat \<Rightarrow> 'w \<Rightarrow> u32 + DISK_GEOMETRY_EX"
  GetDriveLayoutEx :: "nat \<Rightarrow> 'w \<Rightarrow> u32 + DRIVE_LAYOUT_INFORMATION_EX"
  IsRecognizedPartition :: "u8 \<Rightarrow> bool"
  GetVolumeInformationW :: "wstr \<Rightarrow> 'w \<Rightarrow> u32 + VolumeFilesystemInfo"
  GetDiskFreeSpaceExW :: "wstr \<Rightarrow> 'w \<Rightarrow> u32 + (u64 \<times> u64 \<times> u64)"
  DeleteVolumeMountPointW :: "wstr \<Rightarrow> 'w \<Rightarrow> (u32 + unit) \<times> 'w"
  SetVolumeLabelW :: "wstr \<Rightarrow> wstr \<Rightarrow> 'w \<Rightarrow> (u32 + unit) \<times> 'w"

abbreviation (input) ERROR_FILE_NOT_FOUND :: u32 where "ERROR_FILE_NOT_FOUND \<equiv> 2"
abbreviation (input) ERROR_PATH_NOT_FOUND :: u32 where "ERROR_PATH_NOT_FOUND \<equiv> 3"
abbreviation (input) ERROR_ACCESS_DENIED :: u32 where "ERROR_ACCESS_DENIED \<equiv> 5"
abbreviation (input) MAXDWORD :: u64 where "MAXDWORD \<equiv> 0xFFFFFFFF"

section \<open>Actions\<close>

text \<open>A function that uses the API: from a world to an outcome and a world.\<close>

type_synonym ('a, 'w) io = "'w \<Rightarrow> ('a \<times> 'w) run"

definition io_return :: "'a \<Rightarrow> ('a, 'w) io" where
  "io_return x w = Done (x, w)"

definition io_bind :: "('a, 'w) io \<Rightarrow> ('a \<Rightarrow> ('b, 'w) io) \<Rightarrow> ('b, 'w) io" where
  "io_bind m f w = run_bind (m w) (\<lambda>(x, w'). f x w')"

text \<open>\<open>if (!r) return r.error();\<close>\<close>

definition io_try :: "('a Result, 'w) io \<Rightarrow> ('a \<Rightarrow> ('b Result, 'w) io) \<Rightarrow> ('b Result, 'w) io" where
  "io_try m f w = run_bind (m w) (\<lambda>(r, w'). case r of Inl e \<Rightarrow> Done (Inl e, w') | Inr x \<Rightarrow> f x w')"

lemma io_try_Done [run_simps]:
  "io_try m f w = Done (r, w'') \<longleftrightarrow>
     (\<exists>e w'. m w = Done (Inl e, w') \<and> r = Inl e \<and> w'' = w') \<or>
     (\<exists>x w'. m w = Done (Inr x, w') \<and> f x w' = Done (r, w''))"
proof (cases "m w")
  case (Done p)
  then show ?thesis by (cases "fst p") (auto simp: io_try_def dest: sym split: prod.splits)
qed (simp_all add: io_try_def)

lemma io_bind_Done [run_simps]:
  "io_bind m f w = Done (r, w'') \<longleftrightarrow> (\<exists>x w'. m w = Done (x, w') \<and> f x w' = Done (r, w''))"
  by (auto simp: io_bind_def run_bind_Done_iff)

lemma io_return_Done [run_simps]: "io_return x w = Done (r, w') \<longleftrightarrow> r = x \<and> w' = w"
  by (auto simp: io_return_def)

text \<open>
  An action keeps an observation of the world if no run changes it. The rules for the combinators
  reduce this to the calls of the API.
\<close>

definition keeps :: "('w \<Rightarrow> 'v) \<Rightarrow> ('a, 'w) io \<Rightarrow> bool" where
  "keeps f m \<longleftrightarrow> (\<forall>w r w'. m w = Done (r, w') \<longrightarrow> f w' = f w)"

named_theorems keeps_intros \<open>actions that keep an observation of the world\<close>

lemma keepsD: "keeps f m \<Longrightarrow> m w = Done (r, w') \<Longrightarrow> f w' = f w"
  by (simp add: keeps_def)

lemma keeps_return [keeps_intros]: "keeps f (io_return x)"
  by (simp add: keeps_def io_return_Done)

lemma keeps_try [keeps_intros]: "keeps f m \<Longrightarrow> (\<And>x. keeps f (g x)) \<Longrightarrow> keeps f (io_try m g)"
  unfolding keeps_def io_try_Done by metis

lemma keeps_bind [keeps_intros]: "keeps f m \<Longrightarrow> (\<And>x. keeps f (g x)) \<Longrightarrow> keeps f (io_bind m g)"
  unfolding keeps_def io_bind_Done by metis

section \<open>Errors\<close>

fun dec :: "nat \<Rightarrow> string" where
  "dec n = (if n < 10 then [''0123456789'' ! n] else dec (n div 10) @ [''0123456789'' ! (n mod 10)])"

declare dec.simps [simp del]

definition makeWin32Error :: "ErrorCode \<Rightarrow> string \<Rightarrow> u32 \<Rightarrow> ErrorInfo" where
  "makeWin32Error code context' lastErr =
     fromWin32 code lastErr (context' @ '' (Win32 error '' @ dec (unat lastErr) @ '')'')"

text \<open>The dash of some messages, in UTF-8.\<close>

definition em_dash :: string where
  "em_dash = [CHR 0xE2, CHR 0x80, CHR 0x94]"

section \<open>Raw disk handles\<close>

text \<open>\<open>INVALID_HANDLE_VALUE\<close> is \<open>None\<close>.\<close>

record RawDiskHandle =
  rh_handle :: "nat option"
  rh_diskId :: int
  rh_accessMode :: DiskAccessMode

definition physicalDrive :: "int \<Rightarrow> wstr" where
  "physicalDrive diskIndex =
     widen ([CHR 0x5C, CHR 0x5C] @ ''.'' @ [CHR 0x5C] @ ''PhysicalDrive'' @
       (if diskIndex < 0 then ''-'' @ dec (nat (- diskIndex)) else dec (nat diskIndex)))"

definition openPath :: "'w Win32 \<Rightarrow> wstr \<Rightarrow> DiskAccessMode \<Rightarrow> (RawDiskHandle Result, 'w) io" where
  "openPath W devicePath mode w =
     (case CreateFileW W devicePath (mode = ReadWrite) w of
        (Inl lastErr, w') \<Rightarrow>
          Done (Inl (if lastErr = ERROR_ACCESS_DENIED then
                       fromWin32 DiskAccessDenied lastErr ''Access denied opening disk. Run as Administrator.''
                     else if lastErr = ERROR_FILE_NOT_FOUND \<or> lastErr = ERROR_PATH_NOT_FOUND then
                       fromWin32 DiskNotFound lastErr ''Physical disk not found''
                     else makeWin32Error DiskReadError ''Failed to open disk handle'' lastErr), w')
      | (Inr h, w') \<Rightarrow>
          Done (Inr \<lparr>rh_handle = Some h, rh_diskId = -1, rh_accessMode = mode\<rparr>, w'))"

definition rawOpen :: "'w Win32 \<Rightarrow> int \<Rightarrow> DiskAccessMode \<Rightarrow> (RawDiskHandle Result, 'w) io" where
  "rawOpen W diskIndex mode =
     io_bind (openPath W (physicalDrive diskIndex) mode)
       (\<lambda>r. io_return (result_map r (rh_diskId_update (\<lambda>_. diskIndex))))"

definition rawIsValid :: "RawDiskHandle \<Rightarrow> bool" where
  "rawIsValid disk \<longleftrightarrow> rh_handle disk \<noteq> None"

definition rawClose :: "'w Win32 \<Rightarrow> RawDiskHandle \<Rightarrow> 'w \<Rightarrow> RawDiskHandle \<times> 'w" where
  "rawClose W disk w =
     (case rh_handle disk of
        None \<Rightarrow> (disk, w)
      | Some h \<Rightarrow> (disk\<lparr>rh_handle := None\<rparr>, CloseHandle W h w))"

text \<open>The destructor, the move constructor (new object, moved-from object) and the move assignment.\<close>

definition rawDestroy :: "'w Win32 \<Rightarrow> RawDiskHandle \<Rightarrow> 'w \<Rightarrow> 'w" where
  "rawDestroy W disk w = snd (rawClose W disk w)"

definition rawMove :: "RawDiskHandle \<Rightarrow> RawDiskHandle \<times> RawDiskHandle" where
  "rawMove other = (other, other\<lparr>rh_handle := None, rh_diskId := -1\<rparr>)"

definition rawMoveAssign :: "'w Win32 \<Rightarrow> RawDiskHandle \<Rightarrow> RawDiskHandle \<Rightarrow> 'w \<Rightarrow>
    (RawDiskHandle \<times> RawDiskHandle) \<times> 'w" where
  "rawMoveAssign W this other w = (rawMove other, rawDestroy W this w)"

text \<open>A scope that owns a handle: opened at its start, closed by the destructor at its end.\<close>

definition withDisk :: "'w Win32 \<Rightarrow> int \<Rightarrow> DiskAccessMode \<Rightarrow> (RawDiskHandle \<Rightarrow> ('a Result, 'w) io) \<Rightarrow>
    ('a Result, 'w) io" where
  "withDisk W diskId mode body =
     io_try (rawOpen W diskId mode) (\<lambda>disk w.
       run_bind (body disk w) (\<lambda>(r, w'). Done (r, rawDestroy W disk w')))"

text \<open>Reading does not change the world. \<open>ReadFile\<close> may deliver fewer bytes than asked for.\<close>

definition readSectors :: "'w Win32 \<Rightarrow> RawDiskHandle \<Rightarrow> u64 \<Rightarrow> u64 \<Rightarrow> u32 \<Rightarrow> 'w \<Rightarrow> bytes Result" where
  "readSectors W disk lba count sectorSize w =
     (case rh_handle disk of
        None \<Rightarrow> fail DiskReadError ''Invalid disk handle''
      | Some h \<Rightarrow>
          if count = 0 then Inr []
          else
            (let byteOffset = lba * ucast sectorSize;
                 totalBytes = count * ucast sectorSize
             in if totalBytes > MAXDWORD then
                  fail InvalidArgument ''Read request exceeds maximum single ReadFile size''
                else
                  (case ReadFile W h byteOffset (ucast totalBytes) w of
                     Inl err \<Rightarrow> Inl (makeWin32Error DiskReadError ''ReadFile failed on physical disk'' err)
                   | Inr buffer \<Rightarrow> Inr buffer)))"

text \<open>The data pointer must refer to as many bytes as are written; \<open>None\<close> is the null pointer.\<close>

definition writeSectors :: "'w Win32 \<Rightarrow> RawDiskHandle \<Rightarrow> u64 \<Rightarrow> bytes option \<Rightarrow> u64 \<Rightarrow> u32 \<Rightarrow> (unit Result, 'w) io"
  where
  "writeSectors W disk lba data count sectorSize w =
     (case rh_handle disk of
        None \<Rightarrow> Done (fail DiskWriteError ''Invalid disk handle'', w)
      | Some h \<Rightarrow>
          if rh_accessMode disk \<noteq> ReadWrite then
            Done (fail DiskAccessDenied ''Handle opened read-only, cannot write'', w)
          else if count = 0 then Done (ok, w)
          else
            (case data of
               None \<Rightarrow> Done (fail InvalidArgument ''Null data pointer'', w)
             | Some bs \<Rightarrow>
                 (let byteOffset = lba * ucast sectorSize;
                      totalBytes = count * ucast sectorSize
                  in if totalBytes > MAXDWORD then
                       Done (fail InvalidArgument ''Write request exceeds maximum single WriteFile size'', w)
                     else
                       require (unat totalBytes \<le> length bs)
                         (case WriteFile W h byteOffset (take (unat totalBytes) bs) w of
                            (Inl err, w') \<Rightarrow>
                              Done (Inl (makeWin32Error DiskWriteError ''WriteFile failed on physical disk'' err), w')
                          | (Inr bytesWritten, w') \<Rightarrow>
                              if bytesWritten \<noteq> ucast totalBytes then
                                Done (fail DiskWriteError ''Partial write: not all sectors were written'', w')
                              else Done (ok, w')))))"

definition getGeometry :: "'w Win32 \<Rightarrow> RawDiskHandle \<Rightarrow> 'w \<Rightarrow> DiskGeometryInfo Result" where
  "getGeometry W disk w =
     (case rh_handle disk of
        None \<Rightarrow> fail DiskReadError ''Invalid disk handle''
      | Some h \<Rightarrow>
          (case GetDriveGeometryEx W h w of
             Inl err \<Rightarrow> Inl (makeWin32Error DiskReadError ''IOCTL_DISK_GET_DRIVE_GEOMETRY_EX failed'' err)
           | Inr g \<Rightarrow>
               Inr \<lparr>dg_totalBytes = gx_diskSize g, dg_bytesPerSector = gx_bytesPerSector g,
                    dg_sectorsPerTrack = gx_sectorsPerTrack g,
                    dg_tracksPerCylinder = gx_tracksPerCylinder g, dg_cylinders = gx_cylinders g,
                    dg_mediaType = gx_mediaType g\<rparr>))"

record DriveLayoutPartition =
  lp_partitionNumber :: u32
  lp_startingOffset :: u64
  lp_partitionLength :: u64
  lp_rewritePartition :: bool
  lp_isRecognized :: bool
  lp_mbrPartitionType :: u8
  lp_mbrBootIndicator :: bool
  lp_gptPartitionType :: Guid
  lp_gptPartitionId :: Guid
  lp_gptAttributes :: u64
  lp_gptName :: wstr

record DriveLayoutInfo =
  li_partitionStyle :: PartitionTableType
  li_partitionCount :: u32
  li_mbrSignature :: u32
  li_gptDiskId :: Guid
  li_partitions :: "DriveLayoutPartition list"

definition layoutPartition :: "'w Win32 \<Rightarrow> PARTITION_INFORMATION_EX \<Rightarrow> DriveLayoutPartition option" where
  "layoutPartition W p =
     (if px_partitionLength p = 0 then None
      else
        (let part = \<lparr>lp_partitionNumber = px_partitionNumber p, lp_startingOffset = px_startingOffset p,
               lp_partitionLength = px_partitionLength p, lp_rewritePartition = px_rewritePartition p,
               lp_isRecognized = (px_style p = PARTITION_STYLE_GPT \<or> IsRecognizedPartition W (px_mbrType p)),
               lp_mbrPartitionType = 0, lp_mbrBootIndicator = False,
               lp_gptPartitionType = guid_zero, lp_gptPartitionId = guid_zero, lp_gptAttributes = 0,
               lp_gptName = []\<rparr>
         in Some
           (if px_style p = PARTITION_STYLE_MBR then
              part\<lparr>lp_mbrPartitionType := px_mbrType p, lp_mbrBootIndicator := px_mbrBootIndicator p\<rparr>
            else if px_style p = PARTITION_STYLE_GPT then
              part\<lparr>lp_gptPartitionType := Guid (take 16 (px_gptType p)), lp_gptPartitionId := Guid (take 16 (px_gptId p)),
                   lp_gptAttributes := px_gptAttributes p, lp_gptName := takeWhile (\<lambda>u. u \<noteq> 0) (px_gptName p)\<rparr>
            else part)))"

definition getDriveLayout :: "'w Win32 \<Rightarrow> RawDiskHandle \<Rightarrow> 'w \<Rightarrow> DriveLayoutInfo Result" where
  "getDriveLayout W disk w =
     (case rh_handle disk of
        None \<Rightarrow> fail DiskReadError ''Invalid disk handle''
      | Some h \<Rightarrow>
          (case GetDriveLayoutEx W h w of
             Inl err \<Rightarrow> Inl (makeWin32Error DiskReadError ''IOCTL_DISK_GET_DRIVE_LAYOUT_EX failed'' err)
           | Inr layout \<Rightarrow>
               Inr \<lparr>li_partitionStyle =
                      (case lx_style layout of PARTITION_STYLE_MBR \<Rightarrow> MBR | PARTITION_STYLE_GPT \<Rightarrow> GPT
                       | _ \<Rightarrow> UnknownTable),
                    li_partitionCount = of_nat (length (lx_entries layout)),
                    li_mbrSignature = (if lx_style layout = PARTITION_STYLE_MBR then lx_mbrSignature layout else 0),
                    li_gptDiskId = (if lx_style layout = PARTITION_STYLE_GPT
                                    then Guid (take 16 (lx_gptDiskId layout)) else guid_zero),
                    li_partitions = List.map_filter (layoutPartition W) (lx_entries layout)\<rparr>))"

definition volumePath :: "u16 \<Rightarrow> wstr" where
  "volumePath letter = widen ([CHR 0x5C, CHR 0x5C] @ ''.'' @ [CHR 0x5C]) @ [letter] @ widen '':''"

definition lockVolume :: "'w Win32 \<Rightarrow> u16 \<Rightarrow> (nat Result, 'w) io" where
  "lockVolume W volumeLetter w =
     (case CreateFileW W (volumePath volumeLetter) True w of
        (Inl err, w') \<Rightarrow> Done (Inl (makeWin32Error DiskAccessDenied ''Failed to open volume for locking'' err), w')
      | (Inr h, w') \<Rightarrow>
          (case DeviceControl W FSCTL_LOCK_VOLUME h w' of
             (Inl err, w'') \<Rightarrow>
               Done (Inl (fromWin32 DiskLockFailed err (''FSCTL_LOCK_VOLUME failed '' @ em_dash @ '' volume may be in use'')),
                 CloseHandle W h w'')
           | (Inr _, w'') \<Rightarrow> Done (Inr h, w'')))"

definition unlockVolume :: "'w Win32 \<Rightarrow> nat option \<Rightarrow> (unit Result, 'w) io" where
  "unlockVolume W volumeHandle w =
     (case volumeHandle of
        None \<Rightarrow> Done (fail InvalidArgument ''Invalid volume handle'', w)
      | Some h \<Rightarrow>
          (case DeviceControl W FSCTL_UNLOCK_VOLUME h w of
             (Inl err, w') \<Rightarrow> Done (Inl (makeWin32Error DiskLockFailed ''FSCTL_UNLOCK_VOLUME failed'' err), w')
           | (Inr _, w') \<Rightarrow> Done (ok, w')))"

definition dismountVolume :: "'w Win32 \<Rightarrow> u16 \<Rightarrow> (unit Result, 'w) io" where
  "dismountVolume W volumeLetter w =
     (case CreateFileW W (volumePath volumeLetter) True w of
        (Inl err, w') \<Rightarrow> Done (Inl (makeWin32Error DiskAccessDenied ''Failed to open volume for dismount'' err), w')
      | (Inr h, w') \<Rightarrow>
          (case DeviceControl W FSCTL_DISMOUNT_VOLUME h w' of
             (Inl err, w'') \<Rightarrow>
               Done (Inl (fromWin32 DiskDismountFailed err ''FSCTL_DISMOUNT_VOLUME failed''), CloseHandle W h w'')
           | (Inr _, w'') \<Rightarrow> Done (ok, CloseHandle W h w'')))"

definition rawFlushBuffers :: "'w Win32 \<Rightarrow> RawDiskHandle \<Rightarrow> (unit Result, 'w) io" where
  "rawFlushBuffers W disk w =
     (case rh_handle disk of
        None \<Rightarrow> Done (fail DiskWriteError ''Invalid disk handle'', w)
      | Some h \<Rightarrow>
          (case FlushFileBuffers W h w of
             (Inl err, w') \<Rightarrow> Done (Inl (makeWin32Error DiskWriteError ''FlushFileBuffers failed'' err), w')
           | (Inr _, w') \<Rightarrow> Done (ok, w')))"

section \<open>What the code relies on\<close>

text \<open>
  A view of the world: the contents of the disks, and what the open handles were opened for. A
  handle of a physical disk records whether it was opened for writing.
\<close>

datatype target = OnDisk int bool | OnVolume wstr

record 'w win_view =
  contents :: "'w \<Rightarrow> int \<Rightarrow> bytes"
  handles :: "'w \<Rightarrow> nat \<Rightarrow> target option"

text \<open>
  The laws of handles: opening yields a handle that was not open, closing closes that handle only,
  and no other call opens or closes any.
\<close>

definition handle_laws :: "'w Win32 \<Rightarrow> 'w win_view \<Rightarrow> bool" where
  "handle_laws W V \<longleftrightarrow>
     (\<forall>path rw w e w'. CreateFileW W path rw w = (Inl e, w') \<longrightarrow> handles V w' = handles V w) \<and>
     (\<forall>path rw w h w'. CreateFileW W path rw w = (Inr h, w') \<longrightarrow>
        handles V w h = None \<and> (\<exists>t. handles V w' = (handles V w)(h \<mapsto> t))) \<and>
     (\<forall>h w. handles V (CloseHandle W h w) = (handles V w)(h := None)) \<and>
     (\<forall>h off bs w r w'. WriteFile W h off bs w = (r, w') \<longrightarrow> handles V w' = handles V w) \<and>
     (\<forall>h w r w'. FlushFileBuffers W h w = (r, w') \<longrightarrow> handles V w' = handles V w) \<and>
     (\<forall>c h w r w'. DeviceControl W c h w = (r, w') \<longrightarrow> handles V w' = handles V w) \<and>
     (\<forall>path label w r w'. SetVolumeLabelW W path label w = (r, w') \<longrightarrow> handles V w' = handles V w)"

text \<open>The laws of disk contents.\<close>

definition content_laws :: "'w Win32 \<Rightarrow> 'w win_view \<Rightarrow> bool" where
  "content_laws W V \<longleftrightarrow>
     (\<forall>d rw w r w'. CreateFileW W (physicalDrive d) rw w = (r, w') \<longrightarrow>
        contents V w' = contents V w \<and> (\<forall>h. r = Inr h \<longrightarrow> handles V w' h = Some (OnDisk d rw))) \<and>
     (\<forall>h w. contents V (CloseHandle W h w) = contents V w) \<and>
     (\<forall>h off n w bs d rw. ReadFile W h off n w = Inr bs \<longrightarrow> handles V w h = Some (OnDisk d rw) \<longrightarrow>
        bs = slice (unat off) (unat n) (contents V w d)) \<and>
     (\<forall>h off bs w k w' d rw. WriteFile W h off bs w = (Inr k, w') \<longrightarrow> unat k = length bs \<longrightarrow>
        handles V w h = Some (OnDisk d rw) \<longrightarrow> unat off + length bs \<le> length (contents V w d) \<and>
        contents V w' = (contents V w)(d := blit (unat off) bs (contents V w d))) \<and>
     (\<forall>h w r w'. FlushFileBuffers W h w = (r, w') \<longrightarrow> contents V w' = contents V w) \<and>
     (\<forall>h w r w'. DeviceControl W IOCTL_DISK_UPDATE_PROPERTIES h w = (r, w') \<longrightarrow> contents V w' = contents V w)"

definition win32_laws :: "'w Win32 \<Rightarrow> 'w win_view \<Rightarrow> bool" where
  "win32_laws W V \<longleftrightarrow> handle_laws W V \<and> content_laws W V"

text \<open>A disk without faults: it can be opened, and requests inside it succeed.\<close>

definition disk_works :: "'w Win32 \<Rightarrow> 'w win_view \<Rightarrow> int \<Rightarrow> bool" where
  "disk_works W V d \<longleftrightarrow>
     (\<forall>rw w. \<exists>h w'. CreateFileW W (physicalDrive d) rw w = (Inr h, w')) \<and>
     (\<forall>h w rw. handles V w h = Some (OnDisk d rw) \<longrightarrow>
        (\<exists>g. GetDriveGeometryEx W h w = Inr g \<and> gx_diskSize g = of_nat (length (contents V w d))) \<and>
        (\<forall>off n. unat off + unat n \<le> length (contents V w d) \<longrightarrow> (\<exists>bs. ReadFile W h off n w = Inr bs))) \<and>
     (\<forall>h w off bs. handles V w h = Some (OnDisk d True) \<longrightarrow>
        unat off + length bs \<le> length (contents V w d) \<longrightarrow> length bs < 2 ^ 32 \<longrightarrow>
        (\<exists>w'. WriteFile W h off bs w = (Inr (of_nat (length bs)), w'))) \<and>
     (\<forall>h w. handles V w h = Some (OnDisk d True) \<longrightarrow> (\<exists>w'. FlushFileBuffers W h w = (Inr (), w')))"

section \<open>Sector access\<close>

lemma handle_lawsD:
  assumes "handle_laws W V"
  shows "CreateFileW W path rw w = (Inl e, w') \<Longrightarrow> handles V w' = handles V w"
    and "CreateFileW W path rw w = (Inr h, w') \<Longrightarrow>
      handles V w h = None \<and> (handles V w')(h := None) = handles V w"
    and "handles V (CloseHandle W h w) = (handles V w)(h := None)"
    and "WriteFile W h off bs w = (r, w') \<Longrightarrow> handles V w' = handles V w"
    and "FlushFileBuffers W h w = (r', w') \<Longrightarrow> handles V w' = handles V w"
    and "DeviceControl W c h w = (r', w') \<Longrightarrow> handles V w' = handles V w"
    and "SetVolumeLabelW W path label w = (r', w') \<Longrightarrow> handles V w' = handles V w"
  using assms unfolding handle_laws_def by - (metis fun_upd_triv fun_upd_upd | blast)+

lemma content_lawsD:
  assumes "content_laws W V"
  shows "CreateFileW W (physicalDrive d) rw w = (r, w') \<Longrightarrow> contents V w' = contents V w"
    and "CreateFileW W (physicalDrive d) rw w = (Inr h, w') \<Longrightarrow> handles V w' h = Some (OnDisk d rw)"
    and "contents V (CloseHandle W h w) = contents V w"
    and "ReadFile W h off n w = Inr bs \<Longrightarrow> handles V w h = Some (OnDisk d rw) \<Longrightarrow>
      bs = slice (unat off) (unat n) (contents V w d)"
    and "WriteFile W h off bs w = (Inr k, w') \<Longrightarrow> unat k = length bs \<Longrightarrow> handles V w h = Some (OnDisk d rw) \<Longrightarrow>
      unat off + length bs \<le> length (contents V w d) \<and>
      contents V w' = (contents V w)(d := blit (unat off) bs (contents V w d))"
    and "FlushFileBuffers W h w = (r', w') \<Longrightarrow> contents V w' = contents V w"
    and "DeviceControl W IOCTL_DISK_UPDATE_PROPERTIES h w = (r', w') \<Longrightarrow> contents V w' = contents V w"
  using assms unfolding content_laws_def by - (metis | blast)+

lemma rawOpen_Done:
  "rawOpen W d mode w = Done (Inr disk, w') \<longleftrightarrow>
     (\<exists>h. CreateFileW W (physicalDrive d) (mode = ReadWrite) w = (Inr h, w') \<and>
        disk = \<lparr>rh_handle = Some h, rh_diskId = d, rh_accessMode = mode\<rparr>)"
  "rawOpen W d mode w = Done (Inl e, w') \<Longrightarrow>
     \<exists>err. CreateFileW W (physicalDrive d) (mode = ReadWrite) w = (Inl err, w')"
  by (auto simp: rawOpen_def io_bind_Done io_return_Done openPath_def result_map_def
      split: prod.splits sum.splits)

lemma rawOpen_total: "\<exists>r w'. rawOpen W d mode w = Done (r, w')"
  by (auto simp: rawOpen_def io_bind_def io_return_def openPath_def split: prod.splits sum.splits)

lemma withDisk_Done:
  "withDisk W d mode body w = Done (r, w'') \<longleftrightarrow>
     (\<exists>e. rawOpen W d mode w = Done (Inl e, w'') \<and> r = Inl e) \<or>
     (\<exists>h w1 w2. CreateFileW W (physicalDrive d) (mode = ReadWrite) w = (Inr h, w1) \<and>
        body \<lparr>rh_handle = Some h, rh_diskId = d, rh_accessMode = mode\<rparr> w1 = Done (r, w2) \<and>
        w'' = CloseHandle W h w2)"
  by (auto simp: withDisk_def io_try_Done rawOpen_Done(1) run_bind_Done_iff rawDestroy_def rawClose_def)

lemma withDisk_handles [keeps_intros]:
  assumes "handle_laws W V" "\<And>disk. keeps (handles V) (body disk)"
  shows "keeps (handles V) (withDisk W d mode body)"
  unfolding keeps_def withDisk_Done
  using handle_lawsD(1-3) [OF assms(1)] keepsD [OF assms(2)] rawOpen_Done(2) by (metis (no_types, lifting))

lemma withDisk_contents [keeps_intros]:
  assumes "content_laws W V" "\<And>disk. keeps (contents V) (body disk)"
  shows "keeps (contents V) (withDisk W d mode body)"
  unfolding keeps_def withDisk_Done
  by (auto simp: content_lawsD(3) [OF assms(1)] dest!: rawOpen_Done(2) content_lawsD(1) [OF assms(1)]
      keepsD [OF assms(2)])

lemma flush_handles [keeps_intros]: "handle_laws W V \<Longrightarrow> keeps (handles V) (rawFlushBuffers W disk)"
  using handle_lawsD(5) by (fastforce simp: keeps_def rawFlushBuffers_def split: option.splits prod.splits sum.splits)

lemma flush_contents [keeps_intros]: "content_laws W V \<Longrightarrow> keeps (contents V) (rawFlushBuffers W disk)"
  using content_lawsD(6) by (fastforce simp: keeps_def rawFlushBuffers_def split: option.splits prod.splits sum.splits)

lemma unat_ucast_MAXDWORD: "\<not> MAXDWORD < (n :: u64) \<Longrightarrow> unat (ucast n :: u32) = unat n"
  by (simp add: word_less_nat_alt not_less unsigned_ucast_eq take_bit_nat_eq_self)

lemma readSectors_slice:
  assumes "content_laws W V" "rh_handle disk = Some h" "handles V w h = Some (OnDisk d rw)"
    and "readSectors W disk lba count ss w = Inr bs"
  shows "bs = slice (unat (lba * ucast ss)) (unat (count * ucast ss)) (contents V w d)"
proof (cases "count = 0")
  case True
  with assms(2,4) show ?thesis by (simp add: readSectors_def slice_def)
next
  case False
  then have "\<not> MAXDWORD < count * ucast ss"
    "ReadFile W h (lba * ucast ss) (ucast (count * ucast ss)) w = Inr bs"
    using assms(2,4) by (auto simp: readSectors_def Let_def split: if_splits sum.splits)
  with content_lawsD(4) [OF assms(1) this(2) assms(3)] show ?thesis by (simp add: unat_ucast_MAXDWORD)
qed

lemma writeSectors_handles [keeps_intros]:
  assumes "handle_laws W V"
  shows "keeps (handles V) (writeSectors W disk lba data count ss)"
  using handle_lawsD(4) [OF assms]
  by (fastforce simp: keeps_def writeSectors_def Let_def require_Done_iff
      split: option.splits if_splits prod.splits sum.splits)

lemma writeSectors_content:
  assumes "content_laws W V" "rh_handle disk = Some h" "handles V w h = Some (OnDisk d rw)"
    and "writeSectors W disk lba (Some bs) count ss w = Done (Inr u, w')"
  shows "contents V w' = (contents V w)(d := blit (unat (lba * ucast ss)) (take (unat (count * ucast ss)) bs) (contents V w d))"
    and "count \<noteq> 0 \<Longrightarrow> unat (count * ucast ss) \<le> length bs \<and>
      unat (lba * ucast ss) + unat (count * ucast ss) \<le> length (contents V w d)"
proof -
  let ?n = "count * ucast ss :: u64"
  have "contents V w' = (contents V w)(d := blit (unat (lba * ucast ss)) (take (unat ?n) bs) (contents V w d)) \<and>
    (count \<noteq> 0 \<longrightarrow> unat ?n \<le> length bs \<and> unat (lba * ucast ss) + unat ?n \<le> length (contents V w d))"
  proof (cases "count = 0")
    case True
    with assms(2,4) have "w' = w" by (auto simp: writeSectors_def split: if_splits)
    with True show ?thesis by (simp add: blit_def)
  next
    case False
    then have le: "\<not> MAXDWORD < ?n" "unat ?n \<le> length bs"
      and wr: "WriteFile W h (lba * ucast ss) (take (unat ?n) bs) w = (Inr (ucast ?n), w')"
      using assms(2,4) by (auto simp: writeSectors_def Let_def require_Done_iff split: if_splits prod.splits sum.splits)
    have "unat (ucast ?n :: u32) = length (take (unat ?n) bs)"
      using unat_ucast_MAXDWORD [OF le(1)] le(2) by simp
    with content_lawsD(5) [OF assms(1) wr _ assms(3)] le(2) show ?thesis by simp
  qed
  then show "contents V w' = (contents V w)(d := blit (unat (lba * ucast ss)) (take (unat ?n) bs) (contents V w d))"
    "count \<noteq> 0 \<Longrightarrow> unat ?n \<le> length bs \<and> unat (lba * ucast ss) + unat ?n \<le> length (contents V w d)"
    by blast+
qed

lemma slice_blit_frame:
  assumes "off + length bs \<le> length buf" "o2 + n \<le> off \<or> off + length bs \<le> o2"
  shows "slice o2 n (blit off bs buf) = slice o2 n buf"
  using assms(2)
proof
  assume "o2 + n \<le> off"
  then show ?thesis using assms(1) by (simp add: slice_def blit_def take_drop)
next
  assume "off + length bs \<le> o2"
  then obtain k where "o2 = off + length bs + k" by (auto simp: le_iff_add)
  then show ?thesis using assms(1) by (simp add: slice_def blit_def add.commute)
qed

text \<open>
  Sectors that were written read back as written: after a successful \<open>writeSectors\<close>, a read of
  the same sectors returns the data, and a read of any disk or any range of bytes that the write does
  not touch returns what was there before.
\<close>

theorem readSectors_writeSectors:
  assumes "win32_laws W V" "rh_handle disk = Some h" "handles V w h = Some (OnDisk d rw)"
    and "writeSectors W disk lba (Some data) count ss w = Done (Inr u, w')"
    and "rh_handle reader = Some h'" "handles V w h' = Some (OnDisk d' rw')"
    and "readSectors W reader lba' count' ss' w' = Inr bs"
  shows "(d' = d \<and> lba' = lba \<and> count' = count \<and> ss' = ss \<longrightarrow> bs = take (unat (count * ucast ss)) data) \<and>
    (d' \<noteq> d \<or> unat (lba' * ucast ss') + unat (count' * ucast ss') \<le> unat (lba * ucast ss) \<or>
      unat (lba * ucast ss) + unat (count * ucast ss) \<le> unat (lba' * ucast ss') \<longrightarrow>
      bs = slice (unat (lba' * ucast ss')) (unat (count' * ucast ss')) (contents V w d'))"
proof -
  let ?o = "unat (lba * ucast ss)" and ?n = "unat (count * ucast ss)"
  have laws: "content_laws W V" "handle_laws W V" using assms(1) by (simp_all add: win32_laws_def)
  note wr = writeSectors_content [OF laws(1) assms(2-4)]
  have h': "handles V w' h' = Some (OnDisk d' rw')"
    using keepsD [OF writeSectors_handles [OF laws(2)] assms(4)] assms(6) by simp
  have bs: "bs = slice (unat (lba' * ucast ss')) (unat (count' * ucast ss')) (contents V w' d')"
    by (rule readSectors_slice [OF laws(1) assms(5) h' assms(7)])
  show ?thesis
  proof (cases "count = 0")
    case True
    with wr(1) bs show ?thesis by (auto simp: blit_def slice_def)
  next
    case False
    with wr(2) have "?n \<le> length data" "?o + ?n \<le> length (contents V w d)" by blast+
    then have len: "?o + length (take ?n data) \<le> length (contents V w d)" "length (take ?n data) = ?n" by simp_all
    have "slice ?o ?n (blit ?o (take ?n data) (contents V w d)) = take ?n data"
      using slice_blit_same [OF len(1)] len(2) by simp
    moreover have "slice a k (blit ?o (take ?n data) (contents V w d)) = slice a k (contents V w d)"
      if "a + k \<le> ?o \<or> ?o + ?n \<le> a" for a k
      using slice_blit_frame [OF len(1), of a k] that len(2) by simp
    ultimately show ?thesis using bs wr(1) by auto
  qed
qed

section \<open>An API on one disk in memory\<close>

text \<open>
  A machine with one disk, number 0, whose requests succeed inside the disk. A handle is a position
  in the list of handles opened so far; a path that ends in a colon is a volume.
\<close>

record sim_world =
  sim_disk :: bytes
  sim_handles :: "target option list"

definition sim_target :: "sim_world \<Rightarrow> nat \<Rightarrow> target option" where
  "sim_target w h = (if h < length (sim_handles w) then sim_handles w ! h else None)"

definition sim_open :: "target \<Rightarrow> sim_world \<Rightarrow> (u32 + nat) \<times> sim_world" where
  "sim_open t w = (Inr (length (sim_handles w)), w\<lparr>sim_handles := sim_handles w @ [Some t]\<rparr>)"

definition sim_create :: "wstr \<Rightarrow> bool \<Rightarrow> sim_world \<Rightarrow> (u32 + nat) \<times> sim_world" where
  "sim_create path rw w =
     (if path = physicalDrive 0 then sim_open (OnDisk 0 rw) w
      else if path \<noteq> [] \<and> last path = 58 then sim_open (OnVolume path) w
      else (Inl ERROR_FILE_NOT_FOUND, w))"

definition sim_read :: "nat \<Rightarrow> u64 \<Rightarrow> u32 \<Rightarrow> sim_world \<Rightarrow> u32 + bytes" where
  "sim_read h off n w =
     (case sim_target w h of
        Some (OnDisk d rw) \<Rightarrow>
          if d = 0 \<and> unat off + unat n \<le> length (sim_disk w)
          then Inr (slice (unat off) (unat n) (sim_disk w)) else Inl 38
      | _ \<Rightarrow> Inl 6)"

definition sim_write :: "nat \<Rightarrow> u64 \<Rightarrow> bytes \<Rightarrow> sim_world \<Rightarrow> (u32 + u32) \<times> sim_world" where
  "sim_write h off bs w =
     (case sim_target w h of
        Some (OnDisk d rw) \<Rightarrow>
          if d = 0 \<and> rw \<and> unat off + length bs \<le> length (sim_disk w)
          then (Inr (of_nat (length bs)), w\<lparr>sim_disk := blit (unat off) bs (sim_disk w)\<rparr>) else (Inl 5, w)
      | _ \<Rightarrow> (Inl 6, w))"

definition sim_win32 :: "sim_world Win32" where
  "sim_win32 = \<lparr>CreateFileW = sim_create,
     CloseHandle = (\<lambda>h w. w\<lparr>sim_handles := (sim_handles w)[h := None]\<rparr>),
     ReadFile = sim_read, WriteFile = sim_write,
     FlushFileBuffers = (\<lambda>h w. (Inr (), w)), DeviceControl = (\<lambda>c h w. (Inr (), w)),
     GetDriveGeometryEx = (\<lambda>h w. Inr \<lparr>gx_diskSize = of_nat (length (sim_disk w)), gx_cylinders = 0,
       gx_mediaType = 12, gx_tracksPerCylinder = 255, gx_sectorsPerTrack = 63, gx_bytesPerSector = 512\<rparr>),
     GetDriveLayoutEx = (\<lambda>h w. Inl 1), IsRecognizedPartition = (\<lambda>t. t \<noteq> 0),
     GetVolumeInformationW = (\<lambda>path w. Inl 1), GetDiskFreeSpaceExW = (\<lambda>path w. Inl 1),
     DeleteVolumeMountPointW = (\<lambda>path w. (Inl 1, w)), SetVolumeLabelW = (\<lambda>path label w. (Inr (), w))\<rparr>"

definition sim_view :: "sim_world win_view" where
  "sim_view = \<lparr>contents = (\<lambda>w d. if d = 0 then sim_disk w else []), handles = sim_target\<rparr>"

lemmas sim_defs = sim_win32_def sim_view_def sim_create_def sim_open_def sim_read_def sim_write_def

text \<open>Drive numbers are printed injectively.\<close>

lemma dec_digits: "dec n \<noteq> [] \<and> set (dec n) \<subseteq> set ''0123456789''"
proof (induction n rule: dec.induct)
  case (1 n)
  have "''0123456789'' ! (n mod 10) \<in> set ''0123456789''" by (rule nth_mem) simp
  with 1 show ?case by (subst (1 2) dec.simps) (auto simp: Let_def)
qed

lemma dec_zero: "dec n = ''0'' \<longleftrightarrow> n = 0"
proof -
  have "''0123456789'' ! n = CHR ''0'' \<longleftrightarrow> n = 0" if "n < 10"
    using that nth_eq_iff_index_eq [of "''0123456789''" n 0] by simp
  then show ?thesis using dec_digits [of "n div 10"] by (subst dec.simps) (auto simp: append_eq_Cons_conv)
qed

lemma widen_inj: "widen a = widen b \<longleftrightarrow> a = b"
proof -
  have "inj (\<lambda>c. of_nat (of_char c) :: u16)"
  proof (rule injI)
    fix c d :: char
    assume "(of_nat (of_char c) :: u16) = of_nat (of_char d)"
    then have "unat (of_nat (of_char c) :: u16) = unat (of_nat (of_char d) :: u16)" by simp
    moreover have "(of_char c :: nat) < 256" "(of_char d :: nat) < 256" by simp_all
    ultimately show "c = d" by (simp add: unat_of_nat)
  qed
  then show ?thesis by (simp add: widen_def inj_map_eq_map)
qed

lemma physicalDrive_zero: "physicalDrive d = physicalDrive 0 \<longleftrightarrow> d = 0"
  using dec_zero [of "nat d"] dec_zero [of 0] by (auto simp: physicalDrive_def widen_inj)

lemma physicalDrive_not_volume: "last (physicalDrive d) \<noteq> 58"
proof -
  let ?c = "last (dec (if d < 0 then nat (- d) else nat d))"
  have "?c \<in> set ''0123456789''" using dec_digits last_in_set by blast
  moreover have "last (physicalDrive d) = of_nat (of_char ?c)"
    using dec_digits by (auto simp: physicalDrive_def widen_def last_map)
  ultimately show ?thesis by auto
qed

lemma sim_win32_laws: "win32_laws sim_win32 sim_view"
proof -
  have "content_laws sim_win32 sim_view"
    unfolding content_laws_def
    by (auto simp: sim_defs physicalDrive_zero physicalDrive_not_volume sim_target_def
        split: if_splits option.splits target.splits)
  moreover have "handle_laws sim_win32 sim_view"
    unfolding handle_laws_def
    by (auto simp: sim_defs sim_target_def fun_eq_iff nth_append less_Suc_eq nth_list_update
        split: if_splits option.splits target.splits)
  ultimately show ?thesis by (simp add: win32_laws_def)
qed

lemma sim_disk_works: "disk_works sim_win32 sim_view 0"
  unfolding disk_works_def by (auto simp: sim_defs)

definition sim_start :: sim_world where
  "sim_start = \<lparr>sim_disk = [1, 2, 3, 4, 5, 6, 7, 8], sim_handles = [Some (OnDisk 0 True)]\<rparr>"

definition sim_handle :: RawDiskHandle where
  "sim_handle = \<lparr>rh_handle = Some 0, rh_diskId = 0, rh_accessMode = ReadWrite\<rparr>"

theorem readSectors_writeSectors_witness:
  "\<exists>w'. writeSectors sim_win32 sim_handle 1 (Some [9, 10]) 1 2 sim_start = Done (ok, w') \<and>
     readSectors sim_win32 sim_handle 1 1 2 w' = Inr [9, 10] \<and>
     readSectors sim_win32 sim_handle 2 2 2 w' = Inr [5, 6, 7, 8]"
proof -
  let ?w' = "sim_start\<lparr>sim_disk := [1, 2, 9, 10, 5, 6, 7, 8]\<rparr>"
  have wr: "writeSectors sim_win32 sim_handle 1 (Some [9, 10]) 1 2 sim_start = Done (Inr (), ?w')"
    by (simp add: writeSectors_def sim_handle_def sim_start_def sim_defs sim_target_def Let_def blit_def)
  have rd: "\<exists>bs. readSectors sim_win32 sim_handle a b 2 ?w' = Inr bs" if "(a, b) \<in> {(1, 1), (2, 2)}" for a b
    using that by (auto simp: readSectors_def sim_handle_def sim_start_def sim_defs sim_target_def Let_def)
  have h: "rh_handle sim_handle = Some 0" "handles sim_view sim_start 0 = Some (OnDisk 0 True)"
    by (simp_all add: sim_handle_def sim_view_def sim_target_def sim_start_def)
  obtain bs where bs1: "readSectors sim_win32 sim_handle 1 1 2 ?w' = Inr bs" using rd [of 1 1] by fastforce
  obtain bs' where bs2: "readSectors sim_win32 sim_handle 2 2 2 ?w' = Inr bs'" using rd [of 2 2] by fastforce
  have "bs = take (unat (1 * ucast (2 :: u32) :: u64)) [9, 10]"
    using conjunct1 [OF readSectors_writeSectors [OF sim_win32_laws h wr h bs1]] by simp
  moreover have "bs' = slice (unat (2 * ucast (2 :: u32) :: u64)) (unat (2 * ucast (2 :: u32) :: u64))
      (contents sim_view sim_start 0)"
    by (rule mp [OF conjunct2 [OF readSectors_writeSectors [OF sim_win32_laws h wr h bs2]]]) simp
  ultimately have "bs = [9, 10]" "bs' = [5, 6, 7, 8]"
    by (simp_all add: sim_view_def sim_start_def slice_def)
  with wr bs1 bs2 show ?thesis by (intro exI [of _ ?w']) simp
qed

end
