(* ===== verification/Volume_Handle.thy ===== *)
theory Volume_Handle
  imports Raw_Disk
begin

text \<open>
  \<open>src/core/disk/VolumeHandle.cpp\<close>: an owned handle of a volume that remembers whether it holds the
  lock, with its destructor and moves, and the queries by drive letter or volume path.
\<close>

record VolumeHandle =
  vh_handle :: "nat option"
  vh_locked :: bool
  vh_path :: wstr

definition vol_new :: VolumeHandle where
  "vol_new = \<lparr>vh_handle = None, vh_locked = False, vh_path = []\<rparr>"

definition vol_isValid :: "VolumeHandle \<Rightarrow> bool" where
  "vol_isValid v \<longleftrightarrow> vh_handle v \<noteq> None"

definition vol_close :: "'w Win32 \<Rightarrow> VolumeHandle \<Rightarrow> 'w \<Rightarrow> VolumeHandle \<times> 'w" where
  "vol_close W v w =
     (case vh_handle v of
        None \<Rightarrow> (v, w)
      | Some h \<Rightarrow> (v\<lparr>vh_handle := None, vh_locked := False\<rparr>, CloseHandle W h w))"

definition vol_destroy :: "'w Win32 \<Rightarrow> VolumeHandle \<Rightarrow> 'w \<Rightarrow> 'w" where
  "vol_destroy W v w =
     (let w = (case vh_handle v of
                 Some h \<Rightarrow> if vh_locked v then snd (DeviceControl W FSCTL_UNLOCK_VOLUME h w) else w
               | None \<Rightarrow> w)
      in snd (vol_close W v w))"

text \<open>The move constructor yields the new object and the moved-from one.\<close>

definition vol_move :: "VolumeHandle \<Rightarrow> VolumeHandle \<times> VolumeHandle" where
  "vol_move other = (other, other\<lparr>vh_handle := None, vh_locked := False, vh_path := []\<rparr>)"

definition vol_moveAssign :: "'w Win32 \<Rightarrow> VolumeHandle \<Rightarrow> VolumeHandle \<Rightarrow> 'w \<Rightarrow>
    (VolumeHandle \<times> VolumeHandle) \<times> 'w" where
  "vol_moveAssign W this other w = (vol_move other, vol_destroy W this w)"

definition vol_openPath :: "'w Win32 \<Rightarrow> wstr \<Rightarrow> DiskAccessMode \<Rightarrow> (VolumeHandle Result, 'w) io" where
  "vol_openPath W path mode w =
     (case CreateFileW W path (mode = ReadWrite) w of
        (Inl lastErr, w') \<Rightarrow>
          Done (Inl (if lastErr = ERROR_ACCESS_DENIED then
                       fromWin32 DiskAccessDenied lastErr ''Access denied opening volume. Run as Administrator.''
                     else makeWin32Error DiskNotFound ''Failed to open volume'' lastErr), w')
      | (Inr h, w') \<Rightarrow> Done (Inr (vol_new\<lparr>vh_handle := Some h, vh_path := path\<rparr>), w'))"

definition openByLetter :: "'w Win32 \<Rightarrow> u16 \<Rightarrow> DiskAccessMode \<Rightarrow> (VolumeHandle Result, 'w) io" where
  "openByLetter W driveLetter mode = vol_openPath W (volumePath driveLetter) mode"

abbreviation (input) backslash :: u16 where "backslash \<equiv> 92"

definition openByGuid :: "'w Win32 \<Rightarrow> wstr \<Rightarrow> DiskAccessMode \<Rightarrow> (VolumeHandle Result, 'w) io" where
  "openByGuid W volumeGuidPath mode =
     vol_openPath W (if volumeGuidPath \<noteq> [] \<and> last volumeGuidPath = backslash
                     then butlast volumeGuidPath else volumeGuidPath) mode"

definition vol_lock :: "'w Win32 \<Rightarrow> VolumeHandle \<Rightarrow> 'w \<Rightarrow> unit Result \<times> VolumeHandle \<times> 'w" where
  "vol_lock W v w =
     (case vh_handle v of
        None \<Rightarrow> (fail DiskLockFailed ''Invalid volume handle'', v, w)
      | Some h \<Rightarrow>
          (case DeviceControl W FSCTL_LOCK_VOLUME h w of
             (Inl err, w') \<Rightarrow>
               (Inl (makeWin32Error DiskLockFailed
                  (''FSCTL_LOCK_VOLUME failed '' @ em_dash @ '' volume may be in use'') err), v, w')
           | (Inr _, w') \<Rightarrow> (ok, v\<lparr>vh_locked := True\<rparr>, w')))"

definition vol_unlock :: "'w Win32 \<Rightarrow> VolumeHandle \<Rightarrow> 'w \<Rightarrow> unit Result \<times> VolumeHandle \<times> 'w" where
  "vol_unlock W v w =
     (case vh_handle v of
        None \<Rightarrow> (fail DiskLockFailed ''Invalid volume handle'', v, w)
      | Some h \<Rightarrow>
          (case DeviceControl W FSCTL_UNLOCK_VOLUME h w of
             (Inl err, w') \<Rightarrow> (Inl (makeWin32Error DiskLockFailed ''FSCTL_UNLOCK_VOLUME failed'' err), v, w')
           | (Inr _, w') \<Rightarrow> (ok, v\<lparr>vh_locked := False\<rparr>, w')))"

definition vol_dismount :: "'w Win32 \<Rightarrow> VolumeHandle \<Rightarrow> 'w \<Rightarrow> unit Result \<times> 'w" where
  "vol_dismount W v w =
     (case vh_handle v of
        None \<Rightarrow> (fail DiskDismountFailed ''Invalid volume handle'', w)
      | Some h \<Rightarrow>
          (case DeviceControl W FSCTL_DISMOUNT_VOLUME h w of
             (Inl err, w') \<Rightarrow> (Inl (makeWin32Error DiskDismountFailed ''FSCTL_DISMOUNT_VOLUME failed'' err), w')
           | (Inr _, w') \<Rightarrow> (ok, w')))"

definition readBytes :: "'w Win32 \<Rightarrow> VolumeHandle \<Rightarrow> u64 \<Rightarrow> u32 \<Rightarrow> 'w \<Rightarrow> bytes Result" where
  "readBytes W v byteOffset byteCount w =
     (case vh_handle v of
        None \<Rightarrow> fail DiskReadError ''Invalid volume handle''
      | Some h \<Rightarrow>
          if byteCount = 0 then Inr []
          else
            (case ReadFile W h byteOffset byteCount w of
               Inl err \<Rightarrow> Inl (makeWin32Error DiskReadError ''ReadFile failed on volume'' err)
             | Inr buffer \<Rightarrow> Inr buffer))"

definition writeBytes :: "'w Win32 \<Rightarrow> VolumeHandle \<Rightarrow> u64 \<Rightarrow> bytes option \<Rightarrow> u32 \<Rightarrow> (unit Result, 'w) io" where
  "writeBytes W v byteOffset data byteCount w =
     (case vh_handle v of
        None \<Rightarrow> Done (fail DiskWriteError ''Invalid volume handle'', w)
      | Some h \<Rightarrow>
          if byteCount = 0 then Done (ok, w)
          else
            (case data of
               None \<Rightarrow> Done (fail InvalidArgument ''Null data pointer'', w)
             | Some bs \<Rightarrow>
                 require (unat byteCount \<le> length bs)
                   (case WriteFile W h byteOffset (take (unat byteCount) bs) w of
                      (Inl err, w') \<Rightarrow> Done (Inl (makeWin32Error DiskWriteError ''WriteFile failed on volume'' err), w')
                    | (Inr bytesWritten, w') \<Rightarrow>
                        if bytesWritten \<noteq> byteCount then Done (fail DiskWriteError ''Partial write to volume'', w')
                        else Done (ok, w'))))"

definition rootPath :: "u16 \<Rightarrow> wstr" where
  "rootPath driveLetter = [driveLetter, 58, backslash]"

definition getFilesystemInfo :: "'w Win32 \<Rightarrow> u16 \<Rightarrow> 'w \<Rightarrow> VolumeFilesystemInfo Result" where
  "getFilesystemInfo W driveLetter w =
     (case GetVolumeInformationW W (rootPath driveLetter) w of
        Inl err \<Rightarrow> Inl (makeWin32Error DiskReadError ''GetVolumeInformationW failed'' err)
      | Inr info \<Rightarrow> Inr info)"

definition getFilesystemInfoByGuid :: "'w Win32 \<Rightarrow> wstr \<Rightarrow> 'w \<Rightarrow> VolumeFilesystemInfo Result" where
  "getFilesystemInfoByGuid W volumeGuidPath w =
     (case GetVolumeInformationW W
             (if volumeGuidPath \<noteq> [] \<and> last volumeGuidPath \<noteq> backslash
              then volumeGuidPath @ [backslash] else volumeGuidPath) w of
        Inl err \<Rightarrow> Inl (makeWin32Error DiskReadError ''GetVolumeInformationW failed for GUID path'' err)
      | Inr info \<Rightarrow> Inr info)"

definition getSpaceInfo :: "'w Win32 \<Rightarrow> u16 \<Rightarrow> 'w \<Rightarrow> VolumeSpaceInfo Result" where
  "getSpaceInfo W driveLetter w =
     (case GetDiskFreeSpaceExW W (rootPath driveLetter) w of
        Inl err \<Rightarrow> Inl (makeWin32Error DiskReadError ''GetDiskFreeSpaceExW failed'' err)
      | Inr (freeBytesAvailable, totalBytes, totalFreeBytes) \<Rightarrow>
          Inr \<lparr>vs_totalBytes = totalBytes, vs_freeBytes = totalFreeBytes, vs_availableBytes = freeBytesAvailable\<rparr>)"

definition deleteMountPoint :: "'w Win32 \<Rightarrow> wstr \<Rightarrow> (unit Result, 'w) io" where
  "deleteMountPoint W mountPoint w =
     (case DeleteVolumeMountPointW W mountPoint w of
        (Inl err, w') \<Rightarrow> Done (Inl (makeWin32Error DiskWriteError ''DeleteVolumeMountPointW failed'' err), w')
      | (Inr _, w') \<Rightarrow> Done (ok, w'))"

definition vol_flushBuffers :: "'w Win32 \<Rightarrow> VolumeHandle \<Rightarrow> (unit Result, 'w) io" where
  "vol_flushBuffers W v w =
     (case vh_handle v of
        None \<Rightarrow> Done (fail DiskWriteError ''Invalid volume handle'', w)
      | Some h \<Rightarrow>
          (case FlushFileBuffers W h w of
             (Inl err, w') \<Rightarrow> Done (Inl (makeWin32Error DiskWriteError ''FlushFileBuffers failed on volume'' err), w')
           | (Inr _, w') \<Rightarrow> Done (ok, w')))"

section \<open>Ownership of the handle\<close>

text \<open>The operations of a volume neither open nor close handles; its destructor closes its own.\<close>

lemma vol_lock_handles:
  "handle_laws W V \<Longrightarrow> vol_lock W v w = (r, v', w') \<Longrightarrow> handles V w' = handles V w \<and> vh_handle v' = vh_handle v"
  using handle_lawsD(6) by (fastforce simp: vol_lock_def split: option.splits prod.splits sum.splits)

lemma vol_unlock_handles:
  "handle_laws W V \<Longrightarrow> vol_unlock W v w = (r, v', w') \<Longrightarrow> handles V w' = handles V w \<and> vh_handle v' = vh_handle v"
  using handle_lawsD(6) by (fastforce simp: vol_unlock_def split: option.splits prod.splits sum.splits)

lemma vol_dismount_handles:
  "handle_laws W V \<Longrightarrow> vol_dismount W v w = (r, w') \<Longrightarrow> handles V w' = handles V w"
  using handle_lawsD(6) by (fastforce simp: vol_dismount_def split: option.splits prod.splits sum.splits)

definition released :: "VolumeHandle \<Rightarrow> (nat \<Rightarrow> target option) \<Rightarrow> nat \<Rightarrow> target option" where
  "released v H = (case vh_handle v of None \<Rightarrow> H | Some h \<Rightarrow> H(h := None))"

lemma vol_close_handles:
  assumes "handle_laws W V" "vol_close W v w = (v', w')"
  shows "handles V w' = released v (handles V w) \<and> vh_handle v' = None"
  using assms(2) handle_lawsD(3) [OF assms(1)]
  by (auto simp: vol_close_def released_def split: option.splits)

lemma vol_destroy_handles:
  assumes "handle_laws W V"
  shows "handles V (vol_destroy W v w) = released v (handles V w)"
  using handle_lawsD(3) [OF assms] handle_lawsD(6) [OF assms surjective_pairing]
  by (auto simp: vol_destroy_def vol_close_def released_def split: option.splits)

lemma vol_openPath_handles:
  assumes "handle_laws W V" "vol_openPath W path mode w = Done (r, w')"
  shows "case r of Inl _ \<Rightarrow> handles V w' = handles V w | Inr v \<Rightarrow> released v (handles V w') = handles V w"
  using assms(2) handle_lawsD(1,2) [OF assms(1)]
  by (fastforce simp: vol_openPath_def released_def vol_new_def split: prod.splits sum.splits)

end
