(* ===== verification/Operation_Utils.thy ===== *)
theory Operation_Utils
  imports Volume_Handle Partition_Table
begin

text \<open>
  The namespace \<open>OperationUtils\<close> of \<open>src/core/operations/PartitionOperations.cpp\<close>: reading and writing
  the partition table of a disk through a raw disk handle, notifying the kernel, locking a volume,
  and the text form of a size.
\<close>

section \<open>The partition table of a disk\<close>

text \<open>The read callback: whole sectors from the one that holds the offset on, cut to the size asked for.\<close>

definition diskReadFunc :: "'w Win32 \<Rightarrow> RawDiskHandle \<Rightarrow> u32 \<Rightarrow> 'w \<Rightarrow> DiskReadCallback" where
  "diskReadFunc W disk sectorSize w offset sz =
     (let lba = offset div ucast sectorSize;
          count = ucast ((sz + sectorSize - 1) div sectorSize)
      in result_map (readSectors W disk lba count sectorSize w)
           (\<lambda>data. if unat sz < length data then take (unat sz) data else data))"

text \<open>The callback divides by the sector size.\<close>

definition readPartitionTable :: "'w Win32 \<Rightarrow> int \<Rightarrow> u32 \<Rightarrow> (PartitionTable Result, 'w) io" where
  "readPartitionTable W diskId sectorSize =
     withDisk W diskId ReadOnly (\<lambda>disk w.
       case getGeometry W disk w of
         Inl e \<Rightarrow> Done (Inl e, w)
       | Inr geom \<Rightarrow>
           require (sectorSize \<noteq> 0)
             (run_bind (pt_parse (diskReadFunc W disk sectorSize w) (dg_totalBytes geom) sectorSize)
               (\<lambda>r. Done (r, w))))"

definition sectorsToWrite :: "bytes \<Rightarrow> u32 \<Rightarrow> u64" where
  "sectorsToWrite tableData sectorSize = (of_nat (length tableData) + ucast sectorSize - 1) div ucast sectorSize"

definition padToSectors :: "bytes \<Rightarrow> u32 \<Rightarrow> bytes" where
  "padToSectors tableData sectorSize =
     (let paddedSize = unat (sectorsToWrite tableData sectorSize * ucast sectorSize) in
      if length tableData < paddedSize then tableData @ replicate (paddedSize - length tableData) 0
      else tableData)"

definition writePartitionTable :: "'w Win32 \<Rightarrow> int \<Rightarrow> PartitionTable \<Rightarrow> u32 \<Rightarrow> (unit Result, 'w) io" where
  "writePartitionTable W diskId table sectorSize w =
     run_bind (pt_serialize table) (\<lambda>serializeResult.
       case serializeResult of
         Inl e \<Rightarrow> Done (Inl e, w)
       | Inr tableData \<Rightarrow>
           if tableData = [] then Done (fail PartitionTableCorrupt ''Serialized table is empty'', w)
           else
             withDisk W diskId ReadWrite (\<lambda>disk w.
               require (sectorSize \<noteq> 0)
                 (io_try (writeSectors W disk 0 (Some (padToSectors tableData sectorSize))
                            (sectorsToWrite tableData sectorSize) sectorSize)
                    (\<lambda>_. rawFlushBuffers W disk) w)) w)"

definition notifyKernel :: "'w Win32 \<Rightarrow> int \<Rightarrow> (unit Result, 'w) io" where
  "notifyKernel W diskId =
     withDisk W diskId ReadWrite (\<lambda>disk w.
       case rh_handle disk of
         None \<Rightarrow> Undef
       | Some h \<Rightarrow>
           (case DeviceControl W IOCTL_DISK_UPDATE_PROPERTIES h w of
              (Inl err, w') \<Rightarrow> Done (Inl (fromWin32 DiskWriteError err ''IOCTL_DISK_UPDATE_PROPERTIES failed''), w')
            | (Inr _, w') \<Rightarrow> Done (ok, w')))"

text \<open>On an early return the destructor of the handle runs.\<close>

definition lockAndDismountVolume :: "'w Win32 \<Rightarrow> u16 \<Rightarrow> (VolumeHandle Result, 'w) io" where
  "lockAndDismountVolume W driveLetter w =
     (if driveLetter = 0 then Done (fail InvalidArgument ''No drive letter specified'', w)
      else
        io_try (openByLetter W driveLetter ReadWrite) (\<lambda>vol w.
          case vol_lock W vol w of
            (Inl e, vol, w) \<Rightarrow> Done (Inl e, vol_destroy W vol w)
          | (Inr _, vol, w) \<Rightarrow>
              (case vol_dismount W vol w of
                 (Inl e, w) \<Rightarrow>
                   (case vol_unlock W vol w of (_, vol, w) \<Rightarrow> Done (Inl e, vol_destroy W vol w))
               | (Inr _, w) \<Rightarrow> Done (Inr vol, w))) w)"

text \<open>
  The text of a floating point number comes from Qt: \<open>fixed bytes k p\<close> is \<open>bytes / 2^k\<close> with \<open>p\<close> digits
  after the point.
\<close>

definition formatSize :: "(u64 \<Rightarrow> nat \<Rightarrow> nat \<Rightarrow> string) \<Rightarrow> u64 \<Rightarrow> string" where
  "formatSize fixed bytes =
     (if 2 ^ 40 \<le> bytes then fixed bytes 40 2 @ '' TB''
      else if 2 ^ 30 \<le> bytes then fixed bytes 30 2 @ '' GB''
      else if 2 ^ 20 \<le> bytes then fixed bytes 20 1 @ '' MB''
      else if 2 ^ 10 \<le> bytes then fixed bytes 10 0 @ '' KB''
      else dec (unat bytes) @ '' bytes'')"

section \<open>Handles\<close>

lemma readPartitionTable_handles [keeps_intros]:
  "handle_laws W V \<Longrightarrow> keeps (handles V) (readPartitionTable W d ss)"
  unfolding readPartitionTable_def
  by (rule withDisk_handles) (auto simp: keeps_def run_simps split: sum.splits)

lemma readPartitionTable_contents [keeps_intros]:
  "content_laws W V \<Longrightarrow> keeps (contents V) (readPartitionTable W d ss)"
  unfolding readPartitionTable_def
  by (rule withDisk_contents) (auto simp: keeps_def run_simps split: sum.splits)

lemma notifyKernel_handles [keeps_intros]: "handle_laws W V \<Longrightarrow> keeps (handles V) (notifyKernel W d)"
  unfolding notifyKernel_def
  by (rule withDisk_handles)
    (auto simp: keeps_def dest: handle_lawsD(6) split: option.splits prod.splits sum.splits)

lemma notifyKernel_contents [keeps_intros]: "content_laws W V \<Longrightarrow> keeps (contents V) (notifyKernel W d)"
  unfolding notifyKernel_def
  by (rule withDisk_contents)
    (auto simp: keeps_def dest: content_lawsD(7) split: option.splits prod.splits sum.splits)

lemma keeps_require [keeps_intros]: "(b \<Longrightarrow> keeps f m) \<Longrightarrow> keeps f (\<lambda>w. require b (m w))"
  by (cases b) (auto simp: keeps_def require_def)

lemma writePartitionTable_handles [keeps_intros]:
  assumes "handle_laws W V"
  shows "keeps (handles V) (writePartitionTable W d table ss)"
  unfolding keeps_def
proof (intro allI impI)
  fix w r w'
  have wd: "keeps (handles V) (withDisk W d ReadWrite (\<lambda>disk w. require (ss \<noteq> 0)
      (io_try (writeSectors W disk 0 (Some bs) n ss) (\<lambda>_. rawFlushBuffers W disk) w)))" for bs n
    using assms by (intro keeps_intros)
  assume "writePartitionTable W d table ss w = Done (r, w')"
  then show "handles V w' = handles V w"
    unfolding writePartitionTable_def run_bind_Done_iff
    by (elim exE conjE) (auto split: sum.split_asm if_split_asm dest: keepsD [OF wd])
qed

lemma lockAndDismountVolume_handles:
  assumes "handle_laws W V" "lockAndDismountVolume W letter w = Done (r, w')"
  shows "case r of Inl _ \<Rightarrow> handles V w' = handles V w | Inr v \<Rightarrow> released v (handles V w') = handles V w"
proof (cases "letter = 0")
  case True
  with assms(2) show ?thesis by (auto simp: lockAndDismountVolume_def)
next
  case False
  obtain r0 w1 where op: "openByLetter W letter ReadWrite w = Done (r0, w1)"
    using assms(2) False by (auto simp: lockAndDismountVolume_def io_try_Done)
  have o: "case r0 of Inl _ \<Rightarrow> handles V w1 = handles V w | Inr v \<Rightarrow> released v (handles V w1) = handles V w"
    using vol_openPath_handles [OF assms(1)] op by (simp add: openByLetter_def)
  show ?thesis
  proof (cases r0)
    case (Inl e)
    with assms(2) False op o show ?thesis by (auto simp: lockAndDismountVolume_def io_try_def)
  next
    case (Inr v)
    obtain r1 v1 w2 where l: "vol_lock W v w1 = (r1, v1, w2)" by (metis prod_cases3)
    obtain r2 w3 where d: "vol_dismount W v1 w2 = (r2, w3)" by fastforce
    obtain r3 v3 w4 where u: "vol_unlock W v1 w3 = (r3, v3, w4)" by (metis prod_cases3)
    have "handles V w4 = handles V w1" "handles V w3 = handles V w1" "handles V w2 = handles V w1"
      "vh_handle v1 = vh_handle v" "vh_handle v3 = vh_handle v"
      using vol_lock_handles [OF assms(1) l] vol_dismount_handles [OF assms(1) d]
        vol_unlock_handles [OF assms(1) u] by auto
    with assms(2) False Inr op o l d u vol_destroy_handles [OF assms(1)] show ?thesis
      by (cases "vh_handle v") (auto simp: lockAndDismountVolume_def io_try_def released_def split: sum.splits)
  qed
qed

section \<open>Reading and writing the disk\<close>

lemma unat_ceil_div:
  fixes sz ss :: u32
  assumes "ss \<noteq> 0" "unat sz + unat ss \<le> 2 ^ 32"
  shows "unat ((sz + ss - 1) div ss) = (unat sz + unat ss - 1) div unat ss"
proof -
  have pos: "0 < unat ss" using assms(1) by (simp add: unat_gt_0)
  have "unat (sz + (ss - 1)) = unat sz + (unat ss - 1)"
    using assms pos by (subst unat_add_lem [THEN iffD1]) (auto simp: unat_minus_one)
  then show ?thesis using pos by (simp add: unat_div add_diff_eq)
qed

lemma unat_round_up:
  fixes sz ss :: u32
  assumes "ss \<noteq> 0" "unat sz + unat ss \<le> 2 ^ 32"
  shows "unat (ucast ((sz + ss - 1) div ss) * ucast ss :: u64) = (unat sz + unat ss - 1) div unat ss * unat ss"
proof -
  have pos: "0 < unat ss" using assms(1) by (simp add: unat_gt_0)
  note d = unat_ceil_div [OF assms]
  let ?c = "ucast ((sz + ss - 1) div ss) :: u64"
  have c: "unat ?c = (unat sz + unat ss - 1) div unat ss" "unat (ucast ss :: u64) = unat ss"
    using d by (simp_all add: unat_ucast_up)
  have le: "(unat sz + unat ss - 1) div unat ss * unat ss \<le> unat sz + unat ss - 1" by simp
  have "unat sz + unat ss - 1 < 2 ^ 64" using assms(2) pos by simp
  from le_less_trans [OF le this] have "unat ?c * unat (ucast ss :: u64) < 2 ^ 64" unfolding c .
  then show ?thesis using c by (subst unat_mult_lem [THEN iffD1]) simp_all
qed

lemma div_mult_aligned:
  fixes off :: u64 and ss :: u32
  assumes "ss \<noteq> 0" "unat ss dvd unat off"
  shows "off div ucast ss * ucast ss = off"
proof -
  have "unat (ucast ss :: u64) dvd unat off" using assms(2) by (simp add: unat_ucast_up)
  then have "unat (off mod ucast ss) = 0" by (simp add: unat_mod dvd_imp_mod_0)
  then have "off mod ucast ss = 0" by (simp add: unat_eq_zero)
  then show ?thesis using div_mult_mod_eq [of off "ucast ss"] by simp
qed

text \<open>On a disk without faults the callback returns the bytes asked for, at offsets of whole sectors.\<close>

lemma diskReadFunc_aligned:
  assumes "content_laws W V" "disk_works W V d" "rh_handle disk = Some h" "handles V w h = Some (OnDisk d rw)"
    and "ss \<noteq> 0" "unat ss dvd unat off" "unat sz + unat ss \<le> 2 ^ 32"
    and "unat off + (unat sz + unat ss - 1) div unat ss * unat ss \<le> length (contents V w d)"
  shows "diskReadFunc W disk ss w off sz = Inr (slice (unat off) (unat sz) (contents V w d))"
proof -
  let ?c = "ucast ((sz + ss - 1) div ss) :: u64"
  have pos: "0 < unat ss" using assms(5) by (simp add: unat_gt_0)
  let ?m = "(unat sz + unat ss - 1) div unat ss * unat ss"
  note off = div_mult_aligned [OF assms(5,6)] and n = unat_round_up [OF assms(5,7)]
  have mle: "?m \<le> unat sz + unat ss - 1" by simp
  then have m: "?m < 2 ^ 32" using assms(7) pos by linarith
  have "unat sz + unat ss - 1 < ?m + unat ss" using pos
    by (metis add.commute div_mult_mod_eq mod_less_divisor nat_add_left_cancel_less)
  then have sz: "unat sz \<le> ?m" by linarith
  have nm: "\<not> MAXDWORD < ?c * ucast ss" using n m by (simp add: word_less_nat_alt)
  have "\<exists>bs. readSectors W disk (off div ucast ss) ?c ss w = Inr bs"
  proof (cases "?c = 0")
    case True
    then show ?thesis using assms(3) by (simp add: readSectors_def)
  next
    case False
    have "unat off + unat (ucast (?c * ucast ss) :: u32) \<le> length (contents V w d)"
      using assms(8) n unat_ucast_MAXDWORD [OF nm] by simp
    then obtain bs where "ReadFile W h off (ucast (?c * ucast ss)) w = Inr bs"
      using assms(2,4) unfolding disk_works_def by blast
    then show ?thesis using False nm assms(3) off by (simp add: readSectors_def Let_def)
  qed
  then obtain bs where bs: "readSectors W disk (off div ucast ss) ?c ss w = Inr bs" by blast
  have "bs = slice (unat off) ?m (contents V w d)"
    using readSectors_slice [OF assms(1,3,4) bs] off n by simp
  moreover have "take (unat sz) (slice (unat off) ?m (contents V w d)) = slice (unat off) (unat sz) (contents V w d)"
    using sz by (simp add: slice_def min_absorb1)
  moreover have "(if k < length xs then take k xs else xs) = take k xs" for k and xs :: bytes by simp
  ultimately show ?thesis using bs by (simp add: diskReadFunc_def Let_def result_map_def)
qed

text \<open>What is written is the serialized table, padded with zeros to whole sectors.\<close>

lemma padToSectors_length:
  assumes "ss \<noteq> 0" "length data + unat ss < 2 ^ 64"
  shows "unat (sectorsToWrite data ss * ucast ss) = (length data + unat ss - 1) div unat ss * unat ss"
    and "length (padToSectors data ss) = unat (sectorsToWrite data ss * ucast ss)"
proof -
  have pos: "0 < unat ss" using assms(1) by (simp add: unat_gt_0)
  let ?k = "(length data + unat ss - 1) div unat ss"
  have s: "unat (ucast ss :: u64) = unat ss" "ucast ss \<noteq> (0 :: u64)"
    using pos by (simp_all add: unat_ucast_up unat_gt_0 [symmetric] del: unat_gt_0)
  have l: "unat (of_nat (length data) :: u64) = length data" using assms(2) by (simp add: unat_of_nat)
  have "unat (of_nat (length data) + (ucast ss - 1) :: u64) = length data + (unat ss - 1)"
    using assms(2) s l by (subst unat_add_lem [THEN iffD1]) (auto simp: unat_minus_one)
  then have k: "unat (sectorsToWrite data ss) = ?k"
    using pos s by (simp add: sectorsToWrite_def unat_div add_diff_eq)
  have "?k * unat ss \<le> length data + unat ss - 1" by simp
  also have "\<dots> < 2 ^ 64" using assms(2) by linarith
  finally have "unat (sectorsToWrite data ss) * unat (ucast ss :: u64) < 2 ^ 64" unfolding k s .
  then show n: "unat (sectorsToWrite data ss * ucast ss) = ?k * unat ss"
    using k s by (subst unat_mult_lem [THEN iffD1]) simp_all
  have "length data + unat ss - 1 < ?k * unat ss + unat ss" using pos
    by (metis add.commute div_mult_mod_eq mod_less_divisor nat_add_left_cancel_less)
  then have "length data \<le> ?k * unat ss" by linarith
  then show "length (padToSectors data ss) = unat (sectorsToWrite data ss * ucast ss)"
    using n by (simp add: padToSectors_def Let_def)
qed

lemma writePartitionTable_contents:
  assumes "win32_laws W V" "writePartitionTable W d table ss w = Done (Inr u, w')"
    and "pt_serialize table = Done (Inr data)" "length data + unat ss < 2 ^ 64"
  shows "contents V w' = (contents V w)(d := blit 0 (padToSectors data ss) (contents V w d))"
    and "length (padToSectors data ss) \<le> length (contents V w d)"
proof -
  have laws: "content_laws W V" "handle_laws W V" using assms(1) by (simp_all add: win32_laws_def)
  let ?p = "padToSectors data ss" and ?n = "sectorsToWrite data ss"
  from assms(2,3) obtain h w1 w2 w3 u' where ne: "data \<noteq> []" "ss \<noteq> 0"
    and cr: "CreateFileW W (physicalDrive d) True w = (Inr h, w1)"
    and wr: "writeSectors W \<lparr>rh_handle = Some h, rh_diskId = d, rh_accessMode = ReadWrite\<rparr> 0 (Some ?p) ?n ss w1 = Done (Inr u', w2)"
    and fl: "rawFlushBuffers W \<lparr>rh_handle = Some h, rh_diskId = d, rh_accessMode = ReadWrite\<rparr> w2 = Done (Inr u, w3)"
    and w': "w' = CloseHandle W h w3"
    by (auto simp: writePartitionTable_def withDisk_Done io_try_Done require_Done_iff split: if_splits)
  note len = padToSectors_length [OF ne(2) assms(4)]
  have "contents V w' = contents V w2"
    using w' content_lawsD(3) [OF laws(1)] keepsD [OF flush_contents [OF laws(1)] fl] by simp
  moreover have "contents V w1 = contents V w" "handles V w1 h = Some (OnDisk d True)"
    using content_lawsD(1,2) [OF laws(1) cr] by simp_all
  moreover note c = writeSectors_content [OF laws(1) _ calculation(3) wr]
  ultimately show "contents V w' = (contents V w)(d := blit 0 ?p (contents V w d))"
    using len by simp
  show "length ?p \<le> length (contents V w d)"
  proof (cases "?n = 0")
    case True
    then show ?thesis using len by simp
  next
    case False
    with c(2) len \<open>contents V w1 = contents V w\<close> show ?thesis by simp
  qed
qed

lemma writePartitionTable_works:
  assumes "win32_laws W V" "disk_works W V d" "pt_serialize table = Done (Inr data)" "data \<noteq> []" "ss \<noteq> 0"
    and "length (padToSectors data ss) < 2 ^ 32" "length (padToSectors data ss) \<le> length (contents V w d)"
    and "length data + unat ss < 2 ^ 64"
  shows "\<exists>w'. writePartitionTable W d table ss w = Done (ok, w')"
proof -
  have laws: "content_laws W V" "handle_laws W V" using assms(1) by (simp_all add: win32_laws_def)
  let ?p = "padToSectors data ss" and ?n = "sectorsToWrite data ss"
  note len = padToSectors_length(2) [OF assms(5,8)]
  obtain h w1 where cr: "CreateFileW W (physicalDrive d) True w = (Inr h, w1)"
    using assms(2) unfolding disk_works_def by blast
  let ?disk = "\<lparr>rh_handle = Some h, rh_diskId = d, rh_accessMode = ReadWrite\<rparr>"
  have w1: "contents V w1 = contents V w" "handles V w1 h = Some (OnDisk d True)"
    using content_lawsD(1,2) [OF laws(1) cr] by simp_all
  have nm: "\<not> MAXDWORD < ?n * ucast ss" using len assms(6) by (simp add: word_less_nat_alt)
  have "\<exists>w2. writeSectors W ?disk 0 (Some ?p) ?n ss w1 = Done (ok, w2)"
  proof (cases "?n = 0")
    case True
    then show ?thesis by (simp add: writeSectors_def)
  next
    case False
    obtain w2 where "WriteFile W h 0 ?p w1 = (Inr (of_nat (length ?p)), w2)"
      using assms(2,6,7) w1 unfolding disk_works_def by (metis add_0 unat_0)
    moreover have "of_nat (length ?p) = (ucast (?n * ucast ss) :: u32)"
      using len unat_ucast_MAXDWORD [OF nm] by (metis of_nat_unat ucast_id)
    ultimately show ?thesis using False nm len by (simp add: writeSectors_def Let_def)
  qed
  then obtain w2 where wr: "writeSectors W ?disk 0 (Some ?p) ?n ss w1 = Done (ok, w2)" by blast
  have "handles V w2 h = Some (OnDisk d True)"
    using keepsD [OF writeSectors_handles [OF laws(2)] wr] w1(2) by simp
  then obtain w3 where "FlushFileBuffers W h w2 = (Inr (), w3)"
    using assms(2) unfolding disk_works_def by blast
  then have "io_try (writeSectors W ?disk 0 (Some ?p) ?n ss) (\<lambda>_. rawFlushBuffers W ?disk) w1 = Done (ok, w3)"
    using wr by (simp add: io_try_def rawFlushBuffers_def)
  then have "withDisk W d ReadWrite (\<lambda>disk w. require (ss \<noteq> 0) (io_try (writeSectors W disk 0 (Some ?p) ?n ss)
      (\<lambda>_. rawFlushBuffers W disk) w)) w = Done (ok, CloseHandle W h w3)"
    using cr assms(5) by (auto simp: withDisk_Done)
  then show ?thesis using assms(3,4) by (simp add: writePartitionTable_def)
qed

section \<open>GPT disks\<close>

text \<open>The bytes of a disk from LBA 0 on that make it a GPT disk: protective MBR, header and entry array.\<close>

abbreviation gpt_head :: "GptTable \<Rightarrow> bytes" where
  "gpt_head t \<equiv> protMbr t @ primaryHeader t @ paddedEntries t"

definition gpt_disk :: "GptTable \<Rightarrow> bytes \<Rightarrow> bool" where
  "gpt_disk t content \<longleftrightarrow> gpt_serializable t \<and> 2 * unat (gpt_sectorSize t) \<le> 2 ^ 32 \<and>
     readBE16 (gpt_protectiveMbr t) 0 \<noteq> APM_DDM_SIGNATURE \<and>
     take (length (gpt_head t)) content = gpt_head t"

text \<open>What reading a table back keeps of it.\<close>

definition gpt_read_back :: "GptTable \<Rightarrow> GptTable \<Rightarrow> bool" where
  "gpt_read_back t t' \<longleftrightarrow>
     set (gpt_entries t') = gpt_stored (gpt_sectorSize t) ` set (gpt_entries t) \<and>
     sorted_wrt (<) (map pe_index (gpt_entries t')) \<and>
     gpt_diskGuid t' = gpt_diskGuid t \<and> gpt_revision t' = gpt_revision t \<and>
     gpt_firstUsableLba t' = gpt_firstUsableLba t \<and> gpt_lastUsableLba t' = gpt_lastLba t \<and>
     gpt_alternateLba t' = gpt_diskSectors t - 1 \<and>
     gpt_entryCount t' = gpt_entryCount t \<and> gpt_entrySize t' = gpt_entrySize t \<and>
     gpt_sectorSize t' = gpt_sectorSize t \<and> gpt_protectiveMbr t' = take 512 (protMbr t)"

lemma gpt_disk_sizes:
  assumes "gpt_serializable t"
  shows "length (protMbr t) = unat (gpt_sectorSize t)" "length (primaryHeader t) = unat (gpt_sectorSize t)"
    "length (paddedEntries t) = unat (entryArraySectors t) * unat (gpt_sectorSize t)"
    "length (backupHeader t) = unat (gpt_sectorSize t)"
    "(unat (entryArrayBytes t) + unat (gpt_sectorSize t) - 1) div unat (gpt_sectorSize t) * unat (gpt_sectorSize t)
       = unat (entryArraySectors t) * unat (gpt_sectorSize t)"
    "512 \<le> unat (gpt_sectorSize t)" "unat (entryArrayBytes t) + unat (gpt_sectorSize t) \<le> 2 ^ 32"
proof -
  show fits: "unat (entryArrayBytes t) + unat (gpt_sectorSize t) \<le> 2 ^ 32" and ge: "512 \<le> unat (gpt_sectorSize t)"
    using assms gpt_serializable_slots(3) [OF assms] by (simp_all add: gpt_serializable_def)
  then have "gpt_sectorSize t \<noteq> 0" by auto
  from unat_ceil_div [OF this fits]
  show "(unat (entryArrayBytes t) + unat (gpt_sectorSize t) - 1) div unat (gpt_sectorSize t) * unat (gpt_sectorSize t)
       = unat (entryArraySectors t) * unat (gpt_sectorSize t)"
    by (simp add: entryArraySectors_def)
qed (use assms padded_size [OF assms] in
    \<open>simp_all add: gpt_serializable_def length_protMbr length_paddedEntries\<close>)

text \<open>The reads of the parser on a GPT disk, and what it makes of them.\<close>

lemma gpt_disk_parsed:
  assumes "gpt_disk t content" "s = unat (gpt_sectorSize t)"
    and rd: "\<And>off n. s dvd unat off \<Longrightarrow> unat n + s \<le> 2 ^ 32 \<Longrightarrow> n \<in> {gpt_sectorSize t, 512, entryArrayBytes t} \<Longrightarrow>
      unat off + (unat n + s - 1) div s * s \<le> length content \<Longrightarrow> rd off n = Inr (slice (unat off) (unat n) content)"
  shows "\<exists>t'. pt_parse rd diskSize (gpt_sectorSize t) = Done (Inr (GptPT t')) \<and> gpt_read_back t t' \<and>
    gpt_diskSizeBytes t' = diskSize"
proof -
  let ?ss = "gpt_sectorSize t" and ?h = "gpt_head t"
  have ser: "gpt_serializable t" and ss2: "2 * s \<le> 2 ^ 32" and apm: "readBE16 (gpt_protectiveMbr t) 0 \<noteq> APM_DDM_SIGNATURE"
    and pre: "take (length ?h) content = ?h"
    using assms(1,2) by (simp_all add: gpt_disk_def)
  note sz = gpt_disk_sizes [OF ser, folded assms(2)]
  obtain out where out: "gpt_serialize t = Done (Inr out)" "out = ?h @ paddedEntries t @ backupHeader t"
    using gpt_serialize_ok [OF ser] by simp
  have len: "length ?h = (2 + unat (entryArraySectors t)) * s" using sz by (simp add: algebra_simps)
  have fits: "length ?h \<le> length content" using pre by (metis length_take min.cobounded1)
  have eq: "slice o1 n content = slice o1 n out" if "o1 + n \<le> length ?h" for o1 n
  proof -
    have "slice o1 n content = slice o1 n (take (length ?h) content)" "slice o1 n out = slice o1 n ?h"
      using that by (auto simp: slice_def out(2) take_drop min_absorb1)
    then show ?thesis using pre by simp
  qed
  define H where "H = length ?h"
  define K where "K = unat (entryArraySectors t) * s"
  have H: "H = 2 * s + K" using len by (simp add: H_def K_def algebra_simps)
  have rd': "rd off n = Inr (slice (unat off) (unat n) out)"
    if "s dvd unat off" "unat n + s \<le> 2 ^ 32" "n \<in> {?ss, 512, entryArrayBytes t}"
      "unat off + (unat n + s - 1) div s * s \<le> H" "unat off + unat n \<le> H" for off n
    using rd [OF that(1-3) order_trans [OF that(4) [unfolded H_def] fits]] eq [OF that(5) [unfolded H_def]] by simp
  have one: "(s + s - 1) div s = 1" "(512 + s - 1) div s = 1"
    using sz(6) by (auto intro!: div_nat_eqI)
  have u: "unat (ucast ?ss :: u64) = s" "unat (2 * ucast ?ss :: u64) = 2 * s" "unat ?ss = s"
    using ss2 assms(2) by (simp_all add: unat_ucast_up unat_word_ariths)
  have ab: "unat (entryArrayBytes t) \<le> K" using padded_size [OF ser] assms(2) by (simp add: K_def)
  have "rd 0 ?ss = Inr (slice (unat (0 :: u64)) (unat ?ss) out)" by (rule rd') (unfold u one H, use ss2 in simp_all)
  moreover have "rd (ucast ?ss) ?ss = Inr (slice (unat (ucast ?ss :: u64)) (unat ?ss) out)"
    by (rule rd') (unfold u one H, use ss2 in simp_all)
  moreover have "rd (2 * ucast ?ss) (entryArrayBytes t) =
      Inr (slice (unat (2 * ucast ?ss :: u64)) (unat (entryArrayBytes t)) out)"
    by (rule rd') (unfold u sz(5) H, use sz(7) ab in \<open>simp_all add: K_def\<close>)
  ultimately have prim: "gpt_primary_on_disk rd t out"
    by (simp add: gpt_primary_on_disk_def Let_def u)
  have n512: "unat (512 :: u32) = 512" by simp
  have "rd 0 512 = Inr (slice (unat (0 :: u64)) (unat (512 :: u32)) out)"
    by (rule rd') (unfold n512 one H, use ss2 sz(6) in simp_all)
  then have boot: "rd 0 512 = Inr (slice 0 512 out)" by simp
  from pt_parse_primary_gpt [OF ser out(1) prim boot apm] show ?thesis
    unfolding gpt_read_back_def by blast
qed

lemma readPartitionTable_gpt:
  assumes "win32_laws W V" "disk_works W V d" "gpt_disk t (contents V w d)"
  shows "\<exists>t' w'. readPartitionTable W d (gpt_sectorSize t) w = Done (Inr (GptPT t'), w') \<and> gpt_read_back t t' \<and>
    gpt_diskSizeBytes t' = of_nat (length (contents V w d)) \<and> contents V w' = contents V w"
proof -
  have laws: "content_laws W V" "handle_laws W V" using assms(1) by (simp_all add: win32_laws_def)
  let ?ss = "gpt_sectorSize t" and ?c = "contents V w d"
  have "512 \<le> unat ?ss" using assms(3) gpt_disk_sizes(6) by (simp add: gpt_disk_def)
  then have ss0: "?ss \<noteq> 0" by auto
  obtain h w1 where cr: "CreateFileW W (physicalDrive d) False w = (Inr h, w1)"
    using assms(2) unfolding disk_works_def by blast
  have w1: "contents V w1 = contents V w" "handles V w1 h = Some (OnDisk d False)"
    using content_lawsD(1,2) [OF laws(1) cr] by simp_all
  let ?disk = "\<lparr>rh_handle = Some h, rh_diskId = d, rh_accessMode = ReadOnly\<rparr>"
  have "diskReadFunc W ?disk ?ss w1 off n = Inr (slice (unat off) (unat n) ?c)"
    if "unat ?ss dvd unat off" "unat n + unat ?ss \<le> 2 ^ 32"
      "unat off + (unat n + unat ?ss - 1) div unat ?ss * unat ?ss \<le> length ?c" for off n
    using diskReadFunc_aligned [OF laws(1) assms(2) _ w1(2) ss0 that(1,2), of ?disk] that(3) w1(1) by simp
  with gpt_disk_parsed [OF assms(3) refl, of "diskReadFunc W ?disk ?ss w1" "of_nat (length ?c)"] obtain t' where
    t': "pt_parse (diskReadFunc W ?disk ?ss w1) (of_nat (length ?c)) ?ss = Done (Inr (GptPT t'))" "gpt_read_back t t'"
    "gpt_diskSizeBytes t' = of_nat (length ?c)" by blast
  obtain gx where gx: "GetDriveGeometryEx W h w1 = Inr gx" "gx_diskSize gx = of_nat (length ?c)"
    using assms(2) w1 unfolding disk_works_def by metis
  obtain g where g: "getGeometry W ?disk w1 = Inr g" "dg_totalBytes g = of_nat (length ?c)"
    using gx by (simp add: getGeometry_def)
  have "readPartitionTable W d ?ss w = Done (Inr (GptPT t'), CloseHandle W h w1)"
    unfolding readPartitionTable_def withDisk_Done using cr g t'(1) ss0 by simp
  then show ?thesis using t'(2,3) w1(1) content_lawsD(3) [OF laws(1)] by auto
qed

lemma padToSectors_aligned:
  assumes "ss \<noteq> 0" "unat ss dvd length data" "length data + unat ss < 2 ^ 64"
  shows "padToSectors data ss = data"
proof -
  have "0 < unat ss" using assms(1) by (simp add: unat_gt_0)
  moreover obtain k where "length data = unat ss * k" using assms(2) by blast
  ultimately have "(length data + unat ss - 1) div unat ss * unat ss = length data"
    by (simp add: div_nat_eqI)
  then show ?thesis using padToSectors_length(1) [OF assms(1,3)] by (simp add: padToSectors_def)
qed

text \<open>The serialized form of a GPT table fits one write on the disk.\<close>

definition gpt_fits :: "GptTable \<Rightarrow> bytes \<Rightarrow> bool" where
  "gpt_fits t content \<longleftrightarrow>
     (3 + 2 * unat (entryArraySectors t)) * unat (gpt_sectorSize t) < 2 ^ 32 \<and>
     (3 + 2 * unat (entryArraySectors t)) * unat (gpt_sectorSize t) \<le> length content"

abbreviation gpt_image :: "GptTable \<Rightarrow> bytes" where
  "gpt_image t \<equiv> gpt_head t @ paddedEntries t @ backupHeader t"

lemma length_gpt_image:
  "gpt_serializable t \<Longrightarrow> length (gpt_image t) = (3 + 2 * unat (entryArraySectors t)) * unat (gpt_sectorSize t)"
  using gpt_disk_sizes [of t] by (simp add: algebra_simps)

lemma writePartitionTable_gpt:
  assumes "win32_laws W V" "disk_works W V d" "gpt_serializable t" "gpt_fits t (contents V w d)"
  shows "\<exists>w'. writePartitionTable W d (GptPT t) (gpt_sectorSize t) w = Done (ok, w')"
    and "writePartitionTable W d (GptPT t) (gpt_sectorSize t) w = Done (Inr u, w') \<Longrightarrow>
      contents V w' = (contents V w)(d := gpt_image t @ drop (length (gpt_image t)) (contents V w d))"
proof -
  let ?ss = "gpt_sectorSize t" and ?out = "gpt_image t"
  note len = length_gpt_image [OF assms(3)]
  have ss: "?ss \<noteq> 0" "unat ?ss < 2 ^ 32" using gpt_disk_sizes(6) [OF assms(3)] unsigned_less [of ?ss] by auto
  have small: "length ?out < 2 ^ 32" and le: "length ?out \<le> length (contents V w d)"
    using assms(4) len by (simp_all only: gpt_fits_def)
  have fit: "length ?out + unat ?ss < 2 ^ 64" using add_strict_mono [OF small ss(2)] by simp
  have "unat ?ss dvd length ?out" unfolding len by simp
  note pad = padToSectors_aligned [OF ss(1) this fit]
  have out: "pt_serialize (GptPT t) = Done (Inr ?out)" using gpt_serialize_ok [OF assms(3)] by simp
  have ne: "?out \<noteq> []" using gpt_disk_sizes(1,6) [OF assms(3)] by auto
  show "\<exists>w'. writePartitionTable W d (GptPT t) ?ss w = Done (ok, w')"
    using small le by (intro writePartitionTable_works [OF assms(1,2) out ne ss(1) _ _ fit]) (simp_all only: pad)
  assume "writePartitionTable W d (GptPT t) ?ss w = Done (Inr u, w')"
  from writePartitionTable_contents(1) [OF assms(1) this out fit] 
  show "contents V w' = (contents V w)(d := ?out @ drop (length ?out) (contents V w d))"
    unfolding pad by (simp add: blit_def)
qed

lemma gpt_disk_image:
  assumes "gpt_serializable t" "2 * unat (gpt_sectorSize t) \<le> 2 ^ 32" "readBE16 (gpt_protectiveMbr t) 0 \<noteq> APM_DDM_SIGNATURE"
  shows "gpt_disk t (gpt_image t @ rest)"
  using assms by (simp add: gpt_disk_def)

text \<open>
  C7. A GPT table survives the disk: on a disk without faults that is large enough,
  \<open>writePartitionTable\<close> succeeds, and \<open>readPartitionTable\<close> then returns a GPT table with the same
  header fields and the same partitions, in the order of their slots.
\<close>

theorem readPartitionTable_writePartitionTable:
  assumes "win32_laws W V" "disk_works W V d" "gpt_serializable t" "gpt_fits t (contents V w d)"
    and "2 * unat (gpt_sectorSize t) \<le> 2 ^ 32" "readBE16 (gpt_protectiveMbr t) 0 \<noteq> APM_DDM_SIGNATURE"
  shows "\<exists>w1 t' w2. writePartitionTable W d (GptPT t) (gpt_sectorSize t) w = Done (ok, w1) \<and>
    readPartitionTable W d (gpt_sectorSize t) w1 = Done (Inr (GptPT t'), w2) \<and> gpt_read_back t t' \<and>
    (\<forall>d'. d' \<noteq> d \<longrightarrow> contents V w2 d' = contents V w d')"
proof -
  obtain w1 where w1: "writePartitionTable W d (GptPT t) (gpt_sectorSize t) w = Done (ok, w1)"
    using writePartitionTable_gpt(1) [OF assms(1-4)] by blast
  note c = writePartitionTable_gpt(2) [OF assms(1-4) w1]
  have "gpt_disk t (contents V w1 d)" using c gpt_disk_image [OF assms(3,5,6)] by simp
  from readPartitionTable_gpt [OF assms(1,2) this] w1 c show ?thesis by fastforce
qed

text \<open>
  C8. \<open>writePartitionTable\<close> stores the whole serialized GPT table from LBA 0 on. The backup array and
  the backup header therefore land right behind the primary array, over the first usable sectors,
  and all bytes after them stay as they were: the sectors at the end of the disk, which the primary
  header names as the place of the backup, are not written.
\<close>

theorem writePartitionTable_backup_misplaced:
  assumes "win32_laws W V" "disk_works W V d" "gpt_serializable t" "gpt_fits t (contents V w d)"
  shows "\<exists>w1. writePartitionTable W d (GptPT t) (gpt_sectorSize t) w = Done (ok, w1) \<and>
    (let s = unat (gpt_sectorSize t); a = unat (entryArraySectors t) in
     slice ((2 + a) * s) (a * s) (contents V w1 d) = paddedEntries t \<and>
     slice ((2 + 2 * a) * s) s (contents V w1 d) = backupHeader t \<and>
     drop ((3 + 2 * a) * s) (contents V w1 d) = drop ((3 + 2 * a) * s) (contents V w d))"
proof -
  let ?s = "unat (gpt_sectorSize t)" and ?a = "unat (entryArraySectors t)"
  obtain w1 where w1: "writePartitionTable W d (GptPT t) (gpt_sectorSize t) w = Done (ok, w1)"
    using writePartitionTable_gpt(1) [OF assms(1-4)] by blast
  note c = writePartitionTable_gpt(2) [OF assms(1-4) w1] and len = gpt_disk_sizes [OF assms(3)]
  have h: "length (gpt_head t) = (2 + ?a) * ?s" using len by (simp add: algebra_simps)
  have "slice ((2 + ?a) * ?s) (?a * ?s) (contents V w1 d) = paddedEntries t"
    using c len h by (simp add: slice_def)
  moreover have "slice ((2 + 2 * ?a) * ?s) ?s (contents V w1 d) = backupHeader t"
    using c len by (simp add: slice_def algebra_simps)
  moreover have "drop ((3 + 2 * ?a) * ?s) (contents V w1 d) = drop ((3 + 2 * ?a) * ?s) (contents V w d)"
    unfolding length_gpt_image [OF assms(3), symmetric] c by (simp only: fun_upd_same append_eq_conv_conj drop_append) simp
  ultimately show ?thesis using w1 by (auto simp: Let_def)
qed

section \<open>Witnesses\<close>

definition blank_disk :: "nat \<Rightarrow> sim_world" where
  "blank_disk n = \<lparr>sim_disk = replicate n 0, sim_handles = []\<rparr>"

lemma blank_disk_contents: "contents sim_view (blank_disk n) 0 = replicate n 0"
  by (simp add: sim_view_def blank_disk_def)

lemma sample_gpt_fits: "40000 \<le> length c \<Longrightarrow> gpt_fits sample_gpt c"
  by (simp add: gpt_fits_def sample_gpt_sectors)

lemma sample_gpt_no_apm: "readBE16 (gpt_protectiveMbr sample_gpt) 0 \<noteq> APM_DDM_SIGNATURE"
  by (simp add: sample_gpt_def gpt_new_def readBE16_def)

theorem readPartitionTable_writePartitionTable_witness:
  "\<exists>w1 t' w2. writePartitionTable sim_win32 0 (GptPT sample_gpt) 512 (blank_disk 40000) = Done (ok, w1) \<and>
     readPartitionTable sim_win32 0 512 w1 = Done (Inr (GptPT t'), w2) \<and>
     set (gpt_entries t') = {gpt_stored 512 sample_gpt_entry}"
  using readPartitionTable_writePartitionTable [OF sim_win32_laws sim_disk_works sample_gpt_serializable,
      of "blank_disk 40000"] sample_gpt_fits sample_gpt_no_apm
  by (auto simp: blank_disk_contents sample_gpt_sectors gpt_read_back_def)

theorem writePartitionTable_backup_misplaced_witness:
  "\<exists>w1. writePartitionTable sim_win32 0 (GptPT sample_gpt) 512 (blank_disk 40000) = Done (ok, w1) \<and>
     slice (66 * 512) 512 (contents sim_view w1 0) = backupHeader sample_gpt \<and>
     drop (67 * 512) (contents sim_view w1 0) = replicate 5696 0"
  using writePartitionTable_backup_misplaced [OF sim_win32_laws sim_disk_works sample_gpt_serializable,
      of "blank_disk 40000"] sample_gpt_fits
  by (auto simp: blank_disk_contents sample_gpt_sectors Let_def)

end
