(* ===== verification/Actions.thy ===== *)
theory Actions
  imports Raw_Disk
begin

text \<open>
  The language in which the methods of the operations and of the format engine are written: an action
  changes the object it belongs to, reports progress, uses the Win32 API and returns a result or an
  error. The rules of the development for actions are collected in \<open>run_simps\<close> (what a successful run of
  an action means) and \<open>act_intros\<close> (which observations of the world an action keeps).
\<close>

section \<open>Actions\<close>

text \<open>
  A method changes the object, reports progress, uses the API and returns a result
  or an error. The rest of the method is skipped on an error.
\<close>

type_synonym progress = "(int \<times> string) list"
type_synonym ('a, 's, 'w) act = "'s \<Rightarrow> 'w \<Rightarrow> ('a Result \<times> progress \<times> 's \<times> 'w) run"

definition act_return :: "'a \<Rightarrow> ('a, 's, 'w) act" where
  "act_return x s w = Done (Inr x, [], s, w)"

definition act_error :: "ErrorInfo \<Rightarrow> ('a, 's, 'w) act" where
  "act_error e s w = Done (Inl e, [], s, w)"

definition act_bind :: "('a, 's, 'w) act \<Rightarrow> ('a \<Rightarrow> ('b, 's, 'w) act) \<Rightarrow> ('b, 's, 'w) act" where
  "act_bind m f s w =
     run_bind (m s w) (\<lambda>(r, ps, s', w').
       case r of
         Inl e \<Rightarrow> Done (Inl e, ps, s', w')
       | Inr x \<Rightarrow> run_bind (f x s' w') (\<lambda>(r', ps', s'', w''). Done (r', ps @ ps', s'', w'')))"

definition act_then :: "(unit, 's, 'w) act \<Rightarrow> ('b, 's, 'w) act \<Rightarrow> ('b, 's, 'w) act" where
  "act_then m k = act_bind m (\<lambda>_. k)"

definition report :: "int \<Rightarrow> string \<Rightarrow> (unit, 's, 'w) act" where
  "report percent status s w = Done (ok, [(percent, status)], s, w)"

definition act_io :: "('a Result, 'w) io \<Rightarrow> ('a, 's, 'w) act" where
  "act_io m s w = run_bind (m w) (\<lambda>(r, w'). Done (r, [], s, w'))"

text \<open>A call whose result is not looked at.\<close>

definition act_ignore :: "('a Result, 'w) io \<Rightarrow> (unit, 's, 'w) act" where
  "act_ignore m s w = run_bind (m w) (\<lambda>(r, w'). Done (ok, [], s, w'))"

definition act_update :: "('s \<Rightarrow> 's) \<Rightarrow> (unit, 's, 'w) act" where
  "act_update f s w = Done (ok, [], f s, w)"

definition act_get :: "('s \<Rightarrow> 'w \<Rightarrow> ('a, 's, 'w) act) \<Rightarrow> ('a, 's, 'w) act" where
  "act_get f s w = f s w s w"

definition io_ignore :: "('a, 'w) io \<Rightarrow> (unit Result, 'w) io" where
  "io_ignore m w = run_bind (m w) (\<lambda>(r, w'). Done (ok, w'))"

definition act_withDisk :: "'w Win32 \<Rightarrow> int \<Rightarrow> DiskAccessMode \<Rightarrow> (RawDiskHandle \<Rightarrow> ('a, 's, 'w) act) \<Rightarrow>
    ('a, 's, 'w) act" where
  "act_withDisk W diskId mode body =
     act_bind (act_io (rawOpen W diskId mode)) (\<lambda>disk s w.
       run_bind (body disk s w) (\<lambda>(r, ps, s', w'). Done (r, ps, s', rawDestroy W disk w')))"

definition act_require :: "bool \<Rightarrow> ('a, 's, 'w) act \<Rightarrow> ('a, 's, 'w) act" where
  "act_require b m s w = require b (m s w)"

section \<open>Rules for actions\<close>

lemma act_bind_Done [run_simps]:
  "act_bind m f s w = Done (r, ps, s2, w2) \<longleftrightarrow>
     (\<exists>e. m s w = Done (Inl e, ps, s2, w2) \<and> r = Inl e) \<or>
     (\<exists>x ps1 s1 w1 ps2. m s w = Done (Inr x, ps1, s1, w1) \<and> f x s1 w1 = Done (r, ps2, s2, w2) \<and> ps = ps1 @ ps2)"
proof (cases "m s w")
  case (Done q)
  obtain r1 ps1 s1 w1 where q: "q = (r1, ps1, s1, w1)" by (metis prod_cases4)
  show ?thesis by (cases r1) (auto simp: act_bind_def Done q run_bind_Done_iff)
qed (simp_all add: act_bind_def)

lemma act_then_Done [run_simps]:
  "act_then m k s w = Done (r, ps, s2, w2) \<longleftrightarrow>
     (\<exists>e. m s w = Done (Inl e, ps, s2, w2) \<and> r = Inl e) \<or>
     (\<exists>x ps1 s1 w1 ps2. m s w = Done (Inr x, ps1, s1, w1) \<and> k s1 w1 = Done (r, ps2, s2, w2) \<and> ps = ps1 @ ps2)"
  by (simp add: act_then_def act_bind_Done)

lemma act_simple_Done [run_simps]:
  "report n msg s w = Done (r, ps, s', w') \<longleftrightarrow> r = ok \<and> ps = [(n, msg)] \<and> s' = s \<and> w' = w"
  "act_return x s w = Done (rx, ps, s', w') \<longleftrightarrow> rx = Inr x \<and> ps = [] \<and> s' = s \<and> w' = w"
  "act_error e s w = Done (rx, ps, s', w') \<longleftrightarrow> rx = Inl e \<and> ps = [] \<and> s' = s \<and> w' = w"
  "act_update f s w = Done (r, ps, s', w') \<longleftrightarrow> r = ok \<and> ps = [] \<and> s' = f s \<and> w' = w"
  "act_io m s w = Done (rx, ps, s', w') \<longleftrightarrow> m w = Done (rx, w') \<and> ps = [] \<and> s' = s"
  "act_ignore m s w = Done (r, ps, s', w') \<longleftrightarrow> (\<exists>r'. m w = Done (r', w')) \<and> r = ok \<and> ps = [] \<and> s' = s"
  "act_require b k s w = Done (rx, ps, s', w') \<longleftrightarrow> b \<and> k s w = Done (rx, ps, s', w')"
  by (auto simp: report_def act_return_def act_error_def act_update_def act_io_def act_ignore_def
      act_require_def require_Done_iff run_bind_Done_iff)

definition act_keeps :: "('w \<Rightarrow> 'v) \<Rightarrow> ('a, 's, 'w) act \<Rightarrow> bool" where
  "act_keeps f m \<longleftrightarrow> (\<forall>s w r ps s' w'. m s w = Done (r, ps, s', w') \<longrightarrow> f w' = f w)"

lemma act_keepsD: "act_keeps f m \<Longrightarrow> m s w = Done (r, ps, s', w') \<Longrightarrow> f w' = f w"
  unfolding act_keeps_def by blast

named_theorems act_intros \<open>actions that keep an observation of the world\<close>

lemma act_keeps_simple [act_intros]:
  "act_keeps f (report n msg)" "act_keeps f (act_return x)" "act_keeps f (act_error e)" "act_keeps f (act_update g)"
  "keeps f m \<Longrightarrow> act_keeps f (act_io m)" "keeps f m \<Longrightarrow> act_keeps f (act_ignore m)"
  "act_keeps f a \<Longrightarrow> act_keeps f (act_require b a)"
  unfolding act_keeps_def act_simple_Done keeps_def by blast+

lemma act_keeps_bind [act_intros]:
  "act_keeps f m \<Longrightarrow> (\<And>x. act_keeps f (g x)) \<Longrightarrow> act_keeps f (act_bind m g)"
  unfolding act_keeps_def act_bind_Done by metis

lemma act_keeps_then [act_intros]: "act_keeps f m \<Longrightarrow> act_keeps f k \<Longrightarrow> act_keeps f (act_then m k)"
  unfolding act_then_def by (rule act_keeps_bind)

lemma act_keeps_get [act_intros]: "(\<And>s w. act_keeps f (g s w)) \<Longrightarrow> act_keeps f (act_get g)"
  unfolding act_keeps_def act_get_def by blast

lemma act_keeps_edit [act_intros]:
  "(\<And>e t. act_keeps f (g e t)) \<Longrightarrow> (\<And>x t. act_keeps f (k x t)) \<Longrightarrow>
    act_keeps f (case edit of (Inl e, t) \<Rightarrow> g e t | (Inr x, t) \<Rightarrow> k x t)"
  by (simp split: prod.split sum.split)

lemma act_keeps_option [act_intros]:
  "act_keeps f a \<Longrightarrow> (\<And>x. act_keeps f (k x)) \<Longrightarrow> act_keeps f (case v of None \<Rightarrow> a | Some x \<Rightarrow> k x)"
  by (simp split: option.split)

lemma act_keeps_sum [act_intros]:
  "(\<And>e. act_keeps f (a e)) \<Longrightarrow> (\<And>x. act_keeps f (k x)) \<Longrightarrow> act_keeps f (case v of Inl e \<Rightarrow> a e | Inr x \<Rightarrow> k x)"
  by (simp split: sum.split)

lemma act_keeps_if [act_intros]:
  "(b \<Longrightarrow> act_keeps f m) \<Longrightarrow> (\<not> b \<Longrightarrow> act_keeps f k) \<Longrightarrow> act_keeps f (if b then m else k)"
  by simp

lemma io_ignore_keeps [keeps_intros]: "keeps f m \<Longrightarrow> keeps f (io_ignore m)"
  unfolding keeps_def io_ignore_def by (auto simp: run_bind_Done_iff)

lemma keeps_pure [keeps_intros]: "keeps f (\<lambda>w. Done (g w, w))"
  by (simp add: keeps_def)

lemma act_withDisk_Done:
  "act_withDisk W d mode body s w = Done (r, ps, s', w') \<longleftrightarrow>
     (\<exists>e. rawOpen W d mode w = Done (Inl e, w') \<and> r = Inl e \<and> ps = [] \<and> s' = s) \<or>
     (\<exists>h w1 w2. CreateFileW W (physicalDrive d) (mode = ReadWrite) w = (Inr h, w1) \<and>
        body \<lparr>rh_handle = Some h, rh_diskId = d, rh_accessMode = mode\<rparr> s w1 = Done (r, ps, s', w2) \<and>
        w' = CloseHandle W h w2)"
  unfolding act_withDisk_def
  by (auto simp: act_bind_Done act_simple_Done rawOpen_Done(1) run_bind_Done_iff rawDestroy_def rawClose_def)

lemma act_withDisk_handles [act_intros]:
  assumes "handle_laws W V" "\<And>disk. act_keeps (handles V) (body disk)"
  shows "act_keeps (handles V) (act_withDisk W d mode body)"
  unfolding act_keeps_def act_withDisk_Done
  by (auto simp: handle_lawsD(3) [OF assms(1)] dest!: rawOpen_Done(2) handle_lawsD(1,2) [OF assms(1)]
      act_keepsD [OF assms(2)])

lemma act_withDisk_contents [act_intros]:
  assumes "content_laws W V" "\<And>disk. act_keeps (contents V) (body disk)"
  shows "act_keeps (contents V) (act_withDisk W d mode body)"
  unfolding act_keeps_def act_withDisk_Done
  by (auto simp: content_lawsD(3) [OF assms(1)] dest!: rawOpen_Done(2) content_lawsD(1) [OF assms(1)]
      act_keepsD [OF assms(2)])

end
