(* ===== verification/Fs_Detector.thy ===== *)
theory Fs_Detector
  imports Partition_Types
begin

text \<open>
  \<open>src/core/disk/FilesystemDetector.cpp\<close>: the type of a file system from the magic numbers of its
  first sectors. A probe reads through a callback and returns the filled-in description or, when it
  does not recognize the volume, nothing; no probe changes the description before it gives up.

  Two probes have undefined behaviour on crafted volumes: a shift by a count from the disk (exFAT)
  and a product of two 16-bit fields in signed arithmetic (PS2); a third reads past a short buffer
  (RomFS). They return a \<open>run\<close>.
\<close>

section \<open>Helpers\<close>

record FilesystemDetection =
  fd_type :: FilesystemType
  fd_label :: bytes
  fd_uuid :: string
  fd_blockSize :: u32
  fd_description :: string

definition fd_default :: FilesystemDetection where
  "fd_default = \<lparr>fd_type = UnknownFs, fd_label = [], fd_uuid = [], fd_blockSize = 0, fd_description = []\<rparr>"

definition isDetected :: "FilesystemDetection \<Rightarrow> bool" where
  "isDetected d \<longleftrightarrow> fd_type d \<noteq> UnknownFs"

text \<open>The bytes of a string literal.\<close>

definition ascii :: "string \<Rightarrow> bytes" where
  "ascii s = map of_char s"

definition memEqual :: "bytes \<Rightarrow> nat \<Rightarrow> string \<Rightarrow> bool" where
  "memEqual data off magic \<longleftrightarrow> slice off (length magic) data = ascii magic"

definition isPowerOf2 :: "u32 \<Rightarrow> bool" where
  "isPowerOf2 v \<longleftrightarrow> v \<noteq> 0 \<and> v AND (v - 1) = 0"

definition trimSpaces :: "bytes \<Rightarrow> bytes" where
  "trimSpaces s = rev (dropWhile (\<lambda>b. b = 32) (rev s))"

definition extractString :: "bytes \<Rightarrow> nat \<Rightarrow> nat \<Rightarrow> bytes" where
  "extractString data off maxLen = trimSpaces (takeWhile (\<lambda>b. b \<noteq> 0) (slice off maxLen data))"

definition safeRead :: "DiskReadCallback \<Rightarrow> u64 \<Rightarrow> u32 \<Rightarrow> bytes" where
  "safeRead readFunc offset n = (case readFunc offset n of Inl e \<Rightarrow> [] | Inr bs \<Rightarrow> bs)"

text \<open>The conversions \<open>%04X-%04X\<close> of the halves of a serial number and \<open>%02x\<close> of a UUID.\<close>

definition hexUpper :: "u32 \<Rightarrow> char" where
  "hexUpper d = ''0123456789ABCDEF'' ! unat (d AND 15)"

definition hex4 :: "u32 \<Rightarrow> string" where
  "hex4 v = [hexUpper (drop_bit 12 v), hexUpper (drop_bit 8 v), hexUpper (drop_bit 4 v), hexUpper v]"

definition serialText :: "u32 \<Rightarrow> string" where
  "serialText serial = hex4 (drop_bit 16 serial AND 0xFFFF) @ ''-'' @ hex4 (serial AND 0xFFFF)"

definition uuidText :: "bytes \<Rightarrow> nat \<Rightarrow> string" where
  "uuidText data off =
     (let h = (\<lambda>i. hex2 (data ! (off + i))) in
      h 0 @ h 1 @ h 2 @ h 3 @ ''-'' @ h 4 @ h 5 @ ''-'' @ h 6 @ h 7 @ ''-'' @ h 8 @ h 9 @ ''-'' @
      h 10 @ h 11 @ h 12 @ h 13 @ h 14 @ h 15)"

section \<open>Probes for Windows file systems\<close>

definition detectNtfs :: "DiskReadCallback \<Rightarrow> FilesystemDetection \<Rightarrow> FilesystemDetection option" where
  "detectNtfs readFunc out =
     (let data = safeRead readFunc 0 512 in
      if length data < 512 then None
      else if \<not> memEqual data 3 ''NTFS    '' then None
      else if readLE16 data 510 \<noteq> 0xAA55 then None
      else
        (let bytesPerSector = readLE16 data 0x0B;
             sectorsPerCluster = data ! 0x0D;
             serial = readLE64 data 0x48;
             out = out\<lparr>fd_type := NTFS, fd_description := ''NTFS''\<rparr>;
             out = (if bytesPerSector > 0 \<and> sectorsPerCluster > 0
                    then out\<lparr>fd_blockSize := ucast bytesPerSector * ucast sectorsPerCluster\<rparr> else out);
             out = (if serial \<noteq> 0 then out\<lparr>fd_uuid := serialText (ucast (drop_bit 32 serial))\<rparr> else out)
         in Some out))"

text \<open>The fields of a FAT boot sector, and the number of clusters they describe.\<close>

definition fatBpbOk :: "bytes \<Rightarrow> bool" where
  "fatBpbOk data \<longleftrightarrow>
     (let bytesPerSector = readLE16 data 0x0B; sectorsPerCluster = data ! 0x0D; reservedSectors = readLE16 data 0x0E;
          numFats = data ! 0x10; mediaType = data ! 0x15
      in \<not> (bytesPerSector = 0 \<or> \<not> isPowerOf2 (ucast bytesPerSector)) \<and>
         \<not> (bytesPerSector < 128 \<or> bytesPerSector > 4096) \<and>
         \<not> (sectorsPerCluster = 0 \<or> \<not> isPowerOf2 (ucast sectorsPerCluster)) \<and>
         reservedSectors \<noteq> 0 \<and> \<not> (numFats = 0 \<or> numFats > 4) \<and>
         \<not> (mediaType \<noteq> 0xF0 \<and> mediaType < 0xF8))"

definition fatSizeOf :: "bytes \<Rightarrow> u32" where
  "fatSizeOf data = (let fatSize16 = readLE16 data 0x16 in if fatSize16 = 0 then readLE32 data 0x24 else ucast fatSize16)"

definition fatTotalSectors :: "bytes \<Rightarrow> u32" where
  "fatTotalSectors data =
     (let totalSectors16 = readLE16 data 0x13 in if totalSectors16 \<noteq> 0 then ucast totalSectors16 else readLE32 data 0x20)"

definition fatDataStart :: "bytes \<Rightarrow> u32" where
  "fatDataStart data =
     (let bytesPerSector = ucast (readLE16 data 0x0B); rootEntryCount = ucast (readLE16 data 0x11);
          rootDirSectors = (rootEntryCount * 32 + (bytesPerSector - 1)) div bytesPerSector
      in ucast (readLE16 data 0x0E) + ucast (data ! 0x10) * fatSizeOf data + rootDirSectors)"

definition detectFat :: "DiskReadCallback \<Rightarrow> FilesystemDetection \<Rightarrow> FilesystemDetection option" where
  "detectFat readFunc out =
     (let data = safeRead readFunc 0 512 in
      if length data < 512 then None
      else if readLE16 data 510 \<noteq> 0xAA55 then None
      else if data ! 0 \<noteq> 0xEB \<and> data ! 0 \<noteq> 0xE9 then None
      else if \<not> fatBpbOk data then None
      else if fatTotalSectors data = 0 then None
      else if fatDataStart data \<ge> fatTotalSectors data then None
      else
        (let dataSectors = fatTotalSectors data - fatDataStart data;
             totalClusters = dataSectors div ucast (data ! 0x0D);
             out = (if totalClusters < 4085 then out\<lparr>fd_type := FAT12, fd_description := ''FAT12''\<rparr>
                    else if totalClusters < 65525 then out\<lparr>fd_type := FAT16, fd_description := ''FAT16''\<rparr>
                    else out\<lparr>fd_type := FAT32, fd_description := ''FAT32''\<rparr>);
             out = out\<lparr>fd_blockSize := ucast (readLE16 data 0x0B) * ucast (data ! 0x0D)\<rparr>;
             isFat32Bpb = (readLE16 data 0x16 = 0);
             out = out\<lparr>fd_label := extractString data (if isFat32Bpb then 0x47 else 0x2B) 11\<rparr>;
             serial = readLE32 data (if isFat32Bpb then 0x43 else 0x27);
             out = (if serial \<noteq> 0 then out\<lparr>fd_uuid := serialText serial\<rparr> else out);
             out = (if fd_label out = ascii ''NO NAME'' then out\<lparr>fd_label := []\<rparr> else out)
         in Some out))"

definition detectExfat :: "DiskReadCallback \<Rightarrow> FilesystemDetection \<Rightarrow> FilesystemDetection option run" where
  "detectExfat readFunc out =
     (let data = safeRead readFunc 0 512 in
      if length data < 512 then Done None
      else if \<not> memEqual data 3 ''EXFAT   '' then Done None
      else
        (let bytesPerSectorShift = data ! 0x6C;
             sectorsPerClusterShift = data ! 0x6D;
             serial = readLE32 data 0x64;
             out = out\<lparr>fd_type := ExFAT, fd_description := ''exFAT''\<rparr>;
             uuid = (\<lambda>out. if serial \<noteq> 0 then out\<lparr>fd_uuid := serialText serial\<rparr> else out)
         in if bytesPerSectorShift \<ge> 9 \<and> bytesPerSectorShift \<le> 12 then
              require (sectorsPerClusterShift < 32)
                (Done (Some (uuid (out\<lparr>fd_blockSize :=
                   push_bit (unat bytesPerSectorShift) 1 * push_bit (unat sectorsPerClusterShift) 1\<rparr>))))
            else Done (Some (uuid out))))"

definition detectReFs :: "DiskReadCallback \<Rightarrow> FilesystemDetection \<Rightarrow> FilesystemDetection option" where
  "detectReFs readFunc out =
     (let data = safeRead readFunc 0 512 in
      if length data < 512 then None
      else if memEqual data 3 ''ReFS'' then Some (out\<lparr>fd_type := ReFS, fd_description := ''ReFS''\<rparr>)
      else None)"

section \<open>Probes for Linux and Apple file systems\<close>

definition detectExt :: "DiskReadCallback \<Rightarrow> FilesystemDetection \<Rightarrow> FilesystemDetection option" where
  "detectExt readFunc out =
     (let data = safeRead readFunc 1024 1024 in
      if length data < 1024 then None
      else if readLE16 data 0x38 \<noteq> EXT_SUPER_MAGIC then None
      else
        (let compatFeatures = readLE32 data 0x5C;
             incompatFeatures = readLE32 data 0x60;
             hasJournal = (compatFeatures AND 0x0004 \<noteq> 0);
             hasExtents = (incompatFeatures AND 0x0040 \<noteq> 0);
             has64bit = (incompatFeatures AND 0x0080 \<noteq> 0);
             hasFlexBg = (incompatFeatures AND 0x0200 \<noteq> 0);
             out = (if hasExtents \<or> has64bit \<or> hasFlexBg then out\<lparr>fd_type := Ext4, fd_description := ''ext4''\<rparr>
                    else if hasJournal then out\<lparr>fd_type := Ext3, fd_description := ''ext3''\<rparr>
                    else out\<lparr>fd_type := Ext2, fd_description := ''ext2''\<rparr>);
             logBlockSize = readLE32 data 0x18;
             out = (if logBlockSize < 10 then out\<lparr>fd_blockSize := push_bit (unat logBlockSize) 1024\<rparr> else out)
         in Some (out\<lparr>fd_label := extractString data 0x78 16, fd_uuid := uuidText data 0x68\<rparr>)))"

definition detectBtrfs :: "DiskReadCallback \<Rightarrow> FilesystemDetection \<Rightarrow> FilesystemDetection option" where
  "detectBtrfs readFunc out =
     (let data = safeRead readFunc 0x10000 0x1000 in
      if length data < 0x100 then None
      else if \<not> memEqual data 0x40 ''_BHRfS_M'' then None
      else
        (let out = out\<lparr>fd_type := Btrfs, fd_description := ''Btrfs'', fd_blockSize := readLE32 data 0x80\<rparr>;
             out = (if length data > 0x12B + 256 then out\<lparr>fd_label := extractString data 0x12B 256\<rparr> else out);
             out = (if length data > 0x20 + 16 then out\<lparr>fd_uuid := uuidText data 0x20\<rparr> else out)
         in Some out))"

definition detectXfs :: "DiskReadCallback \<Rightarrow> FilesystemDetection \<Rightarrow> FilesystemDetection option" where
  "detectXfs readFunc out =
     (let data = safeRead readFunc 0 512 in
      if length data < 512 then None
      else if readBE32 data 0 \<noteq> 0x58465342 then None
      else Some (out\<lparr>fd_type := XFS, fd_description := ''XFS'', fd_blockSize := readBE32 data 4,
             fd_label := extractString data 0x6C 12, fd_uuid := uuidText data 0x20\<rparr>))"

definition detectHfsPlus :: "DiskReadCallback \<Rightarrow> FilesystemDetection \<Rightarrow> FilesystemDetection option" where
  "detectHfsPlus readFunc out =
     (let data = safeRead readFunc 1024 512 in
      if length data < 512 then None
      else
        (let magic = readBE16 data 0 in
         if magic = 0x482B then
           Some (out\<lparr>fd_type := HFSPlus, fd_description := ''HFS+'', fd_blockSize := readBE32 data 0x28\<rparr>)
         else if magic = 0x4858 then
           Some (out\<lparr>fd_type := HFSPlus, fd_description := ''HFSX (case-sensitive HFS+)'', fd_blockSize := readBE32 data 0x28\<rparr>)
         else if readBE16 data 0 = 0x4244 then
           Some (out\<lparr>fd_type := HFS, fd_description := ''HFS (Classic)''\<rparr>)
         else None))"

definition detectApfs :: "DiskReadCallback \<Rightarrow> FilesystemDetection \<Rightarrow> FilesystemDetection option" where
  "detectApfs readFunc out =
     (let data = safeRead readFunc 0 4096 in
      if length data < 64 then None
      else if readLE32 data 32 \<noteq> 0x4253584E then None
      else Some (out\<lparr>fd_type := APFS, fd_description := ''APFS'', fd_blockSize := readLE32 data 36\<rparr>))"

definition detectReiserFs :: "DiskReadCallback \<Rightarrow> FilesystemDetection \<Rightarrow> FilesystemDetection option" where
  "detectReiserFs readFunc out =
     (let data = safeRead readFunc 0x10034 64 in
      if length data \<ge> 12 \<and>
         (memEqual data 0 ''ReIsErFs'' \<or> memEqual data 0 ''ReIsEr2Fs'' \<or> memEqual data 0 ''ReIsEr3Fs'') then
        (let out = out\<lparr>fd_type := ReiserFS, fd_description := ''ReiserFS''\<rparr>;
             sb = safeRead readFunc 0x10000 0x100
         in Some (if length sb \<ge> 0x30 then out\<lparr>fd_blockSize := ucast (readLE16 sb 0x2C)\<rparr> else out))
      else
        (let data = safeRead readFunc (0x2000 + 0x34) 12 in
         if length data \<ge> 8 \<and> memEqual data 0 ''ReIsErFs'' then
           Some (out\<lparr>fd_type := ReiserFS, fd_description := ''ReiserFS 3.5''\<rparr>)
         else None))"

definition detectJfs :: "DiskReadCallback \<Rightarrow> FilesystemDetection \<Rightarrow> FilesystemDetection option" where
  "detectJfs readFunc out =
     (let data = safeRead readFunc 0x8000 512 in
      if length data < 512 then None
      else if \<not> memEqual data 0 ''JFS1'' then None
      else Some (out\<lparr>fd_type := JFS, fd_description := ''JFS'', fd_blockSize := readLE32 data 0x18,
             fd_label := extractString data 0x96 16, fd_uuid := uuidText data 0x80\<rparr>))"

definition detectZfs :: "DiskReadCallback \<Rightarrow> FilesystemDetection \<Rightarrow> FilesystemDetection option" where
  "detectZfs readFunc out =
     (let data = safeRead readFunc 0x20000 1024; found = out\<lparr>fd_type := ZFS, fd_description := ''ZFS''\<rparr> in
      if length data \<ge> 8 \<and> readLE64 data 0 = 0x00BAB10C then Some found
      else
        (let nvData = safeRead readFunc 0x4000 0x4000 in
         if length nvData \<ge> 16 \<and> list_ex (\<lambda>i. memEqual nvData i ''version'') [0..<length nvData - 7]
         then Some found else None))"

text \<open>The swap signature is looked for at the end of the first page, for four page sizes.\<close>

fun swapPages :: "DiskReadCallback \<Rightarrow> FilesystemDetection \<Rightarrow> u64 \<Rightarrow> u32 list \<Rightarrow> FilesystemDetection option" where
  "swapPages readFunc out volumeSize [] = None"
| "swapPages readFunc out volumeSize (pageSize # sizes) =
     (if ucast pageSize > volumeSize \<and> volumeSize > 0 then swapPages readFunc out volumeSize sizes
      else
        (let data = safeRead readFunc (ucast (pageSize - 10)) 10 in
         if length data < 10 then swapPages readFunc out volumeSize sizes
         else if memEqual data 0 ''SWAPSPACE2'' \<or> memEqual data 0 ''SWAP-SPACE'' then
           (let out = out\<lparr>fd_type := SWAP_LINUX, fd_description := ''Linux Swap'', fd_blockSize := pageSize\<rparr>;
                header = safeRead readFunc 0 4096;
                out = (if length header \<ge> 0x41C then out\<lparr>fd_uuid := uuidText header 0x40C\<rparr> else out);
                out = (if length header \<ge> 0x42C then out\<lparr>fd_label := extractString header 0x41C 16\<rparr> else out)
            in Some out)
         else swapPages readFunc out volumeSize sizes))"

definition detectLinuxSwap :: "DiskReadCallback \<Rightarrow> FilesystemDetection \<Rightarrow> u64 \<Rightarrow> FilesystemDetection option" where
  "detectLinuxSwap readFunc out volumeSize = swapPages readFunc out volumeSize [4096, 8192, 16384, 65536]"

section \<open>Probes for optical, legacy and embedded file systems\<close>

definition detectIso9660 :: "DiskReadCallback \<Rightarrow> FilesystemDetection \<Rightarrow> FilesystemDetection option" where
  "detectIso9660 readFunc out =
     (let data = safeRead readFunc 0x8000 2048 in
      if length data < 2048 then None
      else if \<not> memEqual data 1 ''CD001'' then None
      else Some (out\<lparr>fd_type := ISO9660, fd_description := ''ISO 9660'', fd_blockSize := 2048,
             fd_label := extractString data 40 32\<rparr>))"

definition udfNsr :: "bytes \<Rightarrow> bool" where
  "udfNsr nsr \<longleftrightarrow> length nsr \<ge> 6 \<and> (memEqual nsr 1 ''NSR02'' \<or> memEqual nsr 1 ''NSR03'')"

definition detectUdf :: "DiskReadCallback \<Rightarrow> FilesystemDetection \<Rightarrow> FilesystemDetection option" where
  "detectUdf readFunc out =
     (let bea = safeRead readFunc 0x8000 2048;
          found = out\<lparr>fd_type := UDF, fd_description := ''UDF'', fd_blockSize := 2048\<rparr>
      in if length bea < 6 then None
         else if \<not> memEqual bea 1 ''BEA01'' then None
         else if udfNsr (safeRead readFunc 0x8800 2048) then Some found
         else if udfNsr (safeRead readFunc 0x9000 2048) then Some found
         else None)"

definition detectHpfs :: "DiskReadCallback \<Rightarrow> FilesystemDetection \<Rightarrow> FilesystemDetection option" where
  "detectHpfs readFunc out =
     (let super = safeRead readFunc 8192 512 in
      if length super < 512 then None
      else if readLE32 super 0 \<noteq> 0xF995E849 then None
      else
        (let spare = safeRead readFunc 8704 512 in
         if length spare \<ge> 4 \<and> readLE32 spare 0 \<noteq> 0xF9911849 then None
         else Some (out\<lparr>fd_type := HPFS, fd_description := ''HPFS (OS/2)''\<rparr>)))"

definition detectMinix :: "DiskReadCallback \<Rightarrow> FilesystemDetection \<Rightarrow> FilesystemDetection option" where
  "detectMinix readFunc out =
     (let data = safeRead readFunc 1024 512 in
      if length data < 32 then None
      else
        (let magic = readLE16 data 0x10 in
         if magic = 0x137F \<or> magic = 0x138F then
           Some (out\<lparr>fd_type := Minix, fd_description := ''MINIX v1'', fd_blockSize := 1024\<rparr>)
         else if magic = 0x2468 \<or> magic = 0x2478 then
           Some (out\<lparr>fd_type := Minix, fd_description := ''MINIX v2'', fd_blockSize := 1024\<rparr>)
         else if magic = 0x4D5A then
           Some (out\<lparr>fd_type := Minix, fd_description := ''MINIX v3'', fd_blockSize := ucast (readLE16 data 0x18)\<rparr>)
         else None))"

definition ufsMagic :: "bytes \<Rightarrow> bool" where
  "ufsMagic data \<longleftrightarrow> length data \<ge> 0x560 \<and>
     (let magic = readLE32 data 0x55C in magic = 0x00011954 \<or> magic = 0x54190100)"

definition detectUfs :: "DiskReadCallback \<Rightarrow> FilesystemDetection \<Rightarrow> FilesystemDetection option" where
  "detectUfs readFunc out =
     (if ufsMagic (safeRead readFunc 8192 0x600) then Some (out\<lparr>fd_type := UFS, fd_description := ''UFS1''\<rparr>)
      else if ufsMagic (safeRead readFunc 65536 0x600) then Some (out\<lparr>fd_type := UFS, fd_description := ''UFS2''\<rparr>)
      else None)"

definition detectBfs :: "DiskReadCallback \<Rightarrow> FilesystemDetection \<Rightarrow> FilesystemDetection option" where
  "detectBfs readFunc out =
     (let data = safeRead readFunc 512 512 in
      if length data < 512 then None
      else if readLE32 data 0 = 0x42465331 then
        Some (out\<lparr>fd_type := BFS_BeOS, fd_description := ''BFS (BeOS/Haiku)'', fd_blockSize := readLE32 data 4,
          fd_label := extractString data 0x20 32\<rparr>)
      else if readBE32 data 0 = 0x42465331 then
        Some (out\<lparr>fd_type := BFS_BeOS, fd_description := ''BFS (BeOS, big-endian)'', fd_blockSize := readBE32 data 4\<rparr>)
      else None)"

definition detectQnx4 :: "DiskReadCallback \<Rightarrow> FilesystemDetection \<Rightarrow> FilesystemDetection option" where
  "detectQnx4 readFunc out =
     (let data = safeRead readFunc 0 512 in
      if length data < 512 then None
      else if data ! 4 = 0x2F \<and> data ! 0 AND 0x01 \<noteq> 0 then
        Some (out\<lparr>fd_type := QNX4, fd_description := ''QNX4''\<rparr>)
      else None)"

definition detectSquashFs :: "DiskReadCallback \<Rightarrow> FilesystemDetection \<Rightarrow> FilesystemDetection option" where
  "detectSquashFs readFunc out =
     (let data = safeRead readFunc 0 512 in
      if length data < 96 then None
      else if readLE32 data 0 = 0x73717368 then
        Some (out\<lparr>fd_type := SquashFS, fd_description := ''SquashFS'', fd_blockSize := readLE32 data 12\<rparr>)
      else if readBE32 data 0 = 0x73717368 then
        Some (out\<lparr>fd_type := SquashFS, fd_description := ''SquashFS (big-endian)'', fd_blockSize := readBE32 data 12\<rparr>)
      else None)"

definition detectCramFs :: "DiskReadCallback \<Rightarrow> FilesystemDetection \<Rightarrow> FilesystemDetection option" where
  "detectCramFs readFunc out =
     (let data = safeRead readFunc 0 512 in
      if length data < 64 then None
      else if readLE32 data 0 = 0x28CD3D45 \<or> readLE32 data 0 = 0x453DCD28 then
        Some (out\<lparr>fd_type := CramFS, fd_description := ''CramFS'', fd_blockSize := 4096,
          fd_label := extractString data 16 16\<rparr>)
      else None)"

text \<open>The name of a RomFS volume is looked for in 32 bytes from offset 16, although only 32 bytes are known to be there.\<close>

definition detectRomFs :: "DiskReadCallback \<Rightarrow> FilesystemDetection \<Rightarrow> FilesystemDetection option run" where
  "detectRomFs readFunc out =
     (let data = safeRead readFunc 0 512 in
      if length data < 32 then Done None
      else if \<not> memEqual data 0 ''-rom1fs-'' then Done None
      else require (0 \<in> set (slice 16 32 data) \<or> 48 \<le> length data)
        (Done (Some (out\<lparr>fd_type := RomFS, fd_description := ''RomFS'', fd_label := extractString data 16 32\<rparr>))))"

section \<open>Probes for flash file systems, consoles and images\<close>

text \<open>The ASCII characters of 16-bit units up to a terminator.\<close>

fun narrowUnits :: "(u16 \<Rightarrow> bool) \<Rightarrow> u16 list \<Rightarrow> bytes" where
  "narrowUnits stop [] = []"
| "narrowUnits stop (ch # us) =
     (if stop ch then [] else if ch < 128 then ucast ch # narrowUnits stop us else narrowUnits stop us)"

definition detectF2fs :: "DiskReadCallback \<Rightarrow> FilesystemDetection \<Rightarrow> FilesystemDetection option" where
  "detectF2fs readFunc out =
     (let data = safeRead readFunc 0x400 128 in
      if length data < 128 then None
      else if readLE32 data 0 \<noteq> 0xF2F52010 then None
      else
        (let out = out\<lparr>fd_type := F2FS, fd_description := ''F2FS (Flash-Friendly File System)''\<rparr>;
             logBlocksize = readLE32 data 38;
             out = (if logBlocksize \<ge> 10 \<and> logBlocksize \<le> 16
                    then out\<lparr>fd_blockSize := push_bit (unat logBlocksize) 1\<rparr> else out);
             labelData = safeRead readFunc (0x400 + 0x2A0) 512;
             label = narrowUnits (\<lambda>ch. ch = 0) (map (\<lambda>i. readLE16 labelData (2 * i)) [0..<32]);
             out = (if length labelData \<ge> 64 \<and> label \<noteq> [] then out\<lparr>fd_label := label\<rparr> else out)
         in Some (if length data \<ge> 0x70 then out\<lparr>fd_uuid := uuidText data 0x60\<rparr> else out)))"

definition detectJffs2 :: "DiskReadCallback \<Rightarrow> FilesystemDetection \<Rightarrow> FilesystemDetection option" where
  "detectJffs2 readFunc out =
     (let data = safeRead readFunc 0 12 in
      if length data < 12 then None
      else if readLE16 data 0 \<noteq> 0x1985 \<and> readLE16 data 0 \<noteq> 0x8519 then None
      else
        (let nodeBase = readLE16 data 2 AND 0x00FF in
         if nodeBase \<noteq> 0x01 \<and> nodeBase \<noteq> 0x02 \<and> nodeBase \<noteq> 0x03 \<and> nodeBase \<noteq> 0x06 \<and> nodeBase \<noteq> 0xE0 then None
         else Some (out\<lparr>fd_type := JFFS2, fd_description := ''JFFS2 (Journalling Flash File System v2)''\<rparr>)))"

definition detectNilfs2 :: "DiskReadCallback \<Rightarrow> FilesystemDetection \<Rightarrow> FilesystemDetection option" where
  "detectNilfs2 readFunc out =
     (let data = safeRead readFunc 0x400 128 in
      if length data < 128 then None
      else if readLE16 data 6 \<noteq> 0x3434 then None
      else
        (let out = out\<lparr>fd_type := NILFS2, fd_description := ''NILFS2''\<rparr>; logBlock = readLE32 data 0x0E
         in Some (if logBlock \<ge> 10 \<and> logBlock \<le> 16 then out\<lparr>fd_blockSize := push_bit (unat logBlock) 1\<rparr> else out)))"

definition detectFatx :: "DiskReadCallback \<Rightarrow> FilesystemDetection \<Rightarrow> FilesystemDetection option" where
  "detectFatx readFunc out =
     (let data = safeRead readFunc 0 0x200 in
      if length data < 0x200 then None
      else if \<not> memEqual data 0 ''FATX'' then None
      else
        (let spc = readLE32 data 0x08 in
         if \<not> isPowerOf2 spc \<or> spc > 0x80 then None
         else
           (let out = out\<lparr>fd_type := FATX, fd_description := ''FATX (Xbox)'', fd_blockSize := spc * 512\<rparr>;
                label = narrowUnits (\<lambda>ch. ch = 0 \<or> ch = 0xFFFF) (map (\<lambda>i. readLE16 data (0x10 + 2 * i)) [0..<32])
            in Some (if label \<noteq> [] then out\<lparr>fd_label := label\<rparr> else out))))"

definition detectStfs :: "DiskReadCallback \<Rightarrow> FilesystemDetection \<Rightarrow> FilesystemDetection option" where
  "detectStfs readFunc out =
     (let data = safeRead readFunc 0 8 in
      if length data < 4 then None
      else if readBE32 data 0 \<notin> {0x434F4E20, 0x4C495645, 0x50495253} then None
      else Some (out\<lparr>fd_type := STFS, fd_description := ''STFS (Xbox 360 Package)''\<rparr>))"

definition detectGdfx :: "DiskReadCallback \<Rightarrow> FilesystemDetection \<Rightarrow> FilesystemDetection option" where
  "detectGdfx readFunc out =
     (if list_ex (\<lambda>off. let data = safeRead readFunc off 32 in
            length data \<ge> 20 \<and> memEqual data 0 ''MICROSOFT*XBOX*MEDIA'')
          [0x10000, 0x18310000, 0xFDA0000, 0x2090000]
      then Some (out\<lparr>fd_type := GDFX, fd_description := ''GDFX (Xbox Game Disc)''\<rparr>)
      else None)"

text \<open>The product of the two 16-bit fields is computed in \<open>int\<close>.\<close>

definition detectPs2mc :: "DiskReadCallback \<Rightarrow> FilesystemDetection \<Rightarrow> FilesystemDetection option run" where
  "detectPs2mc readFunc out =
     (let data = safeRead readFunc 0 128 in
      if length data < 40 then Done None
      else if \<not> memEqual data 0 ''Sony PS2 Memory Card Format '' then Done None
      else
        (let out = out\<lparr>fd_type := PS2MC, fd_description := ''PS2 Memory Card''\<rparr>;
             pageSize = readLE16 data 0x28;
             pagesPerCluster = readLE16 data 0x2A
         in if length data \<ge> 0x2C \<and> pageSize > 0 \<and> pagesPerCluster > 0 then
              require (unat pageSize * unat pagesPerCluster < 2 ^ 31)
                (Done (Some (out\<lparr>fd_blockSize := ucast pageSize * ucast pagesPerCluster\<rparr>)))
            else Done (Some out)))"

definition detectVhd :: "DiskReadCallback \<Rightarrow> FilesystemDetection \<Rightarrow> u64 \<Rightarrow> FilesystemDetection option" where
  "detectVhd readFunc out volumeSize =
     (let data = safeRead readFunc 0 512;
          found = out\<lparr>fd_type := VHD, fd_description := ''VHD (Virtual Hard Disk)''\<rparr>
      in if length data < 512 then None
         else if memEqual data 0 ''conectix'' then Some found
         else if volumeSize \<ge> 512 then
           (let footer = safeRead readFunc (volumeSize - 512) 512 in
            if length footer \<ge> 8 \<and> memEqual footer 0 ''conectix'' then Some found else None)
         else None)"

definition detectVhdx :: "DiskReadCallback \<Rightarrow> FilesystemDetection \<Rightarrow> FilesystemDetection option" where
  "detectVhdx readFunc out =
     (let data = safeRead readFunc 0 16 in
      if length data < 8 then None
      else if memEqual data 0 ''vhdxfile'' then
        Some (out\<lparr>fd_type := VHDX, fd_description := ''VHDX (Hyper-V Virtual Hard Disk)''\<rparr>)
      else None)"

definition detectVmdk :: "DiskReadCallback \<Rightarrow> FilesystemDetection \<Rightarrow> FilesystemDetection option" where
  "detectVmdk readFunc out =
     (let data = safeRead readFunc 0 64;
          found = out\<lparr>fd_type := VMDK, fd_description := ''VMDK (VMware Virtual Disk)''\<rparr>
      in if length data < 4 then None
         else if readLE32 data 0 = 0x564D444B then Some found
         else if length data \<ge> 21 \<and> memEqual data 0 ''# Disk DescriptorFile'' then Some found
         else None)"

definition detectQcow2 :: "DiskReadCallback \<Rightarrow> FilesystemDetection \<Rightarrow> FilesystemDetection option" where
  "detectQcow2 readFunc out =
     (let data = safeRead readFunc 0 16 in
      if length data < 8 then None
      else if readBE32 data 0 \<noteq> 0x514649FB then None
      else
        (let version = readBE32 data 4 in
         if version \<noteq> 2 \<and> version \<noteq> 3 then None
         else Some (out\<lparr>fd_type := QCOW2,
           fd_description := if version = 3 then ''QCOW2 v3 (QEMU)'' else ''QCOW2 (QEMU)''\<rparr>)))"

definition detectVdi :: "DiskReadCallback \<Rightarrow> FilesystemDetection \<Rightarrow> FilesystemDetection option" where
  "detectVdi readFunc out =
     (let data = safeRead readFunc 0 0x50 in
      if length data < 0x48 then None
      else if readLE32 data 0x40 \<noteq> 0xBEDA107F then None
      else Some (out\<lparr>fd_type := VDI, fd_description := ''VDI (VirtualBox Disk Image)''\<rparr>))"

definition detectRvz :: "DiskReadCallback \<Rightarrow> FilesystemDetection \<Rightarrow> FilesystemDetection option" where
  "detectRvz readFunc out =
     (let data = safeRead readFunc 0 8 in
      if length data < 4 then None
      else if readLE32 data 0 = 0x015A5652 then
        Some (out\<lparr>fd_type := RVZ, fd_description := ''RVZ (Dolphin Wii Disc Image)''\<rparr>)
      else if readLE32 data 0 = 0x01414957 then
        Some (out\<lparr>fd_type := RVZ, fd_description := ''WIA (Dolphin Wii Disc Image)''\<rparr>)
      else None)"

definition detectNrg :: "DiskReadCallback \<Rightarrow> FilesystemDetection \<Rightarrow> u64 \<Rightarrow> FilesystemDetection option" where
  "detectNrg readFunc out volumeSize =
     (if volumeSize < 12 then None
      else
        (let footer = safeRead readFunc (volumeSize - 12) 12 in
         if length footer \<ge> 4 \<and> memEqual footer 0 ''NER5'' then
           Some (out\<lparr>fd_type := NRG, fd_description := ''NRG v2 (Nero Disc Image)''\<rparr>)
         else
           (let footer = safeRead readFunc (volumeSize - 8) 8 in
            if length footer \<ge> 4 \<and> memEqual footer 0 ''NERO'' then
              Some (out\<lparr>fd_type := NRG, fd_description := ''NRG v1 (Nero Disc Image)''\<rparr>)
            else None)))"

definition detectWbfs :: "DiskReadCallback \<Rightarrow> FilesystemDetection \<Rightarrow> FilesystemDetection option" where
  "detectWbfs readFunc out =
     (let data = safeRead readFunc 0 16 in
      if length data < 4 then None
      else if memEqual data 0 ''WBFS'' then
        Some (out\<lparr>fd_type := WBFs, fd_description := ''WBFS (Wii Backup File System)''\<rparr>)
      else None)"

definition filesystemName :: "FilesystemType \<Rightarrow> string" where
  "filesystemName t =
     (case t of
        UnknownFs \<Rightarrow> ''Unknown'' | NTFS \<Rightarrow> ''NTFS'' | FAT32 \<Rightarrow> ''FAT32''
       | FAT16 \<Rightarrow> ''FAT16'' | FAT12 \<Rightarrow> ''FAT12'' | ExFAT \<Rightarrow> ''exFAT''
       | ReFS \<Rightarrow> ''ReFS'' | Ext2 \<Rightarrow> ''ext2'' | Ext3 \<Rightarrow> ''ext3''
       | Ext4 \<Rightarrow> ''ext4'' | Btrfs \<Rightarrow> ''Btrfs'' | XFS \<Rightarrow> ''XFS''
       | ZFS \<Rightarrow> ''ZFS'' | JFS \<Rightarrow> ''JFS'' | ReiserFS \<Rightarrow> ''ReiserFS''
       | Reiser4 \<Rightarrow> ''Reiser4'' | HFSPlus \<Rightarrow> ''HFS+'' | APFS \<Rightarrow> ''APFS''
       | HFS \<Rightarrow> ''HFS'' | MFS \<Rightarrow> ''MFS'' | FAT8 \<Rightarrow> ''FAT8''
       | HPFS \<Rightarrow> ''HPFS'' | UFS \<Rightarrow> ''UFS'' | FFS \<Rightarrow> ''FFS''
       | Minix \<Rightarrow> ''MINIX'' | Xiafs \<Rightarrow> ''Xiafs'' | ADFS \<Rightarrow> ''ADFS''
       | AfFS \<Rightarrow> ''AFFS'' | OFS \<Rightarrow> ''OFS'' | BFS_BeOS \<Rightarrow> ''BFS''
       | QNX4 \<Rightarrow> ''QNX4'' | QNX6 \<Rightarrow> ''QNX6'' | SysV \<Rightarrow> ''SysV''
       | Coherent \<Rightarrow> ''Coherent'' | Xenix \<Rightarrow> ''Xenix'' | VxFS \<Rightarrow> ''VxFS''
       | UDF \<Rightarrow> ''UDF'' | ISO9660 \<Rightarrow> ''ISO 9660'' | RomFS \<Rightarrow> ''RomFS''
       | CramFS \<Rightarrow> ''CramFS'' | SquashFS \<Rightarrow> ''SquashFS'' | VFAT \<Rightarrow> ''VFAT''
       | UMSDOS \<Rightarrow> ''UMSDOS'' | NFS \<Rightarrow> ''NFS'' | SMB \<Rightarrow> ''SMB''
       | SWAP_LINUX \<Rightarrow> ''Linux Swap'' | SWAP_SOLARIS \<Rightarrow> ''Solaris Swap''
       | F2FS \<Rightarrow> ''F2FS'' | JFFS2 \<Rightarrow> ''JFFS2'' | NILFS2 \<Rightarrow> ''NILFS2''
       | FATX \<Rightarrow> ''FATX (Xbox)'' | STFS \<Rightarrow> ''STFS (Xbox 360)''
       | GDFX \<Rightarrow> ''GDFX (Xbox Disc)'' | PS2MC \<Rightarrow> ''PS2 Memory Card''
       | VHD \<Rightarrow> ''VHD'' | VHDX \<Rightarrow> ''VHDX'' | VMDK \<Rightarrow> ''VMDK''
       | QCOW2 \<Rightarrow> ''QCOW2'' | VDI \<Rightarrow> ''VDI'' | RVZ \<Rightarrow> ''RVZ (Wii)''
       | WUA \<Rightarrow> ''WUA (Wii U)'' | WBFs \<Rightarrow> ''WBFS (Wii)''
       | NRG \<Rightarrow> ''NRG (Nero)'' | MDF \<Rightarrow> ''MDF (Alcohol)''
       | CDI \<Rightarrow> ''CDI (DiscJuggler)'' | CDFS \<Rightarrow> ''CDFS'' | HDFS \<Rightarrow> ''HDFS''
       | Raw \<Rightarrow> ''Raw'' | Unallocated \<Rightarrow> ''Unallocated'')"

section \<open>Detection\<close>

text \<open>The probes in the order in which they are tried; the first that recognizes the volume decides.\<close>

fun firstDetected :: "FilesystemDetection option run list \<Rightarrow> FilesystemDetection \<Rightarrow> FilesystemDetection run" where
  "firstDetected [] d = Done d"
| "firstDetected (p # ps) d =
     run_bind p (\<lambda>r. case r of Some found \<Rightarrow> Done found | None \<Rightarrow> firstDetected ps d)"

definition probes :: "DiskReadCallback \<Rightarrow> u64 \<Rightarrow> FilesystemDetection \<Rightarrow> FilesystemDetection option run list" where
  "probes f volumeSize d =
     [Done (detectNtfs f d), detectExfat f d, Done (detectBtrfs f d), Done (detectXfs f d), Done (detectApfs f d),
      Done (detectReFs f d), Done (detectExt f d), Done (detectHfsPlus f d), Done (detectReiserFs f d),
      Done (detectJfs f d), Done (detectZfs f d), Done (detectIso9660 f d), Done (detectUdf f d),
      Done (detectSquashFs f d), Done (detectCramFs f d), detectRomFs f d, Done (detectHpfs f d),
      Done (detectMinix f d), Done (detectUfs f d), Done (detectBfs f d), Done (detectQnx4 f d),
      Done (detectLinuxSwap f d volumeSize),
      Done (detectF2fs f d), Done (detectJffs2 f d), Done (detectNilfs2 f d),
      Done (detectFatx f d), Done (detectStfs f d), Done (detectGdfx f d), detectPs2mc f d,
      Done (detectVhdx f d), Done (detectVmdk f d), Done (detectQcow2 f d), Done (detectVdi f d),
      Done (detectVhd f d volumeSize),
      Done (detectRvz f d), Done (detectNrg f d volumeSize), Done (detectWbfs f d),
      Done (detectFat f d)]"

definition detect :: "DiskReadCallback \<Rightarrow> u64 \<Rightarrow> FilesystemDetection Result run" where
  "detect readFunc volumeSize =
     run_bind (firstDetected (probes readFunc volumeSize fd_default)
         (fd_default\<lparr>fd_type := UnknownFs, fd_description := ''Unknown or unformatted''\<rparr>))
       (\<lambda>d. Done (Inr d))"

text \<open>A buffer as a callback: what lies beyond its end reads as zero.\<close>

definition bufferRead :: "bytes \<Rightarrow> DiskReadCallback" where
  "bufferRead data offset n =
     (if unat (offset + ucast n) > length data
      then Inr (if unat offset < length data
                then blit 0 (drop (unat offset) data) (replicate (unat n) 0) else replicate (unat n) 0)
      else Inr (slice (unat offset) (unat n) data))"

definition detectFromBuffer :: "bytes \<Rightarrow> u64 \<Rightarrow> FilesystemDetection Result run" where
  "detectFromBuffer data volumeSize = detect (bufferRead data) volumeSize"

section \<open>Detection has a defined result\<close>

text \<open>The byte at an offset of a volume that continues with zeros.\<close>

definition byte_at :: "bytes \<Rightarrow> nat \<Rightarrow> u8" where
  "byte_at data i = (if i < length data then data ! i else 0)"

definition window :: "bytes \<Rightarrow> nat \<Rightarrow> nat \<Rightarrow> bytes" where
  "window data off n = map (byte_at data) [off..<off + n]"

lemma length_window [simp]: "length (window data off n) = n"
  by (simp add: window_def)

text \<open>A magic string at an offset of the volume.\<close>

definition has_magic :: "bytes \<Rightarrow> nat \<Rightarrow> string \<Rightarrow> bool" where
  "has_magic data off s \<longleftrightarrow> window data off (length s) = ascii s"

lemma nth_window [simp]: "i < n \<Longrightarrow> window data off n ! i = byte_at data (off + i)"
  by (simp add: window_def)

lemma bufferRead_window:
  assumes "unat offset + unat n < 2 ^ 64"
  shows "bufferRead data offset n = Inr (window data (unat offset) (unat n))"
proof -
  have s: "unat (offset + ucast n) = unat offset + unat n"
    using assms by (simp add: unat_word_ariths unsigned_ucast_eq take_bit_nat_eq_self)
  consider (past) "unat offset + unat n > length data" "unat offset < length data"
    | (beyond) "unat offset + unat n > length data" "length data \<le> unat offset"
    | (inside) "unat offset + unat n \<le> length data" by linarith
  then show ?thesis
  proof cases
    case past
    then show ?thesis
      by (auto simp: bufferRead_def s blit_def window_def byte_at_def intro!: nth_equalityI simp: nth_append)
  next
    case beyond
    then show ?thesis
      by (auto simp: bufferRead_def s window_def byte_at_def intro!: nth_equalityI)
  next
    case inside
    then show ?thesis
      by (auto simp: bufferRead_def s slice_def window_def byte_at_def intro!: nth_equalityI)
  qed
qed

lemma safeRead_buffer:
  "unat offset + unat n < 2 ^ 64 \<Longrightarrow> safeRead (bufferRead data) offset n = window data (unat offset) (unat n)"
  by (simp add: safeRead_def bufferRead_window)

lemma firstDetected_total: "list_all (\<lambda>p. \<exists>r. p = Done r) ps \<Longrightarrow> \<exists>r. firstDetected ps d = Done r"
  by (induction ps) (auto split: option.split)

definition exfat_shift_bad :: "bytes \<Rightarrow> bool" where
  "exfat_shift_bad data \<longleftrightarrow> has_magic data 3 ''EXFAT   '' \<and>
     9 \<le> byte_at data 0x6C \<and> byte_at data 0x6C \<le> 12 \<and> 32 \<le> byte_at data 0x6D"

definition ps2_product_bad :: "bytes \<Rightarrow> bool" where
  "ps2_product_bad data \<longleftrightarrow> has_magic data 0 ''Sony PS2 Memory Card Format '' \<and>
     2 ^ 31 \<le> unat (readLE16 (window data 0 128) 0x28) * unat (readLE16 (window data 0 128) 0x2A)"

lemma memEqual_window:
  "off + length s \<le> n \<Longrightarrow> memEqual (window data base n) off s \<longleftrightarrow> has_magic data (base + off) s"
proof -
  assume "off + length s \<le> n"
  then have "slice off (length s) (window data base n) = window data (base + off) (length s)"
    by (auto simp: slice_def add.assoc intro!: nth_equalityI)
  then show ?thesis by (simp add: memEqual_def has_magic_def)
qed

lemma detectExfat_buffer:
  "detectExfat (bufferRead data) d = Undef \<longleftrightarrow> exfat_shift_bad data"
  "\<not> exfat_shift_bad data \<Longrightarrow> \<exists>r. detectExfat (bufferRead data) d = Done r"
  by (auto simp: detectExfat_def Let_def safeRead_buffer memEqual_window exfat_shift_bad_def
      require_def not_less)

lemma detectPs2mc_buffer: "\<not> ps2_product_bad data \<Longrightarrow> \<exists>r. detectPs2mc (bufferRead data) d = Done r"
  by (auto simp: detectPs2mc_def Let_def safeRead_buffer memEqual_window ps2_product_bad_def require_def not_le)

lemma detectRomFs_buffer: "\<exists>r. detectRomFs (bufferRead data) d = Done r"
  by (auto simp: detectRomFs_def Let_def safeRead_buffer require_def)

text \<open>
  Detection on a buffer returns a description for every contents and every volume size, with
  two exceptions, in which C++ leaves the behaviour undefined: an exFAT boot sector whose cluster shift
  is 32 or more, for which it is undefined in every case, and a PS2 memory card header whose page size
  and pages per cluster have a product beyond \<open>int\<close>.
\<close>

theorem detectFromBuffer_defined:
  "(exfat_shift_bad data \<longrightarrow> detectFromBuffer data volumeSize = Undef) \<and>
   (\<not> exfat_shift_bad data \<and> \<not> ps2_product_bad data \<longrightarrow>
     (\<exists>d. detectFromBuffer data volumeSize = Done (Inr d)))"
proof (intro conjI impI)
  assume bad: "exfat_shift_bad data"
  then have "\<not> has_magic data 3 ''NTFS    ''" by (auto simp: exfat_shift_bad_def has_magic_def ascii_def)
  then have "detectNtfs (bufferRead data) fd_default = None"
    by (simp add: detectNtfs_def Let_def safeRead_buffer memEqual_window)
  with bad detectExfat_buffer(1) [of data fd_default] show "detectFromBuffer data volumeSize = Undef"
    by (simp add: detectFromBuffer_def detect_def probes_def)
next
  assume "\<not> exfat_shift_bad data \<and> \<not> ps2_product_bad data"
  then have "list_all (\<lambda>p. \<exists>r. p = Done r) (probes (bufferRead data) volumeSize fd_default)"
    using detectExfat_buffer(2) detectPs2mc_buffer detectRomFs_buffer by (simp add: probes_def)
  then obtain r where "firstDetected (probes (bufferRead data) volumeSize fd_default)
      (fd_default\<lparr>fd_type := UnknownFs, fd_description := ''Unknown or unformatted''\<rparr>) = Done r"
    using firstDetected_total by blast
  then show "\<exists>d. detectFromBuffer data volumeSize = Done (Inr d)"
    by (simp add: detectFromBuffer_def detect_def)
qed

section \<open>Witnesses\<close>

definition bad_exfat :: bytes where
  "bad_exfat = [0, 0, 0] @ ascii ''EXFAT   '' @ replicate 97 0 @ [9, 32]"

theorem detectFromBuffer_defined_witness:
  "detectFromBuffer bad_exfat 0 = Undef \<and> (\<exists>d. detectFromBuffer [1, 2, 3] 0 = Done (Inr d))"
proof -
  have "exfat_shift_bad bad_exfat"
    by (simp add: exfat_shift_bad_def has_magic_def window_def upt_rec byte_at_def bad_exfat_def ascii_def nth_append)
  moreover have "\<not> exfat_shift_bad [1, 2, 3]" "\<not> ps2_product_bad [1, 2, 3]"
    by (simp_all add: exfat_shift_bad_def ps2_product_bad_def has_magic_def window_def upt_rec byte_at_def ascii_def)
  ultimately show ?thesis using detectFromBuffer_defined by blast
qed

end
