(* ===== verification/Format_Structures.thy ===== *)
theory Format_Structures
  imports Fs_Detector Disk_Geometry
begin

text \<open>
  The pure part of \<open>src/core/filesystem/FormatEngine.cpp\<close>: the options and the target of a format
  request, the geometry of the file systems that the engine writes itself, and the bytes of their
  structures.
\<close>

section \<open>Options and targets\<close>

record FormatOptions =
  fo_targetFs :: FilesystemType
  fo_volumeLabel :: bytes
  fo_quickFormat :: bool
  fo_clusterSize :: u32
  fo_enableCompression :: bool
  fo_enableJournal :: bool
  fo_inodeSize :: u32
  fo_inodesPerGroup :: u32
  fo_blockSize :: u32
  fo_enable64bit :: bool
  fo_enableExtents :: bool
  fo_enableHugeFile :: bool
  fo_swapPageSize :: u32
  fo_forceFat32Large :: bool

definition fo_default :: FormatOptions where
  "fo_default = \<lparr>fo_targetFs = NTFS, fo_volumeLabel = [], fo_quickFormat = True, fo_clusterSize = 0,
     fo_enableCompression = False, fo_enableJournal = True, fo_inodeSize = 256, fo_inodesPerGroup = 0,
     fo_blockSize = 0, fo_enable64bit = True, fo_enableExtents = True, fo_enableHugeFile = True,
     fo_swapPageSize = 4096, fo_forceFat32Large = False\<rparr>"

record FormatTarget =
  ft_driveLetter :: u16
  ft_diskIndex :: int
  ft_partitionOffsetBytes :: u64
  ft_partitionSizeBytes :: u64
  ft_sectorSize :: u32

definition ft_default :: FormatTarget where
  "ft_default = \<lparr>ft_driveLetter = 0, ft_diskIndex = -1, ft_partitionOffsetBytes = 0,
     ft_partitionSizeBytes = 0, ft_sectorSize = SECTOR_SIZE_512\<rparr>"

definition hasDriveLetter :: "FormatTarget \<Rightarrow> bool" where
  "hasDriveLetter t \<longleftrightarrow> ft_driveLetter t \<noteq> 0"

definition hasRawTarget :: "FormatTarget \<Rightarrow> bool" where
  "hasRawTarget t \<longleftrightarrow> ft_diskIndex t \<ge> 0 \<and> ft_partitionSizeBytes t > 0"

definition isFormatSupported :: "FilesystemType \<Rightarrow> bool" where
  "isFormatSupported fs \<longleftrightarrow> fs \<in> {NTFS, FAT32, FAT16, FAT12, ExFAT, ReFS, Ext2, Ext3, Ext4, SWAP_LINUX}"

definition recommendedClusterSize :: "FilesystemType \<Rightarrow> u64 \<Rightarrow> u32" where
  "recommendedClusterSize fs volumeSizeBytes =
     (let MB = 1024 * 1024; GB = 1024 * MB; TB = 1024 * GB in
      if fs = NTFS then
        (if volumeSizeBytes \<le> 512 * MB then 4096 else if volumeSizeBytes \<le> 1 * TB then 4096
         else if volumeSizeBytes \<le> 2 * TB then 8192 else 8192)
      else if fs = FAT32 then
        (if volumeSizeBytes \<le> 64 * MB then 512 else if volumeSizeBytes \<le> 128 * MB then 1024
         else if volumeSizeBytes \<le> 256 * MB then 4096 else if volumeSizeBytes \<le> 8 * GB then 8192
         else if volumeSizeBytes \<le> 16 * GB then 16384 else 32768)
      else if fs = ExFAT then
        (if volumeSizeBytes \<le> 256 * MB then 4096 else if volumeSizeBytes \<le> 32 * GB then 32768 else 131072)
      else if fs \<in> {Ext2, Ext3, Ext4} then (if volumeSizeBytes \<le> 512 * MB then 1024 else 4096)
      else if fs = FAT16 then
        (if volumeSizeBytes \<le> 16 * MB then 2048 else if volumeSizeBytes \<le> 128 * MB then 4096 else 16384)
      else if fs = FAT12 then 512
      else 4096)"

definition maxLabelLength :: "FilesystemType \<Rightarrow> int" where
  "maxLabelLength fs =
     (if fs = NTFS then 32
      else if fs = FAT32 then 11 else if fs = FAT16 then 11 else if fs = FAT12 then 11 else if fs = ExFAT then 11
      else if fs = ReFS then 32
      else if fs \<in> {Ext2, Ext3, Ext4} then 16
      else if fs = SWAP_LINUX then 16
      else 0)"

section \<open>Random identifiers and checksums\<close>

text \<open>A version 4 UUID from sixteen random bytes, as the writers of ext and swap make it.\<close>

definition randomUuid :: "(nat \<Rightarrow> u8) \<Rightarrow> bytes" where
  "randomUuid rnd =
     (let uuid = map rnd [0..<16];
          uuid = uuid[6 := (uuid ! 6 AND 0x0F) OR 0x40]
      in uuid[8 := (uuid ! 8 AND 0x3F) OR 0x80])"

definition generateSerial :: "(nat \<Rightarrow> u8) \<Rightarrow> u32" where
  "generateSerial rnd = readLE32 (map rnd [0..<4]) 0"

definition crc32c_step :: "u32 \<Rightarrow> u32" where
  "crc32c_step crc = (if crc AND 1 \<noteq> 0 then drop_bit 1 crc XOR 0x82F63B78 else drop_bit 1 crc)"

definition crc32c :: "u32 \<Rightarrow> bytes \<Rightarrow> u32" where
  "crc32c crc data = NOT (fold (\<lambda>b crc. (crc32c_step ^^ 8) (crc XOR ucast b)) data (NOT crc))"

lemma length_randomUuid [simp]: "length (randomUuid rnd) = 16"
  by (simp add: randomUuid_def)

section \<open>Labels\<close>

text \<open>A label in a field that the bytes after it leave zero.\<close>

definition padTo :: "nat \<Rightarrow> bytes \<Rightarrow> bytes" where
  "padTo n bs = take n bs @ replicate (n - length bs) 0"

lemma takeWhile_zeros: "takeWhile (\<lambda>b. b \<noteq> (0 :: u8)) (xs @ replicate k 0) = takeWhile (\<lambda>b. b \<noteq> 0) xs"
  by (induction xs) (cases k, simp_all)

lemma takeWhile_padTo: "takeWhile (\<lambda>b. b \<noteq> 0) (padTo n bs) = takeWhile (\<lambda>b. b \<noteq> 0) (take n bs)"
  by (simp add: padTo_def takeWhile_zeros)

lemma blit_Nil [simp]: "blit off [] buf = buf"
  by (simp add: blit_def)

lemma slice_blit_length: "length bs = n \<Longrightarrow> off + n \<le> length buf \<Longrightarrow> slice off n (blit off bs buf) = bs"
  using slice_blit_same by blast

end
