(* ===== verification/Environment.thy ===== *)
theory Environment
  imports Actions Format_Structures "HOL-Library.Signed_Division"
begin

text \<open>
  What the operations and the format engine use besides the disk: the random bytes of
  \<open>std::random_device\<close>, the clock, the programs \<open>format.com\<close> and \<open>chkdsk.exe\<close> run through \<open>QProcess\<close>, and
  the conversions of Qt. They are arguments of the development, collected in a record. The text of
  numbers and the reading of the programs' progress lines are defined here.
\<close>

section \<open>The environment\<close>

text \<open>
  A run of a program: it cannot be started, or it runs; then there are the pieces of its output that were
  read while it ran, its exit code, the rest of its output and its error output.
\<close>

datatype process_run =
  ProcessNotStarted string
| ProcessRan "string list" int string string

record 'w env =
  env_win32 :: "'w Win32"
  env_random :: "'w \<Rightarrow> nat \<Rightarrow> u8"
  env_now :: "'w \<Rightarrow> u32"
  env_formatTool :: "wstr list \<Rightarrow> 'w \<Rightarrow> process_run \<times> 'w"
  env_chkdsk :: "wstr list \<Rightarrow> 'w \<Rightarrow> process_run \<times> 'w"
  env_fromUtf8 :: "bytes \<Rightarrow> wstr"
  env_fixed :: "u64 \<Rightarrow> nat \<Rightarrow> nat \<Rightarrow> string"

text \<open>The programs neither open nor close handles of this process.\<close>

definition process_law :: "'w env \<Rightarrow> 'w win_view \<Rightarrow> bool" where
  "process_law E V \<longleftrightarrow> (\<forall>args w. handles V (snd (env_chkdsk E args w)) = handles V w) \<and>
     (\<forall>args w. handles V (snd (env_formatTool E args w)) = handles V w)"

lemma process_lawD:
  assumes "process_law E V"
  shows "env_chkdsk E args w = (q, w') \<Longrightarrow> handles V w' = handles V w"
    "env_formatTool E args w = (q, w') \<Longrightarrow> handles V w' = handles V w"
  using assms unfolding process_law_def by (metis snd_conv)+

section \<open>Text\<close>

text \<open>The text of numbers, and a drive letter (an ASCII letter) as a character.\<close>

definition show_int :: "int \<Rightarrow> string" where
  "show_int i = (if i < 0 then ''-'' @ dec (nat (- i)) else dec (nat i))"

definition letterChar :: "u16 \<Rightarrow> string" where
  "letterChar letter = [char_of (unat letter)]"

text \<open>
  A regular expression \<open>(\d+)\s+word\s+word...\<close> at the first place where it matches, with the captured
  digits, and \<open>QString::toInt\<close>, which gives 0 for numbers out of range.
\<close>

definition is_digit :: "char \<Rightarrow> bool" where
  "is_digit c \<longleftrightarrow> c \<in> set ''0123456789''"

definition skip_spaces :: "string \<Rightarrow> string option" where
  "skip_spaces s = (case s of [] \<Rightarrow> None | c # cs \<Rightarrow> if is_space c then Some (dropWhile is_space cs) else None)"

definition skip_word :: "string \<Rightarrow> string \<Rightarrow> string option" where
  "skip_word word s = (if take (length word) s = word then Some (drop (length word) s) else None)"

fun skip_words :: "string list \<Rightarrow> string \<Rightarrow> string option" where
  "skip_words [] s = Some s"
| "skip_words (word # words) s =
     Option.bind (skip_spaces s) (\<lambda>s1. Option.bind (skip_word word s1) (skip_words words))"

definition matchNumber :: "string list \<Rightarrow> string \<Rightarrow> string option" where
  "matchNumber words s =
     (let digits = takeWhile is_digit s in
      if digits = [] then None else map_option (\<lambda>_. digits) (skip_words words (dropWhile is_digit s)))"

fun findNumber :: "string list \<Rightarrow> string \<Rightarrow> string option" where
  "findNumber words [] = None"
| "findNumber words (c # cs) =
     (case matchNumber words (c # cs) of Some d \<Rightarrow> Some d | None \<Rightarrow> findNumber words cs)"

definition digitsToInt :: "string \<Rightarrow> int" where
  "digitsToInt digits =
     (let v = foldl (\<lambda>v c. 10 * v + (of_char c - 48)) (0 :: int) digits in if v < 2 ^ 31 then v else 0)"

text \<open>The reports that a program's output makes: a message and the percentage, scaled.\<close>

definition outputReports :: "string list \<Rightarrow> (int \<Rightarrow> int) \<Rightarrow> string \<Rightarrow> string list \<Rightarrow> progress" where
  "outputReports words scale message chunks =
     List.map_filter (\<lambda>text.
       map_option (\<lambda>d. let pct = digitsToInt d in (scale pct, message @ show_int pct @ ''%'')) (findNumber words text))
       chunks"

end
