(* ===== verification/Format_Ext.thy ===== *)
theory Format_Ext
  imports Format_Structures Raw_Disk "HOL-Library.Signed_Division"
begin

text \<open>
  The ext2, ext3 or ext4 file system that \<open>FormatEngine::formatExt\<close> writes: its geometry, the
  superblock, the group descriptors, bitmaps, inodes and directories, and the list of all writes in
  the order in which the engine makes them.
\<close>

section \<open>Groups with a copy of the superblock\<close>

text \<open>
  The loop over the powers of a base. The code starts it with \<open>val = base\<close> for the bases 3, 5 and 7;
  the first guard holds there and only makes the definition terminate for all arguments.
\<close>

function powerLoop :: "u32 \<Rightarrow> u32 \<Rightarrow> u32 \<Rightarrow> bool" where
  "powerLoop groupNum base val =
     (if base < 2 \<or> val = 0 then False
      else if val \<le> groupNum then
        (if val = groupNum then True
         else if val > 0xFFFFFFFF div base then False
         else powerLoop groupNum base (val * base))
      else False)"
  by pat_completeness auto

lemma power_step:
  fixes base val :: u32
  assumes "\<not> (base < 2 \<or> val = 0)" "\<not> val > 0xFFFFFFFF div base"
  shows "unat (val * base) = unat val * unat base" "unat val < unat val * unat base"
proof -
  have b: "2 \<le> unat base" "0 < unat val" using assms(1) by (auto simp: word_less_nat_alt unat_gt_0)
  have "unat val \<le> 4294967295 div unat base" using assms(2) by (simp add: word_less_nat_alt unat_div not_less)
  then have "unat val * unat base \<le> 4294967295" using b by (simp add: less_eq_div_iff_mult_less_eq)
  then show "unat (val * base) = unat val * unat base" by (simp add: unat_word_ariths)
  show "unat val < unat val * unat base" using b by simp
qed

termination powerLoop
proof (relation "measure (\<lambda>(g, base, val). unat g + 1 - unat val)")
  fix g base val :: u32
  assume a: "\<not> (base < 2 \<or> val = 0)" "val \<le> g" "val \<noteq> g" "\<not> val > 0xFFFFFFFF div base"
  have "unat val \<le> unat g" using a(2) by (simp add: word_le_nat_alt)
  then have "unat g + 1 - unat val * unat base < unat g + 1 - unat val"
    using power_step(2) [OF a(1,4)] by linarith
  then show "((g, base, val * base), g, base, val) \<in> measure (\<lambda>(g, base, val). unat g + 1 - unat val)"
    using power_step(1) [OF a(1,4)] by simp
qed simp

declare powerLoop.simps [simp del]

definition hasSuperblockBackup :: "u32 \<Rightarrow> bool" where
  "hasSuperblockBackup groupNum \<longleftrightarrow> groupNum = 0 \<or> groupNum = 1 \<or> list_ex (\<lambda>base. powerLoop groupNum base base) [3, 5, 7]"

lemma powerLoop_iff:
  assumes "2 \<le> base" "unat val = unat base ^ j"
  shows "powerLoop g base val \<longleftrightarrow> (\<exists>k. j \<le> k \<and> unat g = unat base ^ k)"
  using assms
proof (induction g base val arbitrary: j rule: powerLoop.induct)
  case (1 g base val)
  have b: "2 \<le> unat base" using 1(2) by (simp add: word_le_nat_alt)
  then have nz: "\<not> (base < 2 \<or> val = 0)" using 1(2,3) by (auto simp: not_less word_unat_eq_iff)
  have mono: "unat base ^ m \<le> unat base ^ k \<longleftrightarrow> m \<le> k" for m k using b by (simp add: power_increasing_iff)
  show ?case
  proof (cases "val \<le> g")
    case False
    then have "unat g < unat base ^ j" using 1(3) by (simp add: word_le_nat_alt not_le)
    then have "\<nexists>k. j \<le> k \<and> unat g = unat base ^ k" using mono by (metis not_less)
    with False nz show ?thesis by (subst powerLoop.simps) simp
  next
    case le: True
    show ?thesis
    proof (cases "val = g \<or> val > 0xFFFFFFFF div base")
      case True
      have "\<nexists>k. j \<le> k \<and> unat g = unat base ^ k" if "val \<noteq> g" "val > 0xFFFFFFFF div base"
      proof
        assume "\<exists>k. j \<le> k \<and> unat g = unat base ^ k"
        then obtain k where k: "j \<le> k" "unat g = unat base ^ k" by blast
        with that(1) 1(3) have "Suc j \<le> k" by (metis Suc_leI le_neq_implies_less unsigned_word_eqI)
        then have "unat val * unat base \<le> unat g" using mono [of "Suc j" k] k(2) 1(3) by (simp add: mult.commute)
        also have "\<dots> < 2 ^ 32" using unsigned_less [of g] by simp
        finally have "unat val \<le> 4294967295 div unat base" using b by (simp add: less_eq_div_iff_mult_less_eq)
        then show False using that(2) by (simp add: word_less_nat_alt unat_div)
      qed
      with True le nz 1(3) show ?thesis by (subst powerLoop.simps) (auto intro: exI [of _ j])
    next
      case False
      then have f: "val \<noteq> g" "\<not> val > 0xFFFFFFFF div base" by auto
      have v: "unat (val * base) = unat base ^ Suc j" using power_step(1) [OF nz f(2)] 1(3) by (simp add: mult.commute)
      have "(\<exists>k. j \<le> k \<and> unat g = unat base ^ k) \<longleftrightarrow> (\<exists>k. Suc j \<le> k \<and> unat g = unat base ^ k)"
        using f(1) 1(3) by (metis Suc_leI Suc_leD le_neq_implies_less unsigned_word_eqI)
      with 1(1) [OF nz le f 1(2) v] show ?thesis
        using nz le f by (subst powerLoop.simps) simp
    qed
  qed
qed

text \<open>
  The groups that get a copy of the superblock are group 0 and exactly those whose number is a power
  of 3, 5 or 7 (1 among them), for every 32-bit number; the test against overflow loses none.
\<close>

theorem hasSuperblockBackup_iff:
  "hasSuperblockBackup g \<longleftrightarrow> g = 0 \<or> (\<exists>k. unat g = 3 ^ k \<or> unat g = 5 ^ k \<or> unat g = 7 ^ k)"
proof -
  have p: "powerLoop g base base \<longleftrightarrow> (\<exists>k. 1 \<le> k \<and> unat g = unat base ^ k)" if "2 \<le> base" for base
    using powerLoop_iff [OF that, of base 1 g] by simp
  have one: "g = 1 \<longleftrightarrow> unat g = 1" by (simp add: word_unat_eq_iff)
  have e: "(\<exists>k. unat g = b ^ k) \<longleftrightarrow> unat g = 1 \<or> (\<exists>k. 1 \<le> k \<and> unat g = b ^ k)" for b :: nat
    by (metis One_nat_def less_one not_le power_0)
  show ?thesis
    using p [of 3] p [of 5] p [of 7] one e [of 3] e [of 5] e [of 7] unfolding hasSuperblockBackup_def ex_disj_distrib
    by simp blast
qed


section \<open>Geometry\<close>

record ExtGeometry =
  eg_blockSize :: u32
  eg_logBlockSize :: u32
  eg_firstDataBlock :: u32
  eg_totalBlocks :: u64
  eg_blocksPerGroup :: u32
  eg_numGroups :: u32
  eg_inodeSize :: u32
  eg_inodesPerGroup :: u32
  eg_totalInodes :: u32
  eg_inodeTableBlocksPerGroup :: u32
  eg_descSize :: u16
  eg_use64bit :: bool
  eg_gdtBlocks :: u32
  eg_reservedGdtBlocks :: u32
  eg_hasJournal :: bool
  eg_journalBlocks :: u32

definition extInodesPerGroup :: "u32 \<Rightarrow> u32 \<Rightarrow> u32 \<Rightarrow> u32 \<Rightarrow> u32" where
  "extInodesPerGroup wanted blockSize blocksPerGroup inodeSize =
     (if wanted = 0 then
        (let bytesPerGroup = ucast blocksPerGroup * ucast blockSize :: u64;
             inodesPerGroup = ucast (bytesPerGroup div 16384);
             inodesPerGroup = (if inodesPerGroup < 16 then 16 else inodesPerGroup);
             inodesPerBlock = blockSize div inodeSize;
             inodesPerGroup = ((inodesPerGroup + inodesPerBlock - 1) div inodesPerBlock) * inodesPerBlock
         in if inodesPerGroup > blockSize * 8 then blockSize * 8 else inodesPerGroup)
      else wanted)"

definition extJournalBlocks :: "u64 \<Rightarrow> u32" where
  "extJournalBlocks totalBlocks =
     (let journalBlocks = (if totalBlocks < 32768 then 1024 else if totalBlocks < 262144 then 4096
            else if totalBlocks < 524288 then 8192 else if totalBlocks < 1048576 then 16384 else 32768);
          journalBlocks = (if ucast journalBlocks > totalBlocks div 10 then ucast (totalBlocks div 10) else journalBlocks)
      in if journalBlocks < 1024 then 1024 else journalBlocks)"

text \<open>The geometry for a block size and an inode size, and the checks that come before it.\<close>

definition extGeometryOf :: "FormatOptions \<Rightarrow> u64 \<Rightarrow> u32 \<Rightarrow> u32 \<Rightarrow> ExtGeometry" where
  "extGeometryOf options partSize blockSize inodeSize =
     (let totalBlocks = partSize div ucast blockSize;
          blocksPerGroup = blockSize * 8;
          numGroups = ucast ((totalBlocks + ucast blocksPerGroup - 1) div ucast blocksPerGroup);
          inodesPerGroup = extInodesPerGroup (fo_inodesPerGroup options) blockSize blocksPerGroup inodeSize;
          use64bit = (fo_targetFs options = Ext4 \<and> fo_enable64bit options \<and> totalBlocks > 0xFFFFFFFF);
          descSize = (if use64bit then 64 else 32);
          hasJournal = ((fo_targetFs options = Ext3 \<or> fo_targetFs options = Ext4) \<and> fo_enableJournal options)
      in \<lparr>eg_blockSize = blockSize,
          eg_logBlockSize = (if blockSize = 1024 then 0 else if blockSize = 2048 then 1 else 2),
          eg_firstDataBlock = (if blockSize = 1024 then 1 else 0),
          eg_totalBlocks = totalBlocks, eg_blocksPerGroup = blocksPerGroup, eg_numGroups = numGroups,
          eg_inodeSize = inodeSize, eg_inodesPerGroup = inodesPerGroup,
          eg_totalInodes = inodesPerGroup * numGroups,
          eg_inodeTableBlocksPerGroup = (inodesPerGroup * inodeSize + blockSize - 1) div blockSize,
          eg_descSize = descSize, eg_use64bit = use64bit,
          eg_gdtBlocks = (numGroups * ucast descSize + blockSize - 1) div blockSize,
          eg_reservedGdtBlocks = min 1024 ((blockSize div ucast descSize) * 16),
          eg_hasJournal = hasJournal,
          eg_journalBlocks = (if hasJournal then extJournalBlocks totalBlocks else 0)\<rparr>)"

definition extGeometry :: "FormatOptions \<Rightarrow> u64 \<Rightarrow> ExtGeometry Result" where
  "extGeometry options partSize =
     (if partSize < 1024 * 1024 then
        fail PartitionTooSmall ''Partition too small for ext filesystem (minimum 1MB)''
      else
        (let blockSize = (if fo_blockSize options = 0 then recommendedClusterSize (fo_targetFs options) partSize
                          else fo_blockSize options) in
         if blockSize \<noteq> 1024 \<and> blockSize \<noteq> 2048 \<and> blockSize \<noteq> 4096 then
           fail InvalidArgument ''ext block size must be 1024, 2048, or 4096''
         else
           (let inodeSize = (if fo_inodeSize options = 0 then 256 else fo_inodeSize options) in
            if inodeSize \<noteq> 128 \<and> inodeSize \<noteq> 256 then
              fail InvalidArgument ''ext inode size must be 128 or 256''
            else Inr (extGeometryOf options partSize blockSize inodeSize))))"

text \<open>The group numbers, and the number of blocks at the start of a group that hold its metadata.\<close>

definition groupNumbers :: "ExtGeometry \<Rightarrow> u32 list" where
  "groupNumbers G = map of_nat [0..<unat (eg_numGroups G)]"

definition groupOverhead :: "ExtGeometry \<Rightarrow> u32 \<Rightarrow> u32" where
  "groupOverhead G groupIdx =
     (if hasSuperblockBackup groupIdx then 1 + eg_gdtBlocks G + eg_reservedGdtBlocks G else 0)
       + 2 + eg_inodeTableBlocksPerGroup G"

definition extUsedBlocks :: "ExtGeometry \<Rightarrow> u64" where
  "extUsedBlocks G =
     (let used = fold (\<lambda>g used. used + ucast (groupOverhead G g)) (groupNumbers G) 0 + ucast (eg_journalBlocks G)
      in if eg_firstDataBlock G > 0 then used + ucast (eg_firstDataBlock G) else used)"

definition extFreeBlocks :: "ExtGeometry \<Rightarrow> u64" where
  "extFreeBlocks G =
     (if eg_totalBlocks G > extUsedBlocks G then eg_totalBlocks G - extUsedBlocks G else 0)"

definition extReservedBlocks :: "ExtGeometry \<Rightarrow> u64" where
  "extReservedBlocks G = min (eg_totalBlocks G div 20) (extFreeBlocks G)"

section \<open>The superblock\<close>

text \<open>The feature words: compatible, incompatible, read-only compatible.\<close>

definition extFeatures :: "FormatOptions \<Rightarrow> ExtGeometry \<Rightarrow> u32 \<times> u32 \<times> u32" where
  "extFeatures options G =
     (let compat = 0x0008 OR 0x0010 OR 0x0020; incompat = 0x0002; ro = 0x0001 OR 0x0002 in
      if fo_targetFs options = Ext3 then
        ((if eg_hasJournal G then compat OR 0x0004 else compat), incompat, ro)
      else if fo_targetFs options = Ext4 then
        (let compat = (if eg_hasJournal G then compat OR 0x0004 else compat);
             incompat = (if fo_enableExtents options then incompat OR 0x0040 else incompat);
             incompat = incompat OR 0x0200;
             incompat = (if eg_use64bit G then incompat OR 0x0080 else incompat);
             ro = (if fo_enableHugeFile options then ro OR 0x0008 else ro)
         in (compat, incompat, ro OR (0x0040 OR 0x0020)))
      else (compat, incompat, ro))"

text \<open>The fields of \<open>Ext4Superblock\<close> at their offsets, in the order in which the code fills them in.\<close>

definition extSuperblock :: "FormatOptions \<Rightarrow> ExtGeometry \<Rightarrow> bytes \<Rightarrow> bytes \<Rightarrow> u32 \<Rightarrow> bytes" where
  "extSuperblock options G uuid hashSeed now =
     (let (compat, incompat, ro) = extFeatures options G;
          sb = replicate 1024 0;
          sb = writeLE32 sb 0x00 (eg_totalInodes G);
          sb = writeLE32 sb 0x04 (ucast (eg_totalBlocks G));
          sb = writeLE32 sb 0x08 (ucast (extReservedBlocks G));
          sb = writeLE32 sb 0x0C (ucast (extFreeBlocks G));
          sb = writeLE32 sb 0x10 (eg_totalInodes G - 11);
          sb = writeLE32 sb 0x14 (eg_firstDataBlock G);
          sb = writeLE32 sb 0x18 (eg_logBlockSize G);
          sb = writeLE32 sb 0x1C (eg_logBlockSize G);
          sb = writeLE32 sb 0x20 (eg_blocksPerGroup G);
          sb = writeLE32 sb 0x24 (eg_blocksPerGroup G);
          sb = writeLE32 sb 0x28 (eg_inodesPerGroup G);
          sb = writeLE32 sb 0x30 now;
          sb = writeLE16 sb 0x36 0xFFFF;
          sb = writeLE16 sb 0x38 EXT_SUPER_MAGIC;
          sb = writeLE16 sb 0x3A 1;
          sb = writeLE16 sb 0x3C 1;
          sb = writeLE32 sb 0x40 now;
          sb = writeLE32 sb 0x4C 1;
          sb = writeLE32 sb 0x54 11;
          sb = writeLE16 sb 0x58 (ucast (eg_inodeSize G));
          sb = writeLE16 sb 0x5A 0;
          sb = writeLE16 sb 0xFE (eg_descSize G);
          sb = writeLE32 sb 0x5C compat;
          sb = writeLE32 sb 0x60 incompat;
          sb = writeLE32 sb 0x64 ro;
          sb = blit 0x68 uuid sb;
          sb = blit 0x78 (take 16 (fo_volumeLabel options)) sb;
          sb = blit 0xEC hashSeed sb;
          sb = sb[0xFC := 1];
          sb = writeLE16 sb 0xCE (ucast (eg_reservedGdtBlocks G));
          sb = writeLE32 sb 0x108 now;
          sb = (if eg_hasJournal G then writeLE32 sb 0xE0 8 else sb);
          sb = writeLE32 sb 0x150 (ucast (drop_bit 32 (eg_totalBlocks G)));
          sb = writeLE32 sb 0x154 (ucast (drop_bit 32 (extReservedBlocks G)));
          sb = writeLE32 sb 0x158 (ucast (drop_bit 32 (extFreeBlocks G)));
          sb = (if eg_inodeSize G > 128 then writeLE16 (writeLE16 sb 0x15C 32) 0x15E 32 else sb)
      in sb[0x174 := 4])"

text \<open>The copy in another group, and the update after the journal has been written.\<close>

definition superblockCopy :: "bytes \<Rightarrow> u32 \<Rightarrow> bytes" where
  "superblockCopy sb g = writeLE16 sb 0x5A (ucast g)"

definition superblockAfterJournal :: "ExtGeometry \<Rightarrow> bytes \<Rightarrow> bytes" where
  "superblockAfterJournal G sb =
     writeLE32 sb 0x0C (if extFreeBlocks G > ucast (eg_journalBlocks G)
                        then ucast (extFreeBlocks G - ucast (eg_journalBlocks G)) else 0)"

section \<open>Group descriptors\<close>

record GroupLayout =
  gl_blockBitmapBlock :: u64
  gl_inodeBitmapBlock :: u64
  gl_inodeTableBlock :: u64
  gl_freeBlocksCount :: u32
  gl_freeInodesCount :: u32
  gl_usedDirsCount :: u32

definition groupStart :: "ExtGeometry \<Rightarrow> u32 \<Rightarrow> u64" where
  "groupStart G g = ucast g * ucast (eg_blocksPerGroup G) + ucast (eg_firstDataBlock G)"

definition isLastGroup :: "ExtGeometry \<Rightarrow> u32 \<Rightarrow> bool" where
  "isLastGroup G g \<longleftrightarrow> g = eg_numGroups G - 1"

text \<open>What remains of the partition for a group, ignoring the first data block.\<close>

definition blocksLeft :: "ExtGeometry \<Rightarrow> u32 \<Rightarrow> u32" where
  "blocksLeft G g = ucast (eg_totalBlocks G - ucast g * ucast (eg_blocksPerGroup G))"

definition groupLayout :: "ExtGeometry \<Rightarrow> u32 \<Rightarrow> GroupLayout" where
  "groupLayout G g =
     (let metaOffset = (if hasSuperblockBackup g
                        then groupStart G g + ucast (1 + eg_gdtBlocks G + eg_reservedGdtBlocks G) else groupStart G g);
          overhead = groupOverhead G g;
          groupBlockCount =
            (if isLastGroup G g then
               (if eg_firstDataBlock G > 0 \<and> g = 0 then blocksLeft G g - eg_firstDataBlock G else blocksLeft G g)
             else eg_blocksPerGroup G);
          free = (if groupBlockCount > overhead then groupBlockCount - overhead else 0)
      in \<lparr>gl_blockBitmapBlock = metaOffset, gl_inodeBitmapBlock = metaOffset + 1,
          gl_inodeTableBlock = metaOffset + 2,
          gl_freeBlocksCount = (if g = 0 \<and> free \<ge> 2 then free - 2 else free),
          gl_freeInodesCount = (if g = 0 then eg_inodesPerGroup G - 11 else eg_inodesPerGroup G),
          gl_usedDirsCount = (if g = 0 then 2 else 0)\<rparr>)"

definition groupDescriptor :: "GroupLayout \<Rightarrow> bytes" where
  "groupDescriptor l =
     (let gd = replicate 32 0;
          gd = writeLE32 gd 0x00 (ucast (gl_blockBitmapBlock l));
          gd = writeLE32 gd 0x04 (ucast (gl_inodeBitmapBlock l));
          gd = writeLE32 gd 0x08 (ucast (gl_inodeTableBlock l));
          gd = writeLE16 gd 0x0C (ucast (gl_freeBlocksCount l));
          gd = writeLE16 gd 0x0E (ucast (gl_freeInodesCount l));
          gd = writeLE16 gd 0x10 (ucast (gl_usedDirsCount l))
      in writeLE16 gd 0x1C (ucast (gl_freeInodesCount l)))"

text \<open>
  The table is a buffer of \<open>gdtBlocks\<close> blocks. The index of a descriptor is computed in 32 bits; the store
  is defined only inside the buffer. Only the first half of a 64-byte descriptor is filled in.
\<close>

definition descOffset :: "ExtGeometry \<Rightarrow> u32 \<Rightarrow> nat" where
  "descOffset G g = unat (g * ucast (eg_descSize G))"

definition gdtBytes :: "ExtGeometry \<Rightarrow> nat" where
  "gdtBytes G = unat (eg_gdtBlocks G) * unat (eg_blockSize G)"

definition groupDescTable :: "ExtGeometry \<Rightarrow> bytes run" where
  "groupDescTable G =
     require (list_all (\<lambda>g. descOffset G g + 32 \<le> gdtBytes G) (groupNumbers G))
       (Done (fold (\<lambda>g. blit (descOffset G g) (groupDescriptor (groupLayout G g))) (groupNumbers G)
          (replicate (gdtBytes G) 0)))"

section \<open>Bitmaps\<close>

definition setBit :: "nat \<Rightarrow> bytes \<Rightarrow> bytes" where
  "setBit b bitmap = bitmap[b div 8 := bitmap ! (b div 8) OR push_bit (b mod 8) 1]"

definition bitmapBits :: "ExtGeometry \<Rightarrow> nat" where
  "bitmapBits G = unat (eg_blockSize G * 8)"

definition blockBitmap :: "ExtGeometry \<Rightarrow> u32 \<Rightarrow> bytes" where
  "blockBitmap G g =
     (let overhead = groupOverhead G g;
          bitmap = fold setBit [0..<min (unat overhead) (bitmapBits G)] (replicate (unat (eg_blockSize G)) 0);
          bitmap = (if g = 0 \<and> overhead < eg_blockSize G * 8 then setBit (unat overhead) bitmap else bitmap);
          bitmap = (if g = 0 \<and> overhead + 1 < eg_blockSize G * 8 then setBit (unat (overhead + 1)) bitmap else bitmap)
      in if isLastGroup G g then
           fold setBit [unat (blocksLeft G g)..<min (unat (eg_blocksPerGroup G)) (bitmapBits G)] bitmap
         else bitmap)"

definition inodeBitmap :: "ExtGeometry \<Rightarrow> u32 \<Rightarrow> bytes" where
  "inodeBitmap G g =
     (if g = 0 then fold setBit [0..<min 11 (unat (eg_inodesPerGroup G))] (replicate (unat (eg_blockSize G)) 0)
      else replicate (unat (eg_blockSize G)) 0)"

section \<open>Directories, inodes and the journal\<close>

definition rootDirDataBlock :: "ExtGeometry \<Rightarrow> u64" where
  "rootDirDataBlock G = ucast (eg_firstDataBlock G) + ucast (groupOverhead G 0)"

definition lostFoundDataBlock :: "ExtGeometry \<Rightarrow> u64" where
  "lostFoundDataBlock G = rootDirDataBlock G + 1"

definition journalStartBlock :: "ExtGeometry \<Rightarrow> u64" where
  "journalStartBlock G = lostFoundDataBlock G + 1"

text \<open>A directory inode of one block. The permissions of the root are 0755, of \<open>lost+found\<close> 0700.\<close>

definition dirInode :: "ExtGeometry \<Rightarrow> u16 \<Rightarrow> u16 \<Rightarrow> u64 \<Rightarrow> u32 \<Rightarrow> bytes" where
  "dirInode G permissions links block now =
     (let inode = replicate (unat (eg_inodeSize G)) 0;
          inode = writeLE16 inode 0 (0x4000 OR permissions);
          inode = writeLE32 inode 4 (eg_blockSize G);
          inode = writeLE32 inode 8 now;
          inode = writeLE32 inode 12 now;
          inode = writeLE32 inode 16 now;
          inode = writeLE16 inode 26 links;
          inode = writeLE32 inode 28 (eg_blockSize G div 512)
      in writeLE32 inode 40 (ucast block))"

definition rootInode :: "ExtGeometry \<Rightarrow> u32 \<Rightarrow> bytes" where
  "rootInode G now =
     dirInode G (0x0100 OR 0x0080 OR 0x0040 OR 0x0020 OR 0x0008 OR 0x0004 OR 0x0001) 3 (rootDirDataBlock G) now"

definition lostFoundInode :: "ExtGeometry \<Rightarrow> u32 \<Rightarrow> bytes" where
  "lostFoundInode G now = dirInode G (0x0100 OR 0x0080 OR 0x0040) 2 (lostFoundDataBlock G) now"

text \<open>A journal inode points to its first twelve blocks at most.\<close>

definition journalInode :: "ExtGeometry \<Rightarrow> u32 \<Rightarrow> bytes" where
  "journalInode G now =
     (let journalSizeBytes = ucast (eg_journalBlocks G) * ucast (eg_blockSize G) :: u64;
          inode = replicate (unat (eg_inodeSize G)) 0;
          inode = writeLE16 inode 0 (0x8000 OR 0x0100 OR 0x0080);
          inode = writeLE32 inode 4 (ucast journalSizeBytes);
          inode = writeLE32 inode 108 (ucast (drop_bit 32 journalSizeBytes));
          inode = writeLE32 inode 8 now;
          inode = writeLE32 inode 12 now;
          inode = writeLE32 inode 16 now;
          inode = writeLE16 inode 26 1;
          inode = writeLE32 inode 28 (ucast (journalSizeBytes div 512));
          inode = writeLE32 inode 32 0x00080000
      in fold (\<lambda>i inode. writeLE32 inode (40 + i * 4) (ucast (journalStartBlock G + of_nat i)))
           [0..<min 12 (unat (eg_journalBlocks G))] inode)"

text \<open>Big-endian values, as the code puts their bytes together.\<close>

definition putBE32 :: "bytes \<Rightarrow> nat \<Rightarrow> u32 \<Rightarrow> bytes" where
  "putBE32 p off v = p[off := ucast (drop_bit 24 v), off + 1 := ucast (drop_bit 16 v),
     off + 2 := ucast (drop_bit 8 v), off + 3 := ucast v]"

definition journalSuperblock :: "ExtGeometry \<Rightarrow> bytes \<Rightarrow> bytes" where
  "journalSuperblock G uuid =
     (let jsb = replicate (unat (eg_blockSize G)) 0;
          jsb = writeLE32 jsb 0 0x98393BC0;
          jsb = writeLE32 jsb 4 0x04000000;
          jsb = writeLE32 jsb 8 0x01000000;
          jsb = putBE32 jsb 12 (eg_blockSize G);
          jsb = putBE32 jsb 16 (eg_journalBlocks G);
          jsb = writeLE32 jsb 20 0x01000000
      in blit 48 uuid jsb)"

text \<open>The bitmap of group 0 with the journal's blocks marked.\<close>

definition markJournal :: "ExtGeometry \<Rightarrow> bytes \<Rightarrow> bytes" where
  "markJournal G bitmap =
     fold (\<lambda>jb bitmap.
         let relBlock = ucast (journalStartBlock G + of_nat jb - ucast (eg_firstDataBlock G)) :: u32
         in if relBlock < eg_blockSize G * 8 then setBit (unat relBlock) bitmap else bitmap)
       [0..<unat (eg_journalBlocks G)] bitmap"

text \<open>\<open>writeDirEntry\<close>: it fills in the entry at \<open>dirOffset\<close> and moves on by its length.\<close>

definition dirEntry :: "u32 \<Rightarrow> u16 \<Rightarrow> string \<Rightarrow> bytes" where
  "dirEntry inode recLen name =
     blit 8 (ascii name) ((writeLE16 (writeLE32 (replicate (8 + length name) 0) 0 inode) 4 recLen)
       [6 := of_nat (length name), 7 := 2])"

definition writeDirEntry :: "ExtGeometry \<Rightarrow> u32 \<Rightarrow> string \<Rightarrow> bool \<Rightarrow> bytes \<times> u32 \<Rightarrow> bytes \<times> u32" where
  "writeDirEntry G inode name isLast = (\<lambda>(dir, dirOffset).
     let recLen = (if isLast then ucast (eg_blockSize G - dirOffset)
                   else of_nat (((8 + length name + 3) div 4) * 4)) :: u16
     in (blit (unat dirOffset) (dirEntry inode recLen name) dir, dirOffset + ucast recLen))"

definition rootDirectory :: "ExtGeometry \<Rightarrow> bytes" where
  "rootDirectory G =
     fst (writeDirEntry G 11 ''lost+found'' True (writeDirEntry G 2 ''..'' False
       (writeDirEntry G 2 ''.'' False (replicate (unat (eg_blockSize G)) 0, 0))))"

definition lostFoundDirectory :: "ExtGeometry \<Rightarrow> bytes" where
  "lostFoundDirectory G =
     blit 12 (dirEntry 2 (ucast (eg_blockSize G - 12)) ''..'')
       (blit 0 (dirEntry 11 12 ''.'') (replicate (unat (eg_blockSize G)) 0))"

section \<open>What is written, in order\<close>

text \<open>
  A step writes bytes at an offset of the partition or reports progress. An offset is computed in 64
  bits and a length in 32 bits.
\<close>

datatype format_step = WriteStep u64 bytes | ReportStep int string

definition blockOffset :: "ExtGeometry \<Rightarrow> u64 \<Rightarrow> u64" where
  "blockOffset G block = block * ucast (eg_blockSize G)"

text \<open>Zeros in pieces of at most \<open>chunk\<close> bytes.\<close>

function zeroChunks :: "nat \<Rightarrow> u64 \<Rightarrow> nat \<Rightarrow> format_step list" where
  "zeroChunks chunk pos remaining =
     (if chunk = 0 \<or> remaining = 0 then []
      else WriteStep pos (replicate (min remaining chunk) 0) #
        zeroChunks chunk (pos + of_nat (min remaining chunk)) (remaining - min remaining chunk))"
  by pat_completeness auto
termination by (relation "measure (\<lambda>(chunk, pos, remaining). remaining)") auto

declare zeroChunks.simps [simp del]

definition backupSteps :: "ExtGeometry \<Rightarrow> bytes \<Rightarrow> bytes \<Rightarrow> format_step list" where
  "backupSteps G sb gdt =
     concat (map (\<lambda>g. if hasSuperblockBackup g then
         [WriteStep (blockOffset G (groupStart G g)) (superblockCopy sb g),
          WriteStep (blockOffset G (groupStart G g) + ucast (eg_blockSize G)) gdt] else [])
       (tl (groupNumbers G)))"

definition groupSteps :: "ExtGeometry \<Rightarrow> int \<Rightarrow> int \<Rightarrow> u32 \<Rightarrow> format_step list" where
  "groupSteps G progressBase progressRange g =
     (let l = groupLayout G g in
      [WriteStep (blockOffset G (gl_blockBitmapBlock l)) (blockBitmap G g),
       WriteStep (blockOffset G (gl_inodeBitmapBlock l)) (inodeBitmap G g)] @
      zeroChunks 65536 (blockOffset G (gl_inodeTableBlock l))
        (unat (eg_inodeTableBlocksPerGroup G * eg_blockSize G)) @
      (if eg_numGroups G > 1 then
         [ReportStep (sint (of_int (progressBase + progressRange sdiv 3) +
            of_int (progressRange sdiv 3) * (g + 1) div eg_numGroups G))
          (''Writing group '' @ dec (unat (g + 1)) @ ''/'' @ dec (unat (eg_numGroups G)) @ ''...'')] else []))"

text \<open>The inode with an index of the table of group 0.\<close>

definition inodeOffset :: "ExtGeometry \<Rightarrow> u32 \<Rightarrow> u64" where
  "inodeOffset G index = blockOffset G (gl_inodeTableBlock (groupLayout G 0)) + ucast (index * eg_inodeSize G)"

text \<open>Everything up to the journal.\<close>

definition extSteps :: "ExtGeometry \<Rightarrow> bytes \<Rightarrow> bytes \<Rightarrow> u32 \<Rightarrow> int \<Rightarrow> int \<Rightarrow> format_step list" where
  "extSteps G sb gdt now progressBase progressRange =
     [ReportStep progressBase ''Writing superblock and metadata...'',
      WriteStep 1024 sb,
      WriteStep (if eg_blockSize G = 1024 then 2 * 1024 else ucast (eg_blockSize G)) gdt,
      ReportStep (progressBase + progressRange sdiv 4) ''Writing block group metadata...''] @
     backupSteps G sb gdt @
     [ReportStep (progressBase + progressRange sdiv 3) ''Writing bitmaps and inode tables...''] @
     concat (map (groupSteps G progressBase progressRange) (groupNumbers G)) @
     [ReportStep (progressBase + (2 * progressRange) sdiv 3) ''Writing root directory...'',
      WriteStep (inodeOffset G 1) (rootInode G now),
      WriteStep (inodeOffset G 10) (lostFoundInode G now),
      WriteStep (blockOffset G (rootDirDataBlock G)) (rootDirectory G),
      WriteStep (blockOffset G (lostFoundDataBlock G)) (lostFoundDirectory G)]"

text \<open>The journal: first its inode and superblock; then, with the bitmap that was read back, the rest.\<close>

definition journalSteps :: "ExtGeometry \<Rightarrow> bytes \<Rightarrow> u32 \<Rightarrow> int \<Rightarrow> int \<Rightarrow> format_step list" where
  "journalSteps G uuid now progressBase progressRange =
     [ReportStep (progressBase + (3 * progressRange) sdiv 4) ''Writing journal...'',
      WriteStep (inodeOffset G 7) (journalInode G now),
      WriteStep (blockOffset G (journalStartBlock G)) (journalSuperblock G uuid)]"

definition journalUpdateSteps :: "ExtGeometry \<Rightarrow> bytes \<Rightarrow> bytes \<Rightarrow> format_step list" where
  "journalUpdateSteps G sb bitmap =
     [WriteStep (blockOffset G (gl_blockBitmapBlock (groupLayout G 0))) (markJournal G bitmap),
      WriteStep 1024 (superblockAfterJournal G sb)]"

end
