(* ===== verification/Format_Device.thy ===== *)
theory Format_Device
  imports Environment Operation_Utils Volume_Handle Format_Ext
begin

text \<open>
  The device that \<open>src/core/filesystem/FormatEngine.cpp\<close> writes to: a locked volume or a physical disk
  from an offset on. The lambda \<open>writeAt\<close> of the formatters, the zeroing of a whole partition, and what
  happens to the device when a formatter succeeds and when it is left.
\<close>

section \<open>The device\<close>

datatype format_device = VolumeDevice VolumeHandle | RawDevice RawDiskHandle u64 | NoDevice

text \<open>On an early return the destructor of the handle runs.\<close>

definition lockAndDismount :: "'w Win32 \<Rightarrow> u16 \<Rightarrow> (VolumeHandle Result, 'w) io" where
  "lockAndDismount W driveLetter =
     io_try (openByLetter W driveLetter ReadWrite) (\<lambda>vol w.
       case vol_lock W vol w of
         (Inl e, vol, w) \<Rightarrow> Done (Inl e, vol_destroy W vol w)
       | (Inr _, vol, w) \<Rightarrow>
           (case vol_dismount W vol w of
              (Inl e, w) \<Rightarrow> (case vol_unlock W vol w of (_, vol, w) \<Rightarrow> Done (Inl e, vol_destroy W vol w))
            | (Inr _, w) \<Rightarrow> Done (Inr vol, w)))"

definition openDevice :: "'w Win32 \<Rightarrow> FormatTarget \<Rightarrow> (format_device Result, 'w) io" where
  "openDevice W target =
     (if hasDriveLetter target then
        io_try (lockAndDismount W (ft_driveLetter target)) (\<lambda>vol. io_return (Inr (VolumeDevice vol)))
      else if hasRawTarget target then
        io_try (rawOpen W (ft_diskIndex target) ReadWrite)
          (\<lambda>disk. io_return (Inr (RawDevice disk (ft_partitionOffsetBytes target))))
      else io_return (Inr NoDevice))"

fun destroyDevice :: "'w Win32 \<Rightarrow> format_device \<Rightarrow> 'w \<Rightarrow> 'w" where
  "destroyDevice W (VolumeDevice vol) w = vol_destroy W vol w"
| "destroyDevice W (RawDevice disk base) w = rawDestroy W disk w"
| "destroyDevice W NoDevice w = w"

text \<open>At the end of a successful run; none of the results is looked at.\<close>

fun finishDevice :: "'w Win32 \<Rightarrow> format_device \<Rightarrow> (format_device, 'w) io" where
  "finishDevice W (VolumeDevice vol) = io_bind (vol_flushBuffers W vol) (\<lambda>_ w.
     case vol_unlock W vol w of (_, vol, w) \<Rightarrow> Done (VolumeDevice vol, w))"
| "finishDevice W (RawDevice disk base) = io_bind (rawFlushBuffers W disk) (\<lambda>_. io_return (RawDevice disk base))"
| "finishDevice W NoDevice = io_return NoDevice"

text \<open>
  The scope of a device: after the body, which on success flushes and unlocks it, its destructor runs.
  \<open>tail\<close> is what a formatter does between the flush and the end of the scope.
\<close>

definition withDevice :: "'w Win32 \<Rightarrow> FormatTarget \<Rightarrow> (format_device \<Rightarrow> (unit, 's, 'w) act) \<Rightarrow> (unit, 's, 'w) act \<Rightarrow>
    (unit, 's, 'w) act" where
  "withDevice W target body tail =
     act_bind (act_io (openDevice W target)) (\<lambda>dev s w.
       run_bind (body dev s w) (\<lambda>(r, ps, s', w').
         case r of
           Inl e \<Rightarrow> Done (Inl e, ps, s', destroyDevice W dev w')
         | Inr _ \<Rightarrow>
             run_bind (finishDevice W dev w') (\<lambda>(dev', w2).
             run_bind (tail s' w2) (\<lambda>(r2, ps2, s2, w3). Done (r2, ps @ ps2, s2, destroyDevice W dev' w3)))))"

section \<open>Writing\<close>

text \<open>
  A write to a disk covers whole sectors. One that is not aligned reads the sectors first; the buffer
  that was read must hold the bytes that are copied into it.
\<close>

definition rawWriteAt :: "'w Win32 \<Rightarrow> u32 \<Rightarrow> RawDiskHandle \<Rightarrow> u64 \<Rightarrow> bytes \<Rightarrow> (unit Result, 'w) io" where
  "rawWriteAt W ss disk absOffset data w =
     require (ss \<noteq> 0)
       (let size = of_nat (length data) :: u32;
            lba = absOffset div ucast ss;
            sectors = ucast ((size + ss - 1) div ss) :: u64
        in if absOffset mod ucast ss \<noteq> 0 \<or> size mod ss \<noteq> 0 then
             (case readSectors W disk lba sectors ss w of
                Inl e \<Rightarrow> Done (Inl e, w)
              | Inr buf \<Rightarrow>
                  (let off = unat (ucast (absOffset mod ucast ss) :: u32) in
                   require (off + length data \<le> length buf)
                     (writeSectors W disk lba (Some (blit off data buf)) sectors ss w)))
           else writeSectors W disk lba (Some data) sectors ss w)"

fun writeAt :: "'w Win32 \<Rightarrow> u32 \<Rightarrow> format_device \<Rightarrow> u64 \<Rightarrow> bytes \<Rightarrow> (unit Result, 'w) io" where
  "writeAt W ss (VolumeDevice vol) offset data w = writeBytes W vol offset (Some data) (of_nat (length data)) w"
| "writeAt W ss (RawDevice disk base) offset data w = rawWriteAt W ss disk (base + offset) data w"
| "writeAt W ss NoDevice offset data w = Done (fail DiskWriteError ''No valid write handle'', w)"

fun runSteps :: "'w Win32 \<Rightarrow> u32 \<Rightarrow> format_device \<Rightarrow> format_step list \<Rightarrow> (unit, 's, 'w) act" where
  "runSteps W ss dev [] = act_return ()"
| "runSteps W ss dev (WriteStep offset data # steps) =
     act_then (act_io (writeAt W ss dev offset data)) (runSteps W ss dev steps)"
| "runSteps W ss dev (ReportStep percent status # steps) = act_then (report percent status) (runSteps W ss dev steps)"

section \<open>Zeroing a partition\<close>

text \<open>The percentage of a range, computed in 64 bits.\<close>

definition zeroPercent :: "int \<Rightarrow> int \<Rightarrow> u64 \<Rightarrow> u64 \<Rightarrow> int" where
  "zeroPercent start end bytesWritten totalBytes =
     start + sint (ucast (of_int (end - start) * bytesWritten div totalBytes) :: u32)"

definition zeroReport :: "int \<Rightarrow> int \<Rightarrow> u64 \<Rightarrow> u64 \<Rightarrow> (unit, 's, 'w) act" where
  "zeroReport start end bytesWritten totalBytes =
     report (zeroPercent start end bytesWritten totalBytes)
       (''Zeroing... '' @ show_int (zeroPercent 0 100 bytesWritten totalBytes) @ ''%'')"

abbreviation (input) ZERO_CHUNK :: u64 where "ZERO_CHUNK \<equiv> 4 * 1024 * 1024"

lemma min_chunk_grows:
  assumes "bytesWritten < (totalBytes :: u64)"
  shows "unat (totalBytes - (bytesWritten + min ZERO_CHUNK (totalBytes - bytesWritten))) < unat (totalBytes - bytesWritten)"
proof -
  let ?m = "min ZERO_CHUNK (totalBytes - bytesWritten)"
  have m: "0 < unat ?m" "?m \<le> totalBytes - bytesWritten"
    using assms by (auto simp: min_def word_less_nat_alt unat_sub_if')
  have eq: "totalBytes - (bytesWritten + ?m) = (totalBytes - bytesWritten) - ?m" by simp
  have "unat (totalBytes - (bytesWritten + ?m)) = unat (totalBytes - bytesWritten) - unat ?m"
    unfolding eq by (rule unat_sub [OF m(2)])
  then show ?thesis using m by (simp add: word_le_nat_alt)
qed

function zeroVolume :: "'w Win32 \<Rightarrow> VolumeHandle \<Rightarrow> u64 \<Rightarrow> int \<Rightarrow> int \<Rightarrow> u64 \<Rightarrow> (unit, 's, 'w) act" where
  "zeroVolume W vol totalBytes start end bytesWritten =
     (if bytesWritten < totalBytes then
        (let writeSize = min ZERO_CHUNK (totalBytes - bytesWritten);
             bytesWritten' = bytesWritten + writeSize
         in act_then (act_io (writeBytes W vol bytesWritten (Some (replicate (unat ZERO_CHUNK) 0)) (ucast writeSize)))
            (act_then (zeroReport start end bytesWritten' totalBytes)
              (zeroVolume W vol totalBytes start end bytesWritten')))
      else act_return ())"
  by pat_completeness auto
termination
  by (relation "measure (\<lambda>(W, vol, totalBytes, start, end, bytesWritten). unat (totalBytes - bytesWritten))")
    (use min_chunk_grows in \<open>auto simp: word_less_nat_alt\<close>)

declare zeroVolume.simps [simp del]

text \<open>
  On a disk the loop advances by whole sectors. If it does not advance (the size of a chunk is computed
  in 32 bits and may come out as 0), or if the position would wrap around, it does not end.
\<close>

function zeroRaw :: "'w Win32 \<Rightarrow> RawDiskHandle \<Rightarrow> u64 \<Rightarrow> u64 \<Rightarrow> u32 \<Rightarrow> int \<Rightarrow> int \<Rightarrow> u64 \<Rightarrow> (unit, 's, 'w) act" where
  "zeroRaw W disk offsetBytes totalBytes ss start end bytesWritten =
     (if bytesWritten < totalBytes then
        (let chunkBytes = 8192 * ss;
             writeBytes = ucast (min (ucast chunkBytes) (totalBytes - bytesWritten)) :: u32;
             sectors = ucast ((writeBytes + ss - 1) div ss) :: u64;
             lba = (offsetBytes + bytesWritten) div ucast ss;
             advance = sectors * ucast ss;
             bytesWritten' = bytesWritten + advance
         in if ss = 0 then (\<lambda>s w. Undef)
            else if bytesWritten' \<le> bytesWritten then (\<lambda>s w. Diverges)
            else
              act_then (act_io (writeSectors W disk lba (Some (replicate (unat chunkBytes) 0)) sectors ss))
              (act_then (zeroReport start end bytesWritten' totalBytes)
                (zeroRaw W disk offsetBytes totalBytes ss start end bytesWritten')))
      else act_return ())"
  by pat_completeness auto
termination
  by (relation "measure (\<lambda>(W, disk, offsetBytes, totalBytes, ss, start, end, bytesWritten). 2 ^ 64 - unat bytesWritten)")
    (auto simp: not_le word_less_nat_alt intro!: diff_less_mono2 unat_less_64)

declare zeroRaw.simps [simp del]

fun zeroDevice :: "'w Win32 \<Rightarrow> format_device \<Rightarrow> u64 \<Rightarrow> u32 \<Rightarrow> int \<Rightarrow> int \<Rightarrow> (unit, 's, 'w) act" where
  "zeroDevice W (VolumeDevice vol) partSize ss start end = zeroVolume W vol partSize start end 0"
| "zeroDevice W (RawDevice disk base) partSize ss start end = zeroRaw W disk base partSize ss start end 0"
| "zeroDevice W NoDevice partSize ss start end = act_return ()"

section \<open>Telling the system\<close>

definition notifyPartitionChange :: "'w Win32 \<Rightarrow> int \<Rightarrow> (unit Result, 'w) io" where
  "notifyPartitionChange W diskIndex =
     withDisk W diskIndex ReadWrite (\<lambda>disk w.
       case rh_handle disk of
         None \<Rightarrow> Undef
       | Some h \<Rightarrow>
           (case DeviceControl W IOCTL_DISK_UPDATE_PROPERTIES h w of
              (Inl err, w') \<Rightarrow>
                Done (Inl (fromWin32 DiskWriteError err ''IOCTL_DISK_UPDATE_PROPERTIES failed (non-fatal)''), w')
            | (Inr _, w') \<Rightarrow> Done (ok, w')))"

text \<open>For a drive letter the attributes of its root are read, which changes nothing here.\<close>

definition notifyPartitionChangeLetter :: "u16 \<Rightarrow> (unit Result, 'w) io" where
  "notifyPartitionChangeLetter driveLetter = io_return ok"

definition notifyTarget :: "'w Win32 \<Rightarrow> FormatTarget \<Rightarrow> (unit, 's, 'w) act" where
  "notifyTarget W target =
     (if hasDriveLetter target then act_ignore (notifyPartitionChangeLetter (ft_driveLetter target))
      else if hasRawTarget target then act_ignore (notifyPartitionChange W (ft_diskIndex target))
      else act_return ())"

section \<open>Handles\<close>

text \<open>What remains of the open handles when a device is gone.\<close>

fun device_released :: "format_device \<Rightarrow> (nat \<Rightarrow> target option) \<Rightarrow> nat \<Rightarrow> target option" where
  "device_released (VolumeDevice vol) H = released vol H"
| "device_released (RawDevice disk base) H = (case rh_handle disk of None \<Rightarrow> H | Some h \<Rightarrow> H(h := None))"
| "device_released NoDevice H = H"

lemma lockAndDismount_volume: "letter \<noteq> 0 \<Longrightarrow> lockAndDismount W letter = lockAndDismountVolume W letter"
  by (rule ext) (simp add: lockAndDismount_def lockAndDismountVolume_def)

lemma openDevice_handles:
  assumes "handle_laws W V" "openDevice W target w = Done (r, w')"
  shows "case r of Inl _ \<Rightarrow> handles V w' = handles V w | Inr dev \<Rightarrow> device_released dev (handles V w') = handles V w"
proof (cases "hasDriveLetter target")
  case True
  then have "lockAndDismount W (ft_driveLetter target) = lockAndDismountVolume W (ft_driveLetter target)"
    by (simp add: hasDriveLetter_def lockAndDismount_volume)
  with True assms(2) show ?thesis
    using lockAndDismountVolume_handles [OF assms(1)] by (fastforce simp: openDevice_def run_simps)
next
  case False
  with assms(2) show ?thesis
    using handle_lawsD(1,2) [OF assms(1)]
    by (auto simp: openDevice_def run_simps rawOpen_Done(1) dest!: rawOpen_Done(2) split: if_splits)
qed

lemma destroyDevice_handles:
  "handle_laws W V \<Longrightarrow> handles V (destroyDevice W dev w) = device_released dev (handles V w)"
  by (cases dev) (auto simp: vol_destroy_handles rawDestroy_def rawClose_def handle_lawsD(3) split: option.split)

lemma vol_flush_handles: "handle_laws W V \<Longrightarrow> keeps (handles V) (vol_flushBuffers W vol)"
  using handle_lawsD(5) by (fastforce simp: keeps_def vol_flushBuffers_def split: option.splits prod.splits sum.splits)

lemma finishDevice_handles:
  assumes "handle_laws W V" "finishDevice W dev w = Done (dev', w')"
  shows "handles V w' = handles V w \<and> device_released dev' = device_released dev"
proof (cases dev)
  case (VolumeDevice vol)
  then obtain r1 w1 where f: "vol_flushBuffers W vol w = Done (r1, w1)"
    and u: "(case vol_unlock W vol w1 of (_, vol, w) \<Rightarrow> Done (VolumeDevice vol, w)) = Done (dev', w')"
    using assms(2) by (auto simp: io_bind_Done)
  obtain r2 vol' w2 where "vol_unlock W vol w1 = (r2, vol', w2)" by (metis prod_cases3)
  with f u have "vol_flushBuffers W vol w = Done (r1, w1)" "vol_unlock W vol w1 = (r2, vol', w')" "dev' = VolumeDevice vol'"
    by auto
  with VolumeDevice keepsD [OF vol_flush_handles [OF assms(1)]] vol_unlock_handles [OF assms(1)] show ?thesis
    by (fastforce simp: released_def fun_eq_iff)
next
  case (RawDevice disk base)
  with assms(2) keepsD [OF flush_handles [OF assms(1)]] show ?thesis by (auto simp: run_simps)
next
  case NoDevice
  with assms(2) show ?thesis by (simp add: run_simps)
qed

lemma writeBytes_handles [keeps_intros]:
  assumes "handle_laws W V"
  shows "keeps (handles V) (writeBytes W vol off data n)"
  using handle_lawsD(4) [OF assms]
  by (fastforce simp: keeps_def writeBytes_def require_Done_iff split: option.splits if_splits prod.splits sum.splits)

lemma rawWriteAt_handles:
  assumes "handle_laws W V"
  shows "keeps (handles V) (rawWriteAt W ss disk off data)"
  unfolding keeps_def
proof (intro allI impI)
  fix w r w'
  assume "rawWriteAt W ss disk off data w = Done (r, w')"
  then show "handles V w' = handles V w"
    by (auto simp: rawWriteAt_def Let_def require_Done_iff split: if_splits sum.splits
        dest: keepsD [OF writeSectors_handles [OF assms]])
qed

lemma writeAt_handles [keeps_intros]:
  assumes "handle_laws W V"
  shows "keeps (handles V) (writeAt W ss dev off data)"
  using writeBytes_handles [OF assms] rawWriteAt_handles [OF assms]
  by (cases dev) (auto simp: keeps_def)

lemma runSteps_handles [act_intros]:
  "handle_laws W V \<Longrightarrow> act_keeps (handles V) (runSteps W ss dev steps)"
  by (induction W ss dev steps rule: runSteps.induct) (auto intro!: act_intros keeps_intros)

lemma zeroReport_keeps [act_intros]: "act_keeps f (zeroReport start end n tot)"
  unfolding zeroReport_def by (intro act_intros)

lemma zeroVolume_handles: "handle_laws W V \<Longrightarrow> act_keeps (handles V) (zeroVolume W vol tot start end n)"
proof (induction W vol tot start "end" n rule: zeroVolume.induct)
  case (1 W vol tot start "end" n)
  then show ?case by (subst zeroVolume.simps) (auto simp: Let_def intro!: act_intros keeps_intros)
qed

lemma act_keeps_undef [act_intros]: "act_keeps f (\<lambda>s w. Undef)" "act_keeps f (\<lambda>s w. Diverges)"
  by (simp_all add: act_keeps_def)

lemma zeroRaw_handles: "handle_laws W V \<Longrightarrow> act_keeps (handles V) (zeroRaw W disk off tot ss start end n)"
proof (induction W disk off tot ss start "end" n rule: zeroRaw.induct)
  case (1 W disk off tot ss start "end" n)
  then show ?case by (subst zeroRaw.simps) (auto simp: Let_def intro!: act_intros keeps_intros)
qed

lemma zeroDevice_handles [act_intros]:
  "handle_laws W V \<Longrightarrow> act_keeps (handles V) (zeroDevice W dev partSize ss start end)"
  by (cases dev) (auto intro: act_intros zeroVolume_handles zeroRaw_handles)

lemma notifyTarget_handles [act_intros]:
  assumes "handle_laws W V"
  shows "act_keeps (handles V) (notifyTarget W target)"
proof -
  have "keeps (handles V) (notifyPartitionChange W d)" for d
    unfolding notifyPartitionChange_def
    by (rule withDisk_handles [OF assms])
      (auto simp: keeps_def dest: handle_lawsD(6) [OF assms] split: option.splits prod.splits sum.splits)
  then show ?thesis
    unfolding notifyTarget_def notifyPartitionChangeLetter_def by (intro act_intros keeps_intros)
qed

lemma withDevice_cases:
  assumes "withDevice W target body tail s w = Done (r, ps, s', w')"
  obtains (failed) e where "openDevice W target w = Done (Inl e, w')" "r = Inl e"
  | (error) dev w1 w2 e where "openDevice W target w = Done (Inr dev, w1)" "body dev s w1 = Done (Inl e, ps, s', w2)"
      "r = Inl e" "w' = destroyDevice W dev w2"
  | (success) dev w1 ps1 s1 w2 dev' w3 ps2 w4 where "openDevice W target w = Done (Inr dev, w1)"
      "body dev s w1 = Done (Inr (), ps1, s1, w2)" "finishDevice W dev w2 = Done (dev', w3)"
      "tail s1 w3 = Done (r, ps2, s', w4)" "w' = destroyDevice W dev' w4"
proof -
  from assms consider e where "openDevice W target w = Done (Inl e, w')" "r = Inl e"
    | dev w1 r1 ps1 s1 w2 where "openDevice W target w = Done (Inr dev, w1)" "body dev s w1 = Done (r1, ps1, s1, w2)"
      "(case r1 of
           Inl e \<Rightarrow> Done (Inl e, ps1, s1, destroyDevice W dev w2)
         | Inr _ \<Rightarrow>
             run_bind (finishDevice W dev w2) (\<lambda>(dev', w2).
             run_bind (tail s1 w2) (\<lambda>(r2, ps2, s2, w3). Done (r2, ps1 @ ps2, s2, destroyDevice W dev' w3)))) =
         Done (r, ps, s', w')"
    unfolding withDevice_def act_bind_Done act_simple_Done by (auto simp: run_bind_Done_iff)
  then show thesis
  proof cases
    case 1
    with failed show thesis .
  next
    case 2
    show thesis
    proof (cases r1)
      case (Inl e)
      with 2(2,3) have "body dev s w1 = Done (Inl e, ps, s', w2)" "r = Inl e" "w' = destroyDevice W dev w2" by auto
      with error [OF 2(1)] show thesis by blast
    next
      case (Inr u)
      with 2(2,3) success [OF 2(1)] show thesis by (auto simp: run_bind_Done_iff)
    qed
  qed
qed

lemma withDevice_handles [act_intros]:
  assumes "handle_laws W V" "\<And>dev. act_keeps (handles V) (body dev)" "act_keeps (handles V) tail"
  shows "act_keeps (handles V) (withDevice W target body tail)"
  unfolding act_keeps_def
proof (intro allI impI)
  fix s w r ps s' w'
  assume "withDevice W target body tail s w = Done (r, ps, s', w')"
  then show "handles V w' = handles V w"
  proof (cases rule: withDevice_cases)
    case failed
    with openDevice_handles [OF assms(1)] show ?thesis by fastforce
  next
    case error
    with openDevice_handles [OF assms(1) error(1)] act_keepsD [OF assms(2) error(2)] destroyDevice_handles [OF assms(1)]
    show ?thesis by simp
  next
    case success
    with openDevice_handles [OF assms(1) success(1)] act_keepsD [OF assms(2) success(2)]
      finishDevice_handles [OF assms(1) success(3)] act_keepsD [OF assms(3) success(4)] destroyDevice_handles [OF assms(1)]
    show ?thesis by simp
  qed
qed

end
