(* ===== verification/Format_Swap.thy ===== *)
theory Format_Swap
  imports Format_Structures
begin

text \<open>
  The swap header that \<open>FormatEngine::formatLinuxSwap\<close> writes, and what the detector says about it.
\<close>

section \<open>The header page\<close>

text \<open>The fields are copied into a page of zeros; a page that is too small for them is overrun.\<close>

definition swapPage :: "u32 \<Rightarrow> u64 \<Rightarrow> bytes \<Rightarrow> bytes \<Rightarrow> bytes run" where
  "swapPage pageSize partSize uuid label =
     require (0x41C + min (length label) 16 \<le> unat pageSize)
       (let page = replicate (unat pageSize) 0;
            page = writeLE32 page 0x400 1;
            lastPage = ucast (partSize div ucast pageSize - 1);
            page = writeLE32 page 0x404 lastPage;
            page = writeLE32 page 0x408 0;
            page = blit 0x40C uuid page;
            page = (if label \<noteq> [] then blit 0x41C (take 16 label) page else page)
        in Done (blit (unat pageSize - 10) (ascii ''SWAPSPACE2'') page))"

section \<open>Volumes on which the earlier probes are silent\<close>

definition zero_on :: "bytes \<Rightarrow> nat \<Rightarrow> nat \<Rightarrow> bool" where
  "zero_on data a b \<longleftrightarrow> (\<forall>i. a \<le> i \<and> i < b \<longrightarrow> byte_at data i = 0)"

lemma zero_onD: "zero_on data a b \<Longrightarrow> a \<le> i \<Longrightarrow> i < b \<Longrightarrow> byte_at data i = 0"
  by (simp add: zero_on_def)

lemma window_zero: "zero_on data a b \<Longrightarrow> a \<le> off \<Longrightarrow> off + n \<le> b \<Longrightarrow> window data off n = replicate n 0"
  by (auto simp: zero_on_def intro!: nth_equalityI)

lemma no_magic:
  assumes "zero_on data a b" "a \<le> off" "off < b" "s = c # cs" "(of_char c :: u8) \<noteq> 0"
  shows "\<not> has_magic data off s"
proof
  assume "has_magic data off s"
  then have "window data off (length s) ! 0 = ascii s ! 0" by (simp add: has_magic_def)
  then show False using assms zero_onD [OF assms(1-3)] by (simp add: ascii_def)
qed

lemmas buffer_simps = Let_def safeRead_buffer memEqual_window
lemmas read_defs = readLE16_def readLE32_def readLE64_def readBE16_def readBE32_def

text \<open>The boot area holds nothing.\<close>

lemma boot_silent:
  assumes "zero_on data 0 0x400"
  shows "detectNtfs (bufferRead data) d = None" "detectExfat (bufferRead data) d = Done None"
    "detectXfs (bufferRead data) d = None" "detectApfs (bufferRead data) d = None"
    "detectReFs (bufferRead data) d = None" "detectSquashFs (bufferRead data) d = None"
    "detectCramFs (bufferRead data) d = None" "detectRomFs (bufferRead data) d = Done None"
    "detectBfs (bufferRead data) d = None" "detectQnx4 (bufferRead data) d = None"
  using no_magic [OF assms] zero_onD [OF assms]
  by (simp_all add: detectNtfs_def detectExfat_def detectXfs_def detectApfs_def detectReFs_def detectSquashFs_def
      detectCramFs_def detectRomFs_def detectBfs_def detectQnx4_def buffer_simps read_defs)

lemma jfs_iso_silent:
  assumes "zero_on data 0x8000 0x8008"
  shows "detectJfs (bufferRead data) d = None" "detectIso9660 (bufferRead data) d = None"
    "detectUdf (bufferRead data) d = None"
  using no_magic [OF assms]
  by (simp_all add: detectJfs_def detectIso9660_def detectUdf_def buffer_simps)

lemma zfs_silent:
  assumes "zero_on data 0x4000 0x8000" "zero_on data 0x20000 0x20008"
  shows "detectZfs (bufferRead data) d = None"
proof -
  have "\<not> memEqual (window data 0x4000 0x4000) i ''version''" if "i < 0x3FF9" for i
    using no_magic [OF assms(1), of "0x4000 + i" "''version''"] that by (simp add: memEqual_window)
  then have "\<not> list_ex (\<lambda>i. memEqual (window data 0x4000 0x4000) i ''version'') [0..<0x3FF9]"
    by (simp add: list_ex_iff)
  moreover have "readLE64 (window data 0x20000 1024) 0 = 0"
    using zero_onD [OF assms(2)] by (simp add: read_defs)
  ultimately show ?thesis by (simp add: detectZfs_def buffer_simps)
qed

lemma far_silent:
  assumes "zero_on data 0x10000 0x10600" "zero_on data 0x2000 0x2600"
  shows "detectBtrfs (bufferRead data) d = None" "detectReiserFs (bufferRead data) d = None"
    "detectHpfs (bufferRead data) d = None" "detectUfs (bufferRead data) d = None"
  using no_magic [OF assms(1)] no_magic [OF assms(2)] zero_onD [OF assms(1)] zero_onD [OF assms(2)]
  by (simp_all add: detectBtrfs_def detectReiserFs_def detectHpfs_def detectUfs_def ufsMagic_def buffer_simps read_defs)

section \<open>A formatted swap partition is detected\<close>

lemma byte_at_append:
  "byte_at (xs @ replicate n 0) i = byte_at xs i"
  by (simp add: byte_at_def nth_append)

lemma byte_at_replicate [simp]: "byte_at (replicate n 0) i = 0"
  by (simp add: byte_at_def)

lemma byte_at_blit:
  assumes "off + length bs \<le> length buf"
  shows "byte_at (blit off bs buf) i = (if off \<le> i \<and> i < off + length bs then bs ! (i - off) else byte_at buf i)"
  using assms by (auto simp: byte_at_def nth_blit)

lemma byte_at_writeLE32:
  assumes "off + 4 \<le> length buf" "i < off \<or> off + 4 \<le> i"
  shows "byte_at (writeLE32 buf off v) i = byte_at buf i"
  using assms by (auto simp: byte_at_def writeLE32_def)

text \<open>The bytes of the page, which the rest of the volume continues with zeros.\<close>

lemma swapPage_bytes:
  fixes n :: nat
  assumes "swapPage ps partSize uuid label = Done page" "length uuid = 16" "4096 \<le> unat ps"
  defines "data \<equiv> page @ replicate n 0"
  shows "zero_on data 0 0x400" "window data 0x400 4 = [1, 0, 0, 0]" "window data 0x40C 16 = uuid"
    "window data 0x41C 16 = padTo 16 label" "zero_on data 0x42C (unat ps - 10)" "zero_on data (unat ps) m"
    "has_magic data (unat ps - 10) ''SWAPSPACE2''"
proof -
  define p0 where "p0 = writeLE32 (writeLE32 (writeLE32 (replicate (unat ps) 0) 0x400 1)
    0x404 (ucast (partSize div ucast ps - 1))) 0x408 0"
  define p1 where "p1 = blit 0x41C (take 16 label) (blit 0x40C uuid p0)"
  have page: "page = blit (unat ps - 10) (ascii ''SWAPSPACE2'') p1"
    using assms(1) by (cases "label = []") (simp_all only: swapPage_def Let_def require_Done_iff run.inject p0_def p1_def
        blit_Nil take_Nil if_True if_False simp_thms)
  have len: "length p0 = unat ps" "length p1 = unat ps" "length page = unat ps"
    using assms(2,3) page by (simp_all add: p0_def p1_def ascii_def)
  have b: "byte_at data i = (if unat ps - 10 \<le> i \<and> i < unat ps then ascii ''SWAPSPACE2'' ! (i - (unat ps - 10))
      else if 0x41C \<le> i \<and> i < 0x41C + min (length label) 16 then label ! (i - 0x41C)
      else if 0x40C \<le> i \<and> i < 0x41C then uuid ! (i - 0x40C) else byte_at p0 i)" for i
    using assms(2,3) len
    by (auto simp: data_def byte_at_append page p1_def byte_at_blit ascii_def)
  have z: "byte_at p0 i = 0" if "i < 0x400 \<or> 0x40C \<le> i" for i
    using that assms(3) by (auto simp: p0_def byte_at_writeLE32)
  have v: "byte_at p0 0x400 = 1" "byte_at p0 0x401 = 0" "byte_at p0 0x402 = 0" "byte_at p0 0x403 = 0"
    using assms(3) by (simp_all add: p0_def byte_at_writeLE32) (simp_all add: byte_at_def writeLE32_def)
  show "zero_on data 0 0x400" "zero_on data 0x42C (unat ps - 10)" "zero_on data (unat ps) m"
    using assms(3) z by (auto simp: zero_on_def b)
  show "window data 0x400 4 = [1, 0, 0, 0]"
    using assms(3) v by (auto simp: window_def b upt_rec)
  show "window data 0x40C 16 = uuid"
    using assms(2,3) by (auto simp: b intro!: nth_equalityI)
  show "window data 0x41C 16 = padTo 16 label"
    using assms(3) z by (auto simp: b padTo_def nth_append intro!: nth_equalityI)
  show "has_magic data (unat ps - 10) ''SWAPSPACE2''"
    using assms(3) unfolding has_magic_def by (intro nth_equalityI) (auto simp: b ascii_def)
qed


definition minix_magic :: "u16 \<Rightarrow> bool" where
  "minix_magic m \<longleftrightarrow> m \<in> {0x137F, 0x138F, 0x2468, 0x2478, 0x4D5A}"

lemma readLE16_window: "i + 2 \<le> n \<Longrightarrow> readLE16 (window data off n) i = readLE16 (window data (off + i) 2) 0"
  by (simp add: readLE16_def add.assoc)

lemma window_window: "i + m \<le> n \<Longrightarrow> slice i m (window data off n) = window data (off + i) m"
  by (auto simp: slice_def add.assoc intro!: nth_equalityI)

lemma super_silent:
  assumes "window data 0x400 4 = [1, 0, 0, 0]" "zero_on data 0x42C 0x440"
  shows "detectExt (bufferRead data) d = None" "detectHfsPlus (bufferRead data) d = None"
proof -
  have "byte_at data 0x400 = 1" "byte_at data 0x401 = 0"
    using assms(1) by (simp_all add: window_def upt_rec)
  then have "readBE16 (window data 1024 512) 0 = 0x100" by (simp add: readBE16_def)
  then show "detectHfsPlus (bufferRead data) d = None" by (simp add: detectHfsPlus_def buffer_simps)
  have "readLE16 (window data 1024 1024) 0x38 = 0" using zero_onD [OF assms(2)] by (simp add: readLE16_def)
  then show "detectExt (bufferRead data) d = None" by (simp add: detectExt_def buffer_simps)
qed

text \<open>The page sizes before that of the header hold no signature.\<close>

lemma swap_read:
  fixes p :: u32
  assumes "10 \<le> unat p"
  shows "safeRead (bufferRead data) (ucast (p - 10)) 10 = window data (unat p - 10) 10"
proof -
  have "unat p < 2 ^ 32" using unsigned_less [of p] by simp
  then have "unat (ucast (p - 10) :: u64) = unat p - 10" "unat p - 10 + 10 < 2 ^ 64"
    using assms by (simp_all add: unat_ucast_up unat_sub_if')
  then show ?thesis by (simp add: safeRead_buffer)
qed

lemma swapPages_skip:
  assumes "zero_on data a b" "a + 10 \<le> unat p" "unat p \<le> b"
  shows "swapPages (bufferRead data) d vs (p # ps) = swapPages (bufferRead data) d vs ps"
proof -
  have "\<not> has_magic data (unat p - 10) ''SWAPSPACE2''" "\<not> has_magic data (unat p - 10) ''SWAP-SPACE''"
    using assms(2,3) by (simp_all add: no_magic [OF assms(1)])
  then show ?thesis using assms(2) by (simp add: Let_def swap_read memEqual_window)
qed

lemma uuidText_window: "off + 16 \<le> n \<Longrightarrow> uuidText (window data 0 n) off = uuidText (window data off 16) 0"
  by (simp add: uuidText_def Let_def)

lemma swapPages_hit:
  assumes "has_magic data (unat p - 10) ''SWAPSPACE2''" "10 \<le> unat p" "vs = 0 \<or> ucast p \<le> vs"
    and "window data 0x40C 16 = uuid" "window data 0x41C 16 = padTo 16 label"
  shows "swapPages (bufferRead data) d vs (p # ps) = Some (d\<lparr>fd_type := SWAP_LINUX, fd_description := ''Linux Swap'',
    fd_blockSize := p, fd_uuid := uuidText uuid 0, fd_label := trimSpaces (takeWhile (\<lambda>b. b \<noteq> 0) (take 16 label))\<rparr>)"
proof -
  have "extractString (window data 0 4096) 0x41C 16 = trimSpaces (takeWhile (\<lambda>b. b \<noteq> 0) (take 16 label))"
    using assms(5) by (simp add: extractString_def window_window takeWhile_padTo)
  moreover have "uuidText (window data 0 4096) 0x40C = uuidText uuid 0"
    using assms(4) by (simp add: uuidText_window)
  moreover have "\<not> (ucast p > vs \<and> vs > 0)" using assms(3) by auto
  ultimately show ?thesis
    using assms(1,2) unfolding swapPages.simps by (subst if_not_P) (simp_all add: buffer_simps swap_read)
qed

lemma detectMinix_swap:
  assumes "window data 0x40C 16 = uuid"
  shows "minix_magic (readLE16 uuid 4) \<Longrightarrow> \<exists>e. detectMinix (bufferRead data) d = Some e \<and> fd_type e = Minix"
    "\<not> minix_magic (readLE16 uuid 4) \<Longrightarrow> detectMinix (bufferRead data) d = None"
proof -
  have "readLE16 (window data 1024 512) 0x10 = readLE16 uuid 4"
    unfolding assms [symmetric] by (simp add: readLE16_def)
  then show "minix_magic (readLE16 uuid 4) \<Longrightarrow> \<exists>e. detectMinix (bufferRead data) d = Some e \<and> fd_type e = Minix"
    "\<not> minix_magic (readLE16 uuid 4) \<Longrightarrow> detectMinix (bufferRead data) d = None"
    by (auto simp: detectMinix_def buffer_simps minix_magic_def)
qed

text \<open>
  A partition that was zeroed and formatted as swap is detected as swap, with the page size, the UUID
  and the label that were written, for the four page sizes the detector knows; but if bytes 4 and 5 of
  the random UUID happen to form a Minix magic number, it is taken for a Minix volume, because that
  probe looks at the same place earlier.
\<close>

theorem swap_format_detected:
  assumes "swapPage pageSize partSize (randomUuid rnd) label = Done page"
    and "pageSize \<in> {4096, 8192, 16384, 65536}" "volumeSize = 0 \<or> ucast pageSize \<le> volumeSize"
  shows "if minix_magic (readLE16 (randomUuid rnd) 4)
    then \<exists>d. detectFromBuffer (page @ replicate n 0) volumeSize = Done (Inr d) \<and> fd_type d = Minix
    else detectFromBuffer (page @ replicate n 0) volumeSize = Done (Inr
      \<lparr>fd_type = SWAP_LINUX, fd_label = trimSpaces (takeWhile (\<lambda>b. b \<noteq> 0) (take 16 label)),
       fd_uuid = uuidText (randomUuid rnd) 0, fd_blockSize = pageSize, fd_description = ''Linux Swap''\<rparr>)"
proof -
  let ?data = "page @ replicate n 0" and ?uuid = "randomUuid rnd"
  have ps: "4096 \<le> unat pageSize" using assms(2) by auto
  note b = swapPage_bytes [OF assms(1) length_randomUuid ps, of n]
  have far: "zero_on ?data x y" if "unat pageSize \<le> x \<or> 0x42C \<le> x \<and> y \<le> unat pageSize - 10" for x y
    using that b(5) b(6) [of y] by (auto simp: zero_on_def)
  have z: "zero_on ?data 0x42C 0x440" "zero_on ?data 0x2000 0x2600" "zero_on ?data 0x4000 0x8000"
    "zero_on ?data 0x8000 0x8008" "zero_on ?data 0x10000 0x10600" "zero_on ?data 0x20000 0x20008"
    using assms(2) by (auto intro!: far)
  note silent = boot_silent [OF b(1)] super_silent [OF b(2) z(1)] far_silent [OF z(5,2)] zfs_silent [OF z(3,6)]
    jfs_iso_silent [OF z(4)]
  have hit: "swapPages (bufferRead ?data) d volumeSize (pageSize # ps) = Some (d\<lparr>fd_type := SWAP_LINUX,
      fd_description := ''Linux Swap'', fd_blockSize := pageSize, fd_uuid := uuidText ?uuid 0,
      fd_label := trimSpaces (takeWhile (\<lambda>b. b \<noteq> 0) (take 16 label))\<rparr>)" for d ps
    using ps by (intro swapPages_hit b assms(3)) simp
  have skip: "swapPages (bufferRead ?data) d volumeSize (p # ps) = swapPages (bufferRead ?data) d volumeSize ps"
    if "0x436 \<le> unat p" "unat p \<le> unat pageSize - 10" for d p ps
    using that by (intro swapPages_skip [OF b(5)]) simp_all
  have swap: "detectLinuxSwap (bufferRead ?data) d volumeSize = Some (d\<lparr>fd_type := SWAP_LINUX,
      fd_description := ''Linux Swap'', fd_blockSize := pageSize, fd_uuid := uuidText ?uuid 0,
      fd_label := trimSpaces (takeWhile (\<lambda>b. b \<noteq> 0) (take 16 label))\<rparr>)" for d
    using assms(2) hit unfolding detectLinuxSwap_def by (auto simp: skip simp del: swapPages.simps)
  show ?thesis
  proof (cases "minix_magic (readLE16 ?uuid 4)")
    case True
    from detectMinix_swap(1) [OF b(3) True, of fd_default] obtain e where
      "detectMinix (bufferRead ?data) fd_default = Some e" "fd_type e = Minix" by blast
    with True silent show ?thesis by (simp add: detectFromBuffer_def detect_def probes_def)
  next
    case False
    with detectMinix_swap(2) [OF b(3)] silent swap show ?thesis
      by (simp add: detectFromBuffer_def detect_def probes_def fd_default_def)
  qed
qed

section \<open>Witnesses\<close>

definition sample_swap_rnd :: "nat \<Rightarrow> u8" where
  "sample_swap_rnd i = of_nat i"

theorem swap_format_detected_witness:
  "\<exists>page. swapPage 4096 1048576 (randomUuid sample_swap_rnd) (ascii ''swap'') = Done page \<and>
     detectFromBuffer (page @ replicate 1044480 0) 1048576 = Done (Inr
       \<lparr>fd_type = SWAP_LINUX, fd_label = ascii ''swap'', fd_uuid = uuidText (randomUuid sample_swap_rnd) 0,
        fd_blockSize = 4096, fd_description = ''Linux Swap''\<rparr>)"
proof -
  obtain page where page: "swapPage 4096 1048576 (randomUuid sample_swap_rnd) (ascii ''swap'') = Done page"
    by (simp add: swapPage_def Let_def ascii_def)
  have uuid: "\<not> minix_magic (readLE16 (randomUuid sample_swap_rnd) 4)"
    by (simp add: minix_magic_def readLE16_def randomUuid_def sample_swap_rnd_def Let_def)
  have "trimSpaces (takeWhile (\<lambda>b. b \<noteq> 0) (take 16 (ascii ''swap''))) = ascii ''swap''"
    by (simp add: trimSpaces_def ascii_def)
  with swap_format_detected [OF page, of 1048576 1044480] uuid page show ?thesis by simp
qed

end
