(* ===== verification/Format_Fat32.thy ===== *)
theory Format_Fat32
  imports Format_Structures
begin

text \<open>
  The FAT32 volume that \<open>FormatEngine::formatFat32Large\<close> lays out: the size of the file allocation
  table, which depends on the number of clusters and the other way round, the boot sector and the
  FSInfo sector.
\<close>

section \<open>Geometry\<close>

text \<open>The table size for the clusters that remain beside two tables of a given size.\<close>

definition fatSizeFor :: "u64 \<Rightarrow> u32" where
  "fatSizeFor totalClusters = ucast (((totalClusters + 2) * 4 + 512 - 1) div 512)"

definition fatStep :: "u64 \<Rightarrow> u8 \<Rightarrow> u32 \<Rightarrow> u32" where
  "fatStep totalSectors sectorsPerCluster fatSize =
     (let dataSectors = totalSectors - 32 - 2 * ucast fatSize
      in fatSizeFor (dataSectors div ucast sectorsPerCluster))"

fun refine :: "nat \<Rightarrow> ('a \<Rightarrow> 'a) \<Rightarrow> 'a \<Rightarrow> 'a" where
  "refine 0 f x = x"
| "refine (Suc n) f x = (let y = f x in if y = x then x else refine n f y)"

definition fat32FatSize :: "u64 \<Rightarrow> u8 \<Rightarrow> u32" where
  "fat32FatSize totalSectors sectorsPerCluster =
     refine 10 (fatStep totalSectors sectorsPerCluster)
       (fatSizeFor ((totalSectors - 32) div ucast sectorsPerCluster))"

record Fat32Layout =
  fl_totalSectors :: u64
  fl_sectorsPerCluster :: u8
  fl_fatSize :: u32
  fl_dataStart :: u64
  fl_totalClusters :: u32

definition fat32Layout :: "u64 \<Rightarrow> u32 \<Rightarrow> Fat32Layout Result" where
  "fat32Layout partSize optClusterSize =
     (let totalSectors = partSize div 512 in
      if totalSectors > 0xFFFFFFFF then fail PartitionTooLarge ''Volume too large for FAT32 (max ~2TB)''
      else
        (let clusterSize = (if optClusterSize = 0 then recommendedClusterSize FAT32 partSize else optClusterSize);
             sectorsPerCluster = ucast (clusterSize div 512) :: u8
         in if sectorsPerCluster = 0 \<or> sectorsPerCluster AND (sectorsPerCluster - 1) \<noteq> 0 then
              fail InvalidArgument ''Cluster size must be a power-of-2 multiple of sector size''
            else
              (let fatSize = fat32FatSize totalSectors sectorsPerCluster;
                   dataStartSector = 32 + 2 * ucast fatSize;
                   totalClusters = ucast ((totalSectors - dataStartSector) div ucast sectorsPerCluster)
               in if totalClusters < 65525 then
                    fail PartitionTooSmall ''Volume too small for FAT32 (need >= 65525 clusters)''
                  else Inr \<lparr>fl_totalSectors = totalSectors, fl_sectorsPerCluster = sectorsPerCluster,
                         fl_fatSize = fatSize, fl_dataStart = dataStartSector, fl_totalClusters = totalClusters\<rparr>)))"

section \<open>Sectors\<close>

definition fatLabel :: "bytes \<Rightarrow> bytes" where
  "fatLabel label = (if label \<noteq> [] then take 11 label @ replicate (11 - length label) 32 else ascii ''NO NAME    '')"

definition fat32BootSector :: "Fat32Layout \<Rightarrow> u32 \<Rightarrow> bytes \<Rightarrow> bytes" where
  "fat32BootSector l serial label =
     (let b = replicate 512 0;
          b = b[0 := 0xEB, 1 := 0x58, 2 := 0x90];
          b = blit 3 (ascii ''MSWIN4.1'') b;
          b = writeLE16 b 0x0B 512;
          b = b[0x0D := fl_sectorsPerCluster l];
          b = writeLE16 b 0x0E 32;
          b = b[0x10 := 2];
          b = writeLE16 b 0x11 0;
          b = writeLE16 b 0x13 0;
          b = b[0x15 := 0xF8];
          b = writeLE16 b 0x16 0;
          b = writeLE16 b 0x18 63;
          b = writeLE16 b 0x1A 255;
          b = writeLE32 b 0x1C 0;
          b = writeLE32 b 0x20 (ucast (fl_totalSectors l));
          b = writeLE32 b 0x24 (fl_fatSize l);
          b = writeLE16 b 0x28 0;
          b = writeLE16 b 0x2A 0;
          b = writeLE32 b 0x2C 2;
          b = writeLE16 b 0x30 1;
          b = writeLE16 b 0x32 6;
          b = b[0x40 := 0x80, 0x42 := 0x29];
          b = writeLE32 b 0x43 serial;
          b = blit 0x47 (fatLabel label) b;
          b = blit 0x52 (ascii ''FAT32   '') b
      in b[510 := 0x55, 511 := 0xAA])"

definition fat32FsInfo :: "Fat32Layout \<Rightarrow> bytes" where
  "fat32FsInfo l =
     (let s = replicate 512 0;
          s = writeLE32 s 0 0x41615252;
          s = writeLE32 s 484 0x61417272;
          s = writeLE32 s 488 (fl_totalClusters l - 1);
          s = writeLE32 s 492 3
      in writeLE32 s 508 0xAA550000)"

text \<open>The first three entries of a file allocation table.\<close>

definition fat32FirstEntries :: "bytes \<Rightarrow> bytes" where
  "fat32FirstEntries chunk = writeLE32 (writeLE32 (writeLE32 chunk 0 0x0FFFFFF8) 4 0x0FFFFFFF) 8 0x0FFFFFF8"

definition fat32RootCluster :: "Fat32Layout \<Rightarrow> bytes \<Rightarrow> bytes" where
  "fat32RootCluster l label =
     (let c = replicate (unat (fl_sectorsPerCluster l) * 512) 0 in
      if label \<noteq> [] then (blit 0 (take 11 label) (blit 0 (replicate 11 32) c))[11 := 0x08] else c)"

section \<open>The table covers the clusters\<close>

text \<open>The iteration in unbounded arithmetic: a fixed number of even steps ends above the fixed point.\<close>

definition fatNeed :: "nat \<Rightarrow> nat \<Rightarrow> nat \<Rightarrow> nat" where
  "fatNeed ts spc x = (((ts - 32 - 2 * x) div spc + 2) * 4 + 511) div 512"

lemma fatNeed_antimono: "x \<le> y \<Longrightarrow> fatNeed ts spc y \<le> fatNeed ts spc x"
  unfolding fatNeed_def by (intro div_le_mono add_le_mono mult_le_mono) auto

lemma refine_above:
  fixes f :: "nat \<Rightarrow> nat"
  assumes anti: "\<And>x y. x \<le> y \<Longrightarrow> f y \<le> f x" and x: "f x \<le> x" "x \<le> f 0"
  shows "f (refine (2 * k) f x) \<le> refine (2 * k) f x \<and> refine (2 * k) f x \<le> f 0"
  using x
proof (induction k arbitrary: x)
  case 0
  then show ?case by simp
next
  case (Suc k)
  have "f (f x) \<ge> f x" "f (f (f x)) \<le> f (f x)" "f (f x) \<le> f 0" "f x \<le> f 0"
    using anti [OF Suc.prems(1)] anti by auto
  with Suc.IH [of "f (f x)"] Suc.prems show ?case by (simp add: Let_def)
qed

lemma refine_sim:
  assumes "\<And>x. P x \<Longrightarrow> P (f x) \<and> h (f x) = g (h x)" "inj h" "P x"
  shows "h (refine k f x) = refine k g (h x)"
  using assms(3)
proof (induction k arbitrary: x)
  case (Suc k)
  with assms(1) [OF Suc.prems] assms(2) show ?case by (auto simp: Let_def inj_eq)
qed simp

lemma unat_fatSizeFor:
  assumes "unat c < 2 ^ 33"
  shows "unat (fatSizeFor c) = ((unat c + 2) * 4 + 511) div 512"
proof -
  have "unat ((c + 2) * 4 + 512 - 1) = (unat c + 2) * 4 + 511"
    using assms by (simp add: unat_word_ariths unat_sub_if')
  then have q: "unat (((c + 2) * 4 + 512 - 1) div 512) = ((unat c + 2) * 4 + 511) div 512"
    by (simp add: unat_div)
  have "((unat c + 2) * 4 + 511) div 512 < 2 ^ 32" using assms by (simp add: div_less_iff_less_mult)
  then show ?thesis using q by (simp add: fatSizeFor_def unsigned_ucast_eq take_bit_nat_eq_self)
qed

lemma unat_fatStep:
  assumes "32 + 2 * unat x \<le> unat ts" "unat ts < 2 ^ 32"
  shows "unat (fatStep ts spc x) = fatNeed (unat ts) (unat spc) (unat x)"
proof -
  have "unat (2 * ucast x :: u64) = 2 * unat x"
    using assms by (simp add: unat_word_ariths unat_ucast_up)
  then have d: "unat (ts - 32 - 2 * ucast x) = unat ts - 32 - 2 * unat x"
    using assms by (simp add: unat_sub_if')
  then have "unat ((ts - 32 - 2 * ucast x) div ucast spc) = (unat ts - 32 - 2 * unat x) div unat spc"
    by (simp add: unat_div unat_ucast_up)
  moreover have "(unat ts - 32 - 2 * unat x) div unat spc \<le> unat ts"
    by (rule le_trans [OF div_le_dividend]) simp
  ultimately show ?thesis using assms(2) by (simp add: fatStep_def Let_def unat_fatSizeFor fatNeed_def)
qed

lemma fatNeed_fits:
  assumes "34 \<le> ts" "0 < spc"
  shows "32 + 2 * fatNeed ts spc 0 \<le> ts"
proof -
  define q a b where "q = fatNeed ts spc 0" and "a = (ts - 32) div spc" and "b = ts - 32"
  have "a \<le> b" by (simp add: a_def b_def)
  moreover have "512 * q \<le> (a + 2) * 4 + 511" by (simp add: q_def a_def fatNeed_def)
  moreover have "2 \<le> b" "ts = 32 + b" using assms(1) by (simp_all add: b_def)
  ultimately show ?thesis unfolding q_def [symmetric] by (cases "q \<le> 1") simp_all
qed

text \<open>The size that the iteration of the code ends with, in unbounded arithmetic.\<close>

lemma fat32FatSize_above:
  assumes "34 \<le> unat ts" "unat ts < 2 ^ 32" "spc \<noteq> 0"
  defines "r \<equiv> unat (fat32FatSize ts spc)"
  shows "fatNeed (unat ts) (unat spc) r \<le> r" "32 + 2 * r \<le> unat ts"
proof -
  let ?f = "fatNeed (unat ts) (unat spc)" and ?x = "fatSizeFor ((ts - 32) div ucast spc)"
  have spc: "0 < unat spc" using assms(3) by (simp add: unat_gt_0)
  note B = fatNeed_fits [OF assms(1) spc]
  have "unat ((ts - 32) div ucast spc) = (unat ts - 32) div unat spc"
    using assms(1) by (simp add: unat_div unat_sub_if' unat_ucast_up)
  moreover have "(unat ts - 32) div unat spc \<le> unat ts" by (rule le_trans [OF div_le_dividend]) simp
  ultimately have x: "unat ?x = ?f 0" using assms(2) by (simp add: unat_fatSizeFor fatNeed_def)
  have step: "unat (fatStep ts spc y) \<le> ?f 0 \<and> unat (fatStep ts spc y) = ?f (unat y)" if "unat y \<le> ?f 0" for y
    using that B assms(2) by (simp add: unat_fatStep fatNeed_antimono)
  have "inj (unat :: u32 \<Rightarrow> nat)" by (rule injI) (erule unsigned_word_eqI)
  from refine_sim [of "\<lambda>y. unat y \<le> ?f 0" "fatStep ts spc" unat ?f, OF step this, of ?x 10] x
  have "r = refine 10 ?f (?f 0)" by (simp add: r_def fat32FatSize_def)
  moreover have "?f (refine (2 * 5) ?f (?f 0)) \<le> refine (2 * 5) ?f (?f 0) \<and> refine (2 * 5) ?f (?f 0) \<le> ?f 0"
    by (rule refine_above) (simp_all add: fatNeed_antimono)
  ultimately show "?f r \<le> r" "32 + 2 * r \<le> unat ts" using B by simp_all
qed

lemma fat32Layout_consistent:
  assumes "fat32Layout partSize clusterSize = Inr l" "34 \<le> partSize div 512"
  shows "32 + 2 * unat (fl_fatSize l) + unat (fl_totalClusters l) * unat (fl_sectorsPerCluster l) \<le> unat (partSize div 512) \<and>
    (unat (fl_totalClusters l) + 2) * 4 \<le> unat (fl_fatSize l) * 512 \<and>
    unat (fl_dataStart l) = 32 + 2 * unat (fl_fatSize l) \<and> 65525 \<le> fl_totalClusters l \<and>
    fl_totalSectors l = partSize div 512 \<and> partSize div 512 \<le> 0xFFFFFFFF \<and>
    unat (fl_totalClusters l) = (unat (partSize div 512) - 32 - 2 * unat (fl_fatSize l)) div unat (fl_sectorsPerCluster l)"
proof -
  let ?ts = "partSize div 512" and ?spc = "fl_sectorsPerCluster l"
  have l: "?spc \<noteq> 0" "?ts \<le> 0xFFFFFFFF" "fl_fatSize l = fat32FatSize ?ts ?spc"
    "fl_dataStart l = 32 + 2 * ucast (fl_fatSize l)"
    "fl_totalClusters l = ucast ((?ts - fl_dataStart l) div ucast ?spc)" "65525 \<le> fl_totalClusters l" "fl_totalSectors l = ?ts"
    using assms(1) by (auto simp: fat32Layout_def Let_def split: if_splits)
  define r where "r = unat (fl_fatSize l)"
  have ts: "34 \<le> unat ?ts" "unat ?ts < 2 ^ 32" using assms(2) l(2) by (simp_all add: word_le_nat_alt)
  note r = fat32FatSize_above [OF ts l(1), folded l(3) r_def]
  have st: "unat (fl_dataStart l) = 32 + 2 * r"
    using r(2) ts(2) unfolding l(4) by (simp add: unat_word_ariths unat_ucast_up r_def)
  then have "unat (?ts - fl_dataStart l) = unat ?ts - 32 - 2 * r" using r(2) by (simp add: unat_sub_if')
  then have q: "unat ((?ts - fl_dataStart l) div ucast ?spc) = (unat ?ts - 32 - 2 * r) div unat ?spc"
    by (simp add: unat_div unat_ucast_up)
  moreover have "(unat ?ts - 32 - 2 * r) div unat ?spc \<le> unat ?ts" by (rule le_trans [OF div_le_dividend]) simp
  ultimately have c: "unat (fl_totalClusters l) = (unat ?ts - 32 - 2 * r) div unat ?spc"
    unfolding l(5) using ts(2) by (simp add: unsigned_ucast_eq take_bit_nat_eq_self)
  have "unat (fl_totalClusters l) * unat ?spc \<le> unat ?ts - 32 - 2 * r"
    unfolding c by (simp add: div_times_less_eq_dividend)
  then have fits: "32 + 2 * r + unat (fl_totalClusters l) * unat ?spc \<le> unat ?ts" using r(2) by linarith
  have "((unat (fl_totalClusters l) + 2) * 4 + 511) div 512 \<le> r" using r(1) by (simp add: c fatNeed_def)
  then have "(unat (fl_totalClusters l) + 2) * 4 + 511 < (r + 1) * 512"
    using div_less_iff_less_mult [of 512 "(unat (fl_totalClusters l) + 2) * 4 + 511" "r + 1"] by simp
  then have "(unat (fl_totalClusters l) + 2) * 4 \<le> r * 512" by simp
  with fits st l(2,6,7) c show ?thesis by (simp add: r_def)
qed


section \<open>The detector on a formatted volume\<close>

lemma length_fatLabel [simp]: "length (fatLabel label) = 11"
  by (auto simp: fatLabel_def ascii_def min_def)

lemma readLE16_signature: "Suc off < length buf \<Longrightarrow> readLE16 (buf[off := 0x55, Suc off := 0xAA]) off = 0xAA55"
  by (simp add: readLE16_def)

text \<open>The fields of the boot sector.\<close>

lemma fat32BootSector_fields:
  fixes l :: Fat32Layout and serial :: u32 and label :: bytes
  defines "b \<equiv> fat32BootSector l serial label"
  shows "length b = 512" "b ! 0 = 0xEB" "b ! 0x0D = fl_sectorsPerCluster l" "b ! 0x10 = 2" "b ! 0x15 = 0xF8"
    "readLE16 b 0x0B = 512" "readLE16 b 0x0E = 32" "readLE16 b 0x11 = 0" "readLE16 b 0x13 = 0" "readLE16 b 0x16 = 0"
    "readLE32 b 0x20 = ucast (fl_totalSectors l)" "readLE32 b 0x24 = fl_fatSize l" "readLE32 b 0x43 = serial"
    "slice 0x47 11 b = fatLabel label" "readLE16 b 510 = 0xAA55" "readLE16 b 0x30 = 1" "slice 3 8 b = ascii ''MSWIN4.1''"
  unfolding b_def fat32BootSector_def Let_def
  using readLE16_signature [of 510] by (simp_all add: buf_simps slice_blit_length ascii_def)

lemma dropWhile_spaces: "dropWhile (\<lambda>b. b = (32 :: u8)) (replicate k 32 @ xs) = dropWhile (\<lambda>b. b = 32) xs"
  by (induction k) simp_all

lemma trimSpaces_padded: "trimSpaces (xs @ replicate k 32) = trimSpaces xs"
  by (simp add: trimSpaces_def dropWhile_spaces)

lemma fatLabel_text:
  "trimSpaces (takeWhile (\<lambda>b. b \<noteq> 0) (fatLabel label)) =
     (if label = [] then ascii ''NO NAME'' else trimSpaces (takeWhile (\<lambda>b. b \<noteq> 0) (take 11 label)))"
proof (cases "label = []")
  case True
  then show ?thesis by (simp add: fatLabel_def ascii_def trimSpaces_def)
next
  case False
  show ?thesis
  proof (cases "0 \<in> set (take 11 label)")
    case True
    with False show ?thesis by (simp add: fatLabel_def takeWhile_append1 [of 0])
  next
    case nz: False
    have sp: "takeWhile (\<lambda>b. b \<noteq> 0) (replicate k 32) = replicate k (32 :: u8)" for k by (simp add: takeWhile_eq_all_conv)
    from nz have "takeWhile (\<lambda>b. b \<noteq> 0) (take 11 label) = take 11 label" by (auto simp: takeWhile_eq_all_conv)
    moreover from nz have "takeWhile (\<lambda>b. b \<noteq> 0) (take 11 label @ replicate k 32) = take 11 label @ replicate k 32" for k
      by (subst takeWhile_append2) (auto simp: sp)
    ultimately show ?thesis using False by (simp only: fatLabel_def trimSpaces_padded if_False if_True simp_thms)
  qed
qed

lemma unat_ucast_byte: "unat (ucast (b :: u8) :: u32) = unat b"
proof -
  have "unat b < 2 ^ 8" using unsigned_less [of b] by simp
  then show ?thesis by (simp add: unsigned_ucast_eq take_bit_nat_eq_self)
qed

lemma isPowerOf2_byte:
  assumes "spc \<noteq> 0" "spc AND (spc - 1) = (0 :: u8)"
  shows "isPowerOf2 (ucast spc)"
proof -
  have nz: "(ucast spc :: u32) \<noteq> 0" using assms(1) by (simp add: word_unat_eq_iff unat_ucast_byte)
  then have "unat (ucast (spc - 1) :: u32) = unat (ucast spc - 1 :: u32)"
    using assms(1) by (simp add: unat_ucast_byte unat_minus_one)
  then have "(ucast (spc - 1) :: u32) = ucast spc - 1" by (rule unsigned_word_eqI)
  then have "(ucast spc :: u32) AND (ucast spc - 1) = ucast (spc AND (spc - 1))" by (simp add: unsigned_and_eq)
  then show ?thesis using assms nz by (simp add: isPowerOf2_def)
qed

lemma fat32Layout_cluster:
  assumes "fat32Layout partSize clusterSize = Inr l"
  shows "fl_sectorsPerCluster l \<noteq> 0" "fl_sectorsPerCluster l AND (fl_sectorsPerCluster l - 1) = 0"
    "\<not> fl_totalClusters l < 65525" "\<not> fl_totalClusters l < 4085"
proof -
  show "fl_sectorsPerCluster l \<noteq> 0" "fl_sectorsPerCluster l AND (fl_sectorsPerCluster l - 1) = 0"
    using assms by (auto simp: fat32Layout_def Let_def split: if_splits)
  have "65525 \<le> fl_totalClusters l" using assms by (auto simp: fat32Layout_def Let_def not_less split: if_splits)
  then show "\<not> fl_totalClusters l < 65525" "\<not> fl_totalClusters l < 4085" by (simp_all add: word_less_nat_alt word_le_nat_alt)
qed

text \<open>The cluster count that a reader of the boot sector computes is the one of the layout.\<close>

lemma fat32BootSector_clusters:
  fixes serial :: u32 and label :: bytes
  assumes "fat32Layout partSize clusterSize = Inr l" "34 \<le> partSize div 512"
  defines "b \<equiv> fat32BootSector l serial label"
  shows "fatTotalSectors b = ucast (partSize div 512)" "fatDataStart b < fatTotalSectors b"
    "(fatTotalSectors b - fatDataStart b) div ucast (fl_sectorsPerCluster l) = fl_totalClusters l"
    "fatDataStart b = 32 + 2 * fl_fatSize l"
proof -
  let ?spc = "fl_sectorsPerCluster l" and ?ts = "partSize div 512"
  note f = fat32BootSector_fields [of l serial label, folded b_def] and c = fat32Layout_consistent [OF assms(1,2)]
    and spc = fat32Layout_cluster [OF assms(1)]
  have ts: "unat (ucast ?ts :: u32) = unat ?ts"
    using c by (simp add: unsigned_ucast_eq take_bit_nat_eq_self word_le_nat_alt)
  show start: "fatDataStart b = 32 + 2 * fl_fatSize l" by (simp add: fatDataStart_def Let_def f fatSizeOf_def)
  have "unat (32 + 2 * fl_fatSize l) = 32 + 2 * unat (fl_fatSize l)"
    using c by (simp add: unat_word_ariths word_le_nat_alt)
  then have st: "unat (fatDataStart b) = 32 + 2 * unat (fl_fatSize l)" by (simp add: start)
  have "0 < unat (fl_totalClusters l) * unat ?spc" using c spc(1) by (simp add: unat_gt_0 word_le_nat_alt)
  then have less: "32 + 2 * unat (fl_fatSize l) < unat ?ts" using c by linarith
  show total: "fatTotalSectors b = ucast ?ts" using c by (simp add: fatTotalSectors_def Let_def f)
  show "fatDataStart b < fatTotalSectors b" using less st ts by (simp add: total word_less_nat_alt)
  have "unat ((fatTotalSectors b - fatDataStart b) div ucast ?spc) = unat (fl_totalClusters l)"
    using c less st ts by (simp add: total unat_div unat_ucast_byte unat_sub_if')
  then show "(fatTotalSectors b - fatDataStart b) div ucast ?spc = fl_totalClusters l" by (rule unsigned_word_eqI)
qed

lemma fat32BootSector_label:
  "extractString (fat32BootSector l serial label) 0x47 11 =
     (if label = [] then ascii ''NO NAME'' else trimSpaces (takeWhile (\<lambda>b. b \<noteq> 0) (take 11 label)))"
  by (simp add: extractString_def fat32BootSector_fields fatLabel_text)

text \<open>
  C22. A volume that starts with the boot sector of \<open>formatFat32Large\<close> is recognized by the FAT probe as
  FAT32, with the cluster size, the serial number and the label that were written; a missing label,
  which is stored as \<open>NO NAME\<close>, reads as empty.
\<close>

theorem fat32_format_detected:
  assumes "fat32Layout partSize clusterSize = Inr l" "34 \<le> partSize div 512" "serial \<noteq> 0"
    and "safeRead readFunc 0 512 = fat32BootSector l serial label"
  shows "\<exists>d'. detectFat readFunc d = Some d' \<and> fd_type d' = FAT32 \<and> fd_uuid d' = serialText serial \<and>
    fd_blockSize d' = 512 * ucast (fl_sectorsPerCluster l) \<and>
    fd_label d' = (let t = trimSpaces (takeWhile (\<lambda>b. b \<noteq> 0) (take 11 label)) in
      if label = [] \<or> t = ascii ''NO NAME'' then [] else t)"
proof -
  let ?b = "fat32BootSector l serial label" and ?spc = "fl_sectorsPerCluster l"
  note f = fat32BootSector_fields [of l serial label]
  note c = fat32BootSector_clusters [OF assms(1,2), where serial = serial and label = label]
    and g = fat32Layout_cluster [OF assms(1)]
  have "isPowerOf2 (512 :: u32)" by (simp add: isPowerOf2_def)
  then have "fatBpbOk ?b"
    unfolding fatBpbOk_def Let_def f using g(1) isPowerOf2_byte [OF g(1,2)] by simp
  moreover have "fatTotalSectors ?b \<noteq> 0" using c(2) by auto
  ultimately show ?thesis
    using assms(3,4) c(2,3) g(3,4) by (auto simp: detectFat_def Let_def f not_le fat32BootSector_label)
qed


text \<open>
  A partition of 16 sectors is accepted as a FAT32 volume: the subtraction of the reserved sectors
  wraps around, the table is given no sectors at all, and the root directory, which the engine
  writes at the start of the data area, lies beyond the end of the partition.
\<close>

theorem fat32_tiny_accepted:
  "fat32Layout 8192 0 = Inr \<lparr>fl_totalSectors = 16, fl_sectorsPerCluster = 1, fl_fatSize = 0, fl_dataStart = 32,
     fl_totalClusters = 4294967280\<rparr>"
  by code_simp

section \<open>Witnesses\<close>

definition sample_fat32 :: Fat32Layout where
  "sample_fat32 = \<lparr>fl_totalSectors = 2097152, fl_sectorsPerCluster = 16, fl_fatSize = 1023, fl_dataStart = 2078,
     fl_totalClusters = 130942\<rparr>"

lemma sample_fat32_layout: "fat32Layout 1073741824 0 = Inr sample_fat32"
  by code_simp


theorem fat32_format_detected_witness:
  "\<exists>d'. detectFat (bufferRead (fat32BootSector sample_fat32 7 (ascii ''DATA''))) fd_default = Some d' \<and>
     fd_type d' = FAT32 \<and> fd_label d' = ascii ''DATA'' \<and> fd_blockSize d' = 8192"
proof -
  have "safeRead (bufferRead (fat32BootSector sample_fat32 7 (ascii ''DATA''))) 0 512 =
      fat32BootSector sample_fat32 7 (ascii ''DATA'')"
    using fat32BootSector_fields(1) [of sample_fat32 7 "ascii ''DATA''"]
    by (auto simp: safeRead_buffer byte_at_def intro!: nth_equalityI)
  from fat32_format_detected [OF sample_fat32_layout _ _ this, of fd_default] show ?thesis
    by (auto simp: sample_fat32_def ascii_def trimSpaces_def)
qed

end
