(* ===== verification/Format_Engine.thy ===== *)
theory Format_Engine
  imports Format_Device Format_Swap Format_Fat32
begin

text \<open>
  The methods of \<open>FormatEngine\<close> (\<open>src/core/filesystem/FormatEngine.cpp\<close>): the dispatch, the formatters
  that write ext, FAT32 and swap themselves, and the one that runs \<open>format.com\<close>.
\<close>

section \<open>The size of the partition\<close>

definition targetSize :: "'w Win32 \<Rightarrow> FormatTarget \<Rightarrow> 'w \<Rightarrow> u64 Result" where
  "targetSize W target w =
     (if ft_partitionSizeBytes target = 0 \<and> hasDriveLetter target then
        (case getSpaceInfo W (ft_driveLetter target) w of
           Inl e \<Rightarrow> fail FormatFailed ''Cannot determine volume size''
         | Inr space \<Rightarrow> Inr (vs_totalBytes space))
      else Inr (ft_partitionSizeBytes target))"

definition act_result :: "'a Result \<Rightarrow> ('a, 's, 'w) act" where
  "act_result r = (case r of Inl e \<Rightarrow> act_error e | Inr x \<Rightarrow> act_return x)"

definition act_run :: "'a run \<Rightarrow> ('a, 's, 'w) act" where
  "act_run r s w = run_bind r (\<lambda>x. Done (Inr x, [], s, w))"

definition act_withSize :: "'w Win32 \<Rightarrow> FormatTarget \<Rightarrow> (u64 \<Rightarrow> ('a, 's, 'w) act) \<Rightarrow> ('a, 's, 'w) act" where
  "act_withSize W target body = act_get (\<lambda>_ w. act_bind (act_result (targetSize W target w)) body)"

text \<open>A full format zeroes the partition first.\<close>

definition zeroFirst :: "'w Win32 \<Rightarrow> FormatTarget \<Rightarrow> FormatOptions \<Rightarrow> format_device \<Rightarrow> u64 \<Rightarrow> int \<Rightarrow> int \<Rightarrow> string \<Rightarrow>
    (unit, 's, 'w) act" where
  "zeroFirst W target options dev partSize start end status =
     (if fo_quickFormat options then act_return ()
      else act_then (report start status) (zeroDevice W dev partSize (ft_sectorSize target) start end))"

section \<open>ext2, ext3 and ext4\<close>

text \<open>
  The bitmap of group 0 as it is read back before the journal is marked in it; a failed read leaves it
  zero. On a disk the read covers whole sectors from the one that holds the bitmap's first byte.
\<close>

fun readBackBitmap :: "'w Win32 \<Rightarrow> u32 \<Rightarrow> format_device \<Rightarrow> ExtGeometry \<Rightarrow> 'w \<Rightarrow> bytes" where
  "readBackBitmap W ss (VolumeDevice vol) G w =
     (case readBytes W vol (blockOffset G (gl_blockBitmapBlock (groupLayout G 0))) (eg_blockSize G) w of
        Inl e \<Rightarrow> replicate (unat (eg_blockSize G)) 0 | Inr bs \<Rightarrow> bs)"
| "readBackBitmap W ss (RawDevice disk base) G w =
     padTo (unat (eg_blockSize G))
       (case readSectors W disk ((base + blockOffset G (gl_blockBitmapBlock (groupLayout G 0))) div ucast ss)
               (ucast ((eg_blockSize G + ss - 1) div ss)) ss w of
          Inl e \<Rightarrow> replicate (unat (eg_blockSize G)) 0 | Inr bs \<Rightarrow> bs)"
| "readBackBitmap W ss NoDevice G w = replicate (unat (eg_blockSize G)) 0"

definition ext_journal :: "'w Win32 \<Rightarrow> u32 \<Rightarrow> format_device \<Rightarrow> ExtGeometry \<Rightarrow> bytes \<Rightarrow> bytes \<Rightarrow> u32 \<Rightarrow> int \<Rightarrow> int \<Rightarrow>
    (unit, 's, 'w) act" where
  "ext_journal W ss dev G sb uuid now progressBase progressRange =
     (if eg_hasJournal G \<and> eg_journalBlocks G > 0 then
        act_then (runSteps W ss dev (journalSteps G uuid now progressBase progressRange))
          (act_get (\<lambda>_ w. let bitmap = readBackBitmap W ss dev G w in
             act_require (length bitmap = unat (eg_blockSize G)) (runSteps W ss dev (journalUpdateSteps G sb bitmap))))
      else act_return ())"

definition ext_body :: "'w env \<Rightarrow> FormatTarget \<Rightarrow> FormatOptions \<Rightarrow> u64 \<Rightarrow> ExtGeometry \<Rightarrow> bytes \<Rightarrow> bytes \<Rightarrow> u32 \<Rightarrow>
    format_device \<Rightarrow> (unit, 's, 'w) act" where
  "ext_body E target options partSize G uuid seed now dev =
     (let W = env_win32 E; ss = ft_sectorSize target; sb = extSuperblock options G uuid seed now;
          progressBase = (if fo_quickFormat options then 10 else 50);
          progressRange = (if fo_quickFormat options then 80 else 40)
      in act_then (zeroFirst W target options dev partSize 10 50 ''Zeroing volume (full format)...'')
         (act_require (eg_numGroups G \<noteq> 0)
         (act_bind (act_run (groupDescTable G)) (\<lambda>gdt.
          act_then (runSteps W ss dev (extSteps G sb gdt now progressBase progressRange))
            (ext_journal W ss dev G sb uuid now progressBase progressRange)))))"

definition formatExt :: "'w env \<Rightarrow> FormatTarget \<Rightarrow> FormatOptions \<Rightarrow> (unit, 's, 'w) act" where
  "formatExt E target options =
     (let W = env_win32 E in
      act_then (report 0 ''Preparing ext filesystem...'')
      (act_withSize W target (\<lambda>partSize.
       act_bind (act_result (extGeometry options partSize)) (\<lambda>G.
       act_then (report 5 ''Calculated filesystem geometry...'')
       (act_get (\<lambda>_ w0.
        let uuid = randomUuid (env_random E w0); seed = map (env_random E w0) [16..<32]; now = env_now E w0 in
        act_then (report 10 ''Opening device for writing...'')
          (withDevice W target (ext_body E target options partSize G uuid seed now)
            (report 100 ''ext filesystem created successfully''))))))))"

section \<open>FAT32\<close>

text \<open>A file allocation table is written in pieces of one mebibyte, the first with the reserved entries.\<close>

abbreviation (input) FAT_CHUNK :: nat where "FAT_CHUNK \<equiv> 1048576"

function fatChunks :: "u64 \<Rightarrow> nat \<Rightarrow> bool \<Rightarrow> format_step list" where
  "fatChunks pos remaining firstChunk =
     (if remaining = 0 then []
      else
        (let n = min remaining FAT_CHUNK; chunk = replicate n 0
         in WriteStep pos (if firstChunk then fat32FirstEntries chunk else chunk) #
              fatChunks (pos + of_nat n) (remaining - n) False))"
  by pat_completeness auto
termination by (relation "measure (\<lambda>(pos, remaining, firstChunk). remaining)") auto

declare fatChunks.simps [simp del]

definition fatCopySteps :: "Fat32Layout \<Rightarrow> int \<Rightarrow> nat \<Rightarrow> format_step list" where
  "fatCopySteps l pBase fatCopy =
     fatChunks (ucast (32 + of_nat fatCopy * fl_fatSize l) * 512) (unat (fl_fatSize l * 512)) True @
     [ReportStep (pBase + 10 + (int fatCopy + 1) * 30 sdiv 2)
        (''FAT '' @ dec (fatCopy + 1) @ ''/2 written'')]"

definition fat32Steps :: "Fat32Layout \<Rightarrow> u32 \<Rightarrow> bytes \<Rightarrow> int \<Rightarrow> format_step list" where
  "fat32Steps l serial label pBase =
     (let boot = fat32BootSector l serial label; fsInfo = fat32FsInfo l in
      [WriteStep 0 boot, WriteStep 512 fsInfo, WriteStep (6 * 512) boot, WriteStep (7 * 512) fsInfo,
       ReportStep (pBase + 5) ''Writing FAT tables...''] @
      fatCopySteps l pBase 0 @ fatCopySteps l pBase 1 @
      [ReportStep (pBase + 50) ''Writing root directory...'',
       WriteStep (fl_dataStart l * 512) (fat32RootCluster l label)])"

definition formatFat32Large :: "'w env \<Rightarrow> FormatTarget \<Rightarrow> FormatOptions \<Rightarrow> (unit, 's, 'w) act" where
  "formatFat32Large E target options =
     (let W = env_win32 E in
      act_then (report 0 ''Preparing FAT32 (large volume)...'')
      (act_withSize W target (\<lambda>partSize.
       act_bind (act_result (fat32Layout partSize (fo_clusterSize options))) (\<lambda>l.
       act_then (report 5 ''Building BPB...'')
       (act_get (\<lambda>_ w0.
        let serial = generateSerial (env_random E w0) in
        act_then (report 10 ''Opening device...'')
          (withDevice W target
            (\<lambda>dev.
               act_then (zeroFirst W target options dev partSize 10 50 ''Zeroing volume (full format)...'')
                 (runSteps W (ft_sectorSize target) dev
                   (fat32Steps l serial (fo_volumeLabel options) (if fo_quickFormat options then 15 else 55))))
            (act_then (notifyTarget W target) (report 100 ''FAT32 format complete'')))))))))"

section \<open>Linux swap\<close>

fun writeSwapPage :: "'w Win32 \<Rightarrow> u32 \<Rightarrow> u32 \<Rightarrow> format_device \<Rightarrow> bytes \<Rightarrow> (unit Result, 'w) io" where
  "writeSwapPage W ss pageSize (VolumeDevice vol) page w = writeBytes W vol 0 (Some page) pageSize w"
| "writeSwapPage W ss pageSize (RawDevice disk base) page w =
     require (ss \<noteq> 0)
       (writeSectors W disk (base div ucast ss) (Some page) (ucast ((pageSize + ss - 1) div ss)) ss w)"
| "writeSwapPage W ss pageSize NoDevice page w = Done (fail DiskWriteError ''No handle'', w)"

definition formatLinuxSwap :: "'w env \<Rightarrow> FormatTarget \<Rightarrow> FormatOptions \<Rightarrow> (unit, 's, 'w) act" where
  "formatLinuxSwap E target options =
     (let W = env_win32 E in
      act_then (report 0 ''Preparing Linux swap...'')
      (act_withSize W target (\<lambda>partSize.
       let pageSize = (if fo_swapPageSize options = 0 then 4096 else fo_swapPageSize options) in
       if partSize < ucast (2 * pageSize) then
         act_error (fromCode PartitionTooSmall ''Partition too small for Linux swap'')
       else
         act_get (\<lambda>_ w0.
         act_bind (act_run (swapPage pageSize partSize (randomUuid (env_random E w0)) (fo_volumeLabel options))) (\<lambda>page.
         act_then (report 20 ''Opening device...'')
           (withDevice W target
             (\<lambda>dev.
                act_then (zeroFirst W target options dev partSize 20 70 ''Zeroing volume...'')
                (act_then (report 80 ''Writing swap header...'')
                  (act_io (writeSwapPage W (ft_sectorSize target) pageSize dev page))))
             (report 100 ''Linux swap created successfully'')))))))"

section \<open>Formatting with Windows\<close>

definition windowsFsName :: "FilesystemType \<Rightarrow> string option" where
  "windowsFsName fs =
     (case fs of
        NTFS \<Rightarrow> Some ''NTFS'' | FAT32 \<Rightarrow> Some ''FAT32'' | FAT16 \<Rightarrow> Some ''FAT'' | FAT12 \<Rightarrow> Some ''FAT''
      | ExFAT \<Rightarrow> Some ''exFAT'' | ReFS \<Rightarrow> Some ''ReFS'' | _ \<Rightarrow> None)"

definition formatArgs :: "'w env \<Rightarrow> u16 \<Rightarrow> string \<Rightarrow> FormatOptions \<Rightarrow> wstr list" where
  "formatArgs E driveLetter fsName options =
     [[driveLetter, 58], widen (''/FS:'' @ fsName), widen ''/Y'', widen ''/X''] @
     (if fo_quickFormat options then [widen ''/Q''] else []) @
     [if fo_volumeLabel options \<noteq> [] then widen ''/V:'' @ env_fromUtf8 E (fo_volumeLabel options) else widen ''/V:''] @
     (if fo_clusterSize options > 0 then [widen (''/A:'' @ dec (unat (fo_clusterSize options)))] else [])"

definition runFormatTool :: "'w env \<Rightarrow> wstr list \<Rightarrow> (unit, 's, 'w) act" where
  "runFormatTool E args s w =
     (case env_formatTool E args w of
        (ProcessNotStarted msg, w') \<Rightarrow> Done (fail FormatFailed (''Failed to start format.com: '' @ msg), [], s, w')
      | (ProcessRan chunks exitCode stdOutput errOutput, w') \<Rightarrow>
          (let ps = outputReports [''percent''] (\<lambda>pct. 10 + (pct * 80) sdiv 100) ''Formatting... '' chunks in
           if exitCode \<noteq> 0 then
             Done (fail FormatFailed
               (''format.com exited with code '' @ show_int exitCode @ '': '' @ stdOutput @ errOutput), ps, s, w')
           else Done (ok, ps, s, w')))"

definition formatWithWindowsTool :: "'w env \<Rightarrow> FormatTarget \<Rightarrow> FormatOptions \<Rightarrow> (unit, 's, 'w) act" where
  "formatWithWindowsTool E target options =
     (if \<not> hasDriveLetter target then
        act_error (fromCode InvalidArgument ''Windows format requires a drive letter'')
      else
        act_then (report 0 ''Preparing to format with Windows...'')
        (case windowsFsName (fo_targetFs options) of
           None \<Rightarrow> act_error (fromCode FilesystemNotSupported ''Windows format.com does not support this filesystem'')
         | Some fsName \<Rightarrow>
             act_then (report 10 ''Running format.com...'')
             (act_then (runFormatTool E (formatArgs E (ft_driveLetter target) fsName options))
             (act_then (report 95 ''Notifying system of changes...'')
             (act_then (act_ignore (notifyPartitionChangeLetter (ft_driveLetter target)))
               (report 100 ''Format complete''))))))"

section \<open>The dispatch\<close>

definition format_partition :: "'w env \<Rightarrow> FormatTarget \<Rightarrow> FormatOptions \<Rightarrow> (unit, 's, 'w) act" where
  "format_partition E target options =
     (if \<not> isFormatSupported (fo_targetFs options) then
        act_error (fromCode FilesystemNotSupported ''Filesystem type not supported for formatting'')
      else if \<not> hasDriveLetter target \<and> \<not> hasRawTarget target then
        act_error (fromCode InvalidArgument
          ''Format target must specify either a drive letter or raw disk + offset'')
      else
        (case fo_targetFs options of
           Ext2 \<Rightarrow> formatExt E target options
         | Ext3 \<Rightarrow> formatExt E target options
         | Ext4 \<Rightarrow> formatExt E target options
         | SWAP_LINUX \<Rightarrow> formatLinuxSwap E target options
         | FAT32 \<Rightarrow>
             if fo_forceFat32Large options \<or> ft_partitionSizeBytes target > 32 * 1024 * 1024 * 1024
             then formatFat32Large E target options else formatWithWindowsTool E target options
         | NTFS \<Rightarrow> formatWithWindowsTool E target options
         | FAT16 \<Rightarrow> formatWithWindowsTool E target options
         | FAT12 \<Rightarrow> formatWithWindowsTool E target options
         | ExFAT \<Rightarrow> formatWithWindowsTool E target options
         | ReFS \<Rightarrow> formatWithWindowsTool E target options
         | _ \<Rightarrow> act_error (fromCode FilesystemNotSupported ''Unexpected filesystem type in format dispatch'')))"

section \<open>Handles\<close>

lemma act_keeps_pure [act_intros]: "act_keeps f (act_result r)" "act_keeps f (act_run m)"
  by (auto simp: act_keeps_def act_result_def act_run_def act_simple_Done run_bind_Done_iff split: sum.splits)

lemma act_withSize_keeps [act_intros]:
  "(\<And>n. act_keeps f (body n)) \<Longrightarrow> act_keeps f (act_withSize W target body)"
  unfolding act_withSize_def by (intro act_intros)

lemma zeroFirst_handles [act_intros]:
  "handle_laws W V \<Longrightarrow> act_keeps (handles V) (zeroFirst W target options dev partSize start end status)"
  unfolding zeroFirst_def by (intro act_intros)

lemma ext_body_handles [act_intros]:
  assumes "handle_laws (env_win32 E) V"
  shows "act_keeps (handles V) (ext_body E target options partSize G uuid seed now dev)"
  unfolding ext_body_def ext_journal_def Let_def by (intro act_intros assms)

lemma writeSwapPage_handles [keeps_intros]:
  assumes "handle_laws W V"
  shows "keeps (handles V) (writeSwapPage W ss pageSize dev page)"
  using keepsD [OF writeBytes_handles [OF assms]] keepsD [OF writeSectors_handles [OF assms]]
  by (cases dev) (auto simp: keeps_def require_Done_iff)

lemma runFormatTool_handles [act_intros]:
  assumes "process_law E V"
  shows "act_keeps (handles V) (runFormatTool E args)"
  using process_lawD(2) [OF assms]
  by (auto simp: act_keeps_def runFormatTool_def Let_def split: prod.splits process_run.splits if_splits)

lemma format_handles:
  assumes "handle_laws (env_win32 E) V"
  shows "act_keeps (handles V) (formatExt E target options)"
    "act_keeps (handles V) (formatFat32Large E target options)"
    "act_keeps (handles V) (formatLinuxSwap E target options)"
  unfolding formatExt_def formatFat32Large_def formatLinuxSwap_def Let_def
  by (intro act_intros keeps_intros assms)+

lemma windows_handles:
  assumes "process_law E V"
  shows "act_keeps (handles V) (formatWithWindowsTool E target options)"
  unfolding formatWithWindowsTool_def notifyPartitionChangeLetter_def by (intro act_intros keeps_intros assms)

lemma format_partition_handles [act_intros]:
  assumes "handle_laws (env_win32 E) V" "process_law E V"
  shows "act_keeps (handles V) (format_partition E target options)"
  unfolding format_partition_def
  by (cases "fo_targetFs options") (simp_all add: format_handles [OF assms(1)] windows_handles [OF assms(2)] act_intros)

end
