(* ===== verification/Partition_Operations.thy ===== *)
theory Partition_Operations
  imports Operation_Utils Operation_Queue Format_Engine
begin

text \<open>
  The operations of \<open>src/core/operations/PartitionOperations.cpp\<close>: create, delete, resize and format a
  partition, set its label and flags, check its file system, each with its undo, and the class of
  operations they form for the queue.

  An operation runs in the environment of \<open>Environment\<close>; formatting is \<open>Format_Engine\<close>.
\<close>

section \<open>Formatting and locking\<close>

text \<open>The format engine, with its progress passed through a callback.\<close>

definition act_format :: "'w env \<Rightarrow> (int \<Rightarrow> int) \<Rightarrow> FormatTarget \<Rightarrow> FormatOptions \<Rightarrow> (unit, 's, 'w) act" where
  "act_format E callback target options s w =
     run_bind (format_partition E target options s w) (\<lambda>(r, ps, s', w').
       Done (r, map (\<lambda>(pct, status). (callback pct, status)) ps, s', w'))"

text \<open>
  The scope of an owned volume handle. After an error its destructor runs; at the end of a successful
  run the volume is unlocked and closed first.
\<close>

definition releaseVolume :: "'w Win32 \<Rightarrow> VolumeHandle \<Rightarrow> 'w \<Rightarrow> 'w" where
  "releaseVolume W vol w =
     (case vol_unlock W vol w of (_, vol, w) \<Rightarrow> (case vol_close W vol w of (vol, w) \<Rightarrow> vol_destroy W vol w))"

definition withVolume :: "'w Win32 \<Rightarrow> u16 \<Rightarrow> ('a, 's, 'w) act \<Rightarrow> ('a, 's, 'w) act" where
  "withVolume W driveLetter body =
     (if driveLetter = 0 then body
      else
        act_then (report 5 ''Locking and dismounting volume...'')
          (act_bind (act_io (lockAndDismountVolume W driveLetter)) (\<lambda>vol s w.
             run_bind (body s w) (\<lambda>(r, ps, s', w').
               Done (r, ps, s', if isOk r then releaseVolume W vol w' else vol_destroy W vol w')))))"

section \<open>Create\<close>

record CreateParams =
  cr_diskId :: int
  cr_startLba :: u64
  cr_sectorCount :: u64
  cr_sectorSize :: u32
  cr_mbrType :: u8
  cr_isActive :: bool
  cr_isLogical :: bool
  cr_typeGuid :: Guid
  cr_gptName :: bytes
  cr_formatAfter :: bool
  cr_formatOptions :: FormatOptions

definition cr_default :: CreateParams where
  "cr_default = \<lparr>cr_diskId = -1, cr_startLba = 0, cr_sectorCount = 0, cr_sectorSize = SECTOR_SIZE_512,
     cr_mbrType = MbrTypes_NTFS_HPFS, cr_isActive = False, cr_isLogical = False, cr_typeGuid = guid_zero,
     cr_gptName = [], cr_formatAfter = False, cr_formatOptions = fo_default\<rparr>"

record CreatePartitionOp =
  create_params :: CreateParams
  create_createdIndex :: int

definition newCreateOp :: "CreateParams \<Rightarrow> CreatePartitionOp" where
  "newCreateOp p = \<lparr>create_params = p, create_createdIndex = -1\<rparr>"

definition create_description :: "'w env \<Rightarrow> CreatePartitionOp \<Rightarrow> string" where
  "create_description E op =
     (let p = create_params op in
      ''Create '' @ formatSize (env_fixed E) (cr_sectorCount p * ucast (cr_sectorSize p)) @ '' partition on disk '' @
      show_int (cr_diskId p) @ '' at LBA '' @ dec (unat (cr_startLba p)))"

definition createPartParams :: "CreateParams \<Rightarrow> PartitionTable \<Rightarrow> PartitionParams" where
  "createPartParams p table =
     \<lparr>pp_startLba = cr_startLba p, pp_sectorCount = cr_sectorCount p, pp_mbrType = cr_mbrType p,
      pp_typeGuid = (if pt_type table = GPT \<and> guid_isZero (cr_typeGuid p) then GptTypes_microsoftBasicData
                     else cr_typeGuid p),
      pp_gptName = cr_gptName p, pp_isActive = cr_isActive p, pp_isLogical = cr_isLogical p\<rparr>"

definition createdIndex :: "CreateParams \<Rightarrow> PartitionEntry list \<Rightarrow> int \<Rightarrow> int" where
  "createdIndex p entries old =
     (case find (\<lambda>e. pe_startLba e = cr_startLba p \<and> pe_sectorCount e = cr_sectorCount p) entries of
        None \<Rightarrow> old | Some e \<Rightarrow> pe_index e)"

definition create_format :: "'w env \<Rightarrow> CreateParams \<Rightarrow> (unit, CreatePartitionOp, 'w) act" where
  "create_format E p =
     (if cr_formatAfter p then
        act_then (report 65 ''Formatting new partition...'')
          (act_format E (\<lambda>pct. 65 + (pct * 30) sdiv 100)
             (ft_default\<lparr>ft_diskIndex := cr_diskId p,
                ft_partitionOffsetBytes := cr_startLba p * ucast (cr_sectorSize p),
                ft_partitionSizeBytes := cr_sectorCount p * ucast (cr_sectorSize p),
                ft_sectorSize := cr_sectorSize p\<rparr>)
             (cr_formatOptions p))
      else act_return ())"

definition create_run :: "'w env \<Rightarrow> CreateParams \<Rightarrow> (unit, CreatePartitionOp, 'w) act" where
  "create_run E p =
     (let W = env_win32 E in
     act_then (report 0 ''Reading partition table...'')
     (act_bind (act_io (readPartitionTable W (cr_diskId p) (cr_sectorSize p))) (\<lambda>table.
      act_then (report 20 ''Adding partition entry...'')
      (act_get (\<lambda>_ w.
       case pt_addPartition (env_random E w) (createPartParams p table) table of
         (Inl e, table) \<Rightarrow> act_error e
       | (Inr _, table) \<Rightarrow>
           act_then (report 40 ''Writing partition table...'')
           (act_then (act_io (writePartitionTable W (cr_diskId p) table (cr_sectorSize p)))
           (act_then (report 60 ''Notifying kernel...'')
           (act_then (act_ignore (notifyKernel W (cr_diskId p)))
           (act_then (act_update (create_createdIndex_update (createdIndex p (pt_partitions table))))
           (act_then (create_format E p)
             (report 100 ''Partition created successfully'')))))))))))"

definition create_execute :: "'w env \<Rightarrow> (unit, CreatePartitionOp, 'w) act" where
  "create_execute E op w = create_run E (create_params op) op w"

definition create_undo :: "'w env \<Rightarrow> (unit, CreatePartitionOp, 'w) act" where
  "create_undo E = act_get (\<lambda>op w0.
     let p = create_params op; W = env_win32 E in
     if create_createdIndex op < 0 then act_error (fromCode InvalidArgument ''No partition to undo'')
     else
       act_bind (act_io (readPartitionTable W (cr_diskId p) (cr_sectorSize p))) (\<lambda>table.
         case pt_deletePartition (create_createdIndex op) table of
           (Inl e, table) \<Rightarrow> act_error e
         | (Inr _, table) \<Rightarrow>
             act_then (act_io (writePartitionTable W (cr_diskId p) table (cr_sectorSize p)))
             (act_then (act_ignore (notifyKernel W (cr_diskId p)))
               (act_update (create_createdIndex_update (\<lambda>_. -1))))))"

definition create_canUndo :: "CreatePartitionOp \<Rightarrow> bool" where
  "create_canUndo op \<longleftrightarrow> 0 \<le> create_createdIndex op"

section \<open>Delete\<close>

record DeleteParams =
  de_diskId :: int
  de_partitionIndex :: int
  de_sectorSize :: u32
  de_driveLetter :: u16
  de_wipeFirstSectors :: bool

record DeletePartitionOp =
  delete_params :: DeleteParams
  delete_savedEntry :: "PartitionEntry option"

definition newDeleteOp :: "DeleteParams \<Rightarrow> DeletePartitionOp" where
  "newDeleteOp p = \<lparr>delete_params = p, delete_savedEntry = None\<rparr>"

definition delete_description :: "DeletePartitionOp \<Rightarrow> string" where
  "delete_description op = ''Delete partition '' @ show_int (de_partitionIndex (delete_params op)) @ '' on disk '' @
     show_int (de_diskId (delete_params op))"

text \<open>The loops that save the entry with a given index keep an earlier value when there is none.\<close>

definition saveEntry :: "int \<Rightarrow> PartitionEntry list \<Rightarrow> PartitionEntry option \<Rightarrow> PartitionEntry option" where
  "saveEntry index entries saved =
     (case find (\<lambda>e. pe_index e = index) entries of None \<Rightarrow> saved | Some e \<Rightarrow> Some e)"

definition notFound :: "int \<Rightarrow> ErrorInfo" where
  "notFound index = fromCode PartitionNotFound (''Partition index '' @ show_int index @ '' not found'')"

definition wipeSignatures :: "'w Win32 \<Rightarrow> int \<Rightarrow> u64 \<Rightarrow> u32 \<Rightarrow> (unit Result, 'w) io" where
  "wipeSignatures W diskId partStartLba sectorSize =
     withDisk W diskId ReadWrite (\<lambda>disk.
       let zeros = replicate 4096 0;
           n = ucast (4096 div sectorSize);
           wipeSecCount = (if n = 0 then 1 else n)
       in io_bind (writeSectors W disk partStartLba (Some zeros) wipeSecCount sectorSize) (\<lambda>_.
            io_ignore (rawFlushBuffers W disk)))"

definition delete_execute :: "'w env \<Rightarrow> (unit, DeletePartitionOp, 'w) act" where
  "delete_execute E = act_get (\<lambda>op w0.
     let p = delete_params op; W = env_win32 E in
     act_then (report 0 ''Preparing to delete partition...'')
     (act_then (withVolume W (de_driveLetter p)
        (act_then (report 15 ''Reading partition table...'')
        (act_bind (act_io (readPartitionTable W (de_diskId p) (de_sectorSize p))) (\<lambda>table.
         let saved = saveEntry (de_partitionIndex p) (pt_partitions table) (delete_savedEntry op) in
         act_then (act_update (delete_savedEntry_update (\<lambda>_. saved)))
         (case saved of
            None \<Rightarrow> act_error (notFound (de_partitionIndex p))
          | Some entry \<Rightarrow>
              act_then
                (if de_wipeFirstSectors p then
                   act_then (report 25 ''Wiping filesystem signatures...'')
                     (act_ignore (wipeSignatures W (de_diskId p) (pe_startLba entry) (de_sectorSize p)))
                 else act_return ())
              (act_then (report 50 ''Deleting partition entry...'')
              (case pt_deletePartition (de_partitionIndex p) table of
                 (Inl e, table) \<Rightarrow> act_error e
               | (Inr _, table) \<Rightarrow>
                   act_then (report 70 ''Writing partition table...'')
                   (act_then (act_io (writePartitionTable W (de_diskId p) table (de_sectorSize p)))
                   (act_then (report 90 ''Notifying kernel...'')
                     (act_ignore (notifyKernel W (de_diskId p))))))))))))
       (report 100 ''Partition deleted successfully'')))"

definition restoreParams :: "PartitionEntry \<Rightarrow> PartitionParams" where
  "restoreParams e =
     \<lparr>pp_startLba = pe_startLba e, pp_sectorCount = pe_sectorCount e, pp_mbrType = pe_mbrType e,
      pp_typeGuid = pe_typeGuid e, pp_gptName = pe_gptName e, pp_isActive = pe_isActive e,
      pp_isLogical = pe_isLogical e\<rparr>"

definition delete_undo :: "'w env \<Rightarrow> (unit, DeletePartitionOp, 'w) act" where
  "delete_undo E = act_get (\<lambda>op w0.
     let p = delete_params op; W = env_win32 E in
     case delete_savedEntry op of
       None \<Rightarrow> act_error (fromCode InvalidArgument ''No saved partition entry for undo'')
     | Some entry \<Rightarrow>
         act_bind (act_io (readPartitionTable W (de_diskId p) (de_sectorSize p))) (\<lambda>table.
         act_get (\<lambda>_ w.
           case pt_addPartition (env_random E w) (restoreParams entry) table of
             (Inl e, table) \<Rightarrow> act_error e
           | (Inr _, table) \<Rightarrow>
               act_then (act_io (writePartitionTable W (de_diskId p) table (de_sectorSize p)))
                 (act_ignore (notifyKernel W (de_diskId p))))))"

definition delete_canUndo :: "DeletePartitionOp \<Rightarrow> bool" where
  "delete_canUndo op \<longleftrightarrow> delete_savedEntry op \<noteq> None"

section \<open>Resize\<close>

record ResizeParams =
  rs_diskId :: int
  rs_partitionIndex :: int
  rs_sectorSize :: u32
  rs_driveLetter :: u16
  rs_newStartLba :: u64
  rs_newSectorCount :: u64

record ResizePartitionOp =
  resize_params :: ResizeParams
  resize_savedEntry :: "PartitionEntry option"

definition newResizeOp :: "ResizeParams \<Rightarrow> ResizePartitionOp" where
  "newResizeOp p = \<lparr>resize_params = p, resize_savedEntry = None\<rparr>"

definition resize_description :: "'w env \<Rightarrow> ResizePartitionOp \<Rightarrow> string" where
  "resize_description E op =
     (let p = resize_params op in
      ''Resize partition '' @ show_int (rs_partitionIndex p) @ '' on disk '' @ show_int (rs_diskId p) @ '' to '' @
      formatSize (env_fixed E) (rs_newSectorCount p * ucast (rs_sectorSize p)))"

text \<open>The branch for a shrinking NTFS volume is empty in the source.\<close>

definition resize_execute :: "'w env \<Rightarrow> (unit, ResizePartitionOp, 'w) act" where
  "resize_execute E = act_get (\<lambda>op w0.
     let p = resize_params op; W = env_win32 E in
     act_then (report 0 ''Preparing to resize partition...'')
     (act_then (withVolume W (rs_driveLetter p)
        (act_then (report 15 ''Reading partition table...'')
        (act_bind (act_io (readPartitionTable W (rs_diskId p) (rs_sectorSize p))) (\<lambda>table.
         let saved = saveEntry (rs_partitionIndex p) (pt_partitions table) (resize_savedEntry op) in
         act_then (act_update (resize_savedEntry_update (\<lambda>_. saved)))
         (if saved = None then act_error (notFound (rs_partitionIndex p))
          else if rs_newSectorCount p = 0 then
            act_error (fromCode InvalidArgument ''New sector count cannot be zero'')
          else
            act_then (report 30 ''Updating partition entry...'')
            (case pt_resizePartition (rs_partitionIndex p) (rs_newStartLba p) (rs_newSectorCount p) table of
               (Inl e, table) \<Rightarrow> act_error e
             | (Inr _, table) \<Rightarrow>
                 act_then (report 60 ''Writing partition table...'')
                 (act_then (act_io (writePartitionTable W (rs_diskId p) table (rs_sectorSize p)))
                 (act_then (report 80 ''Notifying kernel...'')
                   (act_ignore (notifyKernel W (rs_diskId p)))))))))))
       (report 100 ''Partition resized successfully'')))"

definition resize_undo :: "'w env \<Rightarrow> (unit, ResizePartitionOp, 'w) act" where
  "resize_undo E = act_get (\<lambda>op w0.
     let p = resize_params op; W = env_win32 E in
     case resize_savedEntry op of
       None \<Rightarrow> act_error (fromCode InvalidArgument ''No saved partition entry for undo'')
     | Some entry \<Rightarrow>
         act_bind (act_io (readPartitionTable W (rs_diskId p) (rs_sectorSize p))) (\<lambda>table.
           case pt_resizePartition (rs_partitionIndex p) (pe_startLba entry) (pe_sectorCount entry) table of
             (Inl e, table) \<Rightarrow> act_error e
           | (Inr _, table) \<Rightarrow>
               act_then (act_io (writePartitionTable W (rs_diskId p) table (rs_sectorSize p)))
                 (act_ignore (notifyKernel W (rs_diskId p)))))"

definition resize_canUndo :: "ResizePartitionOp \<Rightarrow> bool" where
  "resize_canUndo op \<longleftrightarrow> resize_savedEntry op \<noteq> None"

section \<open>Format\<close>

record FormatParams =
  fm_target :: FormatTarget
  fm_options :: FormatOptions
  fm_diskId :: int
  fm_partitionIndex :: int

record FormatPartitionOp =
  format_params :: FormatParams

definition formatFsName :: "FilesystemType \<Rightarrow> string" where
  "formatFsName fs =
     (case fs of
        NTFS \<Rightarrow> ''NTFS'' | FAT32 \<Rightarrow> ''FAT32'' | FAT16 \<Rightarrow> ''FAT16'' | FAT12 \<Rightarrow> ''FAT12'' | ExFAT \<Rightarrow> ''exFAT''
      | ReFS \<Rightarrow> ''ReFS'' | Ext2 \<Rightarrow> ''ext2'' | Ext3 \<Rightarrow> ''ext3'' | Ext4 \<Rightarrow> ''ext4'' | SWAP_LINUX \<Rightarrow> ''Linux swap''
      | _ \<Rightarrow> ''Unknown'')"

definition format_description :: "FormatPartitionOp \<Rightarrow> string" where
  "format_description op =
     (let p = format_params op; fsName = formatFsName (fo_targetFs (fm_options p)) in
      if hasDriveLetter (fm_target p) then
        ''Format '' @ letterChar (ft_driveLetter (fm_target p)) @ '': as '' @ fsName
      else
        ''Format partition '' @ show_int (fm_partitionIndex p) @ '' on disk '' @ show_int (fm_diskId p) @ '' as '' @ fsName)"

definition format_execute :: "'w env \<Rightarrow> (unit, FormatPartitionOp, 'w) act" where
  "format_execute E = act_get (\<lambda>op w0.
     act_format E (\<lambda>pct. pct) (fm_target (format_params op)) (fm_options (format_params op)))"

section \<open>Set label\<close>

record LabelParams =
  lb_driveLetter :: u16
  lb_newLabel :: bytes
  lb_diskId :: int
  lb_partitionIndex :: int
  lb_partitionOffsetBytes :: u64
  lb_sectorSize :: u32
  lb_fsType :: FilesystemType

record SetLabelOp =
  label_params :: LabelParams
  label_oldLabel :: bytes
  label_oldLabelSaved :: bool

definition newLabelOp :: "LabelParams \<Rightarrow> SetLabelOp" where
  "newLabelOp p = \<lparr>label_params = p, label_oldLabel = [], label_oldLabelSaved = False\<rparr>"

definition byteText :: "bytes \<Rightarrow> string" where
  "byteText bs = map (\<lambda>b. char_of (unat b)) bs"

definition label_description :: "SetLabelOp \<Rightarrow> string" where
  "label_description op =
     (let p = label_params op; quoted = CHR 0x22 # byteText (lb_newLabel p) @ [CHR 0x22] in
      if lb_driveLetter p \<noteq> 0 then ''Set label of '' @ letterChar (lb_driveLetter p) @ '': to '' @ quoted
      else ''Set label of partition '' @ show_int (lb_partitionIndex p) @ '' to '' @ quoted)"

text \<open>
  Labels as wide strings: a \<open>char\<close> is signed, so it is sign-extended; in the other direction
  characters outside ASCII are dropped.
\<close>

definition widenLabel :: "bytes \<Rightarrow> wstr" where
  "widenLabel label = map scast label"

definition narrowLabel :: "wstr \<Rightarrow> bytes" where
  "narrowLabel wLabel = map ucast (filter (\<lambda>ch. ch < 128) wLabel)"

definition label_volume :: "'w env \<Rightarrow> LabelParams \<Rightarrow> (unit, SetLabelOp, 'w) act" where
  "label_volume E p =
     act_then (report 10 ''Reading current label...'')
     (act_then
        (act_get (\<lambda>_ w.
           case getFilesystemInfo (env_win32 E) (lb_driveLetter p) w of
             Inl _ \<Rightarrow> act_return ()
           | Inr info \<Rightarrow>
               act_update (\<lambda>op. op\<lparr>label_oldLabel := narrowLabel (vf_volumeLabel info), label_oldLabelSaved := True\<rparr>)))
     (act_then (report 30 ''Applying new label...'')
     (act_then
        (act_io (\<lambda>w.
           case SetVolumeLabelW (env_win32 E) (rootPath (lb_driveLetter p)) (widenLabel (lb_newLabel p)) w of
             (Inl err, w') \<Rightarrow> Done (Inl (fromWin32 FormatFailed err ''SetVolumeLabelW failed''), w')
           | (Inr _, w') \<Rightarrow> Done (ok, w')))
        (report 100 ''Label set successfully''))))"

text \<open>A scope that owns a raw disk handle.\<close>

definition isExt :: "FilesystemType \<Rightarrow> bool" where
  "isExt fs \<longleftrightarrow> fs = Ext2 \<or> fs = Ext3 \<or> fs = Ext4"

text \<open>The sectors that hold the superblock of an ext file system, and its place in them.\<close>

definition sbLba :: "u64 \<Rightarrow> u32 \<Rightarrow> u64" where
  "sbLba partitionOffsetBytes sectorSize = (partitionOffsetBytes + 1024) div ucast sectorSize"

definition sbSectors :: "u32 \<Rightarrow> u64" where
  "sbSectors sectorSize = ucast ((1024 + sectorSize - 1) div sectorSize)"

definition sbStartInBuf :: "u64 \<Rightarrow> u32 \<Rightarrow> u32" where
  "sbStartInBuf partitionOffsetBytes sectorSize = ucast ((partitionOffsetBytes + 1024) mod ucast sectorSize)"

text \<open>The label field is 16 bytes at 0x78, the write time 4 bytes at 0x30.\<close>

definition putLabel :: "nat \<Rightarrow> bytes \<Rightarrow> u32 \<Rightarrow> bytes \<Rightarrow> bytes" where
  "putLabel start label now sbData =
     writeLE32 (blit (start + 0x78) (take 16 label) (blit (start + 0x78) (replicate 16 0) sbData)) (start + 0x30) now"

definition label_ext :: "'w env \<Rightarrow> LabelParams \<Rightarrow> (unit, SetLabelOp, 'w) act" where
  "label_ext E p =
     (let W = env_win32 E; sectorSize = lb_sectorSize p;
          lba = sbLba (lb_partitionOffsetBytes p) sectorSize; n = sbSectors sectorSize;
          start = unat (sbStartInBuf (lb_partitionOffsetBytes p) sectorSize)
      in
      act_then (report 10 ''Opening disk...'')
      (act_withDisk W (lb_diskId p) ReadWrite (\<lambda>disk.
        act_then (report 20 ''Reading superblock...'')
        (act_require (sectorSize \<noteq> 0)
        (act_bind (act_io (\<lambda>w. Done (readSectors W disk lba n sectorSize w, w))) (\<lambda>sbData.
          if length sbData < 1024 then act_error (fromCode DiskReadError ''Superblock read too short'')
          else
            act_require (start + 0x3A \<le> length sbData)
            (if readLE16 sbData (start + 0x38) \<noteq> EXT_SUPER_MAGIC then
               act_error (fromCode FilesystemCorrupt ''Not a valid ext superblock (bad magic)'')
             else
               act_require (start + 0x88 \<le> length sbData)
               (act_then
                  (act_update (\<lambda>op. op\<lparr>label_oldLabel := takeWhile (\<lambda>b. b \<noteq> 0) (slice (start + 0x78) 16 sbData),
                     label_oldLabelSaved := True\<rparr>))
               (act_then (report 50 ''Writing new label...'')
               (act_get (\<lambda>_ w.
                 act_then (act_io (writeSectors W disk lba
                   (Some (putLabel start (lb_newLabel p) (env_now E w) sbData)) n sectorSize))
                 (act_then (act_ignore (rawFlushBuffers W disk))
                   (report 100 ''Label set successfully'')))))))))))))"

definition label_execute :: "'w env \<Rightarrow> (unit, SetLabelOp, 'w) act" where
  "label_execute E = act_get (\<lambda>op w0.
     let p = label_params op in
     act_then (report 0 ''Setting volume label...'')
       (if lb_driveLetter p \<noteq> 0 then label_volume E p
        else if 0 \<le> lb_diskId p \<and> isExt (lb_fsType p) then label_ext E p
        else act_error (fromCode InvalidArgument ''Cannot set label: no drive letter and not an ext filesystem'')))"

text \<open>An undo that runs a fresh operation without a progress callback.\<close>

definition run_fresh :: "('a, 's, 'w) act \<Rightarrow> 's \<Rightarrow> ('a, 's, 'w) act" where
  "run_fresh m fresh op w = run_bind (m fresh w) (\<lambda>(r, ps, s', w'). Done (r, [], op, w'))"

definition label_undo :: "'w env \<Rightarrow> (unit, SetLabelOp, 'w) act" where
  "label_undo E = act_get (\<lambda>op w0.
     if \<not> label_oldLabelSaved op then act_error (fromCode InvalidArgument ''No saved label for undo'')
     else run_fresh (label_execute E) (newLabelOp ((label_params op)\<lparr>lb_newLabel := label_oldLabel op\<rparr>)))"

definition label_canUndo :: "SetLabelOp \<Rightarrow> bool" where
  "label_canUndo op = label_oldLabelSaved op"

section \<open>Set flags\<close>

record FlagsParams =
  fl_diskId :: int
  fl_partitionIndex :: int
  fl_sectorSize :: u32
  fl_setActive :: "bool option"
  fl_gptAttributes :: "u64 option"

record SetFlagsOp =
  flags_params :: FlagsParams
  flags_savedEntry :: "PartitionEntry option"

definition newFlagsOp :: "FlagsParams \<Rightarrow> SetFlagsOp" where
  "newFlagsOp p = \<lparr>flags_params = p, flags_savedEntry = None\<rparr>"

definition hex16 :: "u64 \<Rightarrow> string" where
  "hex16 v = map (\<lambda>i. ''0123456789abcdef'' ! unat (drop_bit (60 - 4 * i) v AND 15)) [0..<16]"

definition flags_description :: "SetFlagsOp \<Rightarrow> string" where
  "flags_description op =
     (let p = flags_params op;
          active = (case fl_setActive p of None \<Rightarrow> [] | Some b \<Rightarrow> [''Set '' @ (if b then ''active'' else ''inactive'')]);
          attrs = (case fl_gptAttributes p of None \<Rightarrow> [] | Some v \<Rightarrow> [''Set GPT attributes 0x'' @ hex16 v])
      in ''Set flags on partition '' @ show_int (fl_partitionIndex p) @ '' disk '' @ show_int (fl_diskId p) @ '': '' @
         (case active @ attrs of [] \<Rightarrow> [] | [a] \<Rightarrow> a | a # b # _ \<Rightarrow> a @ '', '' @ b))"

definition modifyFlags :: "FlagsParams \<Rightarrow> PartitionTable \<Rightarrow> unit Result \<times> PartitionTable" where
  "modifyFlags p table =
     (case (table, fl_setActive p) of
        (MbrPT t, Some active) \<Rightarrow>
          map_prod id MbrPT (setActivePartition (if active then fl_partitionIndex p else -1) t)
      | _ \<Rightarrow> (ok, table))"

definition flags_execute :: "'w env \<Rightarrow> (unit, SetFlagsOp, 'w) act" where
  "flags_execute E = act_get (\<lambda>op w0.
     let p = flags_params op; W = env_win32 E in
     act_then (report 0 ''Reading partition table...'')
     (act_bind (act_io (readPartitionTable W (fl_diskId p) (fl_sectorSize p))) (\<lambda>table.
      let saved = saveEntry (fl_partitionIndex p) (pt_partitions table) (flags_savedEntry op) in
      act_then (act_update (flags_savedEntry_update (\<lambda>_. saved)))
      (if saved = None then act_error (notFound (fl_partitionIndex p))
       else
         act_then (report 30 ''Modifying flags...'')
         (case modifyFlags p table of
            (Inl e, table) \<Rightarrow> act_error e
          | (Inr _, table) \<Rightarrow>
              act_then (report 60 ''Writing partition table...'')
              (act_then (act_io (writePartitionTable W (fl_diskId p) table (fl_sectorSize p)))
              (act_then (report 90 ''Notifying kernel...'')
              (act_then (act_ignore (notifyKernel W (fl_diskId p)))
                (report 100 ''Flags set successfully'')))))))))"

definition flags_undo :: "'w env \<Rightarrow> (unit, SetFlagsOp, 'w) act" where
  "flags_undo E = act_get (\<lambda>op w0.
     case flags_savedEntry op of
       None \<Rightarrow> act_error (fromCode InvalidArgument ''No saved entry for undo'')
     | Some e \<Rightarrow>
         (let p = flags_params op;
              p = (if fl_setActive p \<noteq> None then p\<lparr>fl_setActive := Some (pe_isActive e)\<rparr> else p);
              p = (if fl_gptAttributes p \<noteq> None then p\<lparr>fl_gptAttributes := Some (pe_gptAttributes e)\<rparr> else p)
          in run_fresh (flags_execute E) (newFlagsOp p)))"

definition flags_canUndo :: "SetFlagsOp \<Rightarrow> bool" where
  "flags_canUndo op \<longleftrightarrow> flags_savedEntry op \<noteq> None"

section \<open>Check file system\<close>

record CheckParams =
  ck_driveLetter :: u16
  ck_repair :: bool
  ck_badSectorScan :: bool
  ck_diskId :: int
  ck_partitionIndex :: int
  ck_partitionOffsetBytes :: u64
  ck_sectorSize :: u32
  ck_fsType :: FilesystemType

record CheckFilesystemOp =
  check_params :: CheckParams

definition check_description :: "CheckFilesystemOp \<Rightarrow> string" where
  "check_description op =
     (let p = check_params op; mode = (if ck_repair p then ''Check and repair'' else ''Check'') in
      if ck_driveLetter p \<noteq> 0 then mode @ '' filesystem on '' @ letterChar (ck_driveLetter p) @ '':''
      else mode @ '' filesystem on partition '' @ show_int (ck_partitionIndex p) @ '' disk '' @ show_int (ck_diskId p))"

definition chkdskArgs :: "CheckParams \<Rightarrow> wstr list" where
  "chkdskArgs p = [[ck_driveLetter p, 58]] @ (if ck_repair p then [widen ''/F''] else []) @
     (if ck_badSectorScan p then [widen ''/R''] else []) @ (if ck_repair p then [widen ''/Y''] else [])"

definition chkdskReports :: "string list \<Rightarrow> progress" where
  "chkdskReports = outputReports [''percent'', ''complete''] (\<lambda>pct. 5 + (pct * 90) sdiv 100) ''Checking... ''"

definition check_chkdsk :: "'w env \<Rightarrow> CheckParams \<Rightarrow> (unit, CheckFilesystemOp, 'w) act" where
  "check_chkdsk E p =
     act_then (report 5 ''Running chkdsk...'')
     (\<lambda>s w.
        case env_chkdsk E (chkdskArgs p) w of
          (ProcessNotStarted msg, w') \<Rightarrow>
            Done (fail FilesystemCheckFailed (''Failed to start chkdsk: '' @ msg), [], s, w')
        | (ProcessRan chunks exitCode stdOutput errOutput, w') \<Rightarrow>
            if 2 < exitCode then
              Done (fail FilesystemCheckFailed
                 (''chkdsk exited with code '' @ show_int exitCode @ '': '' @ stdOutput @ errOutput),
                chkdskReports chunks, s, w')
            else
              Done (ok, chkdskReports chunks @
                 [(100, if exitCode = 0 then ''No errors found'' else ''Errors found and fixed'')], s, w'))"

definition superblockIssues :: "nat \<Rightarrow> bytes \<Rightarrow> string" where
  "superblockIssues start sbData =
     (let state = readLE16 sbData (start + 0x3A); errorCount = readLE32 sbData (start + 0x194);
          mntCount = readLE16 sbData (start + 0x34); maxMntCount = readLE16 sbData (start + 0x36)
      in (if state \<noteq> 1 then ''Filesystem was not cleanly unmounted. '' else []) @
         (if 0 < errorCount then ''Filesystem has '' @ dec (unat errorCount) @ '' recorded error(s). '' else []) @
         (if maxMntCount \<noteq> 0xFFFF \<and> maxMntCount \<le> mntCount
          then ''Mount count exceeded maximum '' @ em_dash @ '' fsck recommended. '' else []))"

definition markClean :: "nat \<Rightarrow> bytes \<Rightarrow> bytes" where
  "markClean start sbData = writeLE32 (writeLE16 sbData (start + 0x3A) 1) (start + 0x194) 0"

text \<open>The repair opens the disk for writing; it is skipped when that fails, and its result is not looked at.\<close>

definition repairSuperblock :: "'w env \<Rightarrow> CheckParams \<Rightarrow> bytes \<Rightarrow> (bool, CheckFilesystemOp, 'w) act" where
  "repairSuperblock E p sbData s w =
     (let W = env_win32 E; sectorSize = ck_sectorSize p;
          start = unat (sbStartInBuf (ck_partitionOffsetBytes p) sectorSize)
      in run_bind (withDisk W (ck_diskId p) ReadWrite (\<lambda>disk.
           io_bind (writeSectors W disk (sbLba (ck_partitionOffsetBytes p) sectorSize)
                      (Some (markClean start sbData)) (sbSectors sectorSize) sectorSize) (\<lambda>_.
             io_ignore (rawFlushBuffers W disk))) w)
           (\<lambda>(r, w'). Done (Inr (isOk r), [], s, w')))"

definition check_ext :: "'w env \<Rightarrow> CheckParams \<Rightarrow> (unit, CheckFilesystemOp, 'w) act" where
  "check_ext E p =
     (let W = env_win32 E; sectorSize = ck_sectorSize p;
          start = unat (sbStartInBuf (ck_partitionOffsetBytes p) sectorSize)
      in
      act_then (report 10 ''Reading ext superblock...'')
      (act_withDisk W (ck_diskId p) ReadOnly (\<lambda>disk.
        act_require (sectorSize \<noteq> 0)
        (act_bind (act_io (\<lambda>w. Done (readSectors W disk (sbLba (ck_partitionOffsetBytes p) sectorSize)
             (sbSectors sectorSize) sectorSize w, w))) (\<lambda>sbData.
          if length sbData < start + 1024 then
            act_error (fromCode FilesystemCheckFailed ''Superblock read too short'')
          else if readLE16 sbData (start + 0x38) \<noteq> EXT_SUPER_MAGIC then
            act_error (fromCode FilesystemCorrupt ''Invalid ext superblock magic (expected 0xEF53)'')
          else
            act_then (report 40 ''Checking superblock fields...'')
            (act_then (report 80 ''Analyzing results...'')
            (let issues = superblockIssues start sbData in
             act_bind
               (if ck_repair p \<and> issues \<noteq> [] \<and> readLE16 sbData (start + 0x3A) \<noteq> 1 then
                  act_then (report 85 ''Marking filesystem as clean...'') (repairSuperblock E p sbData)
                else act_return False)
               (\<lambda>repaired.
                  report 100 (if issues = [] then ''No issues detected in superblock''
                              else issues @ (if repaired then ''State reset to clean. '' else []))))))))))"

definition check_execute :: "'w env \<Rightarrow> (unit, CheckFilesystemOp, 'w) act" where
  "check_execute E = act_get (\<lambda>op w0.
     let p = check_params op in
     act_then (report 0 ''Starting filesystem check...'')
       (if ck_driveLetter p \<noteq> 0 then check_chkdsk E p
        else if isExt (ck_fsType p) then check_ext E p
        else act_error (fromCode FilesystemNotSupported
          ''Filesystem check not supported for this filesystem type without a drive letter'')))"

section \<open>The class of operations\<close>

datatype partition_op =
  CreateOp CreatePartitionOp
| DeleteOp DeletePartitionOp
| ResizeOp ResizePartitionOp
| FormatOp FormatPartitionOp
| LabelOp SetLabelOp
| FlagsOp SetFlagsOp
| CheckOp CheckFilesystemOp

fun op_type :: "partition_op \<Rightarrow> OperationType" where
  "op_type (CreateOp _) = CreatePartition"
| "op_type (DeleteOp _) = DeletePartition"
| "op_type (ResizeOp _) = ResizePartition"
| "op_type (FormatOp _) = FormatPartition"
| "op_type (LabelOp _) = SetLabel"
| "op_type (FlagsOp _) = SetFlags"
| "op_type (CheckOp _) = CheckFilesystem"

definition as_op :: "('s \<Rightarrow> partition_op) \<Rightarrow> ('a Result \<times> progress \<times> 's \<times> 'w) run \<Rightarrow>
    ('a Result \<times> progress \<times> partition_op \<times> 'w) run" where
  "as_op c r = run_bind r (\<lambda>(res, ps, s, w). Done (res, ps, c s, w))"

fun op_execute :: "'w env \<Rightarrow> (unit, partition_op, 'w) act" where
  "op_execute E (CreateOp op) w = as_op CreateOp (create_execute E op w)"
| "op_execute E (DeleteOp op) w = as_op DeleteOp (delete_execute E op w)"
| "op_execute E (ResizeOp op) w = as_op ResizeOp (resize_execute E op w)"
| "op_execute E (FormatOp op) w = as_op FormatOp (format_execute E op w)"
| "op_execute E (LabelOp op) w = as_op LabelOp (label_execute E op w)"
| "op_execute E (FlagsOp op) w = as_op FlagsOp (flags_execute E op w)"
| "op_execute E (CheckOp op) w = as_op CheckOp (check_execute E op w)"

definition without_reports :: "('a Result \<times> progress \<times> 's \<times> 'w) run \<Rightarrow> ('a Result \<times> 's \<times> 'w) run" where
  "without_reports r = run_bind r (\<lambda>(res, ps, s, w). Done (res, s, w))"

fun op_undo :: "'w env \<Rightarrow> partition_op \<Rightarrow> 'w \<Rightarrow> (unit Result \<times> partition_op \<times> 'w) run" where
  "op_undo E (CreateOp op) w = without_reports (as_op CreateOp (create_undo E op w))"
| "op_undo E (DeleteOp op) w = without_reports (as_op DeleteOp (delete_undo E op w))"
| "op_undo E (ResizeOp op) w = without_reports (as_op ResizeOp (resize_undo E op w))"
| "op_undo E (FormatOp op) w = default_undo (FormatOp op) w"
| "op_undo E (LabelOp op) w = without_reports (as_op LabelOp (label_undo E op w))"
| "op_undo E (FlagsOp op) w = without_reports (as_op FlagsOp (flags_undo E op w))"
| "op_undo E (CheckOp op) w = default_undo (CheckOp op) w"

fun op_canUndo :: "partition_op \<Rightarrow> bool" where
  "op_canUndo (CreateOp op) = create_canUndo op"
| "op_canUndo (DeleteOp op) = delete_canUndo op"
| "op_canUndo (ResizeOp op) = resize_canUndo op"
| "op_canUndo (FormatOp op) = False"
| "op_canUndo (LabelOp op) = label_canUndo op"
| "op_canUndo (FlagsOp op) = flags_canUndo op"
| "op_canUndo (CheckOp op) = False"

fun op_description :: "'w env \<Rightarrow> partition_op \<Rightarrow> string" where
  "op_description E (CreateOp op) = create_description E op"
| "op_description E (DeleteOp op) = delete_description op"
| "op_description E (ResizeOp op) = resize_description E op"
| "op_description E (FormatOp op) = format_description op"
| "op_description E (LabelOp op) = label_description op"
| "op_description E (FlagsOp op) = flags_description op"
| "op_description E (CheckOp op) = check_description op"

definition partition_ops :: "'w env \<Rightarrow> (partition_op, 'w) op_class" where
  "partition_ops E = \<lparr>description = op_description E, execute = op_execute E, undo = op_undo E, canUndo = op_canUndo\<rparr>"

text \<open>The constructors record the target of the operation.\<close>

fun op_target :: "partition_op \<Rightarrow> int \<times> int" where
  "op_target (CreateOp op) = (cr_diskId (create_params op), -1)"
| "op_target (DeleteOp op) = (de_diskId (delete_params op), de_partitionIndex (delete_params op))"
| "op_target (ResizeOp op) = (rs_diskId (resize_params op), rs_partitionIndex (resize_params op))"
| "op_target (FormatOp op) = (fm_diskId (format_params op), fm_partitionIndex (format_params op))"
| "op_target (LabelOp op) = (lb_diskId (label_params op), lb_partitionIndex (label_params op))"
| "op_target (FlagsOp op) = (fl_diskId (flags_params op), fl_partitionIndex (flags_params op))"
| "op_target (CheckOp op) = (ck_diskId (check_params op), ck_partitionIndex (check_params op))"

definition newPartitionOperation :: "partition_op \<Rightarrow> partition_op Operation" where
  "newPartitionOperation b = (newOperation b)\<lparr>op_targetDiskId := fst (op_target b), op_targetPartitionId := snd (op_target b)\<rparr>"

section \<open>No operation leaks a handle\<close>

lemma act_keeps_fresh [act_intros]: "act_keeps f m \<Longrightarrow> act_keeps f (run_fresh m s0)"
  unfolding act_keeps_def run_fresh_def by (auto simp: run_bind_Done_iff)

lemma withVolume_handles [act_intros]:
  assumes "handle_laws W V" "act_keeps (handles V) body"
  shows "act_keeps (handles V) (withVolume W letter body)"
proof (cases "letter = 0")
  case True
  with assms(2) show ?thesis by (simp add: withVolume_def)
next
  case False
  have rel: "handles V (releaseVolume W v w) = released v (handles V w)" for v w
  proof -
    obtain r1 v1 w1 v2 w2 where u: "vol_unlock W v w = (r1, v1, w1)" "vol_close W v1 w1 = (v2, w2)"
      by (metis prod.collapse)
    with vol_unlock_handles [OF assms(1) u(1)] vol_close_handles [OF assms(1) u(2)] vol_destroy_handles [OF assms(1), of v2 w2]
    show ?thesis by (simp add: releaseVolume_def released_def)
  qed
  show ?thesis
    unfolding act_keeps_def
  proof (intro allI impI)
    fix s w r ps s' w'
    assume "withVolume W letter body s w = Done (r, ps, s', w')"
    then consider e where "lockAndDismountVolume W letter w = Done (Inl e, w')"
      | v w1 r1 ps1 w2 where "lockAndDismountVolume W letter w = Done (Inr v, w1)" "body s w1 = Done (r1, ps1, s', w2)"
        "w' = (if isOk r1 then releaseVolume W v w2 else vol_destroy W v w2)"
      using False by (auto simp: withVolume_def run_simps)
    then show "handles V w' = handles V w"
    proof cases
      case 1
      with lockAndDismountVolume_handles [OF assms(1)] show ?thesis by fastforce
    next
      case 2
      with lockAndDismountVolume_handles [OF assms(1) 2(1)] act_keepsD [OF assms(2) 2(2)] rel
        vol_destroy_handles [OF assms(1)]
      show ?thesis by simp
    qed
  qed
qed

lemma wipeSignatures_handles [keeps_intros]:
  "handle_laws W V \<Longrightarrow> keeps (handles V) (wipeSignatures W d lba ss)"
  unfolding wipeSignatures_def Let_def by (intro keeps_intros)

lemma act_format_handles [act_intros]:
  assumes "handle_laws (env_win32 E) V" "process_law E V"
  shows "act_keeps (handles V) (act_format E callback target options)"
  using act_keepsD [OF format_partition_handles [OF assms]]
  unfolding act_keeps_def act_format_def by (auto simp: run_bind_Done_iff)

lemma create_handles:
  assumes "handle_laws (env_win32 E) V"
  shows "process_law E V \<Longrightarrow> act_keeps (handles V) (create_run E p)" "act_keeps (handles V) (create_undo E)"
  unfolding create_run_def create_format_def create_undo_def Let_def by (intro act_intros keeps_intros assms; assumption)+

lemma delete_handles:
  assumes "handle_laws (env_win32 E) V"
  shows "act_keeps (handles V) (delete_execute E)" "act_keeps (handles V) (delete_undo E)"
  unfolding delete_execute_def delete_undo_def Let_def by (intro act_intros keeps_intros assms)+

lemma resize_handles:
  assumes "handle_laws (env_win32 E) V"
  shows "act_keeps (handles V) (resize_execute E)" "act_keeps (handles V) (resize_undo E)"
  unfolding resize_execute_def resize_undo_def Let_def by (intro act_intros keeps_intros assms)+

lemma flags_handles:
  assumes "handle_laws (env_win32 E) V"
  shows "act_keeps (handles V) (flags_execute E)" "act_keeps (handles V) (flags_undo E)"
proof -
  show ex: "act_keeps (handles V) (flags_execute E)"
    unfolding flags_execute_def Let_def by (intro act_intros keeps_intros assms)
  show "act_keeps (handles V) (flags_undo E)"
    unfolding flags_undo_def Let_def by (intro act_intros ex)
qed

lemma setLabel_handles [keeps_intros]:
  "handle_laws W V \<Longrightarrow> keeps (handles V) (\<lambda>w. case SetVolumeLabelW W path label w of
     (Inl err, w') \<Rightarrow> Done (Inl (g err), w') | (Inr u, w') \<Rightarrow> Done (ok, w'))"
  by (auto simp: keeps_def dest: handle_lawsD(7) split: prod.splits sum.splits)

lemma label_handles:
  assumes "handle_laws (env_win32 E) V"
  shows "act_keeps (handles V) (label_execute E)" "act_keeps (handles V) (label_undo E)"
proof -
  show ex: "act_keeps (handles V) (label_execute E)"
    unfolding label_execute_def label_volume_def label_ext_def Let_def by (intro act_intros keeps_intros assms)
  show "act_keeps (handles V) (label_undo E)"
    unfolding label_undo_def Let_def by (intro act_intros ex)
qed

lemma repairSuperblock_handles [act_intros]:
  assumes "handle_laws (env_win32 E) V"
  shows "act_keeps (handles V) (repairSuperblock E p sbData)"
proof -
  have k: "keeps (handles V) (withDisk (env_win32 E) d ReadWrite (\<lambda>disk.
      io_bind (writeSectors (env_win32 E) disk lba data n ss) (\<lambda>_. io_ignore (rawFlushBuffers (env_win32 E) disk))))" for d lba data n ss
    using assms by (intro keeps_intros)
  show ?thesis
    unfolding act_keeps_def repairSuperblock_def Let_def by (auto simp: run_bind_Done_iff dest: keepsD [OF k])
qed

lemma check_ext_handles: "handle_laws (env_win32 E) V \<Longrightarrow> act_keeps (handles V) (check_ext E p)"
  unfolding check_ext_def Let_def by (intro act_intros keeps_intros)

lemma check_handles:
  assumes "handle_laws (env_win32 E) V" "process_law E V"
  shows "act_keeps (handles V) (check_execute E)"
proof -
  have "act_keeps (handles V) (check_chkdsk E p)" for p
    unfolding check_chkdsk_def
    by (intro act_intros) (auto simp: act_keeps_def dest: process_lawD(1) [OF assms(2)] split: prod.splits process_run.splits if_splits)
  then show ?thesis
    unfolding check_execute_def Let_def by (intro act_intros check_ext_handles assms)
qed

lemma as_op_Done: "as_op c m = Done (r, ps, b, w) \<longleftrightarrow> (\<exists>s. m = Done (r, ps, s, w) \<and> b = c s)"
  by (auto simp: as_op_def run_bind_Done_iff)

lemma without_reports_Done: "without_reports m = Done (r, s, w) \<longleftrightarrow> (\<exists>ps. m = Done (r, ps, s, w))"
  by (auto simp: without_reports_def run_bind_Done_iff)

text \<open>
  C6. No operation leaks a handle: whatever an operation does, formatting included, and whether it
  succeeds or fails and at which step, afterwards exactly the handles are open that were open before;
  the same holds for its undo.
\<close>

theorem operations_keep_handles:
  assumes "handle_laws (env_win32 E) V" "process_law E V"
  shows "(execute (partition_ops E) b w = Done (r, ps, b', w') \<longrightarrow> handles V w' = handles V w) \<and>
    (undo (partition_ops E) b w = Done (r, b', w') \<longrightarrow> handles V w' = handles V w)"
proof -
  note k = act_keepsD [OF create_handles(1) [OF assms(1,2)]] act_keepsD [OF create_handles(2) [OF assms(1)]]
    act_keepsD [OF delete_handles(1) [OF assms(1)]] act_keepsD [OF delete_handles(2) [OF assms(1)]]
    act_keepsD [OF resize_handles(1) [OF assms(1)]] act_keepsD [OF resize_handles(2) [OF assms(1)]]
    act_keepsD [OF label_handles(1) [OF assms(1)]] act_keepsD [OF label_handles(2) [OF assms(1)]]
    act_keepsD [OF flags_handles(1) [OF assms(1)]] act_keepsD [OF flags_handles(2) [OF assms(1)]]
    act_keepsD [OF check_handles [OF assms(1,2)]] act_keepsD [OF act_format_handles [OF assms(1,2)]]
  have "handles V w' = handles V w" if "op_execute E b w = Done (r, ps, b', w')"
    using that by (cases b) (auto simp: as_op_Done create_execute_def format_execute_def act_get_def dest: k)
  moreover have "handles V w' = handles V w" if "op_undo E b w = Done (r, b', w')"
    using that by (cases b) (auto simp: as_op_Done without_reports_Done default_undo_def dest: k)
  ultimately show ?thesis by (auto simp: partition_ops_def)
qed

section \<open>Witnesses\<close>

text \<open>The API on one disk in memory, with a \<open>format.com\<close> and a \<open>chkdsk.exe\<close> that report success.\<close>

definition sim_env :: "sim_world env" where
  "sim_env = \<lparr>env_win32 = sim_win32, env_random = (\<lambda>w i. of_nat i), env_now = (\<lambda>w. 0),
     env_formatTool = (\<lambda>args w. (ProcessRan [] 0 [] [], w)), env_chkdsk = (\<lambda>args w. (ProcessRan [] 0 [] [], w)),
     env_fromUtf8 = map ucast, env_fixed = (\<lambda>v a b. [])\<rparr>"

lemma sim_env_win32 [simp]: "env_win32 sim_env = sim_win32"
  by (simp add: sim_env_def)

lemma sim_process_law: "process_law sim_env sim_view"
  by (simp add: process_law_def sim_env_def)

definition sample_delete :: partition_op where
  "sample_delete = DeleteOp (newDeleteOp \<lparr>de_diskId = 0, de_partitionIndex = 0, de_sectorSize = 512,
     de_driveLetter = 69, de_wipeFirstSectors = True\<rparr>)"

definition small_world :: sim_world where
  "small_world = \<lparr>sim_disk = replicate 8 0, sim_handles = [Some (OnDisk 0 False)]\<rparr>"

lemma sample_delete_runs:
  "case execute (partition_ops sim_env) sample_delete small_world of
     Done (Inl e, ps, b', w') \<Rightarrow> length (sim_handles w') = 3 | _ \<Rightarrow> False"
  by code_simp

theorem operations_keep_handles_witness:
  "\<exists>e ps b' w'. execute (partition_ops sim_env) sample_delete small_world = Done (Inl e, ps, b', w') \<and>
     length (sim_handles w') = 3 \<and> handles sim_view w' = handles sim_view small_world"
proof -
  obtain r ps b' w' where ran: "execute (partition_ops sim_env) sample_delete small_world = Done (r, ps, b', w')"
    using sample_delete_runs by (cases "execute (partition_ops sim_env) sample_delete small_world") auto
  then obtain e where run: "execute (partition_ops sim_env) sample_delete small_world = Done (Inl e, ps, b', w')"
    "length (sim_handles w') = 3"
    using sample_delete_runs by (cases r) auto
  have "handle_laws (env_win32 sim_env) sim_view" using sim_win32_laws by (simp add: win32_laws_def)
  then have "handles sim_view w' = handles sim_view small_world"
    using operations_keep_handles [OF _ sim_process_law] run(1) by blast
  with run show ?thesis by blast
qed

end
