(* ===== verification/Gpt_Operations.thy ===== *)
theory Gpt_Operations
  imports Partition_Operations
begin

text \<open>
  The operations end to end on a GPT disk without faults: through the queue's view of an operation,
  the partition table on the disk, the edits of the table and the bytes that are written back.
\<close>

section \<open>Creating a partition on a GPT disk\<close>

lemma gpt_stored_stored [simp]: "gpt_stored ss (gpt_stored ss e) = gpt_stored ss e"
  by (simp add: gpt_stored_def)

lemma gpt_stored_simps [simp]:
  "pe_index (gpt_stored ss e) = pe_index e" "pe_sectorCount (gpt_stored ss e) = pe_sectorCount e"
  "pe_startLba (gpt_stored ss e) = pe_startLba e" "entry_range (gpt_stored ss e) = entry_range e"
  "gpt_storable (gpt_stored ss e) = gpt_storable e" "gpt_entry_ok t (gpt_stored ss e) = gpt_entry_ok t e"
  by (simp_all add: gpt_stored_def entry_range_def gpt_storable_def gpt_entry_ok_def)

lemma gpt_entry_ok_cong: "gpt_entryCount t' = gpt_entryCount t \<Longrightarrow> gpt_entry_ok t' e = gpt_entry_ok t e"
  by (simp add: gpt_entry_ok_def)

lemma read_back_serializable:
  assumes "gpt_disk t content" "gpt_read_back t t'"
  shows "gpt_serializable t'" "readBE16 (gpt_protectiveMbr t') 0 \<noteq> APM_DDM_SIGNATURE"
    "2 * unat (gpt_sectorSize t') \<le> 2 ^ 32"
proof -
  have ser: "gpt_serializable t" and wf: "length (gpt_protectiveMbr t) = 512" "512 \<le> unat (gpt_sectorSize t)"
    using assms(1) by (simp_all add: gpt_disk_def gpt_serializable_def)
  have inv: "list_all (gpt_entry_ok t) (gpt_entries t)" "list_all gpt_storable (gpt_entries t)"
    using ser by (simp_all add: gpt_serializable_def gpt_inv_def)
  have "distinct (map pe_index (gpt_entries t'))"
    using assms(2) strict_sorted_iff by (auto simp: gpt_read_back_def)
  moreover have "list_all (gpt_entry_ok t') (gpt_entries t')" "list_all gpt_storable (gpt_entries t')"
    using inv assms(2) gpt_entry_ok_cong [of t' t] by (auto simp: gpt_read_back_def list_all_iff)
  ultimately show "gpt_serializable t'"
    using ser assms(2) wf by (simp add: gpt_serializable_def gpt_read_back_def gpt_inv_def length_protMbr)
  have "readBE16 (gpt_protectiveMbr t') 0 = readBE16 (gpt_protectiveMbr t) 0"
    using assms(2) protMbr_bytes(1) [OF wf] by (intro readBE16_cong) (simp_all add: gpt_read_back_def)
  then show "readBE16 (gpt_protectiveMbr t') 0 \<noteq> APM_DDM_SIGNATURE" using assms(1) by (simp add: gpt_disk_def)
  show "2 * unat (gpt_sectorSize t') \<le> 2 ^ 32" using assms by (simp add: gpt_disk_def gpt_read_back_def)
qed

text \<open>Tables with the same header have serialized forms of the same size.\<close>

definition same_header :: "GptTable \<Rightarrow> GptTable \<Rightarrow> bool" where
  "same_header t t' \<longleftrightarrow> gpt_sectorSize t' = gpt_sectorSize t \<and> gpt_entryCount t' = gpt_entryCount t \<and>
     gpt_entrySize t' = gpt_entrySize t \<and> gpt_diskGuid t' = gpt_diskGuid t \<and>
     gpt_protectiveMbr t' = gpt_protectiveMbr t"

lemma same_header_fits: "same_header t t' \<Longrightarrow> gpt_fits t' content = gpt_fits t content"
  by (simp add: gpt_fits_def same_header_def entryArraySectors_def entryArrayBytes_def)

lemma read_back_fits: "gpt_read_back t t' \<Longrightarrow> gpt_fits t' content = gpt_fits t content"
  by (simp add: gpt_fits_def gpt_read_back_def entryArraySectors_def entryArrayBytes_def)

lemma edited_serializable:
  assumes "gpt_serializable t" "same_header t t'" "gpt_inv t'" "list_all gpt_storable (gpt_entries t')"
  shows "gpt_serializable t'"
  using assms by (simp add: gpt_serializable_def same_header_def)

text \<open>A request that a GPT entry can hold: sixteen bytes of type GUID, a name that fits, no wrap-around.\<close>

definition gpt_request :: "CreateParams \<Rightarrow> bool" where
  "gpt_request p \<longleftrightarrow> guid_wf (cr_typeGuid p) \<and> gpt_name_ok (cr_gptName p) \<and> no_wrap (cr_startLba p, cr_sectorCount p)"

lemma gpt_add_serializable:
  assumes "gpt_serializable t" "guid_wf (pp_typeGuid p)" "gpt_name_ok (pp_gptName p)" "no_wrap (pp_startLba p, pp_sectorCount p)"
    and "gpt_addPartition rnd p t = (Inr u, t')"
  shows "gpt_serializable t'" "same_header t t'"
proof -
  obtain i where i:
    "t' = (gpt_setLastUsable t)\<lparr>gpt_entries := gpt_entries t @ [gpt_newEntry rnd p i (gpt_sectorSize t)]\<rparr>"
    by (rule gpt_add_cases [OF assms(5)]) (simp, blast)
  then show sh: "same_header t t'" by (simp add: same_header_def gpt_setLastUsable_def)
  have "gpt_inv t'"
    using gpt_add_inv [of t p rnd] assms by (simp add: gpt_serializable_def)
  moreover have "gpt_storable (gpt_newEntry rnd p i (gpt_sectorSize t))"
    using assms(2-4) guid_wf_generate guid_wf_microsoftBasicData
    by (simp add: gpt_storable_def gpt_newEntry_def pe_default_def)
  ultimately show "gpt_serializable t'"
    using assms(1) i by (intro edited_serializable [OF assms(1) sh]) (simp_all add: gpt_serializable_def)
qed

lemma add_serializable:
  assumes "gpt_serializable t" "gpt_request p"
    and "gpt_addPartition rnd (createPartParams p table) t = (Inr u, t')"
  shows "gpt_serializable t'" "same_header t t'"
  using gpt_add_serializable [OF assms(1) _ _ _ assms(3)] assms(2)
  by (simp_all add: gpt_request_def createPartParams_def)

lemma notifyKernel_total: "\<exists>r w'. notifyKernel W d w = Done (r, w')"
proof -
  obtain r w1 where op: "rawOpen W d ReadWrite w = Done (r, w1)" using rawOpen_total by metis
  then have "\<exists>h. rh_handle disk = Some h" if "r = Inr disk" for disk
    using that by (auto simp: rawOpen_Done(1))
  with op show ?thesis
    by (cases r) (fastforce simp: notifyKernel_def withDisk_def io_try_def split: prod.split sum.split)+
qed

lemma gpt_fits_image:
  assumes "gpt_serializable t" "gpt_fits t c"
  shows "gpt_fits t (gpt_image t @ drop (length (gpt_image t)) c)"
proof -
  have "length (gpt_image t) \<le> length c" using assms(2) unfolding gpt_fits_def length_gpt_image [OF assms(1)] by simp
  then have "length (gpt_image t @ drop (length (gpt_image t)) c) = length c" by simp
  then show ?thesis using assms(2) by (simp only: gpt_fits_def)
qed

text \<open>Writing a GPT table and notifying the kernel leaves a GPT disk with that table.\<close>

lemma write_notify_gpt:
  assumes "win32_laws W V" "disk_works W V d" "gpt_serializable t" "2 * unat (gpt_sectorSize t) \<le> 2 ^ 32"
    and "readBE16 (gpt_protectiveMbr t) 0 \<noteq> APM_DDM_SIGNATURE" "gpt_fits t (contents V w d)"
  obtains w1 r w2 where "writePartitionTable W d (GptPT t) (gpt_sectorSize t) w = Done (ok, w1)"
    "notifyKernel W d w1 = Done (r, w2)" "gpt_disk t (contents V w2 d)" "gpt_fits t (contents V w2 d)"
proof -
  have laws: "content_laws W V" using assms(1) by (simp add: win32_laws_def)
  note wr = writePartitionTable_gpt [OF assms(1-3,6)]
  obtain w1 where w1: "writePartitionTable W d (GptPT t) (gpt_sectorSize t) w = Done (ok, w1)" using wr(1) by blast
  obtain r w2 where w2: "notifyKernel W d w1 = Done (r, w2)" using notifyKernel_total by metis
  have "contents V w2 d = gpt_image t @ drop (length (gpt_image t)) (contents V w d)"
    using keepsD [OF notifyKernel_contents [OF laws] w2] wr(2) [OF w1] by simp
  with that w1 w2 gpt_disk_image [OF assms(3-5)] gpt_fits_image [OF assms(3,6)] show thesis by metis
qed

lemma create_gpt_ok:
  fixes E defines "W \<equiv> env_win32 E"
  assumes "win32_laws W V" "disk_works W V (cr_diskId p)" "\<not> cr_formatAfter p" "gpt_request p"
    and "gpt_disk t (contents V w (cr_diskId p))" "gpt_fits t (contents V w (cr_diskId p))"
    and "cr_sectorSize p = gpt_sectorSize t"
    and rd: "readPartitionTable W (cr_diskId p) (cr_sectorSize p) w = Done (Inr (GptPT t1), wa)"
    and rb: "gpt_read_back t t1"
    and ad: "gpt_addPartition (env_random E wa) (createPartParams p (GptPT t1)) t1 = (Inr u, t2)"
  shows "\<exists>ps w'. create_run E p op w =
      Done (ok, ps, op\<lparr>create_createdIndex := createdIndex p (gpt_entries t2) (create_createdIndex op)\<rparr>, w') \<and>
    gpt_disk t2 (contents V w' (cr_diskId p)) \<and> gpt_fits t2 (contents V w' (cr_diskId p))"
proof -
  let ?d = "cr_diskId p"
  have laws: "content_laws W V" using assms(2) by (simp add: win32_laws_def)
  note t1 = read_back_serializable [OF assms(6) rb]
  note t2 = add_serializable [OF t1(1) assms(5) ad]
  have hdr: "gpt_sectorSize t2 = cr_sectorSize p" "gpt_protectiveMbr t2 = gpt_protectiveMbr t1"
    "gpt_sectorSize t2 = gpt_sectorSize t1"
    using t2(2) rb assms(8) by (simp_all add: same_header_def gpt_read_back_def)
  have "contents V wa = contents V w" using keepsD [OF readPartitionTable_contents [OF laws] rd] .
  then have "gpt_fits t2 (contents V wa ?d)"
    using assms(7) same_header_fits [OF t2(2)] read_back_fits [OF rb] by simp
  then obtain wb r wc where wc: "writePartitionTable W ?d (GptPT t2) (cr_sectorSize p) wa = Done (ok, wb)"
    "notifyKernel W ?d wb = Done (r, wc)" "gpt_disk t2 (contents V wc ?d)" "gpt_fits t2 (contents V wc ?d)"
    using write_notify_gpt [OF assms(2,3) t2(1)] t1(2,3) unfolding hdr(2) hdr(3) [symmetric] hdr(1) by metis
  moreover have "\<exists>ps. create_run E p op w =
      Done (ok, ps, op\<lparr>create_createdIndex := createdIndex p (gpt_entries t2) (create_createdIndex op)\<rparr>, wc)"
    using rd ad wc(1,2) assms(4)
    by (auto simp: create_run_def Let_def run_simps act_get_def create_format_def gpt_partitions_def W_def)
  ultimately show ?thesis by blast
qed

lemma create_refused:
  assumes "readPartitionTable (env_win32 E) (cr_diskId p) (cr_sectorSize p) w = Done (Inr table, wa)"
    and "pt_addPartition (env_random E wa) (createPartParams p table) table = (Inl e, table')"
  shows "\<exists>ps. create_run E p op w = Done (Inl e, ps, op, wa)"
  using assms by (auto simp: create_run_def Let_def run_simps act_get_def)



section \<open>Undoing the creation\<close>

lemma sorted_key_unique:
  fixes f :: "'a \<Rightarrow> 'k :: linorder"
  assumes "sorted_wrt (<) (map f xs)" "sorted_wrt (<) (map f ys)" "set xs = set ys"
  shows "xs = ys"
proof -
  have inj: "inj_on f (set xs)" using assms(1) strict_sorted_iff distinct_map by metis
  have "map f xs = map f ys" using assms by (intro strict_sorted_equal) simp_all
  then show ?thesis using inj assms(3) map_inj_on by (metis Un_absorb)
qed

lemma find_append: "find P (xs @ ys) = (case find P xs of None \<Rightarrow> find P ys | Some x \<Rightarrow> Some x)"
  by (induction xs) simp_all

text \<open>The loop that looks for the created partition finds the new entry, because no other has its range.\<close>

lemma createdIndex_new:
  assumes "gpt_inv t" "gpt_request p" "gpt_addPartition rnd (createPartParams p table) t = (Inr u, t')"
  obtains i where "createdIndex p (gpt_entries t') old = int i"
    "gpt_entries t' = gpt_entries t @ [gpt_newEntry rnd (createPartParams p table) i (gpt_sectorSize t)]"
proof (rule gpt_add_cases [OF assms(3)])
  let ?pp = "createPartParams p table"
  fix i
  assume i: "t' = (gpt_setLastUsable t)\<lparr>gpt_entries := gpt_entries t @ [gpt_newEntry rnd ?pp i (gpt_sectorSize t)]\<rparr>"
    and n: "pp_sectorCount ?pp \<noteq> 0"
    and free: "\<not> gpt_overlapsExisting (gpt_entries t) (pp_startLba ?pp) (pp_startLba ?pp + pp_sectorCount ?pp - 1) (-1)"
  have "no_wrap (pp_startLba ?pp, pp_sectorCount ?pp)" using assms(2) by (simp add: gpt_request_def createPartParams_def)
  from gpt_overlapsExisting_iff [OF assms(1) this n] free
  have dis: "ranges_disjoint (entry_range e) (cr_startLba p, cr_sectorCount p)" if "e \<in> set (gpt_entries t)" for e
    using that gpt_inv_entry [OF assms(1) that] by (auto simp: gpt_entry_ok_def createPartParams_def)
  have "pe_startLba e \<noteq> cr_startLba p \<or> pe_sectorCount e \<noteq> cr_sectorCount p" if "e \<in> set (gpt_entries t)" for e
    using dis [OF that] n unat_gt_0 [of "cr_sectorCount p"]
    by (auto simp: ranges_disjoint_iff entry_range_def createPartParams_def)
  then have "find (\<lambda>e. pe_startLba e = cr_startLba p \<and> pe_sectorCount e = cr_sectorCount p) (gpt_entries t) = None"
    by (auto simp: find_None_iff)
  then have "createdIndex p (gpt_entries t') old = int i"
    unfolding createdIndex_def i by (simp add: find_append gpt_newEntry_def createPartParams_def pe_default_def)
  then show thesis using that i by simp
qed simp

lemma delete_last_read_back:
  assumes "gpt_read_back t t'" "gpt_entries t = es @ [e]"
  obtains k where "find_index (\<lambda>x. pe_index x = pe_index e) (gpt_entries t') = Some k"
    "set (erase_at k (gpt_entries t')) = gpt_stored (gpt_sectorSize t) ` (set es - {x. pe_index x = pe_index e})"
proof -
  let ?st = "gpt_stored (gpt_sectorSize t)"
  have set: "set (gpt_entries t') = ?st ` set (es @ [e])" and srt: "sorted_wrt (<) (map pe_index (gpt_entries t'))"
    using assms by (simp_all add: gpt_read_back_def)
  have dist: "distinct (map pe_index (gpt_entries t'))" using srt strict_sorted_iff by blast
  then have inj: "inj_on pe_index (set (gpt_entries t'))" "distinct (gpt_entries t')" by (simp_all add: distinct_map)
  have mem: "?st e \<in> set (gpt_entries t')" using set by simp
  then obtain k where k: "find_index (\<lambda>x. pe_index x = pe_index e) (gpt_entries t') = Some k"
    using find_index_None_iff [of "\<lambda>x. pe_index x = pe_index e" "gpt_entries t'"]
    by (cases "find_index (\<lambda>x. pe_index x = pe_index e) (gpt_entries t')") force+
  have lt: "k < length (gpt_entries t')" and ix: "pe_index (gpt_entries t' ! k) = pe_index (?st e)"
    using find_index_SomeD [OF k] by simp_all
  have "gpt_entries t' ! k = ?st e" using inj_onD [OF inj(1) ix nth_mem [OF lt] mem] .
  then have er: "set (erase_at k (gpt_entries t')) = ?st ` set (es @ [e]) - {?st e}"
    using set_erase_at_distinct [OF inj(2) lt] set by simp
  have "?st x = ?st e \<longleftrightarrow> pe_index x = pe_index e" if "x \<in> set (es @ [e])" for x
    using that set inj_onD [OF inj(1), of "?st x" "?st e"] mem by (metis gpt_stored_simps(1) imageI)
  then have "?st ` set (es @ [e]) - {?st e} = ?st ` (set es - {x. pe_index x = pe_index e})" by auto
  with er k that show thesis by simp
qed

lemma delete_serializable:
  assumes "gpt_serializable t" "gpt_deletePartition i t = (Inr u, t')"
  shows "gpt_serializable t'" "same_header t t'"
proof -
  obtain k where k: "t' = t\<lparr>gpt_entries := erase_at k (gpt_entries t)\<rparr>"
    using assms(2) by (auto simp: gpt_deletePartition_def split: option.splits)
  then show sh: "same_header t t'" by (simp add: same_header_def)
  have "gpt_inv t" using assms(1) by (simp add: gpt_serializable_def)
  then have "gpt_inv t'" using gpt_delete_inv [of t i] assms(2) by simp
  moreover have "list_all gpt_storable (gpt_entries t')"
    using assms(1) k set_erase_at_subset [of k "gpt_entries t"] by (auto simp: gpt_serializable_def list_all_iff)
  ultimately show "gpt_serializable t'" by (intro edited_serializable [OF assms(1) sh])
qed

lemma gpt_delete_ok:
  "find_index (\<lambda>e. pe_index e = i) (gpt_entries t) = Some k \<Longrightarrow>
    gpt_deletePartition i t = (ok, t\<lparr>gpt_entries := erase_at k (gpt_entries t)\<rparr>)"
  by (simp add: gpt_deletePartition_def)

text \<open>Undo on a GPT disk: the entry with the recorded index is removed and the table written back.\<close>

lemma create_undo_gpt:
  fixes E defines "W \<equiv> env_win32 E"
  assumes "win32_laws W V" "disk_works W V d" "gpt_disk t (contents V w d)" "gpt_fits t (contents V w d)"
    and "cr_diskId (create_params op) = d" "cr_sectorSize (create_params op) = gpt_sectorSize t"
    and "gpt_entries t = es @ [e]" "create_createdIndex op = pe_index e" "0 \<le> pe_index e"
  shows "\<exists>t' w'. create_undo E op w = Done (ok, [], op\<lparr>create_createdIndex := -1\<rparr>, w') \<and>
    gpt_disk t' (contents V w' d) \<and> gpt_sectorSize t' = gpt_sectorSize t \<and>
    set (gpt_entries t') = gpt_stored (gpt_sectorSize t) ` (set es - {x. pe_index x = pe_index e})"
proof -
  obtain t1 wa where rd: "readPartitionTable W d (gpt_sectorSize t) w = Done (Inr (GptPT t1), wa)"
    "gpt_read_back t t1" "contents V wa = contents V w"
    using readPartitionTable_gpt [OF assms(2-4)] by blast
  note t1 = read_back_serializable [OF assms(4) rd(2)]
  obtain k where k: "find_index (\<lambda>x. pe_index x = pe_index e) (gpt_entries t1) = Some k"
    "set (erase_at k (gpt_entries t1)) = gpt_stored (gpt_sectorSize t) ` (set es - {x. pe_index x = pe_index e})"
    using delete_last_read_back [OF rd(2) assms(8)] by metis
  let ?t' = "t1\<lparr>gpt_entries := erase_at k (gpt_entries t1)\<rparr>"
  note del = gpt_delete_ok [OF k(1)]
  note t' = delete_serializable [OF t1(1) del]
  have ss: "gpt_sectorSize t1 = gpt_sectorSize t" using rd(2) by (simp add: gpt_read_back_def)
  have "gpt_fits ?t' (contents V wa d)"
    using assms(5) rd(3) same_header_fits [OF t'(2)] read_back_fits [OF rd(2)] by simp
  then obtain wb r wc where wc: "writePartitionTable W d (GptPT ?t') (gpt_sectorSize t) wa = Done (ok, wb)"
    "notifyKernel W d wb = Done (r, wc)" "gpt_disk ?t' (contents V wc d)"
    using write_notify_gpt [OF assms(2,3) t'(1), of wa] t1(2,3) ss by (simp, metis)
  have "create_undo E op w = Done (ok, [], op\<lparr>create_createdIndex := -1\<rparr>, wc)"
    using rd(1) del wc(1,2) assms(6,7,9,10)
    by (auto simp: create_undo_def Let_def run_simps act_get_def W_def)
  with wc(3) ss k(2) show ?thesis by (intro exI [of _ ?t'] exI [of _ wc]) simp
qed

text \<open>
  Undoing the creation of a partition on a GPT disk restores the list of partitions: after a
  successful \<open>execute\<close> on a disk without faults the operation can be undone, \<open>undo\<close> succeeds, and the
  table read from the disk has exactly the entries it had before the creation, in the same order.
\<close>

lemma create_then_undo:
  assumes "win32_laws (env_win32 E) V" "disk_works (env_win32 E) V d" "gpt_disk t (contents V w d)"
    and "gpt_fits t (contents V w d)" "gpt_request p" "cr_diskId p = d" "cr_sectorSize p = gpt_sectorSize t"
    and "\<not> cr_formatAfter p" "create_execute E (newCreateOp p) w = Done (ok, ps, op, w')"
  shows "create_canUndo op \<and> (\<exists>op' w'' t1 w1 t2 w2. create_undo E op w' = Done (ok, [], op', w'') \<and>
    \<not> create_canUndo op' \<and>
    readPartitionTable (env_win32 E) d (gpt_sectorSize t) w = Done (Inr (GptPT t1), w1) \<and>
    readPartitionTable (env_win32 E) d (gpt_sectorSize t) w'' = Done (Inr (GptPT t2), w2) \<and>
    gpt_entries t2 = gpt_entries t1)"
proof -
  obtain t1 wa where rd: "readPartitionTable (env_win32 E) d (gpt_sectorSize t) w = Done (Inr (GptPT t1), wa)"
    "gpt_read_back t t1" "contents V wa = contents V w"
    using readPartitionTable_gpt [OF assms(1-3)] by blast
  have rd1: "readPartitionTable (env_win32 E) (cr_diskId p) (cr_sectorSize p) w = Done (Inr (GptPT t1), wa)"
    using rd(1) assms(6,7) by simp
  note t1 = read_back_serializable [OF assms(3) rd(2)]
  obtain u t2 where ad: "gpt_addPartition (env_random E wa) (createPartParams p (GptPT t1)) t1 = (Inr u, t2)"
  proof (cases "gpt_addPartition (env_random E wa) (createPartParams p (GptPT t1)) t1")
    case (Pair r t2)
    have "False" if "r = Inl err" for err
      using create_refused [OF rd1, of err _ "newCreateOp p"] Pair that assms(9)
      by (simp add: create_execute_def newCreateOp_def)
    with Pair show thesis using that by (cases r) auto
  qed
  from create_gpt_ok [of E V p t w t1 wa u t2 "newCreateOp p"] assms rd1 rd(2) ad
  have op: "op = (newCreateOp p)\<lparr>create_createdIndex := createdIndex p (gpt_entries t2) (-1)\<rparr>"
    and dk: "gpt_disk t2 (contents V w' d)" "gpt_fits t2 (contents V w' d)"
    by (auto simp: create_execute_def newCreateOp_def)
  have inv: "gpt_inv t1" using t1(1) by (simp add: gpt_serializable_def)
  obtain i where i: "createdIndex p (gpt_entries t2) (-1) = int i"
    "gpt_entries t2 = gpt_entries t1 @
      [gpt_newEntry (env_random E wa) (createPartParams p (GptPT t1)) i (gpt_sectorSize t1)]"
    using createdIndex_new [OF inv assms(5) ad] by metis
  let ?e = "gpt_newEntry (env_random E wa) (createPartParams p (GptPT t1)) i (gpt_sectorSize t1)"
  note t2 = add_serializable [OF t1(1) assms(5) ad]
  have ss: "gpt_sectorSize t2 = gpt_sectorSize t" using t2(2) rd(2) by (simp add: same_header_def gpt_read_back_def)
  have ie: "pe_index ?e = int i" by (simp add: gpt_newEntry_def)
  have "create_createdIndex op = pe_index ?e" "0 \<le> pe_index ?e" using op i(1) ie by simp_all
  then obtain t3 w3 where t3: "create_undo E op w' = Done (ok, [], op\<lparr>create_createdIndex := -1\<rparr>, w3)"
    "gpt_disk t3 (contents V w3 d)" "gpt_sectorSize t3 = gpt_sectorSize t"
    "set (gpt_entries t3) = gpt_stored (gpt_sectorSize t) ` (set (gpt_entries t1) - {x. pe_index x = int i})"
    using create_undo_gpt [OF assms(1,2) dk _ _ i(2), of op] op assms(6,7) ss ie by (auto simp: newCreateOp_def)
  obtain t4 w4 where t4: "readPartitionTable (env_win32 E) d (gpt_sectorSize t) w3 = Done (Inr (GptPT t4), w4)"
    "gpt_read_back t3 t4"
    using readPartitionTable_gpt [OF assms(1,2) t3(2)] t3(3) by auto
  have "gpt_entries t4 = gpt_entries t1"
  proof (rule sorted_key_unique [of pe_index])
    have "int i \<notin> pe_index ` set (gpt_entries t1)"
      using t2(1) i(2) ie by (auto simp: gpt_serializable_def gpt_inv_def)
    then have "set (gpt_entries t1) - {x. pe_index x = int i} = set (gpt_entries t1)" by force
    then show "set (gpt_entries t4) = set (gpt_entries t1)"
      using t4(2) t3(3,4) rd(2) by (auto simp: gpt_read_back_def image_image)
  qed (use t4(2) rd(2) in \<open>simp_all add: gpt_read_back_def\<close>)
  moreover have "create_canUndo op" "\<not> create_canUndo (op\<lparr>create_createdIndex := -1\<rparr>)"
    using op i(1) by (simp_all add: create_canUndo_def)
  ultimately show ?thesis using rd(1) t3(1) t4(1) by blast
qed


section \<open>Witnesses\<close>

definition gpt_world :: sim_world where
  "gpt_world = \<lparr>sim_disk = gpt_image sample_gpt @ replicate 10000 0, sim_handles = []\<rparr>"

lemma gpt_world_disk:
  "gpt_disk sample_gpt (contents sim_view gpt_world 0)" "gpt_fits sample_gpt (contents sim_view gpt_world 0)"
proof -
  have c: "contents sim_view gpt_world 0 = gpt_image sample_gpt @ replicate 10000 0"
    by (simp add: sim_view_def gpt_world_def)
  show "gpt_disk sample_gpt (contents sim_view gpt_world 0)"
    unfolding c using sample_gpt_no_apm by (intro gpt_disk_image sample_gpt_serializable) (simp_all add: sample_gpt_sectors)
  show "gpt_fits sample_gpt (contents sim_view gpt_world 0)"
    using length_gpt_image [OF sample_gpt_serializable] unfolding c by (intro sample_gpt_fits) (simp add: sample_gpt_sectors)
qed

definition sample_request :: CreateParams where
  "sample_request = cr_default\<lparr>cr_diskId := 0, cr_startLba := 10000, cr_sectorCount := 100,
     cr_typeGuid := GptTypes_linuxFilesystem\<rparr>"

lemma sample_request_simps:
  "gpt_request sample_request" "cr_diskId sample_request = 0" "cr_sectorSize sample_request = gpt_sectorSize sample_gpt"
  "\<not> cr_formatAfter sample_request"
proof -
  have "gpt_name_ok []" unfolding gpt_name_ok_def by (rule exI [of _ "[]"]) simp
  then show "gpt_request sample_request" by (simp add: gpt_request_def sample_request_def cr_default_def no_wrap_def)
qed (simp_all add: sample_request_def cr_default_def sample_gpt_sectors)

lemma sample_add:
  assumes "gpt_read_back sample_gpt t1"
  shows "\<exists>t2. gpt_addPartition rnd (createPartParams sample_request (GptPT t1)) t1 = (ok, t2) \<and>
    gpt_entries t2 = [gpt_stored 512 sample_gpt_entry,
      gpt_newEntry rnd (createPartParams sample_request (GptPT t1)) 1 512]"
proof -
  have e: "gpt_entries t1 = [gpt_stored 512 sample_gpt_entry]"
    using assms by (intro sorted_key_unique [of pe_index]) (simp_all add: gpt_read_back_def sample_gpt_sectors)
  have c: "gpt_entryCount t1 = 128" "gpt_firstUsableLba t1 = 34" "gpt_lastUsableLba t1 = 2097118" "gpt_sectorSize t1 = 512"
    using assms by (simp_all add: gpt_read_back_def sample_gpt_def gpt_new_def gpt_diskSectors_def)
  have f: "gpt_freeSlot t1 = Some 1"
    unfolding gpt_freeSlot_Some by (simp add: e c sample_gpt_entry_def)
  show ?thesis
    by (simp add: gpt_addPartition_def Let_def f e c createPartParams_def sample_request_def cr_default_def gpt_overlapsExisting_def
        sample_gpt_entry_def gpt_stored_def)
qed

lemma sample_create:
  "\<exists>ps op w'. create_execute sim_env (newCreateOp sample_request) gpt_world = Done (ok, ps, op, w')"
proof -
  let ?p = sample_request
  obtain t1 wa where rd: "readPartitionTable sim_win32 0 512 gpt_world = Done (Inr (GptPT t1), wa)" "gpt_read_back sample_gpt t1"
    using readPartitionTable_gpt [OF sim_win32_laws sim_disk_works gpt_world_disk(1)] by (auto simp: sample_gpt_sectors)
  obtain t2 where ad: "gpt_addPartition (env_random sim_env wa) (createPartParams ?p (GptPT t1)) t1 = (ok, t2)"
    using sample_add [OF rd(2)] by blast
  have "\<exists>ps w'. create_run sim_env ?p (newCreateOp ?p) gpt_world =
      Done (ok, ps, (newCreateOp ?p)\<lparr>create_createdIndex := createdIndex ?p (gpt_entries t2) (create_createdIndex (newCreateOp ?p))\<rparr>, w') \<and>
    gpt_disk t2 (contents sim_view w' (cr_diskId ?p)) \<and> gpt_fits t2 (contents sim_view w' (cr_diskId ?p))"
    by (rule create_gpt_ok [OF _ _ _ _ _ _ _ _ rd(2) ad])
      (use sim_win32_laws sim_disk_works sample_request_simps gpt_world_disk rd(1) in \<open>simp_all add: sample_gpt_sectors\<close>)
  then show ?thesis by (auto simp: create_execute_def newCreateOp_def)
qed


end
