(* ===== verification/Io_Loop.thy ===== *)
theory Io_Loop
  imports Raw_Disk
begin

text \<open>
  Loops over the outside world. A C++ \<open>while\<close> whose body calls the Win32 API, leaves the function by
  returning an error, and otherwise goes on with changed locals is \<open>io_while test body\<close>; whether it
  ever ends depends on the world, so it is a partial function, and a run that goes on for ever has the
  outcome \<open>Diverges\<close>. The rules are those of a loop in Hoare logic: an invariant for partial
  correctness, a measure for termination, and an invariant that keeps the test true for divergence.
\<close>

section \<open>The loop\<close>

partial_function (option) io_loop :: "('s \<Rightarrow> bool) \<Rightarrow> ('s \<Rightarrow> 'w \<Rightarrow> ('s Result \<times> 'w) run) \<Rightarrow> 's \<Rightarrow> 'w \<Rightarrow>
    ('s Result \<times> 'w) run option" where
  "io_loop test body s w =
     (if test s then
        (case body s w of
           Done rw \<Rightarrow>
             (case fst rw of
                Inl e \<Rightarrow> Some (Done (Inl e, snd rw))
              | Inr s' \<Rightarrow> io_loop test body s' (snd rw))
         | Undef \<Rightarrow> Some Undef
         | Diverges \<Rightarrow> Some Diverges)
      else Some (Done (Inr s, w)))"

definition io_while :: "('s \<Rightarrow> bool) \<Rightarrow> ('s \<Rightarrow> ('s Result, 'w) io) \<Rightarrow> 's \<Rightarrow> ('s Result, 'w) io" where
  "io_while test body s w = (case io_loop test body s w of None \<Rightarrow> Diverges | Some r \<Rightarrow> r)"

lemma io_while_unfold:
  "io_while test body s w =
     (if test s then run_bind (body s w) (\<lambda>(r, w'). case r of Inl e \<Rightarrow> Done (Inl e, w') | Inr s' \<Rightarrow> io_while test body s' w')
      else Done (Inr s, w))"
  unfolding io_while_def
  by (subst io_loop.simps) (auto split: run.splits sum.splits prod.splits)

lemma io_while_end [simp]: "\<not> test s \<Longrightarrow> io_while test body s w = Done (Inr s, w)"
  by (subst io_while_unfold) simp

text \<open>Partial correctness: what every completed run of the loop satisfies.\<close>

lemma io_loop_invariant:
  assumes run: "io_loop test body s w = Some r" and start: "I s w"
    and step: "\<And>s w s' w'. I s w \<Longrightarrow> test s \<Longrightarrow> body s w = Done (Inr s', w') \<Longrightarrow> I s' w'"
    and exit: "\<And>s w e w'. I s w \<Longrightarrow> test s \<Longrightarrow> body s w = Done (Inl e, w') \<Longrightarrow> Q e w'"
  shows "\<forall>x w'. r = Done (x, w') \<longrightarrow> (case x of Inl e \<Rightarrow> Q e w' | Inr s' \<Rightarrow> I s' w' \<and> \<not> test s')"
proof -
  let ?P = "\<lambda>t b s w r. t = test \<longrightarrow> b = body \<longrightarrow> I s w \<longrightarrow>
    (\<forall>x w'. r = Done (x, w') \<longrightarrow> (case x of Inl e \<Rightarrow> Q e w' | Inr s' \<Rightarrow> I s' w' \<and> \<not> test s'))"
  have "?P test body s w r"
  proof (rule io_loop.raw_induct [OF _ run, of ?P])
    fix loop t b s w r
    assume IH: "\<And>t b s w r. loop t b s w = Some r \<Longrightarrow> ?P t b s w r"
      and eq: "(if t s then
         (case b s w of
            Done rw \<Rightarrow>
              (case fst rw of
                 Inl e \<Rightarrow> Some (Done (Inl e, snd rw))
               | Inr s' \<Rightarrow> loop t b s' (snd rw))
          | Undef \<Rightarrow> Some Undef
          | Diverges \<Rightarrow> Some Diverges)
       else Some (Done (Inr s, w))) = Some r"
    show "?P t b s w r"
    proof (intro impI)
      assume tb: "t = test" "b = body" and I: "I s w"
      show "\<forall>x w'. r = Done (x, w') \<longrightarrow> (case x of Inl e \<Rightarrow> Q e w' | Inr s' \<Rightarrow> I s' w' \<and> \<not> test s')"
      proof (cases "test s")
        case False
        with eq tb I show ?thesis by auto
      next
        case True
        show ?thesis
        proof (cases "body s w")
          case (Done rw)
          then obtain x w' where rw: "body s w = Done (x, w')" by (cases rw) simp
          show ?thesis
          proof (cases x)
            case (Inl e)
            with eq tb True rw exit [OF I True] show ?thesis by auto
          next
            case (Inr s')
            with eq tb True rw have "loop test body s' w' = Some r" by simp
            from IH [OF this] step [OF I True] rw Inr show ?thesis by blast
          qed
        qed (use eq tb True in auto)
      qed
    qed
  qed
  with start show ?thesis by blast
qed

theorem io_while_invariant:
  assumes "io_while test body s w = Done (r, w')" "I s w"
    and "\<And>s w s' w'. I s w \<Longrightarrow> test s \<Longrightarrow> body s w = Done (Inr s', w') \<Longrightarrow> I s' w'"
    and "\<And>s w e w'. I s w \<Longrightarrow> test s \<Longrightarrow> body s w = Done (Inl e, w') \<Longrightarrow> Q e w'"
  shows "case r of Inl e \<Rightarrow> Q e w' | Inr s' \<Rightarrow> I s' w' \<and> \<not> test s'"
proof -
  obtain q where "io_loop test body s w = Some q" "q = Done (r, w')"
    using assms(1) by (auto simp: io_while_def split: option.splits)
  note q = this
  have "\<forall>x w'. q = Done (x, w') \<longrightarrow> (case x of Inl e \<Rightarrow> Q e w' | Inr s' \<Rightarrow> I s' w' \<and> \<not> test s')"
    by (rule io_loop_invariant [OF q(1), where I = I and Q = Q]) (fact assms)+
  with q(2) show ?thesis by blast
qed

lemma io_while_keeps [keeps_intros]:
  assumes "\<And>s. keeps f (body s)"
  shows "keeps f (io_while test body s)"
  unfolding keeps_def
proof (intro allI impI)
  fix w r w' assume run: "io_while test body s w = Done (r, w')"
  have "case r of Inl e \<Rightarrow> f w' = f w | Inr s' \<Rightarrow> f w' = f w \<and> \<not> test s'"
    by (rule io_while_invariant [OF run, where I = "\<lambda>_ x. f x = f w" and Q = "\<lambda>_ x. f x = f w"])
      (auto dest: keepsD [OF assms])
  then show "f w' = f w" by (auto split: sum.splits)
qed

text \<open>Termination: a measure that every completed step decreases, for a body that returns.\<close>

lemma io_while_returns:
  fixes m :: "'s \<Rightarrow> 'w \<Rightarrow> nat"
  assumes "I s w"
    and "\<And>s w. I s w \<Longrightarrow> test s \<Longrightarrow> \<exists>r w'. body s w = Done (r, w')"
    and "\<And>s w s' w'. I s w \<Longrightarrow> test s \<Longrightarrow> body s w = Done (Inr s', w') \<Longrightarrow> I s' w' \<and> m s' w' < m s w"
  shows "\<exists>r w'. io_while test body s w = Done (r, w')"
  using assms(1)
proof (induction "m s w" arbitrary: s w rule: less_induct)
  case less
  show ?case
  proof (cases "test s")
    case True
    then obtain r w' where b: "body s w = Done (r, w')" using assms(2) [OF less.prems] by blast
    show ?thesis
    proof (cases r)
      case (Inl e)
      then show ?thesis using True b by (subst io_while_unfold) simp
    next
      case (Inr s')
      with assms(3) [OF less.prems True] b have "I s' w'" "m s' w' < m s w" by simp_all
      from less.hyps [OF this(2,1)] show ?thesis using True b Inr by (subst io_while_unfold) simp
    qed
  qed (simp add: exI)
qed

text \<open>Total correctness, when the steps succeed as well.\<close>

lemma io_while_total:
  fixes m :: "'s \<Rightarrow> nat"
  assumes "I s w"
    and "\<And>s w. I s w \<Longrightarrow> test s \<Longrightarrow> \<exists>s' w'. body s w = Done (Inr s', w') \<and> I s' w' \<and> m s' < m s"
  shows "\<exists>s' w'. io_while test body s w = Done (Inr s', w') \<and> I s' w' \<and> \<not> test s'"
  using assms(1)
proof (induction "m s" arbitrary: s w rule: less_induct)
  case less
  show ?case
  proof (cases "test s")
    case True
    from assms(2) [OF less.prems this] obtain s' w' where
      b: "body s w = Done (Inr s', w')" "I s' w'" "m s' < m s" by blast
    from less.hyps [OF b(3,2)] show ?thesis using True b(1) by (subst io_while_unfold) simp
  qed (use less.prems in simp)
qed

text \<open>Divergence: every step goes on and the test stays true.\<close>

lemma io_loop_stuck:
  fixes body :: "'s \<Rightarrow> 'w \<Rightarrow> ('s Result \<times> 'w) run"
  assumes run: "io_loop test body s w = Some r" and start: "I s w"
    and go: "\<And>s w. I s w \<Longrightarrow> test s \<and> (\<exists>s' w'. body s w = Done (Inr s', w') \<and> I s' w')"
  shows False
proof -
  let ?P = "\<lambda>t b s w (r :: ('s Result \<times> 'w) run). t = test \<longrightarrow> b = body \<longrightarrow> \<not> I s w"
  have "?P test body s w r"
  proof (rule io_loop.raw_induct [OF _ run, of ?P], intro impI notI)
    fix loop t b s w r
    assume IH: "\<And>t b s w r. loop t b s w = Some r \<Longrightarrow> ?P t b s w r"
      and eq: "(if t s then
         (case b s w of
            Done rw \<Rightarrow>
              (case fst rw of
                 Inl e \<Rightarrow> Some (Done (Inl e, snd rw))
               | Inr s' \<Rightarrow> loop t b s' (snd rw))
          | Undef \<Rightarrow> Some Undef
          | Diverges \<Rightarrow> Some Diverges)
       else Some (Done (Inr s, w))) = Some r"
      and tb: "t = test" "b = body" and I: "I s w"
    from go [OF I] obtain s' w' where *: "test s" "body s w = Done (Inr s', w')" "I s' w'" by blast
    with eq tb have "loop test body s' w' = Some r" by simp
    from IH [OF this] *(3) show False by simp
  qed
  with start show False by simp
qed

lemma io_while_diverges:
  assumes "I s w"
    and "\<And>s w. I s w \<Longrightarrow> test s \<and> (\<exists>s' w'. body s w = Done (Inr s', w') \<and> I s' w')"
  shows "io_while test body s w = Diverges"
proof (cases "io_loop test body s w")
  case None
  then show ?thesis by (simp add: io_while_def)
next
  case (Some r)
  have False by (rule io_loop_stuck [OF Some, where I = I]) (fact assms)+
  then show ?thesis ..
qed

end
