(* ===== verification/Confinement.thy ===== *)
theory Confinement
  imports Actions Io_Loop
begin

text \<open>
  Confinement: an action changes the contents of no disk but one, and of that one only bytes in an
  interval. The law that this needs of the Win32 API is that \<open>WriteFile\<close>, whether it succeeds, fails or
  writes less than asked for, stores nothing outside the range of the request. The rules of the
  collection \<open>within_intros\<close> reduce the confinement of an action to its single writes.
\<close>

section \<open>Worlds that differ in a range of one disk\<close>

definition changed_within :: "'w win_view \<Rightarrow> int \<Rightarrow> nat \<Rightarrow> nat \<Rightarrow> 'w \<Rightarrow> 'w \<Rightarrow> bool" where
  "changed_within V d lo hi w w' \<longleftrightarrow>
     (\<forall>d'. d' \<noteq> d \<longrightarrow> contents V w' d' = contents V w d') \<and>
     length (contents V w' d) = length (contents V w d) \<and>
     (\<forall>i. i < length (contents V w d) \<longrightarrow> i < lo \<or> hi \<le> i \<longrightarrow> contents V w' d ! i = contents V w d ! i)"

lemma changed_within_refl [simp, intro]: "changed_within V d lo hi w w"
  by (simp add: changed_within_def)

lemma changed_within_same: "contents V w' = contents V w \<Longrightarrow> changed_within V d lo hi w w'"
  by (simp add: changed_within_def)

lemma changed_within_trans:
  "changed_within V d lo hi w w' \<Longrightarrow> changed_within V d lo hi w' w'' \<Longrightarrow> changed_within V d lo hi w w''"
  unfolding changed_within_def by metis

lemma changed_within_mono:
  "changed_within V d lo hi w w' \<Longrightarrow> lo' \<le> lo \<Longrightarrow> hi \<le> hi' \<Longrightarrow> changed_within V d lo' hi' w w'"
  unfolding changed_within_def by auto

lemma changed_within_slice:
  assumes "changed_within V d lo hi w w'" "a + n \<le> length (contents V w d)" "a + n \<le> lo \<or> hi \<le> a"
  shows "slice a n (contents V w' d) = slice a n (contents V w d)"
  by (rule slice_eqI) (use assms in \<open>auto simp: changed_within_def nth_slice\<close>)

section \<open>The law of writes\<close>

definition write_frame :: "'w Win32 \<Rightarrow> 'w win_view \<Rightarrow> bool" where
  "write_frame W V \<longleftrightarrow>
     (\<forall>h off bs w r w' d rw. WriteFile W h off bs w = (r, w') \<longrightarrow> handles V w h = Some (OnDisk d rw) \<longrightarrow>
        changed_within V d (unat off) (unat off + length bs) w w')"

lemma write_frameD:
  "write_frame W V \<Longrightarrow> WriteFile W h off bs w = (r, w') \<Longrightarrow> handles V w h = Some (OnDisk d rw) \<Longrightarrow>
    changed_within V d (unat off) (unat off + length bs) w w'"
  unfolding write_frame_def by blast

lemma sim_write_frame: "write_frame sim_win32 sim_view"
  unfolding write_frame_def changed_within_def
  by (auto simp: sim_defs sim_target_def nth_blit split: if_splits option.splits target.splits)

section \<open>Confined actions\<close>

text \<open>The handle, if there is one, is that of the disk.\<close>

definition on_disk :: "'w win_view \<Rightarrow> nat option \<Rightarrow> int \<Rightarrow> 'w \<Rightarrow> bool" where
  "on_disk V ho d w \<longleftrightarrow> (\<forall>h. ho = Some h \<longrightarrow> (\<exists>rw. handles V w h = Some (OnDisk d rw)))"

lemma on_disk_None [simp]: "on_disk V None d w"
  by (simp add: on_disk_def)

lemma on_disk_handles: "handles V w' = handles V w \<Longrightarrow> on_disk V ho d w' = on_disk V ho d w"
  by (simp add: on_disk_def)

definition io_within :: "'w win_view \<Rightarrow> nat option \<Rightarrow> int \<Rightarrow> nat \<Rightarrow> nat \<Rightarrow> ('a, 'w) io \<Rightarrow> bool" where
  "io_within V ho d lo hi m \<longleftrightarrow>
     (\<forall>w r w'. on_disk V ho d w \<longrightarrow> m w = Done (r, w') \<longrightarrow> on_disk V ho d w' \<and> changed_within V d lo hi w w')"

definition act_within :: "'w win_view \<Rightarrow> nat option \<Rightarrow> int \<Rightarrow> nat \<Rightarrow> nat \<Rightarrow> ('a, 's, 'w) act \<Rightarrow> bool" where
  "act_within V ho d lo hi a \<longleftrightarrow>
     (\<forall>s w r ps s' w'. on_disk V ho d w \<longrightarrow> a s w = Done (r, ps, s', w') \<longrightarrow>
        on_disk V ho d w' \<and> changed_within V d lo hi w w')"

named_theorems within_intros \<open>actions that are confined to a range of a disk\<close>

lemma io_withinD:
  "io_within V ho d lo hi m \<Longrightarrow> on_disk V ho d w \<Longrightarrow> m w = Done (r, w') \<Longrightarrow>
    on_disk V ho d w' \<and> changed_within V d lo hi w w'"
  unfolding io_within_def by blast

lemma act_withinD:
  "act_within V ho d lo hi a \<Longrightarrow> on_disk V ho d w \<Longrightarrow> a s w = Done (r, ps, s', w') \<Longrightarrow>
    on_disk V ho d w' \<and> changed_within V d lo hi w w'"
  unfolding act_within_def by blast

lemma io_within_return [within_intros]: "io_within V ho d lo hi (io_return x)"
  by (auto simp: io_within_def io_return_Done)

lemma io_within_pure [within_intros]: "io_within V ho d lo hi (\<lambda>w. Done (f w, w))"
  by (auto simp: io_within_def)

lemma io_within_bind [within_intros]:
  "io_within V ho d lo hi m \<Longrightarrow> (\<And>x. io_within V ho d lo hi (f x)) \<Longrightarrow> io_within V ho d lo hi (io_bind m f)"
  unfolding io_within_def io_bind_Done by (metis changed_within_trans)

lemma io_within_try [within_intros]:
  "io_within V ho d lo hi m \<Longrightarrow> (\<And>x. io_within V ho d lo hi (f x)) \<Longrightarrow> io_within V ho d lo hi (io_try m f)"
  unfolding io_within_def io_try_Done by (metis changed_within_trans)

lemma io_within_if [within_intros]:
  "(b \<Longrightarrow> io_within V ho d lo hi m) \<Longrightarrow> (\<not> b \<Longrightarrow> io_within V ho d lo hi k) \<Longrightarrow>
    io_within V ho d lo hi (if b then m else k)"
  by simp

lemma io_within_require [within_intros]:
  "(b \<Longrightarrow> io_within V ho d lo hi m) \<Longrightarrow> io_within V ho d lo hi (\<lambda>w. require b (m w))"
  by (auto simp: io_within_def require_Done_iff)

text \<open>A loop is confined if its body is in the states that the loop passes through.\<close>

lemma io_within_while_invariant:
  assumes "P s" "\<And>s. P s \<Longrightarrow> test s \<Longrightarrow> io_within V ho d lo hi (body s)"
    and "\<And>s w s' w'. P s \<Longrightarrow> test s \<Longrightarrow> body s w = Done (Inr s', w') \<Longrightarrow> P s'"
  shows "io_within V ho d lo hi (io_while test body s)"
  unfolding io_within_def
proof (intro allI impI)
  fix w r w'
  assume start: "on_disk V ho d w" and run: "io_while test body s w = Done (r, w')"
  let ?I = "\<lambda>v. on_disk V ho d v \<and> changed_within V d lo hi w v"
  have step: "?I v'" if "?I v" "P s" "test s" "body s v = Done (x, v')" for s v x v'
  proof -
    from that(1) have v: "on_disk V ho d v" "changed_within V d lo hi w v" by simp_all
    from io_withinD [OF assms(2) [OF that(2,3)] v(1) that(4)] show ?thesis
      by (auto intro: changed_within_trans [OF v(2)])
  qed
  have "case r of Inl e \<Rightarrow> ?I w' | Inr s' \<Rightarrow> (P s' \<and> ?I w') \<and> \<not> test s'"
    by (rule io_while_invariant [OF run, where I = "\<lambda>s v. P s \<and> ?I v" and Q = "\<lambda>_. ?I"])
      (use start step assms(1,3) in blast)+
  then show "on_disk V ho d w' \<and> changed_within V d lo hi w w'" by (cases r) simp_all
qed

lemma io_within_while [within_intros]:
  "(\<And>s. test s \<Longrightarrow> io_within V ho d lo hi (body s)) \<Longrightarrow> io_within V ho d lo hi (io_while test body s)"
  by (rule io_within_while_invariant [where P = "\<lambda>_. True"]) simp_all

lemma act_within_simple [within_intros]:
  "act_within V ho d lo hi (report n msg)" "act_within V ho d lo hi (act_return x)"
  "act_within V ho d lo hi (act_error e)" "act_within V ho d lo hi (act_update g)"
  "io_within V ho d lo hi m \<Longrightarrow> act_within V ho d lo hi (act_io m)"
  "io_within V ho d lo hi m \<Longrightarrow> act_within V ho d lo hi (act_ignore m)"
  "(b \<Longrightarrow> act_within V ho d lo hi a) \<Longrightarrow> act_within V ho d lo hi (act_require b a)"
  unfolding act_within_def act_simple_Done io_within_def by blast+

lemma act_within_bind [within_intros]:
  assumes "act_within V ho d lo hi m" "\<And>x. act_within V ho d lo hi (f x)"
  shows "act_within V ho d lo hi (act_bind m f)"
  unfolding act_within_def
proof (intro allI impI)
  fix s w r ps s' w'
  assume on: "on_disk V ho d w" and "act_bind m f s w = Done (r, ps, s', w')"
  then consider x ps1 where "m s w = Done (x, ps1, s', w')"
    | x ps1 s1 w1 ps2 where "m s w = Done (Inr x, ps1, s1, w1)" "f x s1 w1 = Done (r, ps2, s', w')"
    by (auto simp: act_bind_Done)
  then show "on_disk V ho d w' \<and> changed_within V d lo hi w w'"
  proof cases
    case 1
    with act_withinD [OF assms(1) on] show ?thesis .
  next
    case 2
    from act_withinD [OF assms(1) on 2(1)] have 1: "on_disk V ho d w1" "changed_within V d lo hi w w1" by simp_all
    from act_withinD [OF assms(2) 1(1) 2(2)] show ?thesis by (auto intro: changed_within_trans [OF 1(2)])
  qed
qed

lemma act_within_then [within_intros]:
  "act_within V ho d lo hi m \<Longrightarrow> act_within V ho d lo hi k \<Longrightarrow> act_within V ho d lo hi (act_then m k)"
  unfolding act_then_def by (rule act_within_bind)

lemma act_within_get [within_intros]:
  "(\<And>s w. act_within V ho d lo hi (g s w)) \<Longrightarrow> act_within V ho d lo hi (act_get g)"
  unfolding act_within_def act_get_def by simp

lemma act_within_if [within_intros]:
  "(b \<Longrightarrow> act_within V ho d lo hi m) \<Longrightarrow> (\<not> b \<Longrightarrow> act_within V ho d lo hi k) \<Longrightarrow>
    act_within V ho d lo hi (if b then m else k)"
  by simp

section \<open>The handle of a raw disk\<close>

lemma writeSectors_within [within_intros]:
  assumes "handle_laws W V" "write_frame W V" "rh_handle disk = ho" "ho \<noteq> None"
    and "lo \<le> unat (lba * ucast ss)" "unat (lba * ucast ss) + unat (count * ucast ss) \<le> hi"
  shows "io_within V ho d lo hi (writeSectors W disk lba data count ss)"
  unfolding io_within_def
proof (intro allI impI)
  fix w r w'
  assume on: "on_disk V ho d w" and run: "writeSectors W disk lba data count ss w = Done (r, w')"
  have keep: "on_disk V ho d w'"
    using on on_disk_handles [OF keepsD [OF writeSectors_handles [OF assms(1)] run]] by simp
  from assms(3,4) obtain h rw where h: "rh_handle disk = Some h" "handles V w h = Some (OnDisk d rw)"
    using on by (auto simp: on_disk_def)
  let ?n = "unat (count * ucast ss)"
  from run h(1) have "w' = w \<or> (\<exists>bs q. data = Some bs \<and> ?n \<le> length bs \<and>
      WriteFile W h (lba * ucast ss) (take ?n bs) w = (q, w'))"
    by (auto simp: writeSectors_def Let_def require_Done_iff split: if_splits option.splits prod.splits sum.splits)
  then show "on_disk V ho d w' \<and> changed_within V d lo hi w w'"
  proof (elim disjE exE conjE)
    fix bs q
    assume len: "?n \<le> length bs" and wr: "WriteFile W h (lba * ucast ss) (take ?n bs) w = (q, w')"
    from write_frameD [OF assms(2) wr h(2)] len
    have "changed_within V d (unat (lba * ucast ss)) (unat (lba * ucast ss) + ?n) w w'" by simp
    from changed_within_mono [OF this assms(5,6)] keep show ?thesis by simp
  qed (use keep in simp)
qed

lemma io_within_keeps:
  assumes "keeps (handles V) m" "keeps (contents V) m"
  shows "io_within V ho d lo hi m"
  unfolding io_within_def
proof (intro allI impI conjI)
  fix w r w'
  assume on: "on_disk V ho d w" and run: "m w = Done (r, w')"
  show "on_disk V ho d w'" using on on_disk_handles [OF keepsD [OF assms(1) run]] by simp
  show "changed_within V d lo hi w w'" by (rule changed_within_same [OF keepsD [OF assms(2) run]])
qed

lemma flush_within [within_intros]:
  "handle_laws W V \<Longrightarrow> content_laws W V \<Longrightarrow> io_within V ho d lo hi (rawFlushBuffers W disk)"
  by (rule io_within_keeps) (auto intro: keeps_intros)

section \<open>Requests on a disk without faults\<close>

lemma writeSectors_works:
  assumes "disk_works W V d" "rh_handle disk = Some h" "rh_accessMode disk = ReadWrite"
    and "handles V w h = Some (OnDisk d True)" "unat (lba * ucast ss) + unat (count * ucast ss) \<le> length (contents V w d)"
    and "unat (count * ucast ss) < 2 ^ 32" "unat (count * ucast ss) \<le> length bs"
  shows "\<exists>w'. writeSectors W disk lba (Some bs) count ss w = Done (ok, w')"
proof (cases "count = 0")
  case True
  with assms(2,3) show ?thesis by (simp add: writeSectors_def)
next
  case False
  let ?n = "unat (count * ucast ss)"
  have le: "\<not> MAXDWORD < count * ucast ss" using assms(6) by (simp add: word_less_nat_alt)
  have len: "length (take ?n bs) = ?n" using assms(7) by simp
  then obtain w' where "WriteFile W h (lba * ucast ss) (take ?n bs) w = (Inr (of_nat (length (take ?n bs))), w')"
    using assms(1,4-6) unfolding disk_works_def by metis
  moreover have "(of_nat ?n :: u32) = ucast (count * ucast ss)"
    by (rule word_unat_eq_iff [THEN iffD2]) (simp add: unat_of_nat unat_ucast_MAXDWORD [OF le] assms(6))
  ultimately show ?thesis
    using assms(2,3,7) False le by (simp add: writeSectors_def Let_def len)
qed

definition disk_readable :: "'w Win32 \<Rightarrow> 'w win_view \<Rightarrow> int \<Rightarrow> bool" where
  "disk_readable W V d \<longleftrightarrow>
     (\<forall>h w rw off n. handles V w h = Some (OnDisk d rw) \<longrightarrow> unat off + unat n \<le> length (contents V w d) \<longrightarrow>
        (\<exists>bs. ReadFile W h off n w = Inr bs))"

lemma disk_works_readable: "disk_works W V d \<Longrightarrow> disk_readable W V d"
  unfolding disk_works_def disk_readable_def by blast

lemma readSectors_works:
  assumes "content_laws W V" "disk_readable W V d" "rh_handle disk = Some h" "handles V w h = Some (OnDisk d rw)"
    and "unat (lba * ucast ss) + unat (count * ucast ss) \<le> length (contents V w d)" "unat (count * ucast ss) < 2 ^ 32"
  shows "readSectors W disk lba count ss w = Inr (slice (unat (lba * ucast ss)) (unat (count * ucast ss)) (contents V w d))"
proof -
  have le: "\<not> MAXDWORD < count * ucast ss" using assms(6) by (simp add: word_less_nat_alt)
  have "unat (lba * ucast ss) + unat (ucast (count * ucast ss) :: u32) \<le> length (contents V w d)"
    using assms(5) by (simp add: unat_ucast_MAXDWORD [OF le])
  then obtain bs where "ReadFile W h (lba * ucast ss) (ucast (count * ucast ss)) w = Inr bs"
    using assms(2,4) unfolding disk_readable_def by blast
  then have "\<exists>bs. readSectors W disk lba count ss w = Inr bs"
    using assms(3) le by (simp add: readSectors_def Let_def)
  then show ?thesis using readSectors_slice [OF assms(1,3,4)] by blast
qed

end
