(* ===== verification/Ext_Layout.thy ===== *)
theory Ext_Layout
  imports Format_Ext
begin

text \<open>
  What holds of the ext file systems that the engine writes: the detector recognizes the superblock, the
  block bitmaps mark what they should, and all writes stay inside the partition if every group has room
  for its metadata; the engine does not check that the last one has.
\<close>

section \<open>The superblock is recognized\<close>

lemma uuidText_slice: "off + 16 \<le> length data \<Longrightarrow> uuidText data off = uuidText (slice off 16 data) 0"
  by (simp add: uuidText_def Let_def nth_slice)

lemma extSuperblock_fields:
  fixes options G uuid seed now
  assumes "length uuid = 16" "length seed = 16"
  defines "sb \<equiv> extSuperblock options G uuid seed now"
  shows "length sb = 1024" "readLE16 sb 0x38 = EXT_SUPER_MAGIC" "readLE32 sb 0x18 = eg_logBlockSize G"
    "readLE32 sb 0x5C = fst (extFeatures options G)" "readLE32 sb 0x60 = fst (snd (extFeatures options G))"
    "slice 0x68 16 sb = uuid" "slice 0x78 16 sb = padTo 16 (fo_volumeLabel options)"
    "readLE32 sb 0x0C = ucast (extFreeBlocks G)" "readLE16 sb 0x5A = 0"
proof -
  obtain c i r where F: "extFeatures options G = (c, i, r)" by (metis prod_cases3)
  note d = sb_def extSuperblock_def Let_def F prod.case
  show "length sb = 1024" "readLE16 sb 0x38 = EXT_SUPER_MAGIC" "readLE32 sb 0x18 = eg_logBlockSize G"
    "readLE32 sb 0x5C = fst (extFeatures options G)" "readLE32 sb 0x60 = fst (snd (extFeatures options G))"
    "readLE32 sb 0x0C = ucast (extFreeBlocks G)" "readLE16 sb 0x5A = 0"
    using assms(1,2) by (simp_all add: d buf_simps)
  show "slice 0x68 16 sb = uuid" using assms(1,2) unfolding d by (simp add: buf_simps slice_blit_length)
  show "slice 0x78 16 sb = padTo 16 (fo_volumeLabel options)"
    using assms(1,2) unfolding d
    by (intro slice_eqI) (simp_all add: buf_simps padTo_def min_def nth_append)
qed

lemma extGeometry_cases:
  assumes "extGeometry options partSize = Inr G"
  obtains bs isz where "bs \<in> {1024, 2048, 4096}" "isz \<in> {128, 256}" "1024 * 1024 \<le> partSize"
    "G = extGeometryOf options partSize bs isz"
  using assms unfolding extGeometry_def Let_def by (auto split: if_split_asm simp: not_less)

lemma extGeometry_sizes:
  assumes "extGeometry options partSize = Inr G"
  shows "eg_blockSize G \<in> {1024, 2048, 4096}" "eg_logBlockSize G < 10"
    "push_bit (unat (eg_logBlockSize G)) 1024 = eg_blockSize G"
    "eg_totalBlocks G = partSize div ucast (eg_blockSize G)" "eg_blocksPerGroup G = eg_blockSize G * 8"
    "eg_inodeSize G \<in> {128, 256}" "eg_firstDataBlock G = (if eg_blockSize G = 1024 then 1 else 0)"
    "eg_use64bit G \<Longrightarrow> fo_targetFs options = Ext4" "1024 * 1024 \<le> partSize"
    "eg_hasJournal G \<longleftrightarrow> fo_targetFs options \<in> {Ext3, Ext4} \<and> fo_enableJournal options"
    "eg_numGroups G = ucast ((eg_totalBlocks G + ucast (eg_blocksPerGroup G) - 1) div ucast (eg_blocksPerGroup G))"
    "eg_descSize G \<in> {32, 64}" "eg_gdtBlocks G = (eg_numGroups G * ucast (eg_descSize G) + eg_blockSize G - 1) div eg_blockSize G"
    "eg_inodeTableBlocksPerGroup G = (eg_inodesPerGroup G * eg_inodeSize G + eg_blockSize G - 1) div eg_blockSize G"
proof -
  obtain bs isz where g: "bs \<in> {1024, 2048, 4096}" "isz \<in> {128, 256}" "1024 * 1024 \<le> partSize"
    "G = extGeometryOf options partSize bs isz" using extGeometry_cases [OF assms] .
  note d = extGeometryOf_def Let_def ExtGeometry.simps
  show "eg_blockSize G \<in> {1024, 2048, 4096}" "eg_logBlockSize G < 10"
    "push_bit (unat (eg_logBlockSize G)) 1024 = eg_blockSize G"
    "eg_totalBlocks G = partSize div ucast (eg_blockSize G)" "eg_blocksPerGroup G = eg_blockSize G * 8"
    "eg_inodeSize G \<in> {128, 256}" "eg_firstDataBlock G = (if eg_blockSize G = 1024 then 1 else 0)"
    "1024 * 1024 \<le> partSize" "eg_descSize G \<in> {32, 64}"
    "eg_numGroups G = ucast ((eg_totalBlocks G + ucast (eg_blocksPerGroup G) - 1) div ucast (eg_blocksPerGroup G))"
    "eg_gdtBlocks G = (eg_numGroups G * ucast (eg_descSize G) + eg_blockSize G - 1) div eg_blockSize G"
    "eg_inodeTableBlocksPerGroup G = (eg_inodesPerGroup G * eg_inodeSize G + eg_blockSize G - 1) div eg_blockSize G"
    using g(1-3) unfolding g(4) d by auto
  show "eg_use64bit G \<Longrightarrow> fo_targetFs options = Ext4"
    "eg_hasJournal G \<longleftrightarrow> fo_targetFs options \<in> {Ext3, Ext4} \<and> fo_enableJournal options"
    unfolding g(4) d by auto
qed

text \<open>
  The superblock that is on the partition when the format is complete: with a journal it is written
  a second time, with another number of free blocks.
\<close>

definition extFinalSuperblock :: "FormatOptions \<Rightarrow> ExtGeometry \<Rightarrow> bytes \<Rightarrow> bytes \<Rightarrow> u32 \<Rightarrow> bytes" where
  "extFinalSuperblock options G uuid seed now =
     (let sb = extSuperblock options G uuid seed now
      in if eg_hasJournal G then superblockAfterJournal G sb else sb)"

text \<open>The number of free blocks before it is cut off at 32 bits; the journal counts twice in it.\<close>

definition extFinalFree :: "ExtGeometry \<Rightarrow> u64" where
  "extFinalFree G =
     (if \<not> eg_hasJournal G then extFreeBlocks G
      else if extFreeBlocks G > ucast (eg_journalBlocks G) then extFreeBlocks G - ucast (eg_journalBlocks G) else 0)"

lemma journalUpdate_superblock:
  "eg_hasJournal G \<Longrightarrow> last (journalUpdateSteps G (extSuperblock options G uuid seed now) bitmap) =
     WriteStep 1024 (extFinalSuperblock options G uuid seed now)"
  by (simp add: journalUpdateSteps_def extFinalSuperblock_def)

lemma superblockAfterJournal_reads:
  assumes "length sb = 1024"
  shows "k + 4 \<le> 0x0C \<or> 0x10 \<le> k \<Longrightarrow> readLE32 (superblockAfterJournal G sb) k = readLE32 sb k"
    "k + 2 \<le> 0x0C \<or> 0x10 \<le> k \<Longrightarrow> readLE16 (superblockAfterJournal G sb) k = readLE16 sb k"
    "0x10 \<le> k \<Longrightarrow> k + n \<le> 1024 \<Longrightarrow> slice k n (superblockAfterJournal G sb) = slice k n sb"
  using assms by (simp_all add: superblockAfterJournal_def buf_simps del: One_nat_def)

lemma extFinalSuperblock_reads:
  assumes "length uuid = 16" "length seed = 16"
  shows "k + 4 \<le> 0x0C \<or> 0x10 \<le> k \<Longrightarrow>
      readLE32 (extFinalSuperblock options G uuid seed now) k = readLE32 (extSuperblock options G uuid seed now) k"
    "k + 2 \<le> 0x0C \<or> 0x10 \<le> k \<Longrightarrow>
      readLE16 (extFinalSuperblock options G uuid seed now) k = readLE16 (extSuperblock options G uuid seed now) k"
    "0x10 \<le> k \<Longrightarrow> k + n \<le> 1024 \<Longrightarrow>
      slice k n (extFinalSuperblock options G uuid seed now) = slice k n (extSuperblock options G uuid seed now)"
  using superblockAfterJournal_reads extSuperblock_fields(1) [OF assms]
  by (simp_all add: extFinalSuperblock_def Let_def)

lemma extFinalSuperblock_fields:
  fixes options G uuid seed now
  assumes "length uuid = 16" "length seed = 16"
  defines "sb \<equiv> extFinalSuperblock options G uuid seed now"
  shows "length sb = 1024" "readLE16 sb 0x38 = EXT_SUPER_MAGIC" "readLE32 sb 0x18 = eg_logBlockSize G"
    "readLE32 sb 0x5C = fst (extFeatures options G)" "readLE32 sb 0x60 = fst (snd (extFeatures options G))"
    "slice 0x68 16 sb = uuid" "slice 0x78 16 sb = padTo 16 (fo_volumeLabel options)"
    "readLE32 sb 0x0C = ucast (extFinalFree G)"
proof -
  note f = extSuperblock_fields [OF assms(1,2), where options = options and G = G and now = now]
    and r = extFinalSuperblock_reads [OF assms(1,2), where options = options and G = G and now = now]
  show "length sb = 1024" "readLE32 sb 0x0C = ucast (extFinalFree G)"
    using f(1,8) by (simp_all add: sb_def extFinalSuperblock_def superblockAfterJournal_def extFinalFree_def
        Let_def buf_simps)
  show "readLE16 sb 0x38 = EXT_SUPER_MAGIC" "readLE32 sb 0x18 = eg_logBlockSize G"
    "readLE32 sb 0x5C = fst (extFeatures options G)" "readLE32 sb 0x60 = fst (snd (extFeatures options G))"
    "slice 0x68 16 sb = uuid" "slice 0x78 16 sb = padTo 16 (fo_volumeLabel options)"
    using f unfolding sb_def by (simp_all add: r)
qed

lemma ext_final_detected:
  assumes "extGeometry options partSize = Inr G" "fo_targetFs options \<in> {Ext2, Ext3, Ext4}"
    and "length uuid = 16" "length seed = 16"
    and "safeRead readFunc 1024 1024 = extFinalSuperblock options G uuid seed now"
  shows "\<exists>d'. detectExt readFunc d = Some d' \<and>
    fd_type d' = (if fo_targetFs options = Ext3 \<and> \<not> fo_enableJournal options then Ext2 else fo_targetFs options) \<and>
    fd_blockSize d' = eg_blockSize G \<and> fd_uuid d' = uuidText uuid 0 \<and>
    fd_label d' = trimSpaces (takeWhile (\<lambda>b. b \<noteq> 0) (take 16 (fo_volumeLabel options)))"
proof -
  let ?sb = "extFinalSuperblock options G uuid seed now"
  note f = extFinalSuperblock_fields [OF assms(3,4), where options = options and G = G and now = now]
    and g = extGeometry_sizes [OF assms(1)]
  have u: "uuidText ?sb 0x68 = uuidText uuid 0"
    using uuidText_slice [of "0x68" ?sb] f(1,6) by simp
  have l: "extractString ?sb 0x78 16 = trimSpaces (takeWhile (\<lambda>b. b \<noteq> 0) (take 16 (fo_volumeLabel options)))"
    by (simp add: extractString_def f(7) takeWhile_padTo)
  have c: "fst (extFeatures options G) AND 0x0004 \<noteq> 0 \<longleftrightarrow> eg_hasJournal G"
    and i: "fst (snd (extFeatures options G)) AND 0x0200 \<noteq> 0 \<longleftrightarrow> fo_targetFs options = Ext4"
    and i': "fo_targetFs options \<noteq> Ext4 \<Longrightarrow> fst (snd (extFeatures options G)) = 2"
    using assms(2) g(8,10) by (auto simp: extFeatures_def Let_def)
  show ?thesis
    using assms(2,5) g(2,3,10) c i i' by (auto simp: detectExt_def Let_def f u l)
qed


section \<open>The block bitmaps\<close>

definition bitOf :: "bytes \<Rightarrow> nat \<Rightarrow> bool" where
  "bitOf bitmap b = bit (bitmap ! (b div 8)) (b mod 8)"

lemma length_setBit [simp]: "length (setBit b bitmap) = length bitmap"
  by (simp add: setBit_def)

lemma length_fold_setBit [simp]: "length (fold setBit bs bitmap) = length bitmap"
  by (induction bs arbitrary: bitmap) simp_all

lemma bitOf_setBit:
  assumes "b < 8 * length bitmap"
  shows "bitOf (setBit b bitmap) c \<longleftrightarrow> c = b \<or> bitOf bitmap c"
proof (cases "c div 8 = b div 8")
  case True
  moreover have "b div 8 < length bitmap" using assms by linarith
  moreover have "b mod 8 = c mod 8 \<longleftrightarrow> c = b" using True by (metis div_mult_mod_eq)
  moreover have "bit (push_bit k 1 :: u8) (c mod 8) \<longleftrightarrow> c mod 8 = k" if "k < 8" for k
    using that by (auto simp: bit_simps)
  ultimately show ?thesis by (auto simp: bitOf_def setBit_def bit_or_iff)
next
  case False
  then show ?thesis by (auto simp: bitOf_def setBit_def)
qed

lemma bitOf_fold_setBit:
  assumes "list_all (\<lambda>b. b < 8 * length bitmap) bs"
  shows "bitOf (fold setBit bs bitmap) c \<longleftrightarrow> c \<in> set bs \<or> bitOf bitmap c"
  using assms by (induction bs arbitrary: bitmap) (auto simp: bitOf_setBit)

lemma bitOf_zero [simp]: "c < 8 * n \<Longrightarrow> \<not> bitOf (replicate n 0) c"
  by (simp add: bitOf_def div_less_iff_less_mult)

lemma bitmapBits_geometry:
  assumes "extGeometry options partSize = Inr G"
  shows "bitmapBits G = 8 * unat (eg_blockSize G)" "unat (eg_blocksPerGroup G) = 8 * unat (eg_blockSize G)"
  using extGeometry_sizes(1,5) [OF assms] by (auto simp: bitmapBits_def)

text \<open>
  The block bitmap of a group marks exactly the blocks of its metadata, in group 0 the blocks of the
  two directories, and in the last group everything from where the partition is taken to end.
\<close>

theorem blockBitmap_marks:
  assumes "extGeometry options partSize = Inr G" "b < 8 * unat (eg_blockSize G)"
  shows "bitOf (blockBitmap G g) b \<longleftrightarrow> b < unat (groupOverhead G g) \<or>
    g = 0 \<and> (b = unat (groupOverhead G g) \<or> b = unat (groupOverhead G g) + 1) \<or>
    isLastGroup G g \<and> unat (blocksLeft G g) \<le> b"
proof -
  let ?bs = "unat (eg_blockSize G)" and ?o = "groupOverhead G g"
  note n = bitmapBits_geometry [OF assms(1)]
  have lt: "x < eg_blockSize G * 8 \<longleftrightarrow> unat x < 8 * ?bs" for x
    using n(1) by (simp add: bitmapBits_def word_less_nat_alt)
  have one: "unat (?o + 1) = unat ?o + 1 \<or> unat (?o + 1) = 0 \<and> 8 * ?bs \<le> unat ?o"
  proof -
    have "unat ?o < 2 ^ 32" using unsigned_less [of ?o, where ?'a = nat] by simp
    then show ?thesis using extGeometry_sizes(1) [OF assms(1)] by (auto simp: unat_plus_if')
  qed
  define b1 where "b1 = fold setBit [0..<min (unat ?o) (bitmapBits G)] (replicate ?bs 0)"
  define b2 where "b2 = (if g = 0 \<and> ?o < eg_blockSize G * 8 then setBit (unat ?o) b1 else b1)"
  define b3 where "b3 = (if g = 0 \<and> ?o + 1 < eg_blockSize G * 8 then setBit (unat (?o + 1)) b2 else b2)"
  have len: "length b1 = ?bs" "length b2 = ?bs" "length b3 = ?bs" by (simp_all add: b1_def b2_def b3_def)
  have 1: "bitOf b1 c \<longleftrightarrow> c < unat ?o" if "c < 8 * ?bs" for c
    unfolding b1_def using that n by (subst bitOf_fold_setBit) (auto simp: list_all_iff)
  have 2: "bitOf b2 c \<longleftrightarrow> c < unat ?o \<or> g = 0 \<and> c = unat ?o" if "c < 8 * ?bs" for c
    using that by (auto simp: b2_def 1 bitOf_setBit len lt)
  have 3: "bitOf b3 c \<longleftrightarrow> c < unat ?o \<or> g = 0 \<and> (c = unat ?o \<or> c = unat ?o + 1)" if "c < 8 * ?bs" for c
    using that one by (auto simp: b3_def 2 bitOf_setBit len lt)
  have "blockBitmap G g = (if isLastGroup G g then
      fold setBit [unat (blocksLeft G g)..<min (unat (eg_blocksPerGroup G)) (bitmapBits G)] b3 else b3)"
    by (simp only: blockBitmap_def Let_def b1_def b2_def b3_def)
  moreover have "bitOf (fold setBit [unat (blocksLeft G g)..<min (unat (eg_blocksPerGroup G)) (bitmapBits G)] b3) b
      \<longleftrightarrow> unat (blocksLeft G g) \<le> b \<or> bitOf b3 b"
    using assms(2) n len by (subst bitOf_fold_setBit) (auto simp: list_all_iff)
  ultimately show ?thesis using 3 [OF assms(2)] by auto
qed

section \<open>The geometry in unbounded arithmetic\<close>

abbreviation (input) blockBytes :: "ExtGeometry \<Rightarrow> nat" where "blockBytes G \<equiv> unat (eg_blockSize G)"
abbreviation (input) blockCount :: "ExtGeometry \<Rightarrow> nat" where "blockCount G \<equiv> unat (eg_totalBlocks G)"
abbreviation (input) groupCount :: "ExtGeometry \<Rightarrow> nat" where "groupCount G \<equiv> unat (eg_numGroups G)"

lemma ext_counts:
  assumes "extGeometry options partSize = Inr G" "unat partSize < 2 ^ 48"
  shows "blockCount G = unat partSize div blockBytes G" "blockBytes G \<in> {1024, 2048, 4096}"
    "groupCount G = (blockCount G + 8 * blockBytes G - 1) div (8 * blockBytes G)"
    "0 < groupCount G" "groupCount G \<le> 2 ^ 25" "blockCount G * blockBytes G \<le> unat partSize" "256 \<le> blockCount G"
    "(groupCount G - 1) * (8 * blockBytes G) < blockCount G" "blockCount G \<le> groupCount G * (8 * blockBytes G)"
    "blockCount G < 2 ^ 38"
proof -
  note g = extGeometry_sizes [OF assms(1)]
  show bs: "blockBytes G \<in> {1024, 2048, 4096}" using g(1) by auto
  show T: "blockCount G = unat partSize div blockBytes G" using g(4) by (simp add: unat_div unat_ucast_32_64)
  show "blockCount G * blockBytes G \<le> unat partSize" unfolding T by (rule div_times_less_eq_dividend)
  have ps: "1048576 \<le> unat partSize" using g(9) by (simp add: word_le_nat_alt)
  show T256: "256 \<le> blockCount G" unfolding T using bs ps by (auto simp: less_eq_div_iff_mult_less_eq)
  show T38: "blockCount G < 2 ^ 38" unfolding T using bs assms(2) by (auto simp: div_less_iff_less_mult)
  let ?k = "8 * blockBytes G"
  have k: "unat (ucast (eg_blocksPerGroup G) :: u64) = ?k"
    using bitmapBits_geometry(2) [OF assms(1)] by (simp add: unat_ucast_32_64)
  have "unat (eg_totalBlocks G + ucast (eg_blocksPerGroup G) - 1 :: u64) = blockCount G + ?k - 1"
    using T38 T256 bs k by (auto simp: unat_sub_if' unat_plus_if' word_le_nat_alt)
  moreover have q: "(blockCount G + ?k - 1) div ?k \<le> 2 ^ 25"
  proof -
    have "(blockCount G + ?k - 1) div ?k < 2 ^ 25 + 1" using T38 bs by (auto simp: div_less_iff_less_mult)
    then show ?thesis by simp
  qed
  ultimately show N: "groupCount G = (blockCount G + ?k - 1) div ?k"
    unfolding g(11) using k by (subst unat_ucast_64_32) (simp_all add: unat_div)
  show "groupCount G \<le> 2 ^ 25" using q N by simp
  have k0: "0 < ?k" using bs by auto
  then show "0 < groupCount G" using T256 unfolding N by (simp add: div_greater_zero_iff)
  show "blockCount G \<le> groupCount G * ?k"
    using k0 T256 div_mult_mod_eq [of "blockCount G + ?k - 1" ?k] mod_less_divisor [OF k0, of "blockCount G + ?k - 1"]
    unfolding N by linarith
  have "groupCount G * ?k \<le> blockCount G + ?k - 1" unfolding N by (rule div_times_less_eq_dividend)
  then have "groupCount G * ?k - ?k < blockCount G" using k0 T256 by linarith
  then show "(groupCount G - 1) * ?k < blockCount G" by (simp add: diff_mult_distrib)
qed

lemma ext_metadata:
  assumes "extGeometry options partSize = Inr G"
  shows "unat (eg_gdtBlocks G) \<le> 2 ^ 22" "unat (eg_inodeTableBlocksPerGroup G) \<le> 2 ^ 22"
    "unat (eg_reservedGdtBlocks G) \<le> 1024" "unat (eg_firstDataBlock G) \<le> 1"
    "unat (eg_inodeTableBlocksPerGroup G * eg_blockSize G) = unat (eg_inodeTableBlocksPerGroup G) * blockBytes G"
    "unat (1 + eg_gdtBlocks G + eg_reservedGdtBlocks G) = 1 + unat (eg_gdtBlocks G) + unat (eg_reservedGdtBlocks G)"
    "unat (groupOverhead G g) =
       (if hasSuperblockBackup g then 1 + unat (eg_gdtBlocks G) + unat (eg_reservedGdtBlocks G) else 0)
         + 2 + unat (eg_inodeTableBlocksPerGroup G)"
proof -
  note g = extGeometry_sizes [OF assms]
  have q: "unat ((x :: u32) div eg_blockSize G) \<le> 2 ^ 22" for x
  proof -
    have "unat x div blockBytes G < 2 ^ 22 + 1"
      using g(1) unat_less_32 [of x] by (auto simp: div_less_iff_less_mult)
    then show ?thesis by (simp add: unat_div)
  qed
  show gdt: "unat (eg_gdtBlocks G) \<le> 2 ^ 22" and itb: "unat (eg_inodeTableBlocksPerGroup G) \<le> 2 ^ 22"
    using q by (simp_all only: g(13,14))
  obtain bs isz where r: "G = extGeometryOf options partSize bs isz" by (rule extGeometry_cases [OF assms])
  have "eg_reservedGdtBlocks G \<le> 1024" unfolding r extGeometryOf_def Let_def by simp
  then show res: "unat (eg_reservedGdtBlocks G) \<le> 1024" by (simp add: word_le_nat_alt)
  show "unat (eg_firstDataBlock G) \<le> 1" using g(7) by simp
  have "unat (eg_inodeTableBlocksPerGroup G) * blockBytes G < 4294967296"
  proof -
    let ?x = "eg_inodesPerGroup G * eg_inodeSize G + eg_blockSize G - 1"
    have "unat ?x div blockBytes G * blockBytes G \<le> unat ?x" by (rule div_times_less_eq_dividend)
    then show ?thesis using unat_less_32 [of ?x] by (simp only: g(14) unat_div)
  qed
  then show "unat (eg_inodeTableBlocksPerGroup G * eg_blockSize G) = unat (eg_inodeTableBlocksPerGroup G) * blockBytes G"
    by (simp add: unat_word_ariths)
  show m: "unat (1 + eg_gdtBlocks G + eg_reservedGdtBlocks G) = 1 + unat (eg_gdtBlocks G) + unat (eg_reservedGdtBlocks G)"
    using gdt res by (simp add: unat_word_ariths)
  show "unat (groupOverhead G g) =
       (if hasSuperblockBackup g then 1 + unat (eg_gdtBlocks G) + unat (eg_reservedGdtBlocks G) else 0)
         + 2 + unat (eg_inodeTableBlocksPerGroup G)"
  proof -
    have "unat (if b then 1 + eg_gdtBlocks G + eg_reservedGdtBlocks G else 0) =
        (if b then 1 + unat (eg_gdtBlocks G) + unat (eg_reservedGdtBlocks G) else 0)" for b
      by (simp add: m)
    then show ?thesis using gdt itb res unfolding groupOverhead_def
      by (simp add: unat_word_ariths)
  qed
qed

lemma groupNumbers_less:
  "g \<in> set (groupNumbers G) \<longleftrightarrow> unat g < groupCount G"
proof -
  have u: "unat (of_nat i :: u32) = i" if "i < groupCount G" for i
    using that unat_less_32 [of "eg_numGroups G"] by (simp add: unat_of_nat)
  have "g \<in> of_nat ` {..<groupCount G}" if "unat g < groupCount G"
    using that by (intro image_eqI [of _ _ "unat g"]) simp_all
  then show ?thesis unfolding groupNumbers_def using u by (auto simp: atLeast0LessThan)
qed

lemma ext_positions:
  assumes "extGeometry options partSize = Inr G" "unat partSize < 2 ^ 48" "unat g < groupCount G"
  shows "unat (groupStart G g) = unat g * (8 * blockBytes G) + unat (eg_firstDataBlock G)"
    "unat (gl_blockBitmapBlock (groupLayout G g)) = unat (groupStart G g) + unat (groupOverhead G g)
       - 2 - unat (eg_inodeTableBlocksPerGroup G)"
    "unat (gl_inodeBitmapBlock (groupLayout G g)) = unat (groupStart G g) + unat (groupOverhead G g)
       - 1 - unat (eg_inodeTableBlocksPerGroup G)"
    "unat (gl_inodeTableBlock (groupLayout G g)) = unat (groupStart G g) + unat (groupOverhead G g)
       - unat (eg_inodeTableBlocksPerGroup G)"
    "isLastGroup G g \<longleftrightarrow> unat g = groupCount G - 1"
    "isLastGroup G g \<Longrightarrow> unat (blocksLeft G g) = blockCount G - unat g * (8 * blockBytes G)"
proof -
  note c = ext_counts [OF assms(1,2)] and m = ext_metadata [OF assms(1)]
  have bpg: "unat (eg_blocksPerGroup G) = 8 * blockBytes G" by (rule bitmapBits_geometry [OF assms(1)])
  have "unat g * (8 * blockBytes G) \<le> 2 ^ 25 * (8 * 4096)"
    using assms(3) c(2,5) by (intro mult_le_mono) auto
  then have u: "unat g * (8 * blockBytes G) \<le> 2 ^ 40" by simp
  then have mul: "unat (ucast g * ucast (eg_blocksPerGroup G) :: u64) = unat g * (8 * blockBytes G)"
    by (simp add: unat_word_ariths unat_ucast_32_64 bpg)
  show s: "unat (groupStart G g) = unat g * (8 * blockBytes G) + unat (eg_firstDataBlock G)"
    using u mul m(4) by (simp add: groupStart_def unat_word_ariths unat_ucast_32_64)
  let ?meta = "if hasSuperblockBackup g
    then groupStart G g + ucast (1 + eg_gdtBlocks G + eg_reservedGdtBlocks G) else groupStart G g"
  have small: "unat (groupStart G g) \<le> 2 ^ 41" using u m(4) s by simp
  have "unat ?meta = unat (groupStart G g) +
      (if hasSuperblockBackup g then 1 + unat (eg_gdtBlocks G) + unat (eg_reservedGdtBlocks G) else 0)"
  proof -
    have "unat (ucast (1 + eg_gdtBlocks G + eg_reservedGdtBlocks G) :: u64) =
        1 + unat (eg_gdtBlocks G) + unat (eg_reservedGdtBlocks G)" by (simp only: unat_ucast_32_64 m(6))
    then have "unat (groupStart G g + ucast (1 + eg_gdtBlocks G + eg_reservedGdtBlocks G)) =
        unat (groupStart G g) + (1 + unat (eg_gdtBlocks G) + unat (eg_reservedGdtBlocks G))"
      using small m(1,3) by (subst unat_plus_if') simp
    then show ?thesis by simp
  qed
  moreover have "unat ?meta \<le> 2 ^ 42" using calculation small m(1,3) by simp
  ultimately show "unat (gl_blockBitmapBlock (groupLayout G g)) = unat (groupStart G g) + unat (groupOverhead G g)
       - 2 - unat (eg_inodeTableBlocksPerGroup G)"
    "unat (gl_inodeBitmapBlock (groupLayout G g)) = unat (groupStart G g) + unat (groupOverhead G g)
       - 1 - unat (eg_inodeTableBlocksPerGroup G)"
    "unat (gl_inodeTableBlock (groupLayout G g)) = unat (groupStart G g) + unat (groupOverhead G g)
       - unat (eg_inodeTableBlocksPerGroup G)"
    unfolding groupLayout_def Let_def m(7) by (simp_all add: unat_word_ariths)
  have N: "unat (eg_numGroups G - 1) = groupCount G - 1" using c(4) by (simp add: unat_minus_one unat_gt_0)
  show last: "isLastGroup G g \<longleftrightarrow> unat g = groupCount G - 1"
    unfolding isLastGroup_def N [symmetric] by (auto intro: unsigned_word_eqI)
  assume "isLastGroup G g"
  then have gl: "unat g = groupCount G - 1" using last by simp
  have "unat (eg_totalBlocks G - ucast g * ucast (eg_blocksPerGroup G)) = blockCount G - unat g * (8 * blockBytes G)"
    using c(8) mul by (simp add: unat_sub_if' gl)
  moreover have "blockCount G - unat g * (8 * blockBytes G) \<le> 8 * blockBytes G"
    using c(4,9) gl by (cases "groupCount G") auto
  ultimately show "unat (blocksLeft G g) = blockCount G - unat g * (8 * blockBytes G)"
    unfolding blocksLeft_def using c(2) by (subst unat_ucast_64_32) auto
qed

section \<open>Free counts\<close>

text \<open>The blocks that a group's descriptor and bitmap take to exist.\<close>

definition groupBlocks :: "ExtGeometry \<Rightarrow> u32 \<Rightarrow> u32" where
  "groupBlocks G g = (if isLastGroup G g then blocksLeft G g else eg_blocksPerGroup G)"

lemma groupBlocks_le:
  assumes "extGeometry options partSize = Inr G" "unat partSize < 2 ^ 48" "unat g < groupCount G"
  shows "unat (groupBlocks G g) \<le> 8 * blockBytes G"
proof (cases "isLastGroup G g")
  case True
  note p = ext_positions(5,6) [OF assms] and c = ext_counts(4,9) [OF assms(1,2)]
  have "blockCount G \<le> Suc (unat g) * (8 * blockBytes G)" using p(1) True c by simp
  then show ?thesis using True p by (simp add: groupBlocks_def)
next
  case False
  then show ?thesis using bitmapBits_geometry(2) [OF assms(1)] by (simp add: groupBlocks_def)
qed

text \<open>
  The count of free blocks in a group's descriptor is the number of clear bits in its block bitmap,
  for every group that has room for its metadata, except in a file system of one group of 1024-byte
  blocks, where only the descriptor allows for the boot block.
\<close>

theorem descriptor_free_count:
  assumes "extGeometry options partSize = Inr G" "unat partSize < 2 ^ 48" "unat g < groupCount G"
    and "groupCount G \<noteq> 1 \<or> eg_firstDataBlock G = 0" "unat (groupOverhead G g) + 2 \<le> unat (groupBlocks G g)"
  shows "card {b. b < 8 * unat (eg_blockSize G) \<and> \<not> bitOf (blockBitmap G g) b} =
    unat (gl_freeBlocksCount (groupLayout G g))"
proof -
  let ?o = "unat (groupOverhead G g)" and ?n = "unat (groupBlocks G g)"
  let ?d = "if g = 0 then 2 else 0 :: nat"
  note p = ext_positions(5,6) [OF assms(1-3)] and le = groupBlocks_le [OF assms(1-3)]
  have bpg: "unat (eg_blocksPerGroup G) = 8 * blockBytes G" by (rule bitmapBits_geometry [OF assms(1)])
  have "{b. b < 8 * blockBytes G \<and> \<not> bitOf (blockBitmap G g) b} = {?o + ?d..<?n}"
    using blockBitmap_marks [OF assms(1), of _ g] le bpg assms(5)
    by (auto simp: groupBlocks_def not_less split: if_splits)
  moreover have "unat (gl_freeBlocksCount (groupLayout G g)) = ?n - (?o + ?d)"
  proof -
    have one: "\<not> (eg_firstDataBlock G > 0 \<and> g = 0 \<and> isLastGroup G g)"
      using assms(4) p(1) ext_counts(4) [OF assms(1,2)] by (cases "g = 0") auto
    have free: "unat (groupBlocks G g - groupOverhead G g) = ?n - ?o" using assms(5) by (simp add: unat_sub_if')
    then have "gl_freeBlocksCount (groupLayout G g) =
        (if g = 0 then groupBlocks G g - groupOverhead G g - 2 else groupBlocks G g - groupOverhead G g)"
      using one assms(5) by (auto simp: groupLayout_def Let_def groupBlocks_def word_less_nat_alt word_le_nat_alt)
    moreover have "unat (groupBlocks G g - groupOverhead G g - 2) = ?n - (?o + 2)"
      using assms(5) free by (subst unat_sub) (simp_all add: word_le_nat_alt)
    ultimately show ?thesis using free by (cases "g = 0") simp_all
  qed
  ultimately show ?thesis by simp
qed

section \<open>All writes stay inside the partition\<close>

text \<open>
  Every group has room for its metadata, group 0 also for the directories and the first block of the
  journal, and the first inode table holds the eleven reserved inodes.
\<close>

definition extFits :: "ExtGeometry \<Rightarrow> bool" where
  "extFits G \<longleftrightarrow>
     list_all (\<lambda>g. unat (groupStart G g) + unat (groupOverhead G g) +
         (if g \<noteq> 0 then 0 else if eg_hasJournal G then 3 else 2) \<le> unat (eg_totalBlocks G)) (groupNumbers G) \<and>
     11 * unat (eg_inodeSize G) \<le> unat (eg_inodeTableBlocksPerGroup G) * unat (eg_blockSize G)"

lemma zeroChunks_inside:
  assumes "WriteStep off bs \<in> set (zeroChunks chunk pos remaining)" "unat pos + remaining < 2 ^ 64"
  shows "unat off + length bs \<le> unat pos + remaining"
  using assms
proof (induction chunk pos remaining rule: zeroChunks.induct)
  case (1 chunk pos remaining)
  let ?n = "min remaining chunk"
  have "unat (of_nat ?n :: u64) = ?n" using 1(3) by (simp add: unat_of_nat)
  then have p: "unat (pos + of_nat ?n) = unat pos + ?n"
    using 1(3) min.cobounded1 [of remaining chunk] by (subst unat_plus_if') (simp del: min.cobounded1)
  from 1(2) have nz: "\<not> (chunk = 0 \<or> remaining = 0)" by (subst (asm) zeroChunks.simps) (auto split: if_splits)
  with 1(2) consider "off = pos" "length bs = ?n"
    | "WriteStep off bs \<in> set (zeroChunks chunk (pos + of_nat ?n) (remaining - ?n))"
    by (subst (asm) zeroChunks.simps) auto
  then show ?case
  proof cases
    case 2
    from 1(1) [OF nz 2] 1(3) show ?thesis by (simp add: p)
  qed simp
qed

text \<open>A run of blocks, given by its first block, its length in bytes and a bound on its end.\<close>

definition inside :: "ExtGeometry \<Rightarrow> u64 \<Rightarrow> bytes \<Rightarrow> bool" where
  "inside G off bs \<longleftrightarrow> unat off + length bs \<le> blockCount G * blockBytes G"

lemma blockOffset_unat:
  assumes "extGeometry options partSize = Inr G" "unat partSize < 2 ^ 48" "unat b \<le> blockCount G"
  shows "unat (blockOffset G b) = unat b * blockBytes G"
proof -
  note c = ext_counts [OF assms(1,2)]
  have "unat b * blockBytes G \<le> blockCount G * blockBytes G" using assms(3) by simp
  with c(6) assms(2) have "unat b * blockBytes G < 2 ^ 48" by linarith
  then show ?thesis by (simp add: blockOffset_def unat_word_ariths unat_ucast_32_64)
qed

lemma block_inside:
  assumes "extGeometry options partSize = Inr G" "unat partSize < 2 ^ 48"
    and "length bs \<le> n * blockBytes G" "unat b + n \<le> blockCount G"
  shows "inside G (blockOffset G b) bs"
proof -
  have "unat (blockOffset G b) = unat b * blockBytes G" using assms by (intro blockOffset_unat) auto
  then have "unat (blockOffset G b) + length bs \<le> (unat b + n) * blockBytes G"
    using assms(3) by (simp add: add_mult_distrib)
  also have "\<dots> \<le> blockCount G * blockBytes G" using assms(4) by simp
  finally show ?thesis by (simp add: inside_def)
qed

lemma length_fold_writeLE32: "length (fold (\<lambda>i inode. writeLE32 inode (a i) (v i)) js inode) = length inode"
  by (induction js arbitrary: inode) simp_all

lemma ext_lengths:
  assumes "extGeometry options partSize = Inr G"
  shows "length (blockBitmap G g) = blockBytes G" "length (inodeBitmap G g) = blockBytes G"
    "length (rootInode G now) = unat (eg_inodeSize G)" "length (lostFoundInode G now) = unat (eg_inodeSize G)"
    "length (journalInode G now) = unat (eg_inodeSize G)" "length (rootDirectory G) = blockBytes G"
    "length (lostFoundDirectory G) = blockBytes G" "length (markJournal G bitmap) = length bitmap"
    "length uuid = 16 \<Longrightarrow> length (journalSuperblock G uuid) = blockBytes G"
    "length (superblockCopy sb g) = length sb" "length (superblockAfterJournal G sb) = length sb"
proof -
  have bs: "blockBytes G \<in> {1024, 2048, 4096}" using extGeometry_sizes(1) [OF assms] by auto
  show "length (blockBitmap G g) = blockBytes G" "length (inodeBitmap G g) = blockBytes G"
    "length (rootInode G now) = unat (eg_inodeSize G)" "length (lostFoundInode G now) = unat (eg_inodeSize G)"
    "length (superblockCopy sb g) = length sb" "length (superblockAfterJournal G sb) = length sb"
    by (simp_all add: blockBitmap_def inodeBitmap_def Let_def rootInode_def lostFoundInode_def dirInode_def
        superblockCopy_def superblockAfterJournal_def)
  show "length (journalInode G now) = unat (eg_inodeSize G)" by (simp add: journalInode_def Let_def length_fold_writeLE32)
  have "length (fold (\<lambda>jb bitmap. let r = rel jb in if P r then setBit (n r) bitmap else bitmap) js bitmap) = length bitmap"
    for rel :: "nat \<Rightarrow> u32" and P n js bitmap
    by (induction js arbitrary: bitmap) (simp_all add: Let_def)
  then show "length (markJournal G bitmap) = length bitmap" unfolding markJournal_def .
  have d: "length (dirEntry inode len name) = 8 + length name" for inode len name
    by (simp add: dirEntry_def ascii_def)
  show "length (rootDirectory G) = blockBytes G" "length (lostFoundDirectory G) = blockBytes G"
    using bs by (auto simp: rootDirectory_def writeDirEntry_def Let_def lostFoundDirectory_def d)
  show "length (journalSuperblock G uuid) = blockBytes G" if "length uuid = 16"
    using bs that by (auto simp: journalSuperblock_def Let_def putBE32_def)
qed

lemma extFitsD:
  assumes "extFits G"
  shows "unat g < groupCount G \<Longrightarrow> unat (groupStart G g) + unat (groupOverhead G g) \<le> blockCount G"
    "0 < groupCount G \<Longrightarrow> unat (groupStart G 0) + unat (groupOverhead G 0) + 2 \<le> blockCount G"
    "0 < groupCount G \<Longrightarrow> eg_hasJournal G \<Longrightarrow> unat (groupStart G 0) + unat (groupOverhead G 0) + 3 \<le> blockCount G"
    "11 * unat (eg_inodeSize G) \<le> unat (eg_inodeTableBlocksPerGroup G) * blockBytes G"
  using assms groupNumbers_less [of _ G] unfolding extFits_def list_all_iff
  by (fastforce split: if_splits)+

lemma backup_0 [simp]: "hasSuperblockBackup 0"
  by (simp add: hasSuperblockBackup_def)

lemma group_steps_inside:
  assumes "extGeometry options partSize = Inr G" "unat partSize < 2 ^ 48" "extFits G"
    and "unat g < groupCount G" "WriteStep off bs \<in> set (groupSteps G base span g)"
  shows "inside G off bs"
proof -
  let ?l = "groupLayout G g"
  note p = ext_positions [OF assms(1,2,4)] and m = ext_metadata [OF assms(1)] and fit = extFitsD(1) [OF assms(3,4)]
  note c = ext_counts [OF assms(1,2)] and len = ext_lengths [OF assms(1)]
  from assms(5) consider "off = blockOffset G (gl_blockBitmapBlock ?l)" "bs = blockBitmap G g"
    | "off = blockOffset G (gl_inodeBitmapBlock ?l)" "bs = inodeBitmap G g"
    | "WriteStep off bs \<in> set (zeroChunks 65536 (blockOffset G (gl_inodeTableBlock ?l))
        (unat (eg_inodeTableBlocksPerGroup G) * blockBytes G))"
    by (auto simp: groupSteps_def Let_def m(5) split: if_splits)
  then show ?thesis
  proof cases
    case 1
    then show ?thesis using p(2) fit m(7) [of g]
      by (auto simp: len intro!: block_inside [OF assms(1,2), where n = 1])
  next
    case 2
    then show ?thesis using p(3) fit m(7) [of g]
      by (auto simp: len intro!: block_inside [OF assms(1,2), where n = 1])
  next
    case 3
    let ?t = "gl_inodeTableBlock ?l" and ?n = "unat (eg_inodeTableBlocksPerGroup G)"
    have t: "unat ?t + ?n \<le> blockCount G" using p(4) fit m(7) [of g] by simp
    then have o: "unat (blockOffset G ?t) = unat ?t * blockBytes G" by (intro blockOffset_unat [OF assms(1,2)]) simp
    have "(unat ?t + ?n) * blockBytes G \<le> blockCount G * blockBytes G" using t by simp
    then have e: "unat (blockOffset G ?t) + ?n * blockBytes G \<le> blockCount G * blockBytes G"
      by (simp add: o add_mult_distrib)
    with c(6) assms(2) have "unat (blockOffset G ?t) + ?n * blockBytes G < 2 ^ 64" by simp
    from zeroChunks_inside [OF 3 this] e show ?thesis by (simp add: inside_def)
  qed
qed

lemma inode_inside:
  assumes "extGeometry options partSize = Inr G" "unat partSize < 2 ^ 48" "extFits G"
    and "length bs = unat (eg_inodeSize G)" "unat i \<le> 10"
  shows "inside G (inodeOffset G i) bs"
proof -
  let ?t = "gl_inodeTableBlock (groupLayout G 0)" and ?n = "unat (eg_inodeTableBlocksPerGroup G)"
  note c = ext_counts [OF assms(1,2)] and m = ext_metadata [OF assms(1)]
  have g0: "unat (0 :: u32) < groupCount G" using c(4) by simp
  note p = ext_positions [OF assms(1,2) g0] and fit = extFitsD [OF assms(3)]
  have t: "unat ?t + ?n \<le> blockCount G" using p(4) fit(1) [OF g0] m(7) [of 0] by simp
  then have o: "unat (blockOffset G ?t) = unat ?t * blockBytes G" by (intro blockOffset_unat [OF assms(1,2)]) simp
  have "(unat ?t + ?n) * blockBytes G \<le> blockCount G * blockBytes G" using t by simp
  then have e: "unat (blockOffset G ?t) + ?n * blockBytes G \<le> blockCount G * blockBytes G"
    by (simp add: o add_mult_distrib)
  have le: "unat i * unat (eg_inodeSize G) \<le> 10 * unat (eg_inodeSize G)" using assms(5) by (rule mult_le_mono1)
  have isz: "unat (eg_inodeSize G) \<le> 256" using extGeometry_sizes(6) [OF assms(1)] by auto
  have small: "unat i * unat (eg_inodeSize G) < 2561" by (rule le_less_trans [OF le]) (use isz in simp)
  then have "unat (i * eg_inodeSize G) = unat i * unat (eg_inodeSize G)" by (simp add: unat_word_ariths)
  then have "unat (inodeOffset G i) = unat (blockOffset G ?t) + unat i * unat (eg_inodeSize G)"
    using e c(6) assms(2) small unfolding inodeOffset_def by (subst unat_plus_if') (simp add: unat_ucast_32_64)
  then show ?thesis unfolding inside_def assms(4) using le e fit(4) by linarith
qed

lemma backup_steps_inside:
  assumes "extGeometry options partSize = Inr G" "unat partSize < 2 ^ 48" "extFits G"
    and "length sb = 1024" "length gdt = gdtBytes G" "WriteStep off bs \<in> set (backupSteps G sb gdt)"
  shows "inside G off bs"
proof -
  note c = ext_counts [OF assms(1,2)] and m = ext_metadata [OF assms(1)]
  from assms(6) obtain g where tl: "g \<in> set (tl (groupNumbers G))" and g: "hasSuperblockBackup g"
    and "off = blockOffset G (groupStart G g) \<and> bs = superblockCopy sb g \<or>
      off = blockOffset G (groupStart G g) + ucast (eg_blockSize G) \<and> bs = gdt"
    by (auto simp: backupSteps_def split: if_splits)
  moreover have "g \<in> set (groupNumbers G)" using tl by (cases "groupNumbers G") auto
  then have gn: "unat g < groupCount G" by (simp add: groupNumbers_less)
  have fit: "unat (groupStart G g) + 1 + unat (eg_gdtBlocks G) \<le> blockCount G"
    using extFitsD(1) [OF assms(3) gn] m(7) [of g] g by simp
  then have "unat (groupStart G g + 1) = unat (groupStart G g) + 1"
    using c(10) by (subst unat_plus_if') simp
  moreover have "blockOffset G (groupStart G g) + ucast (eg_blockSize G) = blockOffset G (groupStart G g + 1)"
    by (simp add: blockOffset_def distrib_right)
  ultimately show ?thesis
    using fit c(2) assms(4,5)
    by (auto simp: gdtBytes_def ext_lengths [OF assms(1)]
        intro: block_inside [OF assms(1,2), where n = 1]
          block_inside [OF assms(1,2), where n = "unat (eg_gdtBlocks G)"])
qed

lemma ext_steps_inside:
  assumes "extGeometry options partSize = Inr G" "unat partSize < 2 ^ 48" "extFits G"
    and "length sb = 1024" "length gdt = gdtBytes G" "length uuid = 16" "length bitmap = unat (eg_blockSize G)"
    and "WriteStep off bs \<in> set (extSteps G sb gdt now base span) \<or>
      eg_hasJournal G \<and> WriteStep off bs \<in> set (journalSteps G uuid now base span @ journalUpdateSteps G sb bitmap)"
  shows "unat off + length bs \<le> unat partSize"
proof -
  note c = ext_counts [OF assms(1,2)] and m = ext_metadata [OF assms(1)] and len = ext_lengths [OF assms(1)]
  have g0: "unat (0 :: u32) < groupCount G" using c(4) by simp
  note p = ext_positions [OF assms(1,2) g0] and fit = extFitsD [OF assms(3)]
  note blk = block_inside [OF assms(1,2), where n = 1]
  let ?o = "unat (groupOverhead G 0)"
  have root: "unat (rootDirDataBlock G) = unat (groupStart G 0) + ?o" "?o < 2 ^ 24"
    using m(1-4) p(1) by (simp_all add: rootDirDataBlock_def unat_word_ariths unat_ucast_32_64 m(7))
  then have lf: "unat (lostFoundDataBlock G) = unat (groupStart G 0) + ?o + 1"
    "unat (journalStartBlock G) = unat (groupStart G 0) + ?o + 2"
    using p(1) m(4) by (simp_all add: lostFoundDataBlock_def journalStartBlock_def unat_word_ariths)
  have "inside G 1024 sb'" if "length sb' = 1024" for sb'
    using c(2,7) that by (auto simp: inside_def)
  then have sb: "inside G 1024 sb" "inside G 1024 (superblockAfterJournal G sb)"
    using assms(4) len(11) by simp_all
  have "(if eg_blockSize G = 1024 then 2 * 1024 else ucast (eg_blockSize G)) = blockOffset G (1 + groupStart G 0)"
    using extGeometry_sizes(1,7) [OF assms(1)] by (auto simp: blockOffset_def groupStart_def)
  moreover have "unat (1 + groupStart G 0) = 1 + unat (groupStart G 0)" using p(1) m(4) by (subst unat_plus_if') simp
  ultimately have gdt: "inside G (if eg_blockSize G = 1024 then 2 * 1024 else ucast (eg_blockSize G)) gdt"
    using fit(1) [OF g0] m(7) [of 0] assms(5)
    by (auto simp: gdtBytes_def intro!: block_inside [OF assms(1,2), where n = "unat (eg_gdtBlocks G)"])
  have bm: "inside G (blockOffset G (gl_blockBitmapBlock (groupLayout G 0))) bs" if "length bs = blockBytes G" for bs
    using p(2) fit(1) [OF g0] m(7) [of 0] that by (auto intro!: blk)
  have "inside G off bs"
    using assms(8)
  proof
    assume "WriteStep off bs \<in> set (extSteps G sb gdt now base span)"
    then consider "off = 1024" "bs = sb"
      | "off = (if eg_blockSize G = 1024 then 2 * 1024 else ucast (eg_blockSize G))" "bs = gdt"
      | "WriteStep off bs \<in> set (backupSteps G sb gdt)"
      | g where "unat g < groupCount G" "WriteStep off bs \<in> set (groupSteps G base span g)"
      | "off = inodeOffset G 1" "bs = rootInode G now" | "off = inodeOffset G 10" "bs = lostFoundInode G now"
      | "off = blockOffset G (rootDirDataBlock G)" "bs = rootDirectory G"
      | "off = blockOffset G (lostFoundDataBlock G)" "bs = lostFoundDirectory G"
      unfolding extSteps_def by (auto simp: groupNumbers_less)
    then show ?thesis
      using sb gdt backup_steps_inside [OF assms(1-5)] group_steps_inside [OF assms(1-3)]
        inode_inside [OF assms(1-3)] fit(2) g0 root(1) lf(1)
      by cases (auto simp: len intro: blk)
  next
    assume j: "eg_hasJournal G \<and> WriteStep off bs \<in> set (journalSteps G uuid now base span @ journalUpdateSteps G sb bitmap)"
    then consider "off = inodeOffset G 7" "bs = journalInode G now"
      | "off = blockOffset G (journalStartBlock G)" "bs = journalSuperblock G uuid"
      | "off = blockOffset G (gl_blockBitmapBlock (groupLayout G 0))" "bs = markJournal G bitmap"
      | "off = 1024" "bs = superblockAfterJournal G sb"
      by (auto simp: journalSteps_def journalUpdateSteps_def)
    then show ?thesis
      using sb inode_inside [OF assms(1-3)] fit(3) j g0 lf(2) assms(6,7) bm
      by cases (auto simp: len intro: blk)
  qed
  then show ?thesis using c(6) by (simp add: inside_def)
qed

text \<open>
  C19. Formatting a partition as ext2, ext3 or ext4 writes only inside it, if every group, the last one
  included, has room for its metadata: each of the writes of \<open>formatExt\<close> ends within the partition,
  the copies of the superblock and of the descriptors, the bitmaps, the inode tables, the directories and
  the journal among them.
\<close>

theorem ext_writes_inside:
  assumes "extGeometry options partSize = Inr G" "unat partSize < 2 ^ 48" "extFits G"
    and "length sb = 1024" "length gdt = gdtBytes G" "length uuid = 16" "length bitmap = unat (eg_blockSize G)"
    and "WriteStep off bs \<in> set (extSteps G sb gdt now base span) \<or>
      eg_hasJournal G \<and> WriteStep off bs \<in> set (journalSteps G uuid now base span @ journalUpdateSteps G sb bitmap)"
  shows "unat off + length bs \<le> unat partSize"
  using assms by (rule ext_steps_inside)

section \<open>The last group is not checked\<close>

lemma zeroChunks_mem:
  assumes "0 < chunk" "k * chunk < remaining"
  shows "WriteStep (pos + of_nat (k * chunk)) (replicate (min (remaining - k * chunk) chunk) 0)
    \<in> set (zeroChunks chunk pos remaining)"
  using assms(2)
proof (induction k arbitrary: pos remaining)
  case 0
  with assms(1) show ?case by (subst zeroChunks.simps) simp
next
  case (Suc k)
  then have "chunk < remaining" "k * chunk < remaining - chunk" by auto
  with Suc.IH [of "remaining - chunk" "pos + of_nat chunk"] assms(1) show ?case
    by (subst zeroChunks.simps) (simp add: add.assoc)
qed

definition ext4_options :: FormatOptions where
  "ext4_options = fo_default\<lparr>fo_targetFs := Ext4\<rparr>"

definition short_group :: ExtGeometry where
  "short_group = \<lparr>eg_blockSize = 4096, eg_logBlockSize = 2, eg_firstDataBlock = 0, eg_totalBlocks = 262400,
     eg_blocksPerGroup = 32768, eg_numGroups = 9, eg_inodeSize = 256, eg_inodesPerGroup = 8192, eg_totalInodes = 73728,
     eg_inodeTableBlocksPerGroup = 512, eg_descSize = 32, eg_use64bit = False, eg_gdtBlocks = 1,
     eg_reservedGdtBlocks = 1024, eg_hasJournal = True, eg_journalBlocks = 8192\<rparr>"

text \<open>
  C23. A partition of one gibibyte and one mebibyte that is formatted as ext4 with the default options: the
  last group has 256 blocks but its inode table takes 512, and the engine writes zeros beyond the end of
  the partition, where the next one may start.
\<close>

theorem ext_writes_past_the_end:
  "extGeometry ext4_options 1074790400 = Inr short_group \<and>
   (\<exists>off bs. WriteStep off bs \<in> set (extSteps short_group sb gdt now base span) \<and> 1074790400 < unat off \<and> 0 < length bs)"
proof
  let ?G = short_group and ?pos = "blockOffset short_group (gl_inodeTableBlock (groupLayout short_group 8))"
  show "extGeometry ext4_options 1074790400 = Inr ?G" by code_simp
  have tb: "eg_inodeTableBlocksPerGroup ?G * eg_blockSize ?G = 2097152" and po: "?pos = 1073750016"
    and gn: "8 \<in> set (groupNumbers ?G)" by code_simp+
  have n: "unat (eg_inodeTableBlocksPerGroup ?G * eg_blockSize ?G) = 2097152" by (simp add: tb)
  have pos: "unat (?pos + of_nat (16 * 65536)) = 1074798592" by (simp add: po)
  have "WriteStep (?pos + of_nat (16 * 65536)) (replicate 65536 0) \<in> set (zeroChunks 65536 ?pos 2097152)"
    using zeroChunks_mem [of 65536 16 2097152 ?pos] by simp
  then have "WriteStep (?pos + of_nat (16 * 65536)) (replicate 65536 0) \<in> set (groupSteps ?G base span 8)"
    by (simp add: groupSteps_def Let_def n)
  then have "WriteStep (?pos + of_nat (16 * 65536)) (replicate 65536 0) \<in> set (extSteps ?G sb gdt now base span)"
    using gn unfolding extSteps_def by auto
  with pos show "\<exists>off bs. WriteStep off bs \<in> set (extSteps ?G sb gdt now base span) \<and> 1074790400 < unat off \<and> 0 < length bs"
    by (intro exI [of _ "?pos + of_nat (16 * 65536)"] exI [of _ "replicate 65536 0"]) simp
qed

section \<open>Witnesses\<close>

definition sample_ext :: ExtGeometry where
  "sample_ext = \<lparr>eg_blockSize = 1024, eg_logBlockSize = 0, eg_firstDataBlock = 1, eg_totalBlocks = 1024,
     eg_blocksPerGroup = 8192, eg_numGroups = 1, eg_inodeSize = 256, eg_inodesPerGroup = 512, eg_totalInodes = 512,
     eg_inodeTableBlocksPerGroup = 128, eg_descSize = 32, eg_use64bit = False, eg_gdtBlocks = 1,
     eg_reservedGdtBlocks = 512, eg_hasJournal = True, eg_journalBlocks = 1024\<rparr>"

lemma sample_ext_geometry: "extGeometry ext4_options 1048576 = Inr sample_ext" "groupOverhead sample_ext 0 = 644"
  by code_simp+

lemma sample_ext_values: "extFits sample_ext" "eg_blockSize sample_ext = 1024" "gdtBytes sample_ext = 1024"
  "eg_firstDataBlock sample_ext = 1" "eg_hasJournal sample_ext"
  by (simp_all add: extFits_def groupNumbers_def sample_ext_def groupStart_def groupOverhead_def
      hasSuperblockBackup_def gdtBytes_def)

theorem blockBitmap_marks_witness: "bitOf (blockBitmap sample_ext 0) 645 \<and> \<not> bitOf (blockBitmap sample_ext 0) 646"
proof -
  have "isLastGroup sample_ext 0" "unat (blocksLeft sample_ext 0) = 1024" by code_simp+
  then show ?thesis
    using blockBitmap_marks [OF sample_ext_geometry(1), of 645 0] blockBitmap_marks [OF sample_ext_geometry(1), of 646 0]
    by (simp add: sample_ext_geometry sample_ext_values)
qed

theorem ext_writes_inside_witness:
  "\<exists>off. WriteStep off (rootDirectory sample_ext) \<in> set (extSteps sample_ext (replicate 1024 0) (replicate 1024 0) 0 10 80) \<and>
     unat off + 1024 \<le> 1048576"
proof -
  let ?off = "blockOffset sample_ext (rootDirDataBlock sample_ext)"
  have m: "WriteStep ?off (rootDirectory sample_ext) \<in> set (extSteps sample_ext (replicate 1024 0) (replicate 1024 0) 0 10 80)"
    by (simp add: extSteps_def)
  have "unat ?off + length (rootDirectory sample_ext) \<le> unat (1048576 :: u64)"
    by (rule ext_writes_inside [OF sample_ext_geometry(1) _ sample_ext_values(1), of "replicate 1024 0" "replicate 1024 0"
          "replicate 16 0" "replicate 1024 0" _ _ 0 10 80])
      (use m in \<open>simp_all add: sample_ext_values\<close>)
  with m show ?thesis by (intro exI [of _ ?off]) (simp add: ext_lengths [OF sample_ext_geometry(1)] sample_ext_values)
qed

definition sample_ext_4k :: ExtGeometry where
  "sample_ext_4k = \<lparr>eg_blockSize = 4096, eg_logBlockSize = 2, eg_firstDataBlock = 0, eg_totalBlocks = 4096,
     eg_blocksPerGroup = 32768, eg_numGroups = 1, eg_inodeSize = 256, eg_inodesPerGroup = 8192, eg_totalInodes = 8192,
     eg_inodeTableBlocksPerGroup = 512, eg_descSize = 32, eg_use64bit = False, eg_gdtBlocks = 1,
     eg_reservedGdtBlocks = 1024, eg_hasJournal = True, eg_journalBlocks = 1024\<rparr>"

theorem descriptor_free_count_witness:
  "card {b. b < 32768 \<and> \<not> bitOf (blockBitmap sample_ext_4k 0) b} = 2554"
proof -
  have g: "extGeometry (ext4_options\<lparr>fo_blockSize := 4096\<rparr>) 16777216 = Inr sample_ext_4k" by code_simp
  have e: "eg_numGroups sample_ext_4k = 1" "eg_firstDataBlock sample_ext_4k = 0" "eg_blockSize sample_ext_4k = 4096"
    "groupOverhead sample_ext_4k 0 = 1540" "groupBlocks sample_ext_4k 0 = 4096"
    "gl_freeBlocksCount (groupLayout sample_ext_4k 0) = 2554" by code_simp+
  show ?thesis using descriptor_free_count [OF g, of 0] by (simp add: e)
qed


end
