(* ===== verification/Format_Confined.thy ===== *)
theory Format_Confined
  imports Confinement Partition_Operations Ext_Layout
begin

text \<open>
  Formatting a partition of a disk changes nothing outside the partition, on every path of the format
  engine: the writes of the formatters are rounded to sectors, and all of them, the zeroing of a full
  format included, stay inside a partition that is aligned to sectors.
\<close>

section \<open>Rounding to sectors\<close>

definition raw_aligned :: "FormatTarget \<Rightarrow> bool" where
  "raw_aligned target \<longleftrightarrow>
     ft_driveLetter target = 0 \<and> ft_sectorSize target \<noteq> 0 \<and>
     unat (ft_partitionOffsetBytes target) mod unat (ft_sectorSize target) = 0 \<and>
     unat (ft_partitionSizeBytes target) mod unat (ft_sectorSize target) = 0 \<and>
     unat (ft_partitionOffsetBytes target) + unat (ft_partitionSizeBytes target) < 2 ^ 64"

lemma round_up_inside:
  fixes a len ss e :: nat
  assumes "0 < ss" "a mod ss = 0" "e mod ss = 0" "a + len \<le> e"
  shows "a + (len + ss - 1) div ss * ss \<le> e"
proof -
  obtain j k where jk: "a = j * ss" "e = k * ss" using assms(2,3) by (metis mult.commute mod_0_imp_dvd dvdE)
  with assms(1,4) have "j \<le> k" by (metis add_leD1 mult_le_cancel2)
  with jk assms(4) have "len \<le> (k - j) * ss" by (simp add: diff_mult_distrib)
  then have "(len + ss - 1) div ss \<le> ((k - j) * ss + (ss - 1)) div ss" using assms(1) by (intro div_le_mono) simp
  also have "\<dots> = (ss - 1 + (k - j) * ss) div ss" by (simp only: add.commute)
  also have "\<dots> = k - j" using assms(1) by (subst div_mult_self1) simp_all
  finally have "(len + ss - 1) div ss * ss \<le> (k - j) * ss" by (rule mult_le_mono1)
  then have "a + (len + ss - 1) div ss * ss \<le> (j + (k - j)) * ss" by (simp only: jk add_mult_distrib add_le_mono)
  with jk \<open>j \<le> k\<close> show ?thesis by simp
qed

lemma sectors_bytes_le:
  fixes x ss :: u32
  assumes "ss \<noteq> 0" "unat x \<le> n"
  shows "unat (ucast ((x + ss - 1) div ss) * ucast ss :: u64) \<le> (n + unat ss - 1) div unat ss * unat ss"
proof -
  have pos: "0 < unat ss" using assms(1) by (simp add: unat_gt_0)
  have "unat (x + ss - 1) \<le> unat x + unat ss - 1"
  proof -
    have "unat (x + (ss - 1)) \<le> unat x + unat (ss - 1)" by (simp add: unat_word_ariths)
    also have "unat (ss - 1) = unat ss - 1" using assms(1) by (rule unat_minus_one)
    finally show ?thesis using pos by (simp add: add_diff_eq)
  qed
  then have le: "unat ((x + ss - 1) div ss) \<le> (n + unat ss - 1) div unat ss"
    using assms(2) by (simp add: unat_div div_le_mono)
  have "unat (ucast ((x + ss - 1) div ss) * ucast ss :: u64) = unat ((x + ss - 1) div ss) * unat ss"
  proof -
    have "unat ((x + ss - 1) div ss) < 2 ^ 32" "unat ss < 2 ^ 32"
      using unsigned_less [of "(x + ss - 1) div ss"] unsigned_less [of ss] by simp_all
    then have "unat ((x + ss - 1) div ss) * unat ss < 2 ^ 32 * 2 ^ 32" by (intro mult_strict_mono) simp_all
    then show ?thesis by (simp add: unat_word_ariths unat_ucast_32_64)
  qed
  with le show ?thesis by simp
qed

lemma sector_start:
  fixes x :: u64 and ss :: u32
  shows "unat (x div ucast ss * ucast ss) = unat x div unat ss * unat ss"
proof -
  have "unat x div unat ss * unat ss \<le> unat x" by simp
  also have "\<dots> < 2 ^ 64" using unsigned_less [of x] by simp
  finally have "unat (x div ucast ss) * unat (ucast ss :: u64) < 2 ^ 64" by (simp add: unat_div unat_ucast_32_64)
  then have "unat (x div ucast ss * ucast ss) = unat (x div ucast ss) * unat (ucast ss :: u64)"
    using unat_mult_lem [of "x div ucast ss" "ucast ss"] by simp
  then show ?thesis by (simp add: unat_div unat_ucast_32_64)
qed

text \<open>A range that begins in a partition and ends in it still does so when it is rounded to sectors.\<close>

lemma rounded_inside:
  fixes x :: u64 and n ss :: u32
  assumes "ss \<noteq> 0" "lo mod unat ss = 0" "hi mod unat ss = 0" "lo \<le> unat x" "unat x + k \<le> hi" "unat n \<le> k"
  shows "lo \<le> unat (x div ucast ss * ucast ss) \<and>
    unat (x div ucast ss * ucast ss) + unat (ucast ((n + ss - 1) div ss) * ucast ss :: u64) \<le> hi"
proof -
  let ?s = "unat ss" and ?a = "unat x div unat ss * unat ss"
  have pos: "0 < ?s" using assms(1) by (simp add: unat_gt_0)
  obtain j where j: "lo = j * ?s" using assms(2) by (metis mult.commute mod_0_imp_dvd dvdE)
  then have "j \<le> unat x div ?s" using assms(4) pos by (simp add: less_eq_div_iff_mult_less_eq)
  then have "lo \<le> ?a" using j by simp
  moreover have "?a + (k + ?s - 1) div ?s * ?s \<le> hi"
    by (rule round_up_inside [OF pos _ assms(3)])
      (use assms(5) le_trans [OF add_le_mono1 [OF div_times_less_eq_dividend]] in simp_all)
  ultimately show ?thesis using sectors_bytes_le [OF assms(1,6)] by (simp add: sector_start)
qed

section \<open>Writes of the formatters\<close>

text \<open>The partition of a target as a range of bytes of its disk.\<close>

abbreviation (input) "part_lo target \<equiv> unat (ft_partitionOffsetBytes target)"
abbreviation (input) "part_hi target \<equiv> unat (ft_partitionOffsetBytes target) + unat (ft_partitionSizeBytes target)"

lemma raw_alignedD:
  assumes "raw_aligned target"
  shows "ft_driveLetter target = 0" "ft_sectorSize target \<noteq> 0" "part_lo target mod unat (ft_sectorSize target) = 0"
    "part_hi target mod unat (ft_sectorSize target) = 0" "part_hi target < 2 ^ 64"
  using assms by (simp_all add: raw_aligned_def mod_add_eq [symmetric])

lemma part_offset:
  assumes "raw_aligned target" "unat off \<le> unat (ft_partitionSizeBytes target)"
  shows "unat (ft_partitionOffsetBytes target + off) = part_lo target + unat off"
  using raw_alignedD(5) [OF assms(1)] assms(2) by (subst unat_plus_if') simp

lemma writeAt_within [within_intros]:
  assumes "handle_laws W V" "write_frame W V" "raw_aligned target" "rh_handle disk = Some h"
    and "unat off + length data \<le> unat (ft_partitionSizeBytes target)"
  shows "io_within V (Some h) d (part_lo target) (part_hi target)
    (writeAt W (ft_sectorSize target) (RawDevice disk (ft_partitionOffsetBytes target)) off data)"
proof -
  let ?ss = "ft_sectorSize target" and ?x = "ft_partitionOffsetBytes target + off"
  let ?n = "of_nat (length data) :: u32"
  note al = raw_alignedD [OF assms(3)]
  have x: "unat ?x = part_lo target + unat off" using part_offset [OF assms(3)] assms(5) by simp
  have "unat ?n \<le> length data" by (simp add: unat_of_nat)
  from rounded_inside [OF al(2-4), of ?x "length data" ?n, OF _ _ this] x assms(5)
  have r: "part_lo target \<le> unat (?x div ucast ?ss * ucast ?ss)"
    "unat (?x div ucast ?ss * ucast ?ss) + unat (ucast ((?n + ?ss - 1) div ?ss) * ucast ?ss :: u64) \<le> part_hi target"
    by simp_all
  have wr: "io_within V (Some h) d (part_lo target) (part_hi target)
      (writeSectors W disk (?x div ucast ?ss) bs (ucast ((?n + ?ss - 1) div ?ss)) ?ss)" for bs
    by (rule writeSectors_within [OF assms(1,2) assms(4)]) (use r in simp_all)
  show ?thesis
    unfolding io_within_def
  proof (intro allI impI)
    fix w r w'
    assume on: "on_disk V (Some h) d w"
      and run: "writeAt W ?ss (RawDevice disk (ft_partitionOffsetBytes target)) off data w = Done (r, w')"
    then have "w' = w \<or> (\<exists>bs. writeSectors W disk (?x div ucast ?ss) bs (ucast ((?n + ?ss - 1) div ?ss)) ?ss w = Done (r, w'))"
      by (auto simp: rawWriteAt_def Let_def require_Done_iff split: if_splits sum.splits)
    then show "on_disk V (Some h) d w' \<and> changed_within V d (part_lo target) (part_hi target) w w'"
      using io_withinD [OF wr on] on by auto
  qed
qed

lemma runSteps_within:
  assumes "handle_laws W V" "write_frame W V" "raw_aligned target" "rh_handle disk = Some h"
    and "\<And>off bs. WriteStep off bs \<in> set steps \<Longrightarrow> unat off + length bs \<le> unat (ft_partitionSizeBytes target)"
  shows "act_within V (Some h) d (part_lo target) (part_hi target)
    (runSteps W (ft_sectorSize target) (RawDevice disk (ft_partitionOffsetBytes target)) steps)"
  using assms(5)
proof (induction steps)
  case Nil
  then show ?case by (simp add: within_intros)
next
  case (Cons x steps)
  then show ?case by (cases x) (auto intro!: within_intros assms(1-4))
qed

lemma zeroReport_within [within_intros]: "act_within V ho d lo hi (zeroReport start end n tot)"
  by (simp add: zeroReport_def within_intros)

lemma zeroRaw_within:
  assumes "handle_laws W V" "write_frame W V" "raw_aligned target" "rh_handle disk = Some h"
  shows "act_within V (Some h) d (part_lo target) (part_hi target)
    (zeroRaw W disk (ft_partitionOffsetBytes target) (ft_partitionSizeBytes target) (ft_sectorSize target) start end n)"
  using assms
proof (induction W disk "ft_partitionOffsetBytes target" "ft_partitionSizeBytes target" "ft_sectorSize target" start "end" n
    rule: zeroRaw.induct)
  case (1 W disk start "end" n)
  let ?ss = "ft_sectorSize target" and ?x = "ft_partitionOffsetBytes target + n"
  let ?t = "ft_partitionSizeBytes target"
  let ?m = "ucast (min (ucast (8192 * ?ss)) (?t - n)) :: u32"
  note al = raw_alignedD [OF 1(4)]
  show ?case
  proof (cases "n < ?t")
    case False
    then show ?thesis by (subst zeroRaw.simps) (simp add: within_intros)
  next
    case True
    then have nt: "unat n \<le> unat ?t" "unat (?t - n) = unat ?t - unat n"
      by (simp_all add: word_less_nat_alt unat_sub_if')
    have "unat ?m \<le> unat (min (ucast (8192 * ?ss)) (?t - n))"
      by (simp add: unsigned_ucast_eq take_bit_nat_less_eq_self)
    also have "\<dots> \<le> unat ?t - unat n" using nt(2) by (metis min.cobounded2 word_le_nat_alt)
    finally have m: "unat ?m \<le> unat ?t - unat n" .
    from rounded_inside [OF al(2-4), of ?x "unat ?t - unat n" ?m, OF _ _ m] part_offset [OF 1(4) nt(1)] nt(1)
    have "part_lo target \<le> unat (?x div ucast ?ss * ucast ?ss)"
      "unat (?x div ucast ?ss * ucast ?ss) + unat (ucast ((?m + ?ss - 1) div ?ss) * ucast ?ss :: u64) \<le> part_hi target"
      by simp_all
    note wr = writeSectors_within [OF 1(2,3,5) _ this]
    have undef: "act_within V (Some h) d (part_lo target) (part_hi target) (\<lambda>s w. Undef)"
      "act_within V (Some h) d (part_lo target) (part_hi target) (\<lambda>s w. Diverges)"
      by (simp_all add: act_within_def)
    show ?thesis
      by (subst zeroRaw.simps) (auto simp: Let_def undef True intro!: within_intros wr 1)
  qed
qed

section \<open>The scope of the device\<close>

lemma withDevice_within:
  assumes "win32_laws W V" "ft_driveLetter target = 0" "hasRawTarget target"
    and "\<And>h. act_within V (Some h) (ft_diskIndex target) lo hi
      (body (RawDevice \<lparr>rh_handle = Some h, rh_diskId = ft_diskIndex target, rh_accessMode = ReadWrite\<rparr>
        (ft_partitionOffsetBytes target)))"
    and "act_within V None (ft_diskIndex target) lo hi tail"
  shows "act_within V None (ft_diskIndex target) lo hi (withDevice W target body tail)"
  unfolding act_within_def
proof (intro allI impI conjI)
  let ?d = "ft_diskIndex target"
  have laws: "handle_laws W V" "content_laws W V" using assms(1) by (simp_all add: win32_laws_def)
  note cl = content_lawsD [OF laws(2)]
  fix s w r ps s' w'
  assume run: "withDevice W target body tail s w = Done (r, ps, s', w')"
  show "changed_within V ?d lo hi w w'"
  proof (cases "CreateFileW W (physicalDrive ?d) True w")
    case (Pair q w1)
    show ?thesis
    proof (cases q)
      case (Inl err)
      with Pair have "\<not> (\<exists>disk v. rawOpen W ?d ReadWrite w = Done (Inr disk, v))" by (simp add: rawOpen_Done(1))
      with rawOpen_total [of W ?d ReadWrite w] obtain e v where ro: "rawOpen W ?d ReadWrite w = Done (Inl e, v)"
        by (metis sum.exhaust)
      with assms(2,3) run have "w' = v"
        by (auto simp: withDevice_def act_bind_Done act_simple_Done openDevice_def hasDriveLetter_def io_try_Done
            io_return_Done)
      moreover from rawOpen_Done(2) [OF ro] cl(1) have "contents V v = contents V w" by blast
      ultimately show ?thesis by (simp add: changed_within_same)
    next
      case (Inr h)
      let ?disk = "\<lparr>rh_handle = Some h, rh_diskId = ?d, rh_accessMode = ReadWrite\<rparr>"
      let ?dev = "RawDevice ?disk (ft_partitionOffsetBytes target)"
      from Pair Inr have ro: "rawOpen W ?d ReadWrite w = Done (Inr ?disk, w1)" by (simp add: rawOpen_Done(1))
      from Pair Inr have "on_disk V (Some h) ?d w1" "changed_within V ?d lo hi w w1"
        using cl(1,2) [of ?d True w] by (auto simp: on_disk_def changed_within_same)
      note 1 = this
      have "openDevice W target w = Done (Inr ?dev, w1)"
        using ro assms(2,3) by (simp add: openDevice_def hasDriveLetter_def io_try_def io_return_def)
      with run obtain rb pb sb w2 where
        b: "body ?dev s w1 = Done (rb, pb, sb, w2)" and
        k: "(case rb of Inl e \<Rightarrow> Done (Inl e, pb, sb, destroyDevice W ?dev w2)
           | Inr _ \<Rightarrow> run_bind (finishDevice W ?dev w2) (\<lambda>(dev', w3).
               run_bind (tail sb w3) (\<lambda>(r2, ps2, s2, w4). Done (r2, pb @ ps2, s2, destroyDevice W dev' w4))))
           = Done (r, ps, s', w')"
        by (auto simp: withDevice_def act_bind_Done act_simple_Done run_bind_Done_iff)
      from k have rest: "(\<exists>e. rb = Inl e \<and> w' = CloseHandle W h w2) \<or>
          (\<exists>w3 r2 p2 s2 w4. finishDevice W ?dev w2 = Done (?dev, w3) \<and> tail sb w3 = Done (r2, p2, s2, w4) \<and>
             w' = CloseHandle W h w4)"
        by (cases rb) (auto simp: run_bind_Done_iff rawDestroy_def rawClose_def io_bind_Done io_return_Done)
      from act_withinD [OF assms(4) 1(1) b] have 2: "changed_within V ?d lo hi w w2"
        by (auto intro: changed_within_trans [OF 1(2)])
      from rest show ?thesis
      proof (elim disjE exE conjE)
        fix e assume "w' = CloseHandle W h w2"
        then show ?thesis using 2 changed_within_same [of V w' w2] by (simp add: cl(3) changed_within_trans)
      next
        fix w3 r2 p2 s2 w4
        assume f: "finishDevice W ?dev w2 = Done (?dev, w3)" and t: "tail sb w3 = Done (r2, p2, s2, w4)"
          and w': "w' = CloseHandle W h w4"
        from f have "contents V w3 = contents V w2"
          using keepsD [OF flush_contents [OF laws(2)]] by (auto simp: io_bind_Done io_return_Done)
        then have "changed_within V ?d lo hi w w3" by (rule changed_within_trans [OF 2 changed_within_same])
        moreover from act_withinD [OF assms(5) _ t] have "changed_within V ?d lo hi w3 w4" by simp
        moreover have "changed_within V ?d lo hi w4 w'" unfolding w' by (rule changed_within_same) (rule cl(3))
        ultimately show ?thesis by (metis changed_within_trans)
      qed
    qed
  qed
qed simp

lemma withDisk_within_None:
  assumes "content_laws W V" "\<And>disk. keeps (contents V) (body disk)"
  shows "io_within V None d lo hi (withDisk W d' mode body)"
  using keepsD [OF withDisk_contents [OF assms]] by (auto simp: io_within_def changed_within_same)

lemma notifyTarget_within [within_intros]:
  assumes "content_laws W V"
  shows "act_within V None d lo hi (notifyTarget W target)"
proof -
  have "io_within V None d lo hi (notifyPartitionChange W n)" for n
    unfolding notifyPartitionChange_def
    by (rule withDisk_within_None [OF assms])
      (auto simp: keeps_def content_lawsD(7) [OF assms] split: option.splits prod.splits sum.splits)
  then show ?thesis
    unfolding notifyTarget_def notifyPartitionChangeLetter_def by (intro within_intros)
qed

lemma act_within_pure [within_intros]:
  "act_within V ho d lo hi (act_result r)" "act_within V ho d lo hi (act_run m)"
  by (auto simp: act_within_def act_result_def act_run_def act_simple_Done run_bind_Done_iff split: sum.splits)

lemma act_within_result:
  assumes "\<And>x. r = Inr x \<Longrightarrow> act_within V ho d lo hi (f x)"
  shows "act_within V ho d lo hi (act_bind (act_result r) f)"
  using assms
  by (cases r) (auto simp: act_within_def act_bind_Done act_result_def act_simple_Done)

lemma act_within_run:
  assumes "\<And>x. m = Done x \<Longrightarrow> act_within V ho d lo hi (f x)"
  shows "act_within V ho d lo hi (act_bind (act_run m) f)"
  using assms
  by (cases m) (auto simp: act_within_def act_bind_Done act_run_def run_bind_Done_iff)

lemma zeroFirst_within [within_intros]:
  assumes "handle_laws W V" "write_frame W V" "raw_aligned target" "rh_handle disk = Some h"
  shows "act_within V (Some h) d (part_lo target) (part_hi target)
    (zeroFirst W target options (RawDevice disk (ft_partitionOffsetBytes target)) (ft_partitionSizeBytes target)
      start end status)"
  unfolding zeroFirst_def by (auto intro!: within_intros zeroRaw_within assms)

section \<open>ext\<close>

lemma length_groupDescTable: "groupDescTable G = Done gdt \<Longrightarrow> length gdt = gdtBytes G"
proof -
  assume a: "groupDescTable G = Done gdt"
  have "length (fold (\<lambda>g. blit (descOffset G g) (groupDescriptor (groupLayout G g))) gs buf) = length buf"
    if "list_all (\<lambda>g. descOffset G g + 32 \<le> length buf) gs" for gs and buf :: bytes
    using that
    by (induction gs arbitrary: buf) (simp_all add: groupDescriptor_def Let_def)
  with a show ?thesis by (auto simp: groupDescTable_def require_Done_iff)
qed

lemma length_readBackBitmap:
  "length (readBackBitmap W ss (RawDevice disk base) G w) = unat (eg_blockSize G)"
  by (simp add: padTo_def)

lemma ext_body_within:
  assumes "handle_laws (env_win32 E) V" "write_frame (env_win32 E) V" "raw_aligned target" "rh_handle disk = Some h"
    and "extGeometry options (ft_partitionSizeBytes target) = Inr G" "unat (ft_partitionSizeBytes target) < 2 ^ 48"
    and "extFits G" "length uuid = 16" "length seed = 16"
  shows "act_within V (Some h) d (part_lo target) (part_hi target)
    (ext_body E target options (ft_partitionSizeBytes target) G uuid seed now
      (RawDevice disk (ft_partitionOffsetBytes target)))"
proof -
  let ?W = "env_win32 E" and ?dev = "RawDevice disk (ft_partitionOffsetBytes target)"
  let ?sb = "extSuperblock options G uuid seed now"
  have sb: "length ?sb = 1024" by (rule extSuperblock_fields(1) [OF assms(8,9)])
  note wr = ext_steps_inside [OF assms(5-7) sb _ assms(8)]
  have steps: "act_within V (Some h) d (part_lo target) (part_hi target)
      (runSteps ?W (ft_sectorSize target) ?dev (extSteps G ?sb gdt now base span))"
    if "length gdt = gdtBytes G" for gdt base span
    by (rule runSteps_within [OF assms(1-4)], rule wr [OF that, of "replicate (unat (eg_blockSize G)) 0"]) auto
  have journal: "act_within V (Some h) d (part_lo target) (part_hi target)
      (ext_journal ?W (ft_sectorSize target) ?dev G ?sb uuid now base span)" for base span
    unfolding ext_journal_def Let_def
    by (intro within_intros runSteps_within [OF assms(1-4)];
        rule wr [of "replicate (gdtBytes G) 0" "replicate (unat (eg_blockSize G)) 0"]
          wr [of "replicate (gdtBytes G) 0", OF _ length_readBackBitmap])
      auto
  show ?thesis
    unfolding ext_body_def Let_def
    by (intro within_intros zeroFirst_within [OF assms(1-4)] act_within_run steps journal length_groupDescTable)
qed

lemma raw_targetSize:
  "raw_aligned target \<Longrightarrow> targetSize W target w = Inr (ft_partitionSizeBytes target)"
  by (simp add: targetSize_def hasDriveLetter_def raw_aligned_def)

lemma withSize_within:
  assumes "raw_aligned target" "act_within V ho d lo hi (body (ft_partitionSizeBytes target))"
  shows "act_within V ho d lo hi (act_withSize W target body)"
  unfolding act_withSize_def
  using assms(2) by (intro act_within_get act_within_result) (simp add: raw_targetSize [OF assms(1)])

lemma formatExt_within:
  assumes "win32_laws (env_win32 E) V" "write_frame (env_win32 E) V" "raw_aligned target" "hasRawTarget target"
    and "unat (ft_partitionSizeBytes target) < 2 ^ 48"
    and "\<And>G. extGeometry options (ft_partitionSizeBytes target) = Inr G \<Longrightarrow> extFits G"
  shows "act_within V None (ft_diskIndex target) (part_lo target) (part_hi target) (formatExt E target options)"
proof -
  have laws: "handle_laws (env_win32 E) V" using assms(1) by (simp add: win32_laws_def)
  note al = raw_alignedD [OF assms(3)]
  show ?thesis
    unfolding formatExt_def Let_def
    apply (rule act_within_then [OF _ withSize_within [OF assms(3)]], rule within_intros)
    apply (rule act_within_result)
    apply (intro act_within_then act_within_get act_within_simple(1) withDevice_within [OF assms(1) al(1) assms(4)])
    by (rule ext_body_within [OF laws assms(2,3) _ _ assms(5,6)]) simp_all
qed

section \<open>FAT32\<close>

lemma fatChunks_inside:
  assumes "WriteStep off bs \<in> set (fatChunks pos remaining first)" "unat pos + remaining < 2 ^ 64"
  shows "unat off + length bs \<le> unat pos + remaining"
  using assms
proof (induction pos remaining first rule: fatChunks.induct)
  case (1 pos remaining first)
  let ?n = "min remaining FAT_CHUNK"
  have "unat (of_nat ?n :: u64) = ?n" using 1(3) by (simp add: unat_of_nat)
  then have p: "unat (pos + of_nat ?n) = unat pos + ?n"
    using 1(3) min.cobounded1 [of remaining FAT_CHUNK] by (subst unat_plus_if') (simp del: min.cobounded1)
  from 1(2) have nz: "remaining \<noteq> 0" by (subst (asm) fatChunks.simps) (auto split: if_splits)
  with 1(2) consider "off = pos" "length bs = ?n"
    | "WriteStep off bs \<in> set (fatChunks (pos + of_nat ?n) (remaining - ?n) False)"
    by (subst (asm) fatChunks.simps) (auto simp: Let_def fat32FirstEntries_def split: if_splits)
  then show ?case
  proof cases
    case 2
    from 1(1) [OF nz refl refl 2] 1(3) show ?thesis by (simp add: p)
  qed simp
qed

lemma fat32_writes_inside:
  assumes "fat32Layout partSize clusterSize = Inr l" "34 \<le> partSize div 512"
    and "WriteStep off bs \<in> set (fat32Steps l serial label base)"
  shows "unat off + length bs \<le> unat partSize"
proof -
  have s: "32 + 2 * unat (fl_fatSize l) + unat (fl_totalClusters l) * unat (fl_sectorsPerCluster l) \<le> unat (partSize div 512)"
    "unat (fl_dataStart l) = 32 + 2 * unat (fl_fatSize l)" "65525 \<le> fl_totalClusters l"
    using fat32Layout_consistent [OF assms(1,2)] by blast+
  have part: "unat (partSize div 512) * 512 \<le> unat partSize" by (simp add: unat_div)
  have small: "unat partSize < 2 ^ 64" using unsigned_less [of partSize] by simp
  have one: "unat (fl_sectorsPerCluster l) \<le> unat (fl_totalClusters l) * unat (fl_sectorsPerCluster l)"
    using s(3) by (simp add: word_le_nat_alt)
  have len: "length (fat32BootSector l serial label) = 512" "length (fat32FsInfo l) = 512"
    by (simp_all add: fat32BootSector_fields(1) fat32FsInfo_def Let_def)
  have root: "unat (fl_dataStart l * 512) = unat (fl_dataStart l) * 512"
  proof -
    have "unat (fl_dataStart l) * unat (512 :: u64) < 2 ^ 64" using s(1,2) part small by simp
    then show ?thesis using unat_mult_lem [of "fl_dataStart l" "512 :: u64"] by simp
  qed
  have fat: "unat off + length bs \<le> unat partSize"
    if "WriteStep off bs \<in> set (fatCopySteps l base k)" "k = 0 \<or> k = 1" for k
  proof -
    let ?pos = "ucast (32 + of_nat k * fl_fatSize l) * 512 :: u64"
    let ?n = "unat (fl_fatSize l * 512)"
    have kf: "unat (32 + of_nat k * fl_fatSize l) \<le> 32 + k * unat (fl_fatSize l)"
      using that(2) by (auto simp: unat_word_ariths)
    have "unat ?pos \<le> unat (ucast (32 + of_nat k * fl_fatSize l) :: u64) * 512" by (simp add: unat_word_ariths)
    with kf have pos: "unat ?pos \<le> (32 + k * unat (fl_fatSize l)) * 512" by (simp add: unat_ucast_32_64)
    have n: "?n \<le> unat (fl_fatSize l) * 512" by (simp add: unat_word_ariths)
    have sum: "unat ?pos + ?n \<le> unat partSize"
      using pos n that(2) s(1) part by (elim disjE) simp_all
    with that(1) fatChunks_inside [of off bs ?pos ?n True] small show ?thesis
      by (auto simp: fatCopySteps_def)
  qed
  have cluster: "length (fat32RootCluster l label) = unat (fl_sectorsPerCluster l) * 512"
  proof -
    have "11 \<le> unat (fl_sectorsPerCluster l) * 512" if "fl_sectorsPerCluster l \<noteq> 0"
      using that unat_gt_0 [of "fl_sectorsPerCluster l"] by linarith
    moreover have "fl_sectorsPerCluster l \<noteq> 0"
      using assms(1) by (auto simp: fat32Layout_def Let_def split: if_splits)
    ultimately show ?thesis by (simp add: fat32RootCluster_def Let_def)
  qed
  from assms(3) consider "off = 0" "length bs = 512" | "off = 512" "length bs = 512" | "off = 3072" "length bs = 512"
    | "off = 3584" "length bs = 512" | "WriteStep off bs \<in> set (fatCopySteps l base 0)"
    | "WriteStep off bs \<in> set (fatCopySteps l base 1)"
    | "off = fl_dataStart l * 512" "bs = fat32RootCluster l label"
    by (auto simp: fat32Steps_def Let_def len)
  then show ?thesis
  proof cases
    case 7
    have "unat (fl_dataStart l) + unat (fl_sectorsPerCluster l) \<le> unat (partSize div 512)" using s(1,2) one by linarith
    from le_trans [OF mult_le_mono1 [OF this, of 512] part] 7 show ?thesis by (simp add: cluster root add_mult_distrib)
  qed (use s part fat in simp_all)
qed

lemma formatFat32Large_within:
  assumes "win32_laws (env_win32 E) V" "write_frame (env_win32 E) V" "raw_aligned target" "hasRawTarget target"
    and "34 \<le> ft_partitionSizeBytes target div 512"
  shows "act_within V None (ft_diskIndex target) (part_lo target) (part_hi target) (formatFat32Large E target options)"
proof -
  have laws: "handle_laws (env_win32 E) V" "content_laws (env_win32 E) V" using assms(1) by (simp_all add: win32_laws_def)
  note al = raw_alignedD [OF assms(3)]
  show ?thesis
    unfolding formatFat32Large_def Let_def
    apply (rule act_within_then [OF _ withSize_within [OF assms(3)]], rule within_intros)
    apply (rule act_within_result)
    apply (intro act_within_then act_within_get act_within_simple(1) withDevice_within [OF assms(1) al(1) assms(4)]
        zeroFirst_within [OF laws(1) assms(2,3)] runSteps_within [OF laws(1) assms(2,3)] notifyTarget_within laws)
    by (simp_all add: fat32_writes_inside [OF _ assms(5)])
qed

section \<open>Swap\<close>

lemma writeSwapPage_within:
  assumes "handle_laws W V" "write_frame W V" "raw_aligned target" "rh_handle disk = Some h"
    and "unat pageSize \<le> unat (ft_partitionSizeBytes target)"
  shows "io_within V (Some h) d (part_lo target) (part_hi target)
    (writeSwapPage W (ft_sectorSize target) pageSize (RawDevice disk (ft_partitionOffsetBytes target)) page)"
proof -
  note al = raw_alignedD [OF assms(3)]
  from rounded_inside [OF al(2-4), of "ft_partitionOffsetBytes target" "unat pageSize" pageSize] assms(5)
  have "io_within V (Some h) d (part_lo target) (part_hi target)
      (writeSectors W disk (ft_partitionOffsetBytes target div ucast (ft_sectorSize target)) (Some page)
        (ucast ((pageSize + ft_sectorSize target - 1) div ft_sectorSize target)) (ft_sectorSize target))"
    by (intro writeSectors_within [OF assms(1,2) assms(4)]) simp_all
  from io_withinD [OF this] show ?thesis by (auto simp: io_within_def require_Done_iff)
qed

lemma page_fits:
  fixes n :: u64 and p :: u32
  assumes "\<not> n < ucast (2 * p)" "unat p < 2 ^ 31"
  shows "unat p \<le> unat n"
proof -
  have "unat (2 * p) = 2 * unat p" using assms(2) by (simp add: unat_word_ariths)
  with assms(1) show ?thesis by (simp add: word_less_nat_alt unat_ucast_32_64)
qed

lemma formatLinuxSwap_within:
  assumes "win32_laws (env_win32 E) V" "write_frame (env_win32 E) V" "raw_aligned target" "hasRawTarget target"
    and "unat (fo_swapPageSize options) < 2 ^ 31"
  shows "act_within V None (ft_diskIndex target) (part_lo target) (part_hi target) (formatLinuxSwap E target options)"
proof -
  have laws: "handle_laws (env_win32 E) V" using assms(1) by (simp add: win32_laws_def)
  note al = raw_alignedD [OF assms(3)]
  let ?p = "if fo_swapPageSize options = 0 then 4096 else fo_swapPageSize options"
  have p: "unat ?p < 2 ^ 31" using assms(5) by simp
  show ?thesis
    unfolding formatLinuxSwap_def Let_def
    apply (rule act_within_then [OF _ withSize_within [OF assms(3)]], rule within_intros)
    apply (intro act_within_if act_within_then act_within_get act_within_simple act_within_bind act_within_pure
        withDevice_within [OF assms(1) al(1) assms(4)] zeroFirst_within [OF laws(1) assms(2,3)]
        writeSwapPage_within [OF laws assms(2,3)] page_fits [OF _ p])
    by simp_all
qed

section \<open>The engine\<close>


section \<open>A witness\<close>

definition swap_target :: FormatTarget where
  "swap_target = ft_default\<lparr>ft_diskIndex := 0, ft_partitionOffsetBytes := 4, ft_partitionSizeBytes := 2136,
     ft_sectorSize := 4\<rparr>"

definition swap_options :: FormatOptions where
  "swap_options = fo_default\<lparr>fo_targetFs := SWAP_LINUX, fo_quickFormat := True, fo_swapPageSize := 1068\<rparr>"

definition zero_world :: sim_world where
  "zero_world = \<lparr>sim_disk = replicate 4096 0, sim_handles = []\<rparr>"


end
