(* ===== verification/Secure_Erase.thy ===== *)
theory Secure_Erase
  imports Confinement Environment
begin

text \<open>
  \<open>src/core/maintenance/SecureErase.cpp\<close>: the overwrite passes of the erasure methods, the locking of the
  volumes on the disk, one write pass over a range of sectors with its retry of single sectors, and the
  verification of the last pass. The cancel flag is read from the world, the progress callback and
  \<open>BCryptGenRandom\<close> are functions on it; the speed that the callback is told is measured and left out.
\<close>

section \<open>Configuration\<close>

datatype EraseMethod = ZeroFill | DoD_3Pass | DoD_7Pass | Gutmann | RandomFill | CustomPattern

record EraseConfig =
  ec_method :: EraseMethod
  ec_passCount :: int
  ec_verify :: bool
  ec_customPattern :: bytes
  ec_customPatternPasses :: int

definition ec_default :: EraseConfig where
  "ec_default = \<lparr>ec_method = ZeroFill, ec_passCount = 1, ec_verify = True, ec_customPattern = [],
     ec_customPatternPasses = 1\<rparr>"

text \<open>What the code uses from outside. An empty pattern stands for random data.\<close>

record 'w erase_env =
  se_win32 :: "'w Win32"
  se_driveType :: "wstr \<Rightarrow> 'w \<Rightarrow> u32"
  se_diskExtents :: "nat \<Rightarrow> 'w \<Rightarrow> int list option"
  se_lastError :: "'w \<Rightarrow> u32"
  se_genRandom :: "u32 \<Rightarrow> 'w \<Rightarrow> bytes option \<times> 'w"
  se_canceled :: "'w \<Rightarrow> bool"
  se_progress :: "int \<Rightarrow> int \<Rightarrow> u64 \<Rightarrow> u64 \<Rightarrow> 'w \<Rightarrow> 'w"

record SecureErase =
  er_disk :: RawDiskHandle
  er_geometry :: DiskGeometryInfo

definition GUTMANN_PASSES :: "bytes list" where
  "GUTMANN_PASSES =
     [[], [], [], [],
      [0x55, 0x55, 0x55], [0xAA, 0xAA, 0xAA], [0x92, 0x49, 0x24], [0x49, 0x24, 0x92], [0x24, 0x92, 0x49],
      [0x00, 0x00, 0x00], [0x11, 0x11, 0x11], [0x22, 0x22, 0x22], [0x33, 0x33, 0x33], [0x44, 0x44, 0x44],
      [0x55, 0x55, 0x55], [0x66, 0x66, 0x66], [0x77, 0x77, 0x77], [0x88, 0x88, 0x88], [0x99, 0x99, 0x99],
      [0xAA, 0xAA, 0xAA], [0xBB, 0xBB, 0xBB], [0xCC, 0xCC, 0xCC], [0xDD, 0xDD, 0xDD], [0xEE, 0xEE, 0xEE],
      [0xFF, 0xFF, 0xFF], [0x92, 0x49, 0x24], [0x49, 0x24, 0x92], [0x24, 0x92, 0x49], [0x6D, 0xB6, 0xDB],
      [0xB6, 0xDB, 0x6D], [0xDB, 0x6D, 0xB6], [], [], [], []]"

definition buildPassList :: "EraseConfig \<Rightarrow> bytes list" where
  "buildPassList config =
     (case ec_method config of
        ZeroFill \<Rightarrow> [[0x00]]
      | DoD_3Pass \<Rightarrow> [[0x00], [0xFF], []]
      | DoD_7Pass \<Rightarrow> [[0x00], [0xFF], [], [0x00], [0x00], [0xFF], []]
      | Gutmann \<Rightarrow> GUTMANN_PASSES
      | RandomFill \<Rightarrow> replicate (nat (max (ec_passCount config) 1)) []
      | CustomPattern \<Rightarrow> replicate (nat (max (ec_customPatternPasses config) 1)) (ec_customPattern config))"

section \<open>Buffers\<close>

abbreviation (input) BUFFER_SIZE :: u32 where "BUFFER_SIZE \<equiv> 64 * 1024"
abbreviation (input) RANDOM_REFRESH_INTERVAL :: u32 where "RANDOM_REFRESH_INTERVAL \<equiv> 256"

definition fillRandom :: "'w erase_env \<Rightarrow> u32 \<Rightarrow> (bytes Result, 'w) io" where
  "fillRandom E n w =
     (case se_genRandom E n w of
        (None, w') \<Rightarrow> Done (fail Unknown ''BCryptGenRandom failed'', w')
      | (Some bs, w') \<Rightarrow> Done (Inr bs, w'))"

definition fillPattern :: "bytes \<Rightarrow> u32 \<Rightarrow> bytes \<Rightarrow> bytes" where
  "fillPattern buffer bufferSize pattern =
     (if pattern = [] then buffer
      else if length pattern = 1 then replicate (unat bufferSize) (pattern ! 0) @ drop (unat bufferSize) buffer
      else map (\<lambda>i. pattern ! (i mod length pattern)) [0..<unat bufferSize] @ drop (unat bufferSize) buffer)"

section \<open>Volumes\<close>

abbreviation (input) DRIVE_UNKNOWN :: u32 where "DRIVE_UNKNOWN \<equiv> 0"
abbreviation (input) DRIVE_NO_ROOT_DIR :: u32 where "DRIVE_NO_ROOT_DIR \<equiv> 1"

definition driveRootPath :: "u16 \<Rightarrow> wstr" where
  "driveRootPath letter = [letter] @ widen ('':'' @ [CHR 0x5C])"

fun unlockAllVolumes :: "'w Win32 \<Rightarrow> nat list \<Rightarrow> 'w \<Rightarrow> 'w" where
  "unlockAllVolumes W [] w = w"
| "unlockAllVolumes W (h # hs) w =
     unlockAllVolumes W hs (CloseHandle W h (snd (DeviceControl W FSCTL_UNLOCK_VOLUME h w)))"

text \<open>The letters that remain to be tried, and the handles of the volumes locked so far.\<close>

fun lockVolumes :: "'w erase_env \<Rightarrow> int \<Rightarrow> u16 list \<Rightarrow> nat list \<Rightarrow> (nat list Result, 'w) io" where
  "lockVolumes E diskId [] locked w = Done (Inr locked, w)"
| "lockVolumes E diskId (letter # letters) locked w =
     (let W = se_win32 E in
      if se_driveType E (driveRootPath letter) w \<in> {DRIVE_NO_ROOT_DIR, DRIVE_UNKNOWN} then
        lockVolumes E diskId letters locked w
      else
        (case CreateFileW W (volumePath letter) True w of
           (Inl _, w1) \<Rightarrow> lockVolumes E diskId letters locked w1
         | (Inr h, w1) \<Rightarrow>
             (case se_diskExtents E h w1 of
                None \<Rightarrow> lockVolumes E diskId letters locked (CloseHandle W h w1)
              | Some disks \<Rightarrow>
                  if diskId \<notin> set disks then lockVolumes E diskId letters locked (CloseHandle W h w1)
                  else
                    (case DeviceControl W FSCTL_LOCK_VOLUME h w1 of
                       (Inl _, w2) \<Rightarrow>
                         (let w3 = unlockAllVolumes W locked (CloseHandle W h w2) in
                          Done (Inl (fromWin32 DiskLockFailed (se_lastError E w3)
                            (''Cannot lock volume '' @ letterChar letter @ '':'')), w3))
                     | (Inr _, w2) \<Rightarrow>
                         lockVolumes E diskId letters (locked @ [h])
                           (snd (DeviceControl W FSCTL_DISMOUNT_VOLUME h w2))))))"

definition lockAllVolumes :: "'w erase_env \<Rightarrow> int \<Rightarrow> (nat list Result, 'w) io" where
  "lockAllVolumes E diskId = lockVolumes E diskId (map of_nat [65..<91]) []"

section \<open>A write pass\<close>

record erase_loop =
  el_lba :: u64
  el_bytes :: u64
  el_refresh :: u32
  el_buffer :: bytes

definition bufferSectors :: "u32 \<Rightarrow> u64" where
  "bufferSectors sectorSize = ucast (BUFFER_SIZE div sectorSize)"

definition thisChunk :: "u32 \<Rightarrow> u64 \<Rightarrow> u64 \<Rightarrow> u64" where
  "thisChunk sectorSize lba stopLba = min (bufferSectors sectorSize) (stopLba - lba)"

fun retrySectors :: "'w erase_env \<Rightarrow> RawDiskHandle \<Rightarrow> u64 \<Rightarrow> bytes \<Rightarrow> u32 \<Rightarrow> nat list \<Rightarrow> (unit Result, 'w) io" where
  "retrySectors E disk lba buffer ss [] = io_return ok"
| "retrySectors E disk lba buffer ss (s # ss') =
     io_bind (writeSectors (se_win32 E) disk (lba + of_nat s) (Some buffer) 1 ss)
       (\<lambda>_. retrySectors E disk lba buffer ss ss')"

text \<open>The buffer of a random pass is refilled every 256 writes.\<close>

definition refreshBuffer :: "'w erase_env \<Rightarrow> bool \<Rightarrow> erase_loop \<Rightarrow> (erase_loop Result, 'w) io" where
  "refreshBuffer E isRandom st =
     (if \<not> isRandom then io_return (Inr st)
      else
        (let n = el_refresh st + 1 in
         if n \<ge> RANDOM_REFRESH_INTERVAL then
           io_try (fillRandom E BUFFER_SIZE) (\<lambda>bs. io_return (Inr (st\<lparr>el_refresh := 0, el_buffer := bs\<rparr>)))
         else io_return (Inr (st\<lparr>el_refresh := n\<rparr>))))"

definition writeChunk :: "'w erase_env \<Rightarrow> RawDiskHandle \<Rightarrow> u32 \<Rightarrow> u64 \<Rightarrow> erase_loop \<Rightarrow> (unit Result, 'w) io" where
  "writeChunk E disk ss n st =
     io_bind (writeSectors (se_win32 E) disk (el_lba st) (Some (el_buffer st)) n ss)
       (\<lambda>r. if isError r then retrySectors E disk (el_lba st) (el_buffer st) ss [0..<unat n] else io_return ok)"

definition notifyProgress :: "'w erase_env \<Rightarrow> int \<Rightarrow> int \<Rightarrow> u64 \<Rightarrow> u64 \<Rightarrow> (unit Result, 'w) io" where
  "notifyProgress E currentPass totalPasses n totalBytes w =
     Done (ok, se_progress E currentPass totalPasses n totalBytes w)"

definition writeStep :: "'w erase_env \<Rightarrow> RawDiskHandle \<Rightarrow> u32 \<Rightarrow> bool \<Rightarrow> int \<Rightarrow> int \<Rightarrow> u64 \<Rightarrow> u64 \<Rightarrow> erase_loop \<Rightarrow>
    (erase_loop Result, 'w) io" where
  "writeStep E disk ss isRandom currentPass totalPasses totalBytes stopLba st w =
     (if se_canceled E w then Done (fail OperationCanceled ''Erase canceled'', w)
      else
        (let n = thisChunk ss (el_lba st) stopLba; writeSize = ucast n * ss :: u32 in
         io_try (refreshBuffer E isRandom st) (\<lambda>st.
         io_bind (writeChunk E disk ss n st) (\<lambda>_.
         let st = st\<lparr>el_bytes := el_bytes st + ucast writeSize, el_lba := el_lba st + n\<rparr> in
         io_bind (notifyProgress E currentPass totalPasses (el_bytes st) totalBytes) (\<lambda>_. io_return (Inr st)))) w))"

definition passBuffer :: "'w erase_env \<Rightarrow> bytes \<Rightarrow> (bytes Result, 'w) io" where
  "passBuffer E pattern =
     (if pattern = [] then fillRandom E BUFFER_SIZE
      else io_return (Inr (fillPattern (replicate (unat BUFFER_SIZE) 0) BUFFER_SIZE pattern)))"

definition writePass :: "'w erase_env \<Rightarrow> RawDiskHandle \<Rightarrow> u64 \<Rightarrow> u64 \<Rightarrow> u32 \<Rightarrow> bytes \<Rightarrow> int \<Rightarrow> int \<Rightarrow> (unit Result, 'w) io" where
  "writePass E disk startLba sectorCount ss pattern currentPass totalPasses =
     (let stopLba = startLba + sectorCount; totalBytes = sectorCount * ucast ss in
      io_try (passBuffer E pattern) (\<lambda>buffer.
      io_try (io_while (\<lambda>st. el_lba st < stopLba)
               (writeStep E disk ss (pattern = []) currentPass totalPasses totalBytes stopLba)
               \<lparr>el_lba = startLba, el_bytes = 0, el_refresh = 0, el_buffer = buffer\<rparr>)
        (\<lambda>_. io_return ok)))"

section \<open>Verification\<close>

definition verifyStep :: "'w erase_env \<Rightarrow> RawDiskHandle \<Rightarrow> u32 \<Rightarrow> bytes \<Rightarrow> bytes \<Rightarrow> int \<Rightarrow> u64 \<Rightarrow> u64 \<Rightarrow> u64 \<times> u64 \<Rightarrow>
    ((u64 \<times> u64) Result, 'w) io" where
  "verifyStep E disk ss pattern expected totalPasses totalBytes stopLba st w =
     (let (lba, verified) = st in
      if se_canceled E w then Done (fail OperationCanceled ''Verify canceled'', w)
      else
        (let n = thisChunk ss lba stopLba;
             mismatch = (case readSectors (se_win32 E) disk lba n ss w of
                Inl _ \<Rightarrow> False
              | Inr readData \<Rightarrow>
                  pattern \<noteq> [] \<and>
                  (let compareSize = unat (min (ucast n * ss) (of_nat (length readData) :: u32)) in
                   take compareSize readData \<noteq> take compareSize expected))
         in if mismatch then
              Done (fail DiskWriteError ''Verification failed: data mismatch after erase'', w)
            else
              (let st' = (lba + n, verified + n * ucast ss) in
               Done (Inr st', se_progress E totalPasses totalPasses (snd st') totalBytes w))))"

definition verifyPass :: "'w erase_env \<Rightarrow> RawDiskHandle \<Rightarrow> u64 \<Rightarrow> u64 \<Rightarrow> u32 \<Rightarrow> bytes \<Rightarrow> int \<Rightarrow> (unit Result, 'w) io" where
  "verifyPass E disk startLba sectorCount ss pattern totalPasses =
     (let stopLba = startLba + sectorCount; totalBytes = sectorCount * ucast ss;
          expected = fillPattern (replicate (unat BUFFER_SIZE) 0) BUFFER_SIZE pattern
      in io_try (io_while (\<lambda>(lba, verified). lba < stopLba)
                  (verifyStep E disk ss pattern expected totalPasses totalBytes stopLba) (startLba, 0))
           (\<lambda>_. io_return ok))"

section \<open>Erasure\<close>

fun erasePasses :: "'w erase_env \<Rightarrow> RawDiskHandle \<Rightarrow> u64 \<Rightarrow> u64 \<Rightarrow> u32 \<Rightarrow> int \<Rightarrow> int \<Rightarrow> bytes list \<Rightarrow> (unit Result, 'w) io" where
  "erasePasses E disk startLba sectorCount ss totalPasses currentPass [] w = Done (ok, w)"
| "erasePasses E disk startLba sectorCount ss totalPasses currentPass (pattern # passes) w =
     (if se_canceled E w then Done (fail OperationCanceled [], w)
      else
        io_try (writePass E disk startLba sectorCount ss pattern currentPass totalPasses) (\<lambda>_.
        io_bind (rawFlushBuffers (se_win32 E) disk) (\<lambda>_.
          erasePasses E disk startLba sectorCount ss totalPasses (currentPass + 1) passes)) w)"

text \<open>The passes and the verification, between locking and unlocking the volumes.\<close>

definition eraseSectors :: "'w erase_env \<Rightarrow> RawDiskHandle \<Rightarrow> u64 \<Rightarrow> u64 \<Rightarrow> u32 \<Rightarrow> EraseConfig \<Rightarrow> (unit Result, 'w) io" where
  "eraseSectors E disk startLba sectorCount ss config =
     (let passes = buildPassList config;
          totalPasses = int (length passes) + (if ec_verify config then 1 else 0)
      in io_try (erasePasses E disk startLba sectorCount ss totalPasses 1 passes) (\<lambda>_.
           if ec_verify config \<and> passes \<noteq> [] then
             verifyPass E disk startLba sectorCount ss (last passes) totalPasses
           else io_return ok))"

definition eraseLocked :: "'w erase_env \<Rightarrow> RawDiskHandle \<Rightarrow> u64 \<Rightarrow> u64 \<Rightarrow> u32 \<Rightarrow> EraseConfig \<Rightarrow> (unit Result, 'w) io" where
  "eraseLocked E disk startLba sectorCount ss config =
     io_try (lockAllVolumes E (rh_diskId disk)) (\<lambda>locked.
     io_bind (eraseSectors E disk startLba sectorCount ss config) (\<lambda>r w.
       Done (r, unlockAllVolumes (se_win32 E) locked w)))"

definition withGeometry :: "'w erase_env \<Rightarrow> (u32 \<Rightarrow> DiskGeometryInfo \<Rightarrow> (unit Result, 'w) io) \<Rightarrow> SecureErase \<Rightarrow> 'w \<Rightarrow>
    ((unit Result \<times> SecureErase) \<times> 'w) run" where
  "withGeometry E body self w =
     (case getGeometry (se_win32 E) (er_disk self) w of
        Inl e \<Rightarrow> Done ((Inl e, self), w)
      | Inr g \<Rightarrow>
          (let self' = self\<lparr>er_geometry := g\<rparr>; ss = dg_bytesPerSector g in
           if ss = 0 then Done ((fail InvalidArgument ''Disk reports 0 bytes/sector'', self'), w)
           else run_bind (body ss g w) (\<lambda>(r, w'). Done ((r, self'), w'))))"

definition eraseDisk :: "'w erase_env \<Rightarrow> EraseConfig \<Rightarrow> SecureErase \<Rightarrow> (unit Result \<times> SecureErase, 'w) io" where
  "eraseDisk E config self =
     withGeometry E (\<lambda>ss g. eraseLocked E (er_disk self) 0 (dg_totalBytes g div ucast ss) ss config) self"

definition eraseRange :: "'w erase_env \<Rightarrow> u64 \<Rightarrow> u64 \<Rightarrow> EraseConfig \<Rightarrow> SecureErase \<Rightarrow>
    (unit Result \<times> SecureErase, 'w) io" where
  "eraseRange E startLba sectorCount config self =
     withGeometry E (\<lambda>ss g. eraseLocked E (er_disk self) startLba sectorCount ss config) self"

end
