(* ===== verification/Erase_Correct.thy ===== *)
theory Erase_Correct
  imports Secure_Erase
begin

text \<open>
  What secure erasure does to the disk: it changes only the range, on every path; a pass returns exactly on
  disks whose sectors fit the buffer; after a successful run on a disk without faults the range holds the
  last pattern; a successful verification means that what can be read holds the pattern; no handle leaks.
\<close>

section \<open>Laws of the environment\<close>

definition erase_laws :: "'w erase_env \<Rightarrow> 'w win_view \<Rightarrow> bool" where
  "erase_laws E V \<longleftrightarrow>
     win32_laws (se_win32 E) V \<and>
     (\<forall>n w r w'. se_genRandom E n w = (r, w') \<longrightarrow> contents V w' = contents V w \<and> handles V w' = handles V w \<and>
        (\<forall>bs. r = Some bs \<longrightarrow> length bs = unat n)) \<and>
     (\<forall>a b m n w. contents V (se_progress E a b m n w) = contents V w \<and>
        handles V (se_progress E a b m n w) = handles V w)"

lemma erase_lawsD:
  assumes "erase_laws E V"
  shows "win32_laws (se_win32 E) V" "handle_laws (se_win32 E) V" "content_laws (se_win32 E) V"
    "se_genRandom E n w = (r, w') \<Longrightarrow> contents V w' = contents V w"
    "se_genRandom E n w = (r, w') \<Longrightarrow> handles V w' = handles V w"
    "se_genRandom E n w = (Some bs, w') \<Longrightarrow> length bs = unat n"
    "contents V (se_progress E a b m p w) = contents V w" "handles V (se_progress E a b m p w) = handles V w"
  using assms unfolding erase_laws_def win32_laws_def by blast+

section \<open>Buffers and chunks\<close>

lemma length_fillPattern:
  "length buffer = unat n \<Longrightarrow> length (fillPattern buffer n pattern) = unat n"
  by (simp add: fillPattern_def)

lemma nth_fillPattern:
  assumes "pattern \<noteq> []" "i < unat n"
  shows "fillPattern buffer n pattern ! i = pattern ! (i mod length pattern)"
proof (cases "length pattern = 1")
  case True
  with assms show ?thesis by (simp add: fillPattern_def nth_append mod_less_eq_dividend)
next
  case False
  with assms show ?thesis by (simp add: fillPattern_def nth_append)
qed

lemma fillRandom_Done:
  "fillRandom E n w = Done (r, w') \<longleftrightarrow>
     (\<exists>q. se_genRandom E n w = (q, w') \<and> r = (case q of None \<Rightarrow> fail Unknown ''BCryptGenRandom failed'' | Some bs \<Rightarrow> Inr bs))"
  by (auto simp: fillRandom_def split: prod.split option.splits)

lemma fillRandom_keeps [keeps_intros]:
  assumes "erase_laws E V"
  shows "keeps (contents V) (fillRandom E n)" "keeps (handles V) (fillRandom E n)"
  using erase_lawsD(4,5) [OF assms] by (auto simp: keeps_def fillRandom_Done)

lemma passBuffer_keeps [keeps_intros]:
  assumes "erase_laws E V"
  shows "keeps (contents V) (passBuffer E pattern)" "keeps (handles V) (passBuffer E pattern)"
  unfolding passBuffer_def using assms by (auto intro!: keeps_intros)

lemma refreshBuffer_keeps [keeps_intros]:
  assumes "erase_laws E V"
  shows "keeps (contents V) (refreshBuffer E isRandom st)" "keeps (handles V) (refreshBuffer E isRandom st)"
  unfolding refreshBuffer_def Let_def using assms by (auto intro!: keeps_intros)

lemma notifyProgress_keeps [keeps_intros]:
  assumes "erase_laws E V"
  shows "keeps (contents V) (notifyProgress E a b m n)" "keeps (handles V) (notifyProgress E a b m n)"
  using erase_lawsD(7,8) [OF assms] by (auto simp: keeps_def notifyProgress_def)

lemma passBuffer_length:
  "erase_laws E V \<Longrightarrow> passBuffer E pattern w = Done (Inr buffer, w') \<Longrightarrow> length buffer = unat BUFFER_SIZE"
  using erase_lawsD(6) [of E V]
  by (auto simp: passBuffer_def fillRandom_Done io_return_Done length_fillPattern split: if_splits option.splits)

text \<open>A chunk of a pass: at least one sector, at most the buffer, at most what is left.\<close>

lemma chunk_props:
  fixes lba stopLba :: u64 and ss :: u32
  assumes "ss \<noteq> 0" "ss \<le> BUFFER_SIZE" "lba < stopLba"
  defines "n \<equiv> thisChunk ss lba stopLba"
  shows "0 < unat n" "unat n \<le> unat (bufferSectors ss)" "unat (lba + n) = unat lba + unat n" "lba + n \<le> stopLba"
    "unat (bufferSectors ss) * unat ss \<le> 65536" "unat (stopLba - (lba + n)) < unat (stopLba - lba)"
    "lba + n < stopLba \<Longrightarrow> n = bufferSectors ss" "unat (n * ucast ss) = unat n * unat ss"
proof -
  have pos: "0 < unat ss" using assms(1) by (simp add: unat_gt_0)
  have bs: "unat (bufferSectors ss) = 65536 div unat ss" by (simp add: bufferSectors_def unat_div unat_ucast_32_64)
  have "unat ss \<le> 65536" using assms(2) by (simp add: word_le_nat_alt)
  then have b1: "0 < unat (bufferSectors ss)" using bs pos by (simp add: div_greater_zero_iff)
  show b2: "unat (bufferSectors ss) * unat ss \<le> 65536" using bs by simp
  have left: "unat (stopLba - lba) = unat stopLba - unat lba" "unat lba < unat stopLba"
    using assms(3) by (simp_all add: word_less_nat_alt unat_sub_if')
  have n: "unat n = min (unat (bufferSectors ss)) (unat stopLba - unat lba)"
    using left(1) by (simp add: n_def thisChunk_def min_def word_le_nat_alt)
  show "0 < unat n" using n b1 left(2) by simp
  show n2: "unat n \<le> unat (bufferSectors ss)" using n by simp
  have "unat lba + unat n \<le> unat stopLba" using n left(2) by simp
  then show a: "unat (lba + n) = unat lba + unat n"
    using unat_less_64 [of stopLba] by (subst unat_plus_if') simp
  then show le: "lba + n \<le> stopLba" using \<open>unat lba + unat n \<le> unat stopLba\<close> by (simp add: word_le_nat_alt)
  then show "unat (stopLba - (lba + n)) < unat (stopLba - lba)"
    using a left \<open>0 < unat n\<close> by (simp add: unat_sub word_le_nat_alt)
  show "n = bufferSectors ss" if "lba + n < stopLba"
    using that a n by (auto simp: word_less_nat_alt word_unat_eq_iff min_def split: if_splits)
  show "unat (n * ucast ss) = unat n * unat ss"
  proof -
    have "unat n * unat ss \<le> 65536" using b2 mult_le_mono1 [OF n2, of "unat ss"] by linarith
    then have "unat n * unat (ucast ss :: u64) < 2 ^ 64" by (simp add: unat_ucast_32_64)
    then show ?thesis using unat_mult_lem [of n "ucast ss"] by (simp add: unat_ucast_32_64)
  qed
qed

section \<open>Handles\<close>

lemma retrySectors_handles [keeps_intros]:
  "handle_laws (se_win32 E) V \<Longrightarrow> keeps (handles V) (retrySectors E disk lba buffer ss ns)"
  by (induction ns) (auto intro!: keeps_intros)

lemma writeChunk_handles [keeps_intros]:
  "handle_laws (se_win32 E) V \<Longrightarrow> keeps (handles V) (writeChunk E disk ss n st)"
  unfolding writeChunk_def by (intro keeps_intros) (auto intro!: keeps_intros)

lemma writeStep_handles [keeps_intros]:
  assumes "erase_laws E V"
  shows "keeps (handles V) (writeStep E disk ss isRandom cp tp tb stop st)"
proof -
  have "keeps (handles V) (io_try (refreshBuffer E isRandom st) (\<lambda>st.
         io_bind (writeChunk E disk ss n st) (\<lambda>_.
         let st = st\<lparr>el_bytes := el_bytes st + m, el_lba := el_lba st + n\<rparr> in
         io_bind (notifyProgress E cp tp (el_bytes st) tb) (\<lambda>_. io_return (Inr st)))))" for n m
    unfolding Let_def by (intro keeps_intros assms erase_lawsD(2) [OF assms])
  from keepsD [OF this] show ?thesis
    by (auto simp: keeps_def writeStep_def Let_def)
qed

lemma writePass_handles [keeps_intros]:
  assumes "erase_laws E V"
  shows "keeps (handles V) (writePass E disk start count ss pattern cp tp)"
  unfolding writePass_def Let_def by (intro keeps_intros assms)

lemma verifyStep_keeps:
  assumes "erase_laws E V"
  shows "keeps (handles V) (verifyStep E disk ss pattern expected tp tb stop st)"
    "keeps (contents V) (verifyStep E disk ss pattern expected tp tb stop st)"
  using erase_lawsD(7,8) [OF assms]
  by (auto simp: keeps_def verifyStep_def Let_def split: prod.splits if_splits)

lemma verifyPass_keeps [keeps_intros]:
  assumes "erase_laws E V"
  shows "keeps (handles V) (verifyPass E disk start count ss pattern tp)"
    "keeps (contents V) (verifyPass E disk start count ss pattern tp)"
  unfolding verifyPass_def Let_def by (intro keeps_intros verifyStep_keeps assms)+

lemma erasePasses_handles [keeps_intros]:
  assumes "erase_laws E V"
  shows "keeps (handles V) (erasePasses E disk start count ss tp cp passes)"
proof (induction passes arbitrary: cp)
  case Nil
  then show ?case by (simp add: keeps_def)
next
  case (Cons p passes)
  have "keeps (handles V) (io_try (writePass E disk start count ss p cp tp) (\<lambda>_.
        io_bind (rawFlushBuffers (se_win32 E) disk) (\<lambda>_. erasePasses E disk start count ss tp (cp + 1) passes)))"
    by (intro keeps_intros assms erase_lawsD(2) [OF assms] Cons.IH)
  from keepsD [OF this] show ?case by (auto simp: keeps_def)
qed

lemma eraseSectors_handles [keeps_intros]:
  "erase_laws E V \<Longrightarrow> keeps (handles V) (eraseSectors E disk start count ss config)"
  unfolding eraseSectors_def Let_def by (intro keeps_intros) (auto intro!: keeps_intros)

lemma unlockAllVolumes_handles:
  assumes "handle_laws W V"
  shows "handles V (unlockAllVolumes W hs w) = (\<lambda>h. if h \<in> set hs then None else handles V w h)"
proof (induction hs arbitrary: w)
  case (Cons h hs)
  obtain r w1 where dc: "DeviceControl W FSCTL_UNLOCK_VOLUME h w = (r, w1)" by fastforce
  with Cons show ?case
    using handle_lawsD(6) [OF assms dc] by (auto simp: handle_lawsD(3) [OF assms] fun_eq_iff)
qed simp

lemma lockVolumes_handles:
  assumes "handle_laws (se_win32 E) V" "lockVolumes E d letters locked w = Done (r, w')"
    and "\<And>h. h \<in> set locked \<Longrightarrow> handles V w h \<noteq> None" "handles V w0 = (\<lambda>h. if h \<in> set locked then None else handles V w h)"
  shows "case r of Inl _ \<Rightarrow> handles V w' = handles V w0
    | Inr hs \<Rightarrow> handles V w0 = (\<lambda>h. if h \<in> set hs then None else handles V w' h)"
  using assms
proof (induction E d letters locked w rule: lockVolumes.induct)
  case (1 E d locked w)
  then show ?case by auto
next
  case (2 E d letter letters locked w)
  let ?W = "se_win32 E" and ?go = "lockVolumes E d letters"
  let ?Q = "\<lambda>r w'. case r of Inl _ \<Rightarrow> handles V w' = handles V w0
    | Inr hs \<Rightarrow> handles V w0 = (\<lambda>h. if h \<in> set hs then None else handles V w' h)"
  let ?I = "\<lambda>locked w. (\<forall>h \<in> set locked. handles V w h \<noteq> None) \<and>
    handles V w0 = (\<lambda>h. if h \<in> set locked then None else handles V w h)"
  note H = handle_lawsD [OF "2.prems"(1)]
  have start: "?I locked w" using "2.prems"(3,4) by blast
  show ?case
  proof (cases "se_driveType E (driveRootPath letter) w \<in> {DRIVE_NO_ROOT_DIR, DRIVE_UNKNOWN}")
    case True
    with "2.prems"(2) have "?go locked w = Done (r, w')" by (simp add: Let_def)
    with "2.IH"(1) [OF refl True "2.prems"(1)] start show ?thesis by blast
  next
    case dt: False
    obtain q w1 where cf: "CreateFileW ?W (volumePath letter) True w = (q, w1)" by fastforce
    show ?thesis
    proof (cases q)
      case (Inl e)
      with cf dt "2.prems"(2) have "?go locked w1 = Done (r, w')" by (simp add: Let_def)
      moreover have same: "handles V w1 = handles V w" using H(1) cf Inl by blast
      have "?I locked w1" using start unfolding same .
      ultimately show ?thesis using "2.IH"(2) [OF refl dt cf [symmetric] Inl "2.prems"(1)] by blast
    next
      case (Inr h)
      from H(2) cf Inr have new: "handles V w h = None" "(handles V w1)(h := None) = handles V w" by blast+
      have fresh: "h \<notin> set locked" using start new(1) by blast
      have w1: "handles V w1 x = handles V w x" if "x \<noteq> h" for x
        using fun_cong [OF new(2), of x] that by simp
      have closed: "?I locked v" if "handles V v = (handles V w1)(h := None)" for v
      proof -
        have same: "handles V v = handles V w" using that new(2) by simp
        show ?thesis using start unfolding same .
      qed
      show ?thesis
      proof (cases "\<exists>disks. se_diskExtents E h w1 = Some disks \<and> d \<in> set disks")
        case False
        then have go: "?go locked (CloseHandle ?W h w1) = Done (r, w')"
          using "2.prems"(2) cf dt Inr by (auto simp: Let_def split: option.splits if_splits)
        have "?I locked (CloseHandle ?W h w1)" by (rule closed) (rule H(3))
        with "2.IH"(3,4) [OF refl dt cf [symmetric] Inr] "2.prems"(1) go False show ?thesis
          by (cases "se_diskExtents E h w1") blast+
      next
        case True
        then obtain disks where ext: "se_diskExtents E h w1 = Some disks" "\<not> d \<notin> set disks" by blast
        obtain lk w2 where dc: "DeviceControl ?W FSCTL_LOCK_VOLUME h w1 = (lk, w2)" by fastforce
        have w2: "handles V w2 = handles V w1" by (rule H(6) [OF dc])
        show ?thesis
        proof (cases lk)
          case lkl: (Inl e)
          let ?w3 = "unlockAllVolumes ?W locked (CloseHandle ?W h w2)"
          have "\<exists>err. r = Inl err" "w' = ?w3"
            using "2.prems"(2) cf dt Inr ext dc lkl by (auto simp: Let_def)
          moreover have "handles V ?w3 = handles V w0"
            using closed [of "CloseHandle ?W h w2"] by (simp add: unlockAllVolumes_handles [OF "2.prems"(1)] H(3) w2)
          ultimately show ?thesis by auto
        next
          case lkr: (Inr u)
          let ?w3 = "snd (DeviceControl ?W FSCTL_DISMOUNT_VOLUME h w2)"
          have go: "?go (locked @ [h]) ?w3 = Done (r, w')"
            using "2.prems"(2) cf dt Inr ext dc lkr by (simp add: Let_def)
          obtain q3 where "DeviceControl ?W FSCTL_DISMOUNT_VOLUME h w2 = (q3, ?w3)" by (metis prod.collapse)
          then have w3: "handles V ?w3 = handles V w1" using H(6) w2 by metis
          have open_h: "handles V w1 h \<noteq> None"
            using "2.prems"(1) cf Inr unfolding handle_laws_def by (metis fun_upd_same option.distinct(1))
          have "?I (locked @ [h]) ?w3"
            using start w1 fresh open_h new(1) unfolding w3 by (auto simp: fun_eq_iff) metis
          with "2.IH"(5) [OF refl dt cf [symmetric] Inr ext dc [symmetric] lkr "2.prems"(1) go] show ?thesis by blast
        qed
      qed
    qed
  qed
qed

section \<open>The contents of the range\<close>

lemma writeStep_writes:
  assumes "erase_laws E V" "disk_works (se_win32 E) V d" "rh_handle disk = Some h" "rh_accessMode disk = ReadWrite"
    and "handles V w h = Some (OnDisk d True)" "length (el_buffer st) = 65536" "ss \<noteq> 0" "ss \<le> BUFFER_SIZE"
    and "el_lba st < stop" "unat stop * unat ss \<le> length (contents V w d)" "unat stop * unat ss < 2 ^ 64"
    and "writeStep E disk ss False cp tp tb stop st w = Done (Inr st', w')"
  defines "n \<equiv> thisChunk ss (el_lba st) stop"
  shows "el_lba st' = el_lba st + n" "el_buffer st' = el_buffer st"
    "contents V w' = (contents V w)(d := blit (unat (el_lba st) * unat ss) (take (unat n * unat ss) (el_buffer st)) (contents V w d))"
    "handles V w' = handles V w"
proof -
  note L = erase_lawsD [OF assms(1)] and c = chunk_props [OF assms(7-9), folded n_def]
  have le: "unat n * unat ss \<le> 65536" using c(5) mult_le_mono1 [OF c(2), of "unat ss"] by linarith
  have end_le: "(unat (el_lba st) + unat n) * unat ss \<le> unat stop * unat ss"
    using c(3,4) by (intro mult_le_mono1) (simp add: word_le_nat_alt)
  then have "unat (el_lba st) * unat (ucast ss :: u64) < 2 ^ 64"
    using assms(11) by (simp add: unat_ucast_32_64 add_mult_distrib)
  then have off: "unat (el_lba st * ucast ss) = unat (el_lba st) * unat ss"
    using unat_mult_lem [of "el_lba st" "ucast ss"] by (simp add: unat_ucast_32_64)
  have room: "unat (el_lba st * ucast ss) + unat (n * ucast ss) \<le> length (contents V w d)"
    using end_le assms(10) off c(8) by (simp add: add_mult_distrib)
  obtain w1 where wr: "writeSectors (se_win32 E) disk (el_lba st) (Some (el_buffer st)) n ss w = Done (ok, w1)"
    using writeSectors_works [OF assms(2-5) room, of "el_buffer st"] le assms(6) c(8) by auto
  with assms(12) have st': "st' = st\<lparr>el_bytes := el_bytes st', el_lba := el_lba st + n\<rparr>"
    and w': "w' = se_progress E cp tp (el_bytes st') tb w1"
    by (auto simp: writeStep_def Let_def refreshBuffer_def io_try_def io_return_def io_bind_def writeChunk_def n_def [symmetric]
        isError_def notifyProgress_def split: if_splits)
  show "el_lba st' = el_lba st + n" "el_buffer st' = el_buffer st" by (subst st', simp)+
  show "handles V w' = handles V w"
    using keepsD [OF writeSectors_handles [OF L(2)] wr] by (simp add: w' L(8))
  show "contents V w' = (contents V w)(d := blit (unat (el_lba st) * unat ss) (take (unat n * unat ss) (el_buffer st)) (contents V w d))"
    using writeSectors_content(1) [OF L(3) assms(3,5) wr] by (simp add: w' L(7) off c(8))
qed

text \<open>What a byte of the range becomes: the pattern starts again with every buffer that is written.\<close>

definition patternAt :: "bytes \<Rightarrow> u32 \<Rightarrow> nat \<Rightarrow> u8" where
  "patternAt pattern ss i = pattern ! (i mod (unat (bufferSectors ss) * unat ss) mod length pattern)"

definition holds_pattern :: "bytes \<Rightarrow> bytes \<Rightarrow> u32 \<Rightarrow> nat \<Rightarrow> nat \<Rightarrow> bool" where
  "holds_pattern disk pattern ss off n \<longleftrightarrow> off + n \<le> length disk \<and> (\<forall>i < n. disk ! (off + i) = patternAt pattern ss i)"

lemma holds_pattern_chunk:
  assumes "holds_pattern disk pattern ss off (k * c)" "c = unat (bufferSectors ss) * unat ss" "m \<le> c"
    and "off + k * c + m \<le> length disk" "m \<le> length buffer"
    and "\<And>j. j < m \<Longrightarrow> buffer ! j = pattern ! (j mod length pattern)"
  shows "holds_pattern (blit (off + k * c) (take m buffer) disk) pattern ss off (k * c + m)"
  unfolding holds_pattern_def
proof (intro conjI allI impI)
  have len: "off + k * c + length (take m buffer) \<le> length disk" using assms(4,5) by simp
  then show "off + (k * c + m) \<le> length (blit (off + k * c) (take m buffer) disk)" using assms(4) by simp
  fix i assume i: "i < k * c + m"
  show "blit (off + k * c) (take m buffer) disk ! (off + i) = patternAt pattern ss i"
  proof (cases "i < k * c")
    case True
    then show ?thesis using assms(1) by (simp add: nth_blit [OF len] holds_pattern_def)
  next
    case False
    then obtain j where j: "i = k * c + j" by (metis le_Suc_ex not_le)
    with i have jm: "j < m" by simp
    then have "i mod c = j" using assms(3) j by (simp add: mod_less)
    then show ?thesis
      using assms(5) jm by (simp add: nth_blit [OF len] j patternAt_def assms(2) [symmetric] assms(6) [OF jm])
  qed
qed

text \<open>
  A completed write pass with a pattern, on a disk without faults, leaves every byte of the range with
  the byte of the pattern that belongs there; the pattern starts anew with each buffer of 64 KiB (or the
  whole sectors that fit into it).
\<close>

theorem writePass_fills:
  assumes "erase_laws E V" "disk_works (se_win32 E) V d" "rh_handle disk = Some h" "rh_accessMode disk = ReadWrite"
    and "handles V w h = Some (OnDisk d True)" "ss \<noteq> 0" "ss \<le> BUFFER_SIZE" "pattern \<noteq> []"
    and "(unat start + unat count) * unat ss \<le> length (contents V w d)" "(unat start + unat count) * unat ss < 2 ^ 64"
    and "writePass E disk start count ss pattern cp tp w = Done (Inr u, w')"
  shows "holds_pattern (contents V w' d) pattern ss (unat start * unat ss) (unat count * unat ss)"
proof -
  let ?stop = "start + count" and ?b = "unat (bufferSectors ss)" and ?s = "unat ss"
  let ?buf = "fillPattern (replicate (unat BUFFER_SIZE) 0) BUFFER_SIZE pattern"
  have pos: "0 < ?s" using assms(6) by (simp add: unat_gt_0)
  then have "unat start + unat count < 2 ^ 64"
    using assms(10) by (metis le_less_trans mult.right_neutral mult_le_mono2 Suc_leI One_nat_def)
  then have stop: "unat ?stop = unat start + unat count" by (subst unat_plus_if') simp
  have buf: "length ?buf = 65536" "\<And>j. j < 65536 \<Longrightarrow> ?buf ! j = pattern ! (j mod length pattern)"
    using length_fillPattern [of "replicate (unat BUFFER_SIZE) 0" BUFFER_SIZE pattern] nth_fillPattern [OF assms(8)]
    by simp_all
  let ?st0 = "\<lparr>el_lba = start, el_bytes = 0, el_refresh = 0, el_buffer = ?buf\<rparr>"
  obtain st' where loop: "io_while (\<lambda>st. el_lba st < ?stop)
      (writeStep E disk ss False cp tp (count * ucast ss) ?stop) ?st0 w = Done (Inr st', w')"
    using assms(8,11)
    by (auto simp: writePass_def Let_def passBuffer_def io_try_Done io_return_Done)
  define I where "I st v \<longleftrightarrow> el_buffer st = ?buf \<and> handles V v h = Some (OnDisk d True) \<and>
      length (contents V v d) = length (contents V w d) \<and> unat (el_lba st) \<le> unat ?stop \<and>
      (\<exists>k r. unat (el_lba st) = unat start + k * ?b + r \<and> (r = 0 \<or> el_lba st = ?stop) \<and>
        holds_pattern (contents V v d) pattern ss (unat start * ?s) ((k * ?b + r) * ?s))" for st :: erase_loop and v
  have "case (Inr st' :: erase_loop Result) of Inl e \<Rightarrow> True | Inr st \<Rightarrow> I st w' \<and> \<not> el_lba st < ?stop"
  proof (rule io_while_invariant [OF loop, where I = I and Q = "\<lambda>_ _. True"])
    have "holds_pattern (contents V w d) pattern ss (unat start * ?s) 0"
      using assms(9) by (simp add: holds_pattern_def add_mult_distrib)
    then show "I ?st0 w"
      using assms(5) stop by (auto simp: I_def intro: exI [of _ 0])
  next
    fix st v st2 v2
    assume inv: "I st v" and test: "el_lba st < ?stop"
      and step: "writeStep E disk ss False cp tp (count * ucast ss) ?stop st v = Done (Inr st2, v2)"
    let ?n = "thisChunk ss (el_lba st) ?stop"
    from inv obtain k r0 where kr: "unat (el_lba st) = unat start + k * ?b + r0" "r0 = 0 \<or> el_lba st = ?stop"
      "holds_pattern (contents V v d) pattern ss (unat start * ?s) ((k * ?b + r0) * ?s)"
      unfolding I_def by blast
    with test have k: "unat (el_lba st) = unat start + k * ?b" "el_buffer st = ?buf"
      "handles V v h = Some (OnDisk d True)" "length (contents V v d) = length (contents V w d)"
      and hp: "holds_pattern (contents V v d) pattern ss (unat start * ?s) (k * (?b * ?s))"
      using inv by (auto simp: I_def mult.assoc)
    note c = chunk_props [OF assms(6,7) test]
    have room: "unat ?stop * ?s \<le> length (contents V v d)" "unat ?stop * ?s < 2 ^ 64"
      using assms(9,10) k(4) stop by simp_all
    note w = writeStep_writes [OF assms(1-4) k(3) _ assms(6,7) test room step]
    have len: "length (el_buffer st) = 65536" using k(2) buf(1) by simp
    have small: "unat ?n * ?s \<le> ?b * ?s" using c(2) by (rule mult_le_mono1)
    have n64: "unat ?n * ?s \<le> 65536" by (rule le_trans [OF small c(5)])
    have fits: "(unat (el_lba st) + unat ?n) * ?s \<le> length (contents V v d)"
      by (rule le_trans [OF mult_le_mono1 room(1)]) (use c(3,4) in \<open>simp add: word_le_nat_alt\<close>)
    have "holds_pattern (blit (unat start * ?s + k * (?b * ?s)) (take (unat ?n * ?s) ?buf) (contents V v d))
        pattern ss (unat start * ?s) (k * (?b * ?s) + unat ?n * ?s)"
    proof (rule holds_pattern_chunk [OF hp refl small])
      show "unat start * ?s + k * (?b * ?s) + unat ?n * ?s \<le> length (contents V v d)"
        using fits k(1) by (simp add: add_mult_distrib mult.assoc)
    qed (use buf n64 in simp_all)
    moreover have "contents V v2 d = blit (unat start * ?s + k * (?b * ?s)) (take (unat ?n * ?s) ?buf) (contents V v d)"
      using w(3) [OF len] k(1,2) by (simp add: add_mult_distrib mult.assoc)
    ultimately have hp2: "holds_pattern (contents V v2 d) pattern ss (unat start * ?s) ((k * ?b + unat ?n) * ?s)"
      by (simp add: add_mult_distrib mult.assoc)
    have len2: "length (contents V v2 d) = length (contents V w d)"
      using w(3) [OF len] k(4) fits n64 by (simp add: len add_mult_distrib)
    have lba: "unat (el_lba st2) = unat start + k * ?b + unat ?n" using w(1) [OF len] c(3) k(1) by simp
    have le: "unat (el_lba st2) \<le> unat ?stop" using w(1) [OF len] c(4) by (simp add: word_le_nat_alt)
    show "I st2 v2"
    proof (cases "el_lba st2 = ?stop")
      case True
      with lba hp2 len2 le w(2,4) [OF len] k(2,3) show ?thesis by (auto simp: I_def)
    next
      case False
      then have "el_lba st + ?n < ?stop" using w(1) [OF len] c(4) by simp
      then have nb: "unat ?n = ?b" using c(7) by simp
      have "unat (el_lba st2) = unat start + Suc k * ?b + 0"
        "holds_pattern (contents V v2 d) pattern ss (unat start * ?s) ((Suc k * ?b + 0) * ?s)"
        using lba hp2 nb by (simp_all add: algebra_simps)
      with len2 le w(2,4) [OF len] k(2,3) show ?thesis unfolding I_def by metis
    qed
  qed simp
  then have I: "I st' w'" "?stop \<le> el_lba st'" by (simp_all add: not_less)
  then have "el_lba st' = ?stop" by (simp add: I_def word_le_nat_alt [symmetric])
  with I obtain k r where "unat ?stop = unat start + k * ?b + r"
    and hp: "holds_pattern (contents V w' d) pattern ss (unat start * ?s) ((k * ?b + r) * ?s)"
    by (auto simp: I_def)
  then have "k * ?b + r = unat count" using stop by simp
  with hp show ?thesis by simp
qed

section \<open>Confinement\<close>

lemma mult_ss:
  fixes n :: u64 and ss :: u32
  shows "unat n * unat ss < 2 ^ 64 \<Longrightarrow> unat (n * ucast ss) = unat n * unat ss"
  using unat_mult_lem [of n "ucast ss"] by (simp add: unat_ucast_32_64)

text \<open>Any run of sectors inside the range.\<close>

lemma sectors_within:
  fixes lba n :: u64
  assumes "handle_laws W V" "write_frame W V" "rh_handle disk = Some h"
    and "a \<le> unat lba" "unat lba + unat n \<le> b" "b * unat ss < 2 ^ 64"
  shows "io_within V (Some h) d (a * unat ss) (b * unat ss) (writeSectors W disk lba data n ss)"
proof -
  have le: "(unat lba + unat n) * unat ss \<le> b * unat ss" using assms(5) by (rule mult_le_mono1)
  then have "unat (lba * ucast ss) = unat lba * unat ss" "unat (n * ucast ss) = unat n * unat ss"
    using assms(6) by (simp_all add: mult_ss add_mult_distrib)
  with le mult_le_mono1 [OF assms(4), of "unat ss"] show ?thesis
    by (intro writeSectors_within [OF assms(1-3)]) (simp_all add: add_mult_distrib)
qed

lemma thisChunk_le:
  assumes "lba < stop"
  shows "unat lba + unat (thisChunk ss lba stop) \<le> unat stop"
proof -
  have "unat (thisChunk ss lba stop) \<le> unat (stop - lba)"
    by (simp add: thisChunk_def word_le_nat_alt [symmetric])
  then show ?thesis using assms by (simp add: word_less_nat_alt unat_sub_if')
qed

lemma retrySectors_within:
  fixes n lba :: u64
  assumes "handle_laws (se_win32 E) V" "write_frame (se_win32 E) V" "rh_handle disk = Some h"
    and "\<And>s. s \<in> set ns \<Longrightarrow> s < unat n" "a \<le> unat lba" "unat lba + unat n \<le> b" "b * unat ss < 2 ^ 64"
  shows "io_within V (Some h) d (a * unat ss) (b * unat ss) (retrySectors E disk lba buffer ss ns)"
  using assms(4)
proof (induction ns)
  case Nil
  then show ?case by (simp add: within_intros)
next
  case (Cons s ns)
  have s: "s < unat n" using Cons.prems by simp
  have "s < 2 ^ 64" using s unat_less_64 [of n] by simp
  then have "unat (of_nat s :: u64) = s" by (simp add: unat_of_nat)
  then have lba: "unat (lba + of_nat s) = unat lba + s \<or> unat (lba + of_nat s) + 2 ^ 64 = unat lba + s"
    by (simp add: unat_plus_if')
  show ?case
  proof (cases "ss = 0")
    case True
    then have "io_within V (Some h) d (a * unat ss) (b * unat ss) (writeSectors (se_win32 E) disk (lba + of_nat s) (Some buffer) 1 ss)"
      by (intro writeSectors_within [OF assms(1-3)]) simp_all
    then show ?thesis using Cons by (auto intro!: io_within_bind)
  next
    case False
    then have "b < 2 ^ 64" using assms(7) by (metis le_less_trans mult.right_neutral mult_le_mono2 unat_gt_0 Suc_leI One_nat_def)
    then have "unat (lba + of_nat s) = unat lba + s" using lba s assms(6) by auto
    then have "io_within V (Some h) d (a * unat ss) (b * unat ss) (writeSectors (se_win32 E) disk (lba + of_nat s) (Some buffer) 1 ss)"
      by (intro sectors_within [OF assms(1-3) _ _ assms(7)]) (use assms(5,6) s in simp_all)
    then show ?thesis using Cons by (auto intro!: io_within_bind)
  qed
qed

lemma io_within_keep2:
  assumes "erase_laws E V"
  shows "io_within V ho d lo hi (passBuffer E pattern)" "io_within V ho d lo hi (refreshBuffer E isRandom st)"
    "io_within V ho d lo hi (notifyProgress E p q m t)" "io_within V ho d lo hi (verifyPass E disk start count ss pattern tp)"
  by (intro io_within_keeps keeps_intros assms)+

lemma writeStep_within:
  assumes "erase_laws E V" "write_frame (se_win32 E) V" "rh_handle disk = Some h"
    and "a \<le> unat (el_lba st)" "el_lba st < stop" "unat stop * unat ss < 2 ^ 64"
  shows "io_within V (Some h) d (a * unat ss) (unat stop * unat ss)
    (writeStep E disk ss isRandom cp tp tb stop st)"
proof -
  let ?n = "thisChunk ss (el_lba st) stop"
  note laws = erase_lawsD(2,3) [OF assms(1)] and le = thisChunk_le [OF assms(5), of ss]
  have chunk: "io_within V (Some h) d (a * unat ss) (unat stop * unat ss) (writeChunk E disk ss ?n st')"
    if "el_lba st' = el_lba st" for st'
    unfolding writeChunk_def
    by (intro within_intros sectors_within [OF laws(1) assms(2,3)] retrySectors_within [OF laws(1) assms(2,3)])
      (use that assms(4,6) le in auto)
  have lba: "el_lba st' = el_lba st" if "refreshBuffer E isRandom st w = Done (Inr st', w')" for st' w w'
    using that by (auto simp: refreshBuffer_def Let_def io_return_Done io_try_Done split: if_splits)
  show ?thesis
    unfolding io_within_def
  proof (intro allI impI)
    fix w r w'
    let ?ok = "\<lambda>v. on_disk V (Some h) d v \<and> changed_within V d (a * unat ss) (unat stop * unat ss) w v"
    assume on: "on_disk V (Some h) d w" and run: "writeStep E disk ss isRandom cp tp tb stop st w = Done (r, w')"
    show "?ok w'"
    proof (cases "se_canceled E w")
      case True
      with run on show ?thesis by (simp add: writeStep_def)
    next
      case False
      from run False consider e where "refreshBuffer E isRandom st w = Done (Inl e, w')"
        | st1 w1 u w2 where "refreshBuffer E isRandom st w = Done (Inr st1, w1)"
            "writeChunk E disk ss ?n st1 w1 = Done (u, w2)"
            "\<exists>m v. notifyProgress E cp tp m tb w2 = Done (v, w')"
        by (auto simp: writeStep_def Let_def io_try_Done io_bind_Done io_return_Done) blast
      then show ?thesis
      proof cases
        case 1
        from io_withinD [OF io_within_keep2(2) [OF assms(1)] on 1] show ?thesis .
      next
        case 2
        from io_withinD [OF io_within_keep2(2) [OF assms(1)] on 2(1)] have 1: "?ok w1" by simp
        then have "on_disk V (Some h) d w1" by simp
        from io_withinD [OF chunk [OF lba [OF 2(1)]] this 2(2)] 1 have 3: "?ok w2"
          using changed_within_trans by metis
        obtain m v where np: "notifyProgress E cp tp m tb w2 = Done (v, w')" using 2(3) by blast
        from 3 have "on_disk V (Some h) d w2" by simp
        from io_withinD [OF io_within_keep2(3) [OF assms(1)] this np] 3 show ?thesis
          using changed_within_trans by metis
      qed
    qed
  qed
qed

text \<open>The position of a completed step.\<close>

lemma writeStep_lba:
  assumes "writeStep E disk ss isRandom cp tp tb stop st w = Done (Inr st', w')"
  shows "el_lba st' = el_lba st + thisChunk ss (el_lba st) stop"
proof -
  have lba: "el_lba st' = el_lba st" if "refreshBuffer E isRandom st w = Done (Inr st', w')" for st' w w'
    using that by (auto simp: refreshBuffer_def Let_def io_return_Done io_try_Done split: if_splits)
  from assms show ?thesis
    by (auto simp: writeStep_def Let_def io_try_Done io_bind_Done io_return_Done lba split: if_splits)
qed

lemma range_end:
  fixes start count :: u64 and ss :: u32
  assumes "ss \<noteq> 0" "(unat start + unat count) * unat ss < 2 ^ 64"
  shows "unat (start + count) = unat start + unat count" "unat (start + count) * unat ss < 2 ^ 64"
proof -
  have "1 \<le> unat ss" using assms(1) unat_gt_0 [of ss] by linarith
  then have "unat start + unat count \<le> (unat start + unat count) * unat ss" by (metis mult.right_neutral mult_le_mono2)
  with assms(2) have "unat start + unat count < 2 ^ 64" by linarith
  then show "unat (start + count) = unat start + unat count" by (subst unat_plus_if') simp
  with assms(2) show "unat (start + count) * unat ss < 2 ^ 64" by simp
qed

lemma writePass_within:
  assumes "erase_laws E V" "write_frame (se_win32 E) V" "rh_handle disk = Some h" "ss \<noteq> 0"
    and "(unat start + unat count) * unat ss < 2 ^ 64"
  shows "io_within V (Some h) d (unat start * unat ss) ((unat start + unat count) * unat ss)
    (writePass E disk start count ss pattern cp tp)"
proof -
  note e = range_end [OF assms(4,5)]
  have step: "unat start \<le> unat (el_lba st')"
    if "unat start \<le> unat (el_lba st)" "el_lba st < start + count"
      "writeStep E disk ss isRandom cp tp tb (start + count) st w = Done (Inr st', w')" for st st' w w' isRandom tb
  proof -
    have "unat (el_lba st + thisChunk ss (el_lba st) (start + count)) =
        unat (el_lba st) + unat (thisChunk ss (el_lba st) (start + count))"
      using thisChunk_le [OF that(2), of ss] unat_less_64 [of "start + count"] by (subst unat_plus_if') simp
    then show ?thesis using writeStep_lba [OF that(3)] that(1) by simp
  qed
  have "io_within V (Some h) d (unat start * unat ss) (unat (start + count) * unat ss)
      (io_while (\<lambda>st. el_lba st < start + count)
        (writeStep E disk ss (pattern = []) cp tp (count * ucast ss) (start + count))
        \<lparr>el_lba = start, el_bytes = 0, el_refresh = 0, el_buffer = buffer\<rparr>)" for buffer
    by (rule io_within_while_invariant [where P = "\<lambda>st. unat start \<le> unat (el_lba st)"])
      (use step writeStep_within [OF assms(1-3) _ _ e(2)] in simp_all)
  then show ?thesis
    unfolding writePass_def Let_def e(1) [symmetric]
    by (intro io_within_try io_within_keep2(1) [OF assms(1)] io_within_return)
qed

lemma erasePasses_within:
  assumes "erase_laws E V" "write_frame (se_win32 E) V" "rh_handle disk = Some h" "ss \<noteq> 0"
    and "(unat start + unat count) * unat ss < 2 ^ 64"
  shows "io_within V (Some h) d (unat start * unat ss) ((unat start + unat count) * unat ss)
    (erasePasses E disk start count ss tp cp passes)"
proof (induction passes arbitrary: cp)
  case Nil
  then show ?case by (simp add: io_within_def)
next
  case (Cons p passes)
  let ?w = "io_within V (Some h) d (unat start * unat ss) ((unat start + unat count) * unat ss)"
  have "?w (io_try (writePass E disk start count ss p cp tp) (\<lambda>_.
        io_bind (rawFlushBuffers (se_win32 E) disk) (\<lambda>_. erasePasses E disk start count ss tp (cp + 1) passes)))"
    by (intro within_intros writePass_within assms Cons.IH erase_lawsD(2,3) [OF assms(1)])
  from io_withinD [OF this] show ?case unfolding io_within_def by (auto split: if_splits)
qed

text \<open>
  C26. Erasing a range of sectors changes nothing outside it: whatever the method, and whether the run
  completes, is canceled between two writes, or meets sectors that cannot be written, every other disk and
  every byte of this one in front of and behind the range are as they were when the volumes were locked.
\<close>

theorem eraseSectors_confined:
  assumes "erase_laws E V" "write_frame (se_win32 E) V" "rh_handle disk = Some h" "handles V w h = Some (OnDisk d rw)"
    and "ss \<noteq> 0" "(unat start + unat count) * unat ss < 2 ^ 64"
    and "eraseSectors E disk start count ss config w = Done (r, w')"
  shows "changed_within V d (unat start * unat ss) ((unat start + unat count) * unat ss) w w'"
proof -
  have "io_within V (Some h) d (unat start * unat ss) ((unat start + unat count) * unat ss)
      (eraseSectors E disk start count ss config)"
    unfolding eraseSectors_def Let_def
    by (intro within_intros erasePasses_within io_within_keep2 assms(1-3,5,6))
  from io_withinD [OF this _ assms(7)] assms(4) show ?thesis by (simp add: on_disk_def)
qed

section \<open>Verification\<close>

lemma blit_slice_same: "off + n \<le> length buf \<Longrightarrow> blit off (slice off n buf) buf = buf"
  by (rule nth_equalityI) (auto simp: nth_blit nth_slice)

lemma verifyStep_checks:
  assumes "erase_laws E V" "disk_readable (se_win32 E) V d" "rh_handle disk = Some h"
    and "handles V w h = Some (OnDisk d rw)" "ss \<noteq> 0" "ss \<le> BUFFER_SIZE" "pattern \<noteq> []"
    and "lba < stop" "unat stop * unat ss \<le> length (contents V w d)" "unat stop * unat ss < 2 ^ 64"
    and "verifyStep E disk ss pattern expected tp tb stop (lba, m) w = Done (Inr st', w')"
  defines "n \<equiv> thisChunk ss lba stop"
  shows "fst st' = lba + n" "slice (unat lba * unat ss) (unat n * unat ss) (contents V w d) = take (unat n * unat ss) expected"
proof -
  note c = chunk_props [OF assms(5,6,8), folded n_def] and L = erase_lawsD [OF assms(1)]
  have n64: "unat n * unat ss \<le> 65536" by (rule le_trans [OF mult_le_mono1 [OF c(2)] c(5)])
  have le: "(unat lba + unat n) * unat ss \<le> unat stop * unat ss"
    using c(3,4) by (intro mult_le_mono1) (simp add: word_le_nat_alt)
  then have off: "unat (lba * ucast ss) = unat lba * unat ss"
    using assms(10) by (intro mult_ss) (simp add: add_mult_distrib)
  have room: "unat (lba * ucast ss) + unat (n * ucast ss) \<le> length (contents V w d)"
    using le assms(9) by (simp add: off c(8) add_mult_distrib)
  let ?data = "slice (unat lba * unat ss) (unat n * unat ss) (contents V w d)"
  have rd: "readSectors (se_win32 E) disk lba n ss w = Inr ?data"
    using readSectors_works [OF L(3) assms(2-4) room] n64 by (simp add: off c(8))
  have len: "length ?data = unat n * unat ss" using room by (simp add: off c(8))
  have "unat (ucast n * ss :: u32) = unat n * unat ss"
  proof -
    have "unat n \<le> 65536" using n64 assms(5) unat_gt_0 [of ss] by (metis Suc_leI One_nat_def le_trans mult.right_neutral mult_le_mono2)
    then have "unat (ucast n :: u32) = unat n" by (intro unat_ucast_64_32) simp
    then show ?thesis using n64 unat_mult_lem [of "ucast n :: u32" ss] by simp
  qed
  then have size: "unat (min (ucast n * ss) (of_nat (length ?data) :: u32)) = unat n * unat ss"
    using n64 by (simp add: len min_def unat_of_nat)
  from assms(11) show "fst st' = lba + n"
    by (auto simp: verifyStep_def Let_def n_def split: if_splits)
  from assms(11) have "take (unat n * unat ss) ?data = take (unat n * unat ss) expected"
    using assms(7) by (auto simp: verifyStep_def n_def [symmetric] rd size Let_def [of "unat n * unat ss"]
        split: if_splits)
  then show "?data = take (unat n * unat ss) expected" using len by simp
qed

lemma verifyPass_sound:
  assumes "erase_laws E V" "disk_readable (se_win32 E) V d" "rh_handle disk = Some h"
    and "handles V w h = Some (OnDisk d rw)" "ss \<noteq> 0" "ss \<le> BUFFER_SIZE" "pattern \<noteq> []"
    and "(unat start + unat count) * unat ss \<le> length (contents V w d)" "(unat start + unat count) * unat ss < 2 ^ 64"
    and "verifyPass E disk start count ss pattern tp w = Done (Inr u, w')"
  shows "holds_pattern (contents V w d) pattern ss (unat start * unat ss) (unat count * unat ss)"
proof -
  let ?stop = "start + count" and ?b = "unat (bufferSectors ss)" and ?s = "unat ss"
  let ?buf = "fillPattern (replicate (unat BUFFER_SIZE) 0) BUFFER_SIZE pattern" and ?D = "contents V w d"
  note stop = range_end [OF assms(5,9)] and K = verifyStep_keeps [OF assms(1)]
  have buf: "length ?buf = 65536" "\<And>j. j < 65536 \<Longrightarrow> ?buf ! j = pattern ! (j mod length pattern)"
    using length_fillPattern [of "replicate (unat BUFFER_SIZE) 0" BUFFER_SIZE pattern] nth_fillPattern [OF assms(7)]
    by simp_all
  let ?step = "verifyStep E disk ss pattern ?buf tp (count * ucast ss) ?stop"
  obtain st' where loop: "io_while (\<lambda>(lba, verified). lba < ?stop) ?step (start, 0) w = Done (Inr st', w')"
    using assms(10) by (auto simp: verifyPass_def Let_def io_try_Done io_return_Done)
  define I where "I st v \<longleftrightarrow> contents V v = contents V w \<and> handles V v = handles V w \<and> unat (fst st) \<le> unat ?stop \<and>
      (\<exists>k r. unat (fst st) = unat start + k * ?b + r \<and> (r = 0 \<or> fst st = ?stop) \<and>
        holds_pattern ?D pattern ss (unat start * ?s) ((k * ?b + r) * ?s))" for st :: "u64 \<times> u64" and v
  have "case (Inr st' :: (u64 \<times> u64) Result) of Inl e \<Rightarrow> True
    | Inr st \<Rightarrow> I st w' \<and> \<not> (case st of (lba, verified) \<Rightarrow> lba < ?stop)"
  proof (rule io_while_invariant [OF loop, where I = I and Q = "\<lambda>_ _. True"])
    have "holds_pattern ?D pattern ss (unat start * ?s) 0"
      using assms(8) by (simp add: holds_pattern_def add_mult_distrib)
    then show "I (start, 0) w" using stop(1) by (auto simp: I_def intro: exI [of _ 0])
  next
    fix st v st2 v2
    assume inv: "I st v" and t: "case st of (lba, verified) \<Rightarrow> lba < ?stop" and step: "?step st v = Done (Inr st2, v2)"
    obtain lba m where st: "st = (lba, m)" by fastforce
    with t have test: "lba < ?stop" by simp
    let ?n = "thisChunk ss lba ?stop"
    from inv obtain k r0 where kr: "unat lba = unat start + k * ?b + r0" "r0 = 0 \<or> lba = ?stop"
      "holds_pattern ?D pattern ss (unat start * ?s) ((k * ?b + r0) * ?s)"
      unfolding I_def st by auto
    with test have k: "unat lba = unat start + k * ?b"
      and hp: "holds_pattern ?D pattern ss (unat start * ?s) (k * (?b * ?s))"
      by (auto simp: mult.assoc)
    have same: "contents V v = contents V w" "handles V v = handles V w" using inv by (simp_all add: I_def)
    note c = chunk_props [OF assms(5,6) test]
    have h: "handles V v h = Some (OnDisk d rw)" using assms(4) same by simp
    have room: "unat ?stop * ?s \<le> length (contents V v d)" using assms(8) same stop by simp
    note vs = verifyStep_checks [OF assms(1-3) h assms(5-7) test room stop(2) step [unfolded st]]
    have small: "unat ?n * ?s \<le> ?b * ?s" using c(2) by (rule mult_le_mono1)
    have n64: "unat ?n * ?s \<le> 65536" by (rule le_trans [OF small c(5)])
    have fits: "unat lba * ?s + unat ?n * ?s \<le> length ?D"
    proof -
      have "(unat lba + unat ?n) * ?s \<le> unat ?stop * ?s"
        using c(3,4) by (intro mult_le_mono1) (simp add: word_le_nat_alt)
      with room same show ?thesis by (simp add: add_mult_distrib)
    qed
    have "holds_pattern (blit (unat start * ?s + k * (?b * ?s)) (take (unat ?n * ?s) ?buf) ?D)
        pattern ss (unat start * ?s) (k * (?b * ?s) + unat ?n * ?s)"
    proof (rule holds_pattern_chunk [OF hp refl small])
      show "unat start * ?s + k * (?b * ?s) + unat ?n * ?s \<le> length ?D"
        using fits k by (simp add: add_mult_distrib mult.assoc)
    qed (use buf n64 in simp_all)
    moreover have "blit (unat lba * ?s) (take (unat ?n * ?s) ?buf) ?D = ?D"
      using vs(2) blit_slice_same [OF fits] same by simp
    ultimately have hp2: "holds_pattern ?D pattern ss (unat start * ?s) ((k * ?b + unat ?n) * ?s)"
      using k by (simp add: add_mult_distrib mult.assoc)
    have lba: "unat (fst st2) = unat start + k * ?b + unat ?n" using vs(1) c(3) k by simp
    have le: "unat (fst st2) \<le> unat ?stop" using vs(1) c(4) by (simp add: word_le_nat_alt)
    have same2: "contents V v2 = contents V w" "handles V v2 = handles V w"
      using keepsD [OF K(1) step] keepsD [OF K(2) step] same by simp_all
    show "I st2 v2"
    proof (cases "fst st2 = ?stop")
      case True
      with lba hp2 le same2 show ?thesis by (auto simp: I_def)
    next
      case False
      then have "lba + ?n < ?stop" using vs(1) c(4) by simp
      then have nb: "unat ?n = ?b" using c(7) by simp
      have "unat (fst st2) = unat start + Suc k * ?b + 0"
        "holds_pattern ?D pattern ss (unat start * ?s) ((Suc k * ?b + 0) * ?s)"
        using lba hp2 nb by (simp_all add: algebra_simps)
      with le same2 show ?thesis unfolding I_def by metis
    qed
  qed simp
  then have I: "I st' w'" "?stop \<le> fst st'" by (auto simp: not_less)
  then have "fst st' = ?stop" by (simp add: I_def word_le_nat_alt [symmetric])
  with I obtain k r where "unat ?stop = unat start + k * ?b + r"
    and hp: "holds_pattern ?D pattern ss (unat start * ?s) ((k * ?b + r) * ?s)"
    by (auto simp: I_def)
  then have "k * ?b + r = unat count" using stop by simp
  with hp show ?thesis by simp
qed

text \<open>
  C24. A verified erasure with a pattern can be relied on: if a run whose last pass writes a pattern, and
  which verifies, succeeds on a disk that can be read, then every byte of the range has the value that
  the last pattern gives it, whether or not single writes failed on the way.
\<close>

theorem erase_verified:
  assumes "erase_laws E V" "write_frame (se_win32 E) V" "disk_readable (se_win32 E) V d" "rh_handle disk = Some h"
    and "handles V w h = Some (OnDisk d rw)" "ss \<noteq> 0" "ss \<le> BUFFER_SIZE"
    and "ec_verify config" "buildPassList config \<noteq> []" "last (buildPassList config) \<noteq> []"
    and "(unat start + unat count) * unat ss \<le> length (contents V w d)" "(unat start + unat count) * unat ss < 2 ^ 64"
    and "eraseSectors E disk start count ss config w = Done (Inr u, w')"
  shows "holds_pattern (contents V w' d) (last (buildPassList config)) ss (unat start * unat ss) (unat count * unat ss)"
proof -
  let ?p = "buildPassList config"
  obtain w1 tp x where passes: "erasePasses E disk start count ss tp 1 ?p w = Done (Inr x, w1)"
    and ver: "verifyPass E disk start count ss (last ?p) tp w1 = Done (Inr u, w')"
    using assms(8,9,13) by (auto simp: eraseSectors_def Let_def io_try_Done)
  have "on_disk V (Some h) d w" using assms(5) by (simp add: on_disk_def)
  from io_withinD [OF erasePasses_within [OF assms(1,2,4,6,12)] this passes]
  have "changed_within V d (unat start * unat ss) ((unat start + unat count) * unat ss) w w1" by simp
  then have len: "length (contents V w1 d) = length (contents V w d)" by (simp add: changed_within_def)
  have h1: "handles V w1 h = Some (OnDisk d rw)"
    using keepsD [OF erasePasses_handles [OF assms(1)] passes] assms(5) by simp
  have "holds_pattern (contents V w1 d) (last ?p) ss (unat start * unat ss) (unat count * unat ss)"
    by (rule verifyPass_sound [OF assms(1,3,4) h1 assms(6,7,10) _ assms(12) ver]) (use assms(11) len in simp)
  moreover have "contents V w' = contents V w1" by (rule keepsD [OF verifyPass_keeps(2) [OF assms(1)] ver])
  ultimately show ?thesis by simp
qed

section \<open>Handles of an erasure\<close>

lemma eraseLocked_handles:
  assumes "erase_laws E V"
  shows "keeps (handles V) (eraseLocked E disk start count ss config)"
  unfolding keeps_def
proof (intro allI impI)
  fix w r w'
  note H = erase_lawsD(2) [OF assms]
  assume "eraseLocked E disk start count ss config w = Done (r, w')"
  then consider e where "lockAllVolumes E (rh_diskId disk) w = Done (Inl e, w')"
    | hs w1 x w2 where "lockAllVolumes E (rh_diskId disk) w = Done (Inr hs, w1)"
        "eraseSectors E disk start count ss config w1 = Done (x, w2)" "w' = unlockAllVolumes (se_win32 E) hs w2"
    by (auto simp: eraseLocked_def io_try_Done io_bind_Done)
  then show "handles V w' = handles V w"
  proof cases
    case 1
    then show ?thesis
      using lockVolumes_handles [OF H 1 [unfolded lockAllVolumes_def], of w] by simp
  next
    case 2
    have start: "handles V w = (\<lambda>h. if h \<in> set hs then None else handles V w1 h)"
      using lockVolumes_handles [OF H 2(1) [unfolded lockAllVolumes_def], of w] by simp
    have same: "handles V w2 = handles V w1" by (rule keepsD [OF eraseSectors_handles [OF assms] 2(2)])
    show ?thesis unfolding 2(3) unlockAllVolumes_handles [OF H] same by (rule start [symmetric])
  qed
qed

text \<open>
  Erasing a disk or a range leaks no handle and leaves no volume locked by one: on every path, a volume
  that cannot be locked, an error of the random generator, a cancellation and a failed verification among
  them, exactly the handles are open afterwards that were open before.
\<close>

theorem erase_keeps_handles:
  assumes "erase_laws E V"
    and "eraseDisk E config self w = Done ((r, self'), w') \<or> eraseRange E start count config self w = Done ((r, self'), w')"
  shows "handles V w' = handles V w"
  using assms(2) keepsD [OF eraseLocked_handles [OF assms(1)]]
  by (auto simp: eraseDisk_def eraseRange_def withGeometry_def Let_def run_bind_Done_iff split: sum.splits if_splits)

section \<open>Termination\<close>

lemma writeSectors_returns:
  "unat (count * ucast ss) \<le> length bs \<Longrightarrow> \<exists>r w'. writeSectors W disk lba (Some bs) count ss w = Done (r, w')"
  by (auto simp: writeSectors_def Let_def split: option.split prod.split sum.split)

lemma retrySectors_returns:
  assumes "unat ss \<le> length buffer"
  shows "\<exists>r w'. retrySectors E disk lba buffer ss ns w = Done (r, w')"
proof (induction ns arbitrary: w)
  case (Cons s ns)
  obtain r w1 where "writeSectors (se_win32 E) disk (lba + of_nat s) (Some buffer) 1 ss w = Done (r, w1)"
    using writeSectors_returns [of 1 ss buffer "se_win32 E" disk "lba + of_nat s" w] assms
    by (auto simp: unat_ucast_32_64)
  with Cons.IH [of w1] show ?case by (simp add: io_bind_def)
qed (simp add: io_return_def)

lemma writeStep_returns:
  assumes "\<And>w. \<not> se_canceled E w" "length (el_buffer st) = 65536" "unat (n * ucast ss) \<le> 65536"
    and "n = thisChunk ss (el_lba st) stop" "n \<noteq> 0 \<Longrightarrow> unat ss \<le> 65536"
  shows "\<exists>st' w'. writeStep E disk ss False cp tp tb stop st w = Done (Inr st', w') \<and> el_lba st' = el_lba st + n \<and>
    el_buffer st' = el_buffer st"
proof -
  obtain r w1 where wr: "writeSectors (se_win32 E) disk (el_lba st) (Some (el_buffer st)) n ss w = Done (r, w1)"
    using writeSectors_returns [of n ss "el_buffer st" "se_win32 E" disk "el_lba st" w] assms(2,3) by auto
  have "\<exists>q w2. retrySectors E disk (el_lba st) (el_buffer st) ss [0..<unat n] w1 = Done (q, w2)"
  proof (cases "n = 0")
    case True
    then show ?thesis by (simp add: io_return_def)
  next
    case False
    with assms(2,5) show ?thesis by (intro retrySectors_returns) simp
  qed
  then obtain q w2 where rt: "retrySectors E disk (el_lba st) (el_buffer st) ss [0..<unat n] w1 = Done (q, w2)" by blast
  have "\<exists>q w2. writeChunk E disk ss n st w = Done (q, w2)"
    using wr rt by (auto simp: writeChunk_def io_bind_def io_return_def)
  then show ?thesis
    using assms(1,4)
    by (auto simp: writeStep_def Let_def refreshBuffer_def io_try_def io_return_def io_bind_def notifyProgress_def)
qed


section \<open>Witnesses\<close>

definition sim_erase :: "sim_world erase_env" where
  "sim_erase = \<lparr>se_win32 = sim_win32, se_driveType = (\<lambda>path w. if path = driveRootPath 67 then 3 else 1),
     se_diskExtents = (\<lambda>h w. Some [0]), se_lastError = (\<lambda>w. 0), se_genRandom = (\<lambda>n w. (Some (replicate (unat n) 7), w)),
     se_canceled = (\<lambda>w. False), se_progress = (\<lambda>a b m n w. w)\<rparr>"

lemma sim_erase_laws: "erase_laws sim_erase sim_view"
  by (simp add: erase_laws_def sim_erase_def sim_win32_laws)

lemma sim_erase_win32 [simp]: "se_win32 sim_erase = sim_win32" "se_canceled sim_erase w = False"
  by (simp_all add: sim_erase_def)

definition erase_world :: sim_world where
  "erase_world = \<lparr>sim_disk = replicate 4096 1, sim_handles = [Some (OnDisk 0 True)]\<rparr>"

definition erase_config :: EraseConfig where
  "erase_config = ec_default\<lparr>ec_method := CustomPattern, ec_customPattern := [0xAB, 0xCD, 0xEF]\<rparr>"

definition erase_pattern :: bytes where
  "erase_pattern = [0xAB, 0xCD, 0xEF]"

lemma erase_config_passes: "buildPassList erase_config = [erase_pattern]" "ec_verify erase_config"
  by (simp_all add: buildPassList_def erase_config_def ec_default_def erase_pattern_def)

lemma erase_world_handle: "handles sim_view erase_world 0 = Some (OnDisk 0 True)" "length (contents sim_view erase_world 0) = 4096"
  by (simp_all add: erase_world_def sim_view_def sim_target_def)

text \<open>Sectors 1 to 3 of the disk are overwritten in one write, and verified in one read.\<close>

lemma erase_runs: "\<exists>w'. eraseSectors sim_erase sim_handle 1 3 512 erase_config erase_world = Done (ok, w')"
proof -
  let ?buf = "fillPattern (replicate (unat BUFFER_SIZE) 0) BUFFER_SIZE erase_pattern"
  have len: "length ?buf = 65536"
    using length_fillPattern [of "replicate (unat BUFFER_SIZE) 0" BUFFER_SIZE erase_pattern] by simp
  have n: "thisChunk 512 1 4 = 3" by code_simp
  let ?w1 = "erase_world\<lparr>sim_disk := blit 512 (take 1536 ?buf) (replicate 4096 1)\<rparr>"
  have "writeSectors sim_win32 sim_handle 1 (Some ?buf) 3 512 erase_world = Done (ok, ?w1)"
    using len by (simp add: writeSectors_def sim_handle_def sim_defs sim_target_def erase_world_def Let_def)
  then have "writePass sim_erase sim_handle 1 3 512 erase_pattern 1 2 erase_world = Done (ok, ?w1)"
    by (simp add: writePass_def passBuffer_def erase_pattern_def io_try_def io_return_def Let_def io_while_unfold
        writeStep_def n refreshBuffer_def writeChunk_def io_bind_def isError_def notifyProgress_def sim_erase_def)
  moreover have "rawFlushBuffers sim_win32 sim_handle ?w1 = Done (ok, ?w1)"
    by (simp add: rawFlushBuffers_def sim_handle_def sim_defs)
  moreover have "readSectors sim_win32 sim_handle 1 3 512 ?w1 = Inr (take 1536 ?buf)"
  proof -
    have "slice 512 1536 (blit 512 (take 1536 ?buf) (replicate 4096 1)) = take 1536 ?buf"
      using len by (intro slice_blit_length) simp_all
    then show ?thesis
      using len by (simp add: readSectors_def sim_handle_def sim_defs sim_target_def erase_world_def Let_def)
  qed
  then have "verifyPass sim_erase sim_handle 1 3 512 erase_pattern 2 ?w1 = Done (ok, ?w1)"
    using len
    by (simp add: verifyPass_def io_try_def io_return_def Let_def io_while_unfold verifyStep_def n sim_erase_def min_def)
  ultimately show ?thesis
    by (simp add: eraseSectors_def erase_config_passes Let_def io_try_def io_bind_def io_return_def)
qed

theorem erase_verified_witness:
  "\<exists>w'. eraseSectors sim_erase sim_handle 1 3 512 erase_config erase_world = Done (ok, w') \<and>
     holds_pattern (sim_disk w') erase_pattern 512 512 1536"
proof -
  obtain w' where run: "eraseSectors sim_erase sim_handle 1 3 512 erase_config erase_world = Done (ok, w')"
    using erase_runs by blast
  have "holds_pattern (contents sim_view w' 0) (last (buildPassList erase_config)) 512
      (unat (1 :: u64) * unat (512 :: u32)) (unat (3 :: u64) * unat (512 :: u32))"
    by (rule erase_verified [OF sim_erase_laws _ _ _ erase_world_handle(1) _ _ _ _ _ _ _ run])
      (simp_all add: sim_write_frame disk_works_readable sim_disk_works sim_handle_def erase_config_passes
        erase_pattern_def erase_world_handle)
  with run show ?thesis by (auto simp: erase_config_passes sim_view_def)
qed

theorem eraseSectors_confined_witness:
  "\<exists>w'. eraseSectors sim_erase sim_handle 1 3 512 erase_config erase_world = Done (ok, w') \<and>
     changed_within sim_view 0 512 2048 erase_world w'"
proof -
  obtain w' where run: "eraseSectors sim_erase sim_handle 1 3 512 erase_config erase_world = Done (ok, w')"
    using erase_runs by blast
  from eraseSectors_confined [OF sim_erase_laws _ _ erase_world_handle(1) _ _ run] run show ?thesis
    by (auto simp: sim_write_frame sim_handle_def)
qed

theorem writePass_fills_witness:
  "\<exists>w'. writePass sim_erase sim_handle 1 3 512 erase_pattern 1 2 erase_world = Done (ok, w') \<and>
     holds_pattern (sim_disk w') erase_pattern 512 512 1536"
proof -
  obtain w2 where "eraseSectors sim_erase sim_handle 1 3 512 erase_config erase_world = Done (ok, w2)"
    using erase_runs by blast
  then obtain w' where run: "writePass sim_erase sim_handle 1 3 512 erase_pattern 1 2 erase_world = Done (ok, w')"
    by (auto simp: eraseSectors_def erase_config_passes Let_def io_try_Done)
  have "holds_pattern (contents sim_view w' 0) erase_pattern 512
      (unat (1 :: u64) * unat (512 :: u32)) (unat (3 :: u64) * unat (512 :: u32))"
    by (rule writePass_fills [OF sim_erase_laws _ _ _ erase_world_handle(1) _ _ _ _ _ run])
      (simp_all add: sim_disk_works sim_handle_def erase_pattern_def erase_world_handle)
  with run show ?thesis by (auto simp: sim_view_def)
qed


text \<open>The volume \<open>C:\<close> is locked and released.\<close>

lemma sim_lock_other:
  "letter \<noteq> 67 \<Longrightarrow> lockVolumes sim_erase d (letter # letters) locked w = lockVolumes sim_erase d letters locked w"
  by (simp add: sim_erase_def driveRootPath_def)

lemma sim_lock_C:
  "lockVolumes sim_erase 0 (67 # letters) locked w =
     lockVolumes sim_erase 0 letters (locked @ [length (sim_handles w)])
       (w\<lparr>sim_handles := sim_handles w @ [Some (OnVolume (volumePath 67))]\<rparr>)"
proof -
  have "last (volumePath 67) = 58" "volumePath 67 \<noteq> []" by (simp_all add: volumePath_def widen_def)
  moreover from this have "volumePath 67 \<noteq> physicalDrive 0" using physicalDrive_not_volume by metis
  ultimately show ?thesis by (simp add: sim_erase_def sim_win32_def sim_create_def sim_open_def)
qed

lemma erase_locks_C:
  "lockAllVolumes sim_erase 0 erase_world =
     Done (Inr [1], erase_world\<lparr>sim_handles := [Some (OnDisk 0 True), Some (OnVolume (volumePath 67))]\<rparr>)"
proof -
  have letters: "map of_nat [65..<91] = [65, 66, 67] @ map (of_nat :: nat \<Rightarrow> u16) [68..<91]" by code_simp
  have rest: "lockVolumes sim_erase 0 ls locked w = Done (Inr locked, w)" if "67 \<notin> set ls" for ls locked w
    using that by (induction ls) (simp_all add: sim_lock_other del: lockVolumes.simps(2))
  have "67 \<notin> set (map (of_nat :: nat \<Rightarrow> u16) [68..<91])" by code_simp
  from rest [OF this] show ?thesis
    unfolding lockAllVolumes_def letters append.simps
    by (simp add: sim_lock_other sim_lock_C erase_world_def del: lockVolumes.simps(2))
qed

theorem erase_keeps_handles_witness:
  "\<exists>r self' w'. eraseRange sim_erase 1 0 erase_config \<lparr>er_disk = sim_handle, er_geometry = \<lparr>dg_totalBytes = 0,
       dg_bytesPerSector = 0, dg_sectorsPerTrack = 0, dg_tracksPerCylinder = 0, dg_cylinders = 0, dg_mediaType = 0\<rparr>\<rparr>
       erase_world = Done ((r, self'), w') \<and> handles sim_view w' = handles sim_view erase_world"
proof -
  let ?self = "\<lparr>er_disk = sim_handle, er_geometry = \<lparr>dg_totalBytes = 0,
       dg_bytesPerSector = 0, dg_sectorsPerTrack = 0, dg_tracksPerCylinder = 0, dg_cylinders = 0, dg_mediaType = 0\<rparr>\<rparr>"
  have "eraseSectors sim_erase sim_handle 1 0 512 erase_config w = Done (ok, w)" for w
    by (simp add: eraseSectors_def erase_config_passes Let_def io_try_def io_bind_def io_return_def writePass_def
        passBuffer_def erase_pattern_def io_while_unfold rawFlushBuffers_def sim_handle_def sim_win32_def verifyPass_def)
  then obtain r self' w' where "eraseRange sim_erase 1 0 erase_config ?self erase_world = Done ((r, self'), w')"
    by (simp add: eraseRange_def withGeometry_def getGeometry_def sim_handle_def sim_win32_def Let_def
        eraseLocked_def io_try_def io_bind_def erase_locks_C)
  with erase_keeps_handles [OF sim_erase_laws disjI2, OF this] show ?thesis by blast
qed

end
