(* ===== verification/Partition_Recovery.thy ===== *)
theory Partition_Recovery
  imports Io_Loop Fs_Detector Operation_Utils
begin

text \<open>
  \<open>src/core/recovery/PartitionRecovery.cpp\<close>: the scan of a disk for superblocks, the size of a file system
  from its superblock, the comparison with the partitions that the disk has, and the entry of a partition
  that was found into the partition table. The confidence is a \<open>double\<close> in the code; its values are
  whole numbers. The cancel flag is read from the world, the progress callback is a function on it.
\<close>

unbundle bit_operations_syntax

section \<open>Data\<close>

record RecoveredPartition =
  rp_startLba :: u64
  rp_sectorCount :: u64
  rp_sectorSize :: u32
  rp_fsType :: FilesystemType
  rp_label :: bytes
  rp_confidence :: int
  rp_overlapsExisting :: bool

definition rp_default :: RecoveredPartition where
  "rp_default = \<lparr>rp_startLba = 0, rp_sectorCount = 0, rp_sectorSize = 512, rp_fsType = UnknownFs, rp_label = [],
     rp_confidence = 0, rp_overlapsExisting = False\<rparr>"

datatype PartitionScanMode = Quick | Deep

record 'w recovery_env =
  rc_win32 :: "'w Win32"
  rc_random :: "'w \<Rightarrow> nat \<Rightarrow> u8"
  rc_canceled :: "'w \<Rightarrow> bool"
  rc_progress :: "u64 \<Rightarrow> u64 \<Rightarrow> nat \<Rightarrow> 'w \<Rightarrow> 'w"

record PartitionRecovery =
  pr_disk :: RawDiskHandle
  pr_geometry :: DiskGeometryInfo
  pr_layout :: DriveLayoutInfo

definition pr_new :: "RawDiskHandle \<Rightarrow> PartitionRecovery" where
  "pr_new disk = \<lparr>pr_disk = disk,
     pr_geometry = \<lparr>dg_totalBytes = 0, dg_bytesPerSector = 0, dg_sectorsPerTrack = 0, dg_tracksPerCylinder = 0,
       dg_cylinders = 0, dg_mediaType = 0\<rparr>,
     pr_layout = \<lparr>li_partitionStyle = UnknownTable, li_partitionCount = 0, li_mbrSignature = 0,
       li_gptDiskId = guid_zero, li_partitions = []\<rparr>\<rparr>"

section \<open>Reading at byte offsets\<close>

text \<open>
  Whole sectors are read from the one that holds the first byte; their number is that of the size
  alone. The detector and the size estimate ask for 64 KiB at most.
\<close>

definition readTrimmed :: "'w Win32 \<Rightarrow> RawDiskHandle \<Rightarrow> u32 \<Rightarrow> 'w \<Rightarrow> u64 \<Rightarrow> u32 \<Rightarrow> bytes Result" where
  "readTrimmed W disk ss w absOffset n =
     (let alignedSize = ((n + ss - 1) div ss) * ss;
          inSectorOffset = ucast (absOffset mod ucast ss) :: u32
      in case readSectors W disk (absOffset div ucast ss) (ucast (alignedSize div ss)) ss w of
           Inl e \<Rightarrow> Inl e
         | Inr data \<Rightarrow>
             if length data < unat (inSectorOffset + n) then fail DiskReadError ''Read underflow''
             else Inr (slice (unat inSectorOffset) (unat n) data))"

definition probeRead :: "'w Win32 \<Rightarrow> RawDiskHandle \<Rightarrow> u32 \<Rightarrow> 'w \<Rightarrow> u64 \<Rightarrow> DiskReadCallback" where
  "probeRead W disk ss w byteOffset offset n = readTrimmed W disk ss w (byteOffset + offset) n"

definition readAbsolute :: "'w Win32 \<Rightarrow> RawDiskHandle \<Rightarrow> u32 \<Rightarrow> 'w \<Rightarrow> u64 \<Rightarrow> u32 \<Rightarrow> bytes" where
  "readAbsolute W disk ss w absOffset n =
     (case readTrimmed W disk ss w absOffset n of Inl _ \<Rightarrow> [] | Inr data \<Rightarrow> data)"

section \<open>The size of a file system\<close>

definition byteSwap32 :: "u32 \<Rightarrow> u32" where
  "byteSwap32 x =
     (drop_bit 24 x AND 0xFF) OR (drop_bit 8 x AND 0xFF00) OR (push_bit 8 x AND 0xFF0000) OR
     (push_bit 24 x AND 0xFF000000)"

definition byteSwap64 :: "u64 \<Rightarrow> u64" where
  "byteSwap64 x =
     (drop_bit 56 x AND 0xFF) OR (drop_bit 40 x AND 0xFF00) OR (drop_bit 24 x AND 0xFF0000) OR
     (drop_bit 8 x AND 0xFF000000) OR (push_bit 8 x AND 0xFF00000000) OR (push_bit 24 x AND 0xFF0000000000) OR
     (push_bit 40 x AND 0xFF000000000000) OR (push_bit 56 x AND 0xFF00000000000000)"

definition estimateNtfs :: "(u64 \<Rightarrow> u32 \<Rightarrow> bytes) \<Rightarrow> u32 \<Rightarrow> u64 \<Rightarrow> u64" where
  "estimateNtfs rd ss byteOffset =
     (let bpb = rd byteOffset 512 in if length bpb < 0x30 then 0 else readLE64 bpb 0x28 * ucast ss)"

definition estimateFat :: "(u64 \<Rightarrow> u32 \<Rightarrow> bytes) \<Rightarrow> u32 \<Rightarrow> u64 \<Rightarrow> u64" where
  "estimateFat rd ss byteOffset =
     (let bpb = rd byteOffset 512 in
      if length bpb < 0x24 then 0
      else
        (let totalSectors16 = readLE16 bpb 0x13; totalSectors32 = readLE32 bpb 0x20;
             totalSectors = (if totalSectors16 \<noteq> 0 then ucast totalSectors16 else ucast totalSectors32 :: u64);
             bps = readLE16 bpb 0x0B; bps = (if bps = 0 then ucast ss else bps)
         in totalSectors * ucast bps))"

definition estimateExfat :: "(u64 \<Rightarrow> u32 \<Rightarrow> bytes) \<Rightarrow> u32 \<Rightarrow> u64 \<Rightarrow> u64" where
  "estimateExfat rd ss byteOffset =
     (let boot = rd byteOffset 512 in
      if length boot < 0x50 then 0
      else
        (let bpsShift = boot ! 0x6C;
             exfatSectorSize = (if 0 < bpsShift \<and> bpsShift \<le> 12 then push_bit (unat bpsShift) 1 else ss) :: u32
         in readLE64 boot 0x48 * ucast exfatSectorSize))"

text \<open>
  The shift by the block size exponent is undefined from 64 on. With the 64-bit feature the code takes
  the address of element \<open>0x150 - 1024\<close> of the second buffer, a negative number, before it reads the
  right one.
\<close>

definition estimateExt :: "(u64 \<Rightarrow> u32 \<Rightarrow> bytes) \<Rightarrow> u64 \<Rightarrow> u64 run" where
  "estimateExt rd byteOffset =
     (let sb = rd (byteOffset + 1024) 512 in
      if length sb < 256 then Done 0
      else
        (let blocksLo = readLE32 sb 4; logBlockSize = readLE32 sb 24 in
         require (logBlockSize < 64)
           (let blockSize = push_bit (unat logBlockSize) 1024 in
            if 0x154 \<le> length sb \<and> readLE32 sb 0x60 AND 0x80 \<noteq> 0 \<and> 0x154 \<le> length (rd (byteOffset + 1024) 1024)
            then Undef
            else Done (ucast blocksLo * blockSize))))"

definition estimateBtrfs :: "(u64 \<Rightarrow> u32 \<Rightarrow> bytes) \<Rightarrow> u64 \<Rightarrow> u64" where
  "estimateBtrfs rd byteOffset =
     (let sb = rd (byteOffset + 0x10000) 256 in if length sb < 0x78 then 0 else readLE64 sb 0x70)"

definition estimateXfs :: "(u64 \<Rightarrow> u32 \<Rightarrow> bytes) \<Rightarrow> u64 \<Rightarrow> u64" where
  "estimateXfs rd byteOffset =
     (let sb = rd byteOffset 512 in
      if length sb < 20 then 0 else byteSwap64 (readLE64 sb 8) * ucast (byteSwap32 (readLE32 sb 4)))"

definition estimatePartitionSize :: "'w Win32 \<Rightarrow> PartitionRecovery \<Rightarrow> 'w \<Rightarrow> u64 \<Rightarrow> FilesystemType \<Rightarrow> u64 run" where
  "estimatePartitionSize W self w lba fs =
     (let ss = dg_bytesPerSector (pr_geometry self); byteOffset = lba * ucast ss;
          rd = readAbsolute W (pr_disk self) ss w
      in case fs of
           NTFS \<Rightarrow> Done (estimateNtfs rd ss byteOffset)
         | FAT32 \<Rightarrow> Done (estimateFat rd ss byteOffset)
         | FAT16 \<Rightarrow> Done (estimateFat rd ss byteOffset)
         | FAT12 \<Rightarrow> Done (estimateFat rd ss byteOffset)
         | ExFAT \<Rightarrow> Done (estimateExfat rd ss byteOffset)
         | Ext2 \<Rightarrow> estimateExt rd byteOffset
         | Ext3 \<Rightarrow> estimateExt rd byteOffset
         | Ext4 \<Rightarrow> estimateExt rd byteOffset
         | Btrfs \<Rightarrow> Done (estimateBtrfs rd byteOffset)
         | XFS \<Rightarrow> Done (estimateXfs rd byteOffset)
         | _ \<Rightarrow> Done 0)"

section \<open>A probe\<close>

definition onMibBoundary :: "u32 \<Rightarrow> u64 \<Rightarrow> bool" where
  "onMibBoundary ss lba \<longleftrightarrow> (lba * ucast ss) mod DEFAULT_ALIGNMENT_BYTES = 0 \<and> lba \<noteq> 0"

definition onCylBoundary :: "u64 \<Rightarrow> bool" where
  "onCylBoundary lba \<longleftrightarrow> lba mod 63 = 0 \<and> lba \<noteq> 0"

definition isModernFs :: "FilesystemType \<Rightarrow> bool" where
  "isModernFs fs \<longleftrightarrow> fs \<in> {NTFS, FAT32, FAT16, ExFAT, Ext4, Ext3, Ext2, Btrfs, XFS}"

definition probeConfidence :: "u32 \<Rightarrow> u64 \<Rightarrow> FilesystemType \<Rightarrow> int" where
  "probeConfidence ss lba fs =
     (if isModernFs fs \<and> onMibBoundary ss lba then 95
      else if isModernFs fs \<and> onCylBoundary lba then 85
      else if isModernFs fs then 70
      else if lba = 0 then 30
      else 50)"

definition probeOffset :: "'w Win32 \<Rightarrow> PartitionRecovery \<Rightarrow> 'w \<Rightarrow> u64 \<Rightarrow> RecoveredPartition option run" where
  "probeOffset W self w lba =
     (let ss = dg_bytesPerSector (pr_geometry self) in
      run_bind (detect (probeRead W (pr_disk self) ss w (lba * ucast ss)) 0) (\<lambda>detectResult.
        case detectResult of
          Inl _ \<Rightarrow> Done None
        | Inr detection \<Rightarrow>
            if \<not> isDetected detection then Done None
            else
              run_bind (estimatePartitionSize W self w lba (fd_type detection)) (\<lambda>estimatedBytes.
                Done (Some (rp_default\<lparr>rp_startLba := lba, rp_fsType := fd_type detection,
                  rp_label := fd_label detection,
                  rp_sectorCount := (if estimatedBytes > 0 then estimatedBytes div ucast ss else 0),
                  rp_confidence := probeConfidence ss lba (fd_type detection)\<rparr>)))))"

section \<open>The scan\<close>

record scan_loop =
  sl_lba :: u64
  sl_scanned :: u64
  sl_results :: "RecoveredPartition list"

definition addCandidate :: "u32 \<Rightarrow> RecoveredPartition option \<Rightarrow> RecoveredPartition list \<Rightarrow> RecoveredPartition list" where
  "addCandidate ss candidate results =
     (case candidate of None \<Rightarrow> results | Some p \<Rightarrow> results @ [p\<lparr>rp_sectorSize := ss\<rparr>])"

definition stepSectors :: "PartitionScanMode \<Rightarrow> u32 \<Rightarrow> u64" where
  "stepSectors mode ss = (if mode = Quick then DEFAULT_ALIGNMENT_BYTES div ucast ss else 1)"

definition scanStep :: "'w recovery_env \<Rightarrow> PartitionRecovery \<Rightarrow> u64 \<Rightarrow> u64 \<Rightarrow> scan_loop \<Rightarrow> (scan_loop Result, 'w) io" where
  "scanStep E self step totalSectors st w =
     (if rc_canceled E w then Done (fail OperationCanceled ''Partition scan canceled'', w)
      else
        run_bind (probeOffset (rc_win32 E) self w (sl_lba st)) (\<lambda>candidate.
          let results = addCandidate (dg_bytesPerSector (pr_geometry self)) candidate (sl_results st);
              scanned = sl_scanned st + step
          in Done (Inr \<lparr>sl_lba = sl_lba st + step, sl_scanned = scanned, sl_results = results\<rparr>,
               rc_progress E (min scanned totalSectors) totalSectors (length results) w)))"

abbreviation (input) LEGACY_CHS_STEP :: u64 where "LEGACY_CHS_STEP \<equiv> 63"

text \<open>The second pass of a quick scan; a cancel request ends it with what was found.\<close>

record legacy_loop =
  ll_lba :: u64
  ll_results :: "RecoveredPartition list"
  ll_stopped :: bool

definition legacyStep :: "'w recovery_env \<Rightarrow> PartitionRecovery \<Rightarrow> legacy_loop \<Rightarrow> (legacy_loop Result, 'w) io" where
  "legacyStep E self st w =
     (let ss = dg_bytesPerSector (pr_geometry self) in
      if (ll_lba st * ucast ss) mod DEFAULT_ALIGNMENT_BYTES = 0 then
        Done (Inr (st\<lparr>ll_lba := ll_lba st + LEGACY_CHS_STEP\<rparr>), w)
      else if rc_canceled E w then Done (Inr (st\<lparr>ll_stopped := True\<rparr>), w)
      else
        run_bind (probeOffset (rc_win32 E) self w (ll_lba st)) (\<lambda>candidate.
          Done (Inr (st\<lparr>ll_lba := ll_lba st + LEGACY_CHS_STEP,
            ll_results := addCandidate ss candidate (ll_results st)\<rparr>), w)))"

definition legacyPass :: "'w recovery_env \<Rightarrow> PartitionRecovery \<Rightarrow> PartitionScanMode \<Rightarrow> u64 \<Rightarrow> RecoveredPartition list \<Rightarrow>
    (RecoveredPartition list Result, 'w) io" where
  "legacyPass E self mode totalSectors results =
     (if mode \<noteq> Quick then io_return (Inr results)
      else
        io_try (io_while (\<lambda>st. \<not> ll_stopped st \<and> ll_lba st < totalSectors) (legacyStep E self)
                 \<lparr>ll_lba = LEGACY_CHS_STEP, ll_results = results, ll_stopped = False\<rparr>)
          (\<lambda>st. io_return (Inr (ll_results st))))"

definition existingRange :: "u32 \<Rightarrow> DriveLayoutPartition \<Rightarrow> u64 \<times> u64" where
  "existingRange ss e =
     (let existStart = lp_startingOffset e div ucast ss in (existStart, existStart + lp_partitionLength e div ucast ss))"

definition rangesOverlap :: "u64 \<times> u64 \<Rightarrow> u64 \<times> u64 \<Rightarrow> bool" where
  "rangesOverlap a b \<longleftrightarrow> fst a < snd b \<and> fst b < snd a"

definition markOverlap :: "u32 \<Rightarrow> DriveLayoutPartition list \<Rightarrow> RecoveredPartition \<Rightarrow> RecoveredPartition" where
  "markOverlap ss parts found =
     (if rp_sectorCount found = 0 then found
      else
        (let foundRange = (rp_startLba found, rp_startLba found + rp_sectorCount found) in
         case find (\<lambda>e. rangesOverlap foundRange (existingRange ss e)) parts of
           None \<Rightarrow> found
         | Some e \<Rightarrow> found\<lparr>rp_overlapsExisting := True,
             rp_confidence := (if foundRange = existingRange ss e then 10 else rp_confidence found)\<rparr>))"

definition markOverlaps :: "PartitionRecovery \<Rightarrow> RecoveredPartition list \<Rightarrow> RecoveredPartition list" where
  "markOverlaps self = map (markOverlap (dg_bytesPerSector (pr_geometry self)) (li_partitions (pr_layout self)))"

definition scanDisk :: "'w recovery_env \<Rightarrow> PartitionScanMode \<Rightarrow> PartitionRecovery \<Rightarrow> (RecoveredPartition list Result, 'w) io" where
  "scanDisk E mode self w =
     (let ss = dg_bytesPerSector (pr_geometry self) in
      if ss = 0 then Done (fail InvalidArgument ''Disk reports 0 bytes/sector'', w)
      else
        (let totalSectors = dg_totalBytes (pr_geometry self) div ucast ss in
         if totalSectors = 0 then Done (fail InvalidArgument ''Disk reports 0 total sectors'', w)
         else
           io_try (io_while (\<lambda>st. sl_lba st < totalSectors) (scanStep E self (stepSectors mode ss) totalSectors)
                    \<lparr>sl_lba = 0, sl_scanned = 0, sl_results = []\<rparr>) (\<lambda>st.
           io_try (legacyPass E self mode totalSectors (sl_results st)) (\<lambda>results.
           let results = markOverlaps self results in
           io_return (if results = [] then fail NoPartitionsFound ''No lost partitions found'' else Inr results))) w))"

definition scan :: "'w recovery_env \<Rightarrow> PartitionScanMode \<Rightarrow> PartitionRecovery \<Rightarrow>
    (RecoveredPartition list Result \<times> PartitionRecovery, 'w) io" where
  "scan E mode self w =
     (case getGeometry (rc_win32 E) (pr_disk self) w of
        Inl e \<Rightarrow> Done ((Inl e, self), w)
      | Inr g \<Rightarrow>
          (let self = self\<lparr>pr_geometry := g\<rparr>;
               self = (case getDriveLayout (rc_win32 E) (pr_disk self) w of
                         Inl _ \<Rightarrow> self | Inr layout \<Rightarrow> self\<lparr>pr_layout := layout\<rparr>)
           in run_bind (scanDisk E mode self w) (\<lambda>(r, w'). Done ((r, self), w'))))"

section \<open>Recovery\<close>

definition recoverRead :: "'w Win32 \<Rightarrow> RawDiskHandle \<Rightarrow> u32 \<Rightarrow> 'w \<Rightarrow> DiskReadCallback" where
  "recoverRead W disk ss w offset n =
     readSectors W disk (offset div ucast ss) (ucast ((n + ss - 1) div ss * ss div ss)) ss w"

definition recoverMbrType :: "FilesystemType \<Rightarrow> u8" where
  "recoverMbrType fs =
     (if fs \<in> {NTFS, ExFAT} then MbrTypes_NTFS_HPFS
      else if fs = FAT32 then MbrTypes_FAT32_LBA
      else if fs = FAT16 then MbrTypes_FAT16_LBA
      else if fs = FAT12 then MbrTypes_FAT12
      else if fs \<in> {Ext2, Ext3, Ext4, Btrfs, XFS} then MbrTypes_LinuxNative
      else MbrTypes_NTFS_HPFS)"

definition recoverTypeGuid :: "FilesystemType \<Rightarrow> Guid" where
  "recoverTypeGuid fs =
     (if fs \<in> {Ext2, Ext3, Ext4, Btrfs, XFS} then GptTypes_linuxFilesystem else GptTypes_microsoftBasicData)"

definition recoverParams :: "RecoveredPartition \<Rightarrow> PartitionTableType \<Rightarrow> PartitionParams" where
  "recoverParams p ty =
     (let params = pp_default\<lparr>pp_startLba := rp_startLba p, pp_sectorCount := rp_sectorCount p\<rparr> in
      if ty = MBR then params\<lparr>pp_mbrType := recoverMbrType (rp_fsType p)\<rparr>
      else if ty = GPT then
        params\<lparr>pp_typeGuid := recoverTypeGuid (rp_fsType p),
          pp_gptName := (if rp_label p = [] then ascii ''Recovered Partition'' else rp_label p)\<rparr>
      else params)"

definition recover :: "'w recovery_env \<Rightarrow> PartitionRecovery \<Rightarrow> RecoveredPartition \<Rightarrow> (unit Result, 'w) io" where
  "recover E self p w =
     (if rp_sectorCount p = 0 then Done (fail InvalidArgument ''Cannot recover partition with unknown size'', w)
      else
        (let ss = dg_bytesPerSector (pr_geometry self) in
         require (ss \<noteq> 0)
           (run_bind (pt_parse (recoverRead (rc_win32 E) (pr_disk self) ss w) (dg_totalBytes (pr_geometry self)) ss)
             (\<lambda>tableResult.
               case tableResult of
                 Inl e \<Rightarrow> Done (Inl e, w)
               | Inr table \<Rightarrow>
                   (case pt_addPartition (rc_random E w) (recoverParams p (pt_type table)) table of
                      (Inl e, _) \<Rightarrow> Done (Inl e, w)
                    | (Inr _, table') \<Rightarrow>
                        run_bind (pt_serialize table') (\<lambda>serResult.
                          case serResult of
                            Inl e \<Rightarrow> Done (Inl e, w)
                          | Inr tableBytes \<Rightarrow>
                              io_try (writeSectors (rc_win32 E) (pr_disk self) 0 (Some tableBytes)
                                       (sectorsToWrite tableBytes ss) ss)
                                (\<lambda>_. io_return ok) w))))))"

end
