(* ===== verification/Recovery_Correct.thy ===== *)
theory Recovery_Correct
  imports Partition_Recovery Confinement Ext_Layout Gpt_Operations Format_Swap
begin

text \<open>
  Correctness of the partition recovery: which places a scan looks at and what it reports of them, that
  it returns, what the comparison with existing partitions says, that a formatted ext partition is found
  with its size, and what recovery makes of the partition table.
\<close>

section \<open>The places a scan looks at\<close>

definition scanPositions :: "PartitionScanMode \<Rightarrow> u32 \<Rightarrow> u64 \<Rightarrow> u64 list" where
  "scanPositions mode ss totalSectors =
     map of_nat ([i\<leftarrow>[0..<unat totalSectors]. unat (stepSectors mode ss) dvd i] @
       (if mode = Quick then
          [i\<leftarrow>[63..<unat totalSectors]. 63 dvd i \<and> \<not> 1048576 dvd (i * unat ss)] else []))"

fun probeAll :: "(u64 \<Rightarrow> RecoveredPartition option run) \<Rightarrow> u32 \<Rightarrow> u64 list \<Rightarrow> RecoveredPartition list run" where
  "probeAll probe ss [] = Done []"
| "probeAll probe ss (lba # lbas) =
     run_bind (probe lba) (\<lambda>c. run_bind (probeAll probe ss lbas) (\<lambda>rs. Done (addCandidate ss c [] @ rs)))"

lemma run_bind_assoc: "run_bind (run_bind m f) g = run_bind m (\<lambda>x. run_bind (f x) g)"
  by (cases m) simp_all

lemma probeAll_append:
  "probeAll probe ss (xs @ ys) = run_bind (probeAll probe ss xs) (\<lambda>rs. run_bind (probeAll probe ss ys) (\<lambda>rs'. Done (rs @ rs')))"
proof (induction xs)
  case Nil
  show ?case by (cases "probeAll probe ss ys") simp_all
next
  case (Cons x xs)
  then show ?case
    by (cases "probe x"; cases "probeAll probe ss xs"; cases "probeAll probe ss ys") simp_all
qed

lemma probeAll_mem:
  "probeAll probe ss lbas = Done rs \<Longrightarrow>
    r \<in> set rs \<longleftrightarrow> (\<exists>lba \<in> set lbas. \<exists>p. probe lba = Done (Some p) \<and> r = p\<lparr>rp_sectorSize := ss\<rparr>)"
proof (induction lbas arbitrary: rs)
  case (Cons a lbas)
  from Cons.prems obtain c rs' where c: "probe a = Done c" and rs': "probeAll probe ss lbas = Done rs'"
    and rs: "rs = addCandidate ss c [] @ rs'"
    by (auto simp: run_bind_Done_iff)
  from Cons.IH [OF rs'] show ?case by (cases c) (auto simp: rs c addCandidate_def)
qed simp

lemma probeAll_defined: "probeAll probe ss lbas = Done rs \<Longrightarrow> lba \<in> set lbas \<Longrightarrow> \<exists>c. probe lba = Done c"
  by (induction lbas arbitrary: rs) (auto simp: run_bind_Done_iff)

lemma probeAll_map_filter:
  "probeAll probe ss lbas = Done rs \<Longrightarrow>
    rs = List.map_filter (\<lambda>lba. case probe lba of Done (Some p) \<Rightarrow> Some (p\<lparr>rp_sectorSize := ss\<rparr>) | _ \<Rightarrow> None) lbas"
  by (induction lbas arbitrary: rs)
    (auto simp: run_bind_Done_iff addCandidate_def map_filter_simps split: option.splits)

lemma io_try_result: "io_try (io_try m (\<lambda>x. io_return (Inr (f x)))) k = io_try m (\<lambda>x. k (f x))"
proof (rule ext)
  fix w
  show "io_try (io_try m (\<lambda>x. io_return (Inr (f x)))) k w = io_try m (\<lambda>x. k (f x)) w"
    by (cases "m w") (auto simp: io_try_def io_return_def split: sum.splits)
qed

lemma addCandidate_append: "addCandidate ss c rs = rs @ addCandidate ss c []"
  by (simp add: addCandidate_def split: option.split)

lemma filter_upt_step:
  assumes "0 < step" "step dvd i" "i < n"
  shows "[j\<leftarrow>[i..<n]. step dvd j] = i # [j\<leftarrow>[i + step..<n]. step dvd j]"
proof (cases "i + step \<le> n")
  case True
  have no: "\<not> step dvd j" if "i < j" "j < i + step" for j
    using that assms(1,2) by (metis add_diff_inverse_nat dvd_add_right_iff nat_dvd_not_less not_less_iff_gr_or_eq
        add_less_cancel_left zero_less_diff)
  have "[i..<n] = i # [Suc i..<i + step] @ [i + step..<n]"
    using True assms upt_add_eq_append [of "Suc i" "i + step" "n - (i + step)"] by (simp add: upt_conv_Cons)
  moreover have "[j\<leftarrow>[Suc i..<i + step]. step dvd j] = []" using no by (auto simp: filter_empty_conv)
  ultimately show ?thesis using assms(2) by simp
next
  case False
  have "\<not> step dvd j" if "i < j" "j < n" for j
    using that False assms(1,2) by (metis add_diff_inverse_nat dvd_add_right_iff nat_dvd_not_less not_less_iff_gr_or_eq
        add_less_cancel_left zero_less_diff le_eq_less_or_eq not_le less_trans)
  then have "[j\<leftarrow>[Suc i..<n]. step dvd j] = []" by (auto simp: filter_empty_conv)
  then show ?thesis using False assms by (simp add: upt_conv_Cons)
qed

section \<open>What a scan reports\<close>

text \<open>Without a callback and a cancel request the world stays as it is.\<close>

definition quiet :: "'w recovery_env \<Rightarrow> 'w \<Rightarrow> bool" where
  "quiet E w \<longleftrightarrow> \<not> rc_canceled E w \<and> (\<forall>a b c. rc_progress E a b c w = w)"

lemma next_position:
  fixes step :: u64
  assumes "i < unat tot" "unat tot + unat step \<le> 2 ^ 64"
  shows "of_nat i + step = (of_nat (i + unat step) :: u64)" "unat (of_nat i :: u64) = i"
    "(of_nat j :: u64) < tot \<longleftrightarrow> unat (of_nat j :: u64) < unat tot"
  using assms unsigned_less [of tot] by (simp_all add: unat_of_nat word_less_nat_alt)

lemma main_pass:
  assumes "quiet E w" "0 < unat step" "unat tot + unat step \<le> 2 ^ 64"
    and "unat step dvd i" "i < 2 ^ 64"
  shows "io_try (io_while (\<lambda>st. sl_lba st < tot) (scanStep E self step tot)
      \<lparr>sl_lba = of_nat i, sl_scanned = s, sl_results = results\<rparr>) (\<lambda>st. k (sl_results st)) w =
    run_bind (probeAll (probeOffset (rc_win32 E) self w) (dg_bytesPerSector (pr_geometry self))
        (map of_nat [j\<leftarrow>[i..<unat tot]. unat step dvd j])) (\<lambda>rs. k (results @ rs) w)"
  using assms(4,5)
proof (induction "unat tot - i" arbitrary: i s results rule: less_induct)
  case less
  have i: "unat (of_nat i :: u64) = i" using less.prems by (simp add: unat_of_nat)
  show ?case
  proof (cases "i < unat tot")
    case False
    then show ?thesis using i by (simp add: io_try_def word_less_nat_alt)
  next
    case True
    note nx = next_position [OF True assms(3)]
    have lt: "i + unat step < 2 ^ 64" using True assms(3) by linarith
    have dv: "unat step dvd i + unat step" using less.prems by simp
    have sm: "unat tot - (i + unat step) < unat tot - i" using True assms(2) by linarith
    note IH = less.hyps [OF sm dv lt]
    have test: "(of_nat i :: u64) < tot" using True i by (simp add: word_less_nat_alt)
    let ?st = "\<lparr>sl_lba = of_nat i, sl_scanned = s, sl_results = results\<rparr>" and ?p = "probeOffset (rc_win32 E) self w"
    let ?ss = "dg_bytesPerSector (pr_geometry self)" and ?W = "io_while (\<lambda>st. sl_lba st < tot) (scanStep E self step tot)"
    have step: "scanStep E self step tot ?st w = run_bind (?p (of_nat i)) (\<lambda>c.
        Done (Inr \<lparr>sl_lba = of_nat (i + unat step), sl_scanned = s + step, sl_results = addCandidate ?ss c results\<rparr>, w))"
      using assms(1) nx(1) by (simp add: scanStep_def quiet_def Let_def del: of_nat_add)
    have loop: "?W ?st w = run_bind (?p (of_nat i)) (\<lambda>c. ?W \<lparr>sl_lba = of_nat (i + unat step), sl_scanned = s + step,
        sl_results = addCandidate ?ss c results\<rparr> w)"
      using test by (subst io_while_unfold) (simp add: step run_bind_assoc del: of_nat_add)
    show ?thesis
      unfolding filter_upt_step [OF assms(2) less.prems(1) True] io_try_def loop run_bind_assoc
        list.map probeAll.simps
      using IH unfolding io_try_def
      by (simp add: run_bind_assoc addCandidate_append [of _ _ results] del: of_nat_add)
  qed
qed

lemma on_mib_dvd:
  fixes ss :: u32
  shows "(of_nat i * ucast ss :: u64) mod 1048576 = 0 \<longleftrightarrow> 1048576 dvd (i * unat ss)"
proof -
  have "unat ((of_nat i * ucast ss :: u64) mod 1048576) = (i * unat ss) mod 2 ^ 64 mod 1048576"
    by (simp add: unat_mod unat_word_ariths unat_of_nat mod_mult_left_eq unat_ucast_up)
  also have "\<dots> = (i * unat ss) mod 1048576"
    by (rule mod_mod_cancel) simp
  finally show ?thesis by (metis dvd_eq_mod_eq_0 unat_eq_zero)
qed

lemma legacy_pass:
  assumes "\<not> rc_canceled E w" "unat tot + 63 \<le> 2 ^ 64" "63 dvd i" "i < 2 ^ 64"
    and "ss = dg_bytesPerSector (pr_geometry self)"
  shows "io_try (io_while (\<lambda>st. \<not> ll_stopped st \<and> ll_lba st < tot) (legacyStep E self)
      \<lparr>ll_lba = of_nat i, ll_results = results, ll_stopped = False\<rparr>) (\<lambda>st. k (ll_results st)) w =
    run_bind (probeAll (probeOffset (rc_win32 E) self w) ss
        (map of_nat [j\<leftarrow>[i..<unat tot]. 63 dvd j \<and> \<not> 1048576 dvd (j * unat ss)])) (\<lambda>rs. k (results @ rs) w)"
  using assms(3,4)
proof (induction "unat tot - i" arbitrary: i results rule: less_induct)
  case less
  have i: "unat (of_nat i :: u64) = i" using less.prems by (simp add: unat_of_nat)
  show ?case
  proof (cases "i < unat tot")
    case False
    then show ?thesis using i by (simp add: io_try_def word_less_nat_alt)
  next
    case True
    have nx: "of_nat i + 63 = (of_nat (i + 63) :: u64)" by simp
    have lt: "i + 63 < 2 ^ 64" using True assms(2) by linarith
    have dv: "63 dvd i + 63" using less.prems by simp
    have sm: "unat tot - (i + 63) < unat tot - i" using True by linarith
    note IH = less.hyps [OF sm dv lt]
    have test: "(of_nat i :: u64) < tot" using True i by (simp add: word_less_nat_alt)
    have fl: "[j\<leftarrow>[a..<unat tot]. 63 dvd j \<and> \<not> 1048576 dvd (j * unat ss)] =
        filter (\<lambda>j. \<not> 1048576 dvd (j * unat ss)) [j\<leftarrow>[a..<unat tot]. 63 dvd j]" for a
      by (simp add: conj_commute)
    have fl_i: "[j\<leftarrow>[i..<unat tot]. 63 dvd j] = i # [j\<leftarrow>[i + 63..<unat tot]. 63 dvd j]"
      by (rule filter_upt_step) (use less.prems(1) True in simp_all)
    let ?st = "\<lparr>ll_lba = of_nat i, ll_results = results, ll_stopped = False\<rparr>"
    let ?p = "probeOffset (rc_win32 E) self w"
    let ?W = "io_while (\<lambda>st. \<not> ll_stopped st \<and> ll_lba st < tot) (legacyStep E self)"
    show ?thesis
    proof (cases "1048576 dvd (i * unat ss)")
      case True
      then have "legacyStep E self ?st w = Done (Inr \<lparr>ll_lba = of_nat (i + 63), ll_results = results, ll_stopped = False\<rparr>, w)"
        using on_mib_dvd [of i ss] nx assms(5) by (simp add: legacyStep_def Let_def del: of_nat_add)
      then have loop: "?W ?st w = ?W \<lparr>ll_lba = of_nat (i + 63), ll_results = results, ll_stopped = False\<rparr> w"
        using test by (subst io_while_unfold) (simp del: of_nat_add)
      show ?thesis using IH True unfolding io_try_def loop fl fl_i by simp
    next
      case False
      then have "legacyStep E self ?st w = run_bind (?p (of_nat i)) (\<lambda>c.
          Done (Inr \<lparr>ll_lba = of_nat (i + 63), ll_results = addCandidate ss c results, ll_stopped = False\<rparr>, w))"
        using on_mib_dvd [of i ss] nx assms(1,5) by (simp add: legacyStep_def Let_def del: of_nat_add)
      then have loop: "?W ?st w = run_bind (?p (of_nat i)) (\<lambda>c.
          ?W \<lparr>ll_lba = of_nat (i + 63), ll_results = addCandidate ss c results, ll_stopped = False\<rparr> w)"
        using test by (subst io_while_unfold) (simp add: run_bind_assoc del: of_nat_add)
      show ?thesis
        using IH False unfolding io_try_def loop fl fl_i
        by (simp add: run_bind_assoc addCandidate_append [of _ _ results] del: of_nat_add)
    qed
  qed
qed

text \<open>The object of the scan after the geometry and the layout have been read.\<close>

definition prepared :: "'w recovery_env \<Rightarrow> PartitionRecovery \<Rightarrow> DiskGeometryInfo \<Rightarrow> 'w \<Rightarrow> PartitionRecovery" where
  "prepared E self g w =
     (case getDriveLayout (rc_win32 E) (pr_disk self) w of
        Inl _ \<Rightarrow> self\<lparr>pr_geometry := g\<rparr> | Inr layout \<Rightarrow> self\<lparr>pr_geometry := g, pr_layout := layout\<rparr>)"

lemma prepared_simps [simp]:
  "pr_disk (prepared E self g w) = pr_disk self" "pr_geometry (prepared E self g w) = g"
  by (simp_all add: prepared_def split: sum.split)

lemma scan_prepared:
  "getGeometry (rc_win32 E) (pr_disk self) w = Inr g \<Longrightarrow>
    scan E mode self w = run_bind (scanDisk E mode (prepared E self g w) w)
      (\<lambda>(r, w'). Done ((r, prepared E self g w), w'))"
  by (simp add: scan_def prepared_def Let_def split: sum.split)

lemma markOverlap_simps [simp]:
  "rp_startLba (markOverlap ss parts p) = rp_startLba p" "rp_sectorCount (markOverlap ss parts p) = rp_sectorCount p"
  "rp_sectorSize (markOverlap ss parts p) = rp_sectorSize p" "rp_fsType (markOverlap ss parts p) = rp_fsType p"
  "rp_label (markOverlap ss parts p) = rp_label p"
  by (simp_all add: markOverlap_def Let_def split: option.split)

text \<open>The whole scan as one expression.\<close>

lemma scan_eq:
  assumes "quiet E w" "getGeometry (rc_win32 E) (pr_disk self) w = Inr g" "ss = dg_bytesPerSector g" "ss \<noteq> 0"
    and "n = dg_totalBytes g div ucast ss" "n \<noteq> 0" "unat n + 1048576 \<le> 2 ^ 64" "mode = Deep \<or> ss \<le> 1048576"
    and "self' = prepared E self g w"
  shows "scan E mode self w =
    run_bind (probeAll (probeOffset (rc_win32 E) self' w) ss (scanPositions mode ss n)) (\<lambda>rs.
      Done ((if rs = [] then fail NoPartitionsFound ''No lost partitions found'' else Inr (markOverlaps self' rs), self'), w))"
proof -
  let ?step = "stepSectors mode ss" and ?probe = "probeOffset (rc_win32 E) self' w"
  let ?fin = "\<lambda>results. (\<lambda>results. io_return (if results = [] then fail NoPartitionsFound ''No lost partitions found''
    else Inr results)) (markOverlaps self' results)"
  let ?legacy = "if mode = Quick then map of_nat [i\<leftarrow>[63..<unat n]. 63 dvd i \<and> \<not> 1048576 dvd (i * unat ss)] else []"
  have s: "unat (1048576 div ucast ss :: u64) = 1048576 div unat ss"
    by (simp add: unat_div unat_ucast_up)
  have pos: "0 < unat ?step" "unat ?step \<le> 1048576"
  proof -
    have "unat ss \<le> 1048576 \<Longrightarrow> 0 < 1048576 div unat ss"
      using assms(4) by (simp add: div_greater_zero_iff unat_gt_0)
    then show "0 < unat ?step" "unat ?step \<le> 1048576"
      using assms(8) s by (auto simp: stepSectors_def word_le_nat_alt)
  qed
  have geo: "dg_bytesPerSector (pr_geometry self') = ss" "dg_totalBytes (pr_geometry self') div ucast ss = n"
    using assms(3,5,9) by simp_all
  have leg: "io_try (legacyPass E self' mode n results) ?fin w =
      run_bind (probeAll ?probe ss ?legacy) (\<lambda>rs. ?fin (results @ rs) w)" for results
  proof (cases mode)
    case Quick
    have "io_try (legacyPass E self' mode n results) ?fin w =
        io_try (io_while (\<lambda>st. \<not> ll_stopped st \<and> ll_lba st < n) (legacyStep E self')
          \<lparr>ll_lba = of_nat 63, ll_results = results, ll_stopped = False\<rparr>) (\<lambda>st. ?fin (ll_results st)) w"
      using Quick by (simp add: legacyPass_def io_try_result)
    also have "\<dots> = run_bind (probeAll ?probe ss ?legacy) (\<lambda>rs. ?fin (results @ rs) w)"
      using Quick assms(1,7) geo(1) by (subst legacy_pass [where ss = ss]) (simp_all add: quiet_def)
    finally show ?thesis .
  next
    case Deep
    then show ?thesis by (simp add: legacyPass_def io_try_def io_return_def)
  qed
  have "scanDisk E mode self' w = io_try (io_while (\<lambda>st. sl_lba st < n) (scanStep E self' ?step n)
      \<lparr>sl_lba = of_nat 0, sl_scanned = 0, sl_results = []\<rparr>) (\<lambda>st. io_try (legacyPass E self' mode n (sl_results st)) ?fin) w"
    using assms(4,6) by (simp add: scanDisk_def geo Let_def)
  also have "\<dots> = run_bind (probeAll ?probe ss (map of_nat [j\<leftarrow>[0..<unat n]. unat ?step dvd j]))
      (\<lambda>rs. io_try (legacyPass E self' mode n ([] @ rs)) ?fin w)"
    using pos assms(7) unfolding geo(1) [symmetric]
    by (subst main_pass [OF assms(1), where k = "\<lambda>rs. io_try (legacyPass E self' mode n rs) ?fin"]) (simp_all add: geo(1))
  also have "\<dots> = run_bind (probeAll ?probe ss (scanPositions mode ss n)) (\<lambda>rs. ?fin rs w)"
    unfolding leg append_Nil
    by (cases mode) (simp_all add: scanPositions_def probeAll_append run_bind_assoc cong: if_cong)
  finally show ?thesis
    unfolding scan_prepared [OF assms(2)] assms(9) [symmetric]
    by (simp add: run_bind_assoc io_return_def markOverlaps_def)
qed

text \<open>
  C30. A scan is exhaustive and reports in order: without a cancel request and a callback it probes exactly
  the positions of its mode (every sector, or every mebibyte followed by the track boundaries that are not
  on a mebibyte), and its report has what the probes find there, in that order, compared with the partitions
  of the disk; it fails exactly when no probe finds anything. For a quick scan the sectors must not be longer
  than a mebibyte.
\<close>

theorem scan_reports:
  assumes "quiet E w" "getGeometry (rc_win32 E) (pr_disk self) w = Inr g" "ss = dg_bytesPerSector g" "ss \<noteq> 0"
    and "n = dg_totalBytes g div ucast ss" "n \<noteq> 0" "unat n + 1048576 \<le> 2 ^ 64" "mode = Deep \<or> ss \<le> 1048576"
    and "scan E mode self w = Done ((r, self'), w')"
    and "candidates = List.map_filter (\<lambda>lba. case probeOffset (rc_win32 E) self' w lba of
      Done (Some p) \<Rightarrow> Some (p\<lparr>rp_sectorSize := ss\<rparr>) | _ \<Rightarrow> None) (scanPositions mode ss n)"
  shows "r = (if candidates = [] then fail NoPartitionsFound ''No lost partitions found''
    else Inr (markOverlaps self' candidates))"
proof -
  from assms(9) obtain rs where
    rs: "probeAll (probeOffset (rc_win32 E) (prepared E self g w) w) ss (scanPositions mode ss n) = Done rs"
    and r: "r = (if rs = [] then fail NoPartitionsFound ''No lost partitions found''
      else Inr (markOverlaps (prepared E self g w) rs))" "self' = prepared E self g w"
    unfolding scan_eq [OF assms(1-8) refl] by (auto simp: run_bind_Done_iff)
  have "rs = candidates" using probeAll_map_filter [OF rs] by (simp add: assms(10) r(2))
  then show ?thesis by (simp add: r)
qed

section \<open>A formatted ext partition is found\<close>

text \<open>Reading whole sectors, and trimming: the bytes asked for, if they end within the sectors that are read.\<close>

lemma unat_mod_less: "0 < unat ss \<Longrightarrow> unat (x mod ucast (ss :: u32) :: u64) < unat ss"
  by (simp add: unat_mod unat_ucast_up)

lemma readTrimmed_works:
  fixes ss n :: u32 and off :: u64
  assumes "content_laws W V" "disk_readable W V d" "rh_handle disk = Some h" "handles V w h = Some (OnDisk d rw)"
    and "unat ss = s" "0 < s" "unat off = a" "unat n = m" "m + s \<le> 2 ^ 32" "(m + s - 1) div s * s = m'"
    and "a mod s + m \<le> m'" "a - a mod s + m' \<le> length (contents V w d)" "length (contents V w d) < 2 ^ 64"
  shows "readTrimmed W disk ss w off n = Inr (slice a m (contents V w d))"
proof -
  have ss: "ss \<noteq> 0" "unat (ucast ss :: u64) = s" using assms(5,6) by (auto simp: unat_ucast_up)
  have n: "unat ((n + ss - 1) div ss) = (m + s - 1) div s"
    using unat_ceil_div [OF ss(1), of n] assms(5,8,9) by simp
  have m': "m' \<le> m + s - 1" using assms(10) by auto
  then have "m' < 2 ^ 32" using assms(6,9) by linarith
  then have m32: "unat ((n + ss - 1) div ss * ss) = m'"
    using n assms(5,10) by (subst unat_mult_lem [THEN iffD1]) simp_all
  then have "unat (((n + ss - 1) div ss * ss) div ss) = m' div s" using assms(5) by (simp add: unat_div)
  then have c: "unat (ucast (((n + ss - 1) div ss * ss) div ss) :: u64) = m' div s" by (simp add: unat_ucast_up)
  have dv: "s dvd m'" using assms(10) by auto
  have "m' div s * s < 2 ^ 64" using dv \<open>m' < 2 ^ 32\<close> by simp
  then have cb: "unat ((ucast (((n + ss - 1) div ss * ss) div ss) :: u64) * ucast ss) = m'"
    using c ss dv by (subst unat_mult_lem [THEN iffD1]) simp_all
  have "a div s * s \<le> a" by simp
  moreover have "a < 2 ^ 64" using unat_less_64 [of off] assms(7) by simp
  ultimately have "a div s * s < 2 ^ 64" by (rule le_less_trans)
  then have lb: "unat (off div ucast ss * ucast ss :: u64) = a div s * s"
    using ss assms(7) by (subst unat_mult_lem [THEN iffD1]) (simp_all add: unat_div)
  have split: "a - a mod s = a div s * s" by (simp add: minus_mod_eq_div_mult)
  have rd: "readSectors W disk (off div ucast ss) (ucast (((n + ss - 1) div ss * ss) div ss)) ss w =
      Inr (slice (a div s * s) m' (contents V w d))"
    using readSectors_works [OF assms(1-4), of "off div ucast ss" ss] lb cb assms(12) split \<open>m' < 2 ^ 32\<close> by simp
  have "unat (off mod ucast ss) = a mod s" using ss assms(7) by (simp add: unat_mod)
  moreover have "a mod s < 2 ^ 32" using assms(5) unat_less_32 [of ss] mod_less_divisor [OF assms(6), of a] by simp
  ultimately have ino: "unat (ucast (off mod ucast ss :: u64) :: u32) = a mod s"
    by (subst unat_ucast_64_32) simp_all
  have "unat ((ucast (off mod ucast ss :: u64) :: u32) + n) = a mod s + m"
    using ino assms(8,11) \<open>m' < 2 ^ 32\<close> by (subst unat_add_lem [THEN iffD1]) simp_all
  moreover have "length (slice (a div s * s) m' (contents V w d)) = m'" using assms(12) split by simp
  moreover have "slice (a mod s) m (slice (a div s * s) m' (contents V w d)) = slice a m (contents V w d)"
    using assms(11) by (simp add: slice_slice)
  ultimately show ?thesis using rd ino assms(8,11) by (simp add: readTrimmed_def Let_def)
qed

text \<open>On disks with sectors of 512 or 4096 bytes, the requests of the detector and the estimate.\<close>

lemma probeRead_works:
  fixes lba :: u64 and ss :: u32
  assumes "content_laws W V" "disk_readable W V d" "rh_handle disk = Some h" "handles V w h = Some (OnDisk d rw)"
    and "ss \<in> {512, 4096}" "unat (lba * ucast ss) = start" "unat ss dvd start"
    and "start + 0x11000 \<le> length (contents V w d)" "length (contents V w d) < 2 ^ 64"
    and "(off, n) \<in> {(0, 512), (0, 4096), (0x10000, 0x1000), (1024, 1024), (1024, 512)}"
  shows "readTrimmed W disk ss w (lba * ucast ss + off) n = Inr (slice (start + unat off) (unat n) (contents V w d))"
proof -
  have a: "unat (lba * ucast ss + off) = start + unat off"
    using assms(6,8-10) by (subst unat_add_lem [THEN iffD1]) auto
  have al: "(start + x) mod 512 = x mod 512" if "unat ss = 512" for x
    using assms(7) that by (auto simp: dvd_def)
  have al': "(start + x) mod 4096 = x mod 4096" if "unat ss = 4096" for x
    using assms(7) that by (auto simp: dvd_def)
  consider "ss = 512" | "ss = 4096" using assms(5) by blast
  then show ?thesis
  proof cases
    case 1
    show ?thesis
      by (rule readTrimmed_works [OF assms(1-4) _ _ a refl _ refl, where s = 512])
        (use 1 al assms(8-10) in auto)
  next
    case 2
    show ?thesis
      by (rule readTrimmed_works [OF assms(1-4) _ _ a refl _ refl, where s = 4096])
        (use 2 al' assms(8-10) in auto)
  qed
qed

text \<open>
  The start of a partition that was formatted as ext: the superblock, and no signature of a file system
  that the detector looks for first. The format writes neither the boot area nor the place of a Btrfs
  superblock, so that what was there before stays.
\<close>

definition unclaimed :: "bytes \<Rightarrow> nat \<Rightarrow> bool" where
  "unclaimed content start \<longleftrightarrow>
     slice (start + 3) 8 content \<notin> {ascii ''NTFS    '', ascii ''EXFAT   ''} \<and>
     slice (start + 3) 4 content \<noteq> ascii ''ReFS'' \<and> readBE32 (slice start 4 content) 0 \<noteq> 0x58465342 \<and>
     readLE32 (slice (start + 32) 4 content) 0 \<noteq> 0x4253584E \<and>
     slice (start + 0x10040) 8 content \<noteq> ascii ''_BHRfS_M''"

definition ext_volume :: "bytes \<Rightarrow> nat \<Rightarrow> bytes \<Rightarrow> bool" where
  "ext_volume content start sb \<longleftrightarrow> slice (start + 1024) 1024 content = sb \<and> unclaimed content start"

lemma ext_detected:
  assumes "ext_volume content start sb" "start + 0x11000 \<le> length content" "detectExt f fd_default = Some d"
    and rd: "\<And>off n. (off, n) \<in> {(0, 512), (0, 4096), (0x10000, 0x1000), (1024, 1024), (1024, 512)} \<Longrightarrow>
      f off n = Inr (slice (start + unat off) (unat n) content)"
  shows "detect f 0 = Done (Inr d)"
proof -
  have free: "unclaimed content start" using assms(1) by (simp add: ext_volume_def)
  have boot: "safeRead f 0 512 = slice start 512 content" and r4: "safeRead f 0 4096 = slice start 4096 content"
    and rb: "safeRead f 0x10000 0x1000 = slice (start + 0x10000) 0x1000 content"
    using rd [where off = 0 and n = 512] rd [where off = 0 and n = 4096] rd [where off = "0x10000" and n = "0x1000"]
    by (simp_all add: safeRead_def)
  have four: "memEqual data k m \<longleftrightarrow> slice k 4 data = ascii m" if "length m = 4" for data k m
    using that by (simp add: memEqual_def)
  have eight: "memEqual data k m \<longleftrightarrow> slice k 8 data = ascii m" if "length m = 8" for data k m
    using that by (simp add: memEqual_def)
  have "memEqual (slice start 512 content) 3 m \<longleftrightarrow> slice (start + 3) 8 content = ascii m" if "length m = 8" for m
    using that by (simp add: eight slice_slice)
  from this [of "''NTFS    ''"] this [of "''EXFAT   ''"]
  have magic: "\<not> memEqual (slice start 512 content) 3 ''NTFS    ''" "\<not> memEqual (slice start 512 content) 3 ''EXFAT   ''"
    using free by (simp_all add: unclaimed_def)
  have refs: "\<not> memEqual (slice start 512 content) 3 ''ReFS''"
    using free four [of "''ReFS''"] by (simp add: slice_slice unclaimed_def)
  have xfs: "readBE32 (slice start 512 content) 0 \<noteq> 0x58465342"
    using free assms(2) by (simp add: unclaimed_def readBE32_def nth_slice)
  have apfs: "readLE32 (slice start 4096 content) 32 \<noteq> 0x4253584E"
    using free assms(2) by (simp add: unclaimed_def readLE32_def nth_slice add.commute add.left_commute)
  have silent: "detectNtfs f d = None" "detectExfat f d = Done None" "detectXfs f d = None" "detectReFs f d = None"
      "detectApfs f d = None" for d
    using magic refs xfs apfs
    by (simp_all add: detectNtfs_def detectExfat_def detectXfs_def detectReFs_def detectApfs_def boot r4 Let_def)
  have "slice 0x40 8 (slice (start + 0x10000) 0x1000 content) = slice (start + 0x10040) 8 content"
    by (simp add: slice_slice add.commute)
  then have btrfs: "detectBtrfs f d = None" for d
    using free by (simp add: detectBtrfs_def rb Let_def unclaimed_def eight)
  show ?thesis
    using assms(3) by (simp add: detect_def probes_def silent btrfs)
qed

lemma extSuperblock_blocks:
  assumes "length uuid = 16" "length seed = 16"
  shows "readLE32 (extSuperblock options G uuid seed now) 4 = ucast (eg_totalBlocks G)"
proof -
  obtain c i r where F: "extFeatures options G = (c, i, r)" by (metis prod_cases3)
  show ?thesis using assms by (simp add: extSuperblock_def Let_def F buf_simps)
qed

lemma extFeatures_64bit:
  assumes "extGeometry options partSize = Inr G" "fo_targetFs options \<in> {Ext2, Ext3, Ext4}"
  shows "fst (snd (extFeatures options G)) AND 0x80 \<noteq> 0 \<longleftrightarrow> eg_use64bit G"
  using extGeometry_sizes(8) [OF assms(1)] assms(2) by (auto simp: extFeatures_def Let_def)

text \<open>
  The size estimate reads the block count and the block size of the superblock; for a file system with
  64-bit block numbers it has no defined result.
\<close>

lemma estimateExt_superblock:
  assumes "extGeometry options partSize = Inr G" "fo_targetFs options \<in> {Ext2, Ext3, Ext4}"
    and "length uuid = 16" "length seed = 16" "sb = extFinalSuperblock options G uuid seed now"
    and "rd (base + 1024) 512 = take 512 sb" "rd (base + 1024) 1024 = sb"
  shows "estimateExt rd base =
    (if eg_use64bit G then Undef else Done (ucast (ucast (eg_totalBlocks G) :: u32) * ucast (eg_blockSize G)))"
proof -
  note f = extFinalSuperblock_fields [OF assms(3,4), where options = options and G = G and now = now]
  note g = extGeometry_sizes [OF assms(1)]
  have four: "readLE32 sb 4 = ucast (eg_totalBlocks G)"
    using extFinalSuperblock_reads(1) [OF assms(3,4), of 4] extSuperblock_blocks [OF assms(3,4)] by (simp add: assms(5))
  have cong: "readLE32 (take 512 sb) k = readLE32 sb k" if "k < 500" for k
    using that f(1) by (simp add: readLE32_def assms(5))
  have "eg_logBlockSize G < 64" using g(2) by (simp add: word_less_nat_alt)
  moreover have "push_bit (unat (eg_logBlockSize G)) 1024 = (ucast (eg_blockSize G) :: u64)"
  proof -
    have "\<forall>n \<in> set [0..<10]. (ucast (push_bit n 1024 :: u32) :: u64) = push_bit n 1024" by code_simp
    then show ?thesis using g(2) unfolding g(3) [symmetric] by (simp add: word_less_nat_alt)
  qed
  ultimately show ?thesis
    using f(1,3,5) four
    by (simp add: estimateExt_def Let_def assms(6,7) cong extFeatures_64bit [OF assms(1,2), symmetric])
      (simp add: assms(5))
qed

text \<open>What a probe of the first sector of a formatted partition gives.\<close>

definition extCandidate :: "u32 \<Rightarrow> u64 \<Rightarrow> FormatOptions \<Rightarrow> u64 \<Rightarrow> RecoveredPartition" where
  "extCandidate ss lba options byteCount =
     (let ty = (if fo_targetFs options = Ext3 \<and> \<not> fo_enableJournal options then Ext2 else fo_targetFs options)
      in rp_default\<lparr>rp_startLba := lba, rp_fsType := ty,
           rp_label := trimSpaces (takeWhile (\<lambda>b. b \<noteq> 0) (take 16 (fo_volumeLabel options))),
           rp_sectorCount := byteCount div ucast ss, rp_confidence := probeConfidence ss lba ty\<rparr>)"

lemma ext_probed:
  fixes lba :: u64 and ss :: u32
  assumes disk: "content_laws W V" "disk_readable W V d" "rh_handle (pr_disk self) = Some h" "handles V w h = Some (OnDisk d rw)"
    and ss: "ss = dg_bytesPerSector (pr_geometry self)" "ss \<in> {512, 4096}"
    and start: "unat (lba * ucast ss) = start" "unat ss dvd start" "start + 0x11000 \<le> length (contents V w d)"
      "length (contents V w d) < 2 ^ 64"
    and vol: "ext_volume (contents V w d) start (extFinalSuperblock options G uuid seed now)" "length uuid = 16" "length seed = 16"
    and geo: "extGeometry options partSize = Inr G" "fo_targetFs options \<in> {Ext2, Ext3, Ext4}"
  shows "probeOffset W self w lba = (if eg_use64bit G then Undef else
    Done (Some (extCandidate ss lba options (ucast (ucast (eg_totalBlocks G) :: u32) * ucast (eg_blockSize G)))))"
proof -
  let ?C = "contents V w d" and ?sb = "extFinalSuperblock options G uuid seed now"
  let ?f = "probeRead W (pr_disk self) ss w (lba * ucast ss)"
  note rd = probeRead_works [OF disk ss(2) start]
  have f: "?f off n = Inr (slice (start + unat off) (unat n) ?C)"
    if "(off, n) \<in> {(0, 512), (0, 4096), (0x10000, 0x1000), (1024, 1024), (1024, 512)}" for off n
    using rd [OF that] by (simp add: probeRead_def)
  have sb: "slice (start + 1024) 1024 ?C = ?sb" using vol(1) by (simp add: ext_volume_def)
  then have "safeRead ?f 1024 1024 = ?sb" using f [of 1024 1024] by (simp add: safeRead_def)
  from ext_final_detected [OF geo(1,2) vol(2,3) this, of fd_default] obtain dt where
    dt: "detectExt ?f fd_default = Some dt"
    "fd_type dt = (if fo_targetFs options = Ext3 \<and> \<not> fo_enableJournal options then Ext2 else fo_targetFs options)"
    "fd_label dt = trimSpaces (takeWhile (\<lambda>b. b \<noteq> 0) (take 16 (fo_volumeLabel options)))" by blast
  note det = ext_detected [OF vol(1) start(3) dt(1) f]
  have ty: "fd_type dt \<in> {Ext2, Ext3, Ext4}" using dt(2) geo(2) by auto
  have "slice (start + 1024) 512 ?C = take 512 ?sb" unfolding sb [symmetric] by (simp add: slice_def min_def)
  then have "readAbsolute W (pr_disk self) ss w (lba * ucast ss + 1024) 512 = take 512 ?sb"
    "readAbsolute W (pr_disk self) ss w (lba * ucast ss + 1024) 1024 = ?sb"
    using rd [of 1024 512] rd [of 1024 1024] sb by (simp_all add: readAbsolute_def)
  note est = estimateExt_superblock [where rd = "readAbsolute W (pr_disk self) ss w", OF geo(1,2) vol(2,3) refl this]
  have est': "estimatePartitionSize W self w lba (fd_type dt) =
      (if eg_use64bit G then Undef else Done (ucast (ucast (eg_totalBlocks G) :: u32) * ucast (eg_blockSize G)))"
    using ty est by (auto simp: estimatePartitionSize_def Let_def ss(1) [symmetric])
  have "isDetected dt" using ty by (auto simp: isDetected_def)
  with det est' show ?thesis
    by (simp add: probeOffset_def Let_def ss(1) [symmetric] dt(2,3) rp_default_def word_gt_0 extCandidate_def)
qed


section \<open>Deep and quick scans, termination\<close>

lemma scan_result:
  assumes "quiet E w" "getGeometry (rc_win32 E) (pr_disk self) w = Inr g" "ss = dg_bytesPerSector g" "ss \<noteq> 0"
    and "n = dg_totalBytes g div ucast ss" "n \<noteq> 0" "unat n + 1048576 \<le> 2 ^ 64" "mode = Deep \<or> ss \<le> 1048576"
    and "scan E mode self w = Done ((Inr found, self'), w')"
  shows "set found = {markOverlap ss (li_partitions (pr_layout (prepared E self g w))) (p\<lparr>rp_sectorSize := ss\<rparr>) |p lba.
    lba \<in> set (scanPositions mode ss n) \<and> probeOffset (rc_win32 E) (prepared E self g w) w lba = Done (Some p)}"
proof -
  from assms(9) obtain rs where
    rs: "probeAll (probeOffset (rc_win32 E) (prepared E self g w) w) ss (scanPositions mode ss n) = Done rs"
    and found: "found = markOverlaps (prepared E self g w) rs"
    unfolding scan_eq [OF assms(1-8) refl] by (auto simp: run_bind_Done_iff split: if_splits)
  have "set rs = (\<lambda>p. p\<lparr>rp_sectorSize := ss\<rparr>) ` {p. \<exists>lba \<in> set (scanPositions mode ss n).
      probeOffset (rc_win32 E) (prepared E self g w) w lba = Done (Some p)}"
    unfolding set_eq_iff probeAll_mem [OF rs] image_iff mem_Collect_eq by blast
  then show ?thesis unfolding found by (auto simp: markOverlaps_def assms(3))
qed

text \<open>
  A deep scan reports every partition that a quick scan of the same disk reports, with the same size,
  confidence and overlap.
\<close>

theorem deep_covers_quick:
  assumes "quiet E w" "getGeometry (rc_win32 E) (pr_disk self) w = Inr g" "ss = dg_bytesPerSector g" "ss \<noteq> 0"
    and "n = dg_totalBytes g div ucast ss" "n \<noteq> 0" "unat n + 1048576 \<le> 2 ^ 64" "ss \<le> 1048576"
    and "scan E Quick self w = Done ((Inr quick, self1), w1)" "scan E Deep self w = Done ((Inr deep, self2), w2)"
  shows "set quick \<subseteq> set deep"
proof -
  have "set (scanPositions Quick ss n) \<subseteq> set (scanPositions Deep ss n)"
    by (auto simp: scanPositions_def stepSectors_def)
  then show ?thesis
    using scan_result [OF assms(1-7) _ assms(9)] scan_result [OF assms(1-7) _ assms(10)] assms(8) by auto
qed

text \<open>
  A scan returns exactly when it is deep or the sectors are at most a mebibyte long, provided the probes
  have defined results; a quick scan of a disk with longer sectors probes sector 0 for ever.
\<close>

theorem scan_returns_iff:
  assumes "quiet E w" "getGeometry (rc_win32 E) (pr_disk self) w = Inr g" "ss = dg_bytesPerSector g" "ss \<noteq> 0"
    and "n = dg_totalBytes g div ucast ss" "n \<noteq> 0" "unat n + 1048576 \<le> 2 ^ 64"
    and "\<And>lba. lba = 0 \<or> lba \<in> set (scanPositions mode ss n) \<Longrightarrow>
      \<exists>c. probeOffset (rc_win32 E) (prepared E self g w) w lba = Done c"
  shows "(\<exists>r w'. scan E mode self w = Done (r, w')) \<longleftrightarrow> mode = Deep \<or> ss \<le> 1048576"
proof (cases "mode = Deep \<or> ss \<le> 1048576")
  case True
  have "\<exists>rs. probeAll probe ss lbas = Done rs" if "\<forall>lba \<in> set lbas. \<exists>c. probe lba = Done c" for probe lbas
    using that by (induction lbas) auto
  then obtain rs where "probeAll (probeOffset (rc_win32 E) (prepared E self g w) w) ss (scanPositions mode ss n) = Done rs"
    using assms(8) by blast
  then show ?thesis using True by (auto simp: scan_eq [OF assms(1-7) True refl])
next
  case False
  let ?self = "prepared E self g w"
  have mode: "mode = Quick" using False by (cases mode) simp_all
  have "1048576 div unat ss = 0" using False by (auto simp: word_le_nat_alt)
  then have step: "stepSectors Quick ss = 0"
    by (simp add: stepSectors_def word_unat_eq_iff unat_div unat_ucast_up)
  obtain c where c: "probeOffset (rc_win32 E) ?self w 0 = Done c" using assms(8) by blast
  have "io_while (\<lambda>st. sl_lba st < n) (scanStep E ?self 0 n) \<lparr>sl_lba = 0, sl_scanned = 0, sl_results = []\<rparr> w = Diverges"
    by (rule io_while_diverges [where I = "\<lambda>st v. sl_lba st = 0 \<and> v = w"])
      (use assms(1,6) c in \<open>auto simp: quiet_def scanStep_def Let_def word_gt_0\<close>)
  then have "scan E mode self w = Diverges"
    using assms(3-6) mode step by (simp add: scan_prepared [OF assms(2)] scanDisk_def Let_def io_try_def)
  then show ?thesis using False by simp
qed

section \<open>Recovery on a GPT disk\<close>

lemma unat_numeral_512: "unat (512 :: u32) = 512"
  by simp

lemma recoverRead_works:
  fixes ss n :: u32 and off :: u64
  assumes "content_laws W V" "disk_readable W V d" "rh_handle disk = Some h" "handles V w h = Some (OnDisk d rw)"
    and "ss \<noteq> 0" "unat ss dvd unat off" "unat ss dvd unat n" "unat n + unat ss \<le> 2 ^ 32"
    and "unat off + unat n \<le> length (contents V w d)"
  shows "recoverRead W disk ss w off n = Inr (slice (unat off) (unat n) (contents V w d))"
proof -
  let ?s = "unat ss"
  obtain k where k: "unat n = k * ?s" using assms(7) by (auto simp: dvd_def mult.commute)
  have pos: "0 < ?s" using assms(5) by (simp add: unat_gt_0)
  have d: "(unat n + ?s - 1) div ?s = k" unfolding k using pos by (intro div_nat_eqI) (auto simp: mult.commute)
  have c: "unat ((n + ss - 1) div ss) = k" using unat_ceil_div [OF assms(5,8)] d by simp
  have "k * ?s < 2 ^ 32" using k unat_less_32 [of n] by simp
  then have "unat ((n + ss - 1) div ss * ss) = k * ?s" using c by (subst unat_mult_lem [THEN iffD1]) simp_all
  then have "unat ((n + ss - 1) div ss * ss div ss) = k" using pos by (simp add: unat_div)
  then have u: "unat (ucast ((n + ss - 1) div ss * ss div ss) :: u64) = k" by (simp add: unat_ucast_up)
  have "unat (ucast ((n + ss - 1) div ss * ss div ss) * ucast ss :: u64) = k * ?s"
    using u \<open>k * ?s < 2 ^ 32\<close> by (subst unat_mult_lem [THEN iffD1]) (simp_all add: unat_ucast_up)
  with readSectors_works [OF assms(1-4), of "off div ucast ss" ss] assms(9) k \<open>k * ?s < 2 ^ 32\<close>
  show ?thesis by (simp add: recoverRead_def div_mult_aligned [OF assms(5,6)])
qed

lemma guid_wf_recoverTypeGuid [simp]: "guid_wf (recoverTypeGuid fs)"
proof -
  have "guid_wf GptTypes_linuxFilesystem" "guid_wf GptTypes_microsoftBasicData" by code_simp+
  then show ?thesis by (simp add: recoverTypeGuid_def)
qed

text \<open>The serialized table fills whole sectors and is written from the start of the disk on.\<close>

lemma write_gpt_image:
  assumes "win32_laws W V" "disk_works W V d" "rh_handle disk = Some h" "rh_accessMode disk = ReadWrite"
    and "handles V w h = Some (OnDisk d True)" "gpt_serializable t" "gpt_fits t (contents V w d)" "ss = gpt_sectorSize t"
  shows "\<exists>w'. writeSectors W disk 0 (Some (gpt_image t)) (sectorsToWrite (gpt_image t) ss) ss w = Done (ok, w') \<and>
    contents V w' d = gpt_image t @ drop (length (gpt_image t)) (contents V w d)"
proof -
  let ?out = "gpt_image t" and ?n = "sectorsToWrite (gpt_image t) ss"
  have laws: "content_laws W V" using assms(1) by (simp add: win32_laws_def)
  note len = length_gpt_image [OF assms(6)]
  have ss: "ss \<noteq> 0" "unat ss < 2 ^ 32" using gpt_disk_sizes(6) [OF assms(6)] unsigned_less [of ss] assms(8) by auto
  have small: "length ?out < 2 ^ 32" and le: "length ?out \<le> length (contents V w d)"
    using assms(7) len by (simp_all only: gpt_fits_def)
  have fit: "length ?out + unat ss < 2 ^ 64" using add_strict_mono [OF small ss(2)] by simp
  have "unat ss dvd length ?out" unfolding len assms(8) by simp
  from padToSectors_aligned [OF ss(1) this fit] padToSectors_length(2) [OF ss(1) fit]
  have n: "unat (?n * ucast ss) = length ?out" by simp
  obtain w' where w': "writeSectors W disk 0 (Some ?out) ?n ss w = Done (ok, w')"
    using writeSectors_works [OF assms(2-5), of 0 ss ?n ?out] n le small by auto
  from writeSectors_content(1) [OF laws assms(3,5) w'] n have "contents V w' d = blit 0 ?out (contents V w d)"
    by simp
  then show ?thesis using w' by (auto simp: blit_def)
qed

text \<open>
  C29. Recovery enters a partition into the table of a GPT disk: on a disk without faults that is opened for
  writing, with sectors of 512 bytes, \<open>recover\<close> reads the table that is on the disk; if \<open>addPartition\<close>
  refuses the candidate, because it overlaps an entry or leaves the usable area for instance, the call fails
  with that error and nothing is written; otherwise it succeeds, and the table that is read from the disk
  afterwards is the one with the partition added.
\<close>

theorem recover_on_gpt_disk:
  assumes "win32_laws (rc_win32 E) V" "disk_works (rc_win32 E) V d" "rh_handle (pr_disk self) = Some h"
    and "rh_accessMode (pr_disk self) = ReadWrite" "handles V w h = Some (OnDisk d True)"
    and "gpt_disk t (contents V w d)" "gpt_fits t (contents V w d)" "gpt_sectorSize t = 512" "512 dvd unat (entryArrayBytes t)"
    and "dg_bytesPerSector (pr_geometry self) = 512" "rp_sectorCount p \<noteq> 0"
    and "gpt_name_ok (pp_gptName (recoverParams p GPT))" "no_wrap (rp_startLba p, rp_sectorCount p)"
  shows "\<exists>t1. gpt_read_back t t1 \<and>
    (case gpt_addPartition (rc_random E w) (recoverParams p GPT) t1 of
       (Inl e, _) \<Rightarrow> recover E self p w = Done (Inl e, w)
     | (Inr _, t2) \<Rightarrow> (\<exists>w' t3 w''. recover E self p w = Done (ok, w') \<and>
          readPartitionTable (rc_win32 E) d 512 w' = Done (Inr (GptPT t3), w'') \<and> gpt_read_back t2 t3))"
proof -
  let ?W = "rc_win32 E" and ?rd = "recoverRead (rc_win32 E) (pr_disk self) 512 w" and ?pp = "recoverParams p GPT"
  have laws: "content_laws ?W V" using assms(1) by (simp add: win32_laws_def)
  have ser: "gpt_serializable t" using assms(6) by (simp add: gpt_disk_def)
  have "?rd off n = Inr (slice (unat off) (unat n) (contents V w d))"
    if "512 dvd unat off" "unat n + 512 \<le> 2 ^ 32" "n \<in> {512, 512, entryArrayBytes t}"
      "unat off + (unat n + 512 - 1) div 512 * 512 \<le> length (contents V w d)" for off n
  proof -
    have dv: "512 dvd unat n" using that(3) assms(9) by auto
    then have "(unat n + 512 - 1) div 512 * 512 = unat n" by auto
    then show ?thesis
      using recoverRead_works [OF laws disk_works_readable [OF assms(2)] assms(3,5), of 512 off n] that(1,2,4) dv by simp
  qed
  then obtain t1 where t1: "pt_parse ?rd (dg_totalBytes (pr_geometry self)) 512 = Done (Inr (GptPT t1))" "gpt_read_back t t1"
    using gpt_disk_parsed [OF assms(6) refl, unfolded assms(8), of ?rd] by (metis unat_numeral_512)
  obtain r t2 where ad: "gpt_addPartition (rc_random E w) ?pp t1 = (r, t2)" by fastforce
  show ?thesis
  proof (cases r)
    case (Inl e)
    with ad t1 assms(10,11) show ?thesis by (auto simp: recover_def Let_def)
  next
    case (Inr u)
    have "pp_startLba ?pp = rp_startLba p" "pp_sectorCount ?pp = rp_sectorCount p" "pp_typeGuid ?pp = recoverTypeGuid (rp_fsType p)"
      by (simp_all add: recoverParams_def Let_def)
    with gpt_add_serializable [OF read_back_serializable(1) [OF assms(6) t1(2)] _ assms(12) _ ad [unfolded Inr]] assms(13)
    have t2: "gpt_serializable t2" "same_header t1 t2" by simp_all
    have ss: "gpt_sectorSize t2 = 512" using t2(2) t1(2) assms(8) by (simp add: same_header_def gpt_read_back_def)
    have "gpt_fits t2 (contents V w d)"
      using assms(7) read_back_fits [OF t1(2)] same_header_fits [OF t2(2)] by simp
    from write_gpt_image [OF assms(1-5) t2(1) this ss [symmetric]] obtain w' where
      w': "writeSectors ?W (pr_disk self) 0 (Some (gpt_image t2)) (sectorsToWrite (gpt_image t2) 512) 512 w = Done (ok, w')"
      "contents V w' d = gpt_image t2 @ drop (length (gpt_image t2)) (contents V w d)" by auto
    have "recover E self p w = Done (ok, w')"
      using assms(10,11) t1(1) ad Inr w'(1) gpt_serialize_ok [OF t2(1)]
      by (simp add: recover_def Let_def io_try_def io_return_def)
    moreover have "gpt_disk t2 (contents V w' d)"
      unfolding w'(2) using read_back_serializable(2,3) [OF assms(6) t1(2)] t2
      by (intro gpt_disk_image) (simp_all add: same_header_def)
    from readPartitionTable_gpt [OF assms(1,2) this, unfolded ss] obtain t3 w'' where
      "readPartitionTable ?W d 512 w' = Done (Inr (GptPT t3), w'')" "gpt_read_back t2 t3" by blast
    ultimately show ?thesis using t1(2) ad Inr by auto
  qed
qed

section \<open>Witnesses\<close>

text \<open>A disk in memory with sectors of 4096 bytes.\<close>

definition sim_4k :: "sim_world Win32" where
  "sim_4k = sim_win32\<lparr>GetDriveGeometryEx := (\<lambda>h w. Inr \<lparr>gx_diskSize = of_nat (length (sim_disk w)), gx_cylinders = 0,
     gx_mediaType = 12, gx_tracksPerCylinder = 255, gx_sectorsPerTrack = 63, gx_bytesPerSector = 4096\<rparr>)\<rparr>"

definition sim_recovery :: "sim_world recovery_env" where
  "sim_recovery = \<lparr>rc_win32 = sim_4k, rc_random = (\<lambda>w i. of_nat i), rc_canceled = (\<lambda>w. False),
     rc_progress = (\<lambda>a b c w. w)\<rparr>"

lemma sim_recovery_simps [simp]: "rc_win32 sim_recovery = sim_4k" "quiet sim_recovery w"
  by (simp_all add: sim_recovery_def quiet_def)

lemma sim_4k_laws: "content_laws sim_4k sim_view" "disk_readable sim_4k sim_view 0"
proof -
  show "content_laws sim_4k sim_view"
    using sim_win32_laws by (simp add: win32_laws_def content_laws_def sim_4k_def)
  show "disk_readable sim_4k sim_view 0"
    using disk_works_readable [OF sim_disk_works] by (simp add: disk_readable_def sim_4k_def)
qed

definition sim_geometry :: "nat \<Rightarrow> DiskGeometryInfo" where
  "sim_geometry n = \<lparr>dg_totalBytes = of_nat n, dg_bytesPerSector = 4096, dg_sectorsPerTrack = 63,
     dg_tracksPerCylinder = 255, dg_cylinders = 0, dg_mediaType = 12\<rparr>"

lemma sim_4k_geometry: "getGeometry sim_4k sim_handle w = Inr (sim_geometry (length (sim_disk w)))"
  by (simp add: getGeometry_def sim_handle_def sim_4k_def sim_geometry_def)

definition scanned_world :: "bytes \<Rightarrow> sim_world" where
  "scanned_world content = \<lparr>sim_disk = content, sim_handles = [Some (OnDisk 0 False)]\<rparr>"

lemma scanned_world_simps [simp]:
  "sim_disk (scanned_world content) = content" "contents sim_view (scanned_world content) 0 = content"
  "handles sim_view (scanned_world content) 0 = Some (OnDisk 0 False)"
  by (simp_all add: scanned_world_def sim_view_def sim_target_def)

text \<open>An XFS superblock on a disk of one sector.\<close>

definition xfs_disk :: bytes where
  "xfs_disk = [0x58, 0x46, 0x53, 0x42, 0, 0, 0x10, 0, 0, 0, 0, 0, 0, 0, 0, 1] @ replicate 4080 0"

lemma xfs_probe:
  assumes "pr_disk self = sim_handle" "pr_geometry self = sim_geometry 4096"
  shows "\<exists>p. probeOffset sim_4k self (scanned_world xfs_disk) 0 = Done (Some p) \<and> rp_fsType p = XFS \<and> rp_sectorCount p = 1"
proof -
  let ?f = "probeRead sim_4k sim_handle 4096 (scanned_world xfs_disk) 0"
  have len: "length xfs_disk = 4096" by (simp add: xfs_disk_def)
  have rd: "readTrimmed sim_4k sim_handle 4096 (scanned_world xfs_disk) 0 512 = Inr (take 512 xfs_disk)"
    using readTrimmed_works [OF sim_4k_laws, of sim_handle 0 "scanned_world xfs_disk" False 4096 4096 0 0 512 512 4096] len
    by (simp add: sim_handle_def slice_def)
  have t: "take 512 xfs_disk = [0x58, 0x46, 0x53, 0x42, 0, 0, 0x10, 0, 0, 0, 0, 0, 0, 0, 0, 1] @ replicate 496 0"
    by (simp add: xfs_disk_def)
  have r0: "safeRead ?f 0 512 = take 512 xfs_disk" using rd by (simp add: safeRead_def probeRead_def)
  have r1: "length (safeRead ?f 0x10000 0x1000) = 0"
    using len by (simp add: safeRead_def probeRead_def readTrimmed_def readSectors_def sim_handle_def sim_4k_def
        sim_defs sim_target_def scanned_world_def Let_def makeWin32Error_def)
  have silent: "detectNtfs ?f d = None" "detectExfat ?f d = Done None" "detectBtrfs ?f d = None" for d
    using r1 by (simp_all add: detectNtfs_def detectExfat_def detectBtrfs_def r0 t Let_def memEqual_def slice_def ascii_def)
  obtain dt where dt: "detectXfs ?f fd_default = Some dt" "fd_type dt = XFS"
    by (simp add: detectXfs_def r0 t Let_def readBE32_def)
  have "detect ?f 0 = Done (Inr dt)" by (simp add: detect_def probes_def silent dt)
  moreover have "estimatePartitionSize sim_4k self (scanned_world xfs_disk) 0 XFS = Done 4096"
    using rd by (simp add: estimatePartitionSize_def assms sim_geometry_def estimateXfs_def readAbsolute_def t Let_def
        readLE32_def readLE64_def byteSwap32_def byteSwap64_def)
  ultimately show ?thesis
    by (simp add: probeOffset_def assms sim_geometry_def dt isDetected_def)
qed

abbreviation scanner :: PartitionRecovery where
  "scanner \<equiv> pr_new sim_handle"

lemma xfs_scan:
  "\<exists>p self'. scan sim_recovery mode scanner (scanned_world xfs_disk) = Done ((Inr [p], self'), scanned_world xfs_disk) \<and>
     rp_fsType p = XFS \<and> rp_sectorCount p = 1"
proof -
  have len: "length xfs_disk = 4096" by (simp add: xfs_disk_def)
  let ?w = "scanned_world xfs_disk"
  have g: "getGeometry (rc_win32 sim_recovery) (pr_disk scanner) ?w = Inr (sim_geometry 4096)"
    by (simp add: sim_4k_geometry pr_new_def len)
  have pos: "scanPositions mode 4096 1 = [0]" by (cases mode) (simp_all add: scanPositions_def)
  obtain p where p: "probeOffset sim_4k (prepared sim_recovery scanner (sim_geometry 4096) ?w) ?w 0 = Done (Some p)"
    "rp_fsType p = XFS" "rp_sectorCount p = 1"
    using xfs_probe [of "prepared sim_recovery scanner (sim_geometry 4096) ?w"] by (auto simp: pr_new_def)
  have n: "1 = dg_totalBytes (sim_geometry 4096) div ucast (4096 :: u32)" "4096 = dg_bytesPerSector (sim_geometry 4096)"
    by (simp_all add: sim_geometry_def)
  show ?thesis
    using scan_eq [OF _ g n(2) _ n(1) _ _ _ refl, of mode] p
    by (simp add: pos addCandidate_def markOverlaps_def)
qed

theorem scan_reports_witness:
  "\<exists>p self'. scan sim_recovery Quick scanner (scanned_world xfs_disk) = Done ((Inr [p], self'), scanned_world xfs_disk) \<and>
     [p] = markOverlaps self' (List.map_filter (\<lambda>lba. case probeOffset sim_4k self' (scanned_world xfs_disk) lba of
       Done (Some p) \<Rightarrow> Some (p\<lparr>rp_sectorSize := 4096\<rparr>) | _ \<Rightarrow> None) [0])"
proof -
  let ?w = "scanned_world xfs_disk"
  have g: "getGeometry (rc_win32 sim_recovery) (pr_disk scanner) ?w = Inr (sim_geometry 4096)"
    by (simp add: sim_4k_geometry pr_new_def xfs_disk_def)
  obtain p self' where s: "scan sim_recovery Quick scanner ?w = Done ((Inr [p], self'), ?w)"
    using xfs_scan [of Quick] by blast
  have pos: "scanPositions Quick 4096 1 = [0]" by (simp add: scanPositions_def)
  define C where "C = List.map_filter (\<lambda>lba. case probeOffset sim_4k self' ?w lba of
    Done (Some p) \<Rightarrow> Some (p\<lparr>rp_sectorSize := 4096\<rparr>) | _ \<Rightarrow> None) [0]"
  have "Inr [p] = (if C = [] then fail NoPartitionsFound ''No lost partitions found'' else Inr (markOverlaps self' C))"
    by (rule scan_reports [OF _ g _ _ _ _ _ _ s, of 4096 1]) (simp_all add: sim_geometry_def pos C_def)
  then have "[p] = markOverlaps self' C" by (auto split: if_splits)
  with s show ?thesis unfolding C_def by blast
qed

theorem deep_covers_quick_witness:
  "\<exists>quick deep self1 self2. scan sim_recovery Quick scanner (scanned_world xfs_disk) = Done ((Inr quick, self1), scanned_world xfs_disk) \<and>
     scan sim_recovery Deep scanner (scanned_world xfs_disk) = Done ((Inr deep, self2), scanned_world xfs_disk) \<and>
     quick \<noteq> [] \<and> set quick \<subseteq> set deep"
proof -
  let ?w = "scanned_world xfs_disk"
  have g: "getGeometry (rc_win32 sim_recovery) (pr_disk scanner) ?w = Inr (sim_geometry 4096)"
    by (simp add: sim_4k_geometry pr_new_def xfs_disk_def)
  obtain p self1 p' self2 where
    q: "scan sim_recovery Quick scanner ?w = Done ((Inr [p], self1), ?w)" and
    d: "scan sim_recovery Deep scanner ?w = Done ((Inr [p'], self2), ?w)"
    using xfs_scan [of Quick] xfs_scan [of Deep] by blast
  from deep_covers_quick [OF _ g _ _ _ _ _ _ q d, of 4096 1] q d show ?thesis
    by (auto simp: sim_geometry_def)
qed

theorem scan_returns_iff_witness:
  "\<exists>r w'. scan sim_recovery Quick scanner (scanned_world xfs_disk) = Done (r, w')"
proof -
  let ?w = "scanned_world xfs_disk"
  have g: "getGeometry (rc_win32 sim_recovery) (pr_disk scanner) ?w = Inr (sim_geometry 4096)"
    by (simp add: sim_4k_geometry pr_new_def xfs_disk_def)
  have pos: "scanPositions Quick 4096 1 = [0]" by (simp add: scanPositions_def)
  have "\<exists>c. probeOffset sim_4k (prepared sim_recovery scanner (sim_geometry 4096) ?w) ?w 0 = Done c"
    using xfs_probe [of "prepared sim_recovery scanner (sim_geometry 4096) ?w"] by (auto simp: pr_new_def)
  with scan_returns_iff [OF _ g, of 4096 1 Quick] pos show ?thesis by (auto simp: sim_geometry_def)
qed

text \<open>A disk of 17 sectors that begins with the superblock of an ext4 partition.\<close>

definition ext_superblock :: bytes where
  "ext_superblock = extFinalSuperblock ext4_options sample_ext (replicate 16 7) (replicate 16 9) 0"

definition ext_disk :: bytes where
  "ext_disk = replicate 1024 0 @ ext_superblock @ replicate 67584 0"

lemma ext_disk_volume: "length ext_disk = 69632" "ext_volume ext_disk 0 ext_superblock"
proof -
  have sb: "length ext_superblock = 1024"
    using extFinalSuperblock_fields(1) [of "replicate 16 7" "replicate 16 9"] by (simp add: ext_superblock_def)
  then show "length ext_disk = 69632" by (simp add: ext_disk_def)
  have "slice (0 + 0x10040) 8 ext_disk = replicate 8 0" "slice (0 + 3) 8 ext_disk = replicate 8 0"
    "slice (0 + 3) 4 ext_disk = replicate 4 0" "slice 0 4 ext_disk = replicate 4 0"
    "slice (0 + 32) 4 ext_disk = replicate 4 0" using sb by (simp_all add: ext_disk_def slice_def)
  moreover have "replicate 8 0 \<noteq> ascii ''_BHRfS_M''" "replicate 8 0 \<noteq> ascii ''NTFS    ''"
    "replicate 8 0 \<noteq> ascii ''EXFAT   ''" "replicate 4 0 \<noteq> ascii ''ReFS''" by code_simp+
  moreover have "readBE32 (replicate 4 0) 0 = 0" "readLE32 (replicate 4 0) 0 = 0"
    by (simp_all add: readBE32_def readLE32_def)
  ultimately have "unclaimed ext_disk 0" by (simp add: unclaimed_def)
  moreover have "slice (0 + 1024) 1024 ext_disk = ext_superblock" using sb by (simp add: ext_disk_def slice_def)
  ultimately show "ext_volume ext_disk 0 ext_superblock" by (simp add: ext_volume_def)
qed


text \<open>A candidate is entered into the sample GPT table.\<close>

definition sim_recovery_512 :: "sim_world recovery_env" where
  "sim_recovery_512 = sim_recovery\<lparr>rc_win32 := sim_win32\<rparr>"

definition lost_partition :: RecoveredPartition where
  "lost_partition = rp_default\<lparr>rp_startLba := 10000, rp_sectorCount := 100, rp_fsType := Ext4, rp_label := [0x44]\<rparr>"

definition recovery_world :: sim_world where
  "recovery_world = gpt_world\<lparr>sim_handles := [Some (OnDisk 0 True)]\<rparr>"

definition gpt_scanner :: PartitionRecovery where
  "gpt_scanner = (pr_new sim_handle)\<lparr>pr_geometry := (sim_geometry 0)\<lparr>dg_bytesPerSector := 512\<rparr>\<rparr>"

lemma lost_partition_simps: "rp_startLba lost_partition = 10000" "rp_sectorCount lost_partition = 100"
  by (simp_all add: lost_partition_def rp_default_def)

lemma lost_params:
  "recoverParams lost_partition GPT = pp_default\<lparr>pp_startLba := 10000, pp_sectorCount := 100,
     pp_typeGuid := GptTypes_linuxFilesystem, pp_gptName := [0x44]\<rparr>"
  by (simp add: recoverParams_def lost_partition_def rp_default_def recoverTypeGuid_def)

lemma lost_add:
  assumes "gpt_read_back sample_gpt t1"
  shows "\<exists>t2. gpt_addPartition rnd (recoverParams lost_partition GPT) t1 = (ok, t2) \<and> gpt_sectorSize t2 = 512 \<and>
    (\<exists>e. gpt_entries t2 = [gpt_stored 512 sample_gpt_entry, e] \<and> entry_range e = (10000, 100))"
proof -
  have e: "gpt_entries t1 = [gpt_stored 512 sample_gpt_entry]"
    using assms by (intro sorted_key_unique [of pe_index]) (simp_all add: gpt_read_back_def sample_gpt_sectors)
  have c: "gpt_entryCount t1 = 128" "gpt_firstUsableLba t1 = 34" "gpt_lastUsableLba t1 = 2097118" "gpt_sectorSize t1 = 512"
    using assms by (simp_all add: gpt_read_back_def sample_gpt_def gpt_new_def gpt_diskSectors_def)
  have f: "gpt_freeSlot t1 = Some 1"
    unfolding gpt_freeSlot_Some by (simp add: e c sample_gpt_entry_def)
  show ?thesis
    by (simp add: lost_params gpt_addPartition_def Let_def f e c pp_default_def gpt_overlapsExisting_def
        sample_gpt_entry_def gpt_stored_def gpt_newEntry_def entry_range_def)
qed

theorem recover_on_gpt_disk_witness:
  "\<exists>w' t3 w'' e. recover sim_recovery_512 gpt_scanner lost_partition recovery_world = Done (ok, w') \<and>
     readPartitionTable sim_win32 0 512 w' = Done (Inr (GptPT t3), w'') \<and>
     set (gpt_entries t3) = {gpt_stored 512 sample_gpt_entry, e} \<and> entry_range e = (10000, 100)"
proof -
  let ?w = recovery_world and ?E = sim_recovery_512
  have c: "contents sim_view ?w = contents sim_view gpt_world" "handles sim_view ?w 0 = Some (OnDisk 0 True)"
    by (simp_all add: recovery_world_def gpt_world_def sim_view_def sim_target_def fun_eq_iff)
  have E: "rc_win32 ?E = sim_win32" by (simp add: sim_recovery_512_def)
  have name: "gpt_name_ok [0x44]" unfolding gpt_name_ok_def
    by (rule exI [of _ "[0x44]"]) (simp add: utf16_loop.simps utf8_of_unit_def)
  have arr: "512 dvd unat (entryArrayBytes sample_gpt)"
    by (simp add: entryArrayBytes_def sample_gpt_def gpt_new_def)
  have "\<exists>t1. gpt_read_back sample_gpt t1 \<and>
    (case gpt_addPartition (rc_random ?E ?w) (recoverParams lost_partition GPT) t1 of
       (Inl e, _) \<Rightarrow> recover ?E gpt_scanner lost_partition ?w = Done (Inl e, ?w)
     | (Inr _, t2) \<Rightarrow> (\<exists>w' t3 w''. recover ?E gpt_scanner lost_partition ?w = Done (ok, w') \<and>
          readPartitionTable (rc_win32 ?E) 0 512 w' = Done (Inr (GptPT t3), w'') \<and> gpt_read_back t2 t3))"
    by (rule recover_on_gpt_disk [where V = sim_view and h = 0])
      (use sim_win32_laws sim_disk_works gpt_world_disk c name arr in \<open>simp_all add: E gpt_scanner_def pr_new_def sim_handle_def
        sample_gpt_sectors lost_params no_wrap_def lost_partition_simps\<close>)
  then obtain t1 where t1: "gpt_read_back sample_gpt t1"
    "case gpt_addPartition (rc_random ?E ?w) (recoverParams lost_partition GPT) t1 of
       (Inl e, _) \<Rightarrow> recover ?E gpt_scanner lost_partition ?w = Done (Inl e, ?w)
     | (Inr _, t2) \<Rightarrow> (\<exists>w' t3 w''. recover ?E gpt_scanner lost_partition ?w = Done (ok, w') \<and>
          readPartitionTable (rc_win32 ?E) 0 512 w' = Done (Inr (GptPT t3), w'') \<and> gpt_read_back t2 t3)"
    by (elim exE conjE) (rule that)
  obtain t2 e where t2: "gpt_addPartition (rc_random ?E ?w) (recoverParams lost_partition GPT) t1 = (ok, t2)"
    "gpt_entries t2 = [gpt_stored 512 sample_gpt_entry, e]" "gpt_sectorSize t2 = 512" "entry_range e = (10000, 100)"
    using lost_add [OF t1(1)] by blast
  obtain w' t3 w'' where r: "recover ?E gpt_scanner lost_partition ?w = Done (ok, w')"
    "readPartitionTable sim_win32 0 512 w' = Done (Inr (GptPT t3), w'')" "gpt_read_back t2 t3"
    using t1(2) t2(1) E by auto
  have "set (gpt_entries t3) = {gpt_stored 512 sample_gpt_entry, gpt_stored 512 e}"
    using r(3) t2(2,3) by (simp add: gpt_read_back_def)
  moreover have "entry_range (gpt_stored 512 e) = (10000, 100)" using t2(4) by simp
  ultimately show ?thesis using r(1,2) by (intro exI conjI)
qed

end
