(* ===== verification/Checksums.thy ===== *)
theory Checksums
  imports Confinement Crc32
begin

text \<open>
  \<open>src/core/imaging/Checksums.cpp\<close>: hashes of buffers, files and sector ranges through the Windows hashing
  library, the CRC-32 of the same, and the text of a hash. The hashing library, the file functions and
  the progress callback are arguments; a callback that returns false cancels.
\<close>

unbundle bit_operations_syntax

section \<open>What the code uses from outside\<close>

record 'w bcrypt =
  BCryptOpenAlgorithmProvider :: "string \<Rightarrow> 'w \<Rightarrow> nat option \<times> 'w"
  BCryptObjectLength :: "nat \<Rightarrow> 'w \<Rightarrow> u32 option"
  BCryptHashLength :: "nat \<Rightarrow> 'w \<Rightarrow> u32 option"
  BCryptCreateHash :: "nat \<Rightarrow> u32 \<Rightarrow> 'w \<Rightarrow> nat option \<times> 'w"
  BCryptHashData :: "nat option \<Rightarrow> bytes \<Rightarrow> 'w \<Rightarrow> bool \<times> 'w"
  BCryptFinishHash :: "nat option \<Rightarrow> u32 \<Rightarrow> 'w \<Rightarrow> bytes option \<times> 'w"
  BCryptDestroyHash :: "nat \<Rightarrow> 'w \<Rightarrow> 'w"
  BCryptCloseAlgorithmProvider :: "nat \<Rightarrow> 'w \<Rightarrow> 'w"

record 'w file_api =
  OpenForReading :: "wstr \<Rightarrow> 'w \<Rightarrow> nat option \<times> 'w"
  GetFileSizeEx :: "nat \<Rightarrow> 'w \<Rightarrow> u64 option"
  ReadNext :: "nat \<Rightarrow> u32 \<Rightarrow> 'w \<Rightarrow> bytes option \<times> 'w"
  CloseFile :: "nat \<Rightarrow> 'w \<Rightarrow> 'w"
  LastError :: "'w \<Rightarrow> u32"

type_synonym 'w hash_progress = "u64 \<Rightarrow> u64 \<Rightarrow> 'w \<Rightarrow> bool \<times> 'w"

abbreviation (input) BCRYPT_SHA256_ALGORITHM :: string where "BCRYPT_SHA256_ALGORITHM \<equiv> ''SHA256''"
abbreviation (input) BCRYPT_MD5_ALGORITHM :: string where "BCRYPT_MD5_ALGORITHM \<equiv> ''MD5''"

section \<open>Text\<close>

definition hexDigit :: "u8 \<Rightarrow> char" where
  "hexDigit d = ''0123456789abcdef'' ! unat d"

definition hashToHexString :: "bytes \<Rightarrow> string" where
  "hashToHexString data = concat (map (\<lambda>b. [hexDigit (drop_bit 4 b), hexDigit (b AND 15)]) data)"

definition sha256ToHex :: "bytes \<Rightarrow> string" where
  "sha256ToHex hash = hashToHexString hash"

definition md5ToHex :: "bytes \<Rightarrow> string" where
  "md5ToHex hash = hashToHexString hash"

section \<open>The hasher\<close>

record BcryptHasher =
  bh_algHandle :: "nat option"
  bh_hashHandle :: "nat option"
  bh_hashLength :: u32

definition hasher_new :: BcryptHasher where
  "hasher_new = \<lparr>bh_algHandle = None, bh_hashHandle = None, bh_hashLength = 0\<rparr>"

definition hasher_destroy :: "'w bcrypt \<Rightarrow> BcryptHasher \<Rightarrow> 'w \<Rightarrow> 'w" where
  "hasher_destroy B self w =
     (let w = (case bh_hashHandle self of None \<Rightarrow> w | Some h \<Rightarrow> BCryptDestroyHash B h w)
      in case bh_algHandle self of None \<Rightarrow> w | Some a \<Rightarrow> BCryptCloseAlgorithmProvider B a w)"

definition hasher_init :: "'w bcrypt \<Rightarrow> string \<Rightarrow> BcryptHasher \<Rightarrow> 'w \<Rightarrow> unit Result \<times> BcryptHasher \<times> 'w" where
  "hasher_init B algorithmId self w =
     (case BCryptOpenAlgorithmProvider B algorithmId w of
        (None, w) \<Rightarrow> (fail Unknown ''BCryptOpenAlgorithmProvider failed'', self, w)
      | (Some a, w) \<Rightarrow>
          (let self = self\<lparr>bh_algHandle := Some a\<rparr> in
           case BCryptObjectLength B a w of
             None \<Rightarrow> (fail Unknown ''BCryptGetProperty(OBJECT_LENGTH) failed'', self, w)
           | Some hashObjectSize \<Rightarrow>
               (case BCryptHashLength B a w of
                  None \<Rightarrow> (fail Unknown ''BCryptGetProperty(HASH_LENGTH) failed'', self, w)
                | Some n \<Rightarrow>
                    (let self = self\<lparr>bh_hashLength := n\<rparr> in
                     case BCryptCreateHash B a hashObjectSize w of
                       (None, w) \<Rightarrow> (fail Unknown ''BCryptCreateHash failed'', self, w)
                     | (Some h, w) \<Rightarrow> (ok, self\<lparr>bh_hashHandle := Some h\<rparr>, w)))))"

text \<open>The length is passed on as a 32-bit number.\<close>

definition hasher_update :: "'w bcrypt \<Rightarrow> BcryptHasher \<Rightarrow> bytes \<Rightarrow> (unit Result, 'w) io" where
  "hasher_update B self data w =
     (case BCryptHashData B (bh_hashHandle self) (take (unat (of_nat (length data) :: u32)) data) w of
        (False, w) \<Rightarrow> Done (fail Unknown ''BCryptHashData failed'', w)
      | (True, w) \<Rightarrow> Done (ok, w))"

definition hasher_finish :: "'w bcrypt \<Rightarrow> BcryptHasher \<Rightarrow> nat \<Rightarrow> (bytes Result, 'w) io" where
  "hasher_finish B self outputLength w =
     (if outputLength < unat (bh_hashLength self) then
        Done (fail InvalidArgument ''Output buffer too small for hash result'', w)
      else
        (case BCryptFinishHash B (bh_hashHandle self) (bh_hashLength self) w of
           (None, w) \<Rightarrow> Done (fail Unknown ''BCryptFinishHash failed'', w)
         | (Some hash, w) \<Rightarrow> Done (Inr (blit 0 hash (replicate outputLength 0)), w)))"

text \<open>
  The scope of a hasher: \<open>init\<close>, then what follows it, and the destructor on every path. The function
  \<open>failed\<close> is run when \<open>init\<close> fails, before the destructor.
\<close>

definition withHasher :: "'w bcrypt \<Rightarrow> string \<Rightarrow> ('w \<Rightarrow> 'w) \<Rightarrow> (BcryptHasher \<Rightarrow> ('a Result, 'w) io) \<Rightarrow> ('a Result, 'w) io" where
  "withHasher B algorithmId failed body w =
     (case hasher_init B algorithmId hasher_new w of
        (Inl e, hasher, w) \<Rightarrow> Done (Inl e, hasher_destroy B hasher (failed w))
      | (Inr _, hasher, w) \<Rightarrow>
          run_bind (body hasher w) (\<lambda>(r, w). Done (r, hasher_destroy B hasher w)))"

section \<open>Hashes of files and sector ranges\<close>

abbreviation (input) IMAGE_CHUNK_SIZE :: u32 where "IMAGE_CHUNK_SIZE \<equiv> 4 * 1024 * 1024"

text \<open>
  The two read loops, over an accumulator: the hash and the CRC-32 differ in what they do with a chunk and
  in their messages. A file is read until a read delivers nothing.
\<close>

record 'a file_loop =
  fl_acc :: 'a
  fl_totalRead :: u64
  fl_eof :: bool

definition fileStep :: "'w file_api \<Rightarrow> 'w hash_progress \<Rightarrow> string \<Rightarrow> ('a \<Rightarrow> bytes \<Rightarrow> ('a Result, 'w) io) \<Rightarrow> nat \<Rightarrow> u64 \<Rightarrow>
    'a file_loop \<Rightarrow> ('a file_loop Result, 'w) io" where
  "fileStep F progressCb name chunk hFile fileSize st w =
     (case ReadNext F hFile IMAGE_CHUNK_SIZE w of
        (None, w) \<Rightarrow>
          (let w = CloseFile F hFile w in
           Done (Inl (fromWin32 ImageReadError (LastError F w)
             (''ReadFile failed during '' @ (if name = ''Hash'' then ''hashing'' else name))), w))
      | (Some data, w) \<Rightarrow>
          if data = [] then Done (Inr (st\<lparr>fl_eof := True\<rparr>), w)
          else
            run_bind (chunk (fl_acc st) data w) (\<lambda>(r, w).
              case r of
                Inl e \<Rightarrow> Done (Inl e, CloseFile F hFile w)
              | Inr a \<Rightarrow>
                  (let totalRead = fl_totalRead st + of_nat (length data) in
                   case progressCb totalRead fileSize w of
                     (False, w) \<Rightarrow>
                       Done (fail OperationCanceled (name @ '' operation canceled by user''), CloseFile F hFile w)
                   | (True, w) \<Rightarrow> Done (Inr (st\<lparr>fl_acc := a, fl_totalRead := totalRead\<rparr>), w))))"

definition fileLoop :: "'w file_api \<Rightarrow> 'w hash_progress \<Rightarrow> string \<Rightarrow> ('a \<Rightarrow> bytes \<Rightarrow> ('a Result, 'w) io) \<Rightarrow> nat \<Rightarrow> u64 \<Rightarrow> 'a \<Rightarrow>
    ('a Result, 'w) io" where
  "fileLoop F progressCb name chunk hFile fileSize a =
     io_try (io_while (\<lambda>st. \<not> fl_eof st) (fileStep F progressCb name chunk hFile fileSize)
              \<lparr>fl_acc = a, fl_totalRead = 0, fl_eof = False\<rparr>)
       (\<lambda>st w. Done (Inr (fl_acc st), CloseFile F hFile w))"

text \<open>Opening a file and asking for its size, before either loop.\<close>

definition withFile :: "'w file_api \<Rightarrow> string \<Rightarrow> wstr \<Rightarrow> (nat \<Rightarrow> u64 \<Rightarrow> ('a Result, 'w) io) \<Rightarrow> ('a Result, 'w) io" where
  "withFile F purpose filePath body w =
     (case OpenForReading F filePath w of
        (None, w) \<Rightarrow>
          Done (Inl (fromWin32 FileNotFound (LastError F w) (''Failed to open file for '' @ purpose)), w)
      | (Some hFile, w) \<Rightarrow>
          (case GetFileSizeEx F hFile w of
             None \<Rightarrow>
               (let w = CloseFile F hFile w in
                Done (Inl (fromWin32 ImageReadError (LastError F w) ''Failed to get file size''), w))
           | Some fileSize \<Rightarrow> body hFile fileSize w))"

definition hashChunk :: "'w bcrypt \<Rightarrow> BcryptHasher \<Rightarrow> unit \<Rightarrow> bytes \<Rightarrow> (unit Result, 'w) io" where
  "hashChunk B hasher _ data = hasher_update B hasher data"

definition hashFileGeneric :: "'w bcrypt \<Rightarrow> 'w file_api \<Rightarrow> string \<Rightarrow> wstr \<Rightarrow> 'w hash_progress \<Rightarrow> (bytes Result, 'w) io" where
  "hashFileGeneric B F algorithmId filePath progressCb =
     withFile F ''hashing'' filePath (\<lambda>hFile fileSize.
     withHasher B algorithmId (CloseFile F hFile) (\<lambda>hasher.
     io_try (fileLoop F progressCb ''Hash'' (hashChunk B hasher) hFile fileSize ()) (\<lambda>_.
       hasher_finish B hasher (unat (bh_hashLength hasher)))))"

record 'a range_loop =
  rl_acc :: 'a
  rl_lba :: u64
  rl_remaining :: u64
  rl_processed :: u64

definition chunkSectors :: "u32 \<Rightarrow> u64 \<Rightarrow> u64" where
  "chunkSectors ss remaining =
     (let sectorsPerChunk = ucast (IMAGE_CHUNK_SIZE div ss) in
      if remaining > sectorsPerChunk then sectorsPerChunk else remaining)"

definition rangeStep :: "'w Win32 \<Rightarrow> 'w hash_progress \<Rightarrow> string \<Rightarrow> ('a \<Rightarrow> bytes \<Rightarrow> ('a Result, 'w) io) \<Rightarrow> RawDiskHandle \<Rightarrow> u32 \<Rightarrow>
    u64 \<Rightarrow> 'a range_loop \<Rightarrow> ('a range_loop Result, 'w) io" where
  "rangeStep W progressCb name chunk disk ss totalBytes st w =
     (let n = chunkSectors ss (rl_remaining st) in
      case readSectors W disk (rl_lba st) n ss w of
        Inl e \<Rightarrow> Done (Inl e, w)
      | Inr data \<Rightarrow>
          io_try (chunk (rl_acc st) data) (\<lambda>a w.
            let processed = rl_processed st + of_nat (length data) in
            case progressCb processed totalBytes w of
              (False, w) \<Rightarrow> Done (fail OperationCanceled (name @ '' operation canceled by user''), w)
            | (True, w) \<Rightarrow>
                Done (Inr \<lparr>rl_acc = a, rl_lba = rl_lba st + n, rl_remaining = rl_remaining st - n,
                  rl_processed = processed\<rparr>, w)) w)"

definition rangeLoop :: "'w Win32 \<Rightarrow> 'w hash_progress \<Rightarrow> string \<Rightarrow> ('a \<Rightarrow> bytes \<Rightarrow> ('a Result, 'w) io) \<Rightarrow> RawDiskHandle \<Rightarrow> u64 \<Rightarrow>
    u64 \<Rightarrow> u32 \<Rightarrow> 'a \<Rightarrow> ('a Result, 'w) io" where
  "rangeLoop W progressCb name chunk disk startLba sectorCount ss a =
     (\<lambda>w. require (ss \<noteq> 0)
       (io_try (io_while (\<lambda>st. rl_remaining st > 0)
                  (rangeStep W progressCb name chunk disk ss (sectorCount * ucast ss))
                  \<lparr>rl_acc = a, rl_lba = startLba, rl_remaining = sectorCount, rl_processed = 0\<rparr>)
          (\<lambda>st. io_return (Inr (rl_acc st))) w))"

definition hashDiskRangeGeneric :: "'w bcrypt \<Rightarrow> 'w Win32 \<Rightarrow> string \<Rightarrow> RawDiskHandle \<Rightarrow> u64 \<Rightarrow> u64 \<Rightarrow> u32 \<Rightarrow> 'w hash_progress \<Rightarrow>
    (bytes Result, 'w) io" where
  "hashDiskRangeGeneric B W algorithmId disk startLba sectorCount ss progressCb w =
     (if rh_handle disk = None then Done (fail DiskReadError ''Invalid disk handle'', w)
      else if sectorCount = 0 then Done (fail InvalidArgument ''Cannot hash zero sectors'', w)
      else
        withHasher B algorithmId id (\<lambda>hasher.
        io_try (rangeLoop W progressCb ''Hash'' (hashChunk B hasher) disk startLba sectorCount ss ()) (\<lambda>_.
          hasher_finish B hasher (unat (bh_hashLength hasher)))) w)"

section \<open>SHA-256 and MD5\<close>

text \<open>The fixed-size array that a hash is copied to, if it is long enough.\<close>

definition fixedHash :: "nat \<Rightarrow> bytes \<Rightarrow> bytes" where
  "fixedHash n vec = (if n \<le> length vec then take n vec else replicate n 0)"

text \<open>A buffer is a pointer, null or to \<open>n\<close> bytes at least, with a length.\<close>

definition hashBuffer :: "'w bcrypt \<Rightarrow> string \<Rightarrow> nat \<Rightarrow> bytes option \<Rightarrow> nat \<Rightarrow> (bytes Result, 'w) io" where
  "hashBuffer B algorithmId hashSize data n w =
     (if data = None \<and> n > 0 then Done (fail InvalidArgument ''Null data pointer with non-zero length'', w)
      else
        withHasher B algorithmId id (\<lambda>hasher.
        io_try (if n > 0 then hasher_update B hasher (take n (the data)) else io_return ok) (\<lambda>_.
          hasher_finish B hasher hashSize)) w)"

definition sha256Buffer :: "'w bcrypt \<Rightarrow> bytes option \<Rightarrow> nat \<Rightarrow> (bytes Result, 'w) io" where
  "sha256Buffer B = hashBuffer B BCRYPT_SHA256_ALGORITHM 32"

definition sha256File :: "'w bcrypt \<Rightarrow> 'w file_api \<Rightarrow> wstr \<Rightarrow> 'w hash_progress \<Rightarrow> (bytes Result, 'w) io" where
  "sha256File B F filePath progressCb =
     io_try (hashFileGeneric B F BCRYPT_SHA256_ALGORITHM filePath progressCb) (\<lambda>v. io_return (Inr (fixedHash 32 v)))"

definition sha256DiskRange :: "'w bcrypt \<Rightarrow> 'w Win32 \<Rightarrow> RawDiskHandle \<Rightarrow> u64 \<Rightarrow> u64 \<Rightarrow> u32 \<Rightarrow> 'w hash_progress \<Rightarrow> (bytes Result, 'w) io" where
  "sha256DiskRange B W disk startLba sectorCount ss progressCb =
     io_try (hashDiskRangeGeneric B W BCRYPT_SHA256_ALGORITHM disk startLba sectorCount ss progressCb)
       (\<lambda>v. io_return (Inr (fixedHash 32 v)))"

definition md5Buffer :: "'w bcrypt \<Rightarrow> bytes option \<Rightarrow> nat \<Rightarrow> (bytes Result, 'w) io" where
  "md5Buffer B = hashBuffer B BCRYPT_MD5_ALGORITHM 16"

definition md5File :: "'w bcrypt \<Rightarrow> 'w file_api \<Rightarrow> wstr \<Rightarrow> 'w hash_progress \<Rightarrow> (bytes Result, 'w) io" where
  "md5File B F filePath progressCb =
     io_try (hashFileGeneric B F BCRYPT_MD5_ALGORITHM filePath progressCb) (\<lambda>v. io_return (Inr (fixedHash 16 v)))"

definition md5DiskRange :: "'w bcrypt \<Rightarrow> 'w Win32 \<Rightarrow> RawDiskHandle \<Rightarrow> u64 \<Rightarrow> u64 \<Rightarrow> u32 \<Rightarrow> 'w hash_progress \<Rightarrow> (bytes Result, 'w) io" where
  "md5DiskRange B W disk startLba sectorCount ss progressCb =
     io_try (hashDiskRangeGeneric B W BCRYPT_MD5_ALGORITHM disk startLba sectorCount ss progressCb)
       (\<lambda>v. io_return (Inr (fixedHash 16 v)))"

section \<open>CRC-32\<close>

abbreviation (input) kCrc32Polynomial :: u32 where "kCrc32Polynomial \<equiv> 0xEDB88320"

fun crcBits :: "nat \<Rightarrow> u32 \<Rightarrow> u32" where
  "crcBits 0 crc = crc"
| "crcBits (Suc n) crc =
     crcBits n (if crc AND 1 \<noteq> 0 then drop_bit 1 crc XOR kCrc32Polynomial else drop_bit 1 crc)"

definition kCrc32Table :: "u32 list" where
  "kCrc32Table = map (\<lambda>i. crcBits 8 (of_nat i)) [0..<256]"

fun crc32Bytes :: "u32 \<Rightarrow> bytes \<Rightarrow> u32" where
  "crc32Bytes crc [] = crc"
| "crc32Bytes crc (b # bs) =
     (let tableIndex = ucast (crc XOR ucast b) :: u8
      in crc32Bytes (drop_bit 8 crc XOR kCrc32Table ! unat tableIndex) bs)"

definition crc32Update :: "u32 \<Rightarrow> bytes \<Rightarrow> u32" where
  "crc32Update previousCrc data = crc32Bytes (previousCrc XOR 0xFFFFFFFF) data XOR 0xFFFFFFFF"

definition crc32Buffer :: "bytes \<Rightarrow> u32" where
  "crc32Buffer data = crc32Update 0 data"

definition crcChunk :: "u32 \<Rightarrow> bytes \<Rightarrow> (u32 Result, 'w) io" where
  "crcChunk crc data = io_return (Inr (crc32Update crc data))"

definition crc32File :: "'w file_api \<Rightarrow> wstr \<Rightarrow> 'w hash_progress \<Rightarrow> (u32 Result, 'w) io" where
  "crc32File F filePath progressCb =
     withFile F ''CRC32'' filePath (\<lambda>hFile fileSize. fileLoop F progressCb ''CRC32'' crcChunk hFile fileSize 0)"

definition crc32DiskRange :: "'w Win32 \<Rightarrow> RawDiskHandle \<Rightarrow> u64 \<Rightarrow> u64 \<Rightarrow> u32 \<Rightarrow> 'w hash_progress \<Rightarrow> (u32 Result, 'w) io" where
  "crc32DiskRange W disk startLba sectorCount ss progressCb w =
     (if rh_handle disk = None then Done (fail DiskReadError ''Invalid disk handle'', w)
      else if sectorCount = 0 then Done (fail InvalidArgument ''Cannot CRC32 zero sectors'', w)
      else rangeLoop W progressCb ''CRC32'' crcChunk disk startLba sectorCount ss 0 w)"

end
