(* ===== verification/Checksum_Correct.thy ===== *)
theory Checksum_Correct
  imports Checksums
begin

text \<open>
  Correctness of the checksums: the two CRC-32 implementations of the program agree, a checksum computed in
  chunks is that of the whole, for sector ranges and files alike, and files are closed on every path. What
  the hashes need of the hashing library is stated over a view of the world that shows the bytes each hash
  has absorbed.
\<close>

section \<open>CRC-32\<close>

lemma crcBits_steps: "crcBits n crc = (crc_step ^^ n) crc"
proof (induction n arbitrary: crc)
  case (Suc n)
  have "crcBits (Suc n) crc = crcBits n (crc_step crc)" by (simp add: crc_step_def)
  then show ?case using Suc.IH by (simp add: funpow_swap1)
qed simp

lemma kCrc32Table: "kCrc32Table = buildCrc32Table"
  by (simp add: kCrc32Table_def buildCrc32Table_def crcBits_steps)

lemma ucast_and_255: "unat (ucast (x :: u32) :: u8) = unat (x AND 0xFF)"
proof -
  have "x AND 0xFF = take_bit 8 x" by (simp add: take_bit_eq_mask mask_eq_exp_minus_1)
  then show ?thesis by (simp add: unsigned_ucast_eq unsigned_take_bit_eq)
qed

lemma crc32Bytes_loop: "crc32Bytes crc data = crc32_loop buildCrc32Table crc data"
  by (induction data arbitrary: crc) (simp_all add: kCrc32Table ucast_and_255 Let_def xor.commute)

lemma crc32_loop_append: "crc32_loop t crc (a @ b) = crc32_loop t (crc32_loop t crc a) b"
  by (induction a arbitrary: crc) simp_all

lemma xor_mask_twice: "(x XOR m) XOR m = (x :: u32)"
  by (simp add: xor.assoc)

text \<open>
  The CRC-32 of the imaging code is the one of the partition table code, and it can be computed in
  pieces: updating the CRC of one block with another gives the CRC of both.
\<close>

lemma crc32Buffer_crc32: "crc32Buffer data = crc32 data"
  by (simp add: crc32Update_def crc32Buffer_def crc32Bytes_loop crc32_def)

lemma crc32Update_step: "crc32Update (crc32 a) b = crc32 (a @ b)"
  by (simp add: crc32Update_def xor_mask_twice crc32_def crc32Bytes_loop crc32_loop_append)

section \<open>Views\<close>

text \<open>
  What can be seen of the world: disks, files by name, the bytes that are still to be read from each open
  file, the algorithm of each open provider, and the algorithm and the bytes absorbed of each hash.
\<close>

record 'w sum_view =
  sv_disks :: "'w win_view"
  sv_named :: "'w \<Rightarrow> wstr \<Rightarrow> bytes option"
  sv_files :: "'w \<Rightarrow> nat \<Rightarrow> bytes option"
  sv_algorithms :: "'w \<Rightarrow> nat \<Rightarrow> string option"
  sv_hashes :: "'w \<Rightarrow> nat \<Rightarrow> (string \<times> bytes) option"

definition same_storage :: "'w sum_view \<Rightarrow> 'w \<Rightarrow> 'w \<Rightarrow> bool" where
  "same_storage V w w' \<longleftrightarrow> contents (sv_disks V) w' = contents (sv_disks V) w \<and>
     handles (sv_disks V) w' = handles (sv_disks V) w \<and> sv_files V w' = sv_files V w"

lemma same_storage_trans: "same_storage V w w' \<Longrightarrow> same_storage V w' w'' \<Longrightarrow> same_storage V w w''"
  by (simp add: same_storage_def)

definition bcrypt_laws :: "'w bcrypt \<Rightarrow> 'w sum_view \<Rightarrow> (string \<Rightarrow> bytes \<Rightarrow> bytes) \<Rightarrow> bool" where
  "bcrypt_laws B V D \<longleftrightarrow>
     (\<forall>alg w r w'. BCryptOpenAlgorithmProvider B alg w = (r, w') \<longrightarrow> same_storage V w w' \<and>
        (\<forall>a. r = Some a \<longrightarrow> sv_algorithms V w' a = Some alg)) \<and>
     (\<forall>a alg n w. BCryptHashLength B a w = Some n \<longrightarrow> sv_algorithms V w a = Some alg \<longrightarrow>
        (\<forall>bs. length (D alg bs) = unat n)) \<and>
     (\<forall>a n w r w'. BCryptCreateHash B a n w = (r, w') \<longrightarrow> same_storage V w w' \<and>
        (\<forall>h alg. r = Some h \<longrightarrow> sv_algorithms V w a = Some alg \<longrightarrow> sv_hashes V w' h = Some (alg, []))) \<and>
     (\<forall>h d w r w'. BCryptHashData B (Some h) d w = (r, w') \<longrightarrow> same_storage V w w' \<and>
        (\<forall>alg bs. r \<longrightarrow> sv_hashes V w h = Some (alg, bs) \<longrightarrow> sv_hashes V w' h = Some (alg, bs @ d))) \<and>
     (\<forall>h n w r w' alg bs. BCryptFinishHash B (Some h) n w = (Some r, w') \<longrightarrow> sv_hashes V w h = Some (alg, bs) \<longrightarrow>
        r = D alg bs)"

text \<open>A progress callback that touches neither storage nor hashes.\<close>

definition mere_progress :: "'w sum_view \<Rightarrow> 'w hash_progress \<Rightarrow> bool" where
  "mere_progress V cb \<longleftrightarrow>
     (\<forall>m n w r w'. cb m n w = (r, w') \<longrightarrow> same_storage V w w' \<and> sv_hashes V w' = sv_hashes V w)"

text \<open>A read from a file takes what it delivers off the front of what is left, and delivers nothing only at the end.\<close>

definition file_laws :: "'w file_api \<Rightarrow> 'w sum_view \<Rightarrow> bool" where
  "file_laws F V \<longleftrightarrow>
     (\<forall>h n w d w' left. ReadNext F h n w = (Some d, w') \<longrightarrow> sv_files V w h = Some left \<longrightarrow>
        (\<exists>left'. left = d @ left' \<and> sv_files V w' = (sv_files V w)(h := Some left') \<and> (n \<noteq> 0 \<longrightarrow> d = [] \<longrightarrow> left = []) \<and>
           length d \<le> unat n \<and> sv_hashes V w' = sv_hashes V w)) \<and>
     (\<forall>h n w w'. ReadNext F h n w = (None, w') \<longrightarrow> (\<forall>k. k \<noteq> h \<longrightarrow> sv_files V w' k = sv_files V w k)) \<and>
     (\<forall>path w h w'. OpenForReading F path w = (Some h, w') \<longrightarrow>
        sv_files V w h = None \<and> (\<exists>c. sv_named V w path = Some c \<and> sv_files V w' = (sv_files V w)(h \<mapsto> c))) \<and>
     (\<forall>path w w'. OpenForReading F path w = (None, w') \<longrightarrow> sv_files V w' = sv_files V w) \<and>
     (\<forall>h w. sv_files V (CloseFile F h w) = (sv_files V w)(h := None) \<and> sv_hashes V (CloseFile F h w) = sv_hashes V w)"

lemma file_lawsD:
  assumes "file_laws F V"
  shows "ReadNext F h n w = (Some d, w') \<Longrightarrow> sv_files V w h = Some left \<Longrightarrow>
      \<exists>left'. left = d @ left' \<and> sv_files V w' = (sv_files V w)(h := Some left') \<and> (n \<noteq> 0 \<longrightarrow> d = [] \<longrightarrow> left = []) \<and>
        length d \<le> unat n \<and> sv_hashes V w' = sv_hashes V w"
    and "ReadNext F h n w = (None, w') \<Longrightarrow> k \<noteq> h \<Longrightarrow> sv_files V w' k = sv_files V w k"
    and "OpenForReading F path w = (Some h, w') \<Longrightarrow>
      sv_files V w h = None \<and> (\<exists>c. sv_named V w path = Some c \<and> sv_files V w' = (sv_files V w)(h \<mapsto> c))"
    and "OpenForReading F path w = (None, w') \<Longrightarrow> sv_files V w' = sv_files V w"
    and "sv_files V (CloseFile F h w) = (sv_files V w)(h := None)" "sv_hashes V (CloseFile F h w) = sv_hashes V w"
  using assms unfolding file_laws_def by blast+

section \<open>Consumers of chunks\<close>

lemma slice_append_slice: "slice a m xs @ slice (a + m) n xs = slice a (m + n) xs"
  by (simp add: slice_def take_add add.commute)

text \<open>
  The contract between the read loops and what they feed: \<open>absorbs w a bs\<close> says that the accumulator \<open>a\<close>
  stands for the bytes \<open>bs\<close> in the world \<open>w\<close>. A chunk that is taken is appended; the storage is left
  alone, and what has been absorbed depends on the hashes only.
\<close>

locale chunk_consumer =
  fixes V :: "'w sum_view" and chunk :: "'a \<Rightarrow> bytes \<Rightarrow> ('a Result, 'w) io" and absorbs :: "'w \<Rightarrow> 'a \<Rightarrow> bytes \<Rightarrow> bool"
  assumes absorb: "absorbs w a bs \<Longrightarrow> length d < 2 ^ 32 \<Longrightarrow> chunk a d w = Done (Inr a', w') \<Longrightarrow> absorbs w' a' (bs @ d)"
    and storage: "chunk a d w = Done (r, w') \<Longrightarrow> same_storage V w w'"
    and frame: "sv_hashes V w' = sv_hashes V w \<Longrightarrow> absorbs w' a bs = absorbs w a bs"
begin

lemma range_step:
  assumes "rangeStep W cb name chunk disk ss tot st w = Done (Inr st', w')" "mere_progress V cb"
    and "absorbs w (rl_acc st) bs" "content_laws W (sv_disks V)" "rh_handle disk = Some h"
    and "handles (sv_disks V) w h = Some (OnDisk d rw)" "chunkSectors ss (rl_remaining st) = n"
  shows "absorbs w' (rl_acc st') (bs @ slice (unat (rl_lba st * ucast ss)) (unat (n * ucast ss)) (contents (sv_disks V) w d)) \<and>
    rl_lba st' = rl_lba st + n \<and> rl_remaining st' = rl_remaining st - n \<and> same_storage V w w'"
proof -
  from assms(1,7) obtain data a w1 where
    rd: "readSectors W disk (rl_lba st) n ss w = Inr data" and ch: "chunk (rl_acc st) data w = Done (Inr a, w1)" and
    after: "(case cb (rl_processed st + of_nat (length data)) tot w1 of
       (False, w) \<Rightarrow> Done (fail OperationCanceled (name @ '' operation canceled by user''), w)
     | (True, w) \<Rightarrow> Done (Inr \<lparr>rl_acc = a, rl_lba = rl_lba st + n, rl_remaining = rl_remaining st - n,
         rl_processed = rl_processed st + of_nat (length data)\<rparr>, w)) = Done (Inr st', w')"
    by (auto simp: rangeStep_def Let_def io_try_Done split: sum.splits)
  obtain b w2 where "cb (rl_processed st + of_nat (length data)) tot w1 = (b, w2)" by fastforce
  with after have cb: "cb (rl_processed st + of_nat (length data)) tot w1 = (True, w')" and
    st': "rl_acc st' = a" "rl_lba st' = rl_lba st + n" "rl_remaining st' = rl_remaining st - n"
    by (auto split: bool.splits)
  note data = readSectors_slice [OF assms(4-6) rd]
  have "length data < 2 ^ 32"
  proof (cases "n = 0")
    case True
    then show ?thesis using data by (simp add: slice_def)
  next
    case False
    then have "\<not> MAXDWORD < n * ucast ss" using rd assms(5) by (auto simp: readSectors_def Let_def split: if_splits)
    then have "unat (n * ucast ss) < 2 ^ 32" by (simp add: word_less_nat_alt)
    then show ?thesis using data by (simp add: slice_def)
  qed
  then have "absorbs w1 a (bs @ data)" by (rule absorb [OF assms(3) _ ch])
  moreover have "same_storage V w1 w'" "sv_hashes V w' = sv_hashes V w1"
    using assms(2) cb unfolding mere_progress_def by blast+
  ultimately show ?thesis
    using st' data storage [OF ch] frame [of w' w1 a] by (simp add: same_storage_def)
qed

lemma range_loop:
  assumes run: "rangeLoop W cb name chunk disk start count ss a w = Done (Inr a', w')" and "mere_progress V cb"
    and "absorbs w a []" "content_laws W (sv_disks V)" "rh_handle disk = Some h" "handles (sv_disks V) w h = Some (OnDisk d rw)"
    and "(unat start + unat count) * unat ss < 2 ^ 64"
  shows "absorbs w' a' (slice (unat start * unat ss) (unat count * unat ss) (contents (sv_disks V) w d))"
proof -
  let ?C = "contents (sv_disks V) w d" and ?s = "unat ss"
  let ?I = "\<lambda>st v. \<exists>k. k + unat (rl_remaining st) = unat count \<and> unat (rl_lba st) = unat start + k \<and>
    same_storage V w v \<and> absorbs v (rl_acc st) (slice (unat start * ?s) (k * ?s) ?C)"
  have mul: "unat (x * ucast ss :: u64) = unat x * ?s" if "unat x \<le> unat start + unat count" for x
    using that assms(7) le_less_trans [OF mult_le_mono1 [OF that, of ?s]]
    by (subst unat_mult_lem [THEN iffD1]) (simp_all add: unat_ucast_32_64)
  have pos: "0 < ?s" using run by (auto simp: rangeLoop_def require_Done_iff unat_gt_0)
  from run obtain st where
    loop: "io_while (\<lambda>st. rl_remaining st > 0) (rangeStep W cb name chunk disk ss (count * ucast ss))
      \<lparr>rl_acc = a, rl_lba = start, rl_remaining = count, rl_processed = 0\<rparr> w = Done (Inr st, w')" and a': "a' = rl_acc st"
    by (auto simp: rangeLoop_def require_Done_iff io_try_Done io_return_Done)
  have "case (Inr st :: 'a range_loop Result) of Inl e \<Rightarrow> True | Inr s' \<Rightarrow> ?I s' w' \<and> \<not> rl_remaining s' > 0"
  proof (rule io_while_invariant [OF loop, where I = ?I and Q = "\<lambda>_ _. True"])
    show "?I \<lparr>rl_acc = a, rl_lba = start, rl_remaining = count, rl_processed = 0\<rparr> w"
      using assms(3) by (simp add: same_storage_def slice_def)
  next
    fix s v s' v'
    assume I: "?I s v" and go: "0 < rl_remaining s" and step: "rangeStep W cb name chunk disk ss (count * ucast ss) s v = Done (Inr s', v')"
    from I obtain k where k: "k + unat (rl_remaining s) = unat count" "unat (rl_lba s) = unat start + k" "same_storage V w v"
      "absorbs v (rl_acc s) (slice (unat start * ?s) (k * ?s) ?C)" by blast
    define n where "n = chunkSectors ss (rl_remaining s)"
    have le: "unat n \<le> unat (rl_remaining s)"
      by (auto simp: n_def chunkSectors_def Let_def word_less_nat_alt)
    have h: "handles (sv_disks V) v h = Some (OnDisk d rw)" "contents (sv_disks V) v d = ?C"
      using k(3) assms(6) by (simp_all add: same_storage_def)
    from range_step [OF step assms(2) k(4) assms(4,5) h(1) n_def [symmetric]] h(2)
    have st: "absorbs v' (rl_acc s') (slice (unat start * ?s) (k * ?s) ?C @ slice (unat (rl_lba s * ucast ss)) (unat (n * ucast ss)) ?C)"
      "rl_lba s' = rl_lba s + n" "rl_remaining s' = rl_remaining s - n" "same_storage V v v'" by simp_all
    have "unat (rl_lba s * ucast ss) = (unat start + k) * ?s" using mul [of "rl_lba s"] k(1,2) by simp
    moreover have "unat (n * ucast ss) = unat n * ?s" using mul [of n] le k(1) by simp
    moreover have "slice (a * ?s) (k * ?s) ?C @ slice ((a + k) * ?s) (m * ?s) ?C = slice (a * ?s) ((k + m) * ?s) ?C" for a m
      by (simp add: slice_append_slice add_mult_distrib)
    ultimately have "absorbs v' (rl_acc s') (slice (unat start * ?s) ((k + unat n) * ?s) ?C)" using st(1) by simp
    moreover have "unat (rl_lba s') = unat start + (k + unat n)"
    proof -
      have "unat (rl_lba s) + unat n \<le> unat start + unat count" using le k(1,2) by simp
      also have "\<dots> \<le> (unat start + unat count) * ?s" using pos by simp
      finally show ?thesis using assms(7) st(2) k(2) by (simp add: unat_word_ariths)
    qed
    moreover have "unat (rl_remaining s') = unat (rl_remaining s) - unat n"
      using le st(3) by (simp add: unat_sub word_le_nat_alt)
    moreover have "same_storage V w v'" using k(3) st(4) by (simp add: same_storage_def)
    ultimately show "?I s' v'" using k(1) le by (intro exI [of _ "k + unat n"]) simp
  qed simp
  then show ?thesis using a' by (auto simp: word_gt_0)
qed

lemma file_step_cases:
  assumes "fileStep F cb name chunk h fileSize st w = Done (r, w')" "mere_progress V cb" "file_laws F V"
    and "sv_files V w h = Some left"
  obtains (eof) "r = Inr (st\<lparr>fl_eof := True\<rparr>)" "left = []" "sv_files V w' = sv_files V w" "sv_hashes V w' = sv_hashes V w"
    | (chunk) d left' w1 a w2 m where "left = d @ left'" "length d < 2 ^ 32" "sv_hashes V w1 = sv_hashes V w"
      "chunk (fl_acc st) d w1 = Done (Inr a, w2)" "sv_hashes V w' = sv_hashes V w2" "d \<noteq> []"
      "sv_files V w' = (sv_files V w)(h \<mapsto> left')" "r = Inr (st\<lparr>fl_acc := a, fl_totalRead := m\<rparr>)"
    | (error) e where "r = Inl e" "sv_files V w' = (sv_files V w)(h := None)"
proof -
  note close = file_lawsD(5) [OF assms(3)]
  obtain x w1 where rd: "ReadNext F h IMAGE_CHUNK_SIZE w = (x, w1)" by fastforce
  show thesis
  proof (cases x)
    case None
    then have "sv_files V w1 k = sv_files V w k" if "k \<noteq> h" for k using file_lawsD(2) [OF assms(3)] rd that by blast
    then have "sv_files V (CloseFile F h w1) = (sv_files V w)(h := None)" unfolding close by auto
    then show thesis using error assms(1) rd None by (auto simp: fileStep_def Let_def)
  next
    case (Some d)
    then obtain left' where l: "left = d @ left'" "sv_files V w1 = (sv_files V w)(h \<mapsto> left')" "d = [] \<longrightarrow> left = []"
      "length d \<le> unat IMAGE_CHUNK_SIZE" "sv_hashes V w1 = sv_hashes V w"
      using file_lawsD(1) [OF assms(3) rd [unfolded Some] assms(4)] by auto
    show thesis
    proof (cases "d = []")
      case True
      then show thesis using eof assms(1,4) rd Some l by (auto simp: fileStep_def fun_eq_iff)
    next
      case False
      let ?m = "fl_totalRead st + of_nat (length d)"
      obtain y w2 where ch: "chunk (fl_acc st) d w1 = Done (y, w2)"
        using assms(1) rd Some False by (auto simp: fileStep_def run_bind_Done_iff)
      then have f2: "sv_files V w2 = sv_files V w1" using storage [OF ch] by (simp add: same_storage_def)
      show thesis
      proof (cases y)
        case (Inl e)
        then show thesis using error assms(1) rd Some False ch f2 l(2) close by (auto simp: fileStep_def)
      next
        case (Inr a)
        obtain b w3 where cb: "cb ?m fileSize w2 = (b, w3)" by fastforce
        then have f3: "sv_files V w3 = sv_files V w2" "sv_hashes V w3 = sv_hashes V w2"
          using assms(2) unfolding mere_progress_def same_storage_def by blast+
        show thesis
        proof (cases b)
          case True
          then have "r = Inr (st\<lparr>fl_acc := a, fl_totalRead := ?m\<rparr>)" "w' = w3"
            using assms(1) rd Some False ch Inr cb by (auto simp: fileStep_def Let_def)
          then show thesis using chunk [OF l(1) _ l(5) ch [unfolded Inr]] l(2,4) False f2 f3 by simp
        next
          case False
          then show thesis using error assms(1) rd Some \<open>d \<noteq> []\<close> ch Inr cb close l(2) f2 f3
            by (auto simp: fileStep_def Let_def)
        qed
      qed
    qed
  qed
qed

lemma file_loop:
  assumes run: "fileLoop F cb name chunk h fileSize a w = Done (r, w')" and "mere_progress V cb" "file_laws F V"
    and "sv_files V w h = Some left"
  shows "sv_files V w' = (sv_files V w)(h := None)" "r = Inr a' \<Longrightarrow> absorbs w a [] \<Longrightarrow> absorbs w' a' left"
proof -
  let ?I = "\<lambda>st v. \<exists>bs rest. left = bs @ rest \<and> sv_files V v = (sv_files V w)(h \<mapsto> rest) \<and>
    (absorbs w a [] \<longrightarrow> absorbs v (fl_acc st) bs) \<and> (fl_eof st \<longrightarrow> rest = [])"
  let ?st = "\<lparr>fl_acc = a, fl_totalRead = 0, fl_eof = False\<rparr>"
  let ?Q = "\<lambda>_ :: ErrorInfo. \<lambda>v. sv_files V v = (sv_files V w)(h := None)"
  from run obtain x v where loop: "io_while (\<lambda>st. \<not> fl_eof st) (fileStep F cb name chunk h fileSize) ?st w = Done (x, v)"
    and fin: "case x of Inl e \<Rightarrow> r = Inl e \<and> w' = v | Inr st \<Rightarrow> r = Inr (fl_acc st) \<and> w' = CloseFile F h v"
    by (auto simp: fileLoop_def io_try_Done)
  have step: "case y of Inl e \<Rightarrow> ?Q e v' | Inr s' \<Rightarrow> ?I s' v'"
    if I: "?I s v" and t: "\<not> fl_eof s" and st: "fileStep F cb name chunk h fileSize s v = Done (y, v')" for s v y v'
  proof -
    from I obtain bs rest where b: "left = bs @ rest" "sv_files V v = (sv_files V w)(h \<mapsto> rest)"
      "absorbs w a [] \<longrightarrow> absorbs v (fl_acc s) bs" by blast
    from b(2) have "sv_files V v h = Some rest" by simp
    with st assms(2,3) show ?thesis
    proof (cases rule: file_step_cases)
      case eof
      with b frame [of v' v "fl_acc s" bs] show ?thesis by auto
    next
      case (chunk d left' w1 a' w2 m)
      have "absorbs v' a' (bs @ d)" if "absorbs w a []"
        using absorb [OF _ chunk(2,4), of bs] that b(3) frame [OF chunk(3), of "fl_acc s" bs] frame [OF chunk(5), of a' "bs @ d"]
        by simp
      moreover have "left = (bs @ d) @ left'" "sv_files V v' = (sv_files V w)(h \<mapsto> left')" using b chunk(1,7) by simp_all
      ultimately have "?I (s\<lparr>fl_acc := a', fl_totalRead := m\<rparr>) v'" using t
        by (intro exI [of _ "bs @ d"] exI [of _ left']) simp
      then show ?thesis by (simp add: chunk(8))
    next
      case (error e)
      with b show ?thesis by simp
    qed
  qed
  have "case x of Inl e \<Rightarrow> ?Q e v | Inr s' \<Rightarrow> ?I s' v \<and> \<not> \<not> fl_eof s'"
  proof (rule io_while_invariant [OF loop, where I = ?I and Q = ?Q])
    show "?I ?st w" using assms(4) by (intro exI [of _ "[]"] exI [of _ left]) (simp add: fun_upd_idem)
  next
    fix s v s' v'
    assume "?I s v" "\<not> fl_eof s" "fileStep F cb name chunk h fileSize s v = Done (Inr s', v')"
    from step [OF this] show "?I s' v'" by simp
  next
    fix s v e v'
    assume "?I s v" "\<not> fl_eof s" "fileStep F cb name chunk h fileSize s v = Done (Inl e, v')"
    from step [OF this] show "?Q e v'" by simp
  qed
  moreover have "sv_files V (CloseFile F h v) = (sv_files V v)(h := None)" "sv_hashes V (CloseFile F h v) = sv_hashes V v"
    using file_lawsD(5,6) [OF assms(3)] by simp_all
  ultimately show "sv_files V w' = (sv_files V w)(h := None)" "r = Inr a' \<Longrightarrow> absorbs w a [] \<Longrightarrow> absorbs w' a' left"
    using fin frame [of w' v a' left] by (auto split: sum.splits)
qed

end

text \<open>The CRC-32 is a consumer, over any world.\<close>

interpretation crc: chunk_consumer V crcChunk "\<lambda>_ crc bs. crc = crc32 bs" for V
  by unfold_locales (auto simp: crcChunk_def io_return_Done crc32Update_step same_storage_def)

lemma crc32_Nil: "crc32 [] = 0"
  by (simp add: crc32_def)

section \<open>Checksums of sector ranges\<close>

lemma crc32DiskRange_bytes:
  assumes "crc32DiskRange W disk start count ss cb w = Done (Inr crc, w')" "mere_progress V cb"
    and "content_laws W (sv_disks V)" "rh_handle disk = Some h" "handles (sv_disks V) w h = Some (OnDisk d rw)"
    and "(unat start + unat count) * unat ss < 2 ^ 64"
  shows "crc = crc32 (slice (unat start * unat ss) (unat count * unat ss) (contents (sv_disks V) w d))"
proof -
  have "rangeLoop W cb ''CRC32'' crcChunk disk start count ss 0 w = Done (Inr crc, w')"
    using assms(1,4) by (simp add: crc32DiskRange_def split: if_splits)
  from crc.range_loop [OF this assms(2) crc32_Nil [symmetric] assms(3-6)] show ?thesis .
qed

text \<open>The loop over a range ends if a sector fits a chunk.\<close>

lemma chunkSectors_bounds:
  assumes "ss \<noteq> 0" "ss \<le> 4194304" "0 < n"
  shows "0 < unat (chunkSectors ss n)" "unat (chunkSectors ss n) \<le> unat n" "unat (chunkSectors ss n) * unat ss \<le> 4194304"
proof -
  have s: "0 < unat ss" "unat ss \<le> 4194304" using assms(1,2) by (simp_all add: unat_gt_0 word_le_nat_alt)
  have c: "unat (ucast (IMAGE_CHUNK_SIZE div ss) :: u64) = 4194304 div unat ss" by (simp add: unat_div unat_ucast_32_64)
  have "0 < 4194304 div unat ss" using s by (simp add: div_greater_zero_iff)
  then show "0 < unat (chunkSectors ss n)" "unat (chunkSectors ss n) \<le> unat n"
    using assms(3) c by (auto simp: chunkSectors_def Let_def word_less_nat_alt)
  have "unat (chunkSectors ss n) \<le> 4194304 div unat ss"
    using c by (auto simp: chunkSectors_def Let_def word_less_nat_alt)
  then show "unat (chunkSectors ss n) * unat ss \<le> 4194304"
    using s(1) by (simp add: less_eq_div_iff_mult_less_eq)
qed

lemma crc_range_works:
  assumes "mere_progress V cb" "\<And>m n w. fst (cb m n w)" "content_laws W (sv_disks V)" "disk_readable W (sv_disks V) d"
    and "rh_handle disk = Some h" "handles (sv_disks V) w h = Some (OnDisk d rw)" "ss \<noteq> 0" "ss \<le> 4194304"
    and "(unat start + unat count) * unat ss \<le> length (contents (sv_disks V) w d)"
    and "length (contents (sv_disks V) w d) < 2 ^ 64"
  shows "\<exists>crc w'. rangeLoop W cb ''CRC32'' crcChunk disk start count ss a w = Done (Inr crc, w')"
proof -
  let ?body = "rangeStep W cb ''CRC32'' crcChunk disk ss (count * ucast ss)" and ?s = "unat ss"
  let ?I = "\<lambda>st v. unat (rl_lba st) + unat (rl_remaining st) = unat start + unat count \<and> same_storage V w v"
  have pos: "0 < ?s" using assms(7) by (simp add: unat_gt_0)
  have "\<exists>s' w'. io_while (\<lambda>st. rl_remaining st > 0) ?body
      \<lparr>rl_acc = a, rl_lba = start, rl_remaining = count, rl_processed = 0\<rparr> w = Done (Inr s', w') \<and> ?I s' w' \<and> \<not> rl_remaining s' > 0"
  proof (rule io_while_total [where m = "\<lambda>st. unat (rl_remaining st)" and I = ?I])
    fix st :: "u32 range_loop" and v assume I: "?I st v" and go: "0 < rl_remaining st"
    define n where "n = chunkSectors ss (rl_remaining st)"
    note nb = chunkSectors_bounds [OF assms(7,8) go, folded n_def]
    have h: "handles (sv_disks V) v h = Some (OnDisk d rw)" "contents (sv_disks V) v d = contents (sv_disks V) w d"
      using I assms(6) by (simp_all add: same_storage_def)
    have le: "unat (rl_lba st) + unat n \<le> unat start + unat count" using I nb(2) by linarith
    have in': "(unat (rl_lba st) + unat n) * ?s \<le> length (contents (sv_disks V) w d)"
      using mult_le_mono1 [OF le, of ?s] assms(9) by linarith
    have ub: "unat (rl_lba st * ucast ss) = unat (rl_lba st) * ?s" "unat (n * ucast ss) = unat n * ?s"
      using in' assms(10) nb(3) by (subst unat_mult_lem [THEN iffD1]; simp add: unat_ucast_32_64 add_mult_distrib)+
    have "readSectors W disk (rl_lba st) n ss v =
        Inr (slice (unat (rl_lba st * ucast ss)) (unat (n * ucast ss)) (contents (sv_disks V) v d))"
      by (rule readSectors_works [OF assms(3,4,5) h(1)])
        (use in' nb(3) in \<open>simp_all add: ub h(2) add_mult_distrib\<close>)
    then obtain data where rd: "readSectors W disk (rl_lba st) n ss v = Inr data" by blast
    obtain b v' where cb: "cb (rl_processed st + of_nat (length data)) (count * ucast ss) v = (b, v')" by fastforce
    have "b" using assms(2) cb by (metis fst_conv)
    have "same_storage V v v'" using assms(1) cb unfolding mere_progress_def by blast
    with I have "same_storage V w v'" by (blast intro: same_storage_trans)
    have "?body st v = Done (Inr \<lparr>rl_acc = crc32Update (rl_acc st) data, rl_lba = rl_lba st + n, rl_remaining = rl_remaining st - n,
        rl_processed = rl_processed st + of_nat (length data)\<rparr>, v')"
      using rd cb \<open>b\<close> by (simp add: rangeStep_def Let_def n_def [symmetric] crcChunk_def io_try_def io_return_def)
    moreover have "unat (rl_lba st + n) = unat (rl_lba st) + unat n"
    proof -
      have "unat (rl_lba st) + unat n \<le> (unat (rl_lba st) + unat n) * ?s" using pos by simp
      from order_trans [OF this in']
      have "unat (rl_lba st) + unat n < 2 ^ 64" using assms(10) by (rule le_less_trans)
      then show ?thesis by (subst unat_add_lem [THEN iffD1]) simp_all
    qed
    moreover have "unat (rl_remaining st - n) = unat (rl_remaining st) - unat n"
      using nb(2) by (simp add: unat_sub word_le_nat_alt)
    ultimately show "\<exists>s' w'. ?body st v = Done (Inr s', w') \<and> ?I s' w' \<and> unat (rl_remaining s') < unat (rl_remaining st)"
      using I nb(1,2) \<open>same_storage V w v'\<close> by auto
  qed (simp add: same_storage_def)
  then show ?thesis using assms(7) by (auto simp: rangeLoop_def io_try_def io_return_def)
qed

text \<open>
  C31. The CRC-32 of a sector range is that of its bytes: with a callback that watches and goes on, on a disk
  that can be read, \<open>crc32DiskRange\<close> returns, in however many chunks, the CRC-32 of the bytes from the
  first to the last sector of the range. A sector must fit a chunk of four mebibytes.
\<close>

theorem crc32DiskRange_correct:
  assumes "mere_progress V cb" "\<And>m n w. fst (cb m n w)" "content_laws W (sv_disks V)" "disk_readable W (sv_disks V) d"
    and "rh_handle disk = Some h" "handles (sv_disks V) w h = Some (OnDisk d rw)" "ss \<noteq> 0" "ss \<le> 4194304" "count \<noteq> 0"
    and "(unat start + unat count) * unat ss \<le> length (contents (sv_disks V) w d)"
    and "length (contents (sv_disks V) w d) < 2 ^ 64"
  shows "\<exists>w'. crc32DiskRange W disk start count ss cb w =
    Done (Inr (crc32 (slice (unat start * unat ss) (unat count * unat ss) (contents (sv_disks V) w d))), w')"
proof -
  obtain crc w' where run: "crc32DiskRange W disk start count ss cb w = Done (Inr crc, w')"
    using crc_range_works [OF assms(1-8,10,11), where a = 0] assms(5,9) by (auto simp: crc32DiskRange_def)
  have "(unat start + unat count) * unat ss < 2 ^ 64" using assms(10,11) by linarith
  from crc32DiskRange_bytes [OF run assms(1,3,5,6) this] run show ?thesis by blast
qed

lemma bcrypt_lawsD:
  assumes "bcrypt_laws B V D"
  shows "BCryptOpenAlgorithmProvider B alg w = (r, w') \<Longrightarrow> same_storage V w w'"
    and "BCryptOpenAlgorithmProvider B alg w = (Some a, w') \<Longrightarrow> sv_algorithms V w' a = Some alg"
    and "BCryptHashLength B a w = Some n \<Longrightarrow> sv_algorithms V w a = Some alg \<Longrightarrow> length (D alg bs) = unat n"
    and "BCryptCreateHash B a k w = (r, w') \<Longrightarrow> same_storage V w w'"
    and "BCryptCreateHash B a k w = (Some h, w') \<Longrightarrow> sv_algorithms V w a = Some alg \<Longrightarrow> sv_hashes V w' h = Some (alg, [])"
    and "BCryptHashData B (Some h) d w = (ok', w') \<Longrightarrow> same_storage V w w'"
    and "BCryptHashData B (Some h) d w = (True, w') \<Longrightarrow> sv_hashes V w h = Some (alg, bs) \<Longrightarrow> sv_hashes V w' h = Some (alg, bs @ d)"
    and "BCryptFinishHash B (Some h) n w = (Some v, w') \<Longrightarrow> sv_hashes V w h = Some (alg, bs) \<Longrightarrow> v = D alg bs"
  using assms unfolding bcrypt_laws_def by (metis | blast)+

text \<open>So is a hash of the library, on the bytes it has absorbed.\<close>

lemma hash_consumer:
  assumes "bcrypt_laws B V D" "bh_hashHandle hasher = Some hh"
  shows "chunk_consumer V (hashChunk B hasher) (\<lambda>w _ bs. sv_hashes V w hh = Some (alg, bs))"
proof
  fix w a bs d a' w'
  assume "sv_hashes V w hh = Some (alg, bs)" "length (d :: bytes) < 2 ^ 32" "hashChunk B hasher a d w = Done (Inr a', w')"
  then show "sv_hashes V w' hh = Some (alg, bs @ d)"
    using bcrypt_lawsD(7) [OF assms(1)] assms(2)
    by (auto simp: hashChunk_def hasher_update_def unat_of_nat split: prod.splits bool.splits)
next
  fix a d w r w'
  assume "hashChunk B hasher a d w = Done (r, w')"
  then show "same_storage V w w'"
    using bcrypt_lawsD(6) [OF assms(1)] assms(2)
    by (auto simp: hashChunk_def hasher_update_def split: prod.splits bool.splits)
qed simp

lemma withHasher_Inr:
  assumes "bcrypt_laws B V D" "withHasher B alg failed body w = Done (Inr x, w')"
  obtains hasher hh w1 w2 where "bh_hashHandle hasher = Some hh" "same_storage V w w1" "sv_hashes V w1 hh = Some (alg, [])"
    "\<And>bs. length (D alg bs) = unat (bh_hashLength hasher)" "body hasher w1 = Done (Inr x, w2)"
proof -
  obtain r hasher w1 where i: "hasher_init B alg hasher_new w = (r, hasher, w1)" by (metis prod_cases3)
  obtain u where r: "r = Inr u" using assms(2) i by (cases r) (auto simp: withHasher_def)
  obtain a v n m hh where
    o: "BCryptOpenAlgorithmProvider B alg w = (Some a, v)" and n: "BCryptHashLength B a v = Some n" and
    c: "BCryptCreateHash B a m v = (Some hh, w1)" and h: "hasher = \<lparr>bh_algHandle = Some a, bh_hashHandle = Some hh, bh_hashLength = n\<rparr>"
    using i r by (auto simp: hasher_init_def hasher_new_def Let_def split: prod.splits option.splits)
  note alg = bcrypt_lawsD(2) [OF assms(1) o]
  have "same_storage V w w1"
    using same_storage_trans [OF bcrypt_lawsD(1) [OF assms(1) o] bcrypt_lawsD(4) [OF assms(1) c]] .
  moreover obtain w2 where "body hasher w1 = Done (Inr x, w2)"
    using assms(2) i r by (auto simp: withHasher_def run_bind_Done_iff)
  ultimately show thesis
    using that [of hasher hh w1 w2] h bcrypt_lawsD(3) [OF assms(1) n alg] bcrypt_lawsD(5) [OF assms(1) c alg] by simp
qed

lemma hasher_finish_Inr:
  assumes "bcrypt_laws B V D" "bh_hashHandle hasher = Some hh" "sv_hashes V w hh = Some (alg, bs)"
    and "hasher_finish B hasher n w = Done (Inr v, w')"
  shows "v = blit 0 (D alg bs) (replicate n 0)"
  using assms(4) bcrypt_lawsD(8) [OF assms(1) _ assms(3)]
  by (auto simp: hasher_finish_def assms(2) split: if_splits prod.splits option.splits)

lemma blit_all: "length a = n \<Longrightarrow> blit 0 a (replicate n 0) = a"
  by (simp add: blit_def)

lemma hashDiskRange_bytes:
  assumes "bcrypt_laws B V D" "mere_progress V cb" "content_laws W (sv_disks V)" "rh_handle disk = Some h"
    and "handles (sv_disks V) w h = Some (OnDisk d rw)" "(unat start + unat count) * unat ss < 2 ^ 64"
    and "hashDiskRangeGeneric B W alg disk start count ss cb w = Done (Inr v, w')"
  shows "v = D alg (slice (unat start * unat ss) (unat count * unat ss) (contents (sv_disks V) w d))"
proof -
  have "withHasher B alg id (\<lambda>hasher. io_try (rangeLoop W cb ''Hash'' (hashChunk B hasher) disk start count ss ())
      (\<lambda>_. hasher_finish B hasher (unat (bh_hashLength hasher)))) w = Done (Inr v, w')"
    using assms(4,7) by (simp add: hashDiskRangeGeneric_def split: if_splits)
  from withHasher_Inr [OF assms(1) this] obtain hasher hh w1 w2 where
    s: "bh_hashHandle hasher = Some hh" "same_storage V w w1" "sv_hashes V w1 hh = Some (alg, [])"
    "\<And>bs. length (D alg bs) = unat (bh_hashLength hasher)" and
    body: "io_try (rangeLoop W cb ''Hash'' (hashChunk B hasher) disk start count ss ())
      (\<lambda>_. hasher_finish B hasher (unat (bh_hashLength hasher))) w1 = Done (Inr v, w2)" by metis
  from body obtain u w3 where
    loop: "rangeLoop W cb ''Hash'' (hashChunk B hasher) disk start count ss () w1 = Done (Inr u, w3)" and
    fin: "hasher_finish B hasher (unat (bh_hashLength hasher)) w3 = Done (Inr v, w2)"
    by (auto simp: io_try_Done)
  have h1: "handles (sv_disks V) w1 h = Some (OnDisk d rw)" using s(2) assms(5) by (simp add: same_storage_def)
  have "sv_hashes V w3 hh = Some (alg, slice (unat start * unat ss) (unat count * unat ss) (contents (sv_disks V) w1 d))"
    by (rule chunk_consumer.range_loop [OF hash_consumer [OF assms(1) s(1), of alg] loop assms(2) s(3) assms(3,4) h1 assms(6)])
  from hasher_finish_Inr [OF assms(1) s(1) this fin] show ?thesis
    using s(2,4) by (simp add: blit_all same_storage_def)
qed

text \<open>
  C32. The SHA-256 of a sector range is that of its bytes, whatever the chunks: if \<open>sha256DiskRange\<close> succeeds,
  its value is the digest of the bytes of the disk in the range, with the library's own digest function.
\<close>

theorem sha256DiskRange_correct:
  assumes "bcrypt_laws B V D" "mere_progress V cb" "content_laws W (sv_disks V)" "rh_handle disk = Some h"
    and "handles (sv_disks V) w h = Some (OnDisk d rw)" "(unat start + unat count) * unat ss < 2 ^ 64"
    and "\<And>bs. length (D ''SHA256'' bs) = 32"
    and "sha256DiskRange B W disk start count ss cb w = Done (Inr v, w')"
  shows "v = D ''SHA256'' (slice (unat start * unat ss) (unat count * unat ss) (contents (sv_disks V) w d))"
  using assms(8) hashDiskRange_bytes [OF assms(1-6), of "''SHA256''"] assms(7)
  by (auto simp: sha256DiskRange_def io_try_Done io_return_Done fixedHash_def)

section \<open>Checksums of files and buffers\<close>

lemma withFile_cases:
  assumes "file_laws F V" "withFile F purpose path body w = Done (r, w')"
  obtains (failed) e where "r = Inl e" "sv_files V w' = sv_files V w"
    | (opened) h content n w1 where "sv_named V w path = Some content" "sv_files V w h = None"
      "sv_files V w1 = (sv_files V w)(h \<mapsto> content)" "body h n w1 = Done (r, w')"
proof -
  obtain x w1 where op: "OpenForReading F path w = (x, w1)" by fastforce
  show thesis
  proof (cases x)
    case None
    with op failed assms(2) file_lawsD(4) [OF assms(1)] show thesis by (auto simp: withFile_def)
  next
    case (Some h)
    then obtain c where c: "sv_named V w path = Some c" "sv_files V w h = None" "sv_files V w1 = (sv_files V w)(h \<mapsto> c)"
      using file_lawsD(3) [OF assms(1)] op by blast
    show thesis
    proof (cases "GetFileSizeEx F h w1")
      case None
      then have "\<exists>e. r = Inl e" "w' = CloseFile F h w1" using assms(2) op Some by (auto simp: withFile_def Let_def)
      moreover have "sv_files V (CloseFile F h w1) = sv_files V w"
        using c(2,3) by (auto simp: file_lawsD(5) [OF assms(1)])
      ultimately show thesis using failed by auto
    next
      case (Some n)
      then show thesis using opened [OF c] assms(2) op \<open>x = Some h\<close> by (auto simp: withFile_def)
    qed
  qed
qed

lemma file_loop_returns:
  assumes "mere_progress V cb" "file_laws F V" "sv_files V w h = Some left"
  shows "\<exists>r w'. fileLoop F cb name crcChunk h n a w = Done (r, w')"
proof -
  let ?st = "\<lparr>fl_acc = a, fl_totalRead = 0, fl_eof = False\<rparr>" and ?body = "fileStep F cb name crcChunk h n"
  have "\<exists>r w'. io_while (\<lambda>st. \<not> fl_eof st) ?body ?st w = Done (r, w')"
  proof (rule io_while_returns [where I = "\<lambda>st v. sv_files V v h \<noteq> None" and
        m = "\<lambda>st v. if fl_eof st then 0 else Suc (length (the (sv_files V v h)))"])
    show "sv_files V w h \<noteq> None" using assms(3) by simp
  next
    fix st v show "\<exists>r w'. ?body st v = Done (r, w')"
      by (auto simp: fileStep_def crcChunk_def io_return_def Let_def split: prod.split option.split bool.split)
  next
    fix st v st' v'
    assume "sv_files V v h \<noteq> None" and go: "\<not> fl_eof st" and run: "?body st v = Done (Inr st', v')"
    then obtain left where left: "sv_files V v h = Some left" by blast
    from run assms(1,2) left
    show "sv_files V v' h \<noteq> None \<and>
      (if fl_eof st' then 0 else Suc (length (the (sv_files V v' h)))) < (if fl_eof st then 0 else Suc (length (the (sv_files V v h))))"
      by (cases rule: crc.file_step_cases) (use go left in auto)
  qed
  then show ?thesis by (auto simp: fileLoop_def io_try_def split: sum.split)
qed

lemma crc32File_returns:
  assumes "file_laws F V" "mere_progress V cb"
  shows "\<exists>r w'. crc32File F path cb w = Done (r, w')"
proof -
  obtain x w1 where op: "OpenForReading F path w = (x, w1)" by fastforce
  show ?thesis
  proof (cases x)
    case (Some h)
    then obtain c where "sv_files V w1 h = Some c" using file_lawsD(3) [OF assms(1)] op by fastforce
    from file_loop_returns [OF assms(2,1) this] op Some show ?thesis
      by (auto simp: crc32File_def withFile_def Let_def split: option.split)
  qed (use op in \<open>simp add: crc32File_def withFile_def\<close>)
qed

text \<open>
  The CRC-32 of a file is that of its contents, and the file is closed on every path: \<open>crc32File\<close>
  returns; then exactly the files are open that were open before, and if it succeeded, its value is the
  CRC-32 of what the file held when it was opened, in however many pieces it was delivered.
\<close>

theorem crc32File_correct:
  assumes "file_laws F V" "mere_progress V cb"
  shows "\<exists>r w'. crc32File F path cb w = Done (r, w') \<and> sv_files V w' = sv_files V w \<and>
    (\<forall>crc. r = Inr crc \<longrightarrow> (\<exists>content. sv_named V w path = Some content \<and> crc = crc32 content))"
proof -
  obtain r w' where run: "crc32File F path cb w = Done (r, w')" using crc32File_returns [OF assms] by blast
  have "sv_files V w' = sv_files V w \<and> (\<forall>crc. r = Inr crc \<longrightarrow> (\<exists>content. sv_named V w path = Some content \<and> crc = crc32 content))"
    using assms(1) run [unfolded crc32File_def]
  proof (cases rule: withFile_cases)
    case (opened h content n w1)
    have left: "sv_files V w1 h = Some content" using opened(3) by simp
    note fl = crc.file_loop [OF opened(4) assms(2,1) left]
    have "sv_files V w' = sv_files V w" using fl(1) opened(2,3) by auto
    then show ?thesis using fl(2) opened(1) crc32_Nil by auto
  qed simp
  with run show ?thesis by blast
qed

text \<open>
  The length of a buffer reaches the library as a 32-bit number: \<open>sha256Buffer\<close> returns the digest of the
  first \<open>n mod 2 ^ 32\<close> bytes of the buffer, which for a buffer of four gibibytes or more is not its digest.
\<close>

theorem sha256Buffer_truncates:
  assumes "bcrypt_laws B V D" "\<And>bs. length (D ''SHA256'' bs) = 32" "n \<le> length data"
    and "sha256Buffer B (Some data) n w = Done (Inr v, w')"
  shows "v = D ''SHA256'' (take (n mod 2 ^ 32) data)"
proof -
  have "withHasher B ''SHA256'' id (\<lambda>hasher. io_try (if n > 0 then hasher_update B hasher (take n data) else io_return ok)
      (\<lambda>_. hasher_finish B hasher 32)) w = Done (Inr v, w')"
    using assms(4) by (simp add: sha256Buffer_def hashBuffer_def cong: if_cong)
  from withHasher_Inr [OF assms(1) this] obtain hasher hh w1 w2 where
    s: "bh_hashHandle hasher = Some hh" "sv_hashes V w1 hh = Some (''SHA256'', [])" and
    body: "io_try (if n > 0 then hasher_update B hasher (take n data) else io_return ok)
      (\<lambda>_. hasher_finish B hasher 32) w1 = Done (Inr v, w2)" by metis
  from body obtain u w3 where
    up: "(if n > 0 then hasher_update B hasher (take n data) else io_return ok) w1 = Done (Inr u, w3)" and
    fin: "hasher_finish B hasher 32 w3 = Done (Inr v, w2)" by (auto simp: io_try_Done)
  have "sv_hashes V w3 hh = Some (''SHA256'', take (n mod 2 ^ 32) data)"
  proof (cases "n = 0")
    case True
    with up s(2) show ?thesis by (simp add: io_return_Done)
  next
    case False
    have "take (unat (of_nat (length (take n data)) :: u32)) (take n data) = take (n mod 2 ^ 32) data"
      using assms(3) by (simp add: unat_of_nat min_absorb1 min_def)
    with up False s bcrypt_lawsD(7) [OF assms(1) _ s(2)] show ?thesis
      by (auto simp: hasher_update_def split: prod.splits bool.splits)
  qed
  from hasher_finish_Inr [OF assms(1) s(1) this fin] assms(2) show ?thesis by (simp add: blit_all)
qed

section \<open>Witnesses\<close>

text \<open>
  A world with one disk, one file and hashes that keep what they have absorbed. Its digests have the right
  length and show the first byte and the number of bytes.
\<close>

record sum_world =
  sw_disk :: bytes
  sw_left :: "bytes option"
  sw_alg :: "string option"
  sw_hash :: "(string \<times> bytes) option"

definition sw_content :: bytes where
  "sw_content = [0x31, 0x32, 0x33]"

definition sum_win32 :: "sum_world Win32" where
  "sum_win32 = \<lparr>CreateFileW = (\<lambda>path rw w. (Inl 2, w)), CloseHandle = (\<lambda>h w. w),
     ReadFile = (\<lambda>h off n w. if unat off + unat n \<le> length (sw_disk w) then Inr (slice (unat off) (unat n) (sw_disk w)) else Inl 38),
     WriteFile = (\<lambda>h off bs w. (Inl 5, w)), FlushFileBuffers = (\<lambda>h w. (Inr (), w)), DeviceControl = (\<lambda>c h w. (Inl 1, w)),
     GetDriveGeometryEx = (\<lambda>h w. Inl 1), GetDriveLayoutEx = (\<lambda>h w. Inl 1), IsRecognizedPartition = (\<lambda>t. t \<noteq> 0),
     GetVolumeInformationW = (\<lambda>path w. Inl 1), GetDiskFreeSpaceExW = (\<lambda>path w. Inl 1),
     DeleteVolumeMountPointW = (\<lambda>path w. (Inl 1, w)), SetVolumeLabelW = (\<lambda>path label w. (Inl 1, w))\<rparr>"

definition sum_view :: "sum_world sum_view" where
  "sum_view = \<lparr>sv_disks = \<lparr>contents = (\<lambda>w d. if d = 0 then sw_disk w else []), handles = (\<lambda>w h. if h = 0 then Some (OnDisk 0 False) else None)\<rparr>,
     sv_named = (\<lambda>w path. if path = [] then None else Some sw_content),
     sv_files = (\<lambda>w h. if h = 1 then sw_left w else None),
     sv_algorithms = (\<lambda>w a. if a = 2 then sw_alg w else None),
     sv_hashes = (\<lambda>w h. if h = 3 then sw_hash w else None)\<rparr>"

definition sum_digest :: "string \<Rightarrow> bytes \<Rightarrow> bytes" where
  "sum_digest alg bs = (if bs = [] then 0 else bs ! 0) # replicate (if alg = ''SHA256'' then 31 else 15) (of_nat (length bs))"

definition sum_bcrypt :: "sum_world bcrypt" where
  "sum_bcrypt = \<lparr>BCryptOpenAlgorithmProvider = (\<lambda>alg w. (Some 2, w\<lparr>sw_alg := Some alg\<rparr>)),
     BCryptObjectLength = (\<lambda>a w. Some 100),
     BCryptHashLength = (\<lambda>a w. if a = 2 \<and> sw_alg w = Some ''SHA256'' then Some 32 else Some 16),
     BCryptCreateHash = (\<lambda>a n w. (Some 3, w\<lparr>sw_hash := Some ((if a = 2 then the (sw_alg w) else []), [])\<rparr>)),
     BCryptHashData = (\<lambda>h d w. if h = Some 3 then (True, w\<lparr>sw_hash := map_option (\<lambda>(alg, bs). (alg, bs @ d)) (sw_hash w)\<rparr>) else (False, w)),
     BCryptFinishHash = (\<lambda>h n w. case sw_hash w of Some (alg, bs) \<Rightarrow> (if h = Some 3 then (Some (sum_digest alg bs), w) else (None, w)) | None \<Rightarrow> (None, w)),
     BCryptDestroyHash = (\<lambda>h w. w\<lparr>sw_hash := None\<rparr>), BCryptCloseAlgorithmProvider = (\<lambda>a w. w\<lparr>sw_alg := None\<rparr>)\<rparr>"

definition sum_files :: "sum_world file_api" where
  "sum_files = \<lparr>OpenForReading = (\<lambda>path w. if path \<noteq> [] \<and> sw_left w = None then (Some 1, w\<lparr>sw_left := Some sw_content\<rparr>) else (None, w)),
     GetFileSizeEx = (\<lambda>h w. Some 3),
     ReadNext = (\<lambda>h n w. case sw_left w of Some l \<Rightarrow>
       (if h = 1 then (Some (take (min 2 (unat n)) l), w\<lparr>sw_left := Some (drop (min 2 (unat n)) l)\<rparr>) else (None, w)) | None \<Rightarrow> (None, w)),
     CloseFile = (\<lambda>h w. if h = 1 then w\<lparr>sw_left := None\<rparr> else w), LastError = (\<lambda>w. 0)\<rparr>"

definition sum_start :: sum_world where
  "sum_start = \<lparr>sw_disk = replicate 1024 7, sw_left = None, sw_alg = None, sw_hash = None\<rparr>"

abbreviation (input) go_on :: "sum_world hash_progress" where
  "go_on \<equiv> (\<lambda>m n w. (True, w))"

lemma sum_mere_progress: "mere_progress sum_view go_on"
  by (simp add: mere_progress_def same_storage_def)

lemma sum_content_laws: "content_laws sum_win32 (sv_disks sum_view)"
  by (auto simp: content_laws_def sum_win32_def sum_view_def split: if_splits)

lemma sum_readable: "disk_readable sum_win32 (sv_disks sum_view) 0"
  by (auto simp: disk_readable_def sum_win32_def sum_view_def)

lemma sum_bcrypt_laws: "bcrypt_laws sum_bcrypt sum_view sum_digest"
  by (auto simp: bcrypt_laws_def sum_bcrypt_def sum_view_def same_storage_def sum_digest_def split: if_splits option.splits prod.splits)

lemma sum_file_laws: "file_laws sum_files sum_view"
  unfolding file_laws_def sum_files_def sum_view_def
  by (auto simp: fun_eq_iff min_def unat_eq_zero split: if_splits option.splits)

theorem crc32DiskRange_correct_witness:
  "\<exists>w'. crc32DiskRange sum_win32 sim_handle 1 1 512 go_on sum_start = Done (Inr (crc32 (replicate 512 7)), w')"
  using crc32DiskRange_correct [OF sum_mere_progress _ sum_content_laws sum_readable, of sim_handle 0 sum_start False 512 1 1]
  by (simp add: sim_handle_def sum_view_def sum_start_def slice_def)

theorem crc32File_correct_witness:
  "\<exists>w'. crc32File sum_files [65] go_on sum_start = Done (Inr (crc32 [0x31, 0x32, 0x33]), w') \<and>
     sv_files sum_view w' = sv_files sum_view sum_start"
proof -
  obtain crc w' where run: "crc32File sum_files [65] go_on sum_start = Done (Inr crc, w')"
    by (simp add: crc32File_def withFile_def fileLoop_def sum_files_def sum_start_def sw_content_def io_try_def
        io_while_unfold fileStep_def crcChunk_def io_return_def Let_def)
  then show ?thesis
    using crc32File_correct [OF sum_file_laws sum_mere_progress, of "[65]" sum_start]
    by (auto simp: sum_view_def sw_content_def)
qed

lemma sum_digest_length: "length (sum_digest ''SHA256'' bs) = 32"
  by (simp add: sum_digest_def)

theorem sha256Buffer_truncates_witness:
  "\<exists>w'. sha256Buffer sum_bcrypt (Some [5, 6]) 2 sum_start = Done (Inr (5 # replicate 31 2), w')"
proof -
  obtain v w' where run: "sha256Buffer sum_bcrypt (Some [5, 6]) 2 sum_start = Done (Inr v, w')"
    by (simp add: sha256Buffer_def hashBuffer_def withHasher_def hasher_init_def sum_bcrypt_def sum_start_def hasher_new_def
        Let_def io_try_def hasher_update_def hasher_finish_def)
  from sha256Buffer_truncates [OF sum_bcrypt_laws sum_digest_length _ run] run show ?thesis
    by (simp add: sum_digest_def)
qed

theorem sha256DiskRange_correct_witness:
  "\<exists>w'. sha256DiskRange sum_bcrypt sum_win32 sim_handle 0 2 512 go_on sum_start = Done (Inr (7 # replicate 31 0), w')"
proof -
  obtain v w' where run: "sha256DiskRange sum_bcrypt sum_win32 sim_handle 0 2 512 go_on sum_start = Done (Inr v, w')"
    by (simp add: sha256DiskRange_def hashDiskRangeGeneric_def withHasher_def hasher_init_def sum_bcrypt_def sum_start_def hasher_new_def
        Let_def io_try_def hasher_update_def hasher_finish_def rangeLoop_def io_while_unfold rangeStep_def chunkSectors_def
        readSectors_def sim_handle_def sum_win32_def hashChunk_def io_return_def)
  from sha256DiskRange_correct [OF sum_bcrypt_laws sum_mere_progress sum_content_laws _ _ _ sum_digest_length run, of 0 0 False] run
  show ?thesis
    by (simp add: sim_handle_def sum_view_def sum_start_def slice_def sum_digest_def)
qed

end
