(* ===== verification/Run_Loop.thy ===== *)
theory Run_Loop
  imports Setec_Prelude
begin

text \<open>
  Loops over local variables only. One pass of a C++ loop is a function of the locals: it leaves the
  loop with a result (left) or goes on with new locals (right), and it may have undefined behaviour.
  \<open>run_iter\<close> repeats it; a loop that never leaves has the outcome \<open>Diverges\<close>.
\<close>

partial_function (option) run_steps :: "('s \<Rightarrow> ('r + 's) run) \<Rightarrow> 's \<Rightarrow> 'r run option" where
  "run_steps step s =
     (case step s of
        Done r \<Rightarrow> (case r of Inl x \<Rightarrow> Some (Done x) | Inr s' \<Rightarrow> run_steps step s')
      | Undef \<Rightarrow> Some Undef
      | Diverges \<Rightarrow> Some Diverges)"

definition run_iter :: "('s \<Rightarrow> ('r + 's) run) \<Rightarrow> 's \<Rightarrow> 'r run" where
  "run_iter step s = (case run_steps step s of None \<Rightarrow> Diverges | Some r \<Rightarrow> r)"

lemma run_iter_unfold:
  "run_iter step s = run_bind (step s) (\<lambda>r. case r of Inl x \<Rightarrow> Done x | Inr s' \<Rightarrow> run_iter step s')"
  unfolding run_iter_def
  by (subst run_steps.simps) (auto split: run.splits sum.splits)

lemma run_iter_stop: "step s = Done (Inl x) \<Longrightarrow> run_iter step s = Done x"
  by (subst run_iter_unfold) simp

lemma run_iter_next: "step s = Done (Inr s') \<Longrightarrow> run_iter step s = run_iter step s'"
  by (subst run_iter_unfold) simp

lemma run_iter_undef: "step s = Undef \<Longrightarrow> run_iter step s = Undef"
  by (subst run_iter_unfold) simp

text \<open>Termination by a measure, with an invariant that every pass keeps.\<close>

lemma run_iter_returns:
  assumes "I s" and step: "\<And>s. I s \<Longrightarrow> \<exists>r. step s = Done r \<and> (\<forall>s'. r = Inr s' \<longrightarrow> I s' \<and> m s' < (m s :: nat))
      \<and> (\<forall>x. r = Inl x \<longrightarrow> Q x)"
  shows "\<exists>x. run_iter step s = Done x \<and> Q x"
  using assms(1)
proof (induction "m s" arbitrary: s rule: less_induct)
  case less
  obtain r where r: "step s = Done r" "\<forall>s'. r = Inr s' \<longrightarrow> I s' \<and> m s' < m s" "\<forall>x. r = Inl x \<longrightarrow> Q x"
    using step [OF less.prems] by blast
  show ?case
  proof (cases r)
    case (Inl x)
    with r show ?thesis by (simp add: run_iter_stop)
  next
    case (Inr s')
    with r less.hyps [of s'] show ?thesis by (simp add: run_iter_next)
  qed
qed

text \<open>Partial correctness: what holds of the result of every completed run.\<close>

lemma run_steps_invariant:
  fixes step :: "'s \<Rightarrow> ('r + 's) run"
  assumes run: "run_steps step s = Some r" and start: "I s"
    and step: "\<And>s s'. I s \<Longrightarrow> step s = Done (Inr s') \<Longrightarrow> I s'"
    and stop: "\<And>s x. I s \<Longrightarrow> step s = Done (Inl x) \<Longrightarrow> Q x"
  shows "\<forall>x. r = Done x \<longrightarrow> Q x"
proof -
  let ?P = "\<lambda>f s (r :: 'r run). f = step \<longrightarrow> I s \<longrightarrow> (\<forall>x. r = Done x \<longrightarrow> Q x)"
  have "?P step s r"
  proof (rule run_steps.raw_induct [OF _ run, of ?P], intro impI allI)
    fix loop f s r x
    assume IH: "\<And>f s r. loop f s = Some r \<Longrightarrow> ?P f s r"
      and eq: "(case f s of
          Done r \<Rightarrow> (case r of Inl x \<Rightarrow> Some (Done x) | Inr s' \<Rightarrow> loop f s')
        | Undef \<Rightarrow> Some Undef
        | Diverges \<Rightarrow> Some Diverges) = Some r"
      and *: "f = step" "I s" "r = Done x"
    show "Q x"
    proof (cases "step s")
      case (Done d)
      show ?thesis
      proof (cases d)
        case (Inl y)
        with Done eq * stop [of s y] show ?thesis by simp
      next
        case (Inr s')
        with Done eq * step [of s s'] IH [of step s' r] show ?thesis by simp
      qed
    qed (use eq * in simp_all)
  qed
  with start show ?thesis by simp
qed

lemma run_iter_invariant:
  assumes "run_iter step s = Done x" "I s"
    and "\<And>s s'. I s \<Longrightarrow> step s = Done (Inr s') \<Longrightarrow> I s'"
    and "\<And>s x. I s \<Longrightarrow> step s = Done (Inl x) \<Longrightarrow> Q x"
  shows "Q x"
proof -
  have "run_steps step s = Some (Done x)"
    using assms(1) unfolding run_iter_def by (cases "run_steps step s") auto
  have "\<forall>y. Done x = Done y \<longrightarrow> Q y"
    by (rule run_steps_invariant [where I = I and Q = Q, OF \<open>run_steps step s = Some (Done x)\<close>]) (fact assms)+
  then show ?thesis by blast
qed

text \<open>Divergence: an invariant under which every pass goes on.\<close>

lemma run_steps_stuck:
  fixes step :: "'s \<Rightarrow> ('r + 's) run"
  assumes run: "run_steps step s = Some r" and start: "I s"
    and go: "\<And>s. I s \<Longrightarrow> \<exists>s'. step s = Done (Inr s') \<and> I s'"
  shows False
proof -
  let ?P = "\<lambda>f s (r :: 'r run). f = step \<longrightarrow> \<not> I s"
  have "?P step s r"
  proof (rule run_steps.raw_induct [OF _ run, of ?P], intro impI notI)
    fix loop f s r
    assume IH: "\<And>f s r. loop f s = Some r \<Longrightarrow> ?P f s r"
      and eq: "(case f s of
          Done r \<Rightarrow> (case r of Inl x \<Rightarrow> Some (Done x) | Inr s' \<Rightarrow> loop f s')
        | Undef \<Rightarrow> Some Undef
        | Diverges \<Rightarrow> Some Diverges) = Some r"
      and f: "f = step" and I: "I s"
    from go [OF I] obtain s' where *: "step s = Done (Inr s')" "I s'" by blast
    with eq f have "loop step s' = Some r" by simp
    from IH [OF this] *(2) show False by simp
  qed
  with start show False by simp
qed

lemma run_iter_diverges:
  assumes "I s" and "\<And>s. I s \<Longrightarrow> \<exists>s'. step s = Done (Inr s') \<and> I s'"
  shows "run_iter step s = Diverges"
proof (cases "run_steps step s")
  case None
  then show ?thesis by (simp add: run_iter_def)
next
  case (Some r)
  have False by (rule run_steps_stuck [OF Some, where I = I]) (fact assms)+
  then show ?thesis ..
qed

end
