(* ===== verification/Fs_Info.thy ===== *)
theory Fs_Info
  imports Run_Loop Fs_Detector
begin

text \<open>
  \<open>src/core/disk/FilesystemInfo.cpp\<close>: the details of a file system from its superblock, boot sector or
  volume header, for a type that has been detected. Every reader goes through the same callback as the
  detection. The NTFS reader has a loop over the attributes of an MFT record whose step comes from the
  disk; it and the reads it makes at positions from the disk are modelled as a \<open>run\<close>.
\<close>

section \<open>The description\<close>

record NtfsDetails =
  nt_majorVersion :: u8
  nt_minorVersion :: u8
  nt_mftCluster :: u64
  nt_mftMirrorCluster :: u64
  nt_mftRecordSize :: u32
  nt_serialNumber :: u64

record FatDetails =
  ft_fatCount :: u8
  ft_fatSize :: u32
  ft_reservedSectors :: u16
  ft_rootEntryCount :: u16
  ft_totalClusters :: u32
  ft_volumeSerial :: u32
  ft_oemName :: bytes

record ExtDetails =
  xt_inodeCount :: u32
  xt_freeInodes :: u32
  xt_blockGroupCount :: u32
  xt_compatFeatures :: u32
  xt_incompatFeatures :: u32
  xt_roCompatFeatures :: u32
  xt_state :: u16
  xt_errors :: u16
  xt_creatorOs :: u32
  xt_featureStrings :: "string list"

record ExfatDetails =
  xf_fsRevision :: u16
  xf_clusterCount :: u32
  xf_volumeSerial :: u32

record HfsPlusDetails =
  hp_version :: u16
  hp_fileCount :: u32
  hp_folderCount :: u32

record FilesystemInfoData =
  fi_type :: FilesystemType
  fi_typeName :: string
  fi_label :: bytes
  fi_uuid :: string
  fi_blockSize :: u32
  fi_totalBlocks :: u64
  fi_freeBlocks :: u64
  fi_totalSizeBytes :: u64
  fi_freeSizeBytes :: u64
  fi_usedSizeBytes :: u64
  fi_ntfs :: NtfsDetails
  fi_fat :: FatDetails
  fi_ext :: ExtDetails
  fi_exfat :: ExfatDetails
  fi_hfsplus :: HfsPlusDetails

definition fi_default :: FilesystemInfoData where
  "fi_default =
     \<lparr>fi_type = UnknownFs, fi_typeName = [], fi_label = [], fi_uuid = [], fi_blockSize = 0, fi_totalBlocks = 0,
      fi_freeBlocks = 0, fi_totalSizeBytes = 0, fi_freeSizeBytes = 0, fi_usedSizeBytes = 0,
      fi_ntfs = \<lparr>nt_majorVersion = 0, nt_minorVersion = 0, nt_mftCluster = 0, nt_mftMirrorCluster = 0,
        nt_mftRecordSize = 0, nt_serialNumber = 0\<rparr>,
      fi_fat = \<lparr>ft_fatCount = 0, ft_fatSize = 0, ft_reservedSectors = 0, ft_rootEntryCount = 0, ft_totalClusters = 0,
        ft_volumeSerial = 0, ft_oemName = []\<rparr>,
      fi_ext = \<lparr>xt_inodeCount = 0, xt_freeInodes = 0, xt_blockGroupCount = 0, xt_compatFeatures = 0,
        xt_incompatFeatures = 0, xt_roCompatFeatures = 0, xt_state = 0, xt_errors = 0, xt_creatorOs = 0,
        xt_featureStrings = []\<rparr>,
      fi_exfat = \<lparr>xf_fsRevision = 0, xf_clusterCount = 0, xf_volumeSerial = 0\<rparr>,
      fi_hfsplus = \<lparr>hp_version = 0, hp_fileCount = 0, hp_folderCount = 0\<rparr>\<rparr>"

section \<open>NTFS\<close>

text \<open>
  The UTF-16 units of a name inside a record, up to the first zero: the loop stops there, so later units
  are not read. Positions and sizes are 32-bit numbers and their sum wraps around; the addresses do not.
\<close>

fun ntfsNameUnits :: "bytes \<Rightarrow> nat \<Rightarrow> nat \<Rightarrow> u16 list run" where
  "ntfsNameUnits mftRecord off 0 = Done []"
| "ntfsNameUnits mftRecord off (Suc n) =
     require (off + 2 \<le> length mftRecord)
       (let ch = readLE16 mftRecord off in
        if ch = 0 then Done [] else run_bind (ntfsNameUnits mftRecord (off + 2) n) (\<lambda>chs. Done (ch # chs)))"

definition ntfsVolumeName :: "bytes \<Rightarrow> u32 \<Rightarrow> u32 \<Rightarrow> FilesystemInfoData \<Rightarrow> FilesystemInfoData run" where
  "ntfsVolumeName mftRecord recordSize pos info =
     require (unat pos + 9 \<le> length mftRecord)
       (if mftRecord ! (unat pos + 8) \<noteq> 0 then Done info
        else require (unat pos + 0x16 \<le> length mftRecord)
          (let contentSize = readLE32 mftRecord (unat pos + 0x10);
               contentOffset = readLE16 mftRecord (unat pos + 0x14)
           in if pos + ucast contentOffset + contentSize \<le> recordSize \<and> contentSize > 0 then
                run_bind (ntfsNameUnits mftRecord (unat pos + unat contentOffset) (unat contentSize div 2))
                  (\<lambda>chs. Done (info\<lparr>fi_label := utf16_loop chs\<rparr>))
              else Done info))"

definition ntfsVolumeInformation :: "bytes \<Rightarrow> u32 \<Rightarrow> u32 \<Rightarrow> FilesystemInfoData \<Rightarrow> FilesystemInfoData run" where
  "ntfsVolumeInformation mftRecord recordSize pos info =
     require (unat pos + 9 \<le> length mftRecord)
       (if mftRecord ! (unat pos + 8) \<noteq> 0 then Done info
        else require (unat pos + 0x16 \<le> length mftRecord)
          (let contentOffset = readLE16 mftRecord (unat pos + 0x14);
               contentSize = readLE32 mftRecord (unat pos + 0x10);
               viData = unat pos + unat contentOffset;
               version = (\<lambda>i. require (viData + i + 2 \<le> length mftRecord)
                 (Done (info\<lparr>fi_ntfs := (fi_ntfs info)\<lparr>nt_majorVersion := mftRecord ! (viData + i),
                    nt_minorVersion := mftRecord ! (viData + i + 1)\<rparr>\<rparr>)))
           in if pos + ucast contentOffset + contentSize \<le> recordSize \<and> contentSize \<ge> 4 then
                (if contentSize \<ge> 12 then version 8 else version 0)
              else Done info))"

text \<open>One attribute: the walk ends, or goes on at the next one.\<close>

definition ntfsAttribute :: "bytes \<Rightarrow> u32 \<Rightarrow> u32 \<times> FilesystemInfoData \<Rightarrow>
    (FilesystemInfoData + u32 \<times> FilesystemInfoData) run" where
  "ntfsAttribute mftRecord recordSize = (\<lambda>(pos, info).
     if \<not> pos + 16 < recordSize then Done (Inl info)
     else require (unat pos + 8 \<le> length mftRecord)
       (let attrType = readLE32 mftRecord (unat pos); attrLength = readLE32 mftRecord (unat pos + 4) in
        if attrType = 0xFFFFFFFF \<or> attrLength = 0 then Done (Inl info)
        else run_bind (if attrType = 0x60 then ntfsVolumeName mftRecord recordSize pos info
                       else if attrType = 0x70 then ntfsVolumeInformation mftRecord recordSize pos info
                       else Done info)
               (\<lambda>info. Done (Inr (pos + attrLength, info)))))"

definition ntfsVolumeRecord :: "DiskReadCallback \<Rightarrow> FilesystemInfoData \<Rightarrow> FilesystemInfoData run" where
  "ntfsVolumeRecord readFunc info =
     (let recordSize = nt_mftRecordSize (fi_ntfs info);
          mftOffset = nt_mftCluster (fi_ntfs info) * ucast (fi_blockSize info);
          volumeRecordOffset = mftOffset + 3 * ucast recordSize;
          mftRecord = safeRead readFunc volumeRecordOffset recordSize
      in if unat recordSize \<le> length mftRecord \<and> 4 \<le> length mftRecord \<and> memEqual mftRecord 0 ''FILE'' then
           require (0x16 \<le> length mftRecord)
             (run_iter (ntfsAttribute mftRecord recordSize) (ucast (readLE16 mftRecord 0x14), info))
         else Done info)"

text \<open>
  The size of an MFT record: a negative byte is the negated logarithm, and the shift by it is undefined
  from 32 on.
\<close>

definition mftRecordSizeOf :: "u8 \<Rightarrow> u32 \<Rightarrow> u32 run" where
  "mftRecordSizeOf val blockSize =
     (if val \<ge> 0x80 then require (- val < 32) (Done (push_bit (unat (- val)) 1)) else Done (ucast val * blockSize))"

definition readNtfs :: "DiskReadCallback \<Rightarrow> FilesystemInfoData Result run" where
  "readNtfs readFunc =
     (let bpb = safeRead readFunc 0 512 in
      if length bpb < 512 then Done (fail DiskReadError ''Failed to read NTFS boot sector'')
      else
        (let bytesPerSector = readLE16 bpb 0x0B;
             sectorsPerCluster = bpb ! 0x0D;
             totalSectors = readLE64 bpb 0x28;
             info = fi_default\<lparr>fi_type := NTFS, fi_typeName := ''NTFS''\<rparr>
         in if bytesPerSector = 0 \<or> sectorsPerCluster = 0 then
              Done (fail FilesystemCorrupt ''NTFS BPB has zero sector/cluster size'')
            else
              (let info = info\<lparr>fi_blockSize := ucast bytesPerSector * ucast sectorsPerCluster,
                     fi_totalBlocks := totalSectors div ucast sectorsPerCluster,
                     fi_totalSizeBytes := totalSectors * ucast bytesPerSector\<rparr>;
                   serial = readLE64 bpb 0x48
               in run_bind (mftRecordSizeOf (bpb ! 0x40) (fi_blockSize info)) (\<lambda>recordSize.
                 (let info = info\<lparr>fi_ntfs := (fi_ntfs info)\<lparr>nt_mftCluster := readLE64 bpb 0x30,
                        nt_mftMirrorCluster := readLE64 bpb 0x38, nt_mftRecordSize := recordSize,
                        nt_serialNumber := serial\<rparr>\<rparr>;
                      info = (if serial \<noteq> 0 then info\<lparr>fi_uuid := serialText (ucast (drop_bit 32 serial))\<rparr> else info)
                  in if recordSize > 0 \<and> nt_mftCluster (fi_ntfs info) > 0 then
                       run_bind (ntfsVolumeRecord readFunc info) (\<lambda>info. Done (Inr info))
                     else Done (Inr info))))))"

section \<open>FAT and exFAT\<close>

definition fatLabelAndSerial :: "bytes \<Rightarrow> bool \<Rightarrow> FilesystemInfoData \<Rightarrow> FilesystemInfoData" where
  "fatLabelAndSerial bpb isFat32 info =
     (let serial = readLE32 bpb (if isFat32 then 0x43 else 0x27);
          info = info\<lparr>fi_fat := (fi_fat info)\<lparr>ft_volumeSerial := serial\<rparr>,
            fi_label := extractString bpb (if isFat32 then 0x47 else 0x2B) 11\<rparr>;
          info = (if fi_label info = ascii ''NO NAME'' then info\<lparr>fi_label := []\<rparr> else info)
      in if serial \<noteq> 0 then info\<lparr>fi_uuid := serialText serial\<rparr> else info)"

definition fatFreeClusters :: "DiskReadCallback \<Rightarrow> bytes \<Rightarrow> FilesystemInfoData \<Rightarrow> FilesystemInfoData" where
  "fatFreeClusters readFunc bpb info =
     (let fsInfoSector = readLE16 bpb 0x30;
          fsInfo = safeRead readFunc (ucast fsInfoSector * ucast (readLE16 bpb 0x0B)) 512
      in if fsInfoSector > 0 \<and> fsInfoSector < readLE16 bpb 0x0E \<and> 512 \<le> length fsInfo \<and>
            readLE32 fsInfo 0 = 0x41615252 \<and> readLE32 fsInfo 484 = 0x61417272 \<and> readLE32 fsInfo 488 \<noteq> 0xFFFFFFFF
         then
           (let freeClusters = readLE32 fsInfo 488;
                info = info\<lparr>fi_freeBlocks := ucast freeClusters,
                  fi_freeSizeBytes := ucast freeClusters * ucast (fi_blockSize info)\<rparr>
            in info\<lparr>fi_usedSizeBytes := fi_totalSizeBytes info - fi_freeSizeBytes info\<rparr>)
         else info)"

definition fatInfoClusters :: "bytes \<Rightarrow> u32" where
  "fatInfoClusters bpb =
     (let bytesPerSector = readLE16 bpb 0x0B;
          sectorsPerCluster = bpb ! 0x0D;
          fatSize16 = readLE16 bpb 0x16;
          fatSize = (if fatSize16 = 0 then readLE32 bpb 0x24 else ucast fatSize16);
          totalSectors16 = readLE16 bpb 0x13;
          totalSectors = (if totalSectors16 \<noteq> 0 then ucast totalSectors16 else readLE32 bpb 0x20);
          rootDirSectors = (ucast (readLE16 bpb 0x11) * 32 + (ucast bytesPerSector - 1)) div ucast bytesPerSector;
          dataStartSector = ucast (readLE16 bpb 0x0E) + ucast (bpb ! 0x10) * fatSize + rootDirSectors;
          dataSectors = (if totalSectors > dataStartSector then totalSectors - dataStartSector else 0)
      in if sectorsPerCluster > 0 then dataSectors div ucast sectorsPerCluster else 0)"

text \<open>The type of a FAT volume and its name follow from the number of clusters.\<close>

definition fatKind :: "u32 \<Rightarrow> FilesystemType \<times> string" where
  "fatKind totalClusters =
     (if totalClusters < 4085 then (FAT12, ''FAT12'')
      else if totalClusters < 65525 then (FAT16, ''FAT16'')
      else (FAT32, ''FAT32''))"

definition readFat :: "DiskReadCallback \<Rightarrow> FilesystemInfoData Result" where
  "readFat readFunc =
     (let bpb = safeRead readFunc 0 512 in
      if length bpb < 512 then fail DiskReadError ''Failed to read FAT boot sector''
      else
        (let bytesPerSector = readLE16 bpb 0x0B;
             sectorsPerCluster = bpb ! 0x0D;
             totalSectors16 = readLE16 bpb 0x13;
             fatSize16 = readLE16 bpb 0x16
         in if bytesPerSector = 0 \<or> sectorsPerCluster = 0 then fail FilesystemCorrupt ''FAT BPB has zero values''
            else
              (let isFat32 = (fatSize16 = 0);
                   fatSize = (if isFat32 then readLE32 bpb 0x24 else ucast fatSize16);
                   totalSectors = (if totalSectors16 \<noteq> 0 then ucast totalSectors16 else readLE32 bpb 0x20) :: u32;
                   totalClusters = fatInfoClusters bpb;
                   info = fi_default\<lparr>fi_type := fst (fatKind totalClusters), fi_typeName := snd (fatKind totalClusters)\<rparr>;
                   info = info\<lparr>fi_blockSize := ucast bytesPerSector * ucast sectorsPerCluster,
                     fi_totalBlocks := ucast totalClusters,
                     fi_totalSizeBytes := ucast totalSectors * ucast bytesPerSector,
                     fi_fat := \<lparr>ft_fatCount = bpb ! 0x10, ft_fatSize = fatSize, ft_reservedSectors = readLE16 bpb 0x0E,
                       ft_rootEntryCount = readLE16 bpb 0x11, ft_totalClusters = totalClusters, ft_volumeSerial = 0,
                       ft_oemName = extractString bpb 3 8\<rparr>\<rparr>;
                   info = fatLabelAndSerial bpb isFat32 info
               in Inr (if isFat32 then fatFreeClusters readFunc bpb info else info))))"

text \<open>The first volume label entry of a directory, before its end; at most eleven UTF-16 units.\<close>

fun exfatLabel :: "bytes \<Rightarrow> nat list \<Rightarrow> bytes option" where
  "exfatLabel rootData [] = None"
| "exfatLabel rootData (pos # ps) =
     (if rootData ! pos = 0x83 then
        (let charCount = min (unat (rootData ! (pos + 1))) 11 in
         Some (concat (map (\<lambda>i. utf8_of_unit (readLE16 rootData (pos + 2 + 2 * i))) [0..<charCount])))
      else if rootData ! pos = 0 then None
      else exfatLabel rootData ps)"

definition readExfat :: "DiskReadCallback \<Rightarrow> FilesystemInfoData Result" where
  "readExfat readFunc =
     (let boot = safeRead readFunc 0 512 in
      if length boot < 512 then fail DiskReadError ''Failed to read exFAT boot sector''
      else
        (let volumeLength = readLE64 boot 0x48;
             clusterCount = readLE32 boot 0x5C;
             volumeSerial = readLE32 boot 0x64;
             bytesPerSectorShift = boot ! 0x6C;
             sectorsPerClusterShift = boot ! 0x6D;
             bytesPerSector = (if bytesPerSectorShift \<le> 12 then push_bit (unat bytesPerSectorShift) 1 else 512) :: u32;
             sectorsPerCluster = (if sectorsPerClusterShift \<le> 25 then push_bit (unat sectorsPerClusterShift) 1 else 1) :: u32;
             info = fi_default\<lparr>fi_type := ExFAT, fi_typeName := ''exFAT'',
               fi_blockSize := bytesPerSector * sectorsPerCluster,
               fi_totalBlocks := ucast clusterCount,
               fi_totalSizeBytes := volumeLength * ucast bytesPerSector,
               fi_exfat := \<lparr>xf_fsRevision = readLE16 boot 0x68, xf_clusterCount = clusterCount,
                 xf_volumeSerial = volumeSerial\<rparr>\<rparr>;
             info = (if volumeSerial \<noteq> 0 then info\<lparr>fi_uuid := serialText volumeSerial\<rparr> else info);
             rootCluster = readLE32 boot 0x60;
             clusterHeapOffset = readLE32 boot 0x58
         in if rootCluster \<ge> 2 then
              (let rootOffset = ucast (clusterHeapOffset + (rootCluster - 2) * sectorsPerCluster) * ucast bytesPerSector;
                   rootData = safeRead readFunc rootOffset (fi_blockSize info)
               in case exfatLabel rootData (map (\<lambda>i. 32 * i) [0..<length rootData div 32]) of
                    None \<Rightarrow> Inr info
                  | Some label \<Rightarrow> Inr (info\<lparr>fi_label := label\<rparr>))
            else Inr info))"

section \<open>ext2, ext3 and ext4\<close>

definition extFeatureStrings :: "u32 \<Rightarrow> u32 \<Rightarrow> u32 \<Rightarrow> string list" where
  "extFeatureStrings compatible incompatible roCompatible =
     map snd (filter (\<lambda>p. fst p \<noteq> 0)
       [(compatible AND 0x0004, ''has_journal''), (compatible AND 0x0020, ''dir_index''),
        (incompatible AND 0x0002, ''filetype''), (incompatible AND 0x0040, ''extents''), (incompatible AND 0x0080, ''64bit''),
        (incompatible AND 0x0200, ''flex_bg''),
        (roCompatible AND 0x0001, ''sparse_super''), (roCompatible AND 0x0002, ''large_file''),
        (roCompatible AND 0x0008, ''huge_file''), (roCompatible AND 0x1000, ''metadata_csum'')])"

definition extBlockCount :: "bytes \<Rightarrow> nat \<Rightarrow> nat \<Rightarrow> u64" where
  "extBlockCount sb lo hi =
     (if readLE32 sb 0x60 AND 0x0080 \<noteq> 0 \<and> length sb \<ge> 0x15C
      then ucast (readLE32 sb lo) OR push_bit 32 (ucast (readLE32 sb hi))
      else ucast (readLE32 sb lo))"

definition readExt :: "DiskReadCallback \<Rightarrow> FilesystemType \<Rightarrow> FilesystemInfoData Result" where
  "readExt readFunc type =
     (let sb = safeRead readFunc 1024 1024 in
      if length sb < 256 then fail DiskReadError ''Failed to read ext superblock''
      else if readLE16 sb 0x38 \<noteq> EXT_SUPER_MAGIC then fail FilesystemCorrupt ''Invalid ext superblock magic''
      else
        (let logBlockSize = readLE32 sb 0x18;
             blockSize = (if logBlockSize < 10 then push_bit (unat logBlockSize) 1024 else 4096) :: u32;
             compatFeatures = readLE32 sb 0x5C;
             incompatFeatures = readLE32 sb 0x60;
             roCompatFeatures = readLE32 sb 0x64;
             totalBlocks = extBlockCount sb 0x04 0x150;
             freeBlocks = extBlockCount sb 0x0C 0x158;
             blocksPerGroup = readLE32 sb 0x20
         in Inr (fi_default\<lparr>fi_type := type, fi_typeName := filesystemName type,
              fi_blockSize := blockSize, fi_totalBlocks := totalBlocks, fi_freeBlocks := freeBlocks,
              fi_totalSizeBytes := totalBlocks * ucast blockSize,
              fi_freeSizeBytes := freeBlocks * ucast blockSize,
              fi_usedSizeBytes := totalBlocks * ucast blockSize - freeBlocks * ucast blockSize,
              fi_ext := \<lparr>xt_inodeCount = readLE32 sb 0, xt_freeInodes = readLE32 sb 0x10,
                xt_blockGroupCount = (if blocksPerGroup > 0
                  then ucast ((totalBlocks + ucast blocksPerGroup - 1) div ucast blocksPerGroup) else 0),
                xt_compatFeatures = compatFeatures, xt_incompatFeatures = incompatFeatures,
                xt_roCompatFeatures = roCompatFeatures, xt_state = readLE16 sb 0x3A, xt_errors = readLE16 sb 0x3C,
                xt_creatorOs = readLE32 sb 0x48,
                xt_featureStrings = extFeatureStrings compatFeatures incompatFeatures roCompatFeatures\<rparr>,
              fi_label := extractString sb 0x78 16,
              fi_uuid := uuidText sb 0x68\<rparr>)))"

section \<open>Btrfs, XFS, HFS+ and APFS\<close>

definition readBE64 :: "bytes \<Rightarrow> nat \<Rightarrow> u64" where
  "readBE64 p off = push_bit 32 (ucast (readBE32 p off)) OR ucast (readBE32 p (off + 4))"

definition readBtrfs :: "DiskReadCallback \<Rightarrow> FilesystemInfoData Result" where
  "readBtrfs readFunc =
     (let sb = safeRead readFunc 0x10000 0x200 in
      if length sb < 0x1A0 then fail DiskReadError ''Failed to read Btrfs superblock''
      else
        (let blockSize = readLE32 sb 0x80;
             totalSize = readLE64 sb 0x8C;
             usedSize = readLE64 sb 0x94;
             freeSize = (if totalSize > usedSize then totalSize - usedSize else 0);
             info = fi_default\<lparr>fi_type := Btrfs, fi_typeName := ''Btrfs'', fi_blockSize := blockSize,
               fi_totalSizeBytes := totalSize, fi_usedSizeBytes := usedSize, fi_freeSizeBytes := freeSize\<rparr>;
             info = (if blockSize > 0
                     then info\<lparr>fi_totalBlocks := totalSize div ucast blockSize, fi_freeBlocks := freeSize div ucast blockSize\<rparr>
                     else info);
             info = info\<lparr>fi_uuid := uuidText sb 0x20\<rparr>
         in Inr (if length sb > 0x12B + 256 then info\<lparr>fi_label := extractString sb 0x12B 256\<rparr> else info)))"

definition readXfs :: "DiskReadCallback \<Rightarrow> FilesystemInfoData Result" where
  "readXfs readFunc =
     (let sb = safeRead readFunc 0 512 in
      if length sb < 256 then fail DiskReadError ''Failed to read XFS superblock''
      else
        (let blockSize = readBE32 sb 0x04;
             totalBlocks = readBE64 sb 0x08;
             freeBlocks = readBE64 sb 0x60
         in Inr (fi_default\<lparr>fi_type := XFS, fi_typeName := ''XFS'', fi_blockSize := blockSize,
              fi_totalBlocks := totalBlocks, fi_freeBlocks := freeBlocks,
              fi_totalSizeBytes := totalBlocks * ucast blockSize,
              fi_freeSizeBytes := freeBlocks * ucast blockSize,
              fi_usedSizeBytes := totalBlocks * ucast blockSize - freeBlocks * ucast blockSize,
              fi_label := extractString sb 0x6C 12, fi_uuid := uuidText sb 0x20\<rparr>)))"

definition hfsClassic :: "bytes \<Rightarrow> FilesystemInfoData" where
  "hfsClassic vh =
     (let blockSize = readBE32 vh 0x14;
          numABlocks = readBE16 vh 0x12;
          freeABlocks = readBE16 vh 0x22;
          nameLen = vh ! 0x24;
          info = fi_default\<lparr>fi_type := HFS, fi_typeName := ''HFS (Classic)'', fi_blockSize := blockSize,
            fi_totalBlocks := ucast numABlocks, fi_freeBlocks := ucast freeABlocks,
            fi_totalSizeBytes := ucast numABlocks * ucast blockSize,
            fi_freeSizeBytes := ucast freeABlocks * ucast blockSize,
            fi_usedSizeBytes := ucast numABlocks * ucast blockSize - ucast freeABlocks * ucast blockSize\<rparr>
      in if nameLen > 0 \<and> nameLen \<le> 27 then info\<lparr>fi_label := extractString vh 0x25 (unat nameLen)\<rparr> else info)"

definition readHfsPlus :: "DiskReadCallback \<Rightarrow> FilesystemInfoData Result" where
  "readHfsPlus readFunc =
     (let vh = safeRead readFunc 1024 512 in
      if length vh < 162 then fail DiskReadError ''Failed to read HFS+ volume header''
      else
        (let sig = readBE16 vh 0 in
         if sig = 0x4244 then Inr (hfsClassic vh)
         else
           (let blockSize = readBE32 vh 0x28;
                totalBlocks = readBE32 vh 0x2C;
                freeBlocks = readBE32 vh 0x30
            in Inr (fi_default\<lparr>fi_type := HFSPlus, fi_typeName := (if sig = 0x4858 then ''HFSX'' else ''HFS+''),
                 fi_hfsplus := \<lparr>hp_version = readBE16 vh 2, hp_fileCount = readBE32 vh 0x1C, hp_folderCount = readBE32 vh 0x20\<rparr>,
                 fi_blockSize := blockSize, fi_totalBlocks := ucast totalBlocks, fi_freeBlocks := ucast freeBlocks,
                 fi_totalSizeBytes := ucast totalBlocks * ucast blockSize,
                 fi_freeSizeBytes := ucast freeBlocks * ucast blockSize,
                 fi_usedSizeBytes := ucast totalBlocks * ucast blockSize - ucast freeBlocks * ucast blockSize\<rparr>))))"

definition readApfs :: "DiskReadCallback \<Rightarrow> FilesystemInfoData Result" where
  "readApfs readFunc =
     (let nxsb = safeRead readFunc 0 4096 in
      if length nxsb < 128 then fail DiskReadError ''Failed to read APFS container superblock''
      else
        (let blockSize = readLE32 nxsb 36;
             blockCount = readLE64 nxsb 40;
             info = fi_default\<lparr>fi_type := APFS, fi_typeName := ''APFS'', fi_blockSize := blockSize,
               fi_totalBlocks := blockCount, fi_totalSizeBytes := blockCount * ucast blockSize\<rparr>
         in Inr (if length nxsb \<ge> 72 then info\<lparr>fi_uuid := uuidText nxsb 56\<rparr> else info)))"

section \<open>Entry points\<close>

definition readGeneric :: "FilesystemType \<Rightarrow> DiskReadCallback \<Rightarrow> u64 \<Rightarrow> FilesystemInfoData Result run" where
  "readGeneric type readFunc volumeSize =
     run_bind (detect readFunc volumeSize) (\<lambda>r. Done (andThen r (\<lambda>det.
       Inr (fi_default\<lparr>fi_type := type, fi_typeName := filesystemName type, fi_label := fd_label det,
         fi_uuid := fd_uuid det, fi_blockSize := fd_blockSize det, fi_totalSizeBytes := volumeSize\<rparr>))))"

definition readInfo :: "FilesystemType \<Rightarrow> DiskReadCallback \<Rightarrow> u64 \<Rightarrow> FilesystemInfoData Result run" where
  "readInfo type readFunc volumeSize =
     (case type of
        NTFS \<Rightarrow> readNtfs readFunc
      | FAT12 \<Rightarrow> Done (readFat readFunc) | FAT16 \<Rightarrow> Done (readFat readFunc) | FAT32 \<Rightarrow> Done (readFat readFunc)
      | ExFAT \<Rightarrow> Done (readExfat readFunc)
      | Ext2 \<Rightarrow> Done (readExt readFunc type) | Ext3 \<Rightarrow> Done (readExt readFunc type) | Ext4 \<Rightarrow> Done (readExt readFunc type)
      | Btrfs \<Rightarrow> Done (readBtrfs readFunc)
      | XFS \<Rightarrow> Done (readXfs readFunc)
      | HFSPlus \<Rightarrow> Done (readHfsPlus readFunc) | HFS \<Rightarrow> Done (readHfsPlus readFunc)
      | APFS \<Rightarrow> Done (readApfs readFunc)
      | _ \<Rightarrow> readGeneric type readFunc volumeSize)"

definition detectAndRead :: "DiskReadCallback \<Rightarrow> u64 \<Rightarrow> FilesystemInfoData Result run" where
  "detectAndRead readFunc volumeSize =
     run_bind (detect readFunc volumeSize) (\<lambda>r.
       case r of
         Inl e \<Rightarrow> Done (Inl e)
       | Inr detection \<Rightarrow>
           if \<not> isDetected detection then Done (Inr (fi_default\<lparr>fi_type := UnknownFs, fi_typeName := ''Unknown''\<rparr>))
           else readInfo (fd_type detection) readFunc volumeSize)"

end
