(* ===== verification/Fs_Probes.thy ===== *)
theory Fs_Probes
  imports Fs_Detector
begin

text \<open>
  The types that the probes of \<open>disk/FilesystemDetector.cpp\<close> report: each probe has types of its own, so
  the type that \<open>detect\<close> finds tells which probe has recognized the volume.
\<close>

definition generic_types :: "FilesystemType set" where
  "generic_types = - {UnknownFs, NTFS, FAT12, FAT16, FAT32, ExFAT, Ext2, Ext3, Ext4, Btrfs, XFS, HFSPlus, HFS, APFS}"

lemma swapPages_type: "swapPages f d vol sizes = Some d' \<Longrightarrow> fd_type d' = SWAP_LINUX"
  by (induction sizes) (auto simp: Let_def split: if_splits)

lemma generic_probes:
  "detectReFs f d = Some d' \<Longrightarrow> fd_type d' \<in> generic_types"
  "detectReiserFs f d = Some d' \<Longrightarrow> fd_type d' \<in> generic_types"
  "detectJfs f d = Some d' \<Longrightarrow> fd_type d' \<in> generic_types"
  "detectZfs f d = Some d' \<Longrightarrow> fd_type d' \<in> generic_types"
  "detectIso9660 f d = Some d' \<Longrightarrow> fd_type d' \<in> generic_types"
  "detectUdf f d = Some d' \<Longrightarrow> fd_type d' \<in> generic_types"
  "detectSquashFs f d = Some d' \<Longrightarrow> fd_type d' \<in> generic_types"
  "detectCramFs f d = Some d' \<Longrightarrow> fd_type d' \<in> generic_types"
  "detectRomFs f d = Done (Some d') \<Longrightarrow> fd_type d' \<in> generic_types"
  "detectHpfs f d = Some d' \<Longrightarrow> fd_type d' \<in> generic_types"
  "detectMinix f d = Some d' \<Longrightarrow> fd_type d' \<in> generic_types"
  "detectUfs f d = Some d' \<Longrightarrow> fd_type d' \<in> generic_types"
  "detectBfs f d = Some d' \<Longrightarrow> fd_type d' \<in> generic_types"
  "detectQnx4 f d = Some d' \<Longrightarrow> fd_type d' \<in> generic_types"
  by (auto simp: generic_types_def detectReFs_def detectReiserFs_def detectJfs_def detectZfs_def detectIso9660_def
      detectUdf_def detectSquashFs_def detectCramFs_def detectRomFs_def detectHpfs_def detectMinix_def detectUfs_def
      detectBfs_def detectQnx4_def Let_def require_Done_iff split: if_splits)

lemma linuxswap_generic: "detectLinuxSwap f d vol = Some d' \<Longrightarrow> fd_type d' \<in> generic_types"
  by (auto simp: generic_types_def detectLinuxSwap_def simp del: swapPages.simps dest!: swapPages_type)

lemma f2fs_generic: "detectF2fs f d = Some d' \<Longrightarrow> fd_type d' \<in> generic_types"
  by (auto simp: generic_types_def detectF2fs_def Let_def simp del: upt_rec_numeral split: if_splits)

lemma jffs2_generic: "detectJffs2 f d = Some d' \<Longrightarrow> fd_type d' \<in> generic_types"
  by (auto simp: generic_types_def detectJffs2_def Let_def split: if_splits)

lemma nilfs2_generic: "detectNilfs2 f d = Some d' \<Longrightarrow> fd_type d' \<in> generic_types"
  by (auto simp: generic_types_def detectNilfs2_def Let_def split: if_splits)

lemma fatx_generic: "detectFatx f d = Some d' \<Longrightarrow> fd_type d' \<in> generic_types"
  by (auto simp: generic_types_def detectFatx_def Let_def simp del: upt_rec_numeral split: if_splits)

lemma stfs_generic: "detectStfs f d = Some d' \<Longrightarrow> fd_type d' \<in> generic_types"
  by (auto simp: generic_types_def detectStfs_def Let_def split: if_splits)

lemma gdfx_generic: "detectGdfx f d = Some d' \<Longrightarrow> fd_type d' \<in> generic_types"
  by (auto simp: generic_types_def detectGdfx_def Let_def split: if_splits)

lemma vhdx_generic: "detectVhdx f d = Some d' \<Longrightarrow> fd_type d' \<in> generic_types"
  by (auto simp: generic_types_def detectVhdx_def Let_def split: if_splits)

lemma vmdk_generic: "detectVmdk f d = Some d' \<Longrightarrow> fd_type d' \<in> generic_types"
  by (auto simp: generic_types_def detectVmdk_def Let_def split: if_splits)

lemma qcow2_generic: "detectQcow2 f d = Some d' \<Longrightarrow> fd_type d' \<in> generic_types"
  by (auto simp: generic_types_def detectQcow2_def Let_def split: if_splits)

lemma vdi_generic: "detectVdi f d = Some d' \<Longrightarrow> fd_type d' \<in> generic_types"
  by (auto simp: generic_types_def detectVdi_def Let_def split: if_splits)

lemma vhd_generic: "detectVhd f d vol = Some d' \<Longrightarrow> fd_type d' \<in> generic_types"
  by (auto simp: generic_types_def detectVhd_def Let_def split: if_splits)

lemma rvz_generic: "detectRvz f d = Some d' \<Longrightarrow> fd_type d' \<in> generic_types"
  by (auto simp: generic_types_def detectRvz_def Let_def split: if_splits)

lemma nrg_generic: "detectNrg f d vol = Some d' \<Longrightarrow> fd_type d' \<in> generic_types"
  by (auto simp: generic_types_def detectNrg_def Let_def split: if_splits)

lemma wbfs_generic: "detectWbfs f d = Some d' \<Longrightarrow> fd_type d' \<in> generic_types"
  by (auto simp: generic_types_def detectWbfs_def Let_def split: if_splits)

lemma ps2mc_generic: "detectPs2mc f d = Done (Some d') \<Longrightarrow> fd_type d' \<in> generic_types"
  by (auto simp: generic_types_def detectPs2mc_def Let_def require_Done_iff split: if_splits)

lemmas generic_types_probes = generic_probes linuxswap_generic f2fs_generic jffs2_generic nilfs2_generic fatx_generic stfs_generic gdfx_generic vhdx_generic vmdk_generic qcow2_generic vdi_generic vhd_generic rvz_generic nrg_generic wbfs_generic ps2mc_generic

lemma firstDetected_cases:
  "firstDetected ps d0 = Done d \<Longrightarrow> d = d0 \<or> Done (Some d) \<in> set ps"
  by (induction ps) (auto simp: run_bind_Done_iff split: option.splits)

lemma probe_types:
  "detectNtfs f fd_default = Some d \<Longrightarrow> fd_type d = NTFS" "detectExfat f fd_default = Done (Some d) \<Longrightarrow> fd_type d = ExFAT"
  "detectBtrfs f fd_default = Some d \<Longrightarrow> fd_type d = Btrfs" "detectXfs f fd_default = Some d \<Longrightarrow> fd_type d = XFS"
  "detectApfs f fd_default = Some d \<Longrightarrow> fd_type d = APFS"
  "detectExt f fd_default = Some d \<Longrightarrow> fd_type d = Ext2 \<or> fd_type d = Ext3 \<or> fd_type d = Ext4"
  "detectHfsPlus f fd_default = Some d \<Longrightarrow> fd_type d = HFSPlus \<or> fd_type d = HFS"
  "detectFat f fd_default = Some d \<Longrightarrow> fd_type d = FAT12 \<or> fd_type d = FAT16 \<or> fd_type d = FAT32"
  by (auto simp: detectNtfs_def detectExfat_def detectBtrfs_def detectXfs_def detectApfs_def detectExt_def
      detectHfsPlus_def detectFat_def Let_def require_Done_iff split: if_split_asm)

definition known_probe :: "DiskReadCallback \<Rightarrow> FilesystemDetection \<Rightarrow> bool" where
  "known_probe f d \<longleftrightarrow> fd_type d \<in> generic_types \<or> detectNtfs f fd_default = Some d \<or> detectExfat f fd_default = Done (Some d) \<or>
    detectBtrfs f fd_default = Some d \<or> detectXfs f fd_default = Some d \<or> detectApfs f fd_default = Some d \<or>
    detectExt f fd_default = Some d \<or> detectHfsPlus f fd_default = Some d \<or> detectFat f fd_default = Some d"

lemma known_probes:
  "fd_type d \<in> generic_types \<Longrightarrow> known_probe f d"
  "detectNtfs f fd_default = Some d \<Longrightarrow> known_probe f d" "detectExfat f fd_default = Done (Some d) \<Longrightarrow> known_probe f d"
  "detectBtrfs f fd_default = Some d \<Longrightarrow> known_probe f d" "detectXfs f fd_default = Some d \<Longrightarrow> known_probe f d"
  "detectApfs f fd_default = Some d \<Longrightarrow> known_probe f d" "detectExt f fd_default = Some d \<Longrightarrow> known_probe f d"
  "detectHfsPlus f fd_default = Some d \<Longrightarrow> known_probe f d" "detectFat f fd_default = Some d \<Longrightarrow> known_probe f d"
  by (simp_all add: known_probe_def)

lemma probes_known: "list_all (\<lambda>p. \<forall>d. p = Done (Some d) \<longrightarrow> known_probe f d) (probes f vol fd_default)"
  unfolding probes_def list.pred_inject run.inject
  by (intro conjI allI impI list.pred_inject(1)) (erule known_probes generic_types_probes [THEN known_probes(1)])+

lemma detect_probe:
  assumes "detect f vol = Done (Inr d)" "isDetected d"
  shows "known_probe f d"
proof -
  have "firstDetected (probes f vol fd_default) (fd_default\<lparr>fd_type := UnknownFs, fd_description := ''Unknown or unformatted''\<rparr>) = Done d"
    using assms(1) by (auto simp: detect_def run_bind_Done_iff)
  from firstDetected_cases [OF this] assms(2) have "Done (Some d) \<in> set (probes f vol fd_default)"
    by (auto simp: isDetected_def)
  with probes_known [of f vol] show ?thesis by (auto simp: list_all_iff)
qed

end
