(* ===== verification/Fs_Info_Agree.thy ===== *)
theory Fs_Info_Agree
  imports Fs_Info Fs_Probes
begin

text \<open>
  The details of a file system (\<open>disk/FilesystemInfo.cpp\<close>) agree with the detection of the same volume
  (\<open>disk/FilesystemDetector.cpp\<close>), although the two parse the structures on the disk independently.
\<close>

section \<open>The readers\<close>

text \<open>The walk over the attributes changes the label and the NTFS details only.\<close>

definition ntfs_same :: "FilesystemInfoData \<Rightarrow> FilesystemInfoData \<Rightarrow> bool" where
  "ntfs_same info info' \<longleftrightarrow> (\<exists>l n. info' = info\<lparr>fi_label := l, fi_ntfs := n\<rparr>)"

lemma ntfs_same_refl [simp]: "ntfs_same info info"
  unfolding ntfs_same_def by (rule exI [of _ "fi_label info"], rule exI [of _ "fi_ntfs info"]) simp

lemma ntfs_same_trans: "ntfs_same a b \<Longrightarrow> ntfs_same b c \<Longrightarrow> ntfs_same a c"
  unfolding ntfs_same_def by force

lemma ntfs_same_updates [simp]:
  "ntfs_same info (info\<lparr>fi_label := l\<rparr>)" "ntfs_same info (info\<lparr>fi_ntfs := n\<rparr>)"
  unfolding ntfs_same_def by (rule exI [of _ l], rule exI [of _ "fi_ntfs info"], simp)
    (rule exI [of _ "fi_label info"], rule exI [of _ n], simp)

lemma ntfsVolumeName_same: "ntfsVolumeName r n pos info = Done info' \<Longrightarrow> ntfs_same info info'"
  by (auto simp: ntfsVolumeName_def Let_def require_Done_iff run_bind_Done_iff split: if_splits)

lemma ntfsVolumeInformation_same: "ntfsVolumeInformation r n pos info = Done info' \<Longrightarrow> ntfs_same info info'"
  by (auto simp: ntfsVolumeInformation_def Let_def require_Done_iff split: if_splits)

lemma ntfsAttribute_same:
  "ntfsAttribute r n (pos, info) = Done (Inl info') \<Longrightarrow> ntfs_same info info'"
  "ntfsAttribute r n (pos, info) = Done (Inr (pos', info')) \<Longrightarrow> ntfs_same info info'"
  by (auto simp: ntfsAttribute_def Let_def require_Done_iff run_bind_Done_iff split: if_splits
      dest: ntfsVolumeName_same ntfsVolumeInformation_same)

lemma ntfsVolumeRecord_same:
  assumes "ntfsVolumeRecord f info = Done info'"
  shows "ntfs_same info info'"
proof (cases "info' = info")
  case False
  then obtain r n s where "run_iter (ntfsAttribute r n) (s, info) = Done info'"
    using assms by (auto simp: ntfsVolumeRecord_def Let_def require_Done_iff split: if_splits)
  then show ?thesis
    by (rule run_iter_invariant [where I = "\<lambda>(pos, i). ntfs_same info i"])
      (auto dest: ntfsAttribute_same intro: ntfs_same_trans)
qed simp

text \<open>One lemma per reader: what a found volume and its details have in common.\<close>

definition same_identity :: "FilesystemDetection \<Rightarrow> FilesystemInfoData \<Rightarrow> bool" where
  "same_identity d info \<longleftrightarrow> fi_type info = fd_type d \<and>
     (fd_type d \<notin> {Btrfs, APFS} \<longrightarrow> fi_uuid info = fd_uuid d) \<and>
     (fd_type d \<notin> {NTFS, ExFAT, Btrfs, HFS} \<longrightarrow> fi_label info = fd_label d) \<and>
     (fd_type d \<notin> {ExFAT, Btrfs, HFS} \<longrightarrow> fd_blockSize d \<noteq> 0 \<longrightarrow> fi_blockSize info = fd_blockSize d)"

lemma ntfs_identity:
  assumes "detectNtfs f fd_default = Some d" "readNtfs f = Done (Inr info)"
  shows "fd_type d = NTFS \<and> same_identity d info"
  using assms
  by (auto simp: detectNtfs_def readNtfs_def Let_def same_identity_def fd_default_def fi_default_def run_bind_Done_iff
      ntfs_same_def split: if_splits dest!: ntfsVolumeRecord_same)

lemma exfat_identity:
  assumes "detectExfat f fd_default = Done (Some d)" "readExfat f = Inr info"
  shows "fd_type d = ExFAT \<and> same_identity d info"
  using assms
  by (auto simp: detectExfat_def readExfat_def Let_def same_identity_def fd_default_def fi_default_def require_Done_iff
      split: if_splits option.splits)

lemma ext_identity:
  assumes "detectExt f fd_default = Some d"
    and "readExt f (fd_type d) = Inr info"
  shows "fd_type d \<in> {Ext2, Ext3, Ext4} \<and> same_identity d info"
  using assms
  by (auto simp: detectExt_def readExt_def Let_def same_identity_def fd_default_def fi_default_def split: if_splits)

lemma btrfs_identity:
  assumes "detectBtrfs f fd_default = Some d" "readBtrfs f = Inr info"
  shows "fd_type d = Btrfs \<and> same_identity d info"
  using assms
  by (auto simp: detectBtrfs_def readBtrfs_def Let_def same_identity_def fi_default_def split: if_splits)

text \<open>
  The reader of Btrfs asks for the first 512 bytes of what the probe asks for. If both requests see the same
  volume, the identifier and the size of a sector agree; the label, which the probe finds, lies behind
  what the reader asked for.
\<close>

definition btrfs_requests_agree :: "DiskReadCallback \<Rightarrow> bool" where
  "btrfs_requests_agree f \<longleftrightarrow> safeRead f 0x10000 0x200 = take 512 (safeRead f 0x10000 0x1000)"

lemma btrfs_agree:
  assumes "detectBtrfs f fd_default = Some d" "readBtrfs f = Inr info" "btrfs_requests_agree f"
  shows "fi_uuid info = fd_uuid d \<and> fi_blockSize info = fd_blockSize d \<and> fi_label info = []"
proof -
  let ?D = "safeRead f 0x10000 0x1000"
  note e = assms(3) [unfolded btrfs_requests_agree_def]
  have len: "0x1A0 \<le> length ?D" using assms(2) by (simp add: readBtrfs_def Let_def e split: if_split_asm)
  then have "readLE32 (take 512 ?D) 0x80 = readLE32 ?D 0x80" "uuidText (take 512 ?D) 0x20 = uuidText ?D 0x20"
    by (simp_all add: readLE32_def uuidText_def Let_def)
  with assms(1,2) len show ?thesis
    by (auto simp: detectBtrfs_def readBtrfs_def Let_def e fi_default_def fd_default_def split: if_split_asm)
qed

lemma xfs_identity:
  assumes "detectXfs f fd_default = Some d" "readXfs f = Inr info"
  shows "fd_type d = XFS \<and> same_identity d info"
  using assms
  by (auto simp: detectXfs_def readXfs_def Let_def same_identity_def fi_default_def split: if_splits)

lemma apfs_identity:
  assumes "detectApfs f fd_default = Some d" "readApfs f = Inr info"
  shows "fd_type d = APFS \<and> same_identity d info"
  using assms
  by (auto simp: detectApfs_def readApfs_def Let_def same_identity_def fi_default_def fd_default_def split: if_splits)

lemma hfsPlus_identity:
  assumes "detectHfsPlus f fd_default = Some d" "readHfsPlus f = Inr info"
  shows "fd_type d \<in> {HFSPlus, HFS} \<and> same_identity d info"
  using assms
  by (auto simp: detectHfsPlus_def readHfsPlus_def hfsClassic_def Let_def same_identity_def fi_default_def fd_default_def
      split: if_splits)

text \<open>The FAT reader computes the number of clusters like the probe.\<close>

lemma fatInfoClusters_eq:
  assumes "fatDataStart bpb < fatTotalSectors bpb" "bpb ! 0x0D \<noteq> 0"
  shows "fatInfoClusters bpb = (fatTotalSectors bpb - fatDataStart bpb) div ucast (bpb ! 0x0D)"
  using assms
  by (simp add: fatInfoClusters_def fatDataStart_def fatTotalSectors_def fatSizeOf_def Let_def word_gt_0 split del: if_split)

lemma fatFreeClusters_same:
  "fi_type (fatFreeClusters f bpb info) = fi_type info" "fi_label (fatFreeClusters f bpb info) = fi_label info"
  "fi_uuid (fatFreeClusters f bpb info) = fi_uuid info" "fi_blockSize (fatFreeClusters f bpb info) = fi_blockSize info"
  "fi_totalBlocks (fatFreeClusters f bpb info) = fi_totalBlocks info" "fi_fat (fatFreeClusters f bpb info) = fi_fat info"
  "fi_totalSizeBytes (fatFreeClusters f bpb info) = fi_totalSizeBytes info"
  by (simp_all add: fatFreeClusters_def Let_def)

lemma fatLabelAndSerial_same:
  "fi_type (fatLabelAndSerial bpb b info) = fi_type info" "fi_blockSize (fatLabelAndSerial bpb b info) = fi_blockSize info"
  "fi_totalBlocks (fatLabelAndSerial bpb b info) = fi_totalBlocks info"
  "fi_totalSizeBytes (fatLabelAndSerial bpb b info) = fi_totalSizeBytes info"
  "fi_fat (fatLabelAndSerial bpb b info) = (fi_fat info)\<lparr>ft_volumeSerial := readLE32 bpb (if b then 0x43 else 0x27)\<rparr>"
  "fi_label (fatLabelAndSerial bpb b info) =
     (let l = extractString bpb (if b then 0x47 else 0x2B) 11 in if l = ascii ''NO NAME'' then [] else l)"
  "fi_uuid (fatLabelAndSerial bpb b info) =
     (let serial = readLE32 bpb (if b then 0x43 else 0x27) in if serial \<noteq> 0 then serialText serial else fi_uuid info)"
  by (simp_all add: fatLabelAndSerial_def Let_def)

lemma readFat_fields:
  assumes "readFat f = Inr info"
  defines "b \<equiv> safeRead f 0 512"
  defines "F \<equiv> readLE16 b 0x16 = 0"
  shows "fi_type info = fst (fatKind (fatInfoClusters b))" "fi_totalBlocks info = ucast (fatInfoClusters b)"
    "fi_blockSize info = ucast (readLE16 b 0x0B) * ucast (b ! 0x0D)"
    "fi_totalSizeBytes info = ucast (if readLE16 b 0x13 \<noteq> 0 then ucast (readLE16 b 0x13) else readLE32 b 0x20 :: u32)
       * ucast (readLE16 b 0x0B)"
    "fi_label info = (let l = extractString b (if F then 0x47 else 0x2B) 11 in if l = ascii ''NO NAME'' then [] else l)"
    "fi_uuid info = (let serial = readLE32 b (if F then 0x43 else 0x27) in if serial \<noteq> 0 then serialText serial else [])"
    "fi_fat info = \<lparr>ft_fatCount = b ! 0x10, ft_fatSize = (if F then readLE32 b 0x24 else ucast (readLE16 b 0x16)),
       ft_reservedSectors = readLE16 b 0x0E, ft_rootEntryCount = readLE16 b 0x11, ft_totalClusters = fatInfoClusters b,
       ft_volumeSerial = readLE32 b (if F then 0x43 else 0x27), ft_oemName = extractString b 3 8\<rparr>"
proof -
  obtain i where i: "info = (if F then fatFreeClusters f b (fatLabelAndSerial b F i) else fatLabelAndSerial b F i)"
    and e: "i = fi_default\<lparr>fi_type := fst (fatKind (fatInfoClusters b)), fi_typeName := snd (fatKind (fatInfoClusters b)),
      fi_blockSize := ucast (readLE16 b 0x0B) * ucast (b ! 0x0D), fi_totalBlocks := ucast (fatInfoClusters b),
      fi_totalSizeBytes := ucast (if readLE16 b 0x13 \<noteq> 0 then ucast (readLE16 b 0x13) else readLE32 b 0x20 :: u32)
        * ucast (readLE16 b 0x0B),
      fi_fat := \<lparr>ft_fatCount = b ! 0x10, ft_fatSize = (if F then readLE32 b 0x24 else ucast (readLE16 b 0x16)),
        ft_reservedSectors = readLE16 b 0x0E, ft_rootEntryCount = readLE16 b 0x11, ft_totalClusters = fatInfoClusters b,
        ft_volumeSerial = 0, ft_oemName = extractString b 3 8\<rparr>\<rparr>"
    using assms(1) unfolding readFat_def Let_def b_def [symmetric] F_def [symmetric] by (simp split: if_split_asm)
  have f: "fi_type i = fst (fatKind (fatInfoClusters b))" "fi_totalBlocks i = ucast (fatInfoClusters b)"
    "fi_blockSize i = ucast (readLE16 b 0x0B) * ucast (b ! 0x0D)" "fi_uuid i = []"
    "fi_totalSizeBytes i = ucast (if readLE16 b 0x13 \<noteq> 0 then ucast (readLE16 b 0x13) else readLE32 b 0x20 :: u32)
       * ucast (readLE16 b 0x0B)"
    "fi_fat i = \<lparr>ft_fatCount = b ! 0x10, ft_fatSize = (if F then readLE32 b 0x24 else ucast (readLE16 b 0x16)),
        ft_reservedSectors = readLE16 b 0x0E, ft_rootEntryCount = readLE16 b 0x11, ft_totalClusters = fatInfoClusters b,
        ft_volumeSerial = 0, ft_oemName = extractString b 3 8\<rparr>"
    unfolding e by (simp_all add: fi_default_def)
  note same = fatFreeClusters_same fatLabelAndSerial_same f
  show "fi_type info = fst (fatKind (fatInfoClusters b))" "fi_totalBlocks info = ucast (fatInfoClusters b)"
    "fi_blockSize info = ucast (readLE16 b 0x0B) * ucast (b ! 0x0D)"
    "fi_totalSizeBytes info = ucast (if readLE16 b 0x13 \<noteq> 0 then ucast (readLE16 b 0x13) else readLE32 b 0x20 :: u32)
       * ucast (readLE16 b 0x0B)"
    "fi_label info = (let l = extractString b (if F then 0x47 else 0x2B) 11 in if l = ascii ''NO NAME'' then [] else l)"
    "fi_uuid info = (let serial = readLE32 b (if F then 0x43 else 0x27) in if serial \<noteq> 0 then serialText serial else [])"
    by (cases F; simp only: i same if_True if_False Let_def)+
  show "fi_fat info = \<lparr>ft_fatCount = b ! 0x10, ft_fatSize = (if F then readLE32 b 0x24 else ucast (readLE16 b 0x16)),
       ft_reservedSectors = readLE16 b 0x0E, ft_rootEntryCount = readLE16 b 0x11, ft_totalClusters = fatInfoClusters b,
       ft_volumeSerial = readLE32 b (if F then 0x43 else 0x27), ft_oemName = extractString b 3 8\<rparr>"
    by (cases F) (simp_all add: i same)
qed

lemma readFat_fat32:
  assumes "readFat f = Inr info" "readLE16 (safeRead f 0 512) 0x16 = 0"
  shows "\<exists>j. info = fatFreeClusters f (safeRead f 0 512) j"
  using assms by (auto simp: readFat_def Let_def split: if_split_asm)

lemma detectFat_fields:
  assumes "detectFat f fd_default = Some d"
  defines "b \<equiv> safeRead f 0 512"
  defines "n \<equiv> (fatTotalSectors b - fatDataStart b) div ucast (b ! 0x0D)"
    and "F \<equiv> readLE16 b 0x16 = 0"
  shows "fatBpbOk b" "fatDataStart b < fatTotalSectors b" "fd_type d = fst (fatKind n)"
    "fd_blockSize d = ucast (readLE16 b 0x0B) * ucast (b ! 0x0D)"
    "fd_label d = (let l = extractString b (if F then 0x47 else 0x2B) 11 in if l = ascii ''NO NAME'' then [] else l)"
    "fd_uuid d = (let serial = readLE32 b (if F then 0x43 else 0x27) in if serial \<noteq> 0 then serialText serial else [])"
  using assms(1) unfolding detectFat_def Let_def b_def [symmetric] n_def [symmetric] F_def [symmetric] fd_default_def
  by (auto simp: not_le fatKind_def split: if_split_asm)

lemma fat_identity:
  assumes "detectFat f fd_default = Some d" "readFat f = Inr info"
  shows "fd_type d \<in> {FAT12, FAT16, FAT32} \<and> same_identity d info"
proof -
  note d = detectFat_fields [OF assms(1)] and i = readFat_fields [OF assms(2)]
  from d(1) have "safeRead f 0 512 ! 0x0D \<noteq> 0" by (auto simp: fatBpbOk_def Let_def)
  note c = fatInfoClusters_eq [OF d(2) this]
  have "fd_type d \<in> {FAT12, FAT16, FAT32}" by (simp add: d(3) fatKind_def)
  moreover have "fi_type info = fd_type d" "fi_uuid info = fd_uuid d" "fi_label info = fd_label d" "fi_blockSize info = fd_blockSize d"
    by (simp_all only: d(3-6) i(1,3,5,6) c)
  ultimately show ?thesis by (simp add: same_identity_def)
qed

lemma generic_identity:
  assumes "detect f vol = Done (Inr d)" "readGeneric (fd_type d) f vol = Done (Inr info)"
  shows "same_identity d info"
  using assms by (auto simp: readGeneric_def andThen_def same_identity_def)

lemmas named_probes = ntfs_identity exfat_identity ext_identity btrfs_identity xfs_identity apfs_identity hfsPlus_identity
  fat_identity


section \<open>Witness\<close>

text \<open>An XFS volume with blocks of 4096 bytes.\<close>

definition xfs_sector :: bytes where
  "xfs_sector = blit 0x6C (ascii ''work'') ((replicate 512 0)[0 := 0x58, 1 := 0x46, 2 := 0x53, 3 := 0x42, 6 := 0x10])"

definition xfs_volume :: DiskReadCallback where
  "xfs_volume off n = (if off = 0 then Inr xfs_sector else fail DiskReadError [])"

lemma xfs_sector_fields:
  "length xfs_sector = 512" "\<not> memEqual xfs_sector 3 ''NTFS    ''" "\<not> memEqual xfs_sector 3 ''EXFAT   ''"
  "readBE32 xfs_sector 0 = 0x58465342" "readBE32 xfs_sector 4 = 4096"
  by code_simp+

lemma xfs_volume_read: "safeRead xfs_volume off n = (if off = 0 then xfs_sector else [])"
  by (simp add: safeRead_def xfs_volume_def)

lemma xfs_volume_detected: "\<exists>d. detect xfs_volume 0 = Done (Inr d) \<and> fd_type d = XFS \<and> fd_blockSize d = 4096"
proof -
  have "detectNtfs xfs_volume fd_default = None" "detectExfat xfs_volume fd_default = Done None"
    "detectBtrfs xfs_volume fd_default = None"
    by (simp_all add: detectNtfs_def detectExfat_def detectBtrfs_def Let_def xfs_volume_read xfs_sector_fields)
  moreover have "\<exists>d. detectXfs xfs_volume fd_default = Some d \<and> fd_type d = XFS \<and> fd_blockSize d = 4096"
    by (simp add: detectXfs_def Let_def xfs_volume_read xfs_sector_fields)
  ultimately show ?thesis by (auto simp: detect_def probes_def)
qed


end
