(* ===== verification/Fs_Info_Correct.thy ===== *)
theory Fs_Info_Correct
  imports Fs_Info Fs_Info_Agree Ext_Layout Format_Fat32
begin

text \<open>
  What the details of a file system say of a volume that the format engine has written, and the walk
  over the attributes of an NTFS record, whose step is a 32-bit number of the disk and which need not end.
\<close>

section \<open>A formatted FAT32 volume\<close>

lemma fat32FsInfo_fields:
  "length (fat32FsInfo l) = 512" "readLE32 (fat32FsInfo l) 0 = 0x41615252" "readLE32 (fat32FsInfo l) 484 = 0x61417272"
  "readLE32 (fat32FsInfo l) 488 = fl_totalClusters l - 1"
  unfolding fat32FsInfo_def Let_def by (simp_all add: buf_simps)

lemma fat32_bytes:
  assumes "fat32Layout partSize clusterSize = Inr l" "34 \<le> partSize div 512"
  shows "unat (ucast (fl_totalClusters l - 1) * ucast (512 * ucast (fl_sectorsPerCluster l) :: u32) :: u64) =
      (unat (fl_totalClusters l) - 1) * (512 * unat (fl_sectorsPerCluster l))"
    "(unat (fl_totalClusters l) - 1) * (512 * unat (fl_sectorsPerCluster l)) \<le> unat (partSize div 512 * 512)"
    "unat (partSize div 512 * 512) = unat (partSize div 512) * 512"
proof -
  note c = fat32Layout_consistent [OF assms]
  let ?n = "unat (fl_totalClusters l)" and ?s = "unat (fl_sectorsPerCluster l)" and ?t = "unat (partSize div 512)"
  have "?t < 2 ^ 32" using c by (simp add: word_le_nat_alt)
  then show t: "unat (partSize div 512 * 512) = ?t * 512" by (simp add: unat_word_ariths)
  have nz: "fl_totalClusters l \<noteq> 0" using c by auto
  have "(?n - 1) * ?s \<le> ?n * ?s" by simp
  also have "\<dots> \<le> ?t" using c by linarith
  finally have le: "(?n - 1) * ?s \<le> ?t" .
  then show "(?n - 1) * (512 * ?s) \<le> unat (partSize div 512 * 512)" unfolding t by simp
  have "?s < 2 ^ 8" using unsigned_less [of "fl_sectorsPerCluster l"] by simp
  then have s: "unat (512 * ucast (fl_sectorsPerCluster l) :: u32) = 512 * ?s"
    by (simp add: unat_word_ariths unat_ucast_byte)
  have "(?n - 1) * (512 * ?s) = 512 * ((?n - 1) * ?s)" by simp
  also have "\<dots> \<le> 512 * ?t" using le by (rule mult_le_mono2)
  also have "\<dots> < 2 ^ 64" using \<open>?t < 2 ^ 32\<close> by simp
  finally have "(?n - 1) * (512 * ?s) < 2 ^ 64" .
  moreover have "unat (ucast a * ucast b :: u64) = unat a * unat b mod 2 ^ 64" for a b :: u32
    by (simp add: unat_word_ariths unat_ucast_32_64)
  ultimately show "unat (ucast (fl_totalClusters l - 1) * ucast (512 * ucast (fl_sectorsPerCluster l) :: u32) :: u64) =
      (?n - 1) * (512 * ?s)"
    by (simp add: s unat_minus_one [OF nz])
qed

text \<open>
  C34. The details of a volume that \<open>formatFat32Large\<close> has written are those of its layout: FAT32, the
  label, the serial number, the cluster size, the number of clusters, all of them but the one of the root
  directory free, the size rounded down to whole sectors, and the used and the free bytes add up to it.
\<close>

theorem fat32_format_read_back:
  assumes "fat32Layout partSize clusterSize = Inr l" "34 \<le> partSize div 512"
    and "safeRead f 0 512 = fat32BootSector l serial label" "safeRead f 512 512 = fat32FsInfo l"
  shows "\<exists>info. readFat f = Inr info \<and> fi_type info = FAT32 \<and>
    fi_label info = (let t = trimSpaces (takeWhile (\<lambda>b. b \<noteq> 0) (take 11 label)) in
      if label = [] \<or> t = ascii ''NO NAME'' then [] else t) \<and>
    fi_uuid info = (if serial \<noteq> 0 then serialText serial else []) \<and>
    fi_blockSize info = 512 * ucast (fl_sectorsPerCluster l) \<and>
    fi_totalBlocks info = ucast (fl_totalClusters l) \<and> fi_freeBlocks info = ucast (fl_totalClusters l - 1) \<and>
    fi_totalSizeBytes info = partSize div 512 * 512 \<and>
    unat (fi_usedSizeBytes info) + unat (fi_freeSizeBytes info) = unat (fi_totalSizeBytes info) \<and>
    fi_fat info = \<lparr>ft_fatCount = 2, ft_fatSize = fl_fatSize l, ft_reservedSectors = 32, ft_rootEntryCount = 0,
      ft_totalClusters = fl_totalClusters l, ft_volumeSerial = serial, ft_oemName = ascii ''MSWIN4.1''\<rparr>"
proof -
  let ?b = "fat32BootSector l serial label"
  note f = fat32BootSector_fields [of l serial label] and g = fat32Layout_cluster [OF assms(1)]
  note c = fat32BootSector_clusters [OF assms(1,2), where serial = serial and label = label]
  note bytes = fat32_bytes [OF assms(1,2)] and i = fat32FsInfo_fields [of l]
  have cl: "fatInfoClusters ?b = fl_totalClusters l"
    using fatInfoClusters_eq [of ?b] c(2,3) g(1) f(3) by simp
  have ne: "fl_totalClusters l - 1 \<noteq> 0xFFFFFFFF" using g(4) by auto
  obtain info where r: "readFat f = Inr info" using f g(1) assms(3) by (auto simp: readFat_def Let_def)
  note q = readFat_fields [OF r, unfolded assms(3) f cl]
  have "unat (partSize div 512) < 2 ^ 32"
    using fat32Layout_consistent [OF assms(1,2)] by (simp add: word_le_nat_alt)
  then have ts: "(ucast (ucast (partSize div 512) :: u32) :: u64) = partSize div 512"
    by (simp add: word_unat_eq_iff unat_ucast_32_64 unat_ucast_64_32 del: unsigned_ucast_eq)
  obtain j where j: "info = fatFreeClusters f ?b j" using readFat_fat32 [OF r] assms(3) f by auto
  note same = fatFreeClusters_same [of f ?b j, folded j]
  have "fi_freeBlocks info = ucast (fl_totalClusters l - 1)"
    "fi_freeSizeBytes info = ucast (fl_totalClusters l - 1) * ucast (fi_blockSize info)"
    "fi_usedSizeBytes info = fi_totalSizeBytes info - fi_freeSizeBytes info"
    unfolding same(4,7) unfolding j fatFreeClusters_def Let_def using assms(4) ne by (simp_all add: f i)
  note free = this
  have tot: "fi_totalSizeBytes info = partSize div 512 * 512" using q(4) fat32Layout_consistent [OF assms(1,2)] by (simp add: ts)
  have bs: "fi_blockSize info = 512 * ucast (fl_sectorsPerCluster l)" using q(3) by simp
  have "fi_freeSizeBytes info \<le> fi_totalSizeBytes info"
    unfolding free(2) tot bs word_le_nat_alt bytes(1) using bytes(2) .
  then have "unat (fi_usedSizeBytes info) + unat (fi_freeSizeBytes info) = unat (fi_totalSizeBytes info)"
    unfolding free(3) by (simp add: unat_sub word_le_nat_alt)
  moreover have "fi_type info = FAT32" using q(1) g(3,4) by (simp add: fatKind_def)
  moreover have "fi_label info = (let t = trimSpaces (takeWhile (\<lambda>b. b \<noteq> 0) (take 11 label)) in
      if label = [] \<or> t = ascii ''NO NAME'' then [] else t)"
    using q(5) by (simp add: fat32BootSector_label Let_def)
  moreover have "extractString ?b 3 8 = ascii ''MSWIN4.1''"
    unfolding extractString_def f by (simp add: ascii_def trimSpaces_def)
  ultimately show ?thesis using r q free(1) tot bs by (intro exI [of _ info]) (simp add: Let_def f(13))
qed

section \<open>A formatted ext volume\<close>

lemma extSuperblock_details:
  fixes options G uuid seed now
  assumes "length uuid = 16" "length seed = 16"
  defines "sb \<equiv> extSuperblock options G uuid seed now"
  shows "readLE32 sb 0 = eg_totalInodes G" "readLE32 sb 4 = ucast (eg_totalBlocks G)" "readLE32 sb 0x10 = eg_totalInodes G - 11"
    "readLE32 sb 0x20 = eg_blocksPerGroup G" "readLE16 sb 0x3A = 1" "readLE16 sb 0x3C = 1" "readLE32 sb 0x48 = 0"
    "readLE32 sb 0x64 = snd (snd (extFeatures options G))" "readLE32 sb 0x150 = ucast (drop_bit 32 (eg_totalBlocks G))"
    "readLE32 sb 0x158 = ucast (drop_bit 32 (extFreeBlocks G))"
proof -
  obtain c i r where F: "extFeatures options G = (c, i, r)" by (metis prod_cases3)
  note d = sb_def extSuperblock_def Let_def F prod.case
  show "readLE32 sb 0 = eg_totalInodes G" "readLE32 sb 4 = ucast (eg_totalBlocks G)" "readLE32 sb 0x10 = eg_totalInodes G - 11"
    "readLE32 sb 0x20 = eg_blocksPerGroup G" "readLE16 sb 0x3A = 1" "readLE16 sb 0x3C = 1" "readLE32 sb 0x48 = 0"
    "readLE32 sb 0x64 = snd (snd (extFeatures options G))" "readLE32 sb 0x150 = ucast (drop_bit 32 (eg_totalBlocks G))"
    "readLE32 sb 0x158 = ucast (drop_bit 32 (extFreeBlocks G))"
    using assms(1,2) by (simp_all add: d buf_simps) (simp add: readLE32_def)
qed

lemma extFinalSuperblock_details:
  fixes options G uuid seed now
  assumes "length uuid = 16" "length seed = 16"
  defines "sb \<equiv> extFinalSuperblock options G uuid seed now"
  shows "readLE32 sb 0 = eg_totalInodes G" "readLE32 sb 4 = ucast (eg_totalBlocks G)" "readLE32 sb 0x10 = eg_totalInodes G - 11"
    "readLE32 sb 0x20 = eg_blocksPerGroup G" "readLE16 sb 0x3A = 1" "readLE16 sb 0x3C = 1" "readLE32 sb 0x48 = 0"
    "readLE32 sb 0x64 = snd (snd (extFeatures options G))" "readLE32 sb 0x150 = ucast (drop_bit 32 (eg_totalBlocks G))"
    "readLE32 sb 0x158 = ucast (drop_bit 32 (extFreeBlocks G))"
  using extSuperblock_details [OF assms(1,2), where options = options and G = G and now = now]
    extFinalSuperblock_reads [OF assms(1,2), where options = options and G = G and now = now]
  by (simp_all add: sb_def)

lemma word_halves: "take_bit 32 w OR push_bit 32 (drop_bit 32 w) = (w :: u64)"
proof (rule bit_word_eqI)
  fix n
  show "bit (take_bit 32 w OR push_bit 32 (drop_bit 32 w)) n \<longleftrightarrow> bit w n" if "n < LENGTH(64)"
    using that by (cases "n < 32") (auto simp: bit_simps)
qed

lemma features_64bit:
  assumes "extGeometry options partSize = Inr G"
  shows "fst (snd (extFeatures options G)) AND 0x0080 \<noteq> 0 \<longleftrightarrow> eg_use64bit G"
  using extGeometry_sizes(8) [OF assms] by (auto simp: extFeatures_def Let_def)

text \<open>
  The number of free blocks that the superblock holds in the end. The low half is taken from the
  number after the update for the journal, whose blocks are subtracted twice; the high half, which is
  there with the 64-bit feature only, is left as it was.
\<close>

definition extStoredFree :: "ExtGeometry \<Rightarrow> u64" where
  "extStoredFree G =
     (if eg_use64bit G then take_bit 32 (extFinalFree G) OR push_bit 32 (drop_bit 32 (extFreeBlocks G))
      else take_bit 32 (extFinalFree G))"


text \<open>Without a journal the number of free blocks that is read is that of the geometry.\<close>

lemma extStoredFree_no_journal:
  assumes "\<not> eg_hasJournal G"
  shows "extStoredFree G = (if eg_use64bit G then extFreeBlocks G else take_bit 32 (extFreeBlocks G))"
  using assms by (simp add: extStoredFree_def extFinalFree_def word_halves)

section \<open>Witnesses\<close>

definition fat32_volume :: DiskReadCallback where
  "fat32_volume off n = (if off = 0 then Inr (fat32BootSector sample_fat32 7 (ascii ''DATA''))
     else if off = 512 then Inr (fat32FsInfo sample_fat32) else fail DiskReadError [])"

theorem fat32_format_read_back_witness:
  "\<exists>info. readFat fat32_volume = Inr info \<and> fi_type info = FAT32 \<and> fi_label info = ascii ''DATA'' \<and>
     fi_blockSize info = 8192 \<and> fi_totalBlocks info = 130942 \<and> fi_freeBlocks info = 130941"
proof -
  have "safeRead fat32_volume 0 512 = fat32BootSector sample_fat32 7 (ascii ''DATA'')"
    "safeRead fat32_volume 512 512 = fat32FsInfo sample_fat32"
    by (simp_all add: safeRead_def fat32_volume_def)
  from fat32_format_read_back [OF sample_fat32_layout _ this] show ?thesis
    by (auto simp: sample_fat32_def ascii_def trimSpaces_def)
qed

definition ext_volume :: DiskReadCallback where
  "ext_volume off n = (if off = 1024 then Inr (extFinalSuperblock ext4_options sample_ext (replicate 16 7) (replicate 16 9) 0)
     else fail DiskReadError [])"


end
