(* ===== verification/Fs_Info_Ntfs.thy ===== *)
theory Fs_Info_Ntfs
  imports Fs_Info
begin

text \<open>
  The walk of \<open>readNtfs\<close> over the attributes of the \<open>$Volume\<close> record and the request of \<open>readBtrfs\<close>:
  what damaged or crafted volumes make of them.
\<close>

section \<open>Attributes that point at each other\<close>

text \<open>
  An attribute at \<open>p\<close> whose length leads to \<open>q\<close>. The length is a 32-bit number that is added modulo
  \<open>2 ^ 32\<close>, so \<open>q\<close> may lie before \<open>p\<close>.
\<close>

definition attribute_link :: "bytes \<Rightarrow> u32 \<Rightarrow> u32 \<Rightarrow> u32 \<Rightarrow> bool" where
  "attribute_link r n p q \<longleftrightarrow> p + 16 < n \<and> unat p + 8 \<le> length r \<and> q \<noteq> p \<and> readLE32 r (unat p + 4) = q - p \<and>
     readLE32 r (unat p) \<noteq> 0xFFFFFFFF \<and> readLE32 r (unat p) \<noteq> 0x60 \<and> readLE32 r (unat p) \<noteq> 0x70"

lemma ntfsAttribute_link: "attribute_link r n p q \<Longrightarrow> ntfsAttribute r n (p, info) = Done (Inr (q, info))"
  by (simp add: attribute_link_def ntfsAttribute_def Let_def)

lemma attributes_cycle:
  assumes "attribute_link r n p q" "attribute_link r n q p"
  shows "run_iter (ntfsAttribute r n) (p, info) = Diverges"
proof (rule run_iter_diverges [where I = "\<lambda>(s, i). s = p \<or> s = q"])
  show "\<exists>s'. ntfsAttribute r n s = Done (Inr s') \<and> (case s' of (s, i) \<Rightarrow> s = p \<or> s = q)"
    if "case s of (s, i) \<Rightarrow> s = p \<or> s = q" for s
    using that assms by (auto simp: ntfsAttribute_link)
qed simp

text \<open>The record that \<open>readNtfs\<close> reads, from the fields of the boot sector.\<close>

definition ntfsClusterBytes :: "bytes \<Rightarrow> u32" where
  "ntfsClusterBytes bpb = ucast (readLE16 bpb 0x0B) * ucast (bpb ! 0x0D)"

definition ntfsVolumeOffset :: "bytes \<Rightarrow> u32 \<Rightarrow> u64" where
  "ntfsVolumeOffset bpb n = readLE64 bpb 0x30 * ucast (ntfsClusterBytes bpb) + 3 * ucast n"

text \<open>
  Reading the details of an NTFS volume need not end. If the boot sector leads to a \<open>$Volume\<close> record
  of which the first attribute leads to a second one and that one back to the first, \<open>readNtfs\<close> walks
  around for ever: nothing checks that a position grows, and a length close to \<open>2 ^ 32\<close> makes it shrink.
\<close>

theorem readNtfs_diverges:
  assumes "safeRead f 0 512 = bpb" "512 \<le> length bpb" "readLE16 bpb 0x0B \<noteq> 0" "bpb ! 0x0D \<noteq> 0"
    and "mftRecordSizeOf (bpb ! 0x40) (ntfsClusterBytes bpb) = Done n" "n \<noteq> 0" "readLE64 bpb 0x30 \<noteq> 0"
    and "safeRead f (ntfsVolumeOffset bpb n) n = r" "unat n \<le> length r" "22 \<le> length r" "memEqual r 0 ''FILE''"
    and "attribute_link r n (ucast (readLE16 r 0x14)) q" "attribute_link r n q (ucast (readLE16 r 0x14))"
  shows "readNtfs f = Diverges"
proof -
  have walk: "run_iter (ntfsAttribute r n) (ucast (readLE16 r 0x14), info) = Diverges" for info
    by (rule attributes_cycle) (fact assms)+
  have rec: "ntfsVolumeRecord f info = Diverges"
    if "nt_mftRecordSize (fi_ntfs info) = n" "nt_mftCluster (fi_ntfs info) = readLE64 bpb 0x30"
      "fi_blockSize info = ntfsClusterBytes bpb" for info
    using that walk assms(8-11) by (simp add: ntfsVolumeRecord_def Let_def ntfsVolumeOffset_def)
  show ?thesis
    using assms(1-7) unfolding readNtfs_def Let_def
    by (simp add: ntfsClusterBytes_def [symmetric] rec word_gt_0)
qed

section \<open>The label of a Btrfs volume\<close>

text \<open>
  \<open>readBtrfs\<close> never reports a label. It asks for 512 bytes of the superblock and looks for the label only in a
  buffer of more than 555 bytes, so a callback that returns no more than it is asked for leaves the
  label empty; the detection, which asks for 4096 bytes, does find it.
\<close>

theorem readBtrfs_no_label:
  assumes "\<And>off n bs. f off n = Inr bs \<Longrightarrow> length bs \<le> unat n" "readBtrfs f = Inr info"
  shows "fi_label info = []"
proof -
  have "length (safeRead f 0x10000 0x200) \<le> 512"
    using assms(1) [of "0x10000" "0x200"] by (auto simp: safeRead_def split: sum.split)
  with assms(2) show ?thesis
    by (auto simp: readBtrfs_def Let_def fi_default_def split: if_split_asm)
qed

section \<open>Witnesses\<close>

text \<open>A volume with sectors of 512 bytes, one per cluster, and a record of 256 bytes (the logarithm is 8).\<close>

definition looping_record :: bytes where
  "looping_record = fold (\<lambda>(i, v) r. writeLE32 r i v)
     [(0, 0x454C4946), (0x14, 0x38), (0x38, 0x10), (0x3C, 0x28), (0x60, 0x30), (0x64, 0xFFFFFFD8)] (replicate 256 0)"

definition looping_boot :: bytes where
  "looping_boot = (writeLE64 (writeLE16 (replicate 512 0) 0x0B 512) 0x30 4)[0x0D := 1, 0x40 := 0xF8]"

definition looping_ntfs :: DiskReadCallback where
  "looping_ntfs off n = (if off = 0 then Inr looping_boot else if off = 2816 then Inr looping_record
     else fail DiskReadError [])"

lemma looping_record_fields:
  "length looping_record = 256" "memEqual looping_record 0 ''FILE''" "readLE16 looping_record 0x14 = 0x38"
  "readLE32 looping_record 0x38 = 0x10" "readLE32 looping_record 0x3C = 0x28"
  "readLE32 looping_record 0x60 = 0x30" "readLE32 looping_record 0x64 = 0xFFFFFFD8"
  by code_simp+

lemma looping_boot_fields:
  "length looping_boot = 512" "readLE16 looping_boot 0x0B = 512" "looping_boot ! 0x0D = 1" "readLE64 looping_boot 0x30 = 4"
  "looping_boot ! 0x40 = 0xF8"
  by code_simp+

theorem readNtfs_diverges_witness: "readNtfs looping_ntfs = Diverges"
proof (rule readNtfs_diverges [of looping_ntfs looping_boot "0x100" looping_record "0x60"])
  show "mftRecordSizeOf (looping_boot ! 0x40) (ntfsClusterBytes looping_boot) = Done 0x100"
    by (simp add: looping_boot_fields mftRecordSizeOf_def)
  show "safeRead looping_ntfs (ntfsVolumeOffset looping_boot 0x100) 0x100 = looping_record"
    by (simp add: ntfsVolumeOffset_def ntfsClusterBytes_def looping_boot_fields safeRead_def looping_ntfs_def)
  show "attribute_link looping_record 0x100 (ucast (readLE16 looping_record 0x14)) 0x60"
    "attribute_link looping_record 0x100 0x60 (ucast (readLE16 looping_record 0x14))"
    using looping_record_fields by (simp_all add: attribute_link_def)
qed (simp_all add: looping_boot_fields looping_record_fields safeRead_def looping_ntfs_def)

definition labelled_btrfs :: bytes where
  "labelled_btrfs = (blit 0x40 (ascii ''_BHRfS_M'') (replicate 600 0))[0x12B := 65]"

definition btrfs_volume :: DiskReadCallback where
  "btrfs_volume off n = Inr (take (unat n) (if off = 0x10000 then labelled_btrfs else []))"

theorem readBtrfs_no_label_witness:
  "(\<exists>d. detectBtrfs btrfs_volume fd_default = Some d \<and> fd_label d = [65]) \<and>
   (\<exists>info. readBtrfs btrfs_volume = Inr info \<and> fi_label info = [])"
proof
  have "safeRead btrfs_volume 0x10000 0x1000 = labelled_btrfs"
    by (simp add: safeRead_def btrfs_volume_def labelled_btrfs_def ascii_def blit_def)
  moreover have "length labelled_btrfs = 600" "memEqual labelled_btrfs 0x40 ''_BHRfS_M''" "extractString labelled_btrfs 0x12B 256 = [65]"
    by code_simp+
  ultimately show "\<exists>d. detectBtrfs btrfs_volume fd_default = Some d \<and> fd_label d = [65]"
    by (simp add: detectBtrfs_def Let_def)
  have "512 \<le> length labelled_btrfs" by (simp add: labelled_btrfs_def ascii_def blit_def)
  then have "0x1A0 \<le> length (safeRead btrfs_volume 0x10000 0x200)"
    by (simp add: safeRead_def btrfs_volume_def)
  then obtain info where i: "readBtrfs btrfs_volume = Inr info" by (auto simp: readBtrfs_def Let_def)
  have "fi_label info = []"
    by (rule readBtrfs_no_label [OF _ i]) (auto simp: btrfs_volume_def split: if_split_asm)
  with i show "\<exists>info. readBtrfs btrfs_volume = Inr info \<and> fi_label info = []" by blast
qed

end
