(* ===== verification/File_Recovery.thy ===== *)
theory File_Recovery
  imports Run_Loop Partition_Recovery
begin

text \<open>
  \<open>src/core/recovery/FileRecovery.cpp\<close>: deleted files. This theory holds the data, the reads relative to
  the partition, the carving scan and the copy of a file to the output; the scanners of the file systems
  are in \<open>File_Scanners\<close>. The output stream is the list of bytes written to it: the code looks at whether
  it could be opened and at nothing else. The output does not lie on the disk that is read.
\<close>

unbundle bit_operations_syntax

section \<open>Data\<close>

record DataRun =
  dr_clusterOffset :: u64
  dr_clusterCount :: u64

text \<open>The confidence is a \<open>double\<close> whose values are whole numbers.\<close>

record RecoverableFile =
  rf_filename :: bytes
  rf_sizeBytes :: u64
  rf_sourceFs :: FilesystemType
  rf_extension :: bytes
  rf_confidence :: int
  rf_partitionStartLba :: u64
  rf_sectorSize :: u32
  rf_mftEntryIndex :: u64
  rf_firstCluster :: u32
  rf_inodeNumber :: u64
  rf_carvedLba :: u64
  rf_dataRuns :: "DataRun list"

definition rf_default :: RecoverableFile where
  "rf_default = \<lparr>rf_filename = [], rf_sizeBytes = 0, rf_sourceFs = UnknownFs, rf_extension = [], rf_confidence = 0,
     rf_partitionStartLba = 0, rf_sectorSize = 512, rf_mftEntryIndex = 0, rf_firstCluster = 0, rf_inodeNumber = 0,
     rf_carvedLba = 0, rf_dataRuns = []\<rparr>"

datatype FileRecoveryMode = FilesystemAware | Carving | BothPasses

record CarvedFileSignature =
  cs_header :: bytes
  cs_headerOffset :: u32
  cs_extension :: bytes
  cs_description :: string
  cs_footer :: bytes
  cs_maxSize :: u64

record FileRecovery =
  fr_disk :: RawDiskHandle
  fr_partStart :: u64
  fr_partSectors :: u64
  fr_fsType :: FilesystemType
  fr_sectorSize :: u32

section \<open>Reading relative to the partition\<close>

text \<open>
  The bound check adds in 32 bits, the end of the copy is an address: where the sum wraps around, the
  copy would run out of the buffer.
\<close>

definition readPartitionBytes :: "'w Win32 \<Rightarrow> FileRecovery \<Rightarrow> 'w \<Rightarrow> u64 \<Rightarrow> u32 \<Rightarrow> bytes Result run" where
  "readPartitionBytes W m w offset n =
     (let ss = fr_sectorSize m in
      require (ss \<noteq> 0)
        (let absOffset = fr_partStart m * ucast ss + offset;
             startSector = absOffset div ucast ss;
             inSectorOffset = ucast (absOffset mod ucast ss) :: u32;
             alignedSize = ((inSectorOffset + n + ss - 1) div ss) * ss;
             sectorsToRead = ucast (alignedSize div ss)
         in case readSectors W (fr_disk m) startSector sectorsToRead ss w of
              Inl e \<Rightarrow> Done (Inl e)
            | Inr data \<Rightarrow>
                if unat (inSectorOffset + n) > length data then Done (fail DiskReadError ''Partition read underflow'')
                else require (unat inSectorOffset + unat n \<le> length data)
                  (Done (Inr (slice (unat inSectorOffset) (unat n) data)))))"

section \<open>Carving\<close>

definition sig_of :: "bytes \<Rightarrow> u32 \<Rightarrow> string \<Rightarrow> string \<Rightarrow> bytes \<Rightarrow> u64 \<Rightarrow> CarvedFileSignature" where
  "sig_of header off ext description footer maxSize =
     \<lparr>cs_header = header, cs_headerOffset = off, cs_extension = ascii ext, cs_description = description,
      cs_footer = footer, cs_maxSize = maxSize\<rparr>"

definition getDefaultSignatures :: "CarvedFileSignature list" where
  "getDefaultSignatures =
     [sig_of [0xFF, 0xD8, 0xFF] 0 ''jpg'' ''JPEG Image'' [0xFF, 0xD9] (50 * 1024 * 1024),
      sig_of [0x89, 0x50, 0x4E, 0x47, 0x0D, 0x0A, 0x1A, 0x0A] 0 ''png'' ''PNG Image''
        [0x49, 0x45, 0x4E, 0x44, 0xAE, 0x42, 0x60, 0x82] (100 * 1024 * 1024),
      sig_of [0x25, 0x50, 0x44, 0x46] 0 ''pdf'' ''PDF Document'' [] (500 * 1024 * 1024),
      sig_of [0x50, 0x4B, 0x03, 0x04] 0 ''zip'' ''ZIP Archive'' [] (2 * 1024 * 1024 * 1024),
      sig_of [0x66, 0x74, 0x79, 0x70] 4 ''mp4'' ''MP4 Video'' [] (4 * 1024 * 1024 * 1024),
      sig_of [0x47, 0x49, 0x46, 0x38, 0x39, 0x61] 0 ''gif'' ''GIF Image'' [0x00, 0x3B] (50 * 1024 * 1024),
      sig_of [0x42, 0x4D] 0 ''bmp'' ''BMP Image'' [] (100 * 1024 * 1024),
      sig_of [0x52, 0x61, 0x72, 0x21, 0x1A, 0x07] 0 ''rar'' ''RAR Archive'' [] (2 * 1024 * 1024 * 1024),
      sig_of [0x37, 0x7A, 0xBC, 0xAF, 0x27, 0x1C] 0 ''7z'' ''7-Zip Archive'' [] (2 * 1024 * 1024 * 1024),
      sig_of [0x49, 0x49, 0x2A, 0x00] 0 ''tif'' ''TIFF Image'' [] (500 * 1024 * 1024),
      sig_of [0x4D, 0x4D, 0x00, 0x2A] 0 ''tif'' ''TIFF Image (BE)'' [] (500 * 1024 * 1024),
      sig_of [0x4D, 0x5A] 0 ''exe'' ''Windows Executable'' [] (500 * 1024 * 1024),
      sig_of [0x53, 0x51, 0x4C, 0x69, 0x74, 0x65, 0x20, 0x66, 0x6F, 0x72, 0x6D, 0x61, 0x74, 0x20, 0x33] 0
        ''sqlite'' ''SQLite Database'' [] (2 * 1024 * 1024 * 1024)]"

definition maxHeaderCheck :: "CarvedFileSignature list \<Rightarrow> nat" where
  "maxHeaderCheck sigs = fold (\<lambda>s m. max m (unat (cs_headerOffset s) + length (cs_header s))) sigs 0"

definition sigMatches :: "CarvedFileSignature \<Rightarrow> bytes \<Rightarrow> nat \<Rightarrow> bool" where
  "sigMatches s chunk off \<longleftrightarrow>
     (let headerStart = off + unat (cs_headerOffset s) in
      headerStart + length (cs_header s) \<le> length chunk \<and> slice headerStart (length (cs_header s)) chunk = cs_header s)"

text \<open>\<open>carved_\<close>, the number with at least six digits, the extension.\<close>

definition carvedName :: "u32 \<Rightarrow> bytes \<Rightarrow> bytes" where
  "carvedName n ext =
     (let d = dec (unat n) in ascii (''carved_'' @ replicate (6 - length d) (CHR ''0'') @ d @ ''.'') @ ext)"

definition carvedFile :: "FileRecovery \<Rightarrow> u64 \<Rightarrow> CarvedFileSignature \<Rightarrow> u32 \<Rightarrow> RecoverableFile" where
  "carvedFile m lba s n =
     rf_default\<lparr>rf_filename := carvedName n (cs_extension s), rf_extension := cs_extension s, rf_sourceFs := Raw,
       rf_sizeBytes := cs_maxSize s, rf_confidence := 50, rf_partitionStartLba := fr_partStart m,
       rf_sectorSize := fr_sectorSize m, rf_carvedLba := lba\<rparr>"

text \<open>The sector starts of a chunk at which the longest header still fits.\<close>

definition carveOffsets :: "u32 \<Rightarrow> nat \<Rightarrow> nat list" where
  "carveOffsets ss n =
     (let h = maxHeaderCheck getDefaultSignatures in
      if n < h then [] else map (\<lambda>k. k * unat ss) [0..<(n - h) div unat ss + 1])"

definition carveSector :: "FileRecovery \<Rightarrow> u64 \<Rightarrow> bytes \<Rightarrow> nat \<Rightarrow> u32 \<times> RecoverableFile list \<Rightarrow> u32 \<times> RecoverableFile list" where
  "carveSector m sectorIdx chunk off =
     fold (\<lambda>s (n, results).
         if sigMatches s chunk off then
           (n + 1, results @ [carvedFile m (fr_partStart m + sectorIdx + of_nat (off div unat (fr_sectorSize m))) s n])
         else (n, results))
       getDefaultSignatures"

definition carveChunk :: "FileRecovery \<Rightarrow> u64 \<Rightarrow> bytes \<Rightarrow> u32 \<times> RecoverableFile list \<Rightarrow> u32 \<times> RecoverableFile list" where
  "carveChunk m sectorIdx chunk = fold (carveSector m sectorIdx chunk) (carveOffsets (fr_sectorSize m) (length chunk))"

abbreviation (input) CARVE_CHUNK_SECTORS :: u64 where "CARVE_CHUNK_SECTORS \<equiv> 128"

record carve_state =
  cv_sectorIdx :: u64
  cv_carved :: "u32 \<times> RecoverableFile list"

definition carveStep :: "'w recovery_env \<Rightarrow> FileRecovery \<Rightarrow> carve_state \<Rightarrow> (carve_state Result, 'w) io" where
  "carveStep E m st w =
     (if rc_canceled E w then Done (fail OperationCanceled [], w)
      else
        (let sectorIdx = cv_sectorIdx st;
             sectorsToRead = min CARVE_CHUNK_SECTORS (fr_partSectors m - sectorIdx);
             st' = st\<lparr>cv_sectorIdx := sectorIdx + CARVE_CHUNK_SECTORS\<rparr>
         in run_bind (readPartitionBytes (rc_win32 E) m w (sectorIdx * ucast (fr_sectorSize m))
                (ucast (sectorsToRead * ucast (fr_sectorSize m)))) (\<lambda>r.
              case r of
                Inl e \<Rightarrow> Done (Inr st', w)
              | Inr chunk \<Rightarrow>
                  (let st' = st'\<lparr>cv_carved := carveChunk m sectorIdx chunk (cv_carved st)\<rparr>
                   in Done (Inr st', rc_progress E (sectorIdx + sectorsToRead) (fr_partSectors m)
                        (length (snd (cv_carved st'))) w)))))"

definition scanCarving :: "'w recovery_env \<Rightarrow> FileRecovery \<Rightarrow> (RecoverableFile list Result, 'w) io" where
  "scanCarving E m =
     io_try (io_while (\<lambda>st. cv_sectorIdx st < fr_partSectors m) (carveStep E m) \<lparr>cv_sectorIdx = 0, cv_carved = (0, [])\<rparr>)
       (\<lambda>st. io_return (Inr (snd (cv_carved st))))"

section \<open>Copying the runs of a file\<close>

text \<open>
  One run is read in pieces of 1 MiB; what is written never exceeds a known file size. The three copy
  functions share this loop; only the one for NTFS leaves the loop over the runs when the size is reached.
\<close>

abbreviation (input) READ_CHUNK :: u64 where "READ_CHUNK \<equiv> 1024 * 1024"

record copy_state =
  cp_off :: u64
  cp_written :: u64
  cp_out :: bytes

definition copyDone :: "u64 \<Rightarrow> copy_state \<Rightarrow> bool" where
  "copyDone knownSize st \<longleftrightarrow> knownSize > 0 \<and> cp_written st \<ge> knownSize"

definition copyPiece :: "u64 \<Rightarrow> bytes \<Rightarrow> copy_state \<Rightarrow> copy_state" where
  "copyPiece knownSize data st =
     (let toWrite = of_nat (length data);
          toWrite = (if knownSize > 0 \<and> cp_written st + toWrite > knownSize then knownSize - cp_written st else toWrite)
      in if toWrite > 0
         then st\<lparr>cp_out := cp_out st @ take (unat toWrite) data, cp_written := cp_written st + toWrite\<rparr>
         else st)"

definition copyStep :: "(u64 \<Rightarrow> u32 \<Rightarrow> bytes Result run) \<Rightarrow> u64 \<Rightarrow> u64 \<Rightarrow> u64 \<Rightarrow> copy_state \<Rightarrow>
    (ErrorInfo option \<times> copy_state + copy_state) run" where
  "copyStep rd base runByteSize knownSize st =
     (if \<not> cp_off st < runByteSize then Done (Inl (None, st))
      else run_bind (rd (base + cp_off st) (ucast (min READ_CHUNK (runByteSize - cp_off st)))) (\<lambda>r.
        case r of
          Inl e \<Rightarrow> Done (Inl (Some e, st))
        | Inr data \<Rightarrow>
            (let st = copyPiece knownSize data st in
             if copyDone knownSize st then Done (Inl (None, st))
             else Done (Inr (st\<lparr>cp_off := cp_off st + READ_CHUNK\<rparr>)))))"

text \<open>The result: an error of a read or none, and the bytes in the output file.\<close>

fun copyRuns :: "(u64 \<Rightarrow> u32 \<Rightarrow> bytes Result run) \<Rightarrow> (u64 \<Rightarrow> u64) \<Rightarrow> u32 \<Rightarrow> bool \<Rightarrow> u64 \<Rightarrow> DataRun list \<Rightarrow> copy_state \<Rightarrow>
    (ErrorInfo option \<times> copy_state) run" where
  "copyRuns rd place clusterSize stops knownSize [] st = Done (None, st)"
| "copyRuns rd place clusterSize stops knownSize (run # runs) st =
     run_bind (run_iter (copyStep rd (place (dr_clusterOffset run)) (dr_clusterCount run * ucast clusterSize) knownSize)
                 (st\<lparr>cp_off := 0\<rparr>))
       (\<lambda>(e, st). if e \<noteq> None then Done (e, st)
          else if stops \<and> copyDone knownSize st then Done (None, st)
          else copyRuns rd place clusterSize stops knownSize runs st)"

text \<open>The outcome of a recovery: the result, and the output file if it was created.\<close>

type_synonym recovered = "unit Result \<times> bytes option"

definition copyFile :: "bool \<Rightarrow> (u64 \<Rightarrow> u32 \<Rightarrow> bytes Result run) \<Rightarrow> (u64 \<Rightarrow> u64) \<Rightarrow> u32 \<Rightarrow> bool \<Rightarrow> RecoverableFile \<Rightarrow> string \<Rightarrow>
    recovered run" where
  "copyFile opened rd place clusterSize stops file outputPath =
     (if \<not> opened then Done (fail FileCreateFailed (''Cannot create output file: '' @ outputPath), None)
      else run_bind (copyRuns rd place clusterSize stops (rf_sizeBytes file) (rf_dataRuns file)
                       \<lparr>cp_off = 0, cp_written = 0, cp_out = []\<rparr>)
        (\<lambda>(e, st). Done (case e of None \<Rightarrow> ok | Some err \<Rightarrow> Inl err, Some (cp_out st))))"

definition recoverNtfsFile :: "'w Win32 \<Rightarrow> FileRecovery \<Rightarrow> bool \<Rightarrow> 'w \<Rightarrow> RecoverableFile \<Rightarrow> string \<Rightarrow> recovered run" where
  "recoverNtfsFile W m opened w file outputPath =
     run_bind (readPartitionBytes W m w 0 512) (\<lambda>bootResult.
       case bootResult of
         Inl e \<Rightarrow> Done (Inl e, None)
       | Inr boot \<Rightarrow>
           (let bytesPerSector = readLE16 boot 0x0B; sectorsPerCluster = boot ! 0x0D in
            if bytesPerSector = 0 \<or> sectorsPerCluster = 0 then Done (fail FilesystemCorrupt ''Invalid NTFS BPB'', None)
            else
              (let clusterSize = ucast bytesPerSector * ucast sectorsPerCluster
               in copyFile opened (readPartitionBytes W m w) (\<lambda>c. c * ucast clusterSize) clusterSize True file outputPath)))"

definition recoverFatFile :: "'w Win32 \<Rightarrow> FileRecovery \<Rightarrow> bool \<Rightarrow> 'w \<Rightarrow> RecoverableFile \<Rightarrow> string \<Rightarrow> recovered run" where
  "recoverFatFile W m opened w file outputPath =
     run_bind (readPartitionBytes W m w 0 512) (\<lambda>bootResult.
       case bootResult of
         Inl e \<Rightarrow> Done (Inl e, None)
       | Inr boot \<Rightarrow>
           (let bytesPerSector = readLE16 boot 0x0B; sectorsPerCluster = boot ! 0x0D in
            if bytesPerSector = 0 \<or> sectorsPerCluster = 0 then Done (fail FilesystemCorrupt ''Invalid FAT BPB'', None)
            else
              (let firstDataSector = fatDataStart boot;
                   clusterSize = ucast sectorsPerCluster * ucast bytesPerSector
               in copyFile opened (readPartitionBytes W m w)
                    (\<lambda>c. ucast firstDataSector * ucast bytesPerSector + (c - 2) * ucast clusterSize) clusterSize False
                    file outputPath)))"

definition recoverExtFile :: "'w Win32 \<Rightarrow> FileRecovery \<Rightarrow> bool \<Rightarrow> 'w \<Rightarrow> RecoverableFile \<Rightarrow> string \<Rightarrow> recovered run" where
  "recoverExtFile W m opened w file outputPath =
     run_bind (readPartitionBytes W m w 1024 256) (\<lambda>sbResult.
       case sbResult of
         Inl e \<Rightarrow> Done (Inl e, None)
       | Inr sb \<Rightarrow>
           (let logBlockSize = readLE32 sb 0x18 in
            require (logBlockSize < 32)
              (let blockSize = push_bit (unat logBlockSize) 1024
               in copyFile opened (readPartitionBytes W m w) (\<lambda>c. c * ucast blockSize) blockSize False file outputPath)))"

section \<open>Copying a carved file\<close>

definition findFooter :: "bytes \<Rightarrow> bytes \<Rightarrow> nat option" where
  "findFooter footer data =
     find (\<lambda>i. slice i (length footer) data = footer) [0..<length data + 1 - length footer]"

definition carvedLimits :: "RecoverableFile \<Rightarrow> bytes \<times> u64" where
  "carvedLimits file =
     (let (footer, maxSize) =
            (case find (\<lambda>s. cs_extension s = rf_extension file) getDefaultSignatures of
               None \<Rightarrow> ([], rf_sizeBytes file)
             | Some s \<Rightarrow>
                 (cs_footer s, if rf_sizeBytes file = 0 \<or> rf_sizeBytes file > cs_maxSize s then cs_maxSize s else rf_sizeBytes file))
      in (footer, if maxSize = 0 then 10 * 1024 * 1024 else maxSize))"

abbreviation (input) CARVE_READ_CHUNK :: u64 where "CARVE_READ_CHUNK \<equiv> 256 * 1024"

text \<open>A step of the loop: it ends with the contents of the file, or goes on with the bytes written.\<close>

definition carvedStep :: "'w Win32 \<Rightarrow> FileRecovery \<Rightarrow> 'w \<Rightarrow> u64 \<Rightarrow> bytes \<Rightarrow> u64 \<Rightarrow> u64 \<times> bytes \<Rightarrow> (bytes + u64 \<times> bytes) run" where
  "carvedStep W m w lba footer maxSize = (\<lambda>(written, out).
     if \<not> written < maxSize then Done (Inl out)
     else
       (let ss = fr_sectorSize m;
            toRead = ucast (min CARVE_READ_CHUNK (maxSize - written)) :: u32
        in require (ss \<noteq> 0)
          (case readSectors W (fr_disk m) (lba + written div ucast ss) (ucast ((toRead + ss - 1) div ss)) ss w of
             Inl e \<Rightarrow> Done (Inl out)
           | Inr data \<Rightarrow>
               (case (if footer = [] then None else findFooter footer data) of
                  Some i \<Rightarrow> Done (Inl (out @ take (i + length footer) data))
                | None \<Rightarrow>
                    (let toWrite = min (of_nat (length data)) (maxSize - written)
                     in Done (Inr (written + toWrite, out @ take (unat toWrite) data)))))))"

definition recoverCarvedFile :: "'w Win32 \<Rightarrow> FileRecovery \<Rightarrow> bool \<Rightarrow> 'w \<Rightarrow> RecoverableFile \<Rightarrow> string \<Rightarrow> recovered run" where
  "recoverCarvedFile W m opened w file outputPath =
     (if \<not> opened then Done (fail FileCreateFailed (''Cannot create output file: '' @ outputPath), None)
      else
        (let (footer, maxSize) = carvedLimits file in
         run_bind (run_iter (carvedStep W m w (rf_carvedLba file) footer maxSize) (0, []))
           (\<lambda>out. Done (ok, Some out))))"

definition recoverFile :: "'w Win32 \<Rightarrow> FileRecovery \<Rightarrow> bool \<Rightarrow> 'w \<Rightarrow> RecoverableFile \<Rightarrow> string \<Rightarrow> recovered run" where
  "recoverFile W m opened w file outputPath =
     (let fs = rf_sourceFs file in
      if fs = NTFS then recoverNtfsFile W m opened w file outputPath
      else if fs \<in> {FAT12, FAT16, FAT32} then recoverFatFile W m opened w file outputPath
      else if fs \<in> {Ext2, Ext3, Ext4} then recoverExtFile W m opened w file outputPath
      else if fs = Raw then recoverCarvedFile W m opened w file outputPath
      else Done (fail FilesystemNotSupported ''Cannot recover from this filesystem type'', None))"

end
