(* ===== verification/File_Copy.thy ===== *)
theory File_Copy
  imports File_Recovery Confinement
begin

text \<open>
  The copy of a recovered file. On a disk without faults a read relative to the partition gives the bytes of
  the partition; the loops over data runs then write the contents of the runs in order, cut off at a known
  file size; a file that was carved is a stretch of the disk.
\<close>

section \<open>Reads relative to the partition\<close>

text \<open>
  A reader serves a sequence of bytes if every request of at most 1 MiB inside it is answered with the bytes
  asked for.
\<close>

definition serves :: "(u64 \<Rightarrow> u32 \<Rightarrow> bytes Result run) \<Rightarrow> bytes \<Rightarrow> bool" where
  "serves rd D \<longleftrightarrow> (\<forall>off n. unat off + unat n \<le> length D \<longrightarrow> unat n \<le> 1048576 \<longrightarrow>
     rd off n = Done (Inr (slice (unat off) (unat n) D)))"

lemma servesD: "serves rd D \<Longrightarrow> unat off + unat n \<le> length D \<Longrightarrow> unat n \<le> 1048576 \<Longrightarrow>
    rd off n = Done (Inr (slice (unat off) (unat n) D))"
  unfolding serves_def by blast

text \<open>An open partition on a disk: whole sectors of at most 1 GiB inside the disk.\<close>

definition partition_on :: "'w win_view \<Rightarrow> FileRecovery \<Rightarrow> 'w \<Rightarrow> int \<Rightarrow> nat \<Rightarrow> bool" where
  "partition_on V m w d start \<longleftrightarrow>
     (\<exists>h rw. rh_handle (fr_disk m) = Some h \<and> handles V w h = Some (OnDisk d rw)) \<and>
     0 < unat (fr_sectorSize m) \<and> unat (fr_sectorSize m) \<le> 1073741824 \<and>
     unat (fr_sectorSize m) dvd length (contents V w d) \<and> length (contents V w d) < 2 ^ 64 \<and>
     start = unat (fr_partStart m) * unat (fr_sectorSize m) \<and> start \<le> length (contents V w d)"

lemma ceil_le_dvd:
  fixes s :: nat
  assumes "0 < s" "s dvd L" "x \<le> L"
  shows "(x + s - 1) div s * s \<le> L"
proof -
  from assms(2) obtain k where k: "L = s * k" ..
  have "(x + s - 1) div s \<le> (s - 1 + s * k) div s" using assms(1,3) k by (intro div_le_mono) simp
  also have "\<dots> = k" using assms(1) by (subst div_mult_self2) simp_all
  finally show ?thesis using k by (simp add: mult.commute)
qed

lemma ceil_ge: "0 < (s :: nat) \<Longrightarrow> x \<le> (x + s - 1) div s * s"
proof -
  assume s: "0 < s"
  then show ?thesis
    using div_mult_mod_eq [of "x + s - 1" s] mod_less_divisor [OF s, of "x + s - 1"] by linarith
qed

lemma readPartitionBytes_serves:
  assumes "content_laws W V" "disk_readable W V d" "partition_on V m w d start"
  shows "serves (readPartitionBytes W m w) (drop start (contents V w d))"
  unfolding serves_def
proof (intro allI impI)
  fix off :: u64 and n :: u32
  let ?D = "contents V w d" and ?s = "unat (fr_sectorSize m)"
  assume le: "unat off + unat n \<le> length (drop start ?D)" and small: "unat n \<le> 1048576"
  define ss where "ss = fr_sectorSize m"
  define s where "s = unat ss"
  obtain h rw where h: "rh_handle (fr_disk m) = Some h" "handles V w h = Some (OnDisk d rw)"
    and s: "0 < s" "s \<le> 1073741824" "s dvd length ?D" and L: "length ?D < 2 ^ 64"
    and st: "start = unat (fr_partStart m) * s" "start \<le> length ?D"
    using assms(3) unfolding partition_on_def s_def ss_def by blast
  define a where "a = start + unat off"
  have le': "a + unat n \<le> length ?D" using le st(2) by (simp add: a_def)
  have nz: "ss \<noteq> 0" and us: "unat (ucast ss :: u64) = s" using s(1) by (auto simp: s_def unat_ucast_up)
  have "unat (fr_partStart m * ucast ss) = start"
    using st us L by (subst unat_mult_lem [THEN iffD1]) simp_all
  then have abs: "unat (fr_partStart m * ucast ss + off) = a"
    using le' L by (subst unat_add_lem [THEN iffD1]) (simp_all add: a_def)
  let ?abs = "fr_partStart m * ucast ss + off"
  have ino: "unat (ucast (?abs mod ucast ss) :: u32) = a mod s"
    using abs us s(1,2) mod_less_divisor [OF s(1), of a] by (subst unat_ucast_64_32) (simp_all add: unat_mod)
  let ?i = "ucast (?abs mod ucast ss) :: u32"
  have im: "a mod s < s" using s(1) by simp
  have in1: "unat (?i + n) = a mod s + unat n"
    using ino small s(2) im by (subst unat_add_lem [THEN iffD1]) simp_all
  have c0: "unat ((?i + n + ss - 1) div ss) = (a mod s + unat n + s - 1) div s"
  proof (rule unat_ceil_div [OF nz, of "?i + n", unfolded in1 s_def [symmetric]])
  qed (use small s(2) im in simp_all)
  let ?m = "(a mod s + unat n + s - 1) div s * s"
  have m32: "?m < 2 ^ 32"
  proof -
    have "a mod s + unat n + s - 1 < 4294967296" using small s(2) im by linarith
    from le_less_trans [OF div_times_less_eq_dividend this] show ?thesis by simp
  qed
  have al: "unat ((?i + n + ss - 1) div ss * ss) = ?m"
    using c0 m32 by (subst unat_mult_lem [THEN iffD1]) (simp_all add: s_def)
  then have cnt: "unat (ucast ((?i + n + ss - 1) div ss * ss div ss) :: u64) = (a mod s + unat n + s - 1) div s"
    using s(1) by (simp add: unat_ucast_up unat_div s_def [symmetric])
  have tot: "unat ((ucast ((?i + n + ss - 1) div ss * ss div ss) :: u64) * ucast ss) = ?m"
    using cnt us m32 by (subst unat_mult_lem [THEN iffD1]) simp_all
  have "a < 2 ^ 64" using le' L by linarith
  then have lt: "a div s * s < 2 ^ 64" by (rule le_less_trans [OF div_times_less_eq_dividend])
  have lb: "unat (?abs div ucast ss * ucast ss) = a div s * s"
    using us abs lt by (subst unat_mult_lem [THEN iffD1]) (simp_all add: unat_div)
  have e: "a + unat n + s - 1 = (a mod s + unat n + s - 1) + a div s * s"
    using div_mult_mod_eq [of a s] s(1) by linarith
  have "a div s * s + ?m = (a + unat n + s - 1) div s * s"
    using s(1) by (subst e, subst div_mult_self1) (simp_all add: add_mult_distrib)
  also have "\<dots> \<le> length ?D" using s le' by (intro ceil_le_dvd)
  finally have room: "a div s * s + ?m \<le> length ?D" .
  have rd: "readSectors W (fr_disk m) (?abs div ucast ss) (ucast ((?i + n + ss - 1) div ss * ss div ss)) ss w =
      Inr (slice (a div s * s) ?m ?D)"
    using readSectors_works [OF assms(1,2) h, of "?abs div ucast ss" ss "ucast ((?i + n + ss - 1) div ss * ss div ss)"]
      lb tot room m32 by simp
  have ge: "a mod s + unat n \<le> ?m" using s(1) by (rule ceil_ge)
  have "length (slice (a div s * s) ?m ?D) = ?m" using room by simp
  moreover have "slice (a mod s) (unat n) (slice (a div s * s) ?m ?D) = slice a (unat n) ?D"
    using ge by (simp add: slice_slice)
  moreover have "slice (unat off) (unat n) (drop start ?D) = slice a (unat n) ?D"
    by (simp add: slice_def a_def add.commute)
  ultimately show "readPartitionBytes W m w off n = Done (Inr (slice (unat off) (unat n) (drop start ?D)))"
    using rd ge in1 ino nz unfolding readPartitionBytes_def ss_def [symmetric] Let_def by simp
qed

section \<open>Copying runs\<close>

text \<open>The contents of a file, cut off at its size if that is known (not 0).\<close>

definition cut :: "nat \<Rightarrow> 'a list \<Rightarrow> 'a list" where
  "cut S xs = (if S = 0 then xs else take S xs)"

definition holds_content :: "copy_state \<Rightarrow> nat \<Rightarrow> bytes \<Rightarrow> bool" where
  "holds_content st S C \<longleftrightarrow> cp_out st = cut S C \<and> unat (cp_written st) = length (cut S C)"

lemma copyPiece_content:
  assumes "holds_content st (unat k) C" "length C + length data < 2 ^ 64"
  shows "holds_content (copyPiece k data st) (unat k) (C @ data)"
proof -
  let ?S = "unat k" and ?w = "cp_written st"
  have w: "cp_out st = cut ?S C" "unat ?w = length (cut ?S C)" using assms(1) by (simp_all add: holds_content_def)
  have len: "unat (of_nat (length data) :: u64) = length data" using assms(2) by (simp add: unat_of_nat take_bit_nat_eq_self)
  have "unat ?w \<le> length C" using w(2) by (simp add: cut_def)
  then have add: "unat (?w + of_nat (length data)) = unat ?w + length data"
    using assms(2) len by (subst unat_add_lem [THEN iffD1]) simp_all
  show ?thesis
  proof (cases "k = 0")
    case True
    then show ?thesis
      using w add len by (auto simp: copyPiece_def Let_def holds_content_def cut_def word_gt_0 unat_eq_0 [symmetric])
  next
    case False
    then have S: "0 < ?S" by (simp add: unat_gt_0)
    have ws: "unat ?w = min (length C) ?S" using w(2) S by (simp add: cut_def)
    then have le: "?w \<le> k" by (simp add: word_le_nat_alt)
    define t where "t = (if ?w + of_nat (length data) > k then k - ?w else of_nat (length data))"
    have t: "unat t = min (length data) (?S - length C)"
      using add len le ws by (auto simp: t_def word_less_nat_alt unat_sub word_le_nat_alt)
    have "unat (?w + t) = unat ?w + unat t"
      using t ws assms(2) by (subst unat_add_lem [THEN iffD1]) simp_all
    moreover have "take ?S (C @ data) = take ?S C @ take (unat t) data"
      by (simp add: t min_def)
    moreover have "min (length C + length data) ?S = min (length C) ?S + unat t" by (auto simp: t min_def)
    ultimately have c: "cut ?S (C @ data) = cut ?S C @ take (unat t) data" "unat (?w + t) = length (cut ?S (C @ data))"
      using S ws by (simp_all add: cut_def)
    have p: "copyPiece k data st = (if t > 0
        then st\<lparr>cp_out := cp_out st @ take (unat t) data, cp_written := ?w + t\<rparr> else st)"
      using False by (simp add: copyPiece_def Let_def t_def word_gt_0)
    show ?thesis
    proof (cases "t = 0")
      case True
      with p c w show ?thesis by (simp add: holds_content_def)
    next
      case False
      with p c w show ?thesis by (simp add: holds_content_def word_gt_0)
    qed
  qed
qed

lemma copyDone_content: "holds_content st (unat k) C \<Longrightarrow> copyDone k st \<longleftrightarrow> 0 < unat k \<and> unat k \<le> length C"
  by (auto simp: copyDone_def holds_content_def cut_def word_le_nat_alt word_less_nat_alt unat_gt_0 min_def split: if_splits)

lemma holds_content_more:
  "holds_content st S C \<Longrightarrow> 0 < S \<Longrightarrow> S \<le> length C \<Longrightarrow> holds_content st S (C @ xs)"
  by (simp add: holds_content_def cut_def)

lemma slice_append: "slice a m D @ slice (a + m) n D = slice a (m + n) D"
  by (simp add: slice_def take_add add.commute)

lemma take_slice: "n \<le> m \<Longrightarrow> take n (slice a m D) = slice a n D"
  by (simp add: slice_def min_def)

lemma take_slice_in: "n \<le> length (slice a m D) \<Longrightarrow> take n (slice a m D) = slice a n D"
  by (rule take_slice) (simp add: slice_def)

lemma copyRun_content:
  assumes "serves rd D" "length D + 1048576 \<le> 2 ^ 64" "unat base + unat R \<le> length D"
    and "length C + unat R < 2 ^ 64" "holds_content st (unat k) C"
  shows "\<exists>st'. run_iter (copyStep rd base R k) (st\<lparr>cp_off := 0\<rparr>) = Done (None, st') \<and>
    holds_content st' (unat k) (C @ slice (unat base) (unat R) D)"
proof -
  let ?S = "unat k"
  define I where "I st \<longleftrightarrow> unat (cp_off st) < unat R + 1048576 \<and>
    holds_content st ?S (C @ slice (unat base) (min (unat (cp_off st)) (unat R)) D)" for st
  define Q where "Q = (\<lambda>(e :: ErrorInfo option, st'). e = None \<and> holds_content st' ?S (C @ slice (unat base) (unat R) D))"
  have "\<exists>x. run_iter (copyStep rd base R k) (st\<lparr>cp_off := 0\<rparr>) = Done x \<and> Q x"
  proof (rule run_iter_returns [where I = I and m = "\<lambda>st. unat R + 1048576 - unat (cp_off st)"])
    show "I (st\<lparr>cp_off := 0\<rparr>)" using assms(5) by (simp add: I_def holds_content_def slice_def)
  next
    fix s assume s: "I s"
    let ?o = "unat (cp_off s)"
    show "\<exists>r. copyStep rd base R k s = Done r \<and>
        (\<forall>s'. r = Inr s' \<longrightarrow> I s' \<and> unat R + 1048576 - unat (cp_off s') < unat R + 1048576 - ?o) \<and> (\<forall>x. r = Inl x \<longrightarrow> Q x)"
    proof (cases "cp_off s < R")
      case False
      then have "min ?o (unat R) = unat R" by (simp add: word_less_nat_alt)
      with s False show ?thesis by (simp add: copyStep_def I_def Q_def)
    next
      case True
      then have o: "?o < unat R" by (simp add: word_less_nat_alt)
      let ?n = "ucast (min READ_CHUNK (R - cp_off s)) :: u32"
      have sub: "unat (R - cp_off s) = unat R - ?o" using True by (simp add: unat_sub)
      have "unat (min READ_CHUNK (R - cp_off s)) = min 1048576 (unat R - ?o)"
        using sub by (auto simp: min_def word_le_nat_alt)
      then have n: "unat ?n = min 1048576 (unat R - ?o)" by (subst unat_ucast_64_32) simp_all
      have b: "unat (base + cp_off s) = unat base + ?o"
        using o assms(2,3) by (subst unat_add_lem [THEN iffD1]) simp_all
      let ?data = "slice (unat base + ?o) (unat ?n) D"
      have rd: "rd (base + cp_off s) ?n = Done (Inr ?data)"
        using servesD [OF assms(1), of "base + cp_off s" ?n] o assms(3) n b by simp
      have len: "length ?data = unat ?n" using o assms(3) n by simp
      have c: "holds_content s ?S (C @ slice (unat base) ?o D)" using s o by (simp add: I_def)
      have "length (slice (unat base) ?o D) = ?o" using o assms(3) by simp
      then have "holds_content (copyPiece k ?data s) ?S ((C @ slice (unat base) ?o D) @ ?data)"
        using o assms(4) len n by (intro copyPiece_content [OF c]) simp
      then have c': "holds_content (copyPiece k ?data s) ?S (C @ slice (unat base) (?o + unat ?n) D)"
        by (simp add: slice_append)
      have off: "cp_off (copyPiece k ?data s) = cp_off s" by (simp add: copyPiece_def Let_def)
      show ?thesis
      proof (cases "copyDone k (copyPiece k ?data s)")
        case True
        then have "0 < ?S" "?S \<le> length (C @ slice (unat base) (?o + unat ?n) D)"
          using copyDone_content [OF c'] by simp_all
        from holds_content_more [OF c' this, of "slice (unat base + (?o + unat ?n)) (unat R - (?o + unat ?n)) D"]
        have "holds_content (copyPiece k ?data s) ?S (C @ slice (unat base) (unat R) D)"
          using n o by (simp add: slice_append min_def split: if_splits)
        with True \<open>cp_off s < R\<close> rd show ?thesis by (simp add: copyStep_def Q_def)
      next
        case False
        have o': "unat (cp_off s + READ_CHUNK) = ?o + 1048576"
          using o assms(2,3) by (subst unat_add_lem [THEN iffD1]) simp_all
        have "min (?o + 1048576) (unat R) = ?o + unat ?n" using n o by simp
        moreover have "holds_content (st\<lparr>cp_off := x\<rparr>) S C = holds_content st S C" for st x S C
          by (simp add: holds_content_def)
        ultimately show ?thesis
          using False \<open>cp_off s < R\<close> rd c' o' o off by (simp add: copyStep_def I_def)
      qed
    qed
  qed
  then show ?thesis by (auto simp: Q_def)
qed

text \<open>The bytes of a run, and a copy of all runs.\<close>

definition run_bytes :: "(u64 \<Rightarrow> u64) \<Rightarrow> u32 \<Rightarrow> bytes \<Rightarrow> DataRun \<Rightarrow> bytes" where
  "run_bytes place clusterSize D run =
     slice (unat (place (dr_clusterOffset run))) (unat (dr_clusterCount run * ucast clusterSize)) D"

definition runs_inside :: "(u64 \<Rightarrow> u64) \<Rightarrow> u32 \<Rightarrow> nat \<Rightarrow> DataRun list \<Rightarrow> bool" where
  "runs_inside place clusterSize n rs \<longleftrightarrow> (\<forall>run\<in>set rs.
     unat (place (dr_clusterOffset run)) + unat (dr_clusterCount run * ucast clusterSize) \<le> n)"

lemma copyRuns_content:
  assumes "serves rd D" "length D + 1048576 \<le> 2 ^ 64" "runs_inside place clusterSize (length D) rs"
    and "length C + length (concat (map (run_bytes place clusterSize D) rs)) < 2 ^ 64" "holds_content st (unat k) C"
  shows "\<exists>st'. copyRuns rd place clusterSize stops k rs st = Done (None, st') \<and>
    holds_content st' (unat k) (C @ concat (map (run_bytes place clusterSize D) rs))"
  using assms(3-)
proof (induction rs arbitrary: C st)
  case Nil
  then show ?case by simp
next
  case (Cons run rs)
  let ?b = "place (dr_clusterOffset run)" and ?R = "dr_clusterCount run * ucast clusterSize :: u64"
  have in1: "unat ?b + unat ?R \<le> length D" and in2: "runs_inside place clusterSize (length D) rs"
    using Cons.prems(1) by (simp_all add: runs_inside_def)
  then have len: "length (run_bytes place clusterSize D run) = unat ?R" by (simp add: run_bytes_def)
  then obtain st1 where s: "run_iter (copyStep rd ?b ?R k) (st\<lparr>cp_off := 0\<rparr>) = Done (None, st1)"
    and c: "holds_content st1 (unat k) (C @ run_bytes place clusterSize D run)"
    using copyRun_content [OF assms(1,2) in1 _ Cons.prems(3)] Cons.prems(2) by (auto simp: run_bytes_def)
  show ?case
  proof (cases "stops \<and> copyDone k st1")
    case True
    then have "0 < unat k" "unat k \<le> length (C @ run_bytes place clusterSize D run)"
      using copyDone_content [OF c] by simp_all
    from holds_content_more [OF c this] show ?thesis using s True by simp
  next
    case False
    have "length (C @ run_bytes place clusterSize D run) + length (concat (map (run_bytes place clusterSize D) rs)) < 2 ^ 64"
      using Cons.prems(2) by simp
    from Cons.IH [OF in2 this c] show ?thesis using s False by auto
  qed
qed

lemma copyFile_content:
  assumes "serves rd D" "length D + 1048576 \<le> 2 ^ 64" "runs_inside place clusterSize (length D) (rf_dataRuns file)"
    and "B = concat (map (run_bytes place clusterSize D) (rf_dataRuns file))" "length B < 2 ^ 64"
  shows "copyFile True rd place clusterSize stops file path = Done (ok, Some (cut (unat (rf_sizeBytes file)) B))"
proof -
  have "holds_content \<lparr>cp_off = 0, cp_written = 0, cp_out = []\<rparr> (unat (rf_sizeBytes file)) []"
    by (simp add: holds_content_def cut_def)
  from copyRuns_content [OF assms(1-3) _ this, of stops] assms(4,5)
  obtain st' where "copyRuns rd place clusterSize stops (rf_sizeBytes file) (rf_dataRuns file)
      \<lparr>cp_off = 0, cp_written = 0, cp_out = []\<rparr> = Done (None, st')" "cp_out st' = cut (unat (rf_sizeBytes file)) B"
    by (auto simp: holds_content_def)
  then show ?thesis by (simp add: copyFile_def)
qed

section \<open>Recovering a file from its runs\<close>

lemma recoverFatFile_content:
  assumes rd: "serves (readPartitionBytes W m w) D" "512 \<le> length D" "length D + 1048576 \<le> 2 ^ 64"
    and bpb: "readLE16 (take 512 D) 0x0B \<noteq> 0" "D ! 0x0D \<noteq> 0"
    and lay: "clusterSize = ucast (D ! 0x0D) * ucast (readLE16 (take 512 D) 0x0B)"
      "place = (\<lambda>c. ucast (fatDataStart (take 512 D)) * ucast (readLE16 (take 512 D) 0x0B) + (c - 2) * ucast clusterSize)"
    and rs: "runs_inside place clusterSize (length D) (rf_dataRuns file)"
      "B = concat (map (run_bytes place clusterSize D) (rf_dataRuns file))" "length B < 2 ^ 64"
  shows "recoverFatFile W m True w file path = Done (ok, Some (cut (unat (rf_sizeBytes file)) B))"
proof -
  have "readPartitionBytes W m w 0 512 = Done (Inr (take 512 D))"
    using servesD [OF rd(1), of 0 512] rd(2) by (simp add: slice_def)
  then show ?thesis
    using copyFile_content [OF rd(1,3) rs, of False path] bpb
    by (simp add: recoverFatFile_def Let_def lay)
qed

lemma recoverExtFile_content:
  assumes rd: "serves (readPartitionBytes W m w) D" "1280 \<le> length D" "length D + 1048576 \<le> 2 ^ 64"
    and sb: "readLE32 (slice 1024 256 D) 0x18 < 32"
    and lay: "blockSize = push_bit (unat (readLE32 (slice 1024 256 D) 0x18)) 1024" "place = (\<lambda>c. c * ucast blockSize)"
    and rs: "runs_inside place blockSize (length D) (rf_dataRuns file)"
      "B = concat (map (run_bytes place blockSize D) (rf_dataRuns file))" "length B < 2 ^ 64"
  shows "recoverExtFile W m True w file path = Done (ok, Some (cut (unat (rf_sizeBytes file)) B))"
proof -
  have "readPartitionBytes W m w 1024 256 = Done (Inr (slice 1024 256 D))"
    using servesD [OF rd(1), of 1024 256] rd(2) by simp
  then show ?thesis
    using copyFile_content [OF rd(1,3) rs, of False path] sb
    by (simp add: recoverExtFile_def Let_def lay)
qed

lemma recoverNtfsFile_content:
  assumes rd: "serves (readPartitionBytes W m w) D" "512 \<le> length D" "length D + 1048576 \<le> 2 ^ 64"
    and bpb: "readLE16 (take 512 D) 0x0B \<noteq> 0" "D ! 0x0D \<noteq> 0"
    and lay: "clusterSize = ucast (readLE16 (take 512 D) 0x0B) * ucast (D ! 0x0D)" "place = (\<lambda>c. c * ucast clusterSize)"
    and rs: "runs_inside place clusterSize (length D) (rf_dataRuns file)"
      "B = concat (map (run_bytes place clusterSize D) (rf_dataRuns file))" "length B < 2 ^ 64"
  shows "recoverNtfsFile W m True w file path = Done (ok, Some (cut (unat (rf_sizeBytes file)) B))"
proof -
  have "readPartitionBytes W m w 0 512 = Done (Inr (take 512 D))"
    using servesD [OF rd(1), of 0 512] rd(2) by (simp add: slice_def)
  then show ?thesis
    using copyFile_content [OF rd(1,3) rs, of True path] bpb
    by (simp add: recoverNtfsFile_def Let_def lay)
qed

end
