(* ===== verification/File_Scanners.thy ===== *)
theory File_Scanners
  imports File_Recovery
begin

text \<open>
  \<open>src/core/recovery/FileRecovery.cpp\<close>: the scans for deleted files of NTFS (records of the master file
  table), FAT (directory entries) and ext (inodes), and the entry point that combines them with carving.
\<close>

unbundle bit_operations_syntax

section \<open>NTFS\<close>

text \<open>A little-endian number of at most eight bytes, and the same with the sign extended.\<close>

definition leValue :: "bytes \<Rightarrow> u64" where
  "leValue bs = foldr (\<lambda>b v. ucast b OR push_bit 8 v) bs 0"

definition leSigned :: "bytes \<Rightarrow> u64" where
  "leSigned bs = (if last bs AND 0x80 \<noteq> 0 then leValue bs OR push_bit (8 * length bs) (- 1) else leValue bs)"

text \<open>
  The list of data runs. Each has a header with the sizes of its two numbers; the position of a run is
  relative to the previous one, in signed 64-bit arithmetic, and a run without a position is skipped.
\<close>

function dataRuns :: "bytes \<Rightarrow> nat \<Rightarrow> u64 \<Rightarrow> DataRun list run" where
  "dataRuns recordData off prevCluster =
     (if \<not> off < length recordData then Done []
      else
        (let runHeader = recordData ! off;
             lenSize = unat (runHeader AND 0x0F);
             offSize = unat (drop_bit 4 runHeader AND 0x0F)
         in if runHeader = 0 then Done []
            else if lenSize = 0 \<or> lenSize > 8 \<or> offSize > 8 then Done []
            else if off + 1 + lenSize + offSize > length recordData then Done []
            else if offSize = 0 then dataRuns recordData (off + 1 + lenSize) prevCluster
            else
              (let runLength = leValue (slice (off + 1) lenSize recordData);
                   delta = leSigned (slice (off + 1 + lenSize) offSize recordData);
                   cluster = prevCluster + delta
               in require (sint cluster = sint prevCluster + sint delta)
                    (run_bind (dataRuns recordData (off + 1 + lenSize + offSize) cluster)
                       (\<lambda>rs. Done (\<lparr>dr_clusterOffset = cluster, dr_clusterCount = runLength\<rparr> # rs))))))"
  by pat_completeness auto
termination
  by (relation "measure (\<lambda>(recordData, off, prevCluster). length recordData - off)") auto

declare dataRuns.simps [simp del]

record ntfs_walk =
  nw_attrOffset :: u32
  nw_fileName :: bytes
  nw_fileSize :: u64
  nw_dataRuns :: "DataRun list"

text \<open>The name of a resident \<open>$FILE_NAME\<close> attribute, unless it is a DOS name; ASCII characters only.\<close>

definition fileNameAttribute :: "bytes \<Rightarrow> nat \<Rightarrow> bytes option" where
  "fileNameAttribute recordData off =
     (if off + 24 \<le> length recordData then
        (let nameAttr = off + unat (readLE16 recordData (off + 20)) in
         if nameAttr + 66 \<le> length recordData \<and> recordData ! (nameAttr + 65) \<noteq> 2 then
           (let n = unat (recordData ! (nameAttr + 64)); nameStart = nameAttr + 66 in
            if nameStart + 2 * n \<le> length recordData then
              Some (map (\<lambda>i. let ch = readLE16 recordData (nameStart + 2 * i) in if ch < 128 then ucast ch else 63) [0..<n])
            else None)
         else None)
      else None)"

text \<open>A \<open>$DATA\<close> attribute: resident data is represented by the cluster that holds the record itself.\<close>

definition dataAttribute :: "bytes \<Rightarrow> nat \<Rightarrow> u64 \<Rightarrow> u32 \<Rightarrow> ntfs_walk \<Rightarrow> ntfs_walk run" where
  "dataAttribute recordData off recordOffset clusterSize st =
     (if recordData ! (off + 8) = 1 then
        (if off + 64 \<le> length recordData then
           run_bind (dataRuns recordData (off + unat (readLE16 recordData (off + 32))) 0) (\<lambda>rs.
             Done (st\<lparr>nw_fileSize := readLE64 recordData (off + 48), nw_dataRuns := nw_dataRuns st @ rs\<rparr>))
         else Done st)
      else
        (if off + 24 \<le> length recordData then
           require (clusterSize \<noteq> 0)
             (Done (st\<lparr>nw_fileSize := ucast (readLE32 recordData (off + 16)),
                nw_dataRuns := nw_dataRuns st @
                  [\<lparr>dr_clusterOffset = recordOffset div ucast clusterSize, dr_clusterCount = 1\<rparr>]\<rparr>))
         else Done st))"

definition mftAttribute :: "bytes \<Rightarrow> u64 \<Rightarrow> u32 \<Rightarrow> ntfs_walk \<Rightarrow> (ntfs_walk + ntfs_walk) run" where
  "mftAttribute recordData recordOffset clusterSize st =
     (let off = unat (nw_attrOffset st) in
      if \<not> off + 16 \<le> length recordData then Done (Inl st)
      else
        (let attrType = readLE32 recordData off; attrLength = readLE32 recordData (off + 4) in
         if attrType = 0xFFFFFFFF \<or> attrLength = 0 then Done (Inl st)
         else if unat (nw_attrOffset st + attrLength) > length recordData then Done (Inl st)
         else
           run_bind
             (if attrType = 0x30 \<and> recordData ! (off + 8) = 0 then
                Done (case fileNameAttribute recordData off of None \<Rightarrow> st | Some name \<Rightarrow> st\<lparr>nw_fileName := name\<rparr>)
              else if attrType = 0x80 then dataAttribute recordData off recordOffset clusterSize st
              else Done st)
             (\<lambda>st. Done (Inr (st\<lparr>nw_attrOffset := nw_attrOffset st + attrLength\<rparr>)))))"

text \<open>What follows the last dot of a name.\<close>

definition fileExtension :: "bytes \<Rightarrow> bytes" where
  "fileExtension name = (if 46 \<in> set name then rev (takeWhile (\<lambda>c. c \<noteq> 46) (rev name)) else [])"

definition deletedRecord :: "bytes \<Rightarrow> bool" where
  "deletedRecord recordData \<longleftrightarrow> 48 \<le> length recordData \<and> memEqual recordData 0 ''FILE'' \<and>
     readLE16 recordData 22 AND 1 = 0 \<and> readLE16 recordData 22 AND 2 = 0"

definition mftFile :: "FileRecovery \<Rightarrow> u64 \<Rightarrow> u64 \<Rightarrow> u32 \<Rightarrow> bytes \<Rightarrow> RecoverableFile option run" where
  "mftFile m recordIdx recordOffset clusterSize recordData =
     (if \<not> deletedRecord recordData then Done None
      else
        run_bind (run_iter (mftAttribute recordData recordOffset clusterSize)
            \<lparr>nw_attrOffset = ucast (readLE16 recordData 20), nw_fileName = [], nw_fileSize = 0, nw_dataRuns = []\<rparr>) (\<lambda>nw.
          if nw_fileName nw = [] \<or> (nw_fileSize nw = 0 \<and> nw_dataRuns nw = []) then Done None
          else Done (Some (rf_default\<lparr>rf_filename := nw_fileName nw, rf_sizeBytes := nw_fileSize nw, rf_sourceFs := NTFS,
                 rf_confidence := (if nw_dataRuns nw = [] then 30 else 75), rf_partitionStartLba := fr_partStart m,
                 rf_sectorSize := fr_sectorSize m, rf_mftEntryIndex := recordIdx, rf_dataRuns := nw_dataRuns nw,
                 rf_extension := fileExtension (nw_fileName nw)\<rparr>))))"

record mft_state =
  ms_recordIdx :: u64
  ms_results :: "RecoverableFile list"
  ms_stopped :: bool

definition mftStep :: "'w recovery_env \<Rightarrow> FileRecovery \<Rightarrow> u64 \<Rightarrow> u32 \<Rightarrow> u32 \<Rightarrow> u64 \<Rightarrow> mft_state \<Rightarrow> (mft_state Result, 'w) io" where
  "mftStep E m mftByteOffset mftRecordSize clusterSize recordsToScan st w =
     (if rc_canceled E w then Done (fail OperationCanceled [], w)
      else
        (let recordIdx = ms_recordIdx st;
             recordOffset = mftByteOffset + recordIdx * ucast mftRecordSize;
             st' = st\<lparr>ms_recordIdx := recordIdx + 1\<rparr>
         in run_bind (readPartitionBytes (rc_win32 E) m w recordOffset mftRecordSize) (\<lambda>recordResult.
              case recordResult of
                Inl e \<Rightarrow> Done (Inr (st\<lparr>ms_stopped := True\<rparr>), w)
              | Inr recordData \<Rightarrow>
                  run_bind (mftFile m recordIdx recordOffset clusterSize recordData) (\<lambda>found.
                    case found of
                      None \<Rightarrow> Done (Inr st', w)
                    | Some file \<Rightarrow>
                        (let results = ms_results st @ [file]
                         in Done (Inr (st'\<lparr>ms_results := results\<rparr>),
                              rc_progress E recordIdx recordsToScan (length results) w))))))"

definition mftRecordBytes :: "u8 \<Rightarrow> u32 \<Rightarrow> u32 run" where
  "mftRecordBytes val clusterSize =
     (if 0 <s val then Done (ucast val * clusterSize)
      else require (- val < 32) (Done (push_bit (unat (- val)) 1)))"

definition scanNtfs :: "'w recovery_env \<Rightarrow> FileRecovery \<Rightarrow> (RecoverableFile list Result, 'w) io" where
  "scanNtfs E m w =
     run_bind (readPartitionBytes (rc_win32 E) m w 0 512) (\<lambda>bootResult.
       case bootResult of
         Inl e \<Rightarrow> Done (Inl e, w)
       | Inr boot \<Rightarrow>
           if length boot < 512 then Done (fail FilesystemCorrupt ''NTFS boot sector too small'', w)
           else if \<not> memEqual boot 3 ''NTFS    '' then Done (fail FilesystemCorrupt ''Not an NTFS volume'', w)
           else
             (let bytesPerSector = readLE16 boot 0x0B;
                  bytesPerSector = (if bytesPerSector = 0 then ucast (fr_sectorSize m) else bytesPerSector);
                  sectorsPerCluster = boot ! 0x0D
              in if sectorsPerCluster = 0 then Done (fail FilesystemCorrupt ''NTFS sectors/cluster is 0'', w)
                 else
                   (let clusterSize = ucast bytesPerSector * ucast sectorsPerCluster;
                        mftCluster = readLE64 boot 0x30
                    in run_bind (mftRecordBytes (boot ! 0x40) clusterSize) (\<lambda>mftRecordSize.
                         if mftRecordSize = 0 \<or> mftRecordSize > 65536 then
                           Done (fail FilesystemCorrupt ''Invalid MFT record size'', w)
                         else
                           (let mftByteOffset = mftCluster * ucast clusterSize;
                                partSizeBytes = fr_partSectors m * ucast (fr_sectorSize m);
                                maxMftRecords = (partSizeBytes - mftByteOffset) div ucast mftRecordSize;
                                recordsToScan = min maxMftRecords 1000000
                            in io_try (io_while (\<lambda>st. \<not> ms_stopped st \<and> ms_recordIdx st < recordsToScan)
                                   (mftStep E m mftByteOffset mftRecordSize clusterSize recordsToScan)
                                   \<lparr>ms_recordIdx = 0, ms_results = [], ms_stopped = False\<rparr>)
                                 (\<lambda>st. io_return (Inr (ms_results st))) w)))))"

section \<open>FAT\<close>

definition shortName :: "bytes \<Rightarrow> bytes" where
  "shortName entry =
     (let base = filter (\<lambda>c. c \<noteq> 32) (take 8 entry);
          ext = filter (\<lambda>c. c \<noteq> 32) (slice 8 3 entry);
          name = (if ext \<noteq> [] then base @ [46] @ ext else base)
      in name[0 := 95])"

definition clustersNeeded :: "u32 \<Rightarrow> u32 \<Rightarrow> u32" where
  "clustersNeeded fileSize clusterSize = (fileSize + clusterSize - 1) div clusterSize"

definition fatDeletedFile :: "FileRecovery \<Rightarrow> bool \<Rightarrow> u32 \<Rightarrow> bytes \<Rightarrow> RecoverableFile option" where
  "fatDeletedFile m isFat32 clusterSize entry =
     (if entry ! 11 = 0x0F then None
      else if entry ! 11 AND 0x08 \<noteq> 0 then None
      else if entry ! 0 \<noteq> 0xE5 then None
      else
        (let low = ucast (readLE16 entry 26) :: u32;
             firstCluster = (if isFat32 then low OR push_bit 16 (ucast (readLE16 entry 20)) else low);
             fileSize = readLE32 entry 28;
             file = rf_default\<lparr>rf_filename := shortName entry, rf_sizeBytes := ucast fileSize, rf_sourceFs := fr_fsType m,
               rf_extension := filter (\<lambda>c. c \<noteq> 32) (slice 8 3 entry), rf_confidence := 60,
               rf_partitionStartLba := fr_partStart m, rf_sectorSize := fr_sectorSize m, rf_firstCluster := firstCluster\<rparr>
         in if firstCluster \<ge> 2 \<and> fileSize > 0 then
              (let n = clustersNeeded fileSize clusterSize
               in Some (file\<lparr>rf_dataRuns := [\<lparr>dr_clusterOffset = ucast firstCluster, dr_clusterCount = ucast n\<rparr>],
                    rf_confidence := (if n = 1 then 85 else 55)\<rparr>))
            else Some file))"

fun dirEntries :: "'w recovery_env \<Rightarrow> FileRecovery \<Rightarrow> bool \<Rightarrow> u32 \<Rightarrow> u64 \<Rightarrow> u64 \<Rightarrow> bytes list \<Rightarrow> RecoverableFile list \<Rightarrow> 'w \<Rightarrow>
    RecoverableFile list \<times> 'w" where
  "dirEntries E m isFat32 clusterSize i entryCount [] results w = (results, w)"
| "dirEntries E m isFat32 clusterSize i entryCount (entry # entries) results w =
     (if rc_canceled E w then (results, w)
      else if entry ! 0 = 0 then (results, w)
      else
        (case fatDeletedFile m isFat32 clusterSize entry of
           None \<Rightarrow> dirEntries E m isFat32 clusterSize (i + 1) entryCount entries results w
         | Some file \<Rightarrow>
             (let results = results @ [file]
              in dirEntries E m isFat32 clusterSize (i + 1) entryCount entries results
                   (rc_progress E i entryCount (length results) w))))"

definition entriesOf :: "bytes \<Rightarrow> bytes list" where
  "entriesOf dirData = map (\<lambda>i. slice (32 * i) 32 dirData) [0..<length dirData div 32]"

definition scanDirEntries :: "'w recovery_env \<Rightarrow> FileRecovery \<Rightarrow> bool \<Rightarrow> u32 \<Rightarrow> u64 \<Rightarrow> u32 \<Rightarrow> RecoverableFile list \<Rightarrow> 'w \<Rightarrow>
    (RecoverableFile list \<times> 'w) run" where
  "scanDirEntries E m isFat32 clusterSize dirByteOffset dirByteSize results w =
     run_bind (readPartitionBytes (rc_win32 E) m w dirByteOffset dirByteSize) (\<lambda>dirResult.
       case dirResult of
         Inl e \<Rightarrow> Done (results, w)
       | Inr dirData \<Rightarrow>
           Done (dirEntries E m isFat32 clusterSize 0 (of_nat (length dirData div 32)) (entriesOf dirData) results w))"

record FatVolume =
  fv_bytesPerSector :: u16
  fv_reservedSectors :: u16
  fv_rootCluster :: u32
  fv_rootEntryCount :: u16
  fv_fatSize :: u32
  fv_numberOfFats :: u8
  fv_firstDataSector :: u32
  fv_clusterSize :: u32
  fv_totalSectors :: u64

definition fatVolume :: "bytes \<Rightarrow> FatVolume" where
  "fatVolume boot =
     (let bytesPerSector = readLE16 boot 0x0B;
          fatSize16 = readLE16 boot 0x16;
          fatSize = (if fatSize16 \<noteq> 0 then ucast fatSize16 else readLE32 boot 0x24) :: u32;
          rootDirSectors = (ucast (readLE16 boot 0x11) * 32 + (ucast bytesPerSector - 1)) div ucast bytesPerSector :: u32;
          totalSectors16 = readLE16 boot 0x13
      in \<lparr>fv_bytesPerSector = bytesPerSector, fv_reservedSectors = readLE16 boot 0x0E,
          fv_rootCluster = readLE32 boot 0x2C, fv_rootEntryCount = readLE16 boot 0x11, fv_fatSize = fatSize,
          fv_numberOfFats = boot ! 0x10,
          fv_firstDataSector = ucast (readLE16 boot 0x0E) + ucast (boot ! 0x10) * fatSize + rootDirSectors,
          fv_clusterSize = ucast (boot ! 0x0D) * ucast bytesPerSector,
          fv_totalSectors = (if totalSectors16 \<noteq> 0 then ucast totalSectors16 else ucast (readLE32 boot 0x20))\<rparr>)"

definition clusterPosition :: "FatVolume \<Rightarrow> u64 \<Rightarrow> u64" where
  "clusterPosition v cluster =
     ucast (fv_firstDataSector v) * ucast (fv_bytesPerSector v) + (cluster - 2) * ucast (fv_clusterSize v)"

record chain_state =
  ch_cluster :: u32
  ch_seen :: u32
  ch_results :: "RecoverableFile list"
  ch_stopped :: bool

definition rootStep :: "'w recovery_env \<Rightarrow> FileRecovery \<Rightarrow> FatVolume \<Rightarrow> chain_state \<Rightarrow> (chain_state Result, 'w) io" where
  "rootStep E m v st w =
     run_bind (scanDirEntries E m True (fv_clusterSize v)
         (ucast (fv_firstDataSector v) * ucast (fv_bytesPerSector v) +
           ucast (ch_cluster st - 2) * ucast (fv_clusterSize v))
         (fv_clusterSize v) (ch_results st) w) (\<lambda>(results, w).
       (let st = st\<lparr>ch_results := results, ch_seen := ch_seen st + 1\<rparr>;
            fatByteOffset = ucast (fv_reservedSectors v) * ucast (fv_bytesPerSector v) + ucast (ch_cluster st * 4)
        in run_bind (readPartitionBytes (rc_win32 E) m w fatByteOffset 4) (\<lambda>fatResult.
             case fatResult of
               Inl e \<Rightarrow> Done (Inr (st\<lparr>ch_stopped := True\<rparr>), w)
             | Inr fatData \<Rightarrow> Done (Inr (st\<lparr>ch_cluster := readLE32 fatData 0 AND 0x0FFFFFFF\<rparr>), w))))"

definition scanRoot :: "'w recovery_env \<Rightarrow> FileRecovery \<Rightarrow> FatVolume \<Rightarrow> (RecoverableFile list Result, 'w) io" where
  "scanRoot E m v =
     (if fv_rootEntryCount v = 0 then
        io_try (io_while (\<lambda>st. \<not> ch_stopped st \<and> 2 \<le> ch_cluster st \<and> ch_cluster st < 0x0FFFFFF8 \<and> ch_seen st < 4096)
            (rootStep E m v) \<lparr>ch_cluster = fv_rootCluster v, ch_seen = 0, ch_results = [], ch_stopped = False\<rparr>)
          (\<lambda>st. io_return (Inr (ch_results st)))
      else
        (\<lambda>w. run_bind (scanDirEntries E m False (fv_clusterSize v)
            (ucast (ucast (fv_reservedSectors v) + ucast (fv_numberOfFats v) * fv_fatSize v :: u32) * ucast (fv_bytesPerSector v))
            (ucast (fv_rootEntryCount v) * 32) [] w) (\<lambda>(results, w). Done (Inr results, w))))"

text \<open>The clusters of the data area that look like directories.\<close>

fun scanClusters :: "'w recovery_env \<Rightarrow> FileRecovery \<Rightarrow> FatVolume \<Rightarrow> u64 list \<Rightarrow> RecoverableFile list \<Rightarrow> 'w \<Rightarrow>
    (RecoverableFile list \<times> 'w) run" where
  "scanClusters E m v [] results w = Done (results, w)"
| "scanClusters E m v (cluster # clusters) results w =
     (if rc_canceled E w then Done (results, w)
      else
        run_bind (readPartitionBytes (rc_win32 E) m w (clusterPosition v cluster) 32) (\<lambda>peekResult.
          case peekResult of
            Inl e \<Rightarrow> scanClusters E m v clusters results w
          | Inr peek \<Rightarrow>
              if peek ! 0 \<noteq> 0x2E \<and> peek ! 0 \<noteq> 0xE5 then scanClusters E m v clusters results w
              else
                run_bind (scanDirEntries E m (fv_rootEntryCount v = 0) (fv_clusterSize v) (clusterPosition v cluster)
                    (fv_clusterSize v) results w)
                  (\<lambda>(results, w). scanClusters E m v clusters results w)))"

definition dataClusters :: "FatVolume \<Rightarrow> u64 list" where
  "dataClusters v =
     (let totalClusters = (fv_totalSectors v * ucast (fv_bytesPerSector v) -
            ucast (fv_firstDataSector v * ucast (fv_bytesPerSector v))) div ucast (fv_clusterSize v);
          clustersToScan = min totalClusters 8192
      in map (\<lambda>i. 2 + of_nat i) [0..<unat clustersToScan])"

definition scanFat :: "'w recovery_env \<Rightarrow> FileRecovery \<Rightarrow> (RecoverableFile list Result, 'w) io" where
  "scanFat E m w =
     run_bind (readPartitionBytes (rc_win32 E) m w 0 512) (\<lambda>bootResult.
       case bootResult of
         Inl e \<Rightarrow> Done (Inl e, w)
       | Inr boot \<Rightarrow>
           if length boot < 512 then Done (fail FilesystemCorrupt ''FAT boot sector too small'', w)
           else if readLE16 boot 0x0B = 0 \<or> boot ! 0x0D = 0 \<or> boot ! 0x10 = 0 then
             Done (fail FilesystemCorrupt ''Invalid FAT BPB'', w)
           else
             (let v = fatVolume boot
              in io_try (scanRoot E m v) (\<lambda>results w.
                   run_bind (scanClusters E m v (dataClusters v) results w) (\<lambda>(results, w). Done (Inr results, w))) w))"

section \<open>ext2, ext3 and ext4\<close>

text \<open>The direct blocks of an inode up to the first zero, as runs of consecutive blocks.\<close>

definition pushBlock :: "u32 \<Rightarrow> DataRun list \<Rightarrow> DataRun list" where
  "pushBlock blockNum rs =
     (if rs \<noteq> [] \<and> dr_clusterOffset (last rs) + dr_clusterCount (last rs) = ucast blockNum
      then butlast rs @ [(last rs)\<lparr>dr_clusterCount := dr_clusterCount (last rs) + 1\<rparr>]
      else rs @ [\<lparr>dr_clusterOffset = ucast blockNum, dr_clusterCount = 1\<rparr>])"

definition directBlocks :: "bytes \<Rightarrow> u32 list" where
  "directBlocks inode = takeWhile (\<lambda>b. b \<noteq> 0) (map (\<lambda>bp. readLE32 inode (40 + bp * 4)) [0..<12])"

definition directRuns :: "bytes \<Rightarrow> DataRun list" where
  "directRuns inode = fold pushBlock (directBlocks inode) []"

text \<open>The extents of the root node; an uninitialized extent has a length above 32768.\<close>

definition extentRun :: "bytes \<Rightarrow> nat \<Rightarrow> DataRun" where
  "extentRun inode e =
     (let extOffset = 52 + e * 12;
          eeLen = readLE16 inode (extOffset + 4);
          startBlock = ucast (readLE32 inode (extOffset + 8)) OR push_bit 32 (ucast (readLE16 inode (extOffset + 6)))
      in \<lparr>dr_clusterOffset = startBlock, dr_clusterCount = ucast (if eeLen > 32768 then eeLen - 32768 else eeLen)\<rparr>)"

definition extentRuns :: "u32 \<Rightarrow> bytes \<Rightarrow> DataRun list" where
  "extentRuns inodeSize inode =
     (if readLE16 inode 40 = 0xF30A then
        map (extentRun inode)
          (takeWhile (\<lambda>e. 52 + e * 12 + 12 \<le> unat inodeSize) [0..<min (unat (readLE16 inode 42)) 4])
      else [])"

definition inodeFileSize :: "u32 \<Rightarrow> bytes \<Rightarrow> u64" where
  "inodeFileSize inodeSize inode =
     ucast (readLE32 inode 4) OR push_bit 32 (ucast (if inodeSize \<ge> 128 then readLE32 inode 108 else 0))"

definition inodeFile :: "FileRecovery \<Rightarrow> u32 \<Rightarrow> u32 \<Rightarrow> bytes \<Rightarrow> RecoverableFile option" where
  "inodeFile m inodeSize inodeNumber inode =
     (if readLE16 inode 0 AND 0xF000 \<noteq> 0x8000 then None
      else
        (let fileSize = inodeFileSize inodeSize inode in
         if fileSize = 0 then None
         else
           (let rs = (if readLE32 inode 32 AND 0x80000 \<noteq> 0 then extentRuns inodeSize inode else directRuns inode)
            in Some (rf_default\<lparr>rf_filename := ascii (''inode_'' @ dec (unat inodeNumber)), rf_sizeBytes := fileSize,
                 rf_sourceFs := fr_fsType m, rf_confidence := (if rs = [] then 25 else 65),
                 rf_partitionStartLba := fr_partStart m, rf_sectorSize := fr_sectorSize m,
                 rf_inodeNumber := ucast inodeNumber, rf_dataRuns := rs\<rparr>))))"

record ExtVolume =
  ev_inodeCount :: u32
  ev_inodesPerGroup :: u32
  ev_inodeSize :: u32
  ev_blockSize :: u32
  ev_bgdtOffset :: u64
  ev_is64bit :: bool

definition inodeInUse :: "bytes \<Rightarrow> u32 \<Rightarrow> bool" where
  "inodeInUse inodeBitmap bitmapIdx \<longleftrightarrow>
     unat (bitmapIdx div 8) < length inodeBitmap \<and>
     inodeBitmap ! unat (bitmapIdx div 8) AND push_bit (unat (bitmapIdx mod 8)) 1 \<noteq> 0"

text \<open>The inodes of one chunk of the table; the scan reports its progress every 1000 files.\<close>

fun chunkInodes :: "'w recovery_env \<Rightarrow> FileRecovery \<Rightarrow> ExtVolume \<Rightarrow> u32 \<Rightarrow> u32 \<Rightarrow> bytes \<Rightarrow> bytes \<Rightarrow> u32 list \<Rightarrow>
    u64 \<times> RecoverableFile list \<Rightarrow> 'w \<Rightarrow> (u64 \<times> RecoverableFile list) \<times> 'w" where
  "chunkInodes E m v bg firstInode inodeBitmap chunkData [] st w = (st, w)"
| "chunkInodes E m v bg firstInode inodeBitmap chunkData (localIdx # rest) (scanned, results) w =
     (let inodeNumber = bg * ev_inodesPerGroup v + firstInode + localIdx + 1;
          inodeOffset = localIdx * ev_inodeSize v
      in if inodeNumber \<le> 10 \<or> inodeInUse inodeBitmap (firstInode + localIdx) then
           chunkInodes E m v bg firstInode inodeBitmap chunkData rest (scanned, results) w
         else if unat (inodeOffset + 128) > length chunkData then ((scanned, results), w)
         else
           (case inodeFile m (ev_inodeSize v) inodeNumber (slice (unat inodeOffset) 128 chunkData) of
              None \<Rightarrow> chunkInodes E m v bg firstInode inodeBitmap chunkData rest (scanned, results) w
            | Some file \<Rightarrow>
                (let scanned = scanned + 1; results = results @ [file] in
                 chunkInodes E m v bg firstInode inodeBitmap chunkData rest (scanned, results)
                   (if scanned mod 1000 = 0 then rc_progress E scanned (ucast (ev_inodeCount v)) (length results) w else w))))"

abbreviation (input) INODE_CHUNK :: u32 where "INODE_CHUNK \<equiv> 64 * 1024"

record table_state =
  tb_chunkStart :: u32
  tb_found :: "u64 \<times> RecoverableFile list"
  tb_stopped :: bool

definition tableStep :: "'w recovery_env \<Rightarrow> FileRecovery \<Rightarrow> ExtVolume \<Rightarrow> u32 \<Rightarrow> bytes \<Rightarrow> u64 \<Rightarrow> u32 \<Rightarrow> table_state \<Rightarrow>
    (table_state Result, 'w) io" where
  "tableStep E m v bg inodeBitmap inodeTableOffset tableSize st w =
     (let chunkStart = tb_chunkStart st;
          thisChunk = min INODE_CHUNK (tableSize - chunkStart)
      in run_bind (readPartitionBytes (rc_win32 E) m w (inodeTableOffset + ucast chunkStart) thisChunk) (\<lambda>chunkResult.
           case chunkResult of
             Inl e \<Rightarrow> Done (Inr (st\<lparr>tb_stopped := True\<rparr>), w)
           | Inr chunkData \<Rightarrow>
               (let (found, w) = chunkInodes E m v bg (chunkStart div ev_inodeSize v) inodeBitmap chunkData
                      (map of_nat [0..<unat (thisChunk div ev_inodeSize v)]) (tb_found st) w
                in Done (Inr (st\<lparr>tb_chunkStart := chunkStart + INODE_CHUNK, tb_found := found\<rparr>), w))))"

text \<open>The 64-bit block number of which the descriptor holds the low half at \<open>lo\<close> and the high half at \<open>hi\<close>.\<close>

definition descBlock :: "bool \<Rightarrow> bytes \<Rightarrow> nat \<Rightarrow> nat \<Rightarrow> u64" where
  "descBlock is64bit bgd lo hi =
     (if is64bit \<and> length bgd \<ge> hi + 4 then ucast (readLE32 bgd lo) OR push_bit 32 (ucast (readLE32 bgd hi))
      else ucast (readLE32 bgd lo))"

record group_state =
  gs_group :: u32
  gs_found :: "u64 \<times> RecoverableFile list"

definition groupStep :: "'w recovery_env \<Rightarrow> FileRecovery \<Rightarrow> ExtVolume \<Rightarrow> group_state \<Rightarrow> (group_state Result, 'w) io" where
  "groupStep E m v st w =
     (if rc_canceled E w then Done (fail OperationCanceled [], w)
      else
        (let bg = gs_group st;
             bgdSize = (if ev_is64bit v then 64 else 32) :: u32;
             st = st\<lparr>gs_group := bg + 1\<rparr>
         in run_bind (readPartitionBytes (rc_win32 E) m w (ev_bgdtOffset v + ucast (bg * bgdSize)) bgdSize) (\<lambda>bgdResult.
              case bgdResult of
                Inl e \<Rightarrow> Done (Inr st, w)
              | Inr bgd \<Rightarrow>
                  if length bgd < 32 then Done (Inr st, w)
                  else
                    run_bind (readPartitionBytes (rc_win32 E) m w (descBlock (ev_is64bit v) bgd 4 36 * ucast (ev_blockSize v))
                        (ev_inodesPerGroup v div 8)) (\<lambda>bitmapResult.
                      (let inodeBitmap = (case bitmapResult of Inl e \<Rightarrow> [] | Inr bits \<Rightarrow> bits);
                           inodesInThisGroup = min (ev_inodesPerGroup v) (ev_inodeCount v - bg * ev_inodesPerGroup v);
                           tableSize = inodesInThisGroup * ev_inodeSize v
                       in io_try (io_while (\<lambda>t. \<not> tb_stopped t \<and> tb_chunkStart t < tableSize)
                              (tableStep E m v bg inodeBitmap (descBlock (ev_is64bit v) bgd 8 40 * ucast (ev_blockSize v)) tableSize)
                              \<lparr>tb_chunkStart = 0, tb_found = gs_found st, tb_stopped = False\<rparr>)
                            (\<lambda>t. io_return (Inr (st\<lparr>gs_found := tb_found t\<rparr>))) w)))))"

definition extVolume :: "bytes \<Rightarrow> u32 \<Rightarrow> ExtVolume" where
  "extVolume sb blockSize =
     (let firstDataBlock = readLE32 sb 0x14;
          bgdtBlock = (if firstDataBlock = 0 then 1 else firstDataBlock + 1) :: u32;
          inodeSize = readLE16 sb 0x58
      in \<lparr>ev_inodeCount = readLE32 sb 0, ev_inodesPerGroup = readLE32 sb 0x28,
          ev_inodeSize = (if inodeSize = 0 then 128 else ucast inodeSize), ev_blockSize = blockSize,
          ev_bgdtOffset = ucast bgdtBlock * ucast blockSize, ev_is64bit = (readLE32 sb 0x60 AND 0x80 \<noteq> 0)\<rparr>)"

definition scanExt :: "'w recovery_env \<Rightarrow> FileRecovery \<Rightarrow> (RecoverableFile list Result, 'w) io" where
  "scanExt E m w =
     run_bind (readPartitionBytes (rc_win32 E) m w 1024 1024) (\<lambda>sbResult.
       case sbResult of
         Inl e \<Rightarrow> Done (Inl e, w)
       | Inr sb \<Rightarrow>
           if length sb < 256 then Done (fail FilesystemCorrupt ''ext superblock too small'', w)
           else if readLE16 sb 0x38 \<noteq> EXT_SUPER_MAGIC then Done (fail FilesystemCorrupt ''Not an ext2/3/4 volume'', w)
           else
             (let logBlockSize = readLE32 sb 0x18; blocksPerGroup = readLE32 sb 0x20 in
              require (logBlockSize < 32 \<and> blocksPerGroup \<noteq> 0)
                (let v = extVolume sb (push_bit (unat logBlockSize) 1024);
                     blockGroups = (readLE32 sb 0x04 + blocksPerGroup - 1) div blocksPerGroup
                 in if blockGroups = 0 then Done (fail FilesystemCorrupt ''0 block groups'', w)
                    else
                      io_try (io_while (\<lambda>st. gs_group st < blockGroups) (groupStep E m v) \<lparr>gs_group = 0, gs_found = (0, [])\<rparr>)
                        (\<lambda>st. io_return (Inr (snd (gs_found st)))) w)))"

section \<open>The scan\<close>

text \<open>A pass that fails contributes nothing: its error is dropped.\<close>

definition resultsOf :: "RecoverableFile list Result \<Rightarrow> RecoverableFile list" where
  "resultsOf r = (case r of Inl e \<Rightarrow> [] | Inr files \<Rightarrow> files)"

definition filesystemPass :: "'w recovery_env \<Rightarrow> FileRecovery \<Rightarrow> (RecoverableFile list Result, 'w) io" where
  "filesystemPass E m =
     (let fs = fr_fsType m in
      if fs = NTFS then scanNtfs E m
      else if fs \<in> {FAT12, FAT16, FAT32} then scanFat E m
      else if fs \<in> {Ext2, Ext3, Ext4} then scanExt E m
      else io_return (fail FilesystemNotSupported []))"

definition scanFiles :: "'w recovery_env \<Rightarrow> FileRecovery \<Rightarrow> FileRecoveryMode \<Rightarrow> (RecoverableFile list Result, 'w) io" where
  "scanFiles E m mode =
     io_bind (if mode = FilesystemAware \<or> mode = BothPasses then filesystemPass E m else io_return (Inr [])) (\<lambda>fsResult.
     io_bind (if mode = Carving \<or> mode = BothPasses then scanCarving E m else io_return (Inr [])) (\<lambda>carveResult.
       (let allResults = resultsOf fsResult @ resultsOf carveResult in
        io_return (if allResults = [] then fail NoFilesRecovered ''No recoverable files found'' else Inr allResults))))"

end
