(* ===== verification/File_Undelete.thy ===== *)
theory File_Undelete
  imports File_Copy File_Scanners Recovery_Correct
begin

text \<open>
  What the scans for deleted files promise together with the copy. On a disk without faults a deleted FAT file
  comes back as the bytes that follow its first cluster and a deleted ext file as its direct blocks; the walk
  over the attributes of an NTFS record need not end.
\<close>

unbundle bit_operations_syntax

section \<open>FAT\<close>

lemma fatVolume_dataStart: "fv_firstDataSector (fatVolume boot) = fatDataStart boot"
  by (simp add: fatVolume_def fatDataStart_def fatSizeOf_def Let_def)

lemma fatVolume_cluster:
  assumes "readLE16 boot 0x0B \<noteq> 0" "boot ! 0x0D \<noteq> 0"
  shows "fv_clusterSize (fatVolume boot) \<noteq> 0"
proof -
  let ?s = "boot ! 0x0D" and ?b = "readLE16 boot 0x0B"
  have lt: "unat ?s < 2 ^ 8" "unat ?b < 2 ^ 16" using unsigned_less [of ?s] unsigned_less [of ?b] by simp_all
  then have "unat ?s * unat ?b \<le> 2 ^ 8 * 2 ^ 16" by (intro mult_le_mono) simp_all
  moreover have u: "unat (ucast ?s :: u32) = unat ?s" "unat (ucast ?b :: u32) = unat ?b"
    using lt by (simp_all add: unsigned_ucast_eq take_bit_nat_eq_self)
  ultimately have "unat ((ucast ?s :: u32) * ucast ?b) = unat ?s * unat ?b"
    by (subst unat_mult_lem [THEN iffD1]) (simp_all only: u, simp_all)
  moreover have "unat ?s * unat ?b \<noteq> 0" using assms by (simp add: unat_eq_0)
  ultimately have "unat ((ucast ?s :: u32) * ucast ?b) \<noteq> 0" by simp
  then show ?thesis by (auto simp: fatVolume_def Let_def)
qed

lemma fatDeletedFile_fields:
  assumes "fatDeletedFile m isFat32 cs entry = Some file" "rf_firstCluster file \<ge> 2" "rf_sizeBytes file \<noteq> 0"
  shows "rf_sourceFs file = fr_fsType m"
    "rf_dataRuns file = [\<lparr>dr_clusterOffset = ucast (rf_firstCluster file),
       dr_clusterCount = ucast (clustersNeeded (ucast (rf_sizeBytes file)) cs)\<rparr>]"
    "unat (rf_sizeBytes file) < 2 ^ 32"
proof -
  have u: "unat (ucast x :: u64) < 4294967296" "(ucast (ucast x :: u64) :: u32) = x" for x :: u32
    using unsigned_less [of x] by (simp_all add: unat_ucast_up is_up up_ucast_surj is_down ucast_up_ucast_id)
  show "rf_sourceFs file = fr_fsType m"
    "rf_dataRuns file = [\<lparr>dr_clusterOffset = ucast (rf_firstCluster file),
       dr_clusterCount = ucast (clustersNeeded (ucast (rf_sizeBytes file)) cs)\<rparr>]"
    "unat (rf_sizeBytes file) < 2 ^ 32"
    using assms by (auto simp: fatDeletedFile_def Let_def rf_default_def word_gt_0 u split: if_split_asm)
qed

text \<open>
  C36. A deleted file of a FAT volume comes back byte for byte if its clusters follow each other: the entry that
  the scan of a directory makes of a deleted entry, given to \<open>recoverFile\<close>, yields exactly as many bytes as
  the entry's size says, starting at the position of its first cluster. The disk has no faults, and the size
  rounded up to clusters stays below 4 GiB and inside the disk.
\<close>

theorem fat_undelete:
  assumes "content_laws W V" "disk_readable W V d" "partition_on V m w d start"
    and "D = drop start (contents V w d)" "512 \<le> length D" "length D + 1048576 \<le> 2 ^ 64"
    and "boot = take 512 D" "readLE16 boot 0x0B \<noteq> 0" "boot ! 0x0D \<noteq> 0" "fr_fsType m \<in> {FAT12, FAT16, FAT32}"
    and "v = fatVolume boot" "fatDeletedFile m wide (fv_clusterSize v) entry = Some file"
    and "2 \<le> rf_firstCluster file" "sz = unat (rf_sizeBytes file)" "0 < sz" "cs = unat (fv_clusterSize v)"
    and "sz + cs \<le> 2 ^ 32" "p = unat (clusterPosition v (ucast (rf_firstCluster file)))"
    and "p + (sz + cs - 1) div cs * cs \<le> length D"
  shows "recoverFile W m True w file path = Done (ok, Some (slice p sz D))"
proof -
  have "rf_sizeBytes file \<noteq> 0" using assms(14,15) by auto
  note f = fatDeletedFile_fields [OF assms(12,13) this]
  have sz: "unat (ucast (rf_sizeBytes file) :: u32) = sz"
    using f(3) assms(14) by (subst unat_ucast_64_32) simp_all
  have nz: "fv_clusterSize v \<noteq> 0" unfolding assms(11) by (rule fatVolume_cluster) (fact assms)+
  then have cs: "0 < cs" using assms(16) by (simp add: unat_gt_0)
  have n: "unat (clustersNeeded (ucast (rf_sizeBytes file)) (fv_clusterSize v)) = (sz + cs - 1) div cs"
    unfolding clustersNeeded_def using unat_ceil_div [OF nz, of "ucast (rf_sizeBytes file)"] sz assms(16,17) by simp
  let ?R = "(ucast (clustersNeeded (ucast (rf_sizeBytes file)) (fv_clusterSize v)) :: u64) * ucast (fv_clusterSize v)"
  have "sz + cs - 1 < 2 ^ 64" using assms(17) by simp
  from le_less_trans [OF div_times_less_eq_dividend this] have "(sz + cs - 1) div cs * cs < 2 ^ 64" .
  then have R: "unat ?R = (sz + cs - 1) div cs * cs"
    using n assms(16) by (subst unat_mult_lem [THEN iffD1]) (simp_all add: unat_ucast_up)
  have boot: "boot ! 0x0D = D ! 0x0D" using assms(7) by simp
  define place where "place = (\<lambda>c. ucast (fatDataStart (take 512 D)) * ucast (readLE16 (take 512 D) 0x0B) +
    (c - 2) * ucast (fv_clusterSize v) :: u64)"
  have vs: "fv_clusterSize v = ucast (D ! 0x0D) * ucast (readLE16 (take 512 D) 0x0B)"
    "fv_bytesPerSector v = readLE16 (take 512 D) 0x0B"
    using assms(7,11) boot by (simp_all add: fatVolume_def Let_def)
  have pl: "unat (place (ucast (rf_firstCluster file))) = p"
    using assms(18) vs(2) assms(7,11) by (simp add: place_def clusterPosition_def fatVolume_dataStart)
  have B: "slice p (unat ?R) D = concat (map (run_bytes place (fv_clusterSize v) D) (rf_dataRuns file))"
    by (simp add: f(2) run_bytes_def pl)
  have inside: "runs_inside place (fv_clusterSize v) (length D) (rf_dataRuns file)"
    using assms(19) R pl by (simp add: f(2) runs_inside_def)
  have srv: "serves (readPartitionBytes W m w) D" unfolding assms(4) by (rule readPartitionBytes_serves) (fact assms)+
  have lenB: "length (slice p (unat ?R) D) < 2 ^ 64" using assms(6) by (simp add: slice_def)
  have bpb: "readLE16 (take 512 D) 0x0B \<noteq> 0" "D ! 0x0D \<noteq> 0" using assms(7-9) boot by simp_all
  have "recoverFatFile W m True w file path = Done (ok, Some (cut (unat (rf_sizeBytes file)) (slice p (unat ?R) D)))"
    by (rule recoverFatFile_content [OF srv assms(5,6) bpb vs(1) place_def inside B lenB])
  moreover have "cut (unat (rf_sizeBytes file)) (slice p (unat ?R) D) = slice p sz D"
    using ceil_ge [OF cs, of sz] R assms(14,15) by (simp add: cut_def take_slice)
  ultimately show ?thesis using f(1) assms(10) by (auto simp: recoverFile_def)
qed

section \<open>ext2, ext3 and ext4\<close>

text \<open>Coalescing consecutive blocks changes neither the bytes nor their order.\<close>

definition runs_bounded :: "nat \<Rightarrow> nat \<Rightarrow> DataRun list \<Rightarrow> bool" where
  "runs_bounded bs n rs \<longleftrightarrow> (\<forall>run\<in>set rs.
     unat (dr_clusterOffset run) + unat (dr_clusterCount run) \<le> 2 ^ 32 \<and>
     (unat (dr_clusterOffset run) + unat (dr_clusterCount run)) * bs \<le> n)"

lemma run_of_blocks:
  fixes bs :: u32
  assumes "unat off + unat cnt \<le> 2 ^ 32" "(unat off + unat cnt) * unat bs \<le> length D" "length D < 2 ^ 64"
  shows "unat (off * ucast bs :: u64) = unat off * unat bs" "unat (cnt * ucast bs :: u64) = unat cnt * unat bs"
proof -
  have "unat off * unat bs + unat cnt * unat bs < 2 ^ 64" using assms(2,3) by (simp add: add_mult_distrib)
  then show "unat (off * ucast bs) = unat off * unat bs" "unat (cnt * ucast bs) = unat cnt * unat bs"
    by (subst unat_mult_lem [THEN iffD1]; simp add: unat_ucast_up)+
qed

lemma pushBlock_bytes:
  fixes bs :: u32
  assumes "runs_bounded (unat bs) (length D) rs" "length D < 2 ^ 64" "(unat b + 1) * unat bs \<le> length D"
  shows "runs_bounded (unat bs) (length D) (pushBlock b rs)"
    "concat (map (run_bytes (\<lambda>c. c * ucast bs) bs D) (pushBlock b rs)) =
     concat (map (run_bytes (\<lambda>c. c * ucast bs) bs D) rs) @ slice (unat b * unat bs) (unat bs) D"
proof -
  let ?join = "rs \<noteq> [] \<and> dr_clusterOffset (last rs) + dr_clusterCount (last rs) = ucast b"
  have b: "unat (ucast b :: u64) = unat b" "unat b < 2 ^ 32"
    using unsigned_less [of b] by (simp_all add: unat_ucast_up)
  have "runs_bounded (unat bs) (length D) (pushBlock b rs) \<and>
    concat (map (run_bytes (\<lambda>c. c * ucast bs) bs D) (pushBlock b rs)) =
    concat (map (run_bytes (\<lambda>c. c * ucast bs) bs D) rs) @ slice (unat b * unat bs) (unat bs) D"
  proof (cases ?join)
    case False
    then have "pushBlock b rs = rs @ [\<lparr>dr_clusterOffset = ucast b, dr_clusterCount = 1\<rparr>]"
      by (auto simp: pushBlock_def)
    moreover have "unat (ucast b * ucast bs :: u64) = unat b * unat bs" "unat (ucast bs :: u64) = unat bs"
      using run_of_blocks(1) [of "ucast b" 1 bs D] b assms(2,3) by (simp_all add: unat_ucast_up)
    ultimately show ?thesis using assms(1,3) b by (simp add: runs_bounded_def run_bytes_def)
  next
    case True
    then obtain xs r where rs: "rs = xs @ [r]" and r: "dr_clusterOffset r + dr_clusterCount r = ucast b"
      by (cases rs rule: rev_cases) auto
    let ?o = "dr_clusterOffset r" and ?c = "dr_clusterCount r"
    have bd: "unat ?o + unat ?c \<le> 2 ^ 32" "(unat ?o + unat ?c) * unat bs \<le> length D"
      using assms(1) by (simp_all add: runs_bounded_def rs)
    have "unat (?o + ?c) = unat ?o + unat ?c" using bd(1) by (subst unat_add_lem [THEN iffD1]) simp_all
    then have oc: "unat ?o + unat ?c = unat b" using r b(1) by simp
    have c1: "unat (?c + 1) = unat ?c + 1" using bd(1) by (subst unat_add_lem [THEN iffD1]) simp_all
    have bd': "unat ?o + unat (?c + 1) \<le> 2 ^ 32" "(unat ?o + unat (?c + 1)) * unat bs \<le> length D"
      using oc c1 b(2) assms(3) by (simp_all add: add.assoc [symmetric])
    note p = run_of_blocks [OF bd assms(2)] and q = run_of_blocks [OF bd' assms(2)]
    have push: "pushBlock b rs = xs @ [r\<lparr>dr_clusterCount := ?c + 1\<rparr>]" using r by (simp add: pushBlock_def rs)
    have "runs_bounded (unat bs) (length D) (pushBlock b rs)"
      using assms(1) bd' unfolding push by (simp add: runs_bounded_def rs)
    moreover have "unat b * unat bs = unat ?o * unat bs + unat ?c * unat bs"
      unfolding oc [symmetric] by (rule add_mult_distrib)
    moreover have "unat (?c + 1) * unat bs = unat ?c * unat bs + unat bs" by (simp add: c1)
    ultimately show ?thesis
      unfolding push by (simp add: rs run_bytes_def p q slice_append)
  qed
  then show "runs_bounded (unat bs) (length D) (pushBlock b rs)"
    "concat (map (run_bytes (\<lambda>c. c * ucast bs) bs D) (pushBlock b rs)) =
     concat (map (run_bytes (\<lambda>c. c * ucast bs) bs D) rs) @ slice (unat b * unat bs) (unat bs) D" by blast+
qed

lemma pushBlocks_bytes:
  fixes bs :: u32
  assumes "runs_bounded (unat bs) (length D) rs" "length D < 2 ^ 64" "\<And>b. b \<in> set blocks \<Longrightarrow> (unat b + 1) * unat bs \<le> length D"
  shows "runs_bounded (unat bs) (length D) (fold pushBlock blocks rs) \<and>
    concat (map (run_bytes (\<lambda>c. c * ucast bs) bs D) (fold pushBlock blocks rs)) =
    concat (map (run_bytes (\<lambda>c. c * ucast bs) bs D) rs) @ concat (map (\<lambda>b. slice (unat b * unat bs) (unat bs) D) blocks)"
  using assms(1,3)
proof (induction blocks arbitrary: rs)
  case (Cons b blocks)
  note * = pushBlock_bytes [OF Cons.prems(1) assms(2) Cons.prems(2) [of b]]
  show ?case using Cons.IH [OF *(1)] *(2) Cons.prems(2) by simp
qed simp

lemma directRuns_bytes:
  assumes "length D < 2 ^ 64" "\<And>b. b \<in> set (directBlocks inode) \<Longrightarrow> (unat b + 1) * unat bs \<le> length D"
  shows "runs_inside (\<lambda>c. c * ucast bs) bs (length D) (directRuns inode)"
    "concat (map (run_bytes (\<lambda>c. c * ucast bs) bs D) (directRuns inode)) =
     concat (map (\<lambda>b. slice (unat b * unat bs) (unat bs) D) (directBlocks inode))"
proof -
  have "runs_bounded (unat bs) (length D) []" by (simp add: runs_bounded_def)
  note * = pushBlocks_bytes [OF this assms(1), of "directBlocks inode", OF assms(2)]
  then show "concat (map (run_bytes (\<lambda>c. c * ucast bs) bs D) (directRuns inode)) =
     concat (map (\<lambda>b. slice (unat b * unat bs) (unat bs) D) (directBlocks inode))" by (simp add: directRuns_def)
  have "runs_bounded (unat bs) (length D) (directRuns inode)" using * by (simp add: directRuns_def)
  then show "runs_inside (\<lambda>c. c * ucast bs) bs (length D) (directRuns inode)"
    using run_of_blocks [OF _ _ assms(1), of _ _ bs]
    by (auto simp: runs_bounded_def runs_inside_def add_mult_distrib)
qed

lemma length_concat_le: "(\<And>x. length (f x) \<le> n) \<Longrightarrow> length (concat (map f xs)) \<le> length xs * n"
  by (induction xs) (simp_all add: add_mono)

text \<open>
  C37. A deleted file of an ext volume that is mapped by block pointers comes back as the blocks of its
  direct pointers, in their order, cut off at its size: joining consecutive blocks to runs changes neither
  the bytes nor their order. The blocks behind the twelfth are not followed, and the recovery does not
  say so: of a longer file at most twelve blocks are written, and the result is success.
\<close>

theorem ext_undelete:
  assumes "content_laws W V" "disk_readable W V d" "partition_on V m w d start"
    and "D = drop start (contents V w d)" "1280 \<le> length D" "length D + 1048576 \<le> 2 ^ 64"
    and "lg = readLE32 (slice 1024 256 D) 0x18" "lg < 32" "bs = (push_bit (unat lg) 1024 :: u32)"
    and "fr_fsType m \<in> {Ext2, Ext3, Ext4}" "readLE32 inode 32 AND 0x80000 = 0"
    and "inodeFile m inodeSize inodeNumber inode = Some file"
    and "\<forall>b\<in>set (directBlocks inode). (unat b + 1) * unat bs \<le> length D"
  shows "recoverFile W m True w file path = Done (ok, Some (take (unat (inodeFileSize inodeSize inode))
      (concat (map (\<lambda>b. slice (unat b * unat bs) (unat bs) D) (directBlocks inode))))) \<and>
    length (directBlocks inode) \<le> 12"
proof -
  have f: "rf_sourceFs file = fr_fsType m" "rf_sizeBytes file = inodeFileSize inodeSize inode"
    "rf_dataRuns file = directRuns inode" "inodeFileSize inodeSize inode \<noteq> 0"
    using assms(11,12) by (auto simp: inodeFile_def Let_def rf_default_def split: if_split_asm)
  have len: "length D < 2 ^ 64" using assms(6) by simp
  have srv: "serves (readPartitionBytes W m w) D" unfolding assms(4) by (rule readPartitionBytes_serves) (fact assms)+
  let ?B = "concat (map (\<lambda>b. slice (unat b * unat bs) (unat bs) D) (directBlocks inode))"
  have r: "runs_inside (\<lambda>c. c * ucast bs) bs (length D) (rf_dataRuns file)"
    unfolding f(3) by (rule directRuns_bytes [OF len]) (rule bspec [OF assms(13)])
  have B: "?B = concat (map (run_bytes (\<lambda>c. c * ucast bs) bs D) (rf_dataRuns file))"
    unfolding f(3) by (rule directRuns_bytes(2) [OF len, symmetric]) (rule bspec [OF assms(13)])
  have twelve: "length (directBlocks inode) \<le> 12"
    unfolding directBlocks_def by (rule order_trans [OF length_takeWhile_le]) simp
  have "length (slice (unat b * unat bs) (unat bs) D) \<le> unat bs" for b by (simp add: slice_def)
  then have "length ?B \<le> length (directBlocks inode) * unat bs" by (rule length_concat_le)
  also have "\<dots> \<le> 12 * 2 ^ 32" using twelve unsigned_less [of bs, where 'a = nat] by (intro mult_le_mono) simp_all
  finally have lenB: "length ?B < 2 ^ 64" by simp
  have "recoverExtFile W m True w file path = Done (ok, Some (cut (unat (rf_sizeBytes file)) ?B))"
    by (rule recoverExtFile_content [OF srv assms(5,6) _ _ refl r B lenB]) (use assms(7-9) in simp_all)
  then show ?thesis using f assms(10) twelve by (auto simp: recoverFile_def cut_def unat_eq_0)
qed

section \<open>Witnesses\<close>

text \<open>
  A FAT12 volume with sectors and clusters of 512 bytes: the boot sector, one sector of table, one of root
  directory, and a deleted file of 700 bytes in the clusters 3 and 4.
\<close>

definition undelete_boot :: bytes where
  "undelete_boot = fold (\<lambda>(i, v) b. writeLE16 b i v) [(0x0B, 512), (0x0E, 1), (0x11, 16), (0x13, 8), (0x16, 1)]
     ((replicate 512 0)[0x0D := 1, 0x10 := 1])"

definition undelete_disk :: bytes where
  "undelete_disk = undelete_boot @ replicate 1536 0 @ replicate 700 65 @ replicate 1348 0"

definition undelete_entry :: bytes where
  "undelete_entry = [0xE5, 65, 66, 32, 32, 32, 32, 32, 84, 88, 84, 0x20] @ replicate 14 0 @ [3, 0, 0xBC, 2, 0, 0]"

definition undelete_recovery :: "FilesystemType \<Rightarrow> FileRecovery" where
  "undelete_recovery fs = \<lparr>fr_disk = sim_handle, fr_partStart = 0, fr_partSectors = 8, fr_fsType = fs, fr_sectorSize = 512\<rparr>"

lemma undelete_recovery_fsType [simp]: "fr_fsType (undelete_recovery fs) = fs"
  by (simp add: undelete_recovery_def)

lemma undelete_partition:
  assumes "512 dvd length content" "length content < 2 ^ 64"
  shows "partition_on sim_view (undelete_recovery fs) (scanned_world content) 0 0"
  using assms by (auto simp: partition_on_def undelete_recovery_def sim_handle_def intro: exI [of _ False])

lemma sim_reads: "content_laws sim_win32 sim_view" "disk_readable sim_win32 sim_view 0"
  using sim_win32_laws disk_works_readable [OF sim_disk_works] by (simp_all add: win32_laws_def content_laws_def)

lemma undelete_boot_fields:
  "length undelete_boot = 512" "readLE16 undelete_boot 0x0B = 512" "undelete_boot ! 0x0D = 1"
  "fv_clusterSize (fatVolume undelete_boot) = 512" "fv_firstDataSector (fatVolume undelete_boot) = 3"
  "fv_bytesPerSector (fatVolume undelete_boot) = 512"
  by code_simp+

lemma undelete_file:
  "\<exists>file. fatDeletedFile (undelete_recovery FAT12) False 512 undelete_entry = Some file \<and> rf_firstCluster file = 3 \<and>
     rf_sizeBytes file = 700"
proof -
  have "readLE16 undelete_entry 26 = 3" "readLE32 undelete_entry 28 = 700" "undelete_entry ! 11 = 0x20" "undelete_entry ! 0 = 0xE5"
    by code_simp+
  then show ?thesis by (simp add: fatDeletedFile_def rf_default_def Let_def)
qed

theorem fat_undelete_witness:
  "\<exists>file. fatDeletedFile (undelete_recovery FAT12) False 512 undelete_entry = Some file \<and>
     recoverFile sim_win32 (undelete_recovery FAT12) True (scanned_world undelete_disk) file ''out'' =
       Done (ok, Some (replicate 700 65))"
proof -
  obtain fl where f: "fatDeletedFile (undelete_recovery FAT12) False 512 undelete_entry = Some fl"
    "rf_firstCluster fl = 3" "rf_sizeBytes fl = 700" using undelete_file by blast
  have len: "length undelete_disk = 4096" by (simp add: undelete_disk_def undelete_boot_fields)
  have boot: "take 512 undelete_disk = undelete_boot" by (simp add: undelete_disk_def undelete_boot_fields)
  have p: "partition_on sim_view (undelete_recovery FAT12) (scanned_world undelete_disk) 0 0"
    by (rule undelete_partition) (simp_all add: len)
  have "clusterPosition (fatVolume undelete_boot) 3 = 2048" by (simp add: clusterPosition_def undelete_boot_fields)
  then have "recoverFile sim_win32 (undelete_recovery FAT12) True (scanned_world undelete_disk) fl ''out'' =
      Done (ok, Some (slice 2048 700 undelete_disk))"
    by (intro fat_undelete [OF sim_reads p, where boot = undelete_boot and wide = False and entry = undelete_entry
          and v = "fatVolume undelete_boot" and cs = 512])
      (simp_all add: len boot undelete_boot_fields f)
  moreover have "slice 2048 700 undelete_disk = replicate 700 65"
    by (simp add: undelete_disk_def undelete_boot_fields slice_def)
  ultimately show ?thesis using f(1) by auto
qed

text \<open>
  An ext2 volume with blocks of 1 KiB and an inode with the blocks 3, 4 and 2; the size is 2500 bytes.
\<close>

definition undelete_ext_disk :: bytes where
  "undelete_ext_disk = replicate 2048 0 @ replicate 1024 67 @ replicate 1024 65 @ replicate 1024 66"

definition undelete_inode :: bytes where
  "undelete_inode = fold (\<lambda>(i, v) b. writeLE32 b i v) [(0, 0x8000), (4, 2500), (40, 3), (44, 4), (48, 2)] (replicate 128 0)"

lemma undelete_inode_fields:
  "readLE32 undelete_inode 32 = 0" "directBlocks undelete_inode = [3, 4, 2]" "inodeFileSize 128 undelete_inode = 2500"
  "readLE16 undelete_inode 0 AND 0xF000 = 0x8000"
  by code_simp+

theorem ext_undelete_witness:
  "\<exists>file. inodeFile (undelete_recovery Ext2) 128 20 undelete_inode = Some file \<and>
     recoverFile sim_win32 (undelete_recovery Ext2) True (scanned_world undelete_ext_disk) file ''out'' =
       Done (ok, Some (replicate 1024 65 @ replicate 1024 66 @ replicate 452 67))"
proof -
  obtain fl where f: "inodeFile (undelete_recovery Ext2) 128 20 undelete_inode = Some fl"
    using undelete_inode_fields by (simp add: inodeFile_def Let_def)
  have len: "length undelete_ext_disk = 5120" by (simp add: undelete_ext_disk_def)
  have p: "partition_on sim_view (undelete_recovery Ext2) (scanned_world undelete_ext_disk) 0 0"
    by (rule undelete_partition) (simp_all add: len)
  have "slice 1024 256 undelete_ext_disk = replicate 256 0" by (simp add: undelete_ext_disk_def slice_def)
  moreover have "readLE32 (replicate 256 0) 0x18 = 0" by code_simp
  ultimately have sb: "readLE32 (slice 1024 256 undelete_ext_disk) 0x18 = 0" by simp
  have "recoverFile sim_win32 (undelete_recovery Ext2) True (scanned_world undelete_ext_disk) fl ''out'' =
      Done (ok, Some (take 2500 (concat (map (\<lambda>b. slice (unat b * 1024) 1024 undelete_ext_disk) [3, 4, 2 :: u32]))))"
    using ext_undelete [OF sim_reads p, where D = undelete_ext_disk and lg = 0 and bs = 1024, OF _ _ _ _ _ _ _ _ f]
    by (simp add: len sb undelete_inode_fields)
  moreover have "take 2500 (concat (map (\<lambda>b. slice (unat b * 1024) 1024 undelete_ext_disk) [3, 4, 2 :: u32])) =
      replicate 1024 65 @ replicate 1024 66 @ replicate 452 67"
    by (simp add: undelete_ext_disk_def slice_def)
  ultimately show ?thesis using f by auto
qed

end
