(* ===== verification/File_Carving.thy ===== *)
theory File_Carving
  imports File_Undelete
begin

text \<open>
  Carving. The scan finds every signature at the start of every sector of the partition, chunk
  boundaries included, and in order; what is copied for a signature without a footer is a stretch of the disk.
\<close>

section \<open>The scan finds every signature\<close>

text \<open>What a partition holds: the sectors with the signatures that match at their start.\<close>

definition hits_of :: "bytes \<Rightarrow> nat \<Rightarrow> nat \<Rightarrow> (nat \<times> CarvedFileSignature) list" where
  "hits_of D ss k = map (Pair k) (filter (\<lambda>s. sigMatches s (slice (k * ss) ss D) 0) getDefaultSignatures)"

definition carving_report :: "FileRecovery \<Rightarrow> (nat \<times> CarvedFileSignature) list \<Rightarrow> RecoverableFile list" where
  "carving_report m hits = map (\<lambda>(i, k, s). carvedFile m (fr_partStart m + of_nat k) s (of_nat i)) (enumerate 0 hits)"

definition carved_state :: "FileRecovery \<Rightarrow> (nat \<times> CarvedFileSignature) list \<Rightarrow> u32 \<times> RecoverableFile list" where
  "carved_state m hits = (of_nat (length hits), carving_report m hits)"

lemma carving_report_snoc:
  "carving_report m (hits @ [(k, s)]) = carving_report m hits @ [carvedFile m (fr_partStart m + of_nat k) s (of_nat (length hits))]"
  by (simp add: carving_report_def enumerate_append_eq)

lemma carveSector_hits:
  assumes "unat sectorIdx + off div unat (fr_sectorSize m) = k"
  shows "carveSector m sectorIdx chunk off (carved_state m hits) =
    carved_state m (hits @ map (Pair k) (filter (\<lambda>s. sigMatches s chunk off) getDefaultSignatures))"
proof -
  have lba: "fr_partStart m + sectorIdx + of_nat (off div unat (fr_sectorSize m)) = fr_partStart m + of_nat k"
    unfolding assms [symmetric] by (simp add: add.assoc)
  have "fold (\<lambda>s (n, results). if sigMatches s chunk off then
        (n + 1, results @ [carvedFile m (fr_partStart m + of_nat k) s n]) else (n, results)) sigs (carved_state m hits) =
    carved_state m (hits @ map (Pair k) (filter (\<lambda>s. sigMatches s chunk off) sigs))" for sigs
  proof (induction sigs arbitrary: hits)
    case (Cons s sigs)
    have "(of_nat (length hits) + 1, carving_report m hits @ [carvedFile m (fr_partStart m + of_nat k) s (of_nat (length hits))]) =
      carved_state m (hits @ [(k, s)])"
      by (simp add: carved_state_def carving_report_snoc add.commute)
    then show ?case
      using Cons.IH [of "hits @ [(k, s)]"] Cons.IH [of hits] by (simp add: carved_state_def ac_simps)
  qed simp
  then show ?thesis unfolding carveSector_def lba .
qed

text \<open>The headers end within the first 15 bytes of a sector.\<close>

lemma signature_lengths: "maxHeaderCheck getDefaultSignatures = 15"
  "s \<in> set getDefaultSignatures \<Longrightarrow> unat (cs_headerOffset s) + length (cs_header s) \<le> 15"
  by (auto simp: maxHeaderCheck_def getDefaultSignatures_def sig_of_def)

lemma sigMatches_sector:
  assumes "s \<in> set getDefaultSignatures" "15 \<le> ss" "(i + j + 1) * ss \<le> length D" "j < c"
  shows "sigMatches s (slice (i * ss) (c * ss) D) (j * ss) = sigMatches s (slice ((i + j) * ss) ss D) 0"
proof -
  let ?o = "unat (cs_headerOffset s)" and ?n = "length (cs_header s)"
  have le: "?o + ?n \<le> ss" using signature_lengths(2) [OF assms(1)] assms(2) by simp
  obtain c' where c: "c = j + 1 + c'" using assms(4) by (metis Suc_eq_plus1 less_iff_Suc_add add.commute add_Suc)
  have d: "i * ss + j * ss + ss \<le> length D" using assms(3) by (simp add: algebra_simps)
  have "j * ss + ?o + ?n \<le> length (slice (i * ss) (c * ss) D)"
    using le d by (auto simp: slice_def c algebra_simps min_def)
  moreover have "?o + ?n \<le> length (slice ((i + j) * ss) ss D)" using le d by (simp add: slice_def algebra_simps)
  moreover have "slice (j * ss + ?o) ?n (slice (i * ss) (c * ss) D) = slice (i * ss + j * ss + ?o) ?n D"
    using le by (subst slice_slice) (simp_all add: c algebra_simps)
  moreover have "slice ?o ?n (slice ((i + j) * ss) ss D) = slice (i * ss + j * ss + ?o) ?n D"
    using le by (subst slice_slice) (simp_all add: algebra_simps)
  ultimately show ?thesis by (simp add: sigMatches_def Let_def add.assoc)
qed

lemma carveOffsets_sectors:
  assumes "15 \<le> unat ss" "0 < c"
  shows "carveOffsets ss (c * unat ss) = map (\<lambda>j. j * unat ss) [0..<c]"
proof -
  obtain c' where c: "c = c' + 1" using assms(2) by (metis Suc_eq_plus1 gr0_conv_Suc)
  have "c * unat ss - 15 = (unat ss - 15) + c' * unat ss" using assms(1) by (simp add: c)
  moreover have "(unat ss - 15 + c' * unat ss) div unat ss = c' + (unat ss - 15) div unat ss"
    using assms(1) by (intro div_mult_self1) simp
  moreover have "(unat ss - 15) div unat ss = 0" using assms(1) by simp
  ultimately have "(c * unat ss - 15) div unat ss = c'" by simp
  moreover have "\<not> c * unat ss < 15" using assms(1) by (simp add: c)
  ultimately show ?thesis by (simp add: carveOffsets_def signature_lengths c)
qed

lemma carveChunk_hits:
  assumes "15 \<le> unat (fr_sectorSize m)" "0 < c" "(unat sectorIdx + c) * unat (fr_sectorSize m) \<le> length D"
  shows "carveChunk m sectorIdx (slice (unat sectorIdx * unat (fr_sectorSize m)) (c * unat (fr_sectorSize m)) D) (carved_state m hits) =
    carved_state m (hits @ concat (map (hits_of D (unat (fr_sectorSize m))) [unat sectorIdx..<unat sectorIdx + c]))"
proof -
  let ?ss = "unat (fr_sectorSize m)" and ?i = "unat sectorIdx"
  let ?chunk = "slice (?i * ?ss) (c * ?ss) D"
  have len: "length ?chunk = c * ?ss" using assms(3) by (simp add: slice_def algebra_simps)
  have sec: "carveSector m sectorIdx ?chunk (j * ?ss) (carved_state m hits) = carved_state m (hits @ hits_of D ?ss (?i + j))"
    if "j < c" for j hits
  proof -
    have "(?i + j + 1) * ?ss \<le> (?i + c) * ?ss" using that by (intro mult_le_mono1) simp
    then have "(?i + j + 1) * ?ss \<le> length D" using assms(3) by linarith
    then have "filter (\<lambda>s. sigMatches s ?chunk (j * ?ss)) getDefaultSignatures =
        filter (\<lambda>s. sigMatches s (slice ((?i + j) * ?ss) ?ss D) 0) getDefaultSignatures"
      by (intro filter_cong [OF refl] sigMatches_sector) (use assms(1) that in simp_all)
    then show ?thesis
      using carveSector_hits [of sectorIdx "j * ?ss" m "?i + j" ?chunk hits] assms(1) by (simp add: hits_of_def)
  qed
  have "j \<le> c \<Longrightarrow> fold (carveSector m sectorIdx ?chunk) (map (\<lambda>j. j * ?ss) [0..<j]) (carved_state m hits) =
      carved_state m (hits @ concat (map (hits_of D ?ss) [?i..<?i + j]))" for j
    by (induction j) (simp_all add: sec)
  then show ?thesis
    unfolding carveChunk_def len carveOffsets_sectors [OF assms(1,2)] by simp
qed

lemma carving_loop:
  assumes "quiet E w" "serves (readPartitionBytes (rc_win32 E) m w) D"
    and "ss = unat (fr_sectorSize m)" "15 \<le> ss" "ss \<le> 8192" "N = unat (fr_partSectors m)"
    and "N * ss \<le> length D" "length D + 1048576 \<le> 2 ^ 64" "i < 2 ^ 64"
  shows "io_while (\<lambda>st. cv_sectorIdx st < fr_partSectors m) (carveStep E m)
      \<lparr>cv_sectorIdx = of_nat i, cv_carved = carved_state m hits\<rparr> w =
    Done (Inr \<lparr>cv_sectorIdx = of_nat (i + 128 * ((N + 127 - i) div 128)),
      cv_carved = carved_state m (hits @ concat (map (hits_of D ss) [i..<N]))\<rparr>, w)"
  using assms(9)
proof (induction "N - i" arbitrary: i hits rule: less_induct)
  case less
  have i: "unat (of_nat i :: u64) = i" using less.prems by (simp add: unat_of_nat take_bit_nat_eq_self)
  show ?case
  proof (cases "i < N")
    case False
    then have "(N + 127 - i) div 128 = 0" by simp
    then show ?thesis using False i assms(6) by (simp add: word_less_nat_alt)
  next
    case True
    have "N * 15 \<le> N * ss" using assms(4) by simp
    then have N: "N * 15 + 1048576 \<le> 2 ^ 64" using assms(7,8) by linarith
    define c where "c = min 128 (N - i)"
    have c: "0 < c" "c \<le> 128" "i + c \<le> N" using True by (auto simp: c_def)
    have sub: "unat (fr_partSectors m - of_nat i) = N - i"
      using True i assms(6) by (simp add: unat_sub word_le_nat_alt)
    have cw: "unat (min 128 (fr_partSectors m - of_nat i)) = c"
      using sub by (auto simp: min_def word_le_nat_alt c_def)
    have s64: "unat (ucast (fr_sectorSize m) :: u64) = ss" using assms(3) by (simp add: unat_ucast_up)
    have in1: "(i + c) * ss \<le> length D" using mult_le_mono1 [OF c(3), of ss] assms(7) by linarith
    have "i * ss \<le> (i + c) * ss" by simp
    then have i64: "i * ss < 2 ^ 64" using in1 assms(8) by linarith
    have off: "unat (of_nat i * ucast (fr_sectorSize m) :: u64) = i * ss"
      using i s64 i64 by (subst unat_mult_lem [THEN iffD1]) simp_all
    have cs: "c * ss \<le> 1048576" using mult_le_mono [OF c(2) assms(5)] by simp
    have "unat (min 128 (fr_partSectors m - of_nat i) * ucast (fr_sectorSize m) :: u64) = c * ss"
      using cw s64 cs by (subst unat_mult_lem [THEN iffD1]) simp_all
    then have n: "unat (ucast (min 128 (fr_partSectors m - of_nat i) * ucast (fr_sectorSize m) :: u64) :: u32) = c * ss"
      using cs by (subst unat_ucast_64_32) simp_all
    have rd: "readPartitionBytes (rc_win32 E) m w (of_nat i * ucast (fr_sectorSize m))
        (ucast (min 128 (fr_partSectors m - of_nat i) * ucast (fr_sectorSize m))) = Done (Inr (slice (i * ss) (c * ss) D))"
      using servesD [OF assms(2), of "of_nat i * ucast (fr_sectorSize m)"
          "ucast (min 128 (fr_partSectors m - of_nat i) * ucast (fr_sectorSize m))"] off n cs in1
      by (simp add: add_mult_distrib)
    have chunk: "carveChunk m (of_nat i) (slice (i * ss) (c * ss) D) (carved_state m hits) =
        carved_state m (hits @ concat (map (hits_of D ss) [i..<i + c]))"
      using carveChunk_hits [of m c "of_nat i" D hits] c in1 assms(3,4) i by simp
    let ?hits = "hits @ concat (map (hits_of D ss) [i..<i + c])"
    have step: "carveStep E m \<lparr>cv_sectorIdx = of_nat i, cv_carved = carved_state m hits\<rparr> w =
        Done (Inr \<lparr>cv_sectorIdx = of_nat (i + 128), cv_carved = carved_state m ?hits\<rparr>, w)"
      using rd chunk assms(1) by (simp add: carveStep_def Let_def quiet_def add.commute)
    have test: "(of_nat i :: u64) < fr_partSectors m" using True i assms(6) by (simp add: word_less_nat_alt)
    have i': "i + 128 < 2 ^ 64" "N - (i + 128) < N - i" using True N by simp_all
    have pos: "i + 128 * ((N + 127 - i) div 128) = i + 128 + 128 * ((N + 127 - (i + 128)) div 128)"
    proof -
      obtain x where x: "N = i + 1 + x" using True by (metis Suc_eq_plus1 add_Suc less_iff_Suc_add)
      have "N + 127 - i = x + 128" "N + 127 - (i + 128) = x" by (simp_all add: x)
      moreover have "(x + 128) div 128 = x div 128 + 1" by (simp add: div_add_self2)
      ultimately show ?thesis by simp
    qed
    have hits: "?hits @ concat (map (hits_of D ss) [i + 128..<N]) = hits @ concat (map (hits_of D ss) [i..<N])"
    proof (cases "i + 128 \<le> N")
      case True
      then have "c = 128" by (simp add: c_def)
      moreover have "[i..<N] = [i..<i + 128] @ [i + 128..<N]" using True by (metis le_add1 le_iff_add upt_add_eq_append)
      ultimately show ?thesis by simp
    next
      case False
      then have "i + c = N" using \<open>i < N\<close> by (simp add: c_def)
      then show ?thesis using False by simp
    qed
    show ?thesis
      using less.hyps [OF i'(2,1), of ?hits] unfolding hits pos
      by (subst io_while_unfold) (simp add: test step del: of_nat_add)
  qed
qed

text \<open>
  C38. The carving scan misses nothing: without a cancel request, on a partition whose sectors can all be read,
  it reports exactly the signatures that begin a sector, sector by sector and within a sector in the order
  of the table of signatures, numbered from 0. The chunks of 128 sectors do not show. A sector holds 15 bytes
  or more, the length of the longest header, and at most 8 KiB, so that a chunk is one read.
\<close>

theorem scanCarving_reports:
  assumes "content_laws (rc_win32 E) V" "disk_readable (rc_win32 E) V d" "partition_on V m w d start" "quiet E w"
    and "D = drop start (contents V w d)" "length D + 1048576 \<le> 2 ^ 64"
    and "ss = unat (fr_sectorSize m)" "15 \<le> ss" "ss \<le> 8192" "N = unat (fr_partSectors m)" "N * ss \<le> length D"
  shows "scanCarving E m w = Done (Inr (carving_report m (concat (map (hits_of D ss) [0..<N]))), w)"
proof -
  have srv: "serves (readPartitionBytes (rc_win32 E) m w) D"
    unfolding assms(5) by (rule readPartitionBytes_serves) (fact assms)+
  have "carved_state m [] = (0, [])" by (simp add: carved_state_def carving_report_def)
  with carving_loop [OF assms(4) srv assms(7-11,6), of 0 "[]"] show ?thesis
    by (simp add: scanCarving_def io_try_def io_return_def carved_state_def)
qed

section \<open>What is copied for a signature\<close>

text \<open>
  The piece that pass \<open>q\<close> of the copy reads, whole sectors of a file of at most \<open>M\<close> bytes from
  position \<open>base\<close> of the disk, and the length of the copy: it ends behind the first footer that lies
  inside one piece.
\<close>

definition carved_piece :: "bytes \<Rightarrow> nat \<Rightarrow> nat \<Rightarrow> nat \<Rightarrow> nat \<Rightarrow> bytes" where
  "carved_piece C base ss M q = slice (base + q * 262144) ((min 262144 (M - q * 262144) + ss - 1) div ss * ss) C"

definition carved_length :: "bytes \<Rightarrow> bytes \<Rightarrow> nat \<Rightarrow> nat \<Rightarrow> nat \<Rightarrow> nat" where
  "carved_length footer C base ss M =
     (case find (\<lambda>q. footer \<noteq> [] \<and> findFooter footer (carved_piece C base ss M q) \<noteq> None) [0..<(M + 262143) div 262144] of
        None \<Rightarrow> M
      | Some q \<Rightarrow> q * 262144 + the (findFooter footer (carved_piece C base ss M q)) + length footer)"

text \<open>The partition, its disk \<open>C\<close> and a file at \<open>lba\<close> that ends on the disk; a piece consists of whole sectors.\<close>

definition carvable :: "'w win_view \<Rightarrow> FileRecovery \<Rightarrow> 'w \<Rightarrow> int \<Rightarrow> bytes \<Rightarrow> u64 \<Rightarrow> u64 \<Rightarrow> bool" where
  "carvable V m w d C lba M \<longleftrightarrow> (\<exists>start. partition_on V m w d start) \<and> C = contents V w d \<and>
     length C + 1048576 \<le> 2 ^ 64 \<and> unat (fr_sectorSize m) dvd 262144 \<and>
     unat lba * unat (fr_sectorSize m) + unat M \<le> length C"

lemma carved_pass:
  assumes laws: "content_laws W V" "disk_readable W V d" and cv: "carvable V m w d C lba M"
    and ss: "ss = unat (fr_sectorSize m)" and base: "base = unat lba * ss"
    and hyp: "q * 262144 < unat M" "t = min 262144 (unat M - q * 262144)" "data = carved_piece C base ss (unat M) q"
  shows "carvedStep W m w lba footer M (of_nat (q * 262144), out) = Done
      (case (if footer = [] then None else findFooter footer data) of
         Some i \<Rightarrow> Inl (out @ take (i + length footer) data)
       | None \<Rightarrow> Inr (of_nat (q * 262144 + t), out @ take t data))"
    and "base + q * 262144 + length data \<le> length C" "t \<le> length data"
proof -
  obtain h rw where h: "rh_handle (fr_disk m) = Some h" "handles V w h = Some (OnDisk d rw)"
    and p: "0 < ss" "ss dvd length C"
    using cv ss unfolding carvable_def partition_on_def by blast
  have C: "C = contents V w d" "length C + 1048576 \<le> 2 ^ 64" and dvd: "ss dvd 262144"
    and base': "base + unat M \<le> length C"
    using cv unfolding carvable_def ss base by blast+
  let ?ss = "fr_sectorSize m" and ?o = "q * 262144"
  have ss_le: "ss \<le> 262144" using dvd by (rule dvd_imp_le) simp
  have nz: "?ss \<noteq> 0" and u: "unat (ucast ?ss :: u64) = ss" using p(1) ss by (auto simp: unat_ucast_up)
  have o64: "?o < 2 ^ 64" using hyp(1) unsigned_less [of M, where 'a = nat] by simp
  define x where "x = (of_nat ?o :: u64)"
  have o: "unat x = ?o" unfolding x_def using o64 by (simp add: unat_of_nat take_bit_nat_eq_self del: of_nat_mult)
  have less: "x < M" using hyp(1) o by (simp add: word_less_nat_alt)
  have sub: "unat (M - x) = unat M - ?o" using less o by (simp add: unat_sub word_less_nat_alt word_le_nat_alt)
  have "unat (min (256 * 1024) (M - x)) = t"
    using sub by (auto simp: hyp(2) min_def word_le_nat_alt)
  then have tr: "unat (ucast (min (256 * 1024) (M - x)) :: u32) = t"
    by (subst unat_ucast_64_32) (simp_all add: hyp(2))
  let ?t = "ucast (min (256 * 1024) (M - x)) :: u32"
  have n0: "unat ((?t + ?ss - 1) div ?ss) = (t + ss - 1) div ss"
    using unat_ceil_div [OF nz, of ?t] tr ss_le ss hyp(2) by simp
  have "t + ss - 1 < 2 ^ 32" using hyp(2) ss_le by simp
  from le_less_trans [OF div_times_less_eq_dividend this]
  have m32: "(t + ss - 1) div ss * ss < 2 ^ 32" .
  have cnt: "unat (ucast ((?t + ?ss - 1) div ?ss) * ucast ?ss :: u64) = (t + ss - 1) div ss * ss"
    using n0 u m32 by (subst unat_mult_lem [THEN iffD1]) (simp_all add: unat_ucast_up)
  have dv: "ss dvd ?o" using dvd by (rule dvd_mult)
  have add: "unat lba * ss + ?o \<le> length C" using base base' hyp(1) by linarith
  have sp: "?o div ss * ss = ?o" using dv by simp
  have lb: "unat lba + ?o div ss \<le> length C"
  proof -
    have "unat lba \<le> unat lba * ss" "?o div ss \<le> ?o" using p(1) by simp_all
    then show ?thesis using add by linarith
  qed
  have "unat (x div ucast ?ss :: u64) = ?o div ss" using o u by (simp add: unat_div)
  then have sum: "unat (lba + x div ucast ?ss) = unat lba + ?o div ss"
    using lb C(2) by (subst unat_add_lem [THEN iffD1]) (simp_all)
  have pos: "unat ((lba + x div ucast ?ss) * ucast ?ss) = base + ?o"
    using sum u add C(2) sp base
    by (subst unat_mult_lem [THEN iffD1]) (simp_all add: add_mult_distrib)
  have in1: "base + ?o + t \<le> length C" using base' hyp(1,2) by linarith
  have "ss dvd base + ?o" using base dv by simp
  then have "ss dvd length C - (base + ?o)" using p(2) by (intro dvd_diff_nat)
  from ceil_le_dvd [OF p(1) this, of t] in1 have room: "base + ?o + (t + ss - 1) div ss * ss \<le> length C" by linarith
  have data: "data = slice (base + ?o) ((t + ss - 1) div ss * ss) C"
    by (simp add: hyp(2,3) carved_piece_def)
  have rd: "readSectors W (fr_disk m) (lba + x div ucast ?ss) (ucast ((?t + ?ss - 1) div ?ss)) ?ss w = Inr data"
    using readSectors_works [OF laws(1,2) h, of "lba + x div ucast ?ss" ?ss "ucast ((?t + ?ss - 1) div ?ss)"]
      pos cnt room m32 C(1) data by (simp)
  have len: "length data = (t + ss - 1) div ss * ss" using room by (simp add: data)
  have ge: "t \<le> (t + ss - 1) div ss * ss" by (rule ceil_ge [OF p(1)])
  show "base + ?o + length data \<le> length C" "t \<le> length data" using room ge len by simp_all
  have t: "min (length data) (unat M - ?o) = t"
  proof (cases "unat M - ?o \<le> 262144")
    case True
    then have "t = unat M - ?o" by (simp add: hyp(2))
    then show ?thesis using ge len by simp
  next
    case False
    then have t: "t = 262144" by (simp add: hyp(2))
    moreover obtain k where k: "262144 = ss * k" using dvd ..
    ultimately have "t + ss - 1 = ss - 1 + ss * k" using p(1) by simp
    then have "(t + ss - 1) div ss = (ss - 1 + ss * k) div ss" by simp
    also have "\<dots> = k" using p(1) by (subst div_mult_self2) simp_all
    finally have "length data = t" using len t k by (simp add: mult.commute)
    then show ?thesis using False t by simp
  qed
  have "length data < 2 ^ 32" unfolding len by (rule m32)
  then have l64: "unat (of_nat (length data) :: u64) = length data"
    by (simp add: unat_of_nat take_bit_nat_eq_self)
  have w: "unat (min (of_nat (length data)) (M - x)) = t"
    using l64 sub t by (auto simp: min_def word_le_nat_alt split: if_splits)
  have min: "min (of_nat (length data)) (M - x) = of_nat t" by (simp only: w [symmetric] of_nat_unat ucast_id)
  have sumx: "of_nat (q * 262144 + t) = x + of_nat t" by (simp add: x_def)
  from w min show "carvedStep W m w lba footer M (of_nat (q * 262144), out) = Done
      (case (if footer = [] then None else findFooter footer data) of
         Some i \<Rightarrow> Inl (out @ take (i + length footer) data)
       | None \<Rightarrow> Inr (of_nat (q * 262144 + t), out @ take t data))"
    unfolding sumx unfolding x_def [symmetric] using less nz rd w
    by (simp add: carvedStep_def Let_def split: option.split)
qed

text \<open>Passes without a footer append the pieces.\<close>

lemma carved_passes:
  assumes "content_laws W V" "disk_readable W V d" "carvable V m w d C lba M"
    and "ss = unat (fr_sectorSize m)" "base = unat lba * ss" "q \<le> (unat M + 262143) div 262144"
    and "\<forall>j<q. footer = [] \<or> findFooter footer (carved_piece C base ss (unat M) j) = None"
  shows "run_iter (carvedStep W m w lba footer M) (0, []) =
    run_iter (carvedStep W m w lba footer M) (of_nat (min (q * 262144) (unat M)), slice base (min (q * 262144) (unat M)) C)"
  using assms(6,7)
proof (induction q)
  case 0
  then show ?case by (simp add: slice_def)
next
  case (Suc q)
  have less: "q * 262144 < unat M" using Suc.prems(1) by linarith
  define t where "t = min 262144 (unat M - q * 262144)"
  let ?p = "carved_piece C base ss (unat M) q"
  note * = carved_pass [OF assms(1-5) less t_def refl]
  have tp: "take t ?p = slice (base + q * 262144) t C"
    unfolding carved_piece_def by (rule take_slice_in) (use *(3) in \<open>simp add: carved_piece_def\<close>)
  have f: "(if footer = [] then None else findFooter footer ?p) = None" using Suc.prems(2) by auto
  have m: "min (q * 262144) (unat M) = q * 262144" "min (Suc q * 262144) (unat M) = q * 262144 + t"
    using less by (auto simp: t_def)
  have "run_iter (carvedStep W m w lba footer M) (of_nat (q * 262144), slice base (q * 262144) C) =
      run_iter (carvedStep W m w lba footer M) (of_nat (q * 262144 + t), slice base (q * 262144) C @ slice (base + q * 262144) t C)"
    using *(1) [of footer "slice base (q * 262144) C"] unfolding f tp by (simp add: run_iter_next del: of_nat_mult of_nat_add)
  then show ?case using Suc unfolding m slice_append by (simp del: of_nat_mult of_nat_add)
qed

text \<open>
  C39. A carved file is a stretch of the disk that starts at the sector of its signature: if its signature
  has no footer, the stretch is as long as the limit that the size of the file and the signature set; otherwise it
  ends behind the first footer that lies inside one of the pieces of 256 KiB in which the disk is read. A
  footer that lies across two pieces is overlooked. The disk has no faults, the file ends on
  the disk, and the sector size divides 256 KiB.
\<close>

theorem recoverCarvedFile_stretch:
  assumes "content_laws W V" "disk_readable W V d" "rf_sourceFs file = Raw" "carvedLimits file = (footer, M)"
    and "carvable V m w d C (rf_carvedLba file) M"
    and "ss = unat (fr_sectorSize m)" "base = unat (rf_carvedLba file) * ss"
  shows "recoverFile W m True w file path = Done (ok, Some (slice base (carved_length footer C base ss (unat M)) C))"
proof -
  let ?lba = "rf_carvedLba file" and ?n = "(unat M + 262143) div 262144" and ?p = "carved_piece C base ss (unat M)"
  let ?find = "find (\<lambda>q. footer \<noteq> [] \<and> findFooter footer (?p q) \<noteq> None) [0..<?n]"
  have "run_iter (carvedStep W m w ?lba footer M) (0, []) = Done (slice base (carved_length footer C base ss (unat M)) C)"
  proof (cases ?find)
    case None
    then have "\<forall>j<?n. footer = [] \<or> findFooter footer (?p j) = None" by (auto simp: find_None_iff)
    from carved_passes [OF assms(1,2,5-7) order_refl this] have
      "run_iter (carvedStep W m w ?lba footer M) (0, []) =
       run_iter (carvedStep W m w ?lba footer M) (of_nat (min (?n * 262144) (unat M)), slice base (min (?n * 262144) (unat M)) C)" .
    moreover have "min (?n * 262144) (unat M) = unat M"
      using div_mult_mod_eq [of "unat M + 262143" 262144] mod_less_divisor [of 262144 "unat M + 262143"] by linarith
    moreover have "carvedStep W m w ?lba footer M (M, slice base (unat M) C) = Done (Inl (slice base (unat M) C))"
      by (simp add: carvedStep_def)
    ultimately show ?thesis using None by (simp add: run_iter_stop carved_length_def)
  next
    case (Some q)
    then have q: "q < ?n" "footer \<noteq> []" "findFooter footer (?p q) \<noteq> None"
      and no: "\<forall>j<q. footer = [] \<or> findFooter footer (?p j) = None"
      by (auto simp: find_Some_iff)
    then obtain i where i: "findFooter footer (?p q) = Some i" by blast
    then have le: "i + length footer \<le> length (?p q)" by (auto simp: findFooter_def find_Some_iff)
    have less: "q * 262144 < unat M" using q(1) by linarith
    then have m: "min (q * 262144) (unat M) = q * 262144" by simp
    note * = carved_pass [OF assms(1,2,5-7) less refl refl]
    have "take (i + length footer) (?p q) = slice (base + q * 262144) (i + length footer) C"
      unfolding carved_piece_def by (rule take_slice_in) (use le in \<open>simp add: carved_piece_def\<close>)
    moreover have "carvedStep W m w ?lba footer M (of_nat (q * 262144), slice base (q * 262144) C) =
        Done (Inl (slice base (q * 262144) C @ take (i + length footer) (?p q)))"
      using *(1) [of footer "slice base (q * 262144) C"] q(2) i by (simp del: of_nat_mult)
    ultimately show ?thesis
      using carved_passes [OF assms(1,2,5-7) less_imp_le [OF q(1)] no] Some i unfolding m
      by (simp add: run_iter_stop slice_append carved_length_def add.assoc del: of_nat_mult)
  qed
  then show ?thesis
    using assms(3,4) by (simp add: recoverFile_def recoverCarvedFile_def)
qed

section \<open>Witnesses\<close>

text \<open>A disk of three sectors: a GIF image with its footer in the second one, a bitmap in the third.\<close>

definition carving_disk :: bytes where
  "carving_disk = replicate 512 0 @ ([0x47, 0x49, 0x46, 0x38, 0x39, 0x61] @ replicate 300 7 @ [0, 0x3B] @ replicate 204 0) @
     ([0x42, 0x4D] @ replicate 510 1)"

definition carving_recovery :: FileRecovery where
  "carving_recovery = \<lparr>fr_disk = sim_handle, fr_partStart = 0, fr_partSectors = 3, fr_fsType = Raw, fr_sectorSize = 512\<rparr>"

definition sim_carving :: "sim_world recovery_env" where
  "sim_carving = sim_recovery\<lparr>rc_win32 := sim_win32\<rparr>"

lemma length_carving_disk: "length carving_disk = 1536"
  by (simp add: carving_disk_def)

lemma carving_partition: "partition_on sim_view carving_recovery (scanned_world carving_disk) 0 0"
  by (auto simp: partition_on_def carving_recovery_def sim_handle_def length_carving_disk intro: exI [of _ False])

definition gif_signature :: CarvedFileSignature where
  "gif_signature = getDefaultSignatures ! 5"

definition bmp_signature :: CarvedFileSignature where
  "bmp_signature = getDefaultSignatures ! 6"

lemma carving_sectors: "slice 0 512 carving_disk = replicate 512 0"
  "slice 512 512 carving_disk = [0x47, 0x49, 0x46, 0x38, 0x39, 0x61] @ replicate 300 7 @ [0, 0x3B] @ replicate 204 0"
  "slice 1024 512 carving_disk = [0x42, 0x4D] @ replicate 510 1"
  by (simp_all add: carving_disk_def slice_def)

text \<open>Only the first 15 bytes of a sector matter.\<close>

lemma sigMatches_append:
  assumes "s \<in> set getDefaultSignatures" "15 \<le> length xs"
  shows "sigMatches s (xs @ ys) 0 = sigMatches s xs 0"
  using signature_lengths(2) [OF assms(1)] assms(2) by (simp add: sigMatches_def slice_def)

lemma carving_prefixes:
  "filter (\<lambda>s. sigMatches s (replicate 15 0) 0) getDefaultSignatures = []"
  "filter (\<lambda>s. sigMatches s ([0x47, 0x49, 0x46, 0x38, 0x39, 0x61] @ replicate 9 7) 0) getDefaultSignatures = [gif_signature]"
  "filter (\<lambda>s. sigMatches s ([0x42, 0x4D] @ replicate 13 1) 0) getDefaultSignatures = [bmp_signature]"
  by code_simp+

lemma carving_hits: "hits_of carving_disk 512 0 = []" "hits_of carving_disk 512 (Suc 0) = [(1, gif_signature)]"
  "hits_of carving_disk 512 2 = [(2, bmp_signature)]"
proof -
  have hit: "hits_of carving_disk 512 k = map (Pair k) (filter (\<lambda>s. sigMatches s xs 0) getDefaultSignatures)"
    if "slice (k * 512) 512 carving_disk = xs @ ys" "15 \<le> length xs" for k xs ys
    unfolding hits_of_def that(1) by (rule arg_cong [where f = "map (Pair k)"], rule filter_cong)
      (simp_all add: sigMatches_append that(2))
  have "slice (0 * 512) 512 carving_disk = replicate 15 0 @ replicate 497 0"
    by (simp add: carving_sectors replicate_add [symmetric])
  from hit [OF this] show "hits_of carving_disk 512 0 = []" by (simp add: carving_prefixes)
  have "replicate 300 (7 :: u8) = replicate 9 7 @ replicate 291 7" by (simp add: replicate_add [symmetric])
  then have "slice (Suc 0 * 512) 512 carving_disk = ([0x47, 0x49, 0x46, 0x38, 0x39, 0x61] @ replicate 9 7) @
      replicate 291 7 @ [0, 0x3B] @ replicate 204 0"
    by (simp add: carving_sectors)
  from hit [OF this] show "hits_of carving_disk 512 (Suc 0) = [(1, gif_signature)]"
    unfolding carving_prefixes by simp
  have "replicate 510 (1 :: u8) = replicate 13 1 @ replicate 497 1" by (simp add: replicate_add [symmetric])
  then have "slice (2 * 512) 512 carving_disk = ([0x42, 0x4D] @ replicate 13 1) @ replicate 497 1"
    by (simp add: carving_sectors)
  from hit [OF this] show "hits_of carving_disk 512 2 = [(2, bmp_signature)]"
    unfolding carving_prefixes by simp
qed

text \<open>A footer of two bytes, the second of which does not occur before.\<close>

lemma findFooter_pair: "b \<notin> set xs \<Longrightarrow> a \<noteq> b \<Longrightarrow> findFooter [a, b] (xs @ [a, b] @ ys) = Some (length xs)"
proof -
  assume *: "b \<notin> set xs" "a \<noteq> b"
  have no: "slice j 2 (xs @ [a, b] @ ys) \<noteq> [a, b]" if "j < length xs" for j
  proof
    assume "slice j 2 (xs @ [a, b] @ ys) = [a, b]"
    then have "slice j 2 (xs @ [a, b] @ ys) ! 1 = b" by simp
    then have "(xs @ [a, b] @ ys) ! (j + 1) = b" using that by (simp add: nth_slice)
    then show False using * that by (cases "j + 1 < length xs") (auto simp: nth_append dest: nth_mem split: if_splits)
  qed
  have "slice (length xs) 2 (xs @ [a, b] @ ys) = [a, b]" by (simp add: slice_def)
  with no show ?thesis
    unfolding findFooter_def find_Some_iff
    by (intro exI [of _ "length xs"]) (auto simp: numeral_2_eq_2 simp del: upt_Suc)
qed

theorem scanCarving_reports_witness:
  "scanCarving sim_carving carving_recovery (scanned_world carving_disk) =
     Done (Inr [carvedFile carving_recovery 1 gif_signature 0, carvedFile carving_recovery 2 bmp_signature 1],
       scanned_world carving_disk)"
proof -
  have "[0..<3] = [0, 1, 2 :: nat]" by (simp add: upt_rec)
  moreover have "scanCarving sim_carving carving_recovery (scanned_world carving_disk) =
      Done (Inr (carving_report carving_recovery (concat (map (hits_of carving_disk 512) [0..<3]))), scanned_world carving_disk)"
    by (rule scanCarving_reports [where V = sim_view and d = 0 and start = 0])
      (simp_all add: sim_carving_def sim_reads carving_partition quiet_def sim_recovery_def length_carving_disk,
        simp_all add: carving_recovery_def)
  ultimately show ?thesis
    by (simp add: carving_hits carving_report_def carving_recovery_def)
qed

definition gif_file :: RecoverableFile where
  "gif_file = (carvedFile carving_recovery 1 gif_signature 0)\<lparr>rf_sizeBytes := 1000\<rparr>"

theorem recoverCarvedFile_stretch_witness:
  "recoverFile sim_win32 carving_recovery True (scanned_world carving_disk) gif_file ''out'' =
     Done (ok, Some ([0x47, 0x49, 0x46, 0x38, 0x39, 0x61] @ replicate 300 7 @ [0, 0x3B]))"
proof -
  have f: "rf_sourceFs gif_file = Raw" "rf_carvedLba gif_file = 1" "carvedLimits gif_file = ([0, 0x3B], 1000)"
    by (simp_all add: gif_file_def carvedFile_def carvedLimits_def gif_signature_def getDefaultSignatures_def sig_of_def
        ascii_def)
  have p: "carved_piece carving_disk 512 512 1000 0 = slice 512 1024 carving_disk" by (simp add: carved_piece_def)
  have "findFooter [0, 0x3B] (slice 512 1024 carving_disk) = Some 306"
  proof -
    have "slice 512 1024 carving_disk = ([0x47, 0x49, 0x46, 0x38, 0x39, 0x61] @ replicate 300 7) @ [0, 0x3B] @
        replicate 204 0 @ [0x42, 0x4D] @ replicate 510 1"
      by (simp add: carving_disk_def slice_def)
    then show ?thesis by (simp only: findFooter_pair) (subst findFooter_pair; simp)
  qed
  then have "carved_length [0, 0x3B] carving_disk 512 512 1000 = 308" by (simp add: carved_length_def p)
  moreover have "carvable sim_view carving_recovery (scanned_world carving_disk) 0 carving_disk 1 1000"
    using carving_partition by (auto simp: carvable_def length_carving_disk carving_recovery_def)
  ultimately have "recoverFile sim_win32 carving_recovery True (scanned_world carving_disk) gif_file ''out'' =
      Done (ok, Some (slice 512 308 carving_disk))"
    using recoverCarvedFile_stretch [OF sim_reads f(1,3), of carving_recovery "scanned_world carving_disk" carving_disk 512 512]
    by (simp add: f carving_recovery_def)
  moreover have "slice 512 308 carving_disk = [0x47, 0x49, 0x46, 0x38, 0x39, 0x61] @ replicate 300 7 @ [0, 0x3B]"
    by (simp add: carving_disk_def slice_def)
  ultimately show ?thesis by simp
qed

end
