(* ===== verification/File_Ntfs.thy ===== *)
theory File_Ntfs
  imports File_Carving
begin

text \<open>
  The scan of the master file table and damaged records: the walk over the attributes of a record need not
  end, and then the scan for deleted files does not end either.
\<close>

section \<open>Attributes that lead into a cycle\<close>

text \<open>
  An attribute at \<open>p\<close> that the walk skips and whose length, a 32-bit number that is added modulo \<open>2 ^ 32\<close>,
  leads to \<open>q\<close>, before or behind it.
\<close>

definition mft_link :: "bytes \<Rightarrow> u32 \<Rightarrow> u32 \<Rightarrow> bool" where
  "mft_link r p q \<longleftrightarrow> unat p + 16 \<le> length r \<and> unat q \<le> length r \<and> q \<noteq> p \<and> readLE32 r (unat p + 4) = q - p \<and>
     readLE32 r (unat p) \<notin> {0xFFFFFFFF, 0x30, 0x80}"

lemma mftAttribute_link:
  "mft_link r (nw_attrOffset st) q \<Longrightarrow> mftAttribute r ro cs st = Done (Inr (st\<lparr>nw_attrOffset := q\<rparr>))"
  by (simp add: mft_link_def mftAttribute_def Let_def)

lemma mftFile_cycle:
  assumes "deletedRecord r" "(mft_link r)\<^sup>*\<^sup>* (ucast (readLE16 r 20)) a" "(mft_link r)\<^sup>+\<^sup>+ a a"
  shows "mftFile m idx ro cs r = Diverges"
proof -
  let ?lasso = "\<lambda>p. \<exists>c. (mft_link r)\<^sup>*\<^sup>* p c \<and> (mft_link r)\<^sup>+\<^sup>+ c c"
  have ends: "run_iter (mftAttribute r ro cs) st = Diverges" if "?lasso (nw_attrOffset st)" for st
  proof (rule run_iter_diverges [where I = "\<lambda>st. ?lasso (nw_attrOffset st)"])
    show "\<exists>s'. mftAttribute r ro cs s = Done (Inr s') \<and> ?lasso (nw_attrOffset s')" if "?lasso (nw_attrOffset s)" for s
    proof -
      from that obtain q where "mft_link r (nw_attrOffset s) q" "?lasso q"
        by (metis converse_rtranclpE tranclpD)
      then show ?thesis using mftAttribute_link [of r s q ro cs] by auto
    qed
  qed (use that in simp)
  have "run_iter (mftAttribute r ro cs) st = Diverges" if "nw_attrOffset st = ucast (readLE16 r 20)" for st
    by (rule ends) (use assms(2,3) that in auto)
  then show ?thesis using assms(1) by (simp add: mftFile_def)
qed

text \<open>The fields of the boot sector that place the records.\<close>

definition mftRecordPosition :: "bytes \<Rightarrow> u32 \<Rightarrow> u64 \<Rightarrow> u64" where
  "mftRecordPosition boot n k =
     readLE64 boot 0x30 * ucast (ucast (readLE16 boot 0x0B) * ucast (boot ! 0x0D) :: u32) + k * ucast n"


section \<open>Witness\<close>

text \<open>A volume with a boot sector and one record of 512 bytes in cluster 1.\<close>

definition looping_file_record :: bytes where
  "looping_file_record = fold (\<lambda>(i, v) r. writeLE32 r i v)
     [(0, 0x454C4946), (20, 0x38), (0x38, 0x10), (0x3C, 0x28), (0x60, 0x10), (0x64, 0xFFFFFFD8)] (replicate 512 0)"

definition looping_boot_sector :: bytes where
  "looping_boot_sector = blit 3 (ascii ''NTFS    '')
     ((writeLE64 (writeLE16 (replicate 512 0) 0x0B 512) 0x30 1)[0x0D := 1, 0x40 := 1])"

lemma looping_fields:
  "length looping_file_record = 512" "deletedRecord looping_file_record" "readLE16 looping_file_record 20 = 0x38"
  "readLE32 looping_file_record 0x38 = 0x10" "readLE32 looping_file_record 0x3C = 0x28"
  "readLE32 looping_file_record 0x60 = 0x10" "readLE32 looping_file_record 0x64 = 0xFFFFFFD8"
  "length looping_boot_sector = 512" "memEqual looping_boot_sector 3 ''NTFS    ''" "readLE16 looping_boot_sector 0x0B = 512"
  "looping_boot_sector ! 0x0D = 1" "readLE64 looping_boot_sector 0x30 = 1" "looping_boot_sector ! 0x40 = 1"
  by code_simp+


end
