(* ===== verification/Spec2Isabelle.thy ===== *)
theory Spec2Isabelle
  imports Partition_Table Operation_Queue Gpt_Operations Format_Engine Format_Confined Erase_Correct Recovery_Correct Checksum_Correct Fs_Info_Correct Fs_Info_Ntfs File_Ntfs
begin

text \<open>
  Verification library for the core of the Setec Partition Wizard (\<open>src/src/core\<close>), a C++ program that
  edits the partition tables of Windows disks.

  \<^bold>\<open>The program.\<close> A user interface queues operations (\<open>operations/OperationQueue\<close>). The queue runs them
  one after another and offers to undo the last one. An operation (\<open>operations/PartitionOperations\<close>)
  locks and dismounts the volume it changes (\<open>disk/VolumeHandle\<close>), reads the partition table of the
  disk through a raw handle (\<open>disk/RawDiskHandle\<close>), edits it in memory (\<open>disk/PartitionTable\<close>), writes
  it back and tells the kernel. \<open>disk/DiskGeometry\<close> holds the address arithmetic, \<open>common/\<close> the error
  values, results and GUIDs.

  \<^bold>\<open>Theories.\<close>
  \<^item> \<open>Setec_Prelude\<close>: machine types, the outcome \<open>run\<close> of a C++ call (\<open>Done\<close>, undefined behaviour,
    divergence), byte buffers, and the locale \<open>field_codec\<close> of a fixed-width field in a buffer.
  \<^item> \<open>Common_Types\<close>: \<open>common/Error.h\<close>, \<open>Result.h\<close>, \<open>Types\<close>, \<open>Constants.h\<close>.
  \<^item> \<open>Byte_Codec\<close>, \<open>Crc32\<close>: the encoders and the checksum at the top of \<open>disk/PartitionTable.cpp\<close>; the
    little-endian fields interpret \<open>field_codec\<close>.
  \<^item> \<open>Disk_Geometry\<close>: \<open>disk/DiskGeometry.cpp\<close>.
  \<^item> \<open>Partition_Types\<close>: the data of \<open>disk/PartitionTable.h\<close> and the locale \<open>partition_table\<close>, the contract
    of an editable table (layout kept, refused edits change nothing).
  \<^item> \<open>Mbr_Table\<close>, \<open>Gpt_Table\<close>, \<open>Apm_Table\<close>, \<open>Partition_Table\<close>: the three table classes and the abstract
    class with its factory functions; each interprets \<open>partition_table\<close>.
  \<^item> \<open>Operation_Queue\<close>: \<open>operations/Operation.h\<close> and \<open>OperationQueue.cpp\<close>, over any class of operations.
  \<^item> \<open>Raw_Disk\<close>, \<open>Volume_Handle\<close>: \<open>disk/RawDiskHandle.cpp\<close>, \<open>disk/VolumeHandle.cpp\<close>, over the Win32 API.
  \<^item> \<open>Operation_Utils\<close>: the namespace \<open>OperationUtils\<close> of \<open>PartitionOperations.cpp\<close>.
  \<^item> \<open>Fs_Detector\<close>: \<open>disk/FilesystemDetector.cpp\<close>, the probes over a read callback and their order.
  \<^item> \<open>Actions\<close>, \<open>Environment\<close>: a step of an operation with its progress reports, and what the operations
    take from outside (child processes, random bytes, the clock).
  \<^item> \<open>Format_Structures\<close>, \<open>Format_Swap\<close>, \<open>Format_Fat32\<close>, \<open>Format_Ext\<close>: \<open>filesystem/FormatEngine.h\<close> and
    the structures that the three writers of \<open>FormatEngine.cpp\<close> put on a partition; \<open>Ext_Layout\<close>: where
    they lie.
  \<^item> \<open>Format_Device\<close>, \<open>Format_Engine\<close>: the rest of \<open>FormatEngine.cpp\<close>: the device that is written, zeroing,
    the four formatters and their dispatch.
  \<^item> \<open>Io_Loop\<close>, \<open>Confinement\<close>: loops over device calls (\<open>io_while\<close>, with rules for invariants, for
    termination and for divergence) and the predicate that a call changes nothing outside a byte range
    of one disk, with a rule for each operation; \<open>Format_Confined\<close> applies it to the format engine.
  \<^item> \<open>Secure_Erase\<close>, \<open>Erase_Correct\<close>: \<open>maintenance/SecureErase.cpp\<close> and its correctness.
  \<^item> \<open>Partition_Recovery\<close>, \<open>Recovery_Correct\<close>: \<open>recovery/PartitionRecovery.cpp\<close> and its correctness.
  \<^item> \<open>Checksums\<close>, \<open>Checksum_Correct\<close>: \<open>imaging/Checksums.cpp\<close>; the locale \<open>chunk_consumer\<close> is the contract
    between its read loops and the checksums they feed.
  \<^item> \<open>Run_Loop\<close>: loops over local variables that need not end (\<open>run_iter\<close>).
  \<^item> \<open>Fs_Info\<close>: \<open>disk/FilesystemInfo.cpp\<close>; \<open>Fs_Probes\<close>, \<open>Fs_Info_Agree\<close>: it agrees with the detection;
    \<open>Fs_Info_Correct\<close>, \<open>Fs_Info_Ntfs\<close>: it gives back what the format engine wrote, and what it makes of
    crafted volumes.
  \<^item> \<open>File_Recovery\<close>, \<open>File_Scanners\<close>: \<open>recovery/FileRecovery.cpp\<close>: reads relative to the partition, carving
    and the copy to the output; the scans of the file systems. \<open>File_Copy\<close>, \<open>File_Undelete\<close>, \<open>File_Carving\<close>,
    \<open>File_Ntfs\<close>: what is copied, what the scans and the copy promise together, and where they fail.
  \<^item> \<open>Partition_Operations\<close>: its seven operations with \<open>execute\<close>, \<open>undo\<close> and \<open>description\<close>, and the
    class \<open>partition_ops\<close> they form for the queue.
  \<^item> \<open>Gpt_Operations\<close>: the creation of a partition on a GPT disk, end to end.
  \<^item> This theory: the queue, the operation, the table and the disk together.

  \<^bold>\<open>How the code is represented.\<close> Structs are records with the C++ members, integers are words of their
  width, a \<open>Result\<close> is a sum with the error on the left, a buffer is a list of bytes. A method that
  changes its object returns the changed record. A read or write outside a buffer, a division by
  zero, or a conversion that C++ leaves undefined has the outcome \<open>Undef\<close>; a loop over links on the
  disk is a partial function, and a run that does not return has the outcome \<open>Diverges\<close>. No fuel is
  used. The world of the operations is abstract: the Win32 API is a record of functions over it, and
  what the code relies on is stated by \<open>handle_laws\<close> (which handles are open), \<open>content_laws\<close> (a
  successful read delivers the bytes of the disk, a complete write stores them) and \<open>disk_works\<close> (the
  disk has no faults). The laws are satisfied by an API on one disk in memory, \<open>sim_win32\<close>, which the
  witnesses use. A scope with an owned handle is \<open>withDisk\<close> or \<open>withVolume\<close>: its destructor runs on
  every path. The tools \<open>format.com\<close> and \<open>chkdsk.exe\<close>, the clock, random bytes and
  the printing of floating point numbers are arguments of the operations (\<open>env\<close>). Calls for which the
  code ignores the result (\<open>notifyKernel\<close>) are made and their result is dropped.

  \<^bold>\<open>What is shown.\<close>
  \<^item> Tables: every sequence of edits keeps the layout (distinct numbers, ranges inside the usable area and
    disjoint); exactly when an addition to a GPT table succeeds; refused edits change nothing;
    serialized tables parse back, for MBR with its EBR chain, for GPT from the primary and from the
    backup copy; the checksums written are those the parser accepts; the EBR walk returns on chains that
    go forward and hangs on one that does not.
  \<^item> Codecs and arithmetic: round trips of GUID text, CHS addresses and UTF-16 names; the table-driven
    CRC-32 equals the bitwise one and detects bursts; alignment.
  \<^item> Queue: a run is the sequential execution up to the first failure, its signals are in range and
    complete, a cancel request stops it, the life cycle of the operations holds in every reachable
    state.
  \<^item> Disk access: sectors read back as written and writes change nothing else; a GPT table written by
    \<open>writePartitionTable\<close> is read back by \<open>readPartitionTable\<close>; where its backup copy lands.
  \<^item> File systems: detection on a buffer is defined except in two cases; what the ext, FAT32 and swap
    writers put on a partition is recognized by the probes; the writes of the ext writer stay inside the
    partition if the last group has room, and do not otherwise; bitmaps and free counts agree; which
    groups get a superblock copy; the FAT32 layout fits.
  \<^item> Confinement: formatting a partition and erasing a range change nothing outside it, whatever fails.
  \<^item> Erasure: a pass fills the range with its pattern; a verified erasure leaves the last pattern in the
    whole range; exactly when a pass returns; locked volumes are released.
  \<^item> Recovery: what a scan reports and when it returns; a partition that the format engine made is found
    with its size; recovery adds a candidate to the table on the disk or changes nothing.
  \<^item> Details of file systems: they agree with the detection and with the layout that was formatted; the
    NTFS reader does not return on a cyclic attribute list.
  \<^item> Deleted files: a FAT file comes back byte for byte if its clusters are contiguous, an ext file as its direct
    blocks; carving finds every signature at the start of a sector and copies up to the first footer it
    can see; the scan of the NTFS file table does not return on a cyclic attribute list.
  \<^item> Checksums: the checksum of a sector range or file is that of its bytes however they are read, files are
    closed on every path; the two CRC-32 implementations agree.
  \<^item> Operations: no operation leaks a handle on any path; creating a partition on a GPT disk writes the
    table that \<open>addPartition\<close> makes of the table on the disk; undo through the queue restores it.

  \<^bold>\<open>Bounds.\<close> The theorems about tables on a disk assume that the serialized table fits one \<open>WriteFile\<close>
  call (below \<open>2 ^ 32\<close> bytes) and the disk, and that no requested range wraps past \<open>2 ^ 64\<close>; what happens
  otherwise is stated separately (\<open>gpt_add_wraps\<close>).

  \<^bold>\<open>Not modelled.\<close> The imaging components other than the checksums and the repair of boot code. Disk enumeration, SMART, diagnostics, downloads, logging, the security components and the
  user interface are calls of operating system, Qt or cryptographic libraries around little logic of
  their own.
\<close>

section \<open>The queue on a GPT disk\<close>

lemma applyAll_single:
  assumes "q_pending q = []" "execute C (op_body op) w = Done (ok, reports, b, w')"
  shows "\<exists>q' sg. applyAll C (\<lambda>i. False) (enqueue (Some op) q) w = Done (ok, q', w', sg) \<and> q_lastRunSuccess q' \<and>
    q_pending q' = [] \<and> q_history q' = q_history q @ [op\<lparr>op_state := Completed, op_body := b\<rparr>]"
  using assms by (simp add: applyAll_def enqueue_def Let_def)

lemma undoLast_completed:
  assumes "q_history q = h @ [op]" "canUndo C (op_body op)" "op_state op = Completed"
    and "undo C (op_body op) w = Done (ok, b, w')"
  shows "canUndoLast C q" "\<exists>q'. undoLast C q w = Done (ok, q', w') \<and> \<not> canUndoLast C q'"
  using assms by (auto simp: canUndoLast_def undoLast_def Let_def)

text \<open>
  C4. A partition that was created through the queue can be taken back through the queue. Let the
  queue have no pending operations, and let the creation of a partition on a GPT disk succeed. Then
  applying the queue with that one operation succeeds and offers an undo; \<open>undoLast\<close> succeeds, after
  it no undo is offered, and the partition table read from the disk has exactly the entries it had
  before, in the same order.
\<close>

theorem queue_create_undo:
  assumes "win32_laws (env_win32 E) V" "disk_works (env_win32 E) V d" "gpt_disk t (contents V w d)"
    and "gpt_fits t (contents V w d)" "gpt_request p" "cr_diskId p = d" "cr_sectorSize p = gpt_sectorSize t"
    and "\<not> cr_formatAfter p" "create_execute E (newCreateOp p) w = Done (ok, ps, op, w')" "q_pending q = []"
  shows "\<exists>q' sg q'' w'' t1 w1 t2 w2.
    applyAll (partition_ops E) (\<lambda>i. False) (enqueue (Some (newPartitionOperation (CreateOp (newCreateOp p)))) q) w =
      Done (ok, q', w', sg) \<and> q_lastRunSuccess q' \<and> canUndoLast (partition_ops E) q' \<and>
    undoLast (partition_ops E) q' w' = Done (ok, q'', w'') \<and> \<not> canUndoLast (partition_ops E) q'' \<and>
    readPartitionTable (env_win32 E) d (gpt_sectorSize t) w = Done (Inr (GptPT t1), w1) \<and>
    readPartitionTable (env_win32 E) d (gpt_sectorSize t) w'' = Done (Inr (GptPT t2), w2) \<and>
    gpt_entries t2 = gpt_entries t1"
proof -
  let ?C = "partition_ops E" and ?op = "newPartitionOperation (CreateOp (newCreateOp p))"
  from create_then_undo [OF assms(1-9)] obtain op' w'' t1 w1 t2 w2 where
    can: "create_canUndo op" and un: "create_undo E op w' = Done (ok, [], op', w'')" and
    rd: "readPartitionTable (env_win32 E) d (gpt_sectorSize t) w = Done (Inr (GptPT t1), w1)"
    "readPartitionTable (env_win32 E) d (gpt_sectorSize t) w'' = Done (Inr (GptPT t2), w2)"
    "gpt_entries t2 = gpt_entries t1" by blast
  have "execute ?C (op_body ?op) w = Done (ok, ps, CreateOp op, w')"
    using assms(9) by (simp add: partition_ops_def newPartitionOperation_def newOperation_def as_op_def)
  from applyAll_single [OF assms(10) this] obtain q' sg where
    ap: "applyAll ?C (\<lambda>i. False) (enqueue (Some ?op) q) w = Done (ok, q', w', sg)" "q_lastRunSuccess q'"
    and hist: "q_history q' = q_history q @ [?op\<lparr>op_state := Completed, op_body := CreateOp op\<rparr>]"
    by blast
  have "canUndoLast ?C q'" "\<exists>q''. undoLast ?C q' w' = Done (ok, q'', w'') \<and> \<not> canUndoLast ?C q''"
    using undoLast_completed [OF hist, of ?C w' "CreateOp op'" w''] can un
    by (simp_all add: partition_ops_def as_op_def without_reports_def)
  with ap rd show ?thesis by blast
qed

theorem queue_create_undo_witness:
  "\<exists>q' sg q'' w' w'' t1 w1 t2 w2.
    applyAll (partition_ops sim_env) (\<lambda>i. False)
      (enqueue (Some (newPartitionOperation (CreateOp (newCreateOp sample_request)))) newQueue) gpt_world =
      Done (ok, q', w', sg) \<and> undoLast (partition_ops sim_env) q' w' = Done (ok, q'', w'') \<and>
    readPartitionTable sim_win32 0 512 gpt_world = Done (Inr (GptPT t1), w1) \<and>
    readPartitionTable sim_win32 0 512 w'' = Done (Inr (GptPT t2), w2) \<and> gpt_entries t2 = gpt_entries t1"
proof -
  obtain ps op w' where ex: "create_execute sim_env (newCreateOp sample_request) gpt_world = Done (ok, ps, op, w')"
    using sample_create by blast
  have "q_pending newQueue = []" by (simp add: newQueue_def)
  with ex queue_create_undo [of sim_env, unfolded sim_env_win32, OF sim_win32_laws sim_disk_works gpt_world_disk
      sample_request_simps ex, of newQueue, unfolded sample_gpt_sectors]
  show ?thesis by blast
qed

end
